(* ===== verification/Prelude.thy ===== *)
theory Prelude
  imports Main "HOL-Library.Word" "HOL-Library.Signed_Division" "HOL-Library.Monad_Syntax"
begin

text \<open>The shared ground of the development: the machine types of the driver (u8, u16, u32 at
  their width), little-endian byte access to a block of memory, and the lemmas on lists, options
  and words that the component theories use.

  Conventions.  An operation of the driver that touches memory returns an option: None is a run
  that C does not define (an access outside its allocation, a NULL dereference, or the endless
  loop of BUG_ON), Some is a run that returns.  Error codes of the driver are ordinary values.
  The target is the little-endian 32-bit AnKai V330 build of src/os/ankai_V330/Makefile.\<close>

unbundle bit_operations_syntax

type_synonym u8 = "8 word"
type_synonym u16 = "16 word"
type_synonym u32 = "32 word"
type_synonym bytes = "u8 list"
type_synonym mac = "u8 list"

abbreviation (input) EINVAL :: int where "EINVAL \<equiv> 22"

named_theorems mem_simps \<open>unfolding rules of the memory accessors\<close>
named_theorems fc_defs \<open>definitions of the frame control predicates\<close>
named_theorems skb_defs \<open>definitions of the socket buffer operations\<close>

subsection \<open>Memory blocks\<close>

text \<open>A C object whose bounds matter is a list of bytes; a pointer into it is an integer offset.
  Reads and writes outside the object are undefined.\<close>

definition rdn :: "bytes \<Rightarrow> int \<Rightarrow> nat \<Rightarrow> bytes option" where
  "rdn m i n = (if 0 \<le> i \<and> i + int n \<le> int (length m)
                then Some (take n (drop (nat i) m)) else None)"

definition wrn :: "bytes \<Rightarrow> int \<Rightarrow> bytes \<Rightarrow> bytes option" where
  "wrn m i bs = (if 0 \<le> i \<and> i + int (length bs) \<le> int (length m)
                 then Some (take (nat i) m @ bs @ drop (nat i + length bs) m) else None)"

definition rd8 :: "bytes \<Rightarrow> int \<Rightarrow> u8 option" where
  "rd8 m i = (if 0 \<le> i \<and> i < int (length m) then Some (m ! nat i) else None)"

definition le16 :: "u8 \<Rightarrow> u8 \<Rightarrow> u16" where
  "le16 lo hi = ucast lo OR push_bit 8 (ucast hi)"

definition be16 :: "u8 \<Rightarrow> u8 \<Rightarrow> u16" where
  "be16 hi lo = ucast lo OR push_bit 8 (ucast hi)"

definition lo8 :: "u16 \<Rightarrow> u8" where "lo8 w = ucast w"
definition hi8 :: "u16 \<Rightarrow> u8" where "hi8 w = ucast (drop_bit 8 w)"

definition bytes16 :: "u16 \<Rightarrow> bytes" where "bytes16 w = [lo8 w, hi8 w]"

definition le32 :: "u8 \<Rightarrow> u8 \<Rightarrow> u8 \<Rightarrow> u8 \<Rightarrow> u32" where
  "le32 a b c d = ucast a OR push_bit 8 (ucast b) OR push_bit 16 (ucast c) OR push_bit 24 (ucast d)"

definition bytes32 :: "u32 \<Rightarrow> bytes" where
  "bytes32 w = [ucast w, ucast (drop_bit 8 w), ucast (drop_bit 16 w), ucast (drop_bit 24 w)]"

definition rd16 :: "bytes \<Rightarrow> int \<Rightarrow> u16 option" where
  "rd16 m i = do { b0 \<leftarrow> rd8 m i; b1 \<leftarrow> rd8 m (i + 1); Some (le16 b0 b1) }"

definition rd32 :: "bytes \<Rightarrow> int \<Rightarrow> u32 option" where
  "rd32 m i = do { b0 \<leftarrow> rd8 m i; b1 \<leftarrow> rd8 m (i + 1); b2 \<leftarrow> rd8 m (i + 2);
                   b3 \<leftarrow> rd8 m (i + 3); Some (le32 b0 b1 b2 b3) }"

definition wr16 :: "bytes \<Rightarrow> int \<Rightarrow> u16 \<Rightarrow> bytes option" where
  "wr16 m i w = wrn m i (bytes16 w)"

definition wr32 :: "bytes \<Rightarrow> int \<Rightarrow> u32 \<Rightarrow> bytes option" where
  "wr32 m i w = wrn m i (bytes32 w)"

definition ntohs :: "u16 \<Rightarrow> u16" where
  "ntohs w = le16 (hi8 w) (lo8 w)"

definition guard :: "bool \<Rightarrow> unit option" where
  "guard b = (if b then Some () else None)"

lemma guard_simps [simp]:
  "guard True = Some ()" "guard False = None"
  "(guard b = Some u) = b" "(guard b = None) = (\<not> b)"
  by (auto simp: guard_def)

lemma rdn_Some [mem_simps]:
  "rdn m i n = Some bs \<longleftrightarrow>
     0 \<le> i \<and> i + int n \<le> int (length m) \<and> bs = take n (drop (nat i) m)"
  by (auto simp: rdn_def)

lemma wrn_Some [mem_simps]:
  "wrn m i bs = Some m' \<longleftrightarrow>
     0 \<le> i \<and> i + int (length bs) \<le> int (length m) \<and>
     m' = take (nat i) m @ bs @ drop (nat i + length bs) m"
  by (auto simp: wrn_def)

lemma rd8_Some [mem_simps]:
  "rd8 m i = Some b \<longleftrightarrow> 0 \<le> i \<and> i < int (length m) \<and> b = m ! nat i"
  by (auto simp: rd8_def)

lemma wrn_length: "wrn m i bs = Some m' \<Longrightarrow> length m' = length m"
  by (auto simp: mem_simps)

lemma wrn_nth:
  assumes "wrn m i bs = Some m'" "k < length m"
  shows "m' ! k = (if nat i \<le> k \<and> k < nat i + length bs then bs ! (k - nat i) else m ! k)"
  using assms by (auto simp: mem_simps nth_append min_def)

lemma rdn_wrn_same:
  "wrn m i bs = Some m' \<Longrightarrow> rdn m' i (length bs) = Some bs"
  by (auto simp: mem_simps min_def)

lemma rdn_wrn_other:
  assumes "wrn m i bs = Some m'" "j + int n \<le> i \<or> i + int (length bs) \<le> j"
  shows "rdn m' j n = rdn m j n"
proof (cases "0 \<le> j \<and> j + int n \<le> int (length m)")
  case True
  have L: "length m' = length m" using assms(1) by (rule wrn_length)
  have "take n (drop (nat j) m') = take n (drop (nat j) m)"
  proof (rule nth_equalityI)
    show "length (take n (drop (nat j) m')) = length (take n (drop (nat j) m))" using L by simp
    fix k assume k: "k < length (take n (drop (nat j) m'))"
    then have "nat j + k < length m" "\<not> (nat i \<le> nat j + k \<and> nat j + k < nat i + length bs)"
      using True L assms(1,2) by (auto simp: mem_simps)
    then show "take n (drop (nat j) m') ! k = take n (drop (nat j) m) ! k"
      using k True L wrn_nth[OF assms(1), of "nat j + k"] by auto
  qed
  then show ?thesis using True L by (simp add: rdn_def)
next
  case False
  then show ?thesis using wrn_length[OF assms(1)] by (auto simp: rdn_def)
qed

lemma bytes16_length [simp]: "length (bytes16 w) = 2" by (simp add: bytes16_def)
lemma bytes32_length [simp]: "length (bytes32 w) = 4" by (simp add: bytes32_def)

lemma le16_bytes [simp]: "le16 (lo8 w) (hi8 w) = w"
  unfolding le16_def lo8_def hi8_def
  by (rule bit_word_eqI) (auto simp: bit_simps)

lemma lo8_le16 [simp]: "lo8 (le16 a b) = a"
  unfolding le16_def lo8_def
  by (rule bit_word_eqI) (auto simp: bit_simps)

lemma hi8_le16 [simp]: "hi8 (le16 a b) = b"
  unfolding le16_def hi8_def
  by (rule bit_word_eqI) (auto simp: bit_simps dest: bit_imp_le_length)

lemma ntohs_ntohs [simp]: "ntohs (ntohs w) = w"
  by (simp add: ntohs_def)

lemma le32_bytes [simp]:
  "le32 (ucast w) (ucast (drop_bit 8 w)) (ucast (drop_bit 16 w)) (ucast (drop_bit 24 w)) = w"
  unfolding le32_def
proof (rule bit_word_eqI)
  fix n :: nat assume n: "n < LENGTH(32)"
  then consider "n < 8" | "8 \<le> n" "n < 16" | "16 \<le> n" "n < 24" | "24 \<le> n" "n < 32"
    by force
  then show "bit (ucast (ucast w :: u8) OR push_bit 8 (ucast (ucast (drop_bit 8 w) :: u8))
      OR push_bit 16 (ucast (ucast (drop_bit 16 w) :: u8))
      OR push_bit 24 (ucast (ucast (drop_bit 24 w) :: u8)) :: u32) n = bit w n"
    by cases (auto simp: bit_simps)
qed

lemma rd16_wr16: "wr16 m i w = Some m' \<Longrightarrow> rd16 m' i = Some w"
  by (auto simp: wr16_def rd16_def mem_simps rd8_def nth_append bytes16_def min_def
      nat_add_distrib)

subsection \<open>Words\<close>

lemma word_and_not_mask:
  "x AND NOT (mask n) = push_bit n (drop_bit n (x::'a::len word))"
  by (rule bit_word_eqI) (auto simp: bit_simps)

lemma unat_round_down:
  "unat (push_bit n (drop_bit n (x::'a::len word))) = unat x div 2 ^ n * 2 ^ n"
proof -
  have "push_bit n (drop_bit n x) = x - take_bit n x"
    using bits_ident[of n x] by (simp add: eq_diff_eq)
  moreover have t: "unat (take_bit n x) = unat x mod 2 ^ n"
    by (rule trans[OF unsigned_take_bit_eq take_bit_eq_mod])
  moreover have "take_bit n x \<le> x"
    by (simp only: word_le_nat_alt t) simp
  ultimately have "unat (push_bit n (drop_bit n x)) = unat x - unat x mod 2 ^ n"
    by (simp only: unat_sub)
  then show ?thesis by (simp add: minus_mod_eq_div_mult)
qed

lemma unat_lt2p: "unat (x::'a::len word) < 2 ^ LENGTH('a)"
  by (rule unsigned_less)

lemma unat_ucast16: "unat (ucast (w :: u16) :: u32) = unat w"
  using unat_lt2p[of w] by (simp add: unsigned_ucast_eq unsigned_take_bit_eq take_bit_nat_eq_self)

lemma unat_plus_of_nat:
  "unat (x::'a::len word) + n < 2 ^ LENGTH('a) \<Longrightarrow> unat (x + of_nat n) = unat x + n"
  by (simp add: unat_word_ariths unat_of_nat)

lemma unat_minus_of_nat:
  assumes "n \<le> unat (x::'a::len word)" shows "unat (x - of_nat n) = unat x - n"
proof -
  have "n < 2 ^ LENGTH('a)" using assms unat_lt2p[of x] by linarith
  then have u: "unat (of_nat n :: 'a word) = n" by (simp add: unat_of_nat)
  then have "of_nat n \<le> x" using assms by (simp add: word_le_nat_alt)
  then show ?thesis by (simp add: unat_sub u)
qed

end
