(* ===== verification/Ieee80211.thy ===== *)
theory Ieee80211
  imports Prelude
begin

text \<open>The 802.11 frame helpers of os/ankai_V330/atbm_os_proto.c, lines 1 to 384 and 785 to 825: the
  predicates on the frame control field, the positions of the addresses and of the QoS field in a
  header, the header length, robust management frames, and the conversions between channel
  numbers and frequencies.

  A frame control value is the u16 in the memory order of the little-endian target, so cpu_to_le16
  is the identity.  A header pointer is an offset into a block of bytes (see Prelude).\<close>

subsection \<open>Constants of os/ankai_V330/atbm_os.h\<close>

abbreviation (input) IEEE80211_FCTL_VERS :: u16 where "IEEE80211_FCTL_VERS \<equiv> 3"
abbreviation (input) IEEE80211_FCTL_FTYPE :: u16 where "IEEE80211_FCTL_FTYPE \<equiv> 0xC"
abbreviation (input) IEEE80211_FCTL_STYPE :: u16 where "IEEE80211_FCTL_STYPE \<equiv> 0xF0"
abbreviation (input) IEEE80211_FCTL_TODS :: u16 where "IEEE80211_FCTL_TODS \<equiv> 0x100"
abbreviation (input) IEEE80211_FCTL_FROMDS :: u16 where "IEEE80211_FCTL_FROMDS \<equiv> 0x200"
abbreviation (input) IEEE80211_FCTL_MOREFRAGS :: u16 where "IEEE80211_FCTL_MOREFRAGS \<equiv> 0x400"
abbreviation (input) IEEE80211_FCTL_RETRY :: u16 where "IEEE80211_FCTL_RETRY \<equiv> 0x800"
abbreviation (input) IEEE80211_FCTL_PM :: u16 where "IEEE80211_FCTL_PM \<equiv> 0x1000"
abbreviation (input) IEEE80211_FCTL_MOREDATA :: u16 where "IEEE80211_FCTL_MOREDATA \<equiv> 0x2000"
abbreviation (input) IEEE80211_FCTL_PROTECTED :: u16 where "IEEE80211_FCTL_PROTECTED \<equiv> 0x4000"
abbreviation (input) IEEE80211_FCTL_ORDER :: u16 where "IEEE80211_FCTL_ORDER \<equiv> 0x8000"
abbreviation (input) IEEE80211_SCTL_FRAG :: u16 where "IEEE80211_SCTL_FRAG \<equiv> 0xF"
abbreviation (input) IEEE80211_SCTL_SEQ :: u16 where "IEEE80211_SCTL_SEQ \<equiv> 0xFFF0"
abbreviation (input) IEEE80211_FTYPE_MGMT :: u16 where "IEEE80211_FTYPE_MGMT \<equiv> 0"
abbreviation (input) IEEE80211_FTYPE_CTL :: u16 where "IEEE80211_FTYPE_CTL \<equiv> 4"
abbreviation (input) IEEE80211_FTYPE_DATA :: u16 where "IEEE80211_FTYPE_DATA \<equiv> 8"
abbreviation (input) IEEE80211_STYPE_ASSOC_REQ :: u16 where "IEEE80211_STYPE_ASSOC_REQ \<equiv> 0"
abbreviation (input) IEEE80211_STYPE_ASSOC_RESP :: u16 where "IEEE80211_STYPE_ASSOC_RESP \<equiv> 0x10"
abbreviation (input) IEEE80211_STYPE_REASSOC_REQ :: u16 where "IEEE80211_STYPE_REASSOC_REQ \<equiv> 0x20"
abbreviation (input) IEEE80211_STYPE_REASSOC_RESP :: u16 where "IEEE80211_STYPE_REASSOC_RESP \<equiv> 0x30"
abbreviation (input) IEEE80211_STYPE_PROBE_REQ :: u16 where "IEEE80211_STYPE_PROBE_REQ \<equiv> 0x40"
abbreviation (input) IEEE80211_STYPE_PROBE_RESP :: u16 where "IEEE80211_STYPE_PROBE_RESP \<equiv> 0x50"
abbreviation (input) IEEE80211_STYPE_BEACON :: u16 where "IEEE80211_STYPE_BEACON \<equiv> 0x80"
abbreviation (input) IEEE80211_STYPE_ATIM :: u16 where "IEEE80211_STYPE_ATIM \<equiv> 0x90"
abbreviation (input) IEEE80211_STYPE_DISASSOC :: u16 where "IEEE80211_STYPE_DISASSOC \<equiv> 0xA0"
abbreviation (input) IEEE80211_STYPE_AUTH :: u16 where "IEEE80211_STYPE_AUTH \<equiv> 0xB0"
abbreviation (input) IEEE80211_STYPE_DEAUTH :: u16 where "IEEE80211_STYPE_DEAUTH \<equiv> 0xC0"
abbreviation (input) IEEE80211_STYPE_ACTION :: u16 where "IEEE80211_STYPE_ACTION \<equiv> 0xD0"
abbreviation (input) IEEE80211_STYPE_BACK_REQ :: u16 where "IEEE80211_STYPE_BACK_REQ \<equiv> 0x80"
abbreviation (input) IEEE80211_STYPE_BACK :: u16 where "IEEE80211_STYPE_BACK \<equiv> 0x90"
abbreviation (input) IEEE80211_STYPE_PSPOLL :: u16 where "IEEE80211_STYPE_PSPOLL \<equiv> 0xA0"
abbreviation (input) IEEE80211_STYPE_RTS :: u16 where "IEEE80211_STYPE_RTS \<equiv> 0xB0"
abbreviation (input) IEEE80211_STYPE_CTS :: u16 where "IEEE80211_STYPE_CTS \<equiv> 0xC0"
abbreviation (input) IEEE80211_STYPE_ACK :: u16 where "IEEE80211_STYPE_ACK \<equiv> 0xD0"
abbreviation (input) IEEE80211_STYPE_CFEND :: u16 where "IEEE80211_STYPE_CFEND \<equiv> 0xE0"
abbreviation (input) IEEE80211_STYPE_CFENDACK :: u16 where "IEEE80211_STYPE_CFENDACK \<equiv> 0xF0"
abbreviation (input) IEEE80211_STYPE_DATA :: u16 where "IEEE80211_STYPE_DATA \<equiv> 0"
abbreviation (input) IEEE80211_STYPE_NULLFUNC :: u16 where "IEEE80211_STYPE_NULLFUNC \<equiv> 0x40"
abbreviation (input) IEEE80211_STYPE_QOS_DATA :: u16 where "IEEE80211_STYPE_QOS_DATA \<equiv> 0x80"
abbreviation (input) IEEE80211_STYPE_QOS_NULLFUNC :: u16 where "IEEE80211_STYPE_QOS_NULLFUNC \<equiv> 0xC0"
abbreviation (input) WLAN_CATEGORY_PUBLIC :: u8 where "WLAN_CATEGORY_PUBLIC \<equiv> 4"
abbreviation (input) WLAN_CATEGORY_HT :: u8 where "WLAN_CATEGORY_HT \<equiv> 7"
abbreviation (input) WLAN_CATEGORY_SELF_PROTECTED :: u8 where "WLAN_CATEGORY_SELF_PROTECTED \<equiv> 15"
abbreviation (input) WLAN_CATEGORY_VENDOR_SPECIFIC :: u8 where "WLAN_CATEGORY_VENDOR_SPECIFIC \<equiv> 127"
abbreviation (input) WLAN_CATEGORY_BACK :: u8 where "WLAN_CATEGORY_BACK \<equiv> 3"
abbreviation (input) IEEE80211_QOS_CTL_LEN :: u32 where "IEEE80211_QOS_CTL_LEN \<equiv> 2"
abbreviation (input) IEEE80211_HT_CTL_LEN :: u32 where "IEEE80211_HT_CTL_LEN \<equiv> 4"
abbreviation (input) IEEE80211_MIN_ACTION_SIZE :: u32 where "IEEE80211_MIN_ACTION_SIZE \<equiv> 25"

datatype ieee80211_band = IEEE80211_BAND_2GHZ | IEEE80211_BAND_5GHZ

subsection \<open>Predicates on the frame control field\<close>

definition ieee80211_has_tods :: "u16 \<Rightarrow> bool" where [fc_defs]:
  "ieee80211_has_tods fc = (fc AND IEEE80211_FCTL_TODS \<noteq> 0)"

definition ieee80211_has_fromds :: "u16 \<Rightarrow> bool" where [fc_defs]:
  "ieee80211_has_fromds fc = (fc AND IEEE80211_FCTL_FROMDS \<noteq> 0)"

definition ieee80211_has_a4 :: "u16 \<Rightarrow> bool" where [fc_defs]:
  "ieee80211_has_a4 fc =
     (let tmp = IEEE80211_FCTL_TODS OR IEEE80211_FCTL_FROMDS in fc AND tmp = tmp)"

definition ieee80211_has_morefrags :: "u16 \<Rightarrow> bool" where [fc_defs]:
  "ieee80211_has_morefrags fc = (fc AND IEEE80211_FCTL_MOREFRAGS \<noteq> 0)"

definition ieee80211_has_retry :: "u16 \<Rightarrow> bool" where [fc_defs]:
  "ieee80211_has_retry fc = (fc AND IEEE80211_FCTL_RETRY \<noteq> 0)"

definition ieee80211_has_pm :: "u16 \<Rightarrow> bool" where [fc_defs]:
  "ieee80211_has_pm fc = (fc AND IEEE80211_FCTL_PM \<noteq> 0)"

definition ieee80211_has_moredata :: "u16 \<Rightarrow> bool" where [fc_defs]:
  "ieee80211_has_moredata fc = (fc AND IEEE80211_FCTL_MOREDATA \<noteq> 0)"

definition ieee80211_has_protected :: "u16 \<Rightarrow> bool" where [fc_defs]:
  "ieee80211_has_protected fc = (fc AND IEEE80211_FCTL_PROTECTED \<noteq> 0)"

definition ieee80211_has_order :: "u16 \<Rightarrow> bool" where [fc_defs]:
  "ieee80211_has_order fc = (fc AND IEEE80211_FCTL_ORDER \<noteq> 0)"

definition ieee80211_is_mgmt :: "u16 \<Rightarrow> bool" where [fc_defs]:
  "ieee80211_is_mgmt fc = (fc AND IEEE80211_FCTL_FTYPE = IEEE80211_FTYPE_MGMT)"

definition ieee80211_is_ctl :: "u16 \<Rightarrow> bool" where [fc_defs]:
  "ieee80211_is_ctl fc = (fc AND IEEE80211_FCTL_FTYPE = IEEE80211_FTYPE_CTL)"

definition ieee80211_is_data :: "u16 \<Rightarrow> bool" where [fc_defs]:
  "ieee80211_is_data fc = (fc AND IEEE80211_FCTL_FTYPE = IEEE80211_FTYPE_DATA)"

definition ieee80211_is_data_qos :: "u16 \<Rightarrow> bool" where [fc_defs]:
  "ieee80211_is_data_qos fc = (fc AND (IEEE80211_FCTL_FTYPE OR IEEE80211_STYPE_QOS_DATA)
      = IEEE80211_FTYPE_DATA OR IEEE80211_STYPE_QOS_DATA)"

definition ieee80211_is_data_present :: "u16 \<Rightarrow> bool" where [fc_defs]:
  "ieee80211_is_data_present fc = (fc AND (IEEE80211_FCTL_FTYPE OR 0x40) = IEEE80211_FTYPE_DATA)"

definition ieee80211_is_assoc_req :: "u16 \<Rightarrow> bool" where [fc_defs]:
  "ieee80211_is_assoc_req fc = (fc AND (IEEE80211_FCTL_FTYPE OR IEEE80211_FCTL_STYPE)
      = IEEE80211_FTYPE_MGMT OR IEEE80211_STYPE_ASSOC_REQ)"

definition ieee80211_is_assoc_resp :: "u16 \<Rightarrow> bool" where [fc_defs]:
  "ieee80211_is_assoc_resp fc = (fc AND (IEEE80211_FCTL_FTYPE OR IEEE80211_FCTL_STYPE)
      = IEEE80211_FTYPE_MGMT OR IEEE80211_STYPE_ASSOC_RESP)"

definition ieee80211_is_reassoc_req :: "u16 \<Rightarrow> bool" where [fc_defs]:
  "ieee80211_is_reassoc_req fc = (fc AND (IEEE80211_FCTL_FTYPE OR IEEE80211_FCTL_STYPE)
      = IEEE80211_FTYPE_MGMT OR IEEE80211_STYPE_REASSOC_REQ)"

definition ieee80211_is_reassoc_resp :: "u16 \<Rightarrow> bool" where [fc_defs]:
  "ieee80211_is_reassoc_resp fc = (fc AND (IEEE80211_FCTL_FTYPE OR IEEE80211_FCTL_STYPE)
      = IEEE80211_FTYPE_MGMT OR IEEE80211_STYPE_REASSOC_RESP)"

definition ieee80211_is_probe_req :: "u16 \<Rightarrow> bool" where [fc_defs]:
  "ieee80211_is_probe_req fc = (fc AND (IEEE80211_FCTL_FTYPE OR IEEE80211_FCTL_STYPE)
      = IEEE80211_FTYPE_MGMT OR IEEE80211_STYPE_PROBE_REQ)"

definition ieee80211_is_probe_resp :: "u16 \<Rightarrow> bool" where [fc_defs]:
  "ieee80211_is_probe_resp fc = (fc AND (IEEE80211_FCTL_FTYPE OR IEEE80211_FCTL_STYPE)
      = IEEE80211_FTYPE_MGMT OR IEEE80211_STYPE_PROBE_RESP)"

definition ieee80211_is_beacon :: "u16 \<Rightarrow> bool" where [fc_defs]:
  "ieee80211_is_beacon fc = (fc AND (IEEE80211_FCTL_FTYPE OR IEEE80211_FCTL_STYPE)
      = IEEE80211_FTYPE_MGMT OR IEEE80211_STYPE_BEACON)"

definition ieee80211_is_atim :: "u16 \<Rightarrow> bool" where [fc_defs]:
  "ieee80211_is_atim fc = (fc AND (IEEE80211_FCTL_FTYPE OR IEEE80211_FCTL_STYPE)
      = IEEE80211_FTYPE_MGMT OR IEEE80211_STYPE_ATIM)"

definition ieee80211_is_disassoc :: "u16 \<Rightarrow> bool" where [fc_defs]:
  "ieee80211_is_disassoc fc = (fc AND (IEEE80211_FCTL_FTYPE OR IEEE80211_FCTL_STYPE)
      = IEEE80211_FTYPE_MGMT OR IEEE80211_STYPE_DISASSOC)"

definition ieee80211_is_auth :: "u16 \<Rightarrow> bool" where [fc_defs]:
  "ieee80211_is_auth fc = (fc AND (IEEE80211_FCTL_FTYPE OR IEEE80211_FCTL_STYPE)
      = IEEE80211_FTYPE_MGMT OR IEEE80211_STYPE_AUTH)"

definition ieee80211_is_deauth :: "u16 \<Rightarrow> bool" where [fc_defs]:
  "ieee80211_is_deauth fc = (fc AND (IEEE80211_FCTL_FTYPE OR IEEE80211_FCTL_STYPE)
      = IEEE80211_FTYPE_MGMT OR IEEE80211_STYPE_DEAUTH)"

definition ieee80211_is_action :: "u16 \<Rightarrow> bool" where [fc_defs]:
  "ieee80211_is_action fc = (fc AND (IEEE80211_FCTL_FTYPE OR IEEE80211_FCTL_STYPE)
      = IEEE80211_FTYPE_MGMT OR IEEE80211_STYPE_ACTION)"

definition ieee80211_is_back_req :: "u16 \<Rightarrow> bool" where [fc_defs]:
  "ieee80211_is_back_req fc = (fc AND (IEEE80211_FCTL_FTYPE OR IEEE80211_FCTL_STYPE)
      = IEEE80211_FTYPE_CTL OR IEEE80211_STYPE_BACK_REQ)"

definition ieee80211_is_back :: "u16 \<Rightarrow> bool" where [fc_defs]:
  "ieee80211_is_back fc = (fc AND (IEEE80211_FCTL_FTYPE OR IEEE80211_FCTL_STYPE)
      = IEEE80211_FTYPE_CTL OR IEEE80211_STYPE_BACK)"

definition ieee80211_is_pspoll :: "u16 \<Rightarrow> bool" where [fc_defs]:
  "ieee80211_is_pspoll fc = (fc AND (IEEE80211_FCTL_FTYPE OR IEEE80211_FCTL_STYPE)
      = IEEE80211_FTYPE_CTL OR IEEE80211_STYPE_PSPOLL)"

definition ieee80211_is_rts :: "u16 \<Rightarrow> bool" where [fc_defs]:
  "ieee80211_is_rts fc = (fc AND (IEEE80211_FCTL_FTYPE OR IEEE80211_FCTL_STYPE)
      = IEEE80211_FTYPE_CTL OR IEEE80211_STYPE_RTS)"

definition ieee80211_is_cts :: "u16 \<Rightarrow> bool" where [fc_defs]:
  "ieee80211_is_cts fc = (fc AND (IEEE80211_FCTL_FTYPE OR IEEE80211_FCTL_STYPE)
      = IEEE80211_FTYPE_CTL OR IEEE80211_STYPE_CTS)"

definition ieee80211_is_ack :: "u16 \<Rightarrow> bool" where [fc_defs]:
  "ieee80211_is_ack fc = (fc AND (IEEE80211_FCTL_FTYPE OR IEEE80211_FCTL_STYPE)
      = IEEE80211_FTYPE_CTL OR IEEE80211_STYPE_ACK)"

definition ieee80211_is_cfend :: "u16 \<Rightarrow> bool" where [fc_defs]:
  "ieee80211_is_cfend fc = (fc AND (IEEE80211_FCTL_FTYPE OR IEEE80211_FCTL_STYPE)
      = IEEE80211_FTYPE_CTL OR IEEE80211_STYPE_CFEND)"

definition ieee80211_is_cfendack :: "u16 \<Rightarrow> bool" where [fc_defs]:
  "ieee80211_is_cfendack fc = (fc AND (IEEE80211_FCTL_FTYPE OR IEEE80211_FCTL_STYPE)
      = IEEE80211_FTYPE_CTL OR IEEE80211_STYPE_CFENDACK)"

definition ieee80211_is_nullfunc :: "u16 \<Rightarrow> bool" where [fc_defs]:
  "ieee80211_is_nullfunc fc = (fc AND (IEEE80211_FCTL_FTYPE OR IEEE80211_FCTL_STYPE)
      = IEEE80211_FTYPE_DATA OR IEEE80211_STYPE_NULLFUNC)"

definition ieee80211_is_qos_nullfunc :: "u16 \<Rightarrow> bool" where [fc_defs]:
  "ieee80211_is_qos_nullfunc fc = (fc AND (IEEE80211_FCTL_FTYPE OR IEEE80211_FCTL_STYPE)
      = IEEE80211_FTYPE_DATA OR IEEE80211_STYPE_QOS_NULLFUNC)"

definition ieee80211_is_first_frag :: "u16 \<Rightarrow> bool" where [fc_defs]:
  "ieee80211_is_first_frag seq_ctrl = (seq_ctrl AND IEEE80211_SCTL_FRAG = 0)"

subsection \<open>Fields of a header\<close>

text \<open>The C functions return pointers into the header; here they are the distances from the start
  of the header (addr1 at 4, addr2 at 10, addr3 at 16, addr4 at 24).\<close>

definition ieee80211_get_qos_ctl :: "u16 \<Rightarrow> int" where
  "ieee80211_get_qos_ctl fc = (if ieee80211_has_a4 fc then 30 else 24)"

definition ieee80211_get_SA :: "u16 \<Rightarrow> int" where
  "ieee80211_get_SA fc =
     (if ieee80211_has_a4 fc then 24
      else if ieee80211_has_fromds fc then 16 else 10)"

definition ieee80211_get_DA :: "u16 \<Rightarrow> int" where
  "ieee80211_get_DA fc = (if ieee80211_has_tods fc then 16 else 4)"

definition ieee80211_is_robust_mgmt_frame :: "bytes \<Rightarrow> int \<Rightarrow> bool option" where
  "ieee80211_is_robust_mgmt_frame m hdr = do {
     fc \<leftarrow> rd16 m hdr;
     if ieee80211_is_disassoc fc \<or> ieee80211_is_deauth fc then Some True
     else if ieee80211_is_action fc then
       (if ieee80211_has_protected fc then Some True
        else do {
          category \<leftarrow> rd8 m (hdr + 24);
          Some (category \<noteq> WLAN_CATEGORY_PUBLIC \<and> category \<noteq> WLAN_CATEGORY_HT \<and>
                category \<noteq> WLAN_CATEGORY_SELF_PROTECTED \<and>
                category \<noteq> WLAN_CATEGORY_VENDOR_SPECIFIC)
        })
     else Some False
   }"

definition ieee80211_is_public_action :: "bytes \<Rightarrow> int \<Rightarrow> u32 \<Rightarrow> bool option" where
  "ieee80211_is_public_action m hdr len =
     (if len < IEEE80211_MIN_ACTION_SIZE then Some False
      else do {
        fc \<leftarrow> rd16 m hdr;
        if \<not> ieee80211_is_action fc then Some False
        else do { category \<leftarrow> rd8 m (hdr + 24); Some (category = WLAN_CATEGORY_PUBLIC) }
      })"

definition ieee80211_hdrlen :: "u16 \<Rightarrow> u32" where
  "ieee80211_hdrlen fc =
     (let hdrlen = 24 in
      if ieee80211_is_data fc then
        (let hdrlen = (if ieee80211_has_a4 fc then 30 else hdrlen) in
         if ieee80211_is_data_qos fc then
           (let hdrlen = hdrlen + IEEE80211_QOS_CTL_LEN in
            if ieee80211_has_order fc then hdrlen + IEEE80211_HT_CTL_LEN else hdrlen)
         else hdrlen)
      else if ieee80211_is_ctl fc then
        (if fc AND 0x00E0 = 0x00C0 then 10 else 16)
      else hdrlen)"

subsection \<open>Channels and frequencies\<close>

text \<open>The int arguments are mathematical integers; no operation below overflows an int for
  channels and frequencies of magnitude below 2^28.  C division truncates towards zero
  (\<^term>\<open>(sdiv)\<close> of Signed_Division).\<close>

definition ieee80211_fhss_chan_to_freq :: "int \<Rightarrow> int" where
  "ieee80211_fhss_chan_to_freq channel =
     (if channel > 1 \<and> channel < 96 then channel + 2400 else -1)"

definition ieee80211_freq_to_fhss_chan :: "int \<Rightarrow> int" where
  "ieee80211_freq_to_fhss_chan freq =
     (if freq > 2401 \<and> freq < 2496 then freq - 2400 else -1)"

definition ieee80211_dsss_chan_to_freq :: "int \<Rightarrow> int" where
  "ieee80211_dsss_chan_to_freq channel =
     (if channel > 0 \<and> channel < 14 then 2407 + channel * 5
      else if channel = 14 then 2484 else -1)"

definition ieee80211_freq_to_dsss_chan :: "int \<Rightarrow> int" where
  "ieee80211_freq_to_dsss_chan freq =
     (if freq \<ge> 2410 \<and> freq < 2475 then (freq - 2405) sdiv 5
      else if freq \<ge> 2482 \<and> freq < 2487 then 14 else -1)"

definition ieee80211_ofdm_chan_to_freq :: "int \<Rightarrow> int \<Rightarrow> int" where
  "ieee80211_ofdm_chan_to_freq s_freq channel =
     (if channel > 0 \<and> channel \<le> 200 \<and> s_freq \<ge> 4000 then s_freq + channel * 5 else -1)"

definition ieee80211_freq_to_ofdm_chan :: "int \<Rightarrow> int \<Rightarrow> int" where
  "ieee80211_freq_to_ofdm_chan s_freq freq =
     (if freq > s_freq + 2 \<and> freq \<le> s_freq + 1202 \<and> s_freq \<ge> 4000
      then (freq + 2 - s_freq) sdiv 5 else -1)"

definition ieee80211_tu_to_usec :: "u32 \<Rightarrow> u32" where
  "ieee80211_tu_to_usec tu = 1024 * tu"

definition ieee80211_frequency_to_channel :: "int \<Rightarrow> int" where
  "ieee80211_frequency_to_channel freq =
     (if freq = 2484 then 14
      else if freq < 2484 then (freq - 2407) sdiv 5
      else if freq \<ge> 4910 \<and> freq \<le> 4980 then (freq - 4000) sdiv 5
      else (freq - 5000) sdiv 5)"

definition ieee80211_channel_to_frequency :: "int \<Rightarrow> ieee80211_band \<Rightarrow> int" where
  "ieee80211_channel_to_frequency chan band =
     (if band = IEEE80211_BAND_5GHZ then
        (if chan \<ge> 182 \<and> chan \<le> 196 then 4000 + chan * 5 else 5000 + chan * 5)
      else if chan = 14 then 2484
      else if chan < 14 then 2407 + chan * 5
      else 0)"

subsection \<open>What the helpers compute\<close>

lemma word_AND_eq_bits:
  "(x::'a::len word) AND m = k \<longleftrightarrow> (\<forall>n<LENGTH('a). (bit x n \<and> bit m n) = bit k n)"
  by (auto simp: bit_eq_iff bit_simps dest: bit_imp_le_length)

lemma all_less_16:
  "(\<forall>n<LENGTH(16). P n) = (P 0 \<and> P 1 \<and> P 2 \<and> P 3 \<and> P 4 \<and> P 5 \<and> P 6 \<and> P 7 \<and> P 8
     \<and> P 9 \<and> P 10 \<and> P 11 \<and> P 12 \<and> P 13 \<and> P 14 \<and> P (15::nat))"
  by (simp add: numeral_eq_Suc All_less_Suc2)

lemma ack_or_cts_mask:
  "((fc::u16) AND 0xE0 = 0xC0 \<and> fc AND 0xC = 4) \<longleftrightarrow> (fc AND 0xFC = 0xD4 \<or> fc AND 0xFC = 0xC4)"
  unfolding word_AND_eq_bits all_less_16
  by (simp add: bit_simps) auto

lemma ctl_ack_cts:
  "ieee80211_is_ctl fc \<Longrightarrow> (fc AND 0xE0 = 0xC0) = (ieee80211_is_ack fc \<or> ieee80211_is_cts fc)"
  using ack_or_cts_mask[of fc] by (simp add: fc_defs)

lemma data_qos_is_data: "ieee80211_is_data_qos fc \<Longrightarrow> ieee80211_is_data fc"
  unfolding fc_defs word_AND_eq_bits all_less_16 by (simp add: bit_simps)

lemma mgmt_ctl_data_excl:
  "ieee80211_is_mgmt fc \<Longrightarrow> \<not> ieee80211_is_ctl fc"
  "ieee80211_is_mgmt fc \<Longrightarrow> \<not> ieee80211_is_data fc"
  "ieee80211_is_ctl fc \<Longrightarrow> \<not> ieee80211_is_data fc"
  by (auto simp: fc_defs)

lemma has_a4_iff: "ieee80211_has_a4 fc \<longleftrightarrow> ieee80211_has_tods fc \<and> ieee80211_has_fromds fc"
  unfolding fc_defs Let_def word_AND_eq_bits all_less_16 by (simp add: bit_simps)

lemma hdrlen_cases:
  "ieee80211_hdrlen fc \<in> {10, 16, 24, 26, 30, 32, 36}"
  by (auto simp: ieee80211_hdrlen_def)

text \<open>ieee80211_hdrlen is the header length of the standard for every value of the field: 10 for ACK
  and CTS, which one mask tests together, 16 for other control frames, 24 plus the optional fourth
  address, QoS field and HT control field for data frames, and 24 for the rest.\<close>
theorem hdrlen_spec:
  "ieee80211_hdrlen fc =
     (if ieee80211_is_ctl fc
      then if ieee80211_is_ack fc \<or> ieee80211_is_cts fc then 10 else 16
      else if ieee80211_is_data fc
      then 24 + (if ieee80211_has_tods fc \<and> ieee80211_has_fromds fc then 6 else 0)
              + (if ieee80211_is_data_qos fc then 2 + (if ieee80211_has_order fc then 4 else 0) else 0)
      else 24)"
  using mgmt_ctl_data_excl(3)[of fc]
  by (auto simp: ieee80211_hdrlen_def ctl_ack_cts has_a4_iff)

definition ieee80211_subtypes :: "(u16 \<Rightarrow> bool) list" where
  "ieee80211_subtypes =
    [ieee80211_is_assoc_req, ieee80211_is_assoc_resp, ieee80211_is_reassoc_req,
     ieee80211_is_reassoc_resp, ieee80211_is_probe_req, ieee80211_is_probe_resp,
     ieee80211_is_beacon, ieee80211_is_atim, ieee80211_is_disassoc, ieee80211_is_auth,
     ieee80211_is_deauth, ieee80211_is_action, ieee80211_is_back_req, ieee80211_is_back,
     ieee80211_is_pspoll, ieee80211_is_rts, ieee80211_is_cts, ieee80211_is_ack,
     ieee80211_is_cfend, ieee80211_is_cfendack, ieee80211_is_nullfunc,
     ieee80211_is_qos_nullfunc]"

lemma filter_eq_const_le1: "distinct ks \<Longrightarrow> length (filter (\<lambda>k. x = k) ks) \<le> 1"
  by (induction ks) (auto simp: filter_empty_conv)

text \<open>At most one of the 22 subtype predicates holds of a frame control value.\<close>
theorem subtype_unique:
  "length (filter (\<lambda>p. p fc) ieee80211_subtypes) \<le> 1"
proof -
  define ks :: "u16 list" where "ks = [0, 0x10, 0x20, 0x30, 0x40, 0x50, 0x80, 0x90, 0xA0, 0xB0, 0xC0, 0xD0,
    0x84, 0x94, 0xA4, 0xB4, 0xC4, 0xD4, 0xE4, 0xF4, 0x48, 0xC8]"
  have "map (\<lambda>p. p fc) ieee80211_subtypes = map (\<lambda>k. fc AND 0xFC = k) ks"
    by (simp add: ieee80211_subtypes_def ks_def fc_defs)
  moreover have "length (filter P xs) = length (filter id (map P xs))" for P :: "'x \<Rightarrow> bool" and xs
    by (induction xs) auto
  ultimately have "length (filter (\<lambda>p. p fc) ieee80211_subtypes) = length (filter (\<lambda>k. fc AND 0xFC = k) ks)"
    by metis
  also have "\<dots> \<le> 1"
    by (rule filter_eq_const_le1) (simp add: ks_def)
  finally show ?thesis .
qed

lemma sdiv5: "0 \<le> x \<Longrightarrow> x sdiv 5 = x div (5::int)"
  by (cases "x = 0") (auto simp: signed_divide_int_def)

theorem channel_frequency_roundtrip:
  "(\<forall>c. 1 \<le> c \<and> c \<le> 14 \<longrightarrow>
      ieee80211_frequency_to_channel (ieee80211_channel_to_frequency c IEEE80211_BAND_2GHZ) = c) \<and>
   (\<forall>c. 0 \<le> c \<longrightarrow>
      ieee80211_frequency_to_channel (ieee80211_channel_to_frequency c IEEE80211_BAND_5GHZ) = c)"
  by (auto simp: ieee80211_frequency_to_channel_def ieee80211_channel_to_frequency_def sdiv5)

theorem phy_channel_roundtrip:
  "(1 \<le> c \<and> c \<le> 14 \<longrightarrow> ieee80211_freq_to_dsss_chan (ieee80211_dsss_chan_to_freq c) = c) \<and>
   (1 < c \<and> c < 96 \<longrightarrow> ieee80211_freq_to_fhss_chan (ieee80211_fhss_chan_to_freq c) = c) \<and>
   (1 \<le> c \<and> c \<le> 200 \<and> 4000 \<le> s \<longrightarrow>
      ieee80211_freq_to_ofdm_chan s (ieee80211_ofdm_chan_to_freq s c) = c)"
  by (auto simp: ieee80211_freq_to_dsss_chan_def ieee80211_dsss_chan_to_freq_def
      ieee80211_freq_to_fhss_chan_def ieee80211_fhss_chan_to_freq_def
      ieee80211_freq_to_ofdm_chan_def ieee80211_ofdm_chan_to_freq_def sdiv5)


end
