(* ===== verification/Skbuf.thy ===== *)
theory Skbuf
  imports Ieee80211
begin

text \<open>Socket buffers: the allocation and pointer arithmetic of os/ankai_V330/atbm_os_skbuf.c.

  struct sk_buff is the record below.  Its storage is the byte list skb_mem: the part of the
  allocation that follows the struct, so offset 0 is the address (skb + 1), and the pointers Head,
  data, Tail and End are offsets into it.  skb_addr, the address of the struct, is the identity of
  the buffer and fixes the 32-byte alignment the allocator applies.  A pointer may leave the
  storage; only an access through it is undefined.  The links next and prev are in Skb_Queue; cb
  is the receive status the receive path keeps there.\<close>

record ieee80211_rx_status =
  rx_mactime :: "64 word"
  rx_band :: ieee80211_band
  rx_freq :: int
  rx_signal :: int
  rx_antenna :: int
  rx_rate_idx :: int
  rx_flag :: u32
  rx_rx_flags :: u32

record sk_buff =
  skb_addr :: nat
  skb_mem :: bytes
  skb_Head :: int
  skb_data :: int
  skb_Tail :: int
  skb_End :: int
  skb_len :: u16
  skb_bufferLen :: u16
  skb_data_len :: u16
  skb_totalLen :: u16
  skb_if_id :: u8
  skb_Type :: u8
  skb_pkt_type :: u8
  skb_ref :: u8
  skb_priority :: u8
  skb_cb :: ieee80211_rx_status
  skb_protocol :: u16

abbreviation (input) sizeof_sk_buff :: nat where "sizeof_sk_buff \<equiv> 112"
abbreviation (input) ATBM_HWBUF_EXTERN_HEADROM_LEN :: nat where "ATBM_HWBUF_EXTERN_HEADROM_LEN \<equiv> 64"
abbreviation (input) ATBM_HWBUF_EXTERN_TAILROM_LEN :: nat where "ATBM_HWBUF_EXTERN_TAILROM_LEN \<equiv> 64"

subsection \<open>Allocation\<close>

text \<open>ATBM_MEM_ALIGN rounds an address, ATBM_MEM_ALIGN_SIZE a size, up to a multiple of 32; sizes
  are computed in u32 and wrap, addresses are natural numbers (no object straddles the end of the
  address space).\<close>

definition ATBM_MEM_ALIGN :: "nat \<Rightarrow> nat" where
  "ATBM_MEM_ALIGN a = (a + 31) div 32 * 32"

definition ATBM_MEM_ALIGN_SIZE :: "u32 \<Rightarrow> u32" where
  "ATBM_MEM_ALIGN_SIZE sz = (sz + 32 - 1) AND NOT (32 - 1)"

definition zero_cb :: ieee80211_rx_status where
  "zero_cb = \<lparr>rx_mactime = 0, rx_band = IEEE80211_BAND_2GHZ, rx_freq = 0, rx_signal = 0,
     rx_antenna = 0, rx_rate_idx = 0, rx_flag = 0, rx_rx_flags = 0\<rparr>"

text \<open>The allocator atbm_kzalloc gives an address p (or NULL) and zeroed memory.\<close>

definition atbm_pbuf_alloc :: "nat option \<Rightarrow> u32 \<Rightarrow> sk_buff option" where
  "atbm_pbuf_alloc kz len =
     (let sz = ATBM_MEM_ALIGN_SIZE (of_nat sizeof_sk_buff
                   + of_nat ATBM_HWBUF_EXTERN_HEADROM_LEN + of_nat ATBM_HWBUF_EXTERN_TAILROM_LEN
                   + len);
          blen = ATBM_MEM_ALIGN_SIZE (of_nat ATBM_HWBUF_EXTERN_HEADROM_LEN
                   + of_nat ATBM_HWBUF_EXTERN_TAILROM_LEN + len)
      in case kz of
           None \<Rightarrow> None
         | Some p \<Rightarrow>
            (let start = p + sizeof_sk_buff;
                 dat = int (ATBM_MEM_ALIGN (start + ATBM_HWBUF_EXTERN_HEADROM_LEN)) - int start
             in Some \<lparr>skb_addr = p,
                  skb_mem = replicate (unat sz - sizeof_sk_buff) 0,
                  skb_Head = int (ATBM_MEM_ALIGN start) - int start,
                  skb_data = dat,
                  skb_Tail = dat,
                  skb_End = dat + int (unat sz),
                  skb_len = 0,
                  skb_bufferLen = ucast blen,
                  skb_data_len = 0,
                  skb_totalLen = ucast blen,
                  skb_if_id = 0, skb_Type = 0, skb_pkt_type = 0, skb_ref = 1, skb_priority = 0,
                  skb_cb = zero_cb, skb_protocol = 0\<rparr>))"

definition dev_alloc_skb :: "nat option \<Rightarrow> u32 \<Rightarrow> sk_buff option" where
  "dev_alloc_skb kz len =
     (case atbm_pbuf_alloc kz len of None \<Rightarrow> None | Some skb \<Rightarrow> Some skb)"

definition alloc_skb :: "nat option \<Rightarrow> u32 \<Rightarrow> sk_buff option" where
  "alloc_skb kz sz = dev_alloc_skb kz sz"

definition atbm_skb_reinit :: "sk_buff \<Rightarrow> sk_buff" where
  "atbm_skb_reinit skb =
     (let start = skb_addr skb + sizeof_sk_buff;
          dat = int (ATBM_MEM_ALIGN (start + ATBM_HWBUF_EXTERN_HEADROM_LEN)) - int start
      in skb\<lparr>skb_data := dat, skb_Head := 0, skb_bufferLen := skb_totalLen skb,
             skb_len := 0, skb_Tail := dat\<rparr>)"

subsection \<open>Pointer operations\<close>

text \<open>The C functions return the old or new pointer; it is the field that the caller reads.\<close>

definition skb_put :: "sk_buff \<Rightarrow> nat \<Rightarrow> sk_buff" where [skb_defs]:
  "skb_put skb len = skb\<lparr>skb_Tail := skb_Tail skb + int len, skb_len := skb_len skb + of_nat len\<rparr>"

definition skb_push :: "sk_buff \<Rightarrow> nat \<Rightarrow> sk_buff" where [skb_defs]:
  "skb_push skb len = skb\<lparr>skb_data := skb_data skb - int len, skb_len := skb_len skb + of_nat len\<rparr>"

definition skb_pull :: "sk_buff \<Rightarrow> nat \<Rightarrow> sk_buff" where [skb_defs]:
  "skb_pull skb len = skb\<lparr>skb_len := skb_len skb - of_nat len, skb_data := skb_data skb + int len\<rparr>"

definition skb_headroom :: "sk_buff \<Rightarrow> int" where [skb_defs]:
  "skb_headroom skb = skb_data skb - skb_Head skb"

definition skb_tailroom :: "sk_buff \<Rightarrow> int" where [skb_defs]:
  "skb_tailroom skb = skb_Head skb + uint (skb_bufferLen skb) - skb_Tail skb"

definition skb_reserve :: "sk_buff \<Rightarrow> nat \<Rightarrow> sk_buff" where [skb_defs]:
  "skb_reserve skb len =
     (let d = skb_data skb + int len in skb\<lparr>skb_data := d, skb_Tail := d\<rparr>)"

definition skb_set_tail_pointer :: "sk_buff \<Rightarrow> nat \<Rightarrow> sk_buff" where [skb_defs]:
  "skb_set_tail_pointer skb offset = skb\<lparr>skb_Tail := skb_data skb + int offset\<rparr>"

definition skb_trim :: "sk_buff \<Rightarrow> nat \<Rightarrow> sk_buff" where [skb_defs]:
  "skb_trim skb len = skb_set_tail_pointer (skb\<lparr>skb_len := of_nat len\<rparr>) len"

definition skb_end_pointer :: "sk_buff \<Rightarrow> int" where [skb_defs]:
  "skb_end_pointer skb = skb_End skb"

definition skb_headlen :: "sk_buff \<Rightarrow> u32" where [skb_defs]:
  "skb_headlen skb = ucast (skb_len skb) - ucast (skb_data_len skb)"

definition skb_is_nonlinear :: "sk_buff \<Rightarrow> bool" where [skb_defs]:
  "skb_is_nonlinear skb = (skb_data_len skb \<noteq> 0)"

definition pskb_may_pull :: "sk_buff \<Rightarrow> u32 \<Rightarrow> bool" where [skb_defs]:
  "pskb_may_pull skb len =
     (if len \<le> skb_headlen skb then True
      else if len > ucast (skb_len skb) then False else True)"

definition skb_padto :: "sk_buff \<Rightarrow> u32 \<Rightarrow> int" where
  "skb_padto skb len = (let sz = ucast (skb_len skb) in if sz \<ge> len then 0 else 0)"

subsection \<open>Access to the data\<close>

definition skb_rd8 :: "sk_buff \<Rightarrow> int \<Rightarrow> u8 option" where [skb_defs]:
  "skb_rd8 skb off = rd8 (skb_mem skb) (skb_data skb + off)"

definition skb_rd16 :: "sk_buff \<Rightarrow> int \<Rightarrow> u16 option" where [skb_defs]:
  "skb_rd16 skb off = rd16 (skb_mem skb) (skb_data skb + off)"

definition skb_rdn :: "sk_buff \<Rightarrow> int \<Rightarrow> nat \<Rightarrow> bytes option" where [skb_defs]:
  "skb_rdn skb off n = rdn (skb_mem skb) (skb_data skb + off) n"

definition skb_wrn :: "sk_buff \<Rightarrow> int \<Rightarrow> bytes \<Rightarrow> sk_buff option" where [skb_defs]:
  "skb_wrn skb off bs = do {
     m \<leftarrow> wrn (skb_mem skb) (skb_data skb + off) bs;
     Some (skb\<lparr>skb_mem := m\<rparr>) }"

definition skb_fc :: "sk_buff \<Rightarrow> u16 option" where [skb_defs]:
  "skb_fc skb = skb_rd16 skb 0"

text \<open>The bytes between data and data + len: what the next layer sees.\<close>

definition skb_payload :: "sk_buff \<Rightarrow> bytes option" where
  "skb_payload skb = rdn (skb_mem skb) (skb_data skb) (unat (skb_len skb))"

text \<open>skb_copy.  The result None is undefined behaviour, Some None a NULL from the allocator.\<close>

definition skb_copy :: "nat option \<Rightarrow> sk_buff \<Rightarrow> sk_buff option option" where
  "skb_copy kz skb =
     (let headerlen = skb_headroom skb;
          sz = of_int (skb_end_pointer skb - skb_Head skb) + ucast (skb_len skb)
      in case alloc_skb kz sz of
           None \<Rightarrow> Some None
         | Some n \<Rightarrow> do {
             guard (0 \<le> headerlen);
             let n = skb_reserve n (nat headerlen);
             let n = skb_put n (unat (skb_len skb));
             bs \<leftarrow> rdn (skb_mem skb) (skb_Head skb) (nat headerlen + unat (skb_len skb));
             m \<leftarrow> wrn (skb_mem n) (skb_Head n) bs;
             Some (Some (n\<lparr>skb_mem := m\<rparr>)) })"

definition ieee80211_get_hdrlen_from_skb :: "sk_buff \<Rightarrow> u32 option" where
  "ieee80211_get_hdrlen_from_skb skb =
     (if skb_len skb < 10 then Some 0
      else do {
        fc \<leftarrow> skb_fc skb;
        let hdrlen = ieee80211_hdrlen fc;
        if hdrlen > ucast (skb_len skb) then Some 0 else Some hdrlen })"

lemma unat_ALIGN_SIZE:
  assumes "unat sz + 31 < 2 ^ 32"
  shows "unat (ATBM_MEM_ALIGN_SIZE sz) = ATBM_MEM_ALIGN (unat sz)"
proof -
  have "unat (sz + 31) = unat sz + 31"
    using assms by (simp add: unat_word_ariths)
  moreover have "ATBM_MEM_ALIGN_SIZE sz = (sz + 31) AND NOT (mask 5)"
    by (simp add: ATBM_MEM_ALIGN_SIZE_def mask_eq_exp_minus_1 add.commute)
  ultimately show ?thesis
    by (simp add: word_and_not_mask unat_round_down ATBM_MEM_ALIGN_def)
qed

lemma ATBM_MEM_ALIGN_bounds: "a \<le> ATBM_MEM_ALIGN a" "ATBM_MEM_ALIGN a \<le> a + 31"
  "ATBM_MEM_ALIGN a mod 32 = 0"
  unfolding ATBM_MEM_ALIGN_def by auto

lemma ATBM_MEM_ALIGN_add: "ATBM_MEM_ALIGN (a + 32 * k) = ATBM_MEM_ALIGN a + 32 * k"
  using div_mult_self2[of 32 "a + 31" k] by (simp add: ATBM_MEM_ALIGN_def algebra_simps)

subsection \<open>What allocation guarantees\<close>

text \<open>A linear buffer whose pointers are inside its storage and agree with its length.\<close>

definition skb_wf :: "sk_buff \<Rightarrow> bool" where
  "skb_wf skb \<longleftrightarrow> 0 \<le> skb_Head skb \<and> skb_Head skb \<le> skb_data skb \<and>
     skb_Tail skb = skb_data skb + int (unat (skb_len skb)) \<and>
     skb_Tail skb \<le> int (length (skb_mem skb))"

lemma alloc_facts:
  assumes "dev_alloc_skb kz n = Some skb" "unat n + 271 < 2 ^ 32"
  shows "skb_wf skb" "skb_len skb = 0" "skb_data_len skb = 0"
    "skb_headroom skb = 64"
    "int (length (skb_mem skb)) - skb_Tail skb \<ge> int (unat n) + 33"
    "set (skb_mem skb) \<subseteq> {0}" "skb_End skb = skb_data skb + int (length (skb_mem skb) + 112)"
    "skb_Tail skb = skb_data skb" "skb_Head skb \<le> 31"
proof -
  obtain p where kz: "kz = Some p" and
    S: "skb = the (atbm_pbuf_alloc (Some p) n)"
    using assms(1) by (cases kz) (auto simp: dev_alloc_skb_def atbm_pbuf_alloc_def Let_def)
  have u: "unat (240 + n) = unat n + 240" using assms(2) by (simp add: unat_word_ariths)
  have sz: "unat (ATBM_MEM_ALIGN_SIZE (240 + n)) = ATBM_MEM_ALIGN (unat n + 240)"
    using assms(2) u by (simp add: unat_ALIGN_SIZE)
  have al: "ATBM_MEM_ALIGN (p + 176) = ATBM_MEM_ALIGN (p + 112) + 64"
    using ATBM_MEM_ALIGN_add[of "p + 112" 2] by (simp add: add.commute)
  define N where "N = unat n"
  define A where "A = ATBM_MEM_ALIGN (N + 240)"
  have N: "uint n = int N" by (simp add: N_def)
  have A: "uint (ATBM_MEM_ALIGN_SIZE (n + 240)) = int A"
    using sz by (metis A_def N_def add.commute uint_nat)
  note F = S[unfolded atbm_pbuf_alloc_def Let_def, simplified, unfolded sz]
  show "skb_wf skb" "skb_len skb = 0" "skb_data_len skb = 0"
    "skb_headroom skb = 64"
    "int (length (skb_mem skb)) - skb_Tail skb \<ge> int (unat n) + 33"
    "set (skb_mem skb) \<subseteq> {0}" "skb_End skb = skb_data skb + int (length (skb_mem skb) + 112)"
    "skb_Tail skb = skb_data skb" "skb_Head skb \<le> 31"
    using ATBM_MEM_ALIGN_bounds[of "p + 112"] ATBM_MEM_ALIGN_bounds[of "unat n + 240"]
    by (auto simp: F skb_wf_def skb_headroom_def al sz add.commute N A simp flip: A_def N_def)
qed

text \<open>The pointer operations keep a buffer well formed as long as the room they need is there.\<close>

lemma wf_put:
  assumes "skb_wf skb" "skb_Tail skb + int n \<le> int (length (skb_mem skb))"
    "unat (skb_len skb) + n < 2 ^ 16"
  shows "skb_wf (skb_put skb n)"
  using assms unat_plus_of_nat[of "skb_len skb" n] by (simp add: skb_wf_def skb_put_def)

lemma wf_push:
  assumes "skb_wf skb" "int n \<le> skb_headroom skb" "unat (skb_len skb) + n < 2 ^ 16"
  shows "skb_wf (skb_push skb n)"
  using assms unat_plus_of_nat[of "skb_len skb" n]
  by (simp add: skb_wf_def skb_push_def skb_headroom_def)

lemma wf_pull:
  assumes "skb_wf skb" "n \<le> unat (skb_len skb)"
  shows "skb_wf (skb_pull skb n)"
  using assms unat_minus_of_nat[of n "skb_len skb"]
  by (simp add: skb_wf_def skb_pull_def of_nat_diff del: of_nat_unat)

lemma wf_reserve:
  assumes "skb_wf skb" "skb_len skb = 0" "skb_Tail skb + int n \<le> int (length (skb_mem skb))"
  shows "skb_wf (skb_reserve skb n)"
  using assms by (simp add: skb_wf_def skb_reserve_def Let_def)

lemma wf_trim:
  assumes "skb_wf skb" "n \<le> unat (skb_len skb)"
  shows "skb_wf (skb_trim skb n)"
proof -
  have "n < 2 ^ 16" using assms(2) unat_lt2p[of "skb_len skb"] by simp
  then have "unat (of_nat n :: u16) = n" by (simp add: unat_of_nat)
  then show ?thesis
    using assms by (simp add: skb_wf_def skb_trim_def skb_set_tail_pointer_def del: of_nat_unat)
qed


text \<open>For a buffer of n bytes (n mod 32 between 1 and 16) from a 32-byte aligned allocation,
  skb_tailroom reports 32 bytes more than the allocation holds behind Tail.\<close>
theorem skb_tailroom_overreports:
  assumes "dev_alloc_skb (Some p) n = Some skb" "p mod 32 = 0" "unat n + 300 < 2 ^ 16"
    "1 \<le> unat n mod 32" "unat n mod 32 \<le> 16"
  shows "skb_tailroom skb = int (length (skb_mem skb)) - skb_Tail skb + 32"
proof -
  define N where "N = unat n"
  have n: "n = of_nat N" by (simp add: N_def)
  obtain q r where N: "N = 32 * q + r" "1 \<le> r" "r \<le> 16"
    using assms(4,5) by (metis N_def mult_div_mod_eq)
  obtain k where k: "p = 32 * k" using assms(2) by (auto elim: dvdE)
  have u: "unat (240 + n) = N + 240" "unat (128 + n) = N + 128"
    using assms(3) by (simp_all add: unat_word_ariths N_def)
  have sz: "unat (ATBM_MEM_ALIGN_SIZE (240 + n)) = 32 * q + 256"
    "unat (ATBM_MEM_ALIGN_SIZE (128 + n)) = 32 * q + 160"
  proof -
    have "(N + 271) div 32 = q + 8" "(N + 159) div 32 = q + 5" 
      by (rule div_nat_eqI; use N in simp)+
    then show "unat (ATBM_MEM_ALIGN_SIZE (240 + n)) = 32 * q + 256"
      "unat (ATBM_MEM_ALIGN_SIZE (128 + n)) = 32 * q + 160"
      using assms(3) u by (simp_all add: unat_ALIGN_SIZE ATBM_MEM_ALIGN_def add.commute
        flip: N_def)
  qed
  have al: "ATBM_MEM_ALIGN (p + 112) = p + 128" "ATBM_MEM_ALIGN (p + 176) = p + 192"
    unfolding k ATBM_MEM_ALIGN_def by simp_all
  have uc: "uint (ucast (ATBM_MEM_ALIGN_SIZE (128 + n)) :: u16) = int (32 * q + 160)"
  proof -
    have "unat (ucast (ATBM_MEM_ALIGN_SIZE (128 + n)) :: u16) = 32 * q + 160"
      using sz(2) N assms(3) by (simp add: unsigned_ucast_eq unsigned_take_bit_eq take_bit_nat_def flip: N_def)
    then show ?thesis by (metis uint_nat)
  qed
  show ?thesis
    using assms(1) by (auto simp: dev_alloc_skb_def atbm_pbuf_alloc_def Let_def skb_tailroom_def al sz uc)
qed

lemma take_drop_write_over:
  assumes "hn + H + L + 64 \<le> length m0" "set m0 \<subseteq> {0}" "length bs = H + L"
  shows "take L (drop (hn + 64 + H) (take hn m0 @ bs @ drop (hn + length bs) m0))
       = drop 64 (drop H bs) @ replicate (min 64 L) (0::u8)"
proof -
  define zs where "zs = drop (hn + length bs) m0"
  have Z: "zs = replicate (length zs) 0"
    using assms(2) set_drop_subset[of "hn + length bs" m0]
    by (intro replicate_length_same[symmetric]) (auto simp: zs_def)
  have lz: "64 \<le> length zs" using assms(1,3) by (simp add: zs_def)
  have "drop (hn + 64 + H) (take hn m0 @ bs @ zs) = drop (64 + H) (bs @ zs)"
    using assms(1) by (simp add: min_def)
  also have "\<dots> = drop 64 (drop H bs) @ drop (64 - L) zs"
    using assms(3) by simp
  finally have "take L (drop (hn + 64 + H) (take hn m0 @ bs @ zs))
      = drop 64 (drop H bs) @ take (L - (L - 64)) (drop (64 - L) zs)"
    using assms(3) by simp
  also have "take (L - (L - 64)) (drop (64 - L) zs) = replicate (min 64 L) 0"
    by (subst Z) (cases "64 \<le> L"; use lz in \<open>simp add: min_def\<close>)
  finally show ?thesis by (simp add: zs_def)
qed

text \<open>skb_copy of a well-formed buffer never leaves memory, but its result does not hold the
  payload of the original: dev_alloc_skb has already reserved 64 bytes of headroom, the copy
  reserves the headroom of the original on top, and the bytes go to Head.  The payload of the copy
  is the original from byte 64 on, followed by zeros.\<close>
theorem skb_copy_shifts:
  assumes wf: "skb_wf skb" and E: "skb_Tail skb \<le> skb_End skb"
    and B: "skb_End skb - skb_Head skb + int (unat (skb_len skb)) + 271 < 2 ^ 32"
    and pl: "skb_payload skb = Some pl"
  shows "\<exists>n. skb_copy (Some p) skb = Some (Some n) \<and> skb_wf n \<and> skb_len n = skb_len skb \<and>
             skb_payload n = Some (drop 64 pl @ replicate (min 64 (length pl)) 0)"
proof -
  define L where "L = unat (skb_len skb)"
  define H where "H = nat (skb_headroom skb)"
  define D where "D = nat (skb_End skb - skb_Head skb)"
  define sz :: u32 where "sz = of_int (skb_End skb - skb_Head skb) + ucast (skb_len skb)"
  have W: "0 \<le> skb_Head skb" "skb_data skb = skb_Head skb + int H"
    "skb_Tail skb = skb_Head skb + int H + int L" "skb_Tail skb \<le> int (length (skb_mem skb))"
    "skb_End skb - skb_Head skb = int D" "H + L \<le> D" "D + L + 271 < 2 ^ 32" "0 \<le> skb_headroom skb"
    using wf E B by (auto simp: skb_wf_def skb_headroom_def L_def H_def D_def simp del: of_nat_unat)
  have "unat sz = D + L"
    using W(5,7) by (simp add: sz_def L_def unat_word_ariths unat_of_nat unsigned_ucast_eq
      unsigned_take_bit_eq take_bit_nat_def)
  obtain n0 where n0: "alloc_skb (Some p) sz = Some n0"
    by (simp add: alloc_skb_def dev_alloc_skb_def atbm_pbuf_alloc_def Let_def)
  note A = alloc_facts[OF n0[unfolded alloc_skb_def]]
  have A': "0 \<le> skb_Head n0" "skb_data n0 = skb_Head n0 + 64" "skb_Tail n0 = skb_data n0"
    "skb_Tail n0 + int (D + L) + 33 \<le> int (length (skb_mem n0))" "set (skb_mem n0) \<subseteq> {0}"
    "skb_len n0 = 0"
    using A W(7) \<open>unat sz = D + L\<close>
    by (auto simp: skb_wf_def skb_headroom_def simp del: of_nat_unat)
  define bs where "bs = take (H + L) (drop (nat (skb_Head skb)) (skb_mem skb))"
  have bs: "rdn (skb_mem skb) (skb_Head skb) (H + L) = Some bs" "length bs = H + L"
    using W by (auto simp: rdn_def bs_def)
  define m where "m = take (nat (skb_Head n0)) (skb_mem n0) @ bs
    @ drop (nat (skb_Head n0) + length bs) (skb_mem n0)"
  have m: "wrn (skb_mem n0) (skb_Head n0) bs = Some m" and lm: "length m = length (skb_mem n0)"
    using A' W bs by (auto simp: wrn_def m_def)
  define n where "n = (skb_put (skb_reserve n0 H) L)\<lparr>skb_mem := m\<rparr>"
  have L: "of_nat L = skb_len skb" by (simp add: L_def)
  have hr: "skb_headroom skb = int H" using W(8) by (simp add: H_def)
  have run: "skb_copy (Some p) skb = Some (Some n)"
    using n0 bs(1) m
    by (simp add: skb_copy_def sz_def skb_end_pointer_def Let_def skb_put_def skb_reserve_def
        n_def hr flip: L_def)
  have nf: "skb_data n = skb_Head n0 + 64 + int H" "skb_len n = skb_len skb" "skb_mem n = m"
    "skb_Tail n = skb_data n + int L" "skb_Head n = skb_Head n0"
    using A' by (simp_all add: n_def skb_put_def skb_reserve_def Let_def L)
  have "skb_wf n"
    using A' W(6) nf lm by (simp add: skb_wf_def L_def del: of_nat_unat)
  moreover have "pl = drop H bs"
    using pl W by (auto simp: skb_payload_def mem_simps bs_def nat_add_distrib add.commute drop_take
        simp flip: L_def)
  moreover have "skb_payload n = Some (drop 64 (drop H bs) @ replicate (min 64 L) 0)"
    using take_drop_write_over[of "nat (skb_Head n0)" H L "skb_mem n0" bs] A' W(6) nf lm bs(2)
    by (simp add: skb_payload_def rdn_def m_def nat_add_distrib flip: L_def)
  moreover have "length (drop H bs) = L" using bs(2) by simp
  ultimately show ?thesis using run nf by metis
qed

subsection \<open>A buffer as bytes\<close>

text \<open>The storage split at data and at data + len.\<close>

definition skb_view :: "sk_buff \<Rightarrow> bytes \<Rightarrow> bytes \<Rightarrow> bytes \<Rightarrow> bool" where
  "skb_view skb pre body post \<longleftrightarrow> skb_mem skb = pre @ body @ post \<and>
     skb_data skb = int (length pre) \<and> unat (skb_len skb) = length body"

lemma view_payload: "skb_view skb pre body post \<Longrightarrow> skb_payload skb = Some body"
  by (simp add: skb_view_def skb_payload_def rdn_def)

lemma wf_view:
  assumes "skb_wf skb"
  shows "\<exists>pre body post. skb_view skb pre body post \<and>
     int (length pre) = skb_data skb \<and> length post = length (skb_mem skb) - nat (skb_Tail skb)"
proof -
  define d where "d = nat (skb_data skb)"
  define L where "L = unat (skb_len skb)"
  have d: "skb_data skb = int d" "skb_Tail skb = int (d + L)" "d + L \<le> length (skb_mem skb)"
    using assms by (auto simp: skb_wf_def d_def L_def simp del: of_nat_unat)
  have "take L (drop d m) @ drop (d + L) m = drop d m" for m :: bytes
    using append_take_drop_id[of L "drop d m"] by (simp add: add.commute)
  then have "skb_mem skb = take d (skb_mem skb) @ take L (drop d (skb_mem skb)) @ drop (d + L) (skb_mem skb)"
    by simp
  then have "skb_view skb (take d (skb_mem skb)) (take L (drop d (skb_mem skb))) (drop (d + L) (skb_mem skb))"
    unfolding skb_view_def using d by (auto simp: min_def simp flip: L_def)
  then show ?thesis using d by (intro exI conjI) auto
qed

lemma view_rdn:
  assumes "skb_view skb pre body post" "off + n \<le> length body + length post"
  shows "skb_rdn skb (int off) n = Some (take n (drop off (body @ post)))"
  using assms by (simp add: skb_view_def skb_rdn_def rdn_def nat_add_distrib)

lemma view_rdn_body:
  assumes "skb_view skb pre (a @ b @ c) post" "off = int (length a)" "n = length b"
  shows "skb_rdn skb off n = Some b"
  using view_rdn[OF assms(1), of "length a" n] assms by simp

lemma view_pull:
  assumes "skb_view skb pre body post" "n \<le> length body"
  shows "skb_view (skb_pull skb n) (pre @ take n body) (drop n body) post"
  using assms unat_minus_of_nat[of n "skb_len skb"]
  by (auto simp: skb_view_def skb_pull_def)

lemma view_push:
  assumes "skb_view skb (pre @ h) body post" "n = length h" "length body + n < 2 ^ 16"
  shows "skb_view (skb_push skb n) pre (h @ body) post"
  using assms unat_plus_of_nat[of "skb_len skb" n]
  by (auto simp: skb_view_def skb_push_def)

lemma view_wrn:
  assumes "skb_view skb pre (a @ b @ c) post" "off = int (length a)" "length bs = length b"
  shows "skb_wrn skb off bs = Some (skb\<lparr>skb_mem := pre @ (a @ bs @ c) @ post\<rparr>)"
    and "skb_view (skb\<lparr>skb_mem := pre @ (a @ bs @ c) @ post\<rparr>) pre (a @ bs @ c) post"
  using assms by (auto simp: skb_view_def skb_wrn_def wrn_def nat_add_distrib)

text \<open>A buffer with given bytes before data, in the payload and behind it.\<close>

definition mk_skb :: "nat \<Rightarrow> bytes \<Rightarrow> bytes \<Rightarrow> bytes \<Rightarrow> sk_buff" where
  "mk_skb a pre body post =
     \<lparr>skb_addr = a, skb_mem = pre @ body @ post, skb_Head = 0, skb_data = int (length pre),
      skb_Tail = int (length pre + length body), skb_End = int (length (pre @ body @ post)),
      skb_len = of_nat (length body), skb_bufferLen = of_nat (length (pre @ body @ post)),
      skb_data_len = 0, skb_totalLen = of_nat (length (pre @ body @ post)), skb_if_id = 0,
      skb_Type = 0, skb_pkt_type = 0, skb_ref = 1, skb_priority = 0, skb_cb = zero_cb,
      skb_protocol = 0\<rparr>"

lemma mk_skb_ok:
  assumes "length body < 2 ^ 16"
  shows "skb_view (mk_skb a pre body post) pre body post" "skb_wf (mk_skb a pre body post)"
    "skb_addr (mk_skb a pre body post) = a" "skb_priority (mk_skb a pre body post) = 0"
proof -
  have "unat (of_nat (length body) :: u16) = length body"
    using assms by (simp add: unat_of_nat)
  then show "skb_view (mk_skb a pre body post) pre body post" "skb_wf (mk_skb a pre body post)"
    "skb_addr (mk_skb a pre body post) = a" "skb_priority (mk_skb a pre body post) = 0"
    by (simp_all add: mk_skb_def skb_view_def skb_wf_def del: of_nat_unat)
qed

theorem skb_copy_shifts_witness:
  "\<exists>n. skb_copy (Some 4096) (mk_skb 7 [1, 2] [3, 4, 5] [6]) = Some (Some n) \<and> skb_wf n \<and>
     skb_len n = skb_len (mk_skb 7 [1, 2] [3, 4, 5] [6]) \<and>
     skb_payload n = Some (drop 64 [3, 4, 5] @ replicate (min 64 (length [3, 4, 5::u8])) 0)"
proof (rule skb_copy_shifts)
  show "skb_wf (mk_skb 7 [1, 2] [3, 4, 5] [6])" by (rule mk_skb_ok) simp
  show "skb_payload (mk_skb 7 [1, 2] [3, 4, 5] [6]) = Some [3, 4, 5]"
    by (rule view_payload, rule mk_skb_ok) simp
qed (simp_all add: mk_skb_def)

theorem skb_tailroom_overreports_witness:
  "skb_tailroom (the (dev_alloc_skb (Some 4096) 16)) =
     int (length (skb_mem (the (dev_alloc_skb (Some 4096) 16)))) - skb_Tail (the (dev_alloc_skb (Some 4096) 16)) + 32"
proof (rule skb_tailroom_overreports)
  show "dev_alloc_skb (Some 4096) 16 = Some (the (dev_alloc_skb (Some 4096) 16))"
    by (simp add: dev_alloc_skb_def atbm_pbuf_alloc_def Let_def)
qed simp_all

end
