(* ===== verification/Skb_Queue.thy ===== *)
theory Skb_Queue
  imports Prelude
begin

text \<open>The queue of socket buffers of os/ankai_V330/atbm_os_skbuf.c (lines 192 to 353): a circular
  doubly linked list whose head, struct sk_buff_head, begins with the same next and prev links as
  struct sk_buff and is cast to it.

  A pointer is an address; 0 is NULL.  The state holds the links of every node and head and the
  qlen of every head; an access through NULL is undefined.  The locks are taken and released in
  each operation and protect nothing inside one thread; dev_kfree_skb is the free list.\<close>

type_synonym ptr = nat

abbreviation (input) NULL :: ptr where "NULL \<equiv> 0"

record qheap =
  lnext :: "ptr \<Rightarrow> ptr"
  lprev :: "ptr \<Rightarrow> ptr"
  qlen :: "ptr \<Rightarrow> int"
  freed :: "ptr list"

definition get_next :: "ptr \<Rightarrow> qheap \<Rightarrow> ptr option" where [simp]:
  "get_next p h = (if p = NULL then None else Some (lnext h p))"

definition get_prev :: "ptr \<Rightarrow> qheap \<Rightarrow> ptr option" where [simp]:
  "get_prev p h = (if p = NULL then None else Some (lprev h p))"

definition set_next :: "ptr \<Rightarrow> ptr \<Rightarrow> qheap \<Rightarrow> qheap option" where [simp]:
  "set_next p v h = (if p = NULL then None else Some (h\<lparr>lnext := (lnext h)(p := v)\<rparr>))"

definition set_prev :: "ptr \<Rightarrow> ptr \<Rightarrow> qheap \<Rightarrow> qheap option" where [simp]:
  "set_prev p v h = (if p = NULL then None else Some (h\<lparr>lprev := (lprev h)(p := v)\<rparr>))"

definition add_qlen :: "ptr \<Rightarrow> int \<Rightarrow> qheap \<Rightarrow> qheap option" where [simp]:
  "add_qlen l d h = (if l = NULL then None else Some (h\<lparr>qlen := (qlen h)(l := qlen h l + d)\<rparr>))"

subsection \<open>The operations\<close>

definition skb_insert :: "ptr \<Rightarrow> ptr \<Rightarrow> ptr \<Rightarrow> ptr \<Rightarrow> qheap \<Rightarrow> qheap option" where
  "skb_insert newsk prev next list h = do {
     h \<leftarrow> set_next newsk next h;
     h \<leftarrow> set_prev newsk prev h;
     h \<leftarrow> set_next prev newsk h;
     h \<leftarrow> set_prev next newsk h;
     add_qlen list 1 h }"

definition skb_queue_before :: "ptr \<Rightarrow> ptr \<Rightarrow> ptr \<Rightarrow> qheap \<Rightarrow> qheap option" where
  "skb_queue_before list next newsk h = do {
     prev \<leftarrow> get_prev next h;
     skb_insert newsk prev next list h }"

definition skb_queue_tail :: "ptr \<Rightarrow> ptr \<Rightarrow> qheap \<Rightarrow> qheap option" where
  "skb_queue_tail list newsk h = skb_queue_before list list newsk h"

definition skb_queue_after :: "ptr \<Rightarrow> ptr \<Rightarrow> ptr \<Rightarrow> qheap \<Rightarrow> qheap option" where
  "skb_queue_after list prev newsk h = do {
     next \<leftarrow> get_next prev h;
     skb_insert newsk prev next list h }"

definition skb_queue_head :: "ptr \<Rightarrow> ptr \<Rightarrow> qheap \<Rightarrow> qheap option" where
  "skb_queue_head list newsk h = skb_queue_after list list newsk h"

definition skb_unlink :: "ptr \<Rightarrow> ptr \<Rightarrow> qheap \<Rightarrow> qheap option" where
  "skb_unlink skb list h = do {
     h \<leftarrow> add_qlen list (- 1) h;
     next \<leftarrow> get_next skb h;
     prev \<leftarrow> get_prev skb h;
     h \<leftarrow> set_prev skb NULL h;
     h \<leftarrow> set_next skb NULL h;
     h \<leftarrow> set_prev next prev h;
     set_next prev next h }"

definition skb_peek :: "ptr \<Rightarrow> qheap \<Rightarrow> ptr option" where
  "skb_peek list0 h = do {
     list \<leftarrow> get_next list0 h;
     Some (if list = list0 then NULL else list) }"

definition skb_dequeue :: "ptr \<Rightarrow> qheap \<Rightarrow> (ptr \<times> qheap) option" where
  "skb_dequeue list h = do {
     skb \<leftarrow> skb_peek list h;
     if skb \<noteq> NULL then do { h \<leftarrow> skb_unlink skb list h; Some (skb, h) } else Some (skb, h) }"

definition dev_kfree_skb :: "ptr \<Rightarrow> qheap \<Rightarrow> qheap" where
  "dev_kfree_skb skb h = h\<lparr>freed := freed h @ [skb]\<rparr>"

text \<open>The loop of purge may run forever on a corrupted list: then the value is None.\<close>

partial_function (option) skb_queue_purge :: "ptr \<Rightarrow> qheap \<Rightarrow> qheap option" where
  "skb_queue_purge list h = do {
     (skb, h) \<leftarrow> skb_dequeue list h;
     if skb \<noteq> NULL then skb_queue_purge list (dev_kfree_skb skb h) else Some h }"

definition skb_queue_empty :: "ptr \<Rightarrow> qheap \<Rightarrow> bool option" where
  "skb_queue_empty list h = do { next \<leftarrow> get_next list h; Some (next = list) }"

definition skb_queue_len :: "ptr \<Rightarrow> qheap \<Rightarrow> int" where
  "skb_queue_len list0 h = qlen h list0"

definition skb_queue_head_init :: "ptr \<Rightarrow> qheap \<Rightarrow> qheap option" where
  "skb_queue_head_init list h = do {
     h \<leftarrow> set_next list list h;
     h \<leftarrow> set_prev list list h;
     Some (h\<lparr>qlen := (qlen h)(list := 0)\<rparr>) }"

definition skb_queue_splice_links :: "ptr \<Rightarrow> ptr \<Rightarrow> ptr \<Rightarrow> qheap \<Rightarrow> qheap option" where
  "skb_queue_splice_links list prev next h = do {
     first \<leftarrow> get_next list h;
     last \<leftarrow> get_prev list h;
     h \<leftarrow> set_prev first prev h;
     h \<leftarrow> set_next prev first h;
     h \<leftarrow> set_next last next h;
     set_prev next last h }"

definition skb_queue_splice_tail_init :: "ptr \<Rightarrow> ptr \<Rightarrow> qheap \<Rightarrow> qheap option" where
  "skb_queue_splice_tail_init list head h = do {
     e \<leftarrow> skb_queue_empty list h;
     if \<not> e then do {
       prev \<leftarrow> get_prev head h;
       h \<leftarrow> skb_queue_splice_links list prev head h;
       h \<leftarrow> add_qlen head (qlen h list) h;
       skb_queue_head_init list h }
     else Some h }"

definition skb_queue_splice :: "ptr \<Rightarrow> ptr \<Rightarrow> qheap \<Rightarrow> qheap option" where
  "skb_queue_splice list head h = do {
     e \<leftarrow> skb_queue_empty list h;
     if \<not> e then do {
       next \<leftarrow> get_next head h;
       h \<leftarrow> skb_queue_splice_links list head next h;
       add_qlen head (qlen h list) h }
     else Some h }"

definition skb_queue_splice_init :: "ptr \<Rightarrow> ptr \<Rightarrow> qheap \<Rightarrow> qheap option" where
  "skb_queue_splice_init list head h = do {
     e \<leftarrow> skb_queue_empty list h;
     if \<not> e then do {
       next \<leftarrow> get_next head h;
       h \<leftarrow> skb_queue_splice_links list head next h;
       h \<leftarrow> add_qlen head (qlen h list) h;
       skb_queue_head_init list h }
     else Some h }"

subsection \<open>Queues as lists\<close>

fun seg :: "qheap \<Rightarrow> ptr \<Rightarrow> ptr list \<Rightarrow> ptr \<Rightarrow> bool" where
  "seg h a [] b = (lnext h a = b \<and> lprev h b = a)"
| "seg h a (x # xs) b = (lnext h a = x \<and> lprev h x = a \<and> seg h x xs b)"

definition queue :: "qheap \<Rightarrow> ptr \<Rightarrow> ptr list \<Rightarrow> bool" where
  "queue h l xs \<longleftrightarrow> NULL \<notin> set (l # xs) \<and> distinct (l # xs) \<and> seg h l xs l \<and>
     qlen h l = int (length xs)"

text \<open>Nothing outside the set S changed.\<close>

definition agree_off :: "ptr set \<Rightarrow> qheap \<Rightarrow> qheap \<Rightarrow> bool" where
  "agree_off S h h' \<longleftrightarrow>
     (\<forall>p. p \<notin> S \<longrightarrow> lnext h' p = lnext h p \<and> lprev h' p = lprev h p \<and> qlen h' p = qlen h p)"

lemma agree_off_refl [simp]: "agree_off S h h" by (simp add: agree_off_def)

lemma seg_append [simp]: "seg h a (xs @ y # ys) b = (seg h a xs y \<and> seg h y ys b)"
  by (induction xs arbitrary: a) auto

lemma seg_cong:
  assumes "\<And>p. p \<in> set (a # xs) \<Longrightarrow> lnext h' p = lnext h p"
    and "\<And>p. p \<in> set (b # xs) \<Longrightarrow> lprev h' p = lprev h p"
  shows "seg h' a xs b = seg h a xs b"
  using assms by (induction xs arbitrary: a) auto

lemma seg_last: "seg h a xs b \<Longrightarrow> lprev h b = last (a # xs)"
  by (induction xs arbitrary: a) auto

lemma seg_last_next: "seg h a xs b \<Longrightarrow> lnext h (last (a # xs)) = b"
  by (induction xs arbitrary: a) auto

lemma seg_hd: "seg h a xs b \<Longrightarrow> lnext h a = hd (xs @ [b])"
  by (cases xs) auto

lemma queue_agree:
  assumes "queue h l xs" "agree_off S h h'" "set (l # xs) \<inter> S = {}"
  shows "queue h' l xs"
proof -
  have "seg h' l xs l = seg h l xs l"
    by (rule seg_cong) (use assms(2,3) in \<open>auto simp: agree_off_def\<close>)
  then show ?thesis using assms by (auto simp: queue_def agree_off_def)
qed

text \<open>Giving the last link of a segment a new target.\<close>

lemma seg_retarget:
  assumes "seg h a xs b" "distinct (a # xs)" "c \<notin> set xs"
    and "lnext h' (last (a # xs)) = c" "lprev h' c = last (a # xs)"
    and "\<And>p. p \<in> set (a # xs) \<Longrightarrow> p \<noteq> last (a # xs) \<Longrightarrow> lnext h' p = lnext h p"
    and "\<And>p. p \<in> set xs \<Longrightarrow> lprev h' p = lprev h p"
  shows "seg h' a xs c"
  using assms
proof (induction xs arbitrary: a)
  case (Cons x xs)
  have "seg h' x xs c" by (rule Cons.IH) (use Cons.prems in auto)
  moreover have "a \<noteq> last (a # x # xs)" using Cons.prems(2) by (auto simp: last_conv_nth)
  ultimately show ?case using Cons.prems by auto
qed simp

lemma queue_tail_ok:
  assumes q: "queue h l xs" and n: "n \<noteq> NULL" "n \<notin> set (l # xs)"
  shows "\<exists>h'. skb_queue_tail l n h = Some h' \<and> queue h' l (xs @ [n]) \<and>
              agree_off (set (l # n # xs)) h h' \<and> freed h' = freed h"
proof -
  define z where "z = last (l # xs)"
  have zl: "lprev h l = z" "z \<in> set (l # xs)"
    using q seg_last[of h l xs l] last_in_set[of "l # xs"]
    by (simp_all add: z_def queue_def del: last.simps list.set)
  then have z: "lprev h l = z" "z \<in> set (l # xs)" "z \<noteq> NULL" "l \<noteq> NULL" "z \<noteq> n"
    using q n by (auto simp: queue_def intro!: gr0I)
  define h' where "h' = h\<lparr>lnext := (lnext h)(n := l, z := n),
    lprev := (lprev h)(n := z, l := n), qlen := (qlen h)(l := qlen h l + 1)\<rparr>"
  have run: "skb_queue_tail l n h = Some h'"
    using z n by (simp add: skb_queue_tail_def skb_queue_before_def skb_insert_def h'_def)
  have "seg h' l xs n"
  proof (rule seg_retarget[of h l xs l])
    show "lnext h' (last (l # xs)) = n" "lprev h' n = last (l # xs)"
      unfolding z_def[symmetric] h'_def using z n by simp_all
    show "lnext h' p = lnext h p" if "p \<in> set (l # xs)" "p \<noteq> last (l # xs)" for p
      using that n unfolding z_def[symmetric] by (auto simp: h'_def)
    show "lprev h' p = lprev h p" if "p \<in> set xs" for p
      using that n q by (auto simp: h'_def queue_def)
  qed (use q n in \<open>auto simp: queue_def\<close>)
  moreover have "lnext h' n = l" "lprev h' l = n" using z n by (auto simp: h'_def)
  ultimately have "queue h' l (xs @ [n])" using q n by (auto simp: queue_def h'_def)
  moreover have "agree_off (set (l # n # xs)) h h'"
    using z(2) by (auto simp: agree_off_def h'_def)
  ultimately show ?thesis using run by (simp add: h'_def)
qed

lemma unlink_ok:
  assumes q: "queue h l (xs @ x # ys)"
  shows "\<exists>h'. skb_unlink x l h = Some h' \<and> queue h' l (xs @ ys) \<and>
              agree_off (set (l # xs @ x # ys)) h h' \<and> freed h' = freed h"
proof -
  define a where "a = last (l # xs)"
  define b where "b = hd (ys @ [l])"
  have s: "seg h l xs x" "seg h x ys l" using q by (auto simp: queue_def)
  have a: "lprev h x = a" "a \<in> set (l # xs)"
    using seg_last[OF s(1)] last_in_set[of "l # xs"] unfolding a_def by (auto simp del: last.simps)
  have b: "lnext h x = b" "b \<in> set (l # ys)"
    using seg_hd[OF s(2)] by (auto simp: b_def hd_append)
  have nz: "a \<noteq> NULL" "b \<noteq> NULL" "l \<noteq> NULL" "x \<noteq> NULL" "a \<noteq> x" "b \<noteq> x" "x \<noteq> l"
    using a b q by (auto simp: queue_def)
  define h' where "h' = h\<lparr>lnext := (lnext h)(x := NULL, a := b),
    lprev := (lprev h)(x := NULL, b := a), qlen := (qlen h)(l := qlen h l - 1)\<rparr>"
  have run: "skb_unlink x l h = Some h'"
    using a b nz by (simp add: skb_unlink_def h'_def)
  have s1: "seg h' l xs b" if "b \<notin> set xs"
  proof (rule seg_retarget[OF s(1)])
    show "lnext h' (last (l # xs)) = b" "lprev h' b = last (l # xs)"
      unfolding a_def[symmetric] h'_def using nz by simp_all
    show "lnext h' p = lnext h p" if "p \<in> set (l # xs)" "p \<noteq> last (l # xs)" for p
      using that q unfolding a_def[symmetric] by (auto simp: h'_def queue_def)
    show "lprev h' p = lprev h p" if "p \<in> set xs" for p
      using that q \<open>b \<notin> set xs\<close> by (auto simp: h'_def queue_def)
  qed (use q that in \<open>auto simp: queue_def\<close>)
  have bx: "b \<notin> set xs" using b q by (auto simp: queue_def)
  have "seg h' l (xs @ ys) l"
  proof (cases ys)
    case Nil
    then show ?thesis using s1[OF bx] by (simp add: b_def)
  next
    case (Cons y ys')
    have "seg h' y ys' l = seg h y ys' l"
      by (rule seg_cong) (use q a b Cons in \<open>auto simp: h'_def queue_def b_def\<close>)
    then show ?thesis using s1[OF bx] s(2) Cons by (simp add: b_def)
  qed
  then have "queue h' l (xs @ ys)" using q by (auto simp: queue_def h'_def)
  moreover have "agree_off (set (l # xs @ x # ys)) h h'"
    using a(2) b(2) by (auto simp: agree_off_def h'_def)
  ultimately show ?thesis using run by (simp add: h'_def)
qed

lemma dequeue_nil: "queue h l [] \<Longrightarrow> skb_dequeue l h = Some (NULL, h)"
  by (simp add: skb_dequeue_def skb_peek_def queue_def)

lemma peek_ok: "queue h l xs \<Longrightarrow> skb_peek l h = Some (case xs of [] \<Rightarrow> NULL | x # _ \<Rightarrow> x)"
  by (cases xs) (auto simp: skb_peek_def queue_def)

lemma dequeue_cons:
  assumes "queue h l (x # xs)"
  shows "\<exists>h'. skb_dequeue l h = Some (x, h') \<and> queue h' l xs \<and>
              agree_off (set (l # x # xs)) h h' \<and> freed h' = freed h"
  using unlink_ok[of h l "[]" x xs] assms peek_ok[OF assms]
  by (auto simp: skb_dequeue_def queue_def)


lemma purge_ok:
  assumes "queue h l xs"
  shows "\<exists>h'. skb_queue_purge l h = Some h' \<and> queue h' l [] \<and>
              agree_off (set (l # xs)) h h' \<and> freed h' = freed h @ xs"
  using assms
proof (induction xs arbitrary: h)
  case Nil
  then show ?case
    by (subst skb_queue_purge.simps) (simp add: dequeue_nil)
next
  case (Cons x xs)
  obtain h1 where h1: "skb_dequeue l h = Some (x, h1)" "queue h1 l xs"
    "agree_off (set (l # x # xs)) h h1" "freed h1 = freed h"
    using dequeue_cons[OF Cons.prems] by blast
  define h2 where "h2 = dev_kfree_skb x h1"
  have q2: "queue h2 l xs"
    by (rule queue_agree[OF h1(2), of "{}"]) (simp_all add: h2_def dev_kfree_skb_def agree_off_def)
  obtain h' where h': "skb_queue_purge l h2 = Some h'" "queue h' l []"
    "agree_off (set (l # xs)) h2 h'" "freed h' = freed h2 @ xs"
    using Cons.IH[OF q2] by blast
  have "x \<noteq> NULL" using Cons.prems by (auto simp: queue_def)
  then have "skb_queue_purge l h = Some h'"
    using h1(1) h'(1) by (subst skb_queue_purge.simps) (simp add: h2_def)
  moreover have "agree_off (set (l # x # xs)) h h'"
    using h1(3) h'(3) by (auto simp: agree_off_def h2_def dev_kfree_skb_def)
  ultimately show ?case using h'(2,4) h1(4) by (auto simp: h2_def dev_kfree_skb_def)
qed

lemma head_init_ok:
  "l \<noteq> NULL \<Longrightarrow> \<exists>h'. skb_queue_head_init l h = Some h' \<and> queue h' l [] \<and> agree_off {l} h h'
     \<and> freed h' = freed h"
  by (auto simp: skb_queue_head_init_def queue_def agree_off_def)

lemma queue_empty_ok: "queue h l xs \<Longrightarrow> skb_queue_empty l h = Some (xs = [])"
  by (cases xs) (auto simp: skb_queue_empty_def queue_def)

text \<open>Splicing the queue xs of list between the nodes a and b of another one.\<close>

lemma splice_links_ok:
  assumes l: "queue h l (x # xs)" and g: "queue h g (as @ bs)"
    and disj: "set (l # x # xs) \<inter> set (g # as @ bs) = {}"
    and a: "a = last (g # as)" and b: "b = hd (bs @ [g])"
  shows "\<exists>h'. skb_queue_splice_links l a b h = Some h' \<and> seg h' g (as @ (x # xs) @ bs) g \<and>
              agree_off (set (g # as @ x # xs @ bs)) h h' \<and> qlen h' = qlen h \<and> freed h' = freed h"
proof -
  define z where "z = last (x # xs)"
  have sl: "lnext h l = x" "lprev h l = z" "seg h x xs l"
    using l seg_last[of h l "x # xs" l] by (auto simp: queue_def z_def)
  have z: "z \<in> set (x # xs)" using last_in_set[of "x # xs"] by (simp add: z_def del: last.simps)
  have aa: "a \<in> set (g # as)" using last_in_set[of "g # as"] by (simp add: a del: last.simps)
  have bb: "b \<in> set (g # bs)" by (cases bs) (auto simp: b)
  have nz: "l \<noteq> NULL" "x \<noteq> NULL" "z \<noteq> NULL" "a \<noteq> NULL" "b \<noteq> NULL"
    using l g z aa bb by (auto simp: queue_def intro!: gr0I)
  have ne: "a \<noteq> z" "x \<noteq> b" using z aa bb disj by auto
  define h' where "h' = h\<lparr>lnext := (lnext h)(a := x, z := b), lprev := (lprev h)(x := a, b := z)\<rparr>"
  have run: "skb_queue_splice_links l a b h = Some h'"
    using sl nz ne by (simp add: skb_queue_splice_links_def h'_def)
  have sab: "seg h g as b" "bs = b # tl bs \<Longrightarrow> seg h b (tl bs) g"
    using g by (cases bs; auto simp: queue_def b)+
  have s1: "seg h' g as x"
  proof (rule seg_retarget[OF sab(1)])
    show "lnext h' (last (g # as)) = x" "lprev h' x = last (g # as)"
      unfolding a[symmetric] h'_def using ne by auto
    show "lnext h' p = lnext h p" if "p \<in> set (g # as)" "p \<noteq> last (g # as)" for p
      using that z disj unfolding a[symmetric] by (auto simp: h'_def)
    show "lprev h' p = lprev h p" if "p \<in> set as" for p
      using that bb g disj by (auto simp: h'_def queue_def)
  qed (use g l disj in \<open>auto simp: queue_def\<close>)
  have s2: "seg h' x xs b"
  proof (rule seg_retarget[OF sl(3)])
    show "lnext h' (last (x # xs)) = b" "lprev h' b = last (x # xs)"
      unfolding z_def[symmetric] h'_def using ne by auto
    show "lnext h' p = lnext h p" if "p \<in> set (x # xs)" "p \<noteq> last (x # xs)" for p
      using that aa disj unfolding z_def[symmetric] by (auto simp: h'_def)
    show "lprev h' p = lprev h p" if "p \<in> set xs" for p
      using that bb l disj by (auto simp: h'_def queue_def)
  qed (use l bb disj in \<open>auto simp: queue_def\<close>)
  have "seg h' g (as @ (x # xs) @ bs) g"
  proof (cases bs)
    case Nil
    then show ?thesis using s1 s2 by (simp add: b)
  next
    case (Cons b' bs')
    have "seg h' b' bs' g = seg h b' bs' g"
      by (rule seg_cong) (use g aa z bb disj Cons in \<open>auto simp: h'_def queue_def b\<close>)
    then show ?thesis using s1 s2 sab(2) Cons by (simp add: b)
  qed
  moreover have "agree_off (set (g # as @ x # xs @ bs)) h h'"
    using z aa bb by (auto simp: agree_off_def h'_def)
  ultimately show ?thesis using run by (simp add: h'_def)
qed

lemma queue_head_ok:
  assumes q: "queue h l xs" and n: "n \<noteq> NULL" "n \<notin> set (l # xs)"
  shows "\<exists>h'. skb_queue_head l n h = Some h' \<and> queue h' l (n # xs) \<and>
              agree_off (set (l # n # xs)) h h' \<and> freed h' = freed h"
proof -
  define b where "b = hd (xs @ [l])"
  have b: "lnext h l = b" "b \<in> set (l # xs)"
    using q seg_hd[of h l xs l] by (auto simp: queue_def b_def hd_append)
  have nz: "b \<noteq> NULL" "l \<noteq> NULL" "b \<noteq> n" using q n b by (auto simp: queue_def intro!: gr0I)
  define h' where "h' = h\<lparr>lnext := (lnext h)(n := b, l := n),
    lprev := (lprev h)(n := l, b := n), qlen := (qlen h)(l := qlen h l + 1)\<rparr>"
  have run: "skb_queue_head l n h = Some h'"
    using b nz n by (simp add: skb_queue_head_def skb_queue_after_def skb_insert_def h'_def)
  have "seg h' n xs l"
  proof (cases xs)
    case Nil
    then show ?thesis using n by (simp add: h'_def b_def)
  next
    case (Cons y ys)
    have "seg h' y ys l = seg h y ys l"
      by (rule seg_cong) (use q n Cons in \<open>auto simp: h'_def queue_def b_def\<close>)
    then show ?thesis using q n Cons by (auto simp: h'_def b_def queue_def)
  qed
  then have "queue h' l (n # xs)" using q n nz by (auto simp: queue_def h'_def)
  moreover have "agree_off (set (l # n # xs)) h h'"
    using b(2) by (auto simp: agree_off_def h'_def)
  ultimately show ?thesis using run by (simp add: h'_def)
qed

lemma splice_into:
  assumes l: "queue h l xs" and ne: "xs \<noteq> []" and g: "queue h g (as @ bs)"
    and disj: "set (l # xs) \<inter> set (g # as @ bs) = {}"
    and run: "skb_queue_splice_links l (last (g # as)) (hd (bs @ [g])) h = Some h1"
    and h2: "add_qlen g (qlen h1 l) h1 = Some h2" and h3: "skb_queue_head_init l h2 = Some h3"
  shows "queue h3 l [] \<and> queue h3 g (as @ xs @ bs) \<and>
         agree_off (set (l # g # as @ xs @ bs)) h h3 \<and> freed h3 = freed h"
proof -
  obtain x xs' where xs: "xs = x # xs'" using ne by (cases xs) auto
  have h1: "seg h1 g (as @ xs @ bs) g" "agree_off (set (g # as @ xs @ bs)) h h1"
    "qlen h1 = qlen h" "freed h1 = freed h"
    using splice_links_ok[of h l x xs' g as bs "last (g # as)" "hd (bs @ [g])"]
      l g disj run by (auto simp: xs simp del: last.simps)
  have lg: "l \<noteq> NULL" "g \<noteq> NULL" "l \<noteq> g" "qlen h l = int (length xs)"
    "qlen h g = int (length (as @ bs))" using l g disj by (auto simp: queue_def)
  have h3': "h3 = h1\<lparr>lnext := (lnext h1)(l := l), lprev := (lprev h1)(l := l),
      qlen := (qlen h1)(g := qlen h1 g + qlen h1 l, l := 0)\<rparr>"
    using h2 h3 lg by (auto simp: skb_queue_head_init_def)
  have "seg h3 g (as @ xs @ bs) g = seg h1 g (as @ xs @ bs) g"
    by (rule seg_cong) (use disj lg l in \<open>auto simp: h3' queue_def\<close>)
  then have "queue h3 g (as @ xs @ bs)"
    using h1 l g disj lg by (auto simp: queue_def h3')
  moreover have "queue h3 l []" using lg by (simp add: queue_def h3')
  moreover have "agree_off (set (l # g # as @ xs @ bs)) h h3"
    using h1(2) by (auto simp: agree_off_def h3')
  ultimately show ?thesis using h1(4) by (simp add: h3')
qed

lemma splice_links_run:
  assumes "queue h l xs" "xs \<noteq> []" "queue h g (as @ bs)"
    "set (l # xs) \<inter> set (g # as @ bs) = {}"
  shows "\<exists>h1. skb_queue_splice_links l (last (g # as)) (hd (bs @ [g])) h = Some h1"
  using assms splice_links_ok[of h l "hd xs" "tl xs" g as bs, OF _ _ _ refl refl]
  by (cases xs) (auto simp del: last.simps)

lemma splice_tail_init_ok:
  assumes l: "queue h l xs" and g: "queue h g ys" and disj: "set (l # xs) \<inter> set (g # ys) = {}"
  shows "\<exists>h'. skb_queue_splice_tail_init l g h = Some h' \<and> queue h' l [] \<and> queue h' g (ys @ xs) \<and>
              agree_off (set (l # g # xs @ ys)) h h' \<and> freed h' = freed h"
proof (cases "xs = []")
  case True
  then show ?thesis using l g queue_empty_ok[OF l] by (simp add: skb_queue_splice_tail_init_def)
next
  case False
  have nz: "l \<noteq> NULL" "g \<noteq> NULL" "lprev h g = last (g # ys)"
    using l g seg_last[of h g ys g] by (auto simp: queue_def simp del: last.simps)
  obtain h1 where h1: "skb_queue_splice_links l (last (g # ys)) (hd ([] @ [g])) h = Some h1"
    using splice_links_run[of h l xs g ys "[]"] l g disj False by auto
  obtain h2 where h2: "add_qlen g (qlen h1 l) h1 = Some h2" using nz by simp
  obtain h3 where h3: "skb_queue_head_init l h2 = Some h3"
    using nz by (auto simp: skb_queue_head_init_def)
  have "queue h3 l [] \<and> queue h3 g (ys @ xs @ []) \<and>
         agree_off (set (l # g # ys @ xs @ [])) h h3 \<and> freed h3 = freed h"
    by (rule splice_into[OF l False _ _ h1 h2 h3]) (use g disj in auto)
  moreover have "skb_queue_splice_tail_init l g h = Some h3"
    using False queue_empty_ok[OF l] h1 h2 h3 nz
    by (simp add: skb_queue_splice_tail_init_def del: add_qlen_def last.simps)
  ultimately show ?thesis by (auto simp: agree_off_def)
qed

lemma splice_init_ok:
  assumes l: "queue h l xs" and g: "queue h g ys" and disj: "set (l # xs) \<inter> set (g # ys) = {}"
  shows "\<exists>h'. skb_queue_splice_init l g h = Some h' \<and> queue h' l [] \<and> queue h' g (xs @ ys) \<and>
              agree_off (set (l # g # xs @ ys)) h h' \<and> freed h' = freed h"
proof (cases "xs = []")
  case True
  then show ?thesis using l g queue_empty_ok[OF l] by (simp add: skb_queue_splice_init_def)
next
  case False
  have nz: "l \<noteq> NULL" "g \<noteq> NULL" "lnext h g = hd (ys @ [g])"
    using l g seg_hd[of h g ys g] by (auto simp: queue_def)
  obtain h1 where h1: "skb_queue_splice_links l (last [g]) (hd (ys @ [g])) h = Some h1"
    using splice_links_run[of h l xs g "[]" ys] l g disj False by auto
  obtain h2 where h2: "add_qlen g (qlen h1 l) h1 = Some h2" using nz by simp
  obtain h3 where h3: "skb_queue_head_init l h2 = Some h3"
    using nz by (auto simp: skb_queue_head_init_def)
  have "queue h3 l [] \<and> queue h3 g ([] @ xs @ ys) \<and>
         agree_off (set (l # g # [] @ xs @ ys)) h h3 \<and> freed h3 = freed h"
    by (rule splice_into[OF l False _ _ h1 h2 h3]) (use g disj in auto)
  moreover have "skb_queue_splice_init l g h = Some h3"
    using False queue_empty_ok[OF l] h1 h2 h3 nz
    by (simp add: skb_queue_splice_init_def del: add_qlen_def)
  ultimately show ?thesis by (auto simp: agree_off_def)
qed

subsection \<open>The contract of a queue\<close>

text \<open>What the users of a queue rely on: adding at the tail, taking from the front, both
  total on a represented queue.\<close>

locale fifo =
  fixes rep :: "'s \<Rightarrow> 'a list \<Rightarrow> bool"
    and fresh :: "'a \<Rightarrow> bool"
    and enq :: "'a \<Rightarrow> 's \<Rightarrow> 's option"
    and deq :: "'s \<Rightarrow> ('a option \<times> 's) option"
  assumes enq_ok: "rep s xs \<Longrightarrow> fresh x \<Longrightarrow> x \<notin> set xs \<Longrightarrow> \<exists>s'. enq x s = Some s' \<and> rep s' (xs @ [x])"
    and deq_nil: "rep s [] \<Longrightarrow> deq s = Some (None, s)"
    and deq_cons: "rep s (x # xs) \<Longrightarrow> \<exists>s'. deq s = Some (Some x, s') \<and> rep s' xs"
begin

fun enq_all :: "'a list \<Rightarrow> 's \<Rightarrow> 's option" where
  "enq_all [] s = Some s"
| "enq_all (x # xs) s = Option.bind (enq x s) (enq_all xs)"

fun drain :: "nat \<Rightarrow> 's \<Rightarrow> ('a list \<times> 's) option" where
  "drain 0 s = Some ([], s)"
| "drain (Suc n) s = (case deq s of
     Some (Some x, s') \<Rightarrow> (case drain n s' of Some (ys, t) \<Rightarrow> Some (x # ys, t) | None \<Rightarrow> None)
   | Some (None, s') \<Rightarrow> Some ([], s')
   | None \<Rightarrow> None)"

lemma enq_all_ok:
  assumes "rep s xs" "\<forall>y\<in>set ys. fresh y" "distinct (xs @ ys)"
  shows "\<exists>s'. enq_all ys s = Some s' \<and> rep s' (xs @ ys)"
  using assms
proof (induction ys arbitrary: s xs)
  case (Cons y ys)
  then obtain s1 where s1: "enq y s = Some s1" "rep s1 (xs @ [y])"
    using enq_ok[of s xs y] by auto
  then show ?case using Cons.IH[OF s1(2)] Cons.prems by auto
qed simp

lemma drain_ok:
  assumes "rep s xs" "length xs \<le> n"
  shows "\<exists>s'. drain n s = Some (xs, s') \<and> rep s' []"
  using assms
proof (induction xs arbitrary: s n)
  case Nil
  then show ?case by (cases n) (auto simp: deq_nil)
next
  case (Cons x xs)
  then obtain m where n: "n = Suc m" by (cases n) auto
  obtain s1 where s1: "deq s = Some (Some x, s1)" "rep s1 xs" using deq_cons[OF Cons.prems(1)] by blast
  then show ?case using Cons.IH[OF s1(2), of m] Cons.prems(2) n by auto
qed

lemma fifo_order:
  assumes "rep s xs" "\<forall>y\<in>set ys. fresh y" "distinct (xs @ ys)" "length xs + length ys \<le> n"
  shows "\<exists>s1 s2. enq_all ys s = Some s1 \<and> drain n s1 = Some (xs @ ys, s2) \<and> rep s2 []"
proof -
  obtain s1 where s1: "enq_all ys s = Some s1" "rep s1 (xs @ ys)"
    using enq_all_ok[OF assms(1-3)] by blast
  then show ?thesis using drain_ok[OF s1(2), of n] assms(4) by auto
qed

end

text \<open>The driver's queue at head l meets the contract: NULL is the absence of a buffer.\<close>

definition opt_ptr :: "ptr \<times> qheap \<Rightarrow> ptr option \<times> qheap" where
  "opt_ptr r = (if fst r = NULL then None else Some (fst r), snd r)"

definition skb_deq :: "ptr \<Rightarrow> qheap \<Rightarrow> (ptr option \<times> qheap) option" where
  "skb_deq l h = map_option opt_ptr (skb_dequeue l h)"

interpretation skbq: fifo "\<lambda>h xs. queue h l xs" "\<lambda>x. x \<noteq> NULL \<and> x \<noteq> l" "skb_queue_tail l" "skb_deq l"
  for l
proof unfold_locales
  fix s xs and x :: ptr
  show "queue s l xs \<Longrightarrow> x \<noteq> NULL \<and> x \<noteq> l \<Longrightarrow> x \<notin> set xs \<Longrightarrow>
      \<exists>s'. skb_queue_tail l x s = Some s' \<and> queue s' l (xs @ [x])"
    using queue_tail_ok[of s l xs x] by auto
  show "queue s l [] \<Longrightarrow> skb_deq l s = Some (None, s)"
    by (simp add: skb_deq_def dequeue_nil opt_ptr_def)
  show "queue s l (x # xs) \<Longrightarrow> \<exists>s'. skb_deq l s = Some (Some x, s') \<and> queue s' l xs"
    using dequeue_cons[of s l x xs] by (auto simp: skb_deq_def opt_ptr_def queue_def)
qed

subsection \<open>Properties\<close>

text \<open>C27. From a fresh queue head, any sequence of distinct buffers queued with skb_queue_tail comes
  back from skb_dequeue in the same order, each once, and the queue is then empty.\<close>
theorem skb_queue_is_fifo:
  assumes "l \<noteq> NULL" "distinct ys" "NULL \<notin> set ys" "l \<notin> set ys"
  shows "\<exists>h0 h1 h2. skb_queue_head_init l h = Some h0 \<and> skbq.enq_all l ys h0 = Some h1 \<and>
           skbq.drain l (length ys) h1 = Some (ys, h2) \<and> skb_queue_empty l h2 = Some True \<and>
           skb_queue_len l h2 = 0"
proof -
  obtain h0 where h0: "skb_queue_head_init l h = Some h0" "queue h0 l []"
    using head_init_ok[OF assms(1)] by blast
  have "\<forall>y\<in>set ys. y \<noteq> NULL \<and> y \<noteq> l" using assms(3,4) by metis
  then obtain h1 h2 where "skbq.enq_all l ys h0 = Some h1"
    "skbq.drain l (length ys) h1 = Some (ys, h2)" "queue h2 l []"
    using skbq.fifo_order[OF h0(2), of ys "length ys"] assms(2) by auto
  then show ?thesis using h0(1) queue_empty_ok[of h2 l "[]"]
    by (auto simp: skb_queue_len_def queue_def)
qed

theorem skb_queue_is_fifo_witness:
  "\<exists>h0 h1 h2. skb_queue_head_init 8 \<lparr>lnext = \<lambda>_. 0, lprev = \<lambda>_. 0, qlen = \<lambda>_. 0, freed = []\<rparr> = Some h0 \<and>
     skbq.enq_all 8 [100, 200] h0 = Some h1 \<and> skbq.drain 8 (length [100, 200::nat]) h1 = Some ([100, 200], h2) \<and>
     skb_queue_empty 8 h2 = Some True \<and> skb_queue_len 8 h2 = 0"
  by (rule skb_queue_is_fifo) simp_all

text \<open>skb_queue_purge on a represented queue returns, frees exactly the buffers of the queue, each
  once and in order, leaves an empty queue and touches no other node.\<close>
theorem skb_queue_purge_frees_all:
  assumes "queue h l xs"
  shows "\<exists>h'. skb_queue_purge l h = Some h' \<and> queue h' l [] \<and> freed h' = freed h @ xs \<and>
              agree_off (set (l # xs)) h h'"
  using purge_ok[OF assms] by blast

theorem skb_queue_purge_witness:
  "\<exists>h'. skb_queue_purge 8 \<lparr>lnext = (\<lambda>_. 0)(8 := 100, 100 := 8), lprev = (\<lambda>_. 0)(8 := 100, 100 := 8),
            qlen = (\<lambda>_. 0)(8 := 1), freed = [7]\<rparr> = Some h' \<and> queue h' 8 [] \<and> freed h' = [7] @ [100] \<and>
     agree_off (set [8, 100]) \<lparr>lnext = (\<lambda>_. 0)(8 := 100, 100 := 8), lprev = (\<lambda>_. 0)(8 := 100, 100 := 8),
            qlen = (\<lambda>_. 0)(8 := 1), freed = [7]\<rparr> h'"
  using skb_queue_purge_frees_all[of "\<lparr>lnext = (\<lambda>_. 0)(8 := 100, 100 := 8), lprev = (\<lambda>_. 0)(8 := 100, 100 := 8),
            qlen = (\<lambda>_. 0)(8 := 1), freed = [7]\<rparr>" 8 "[100]"]
  by (simp add: queue_def)

text \<open>skb_queue_splice_tail_init moves one queue behind another and skb_queue_splice_init moves it
  in front, in order and without loss; the source is left empty and the lengths add up.\<close>
theorem skb_queue_splices:
  assumes "queue h l xs" "queue h g ys" "set (l # xs) \<inter> set (g # ys) = {}"
  shows "\<exists>h1 h2. skb_queue_splice_tail_init l g h = Some h1 \<and> queue h1 l [] \<and> queue h1 g (ys @ xs) \<and>
           skb_queue_splice_init l g h = Some h2 \<and> queue h2 l [] \<and> queue h2 g (xs @ ys)"
  using splice_tail_init_ok[OF assms] splice_init_ok[OF assms] by auto

definition two_queues :: qheap where
  "two_queues = \<lparr>lnext = (\<lambda>_. 0)(8 := 100, 100 := 8, 16 := 200, 200 := 16),
     lprev = (\<lambda>_. 0)(8 := 100, 100 := 8, 16 := 200, 200 := 16),
     qlen = (\<lambda>_. 0)(8 := 1, 16 := 1), freed = []\<rparr>"

theorem skb_queue_splices_witness:
  "\<exists>h1 h2. skb_queue_splice_tail_init 8 16 two_queues = Some h1 \<and> queue h1 8 [] \<and> queue h1 16 ([200] @ [100]) \<and>
     skb_queue_splice_init 8 16 two_queues = Some h2 \<and> queue h2 8 [] \<and> queue h2 16 ([100] @ [200])"
  by (rule skb_queue_splices) (simp_all add: queue_def two_queues_def)

end
