(* ===== verification/Ieee80211_Data.thy ===== *)
theory Ieee80211_Data
  imports Skbuf
begin

text \<open>Conversion of frames between 802.11 and 802.3: ieee80211_data_to_8023,
  ieee80211_data_from_8023 and ieee80211_amsdu_to_8023s of os/ankai_V330/atbm_os_proto.c, and
  atbm_ieee80211_amsdu_to_8023s of hal_apollo/rx.c, the one the receive path calls.

  The functions work in place on a socket buffer, byte by byte as the code does.  memcpy reads its
  source before it writes.  Errors are the int the code returns; None is an access outside the
  storage of the buffer.\<close>

datatype nl80211_iftype =
    NL80211_IFTYPE_UNSPECIFIED | NL80211_IFTYPE_ADHOC | NL80211_IFTYPE_STATION | NL80211_IFTYPE_AP
  | NL80211_IFTYPE_AP_VLAN | NL80211_IFTYPE_WDS | NL80211_IFTYPE_MONITOR
  | NL80211_IFTYPE_MESH_POINT | NL80211_IFTYPE_P2P_CLIENT | NL80211_IFTYPE_P2P_GO

abbreviation (input) ETH_P_AARP :: u16 where "ETH_P_AARP \<equiv> 0x80F3"
abbreviation (input) ETH_P_IPX :: u16 where "ETH_P_IPX \<equiv> 0x8137"
abbreviation (input) ETH_ALEN :: nat where "ETH_ALEN \<equiv> 6"
abbreviation (input) ETH_HLEN :: nat where "ETH_HLEN \<equiv> 14"
abbreviation (input) EOPNOTSUPP :: int where "EOPNOTSUPP \<equiv> 95"

definition rfc1042_header :: bytes where "rfc1042_header = [0xaa, 0xaa, 0x03, 0x00, 0x00, 0x00]"
definition bridge_tunnel_header :: bytes where
  "bridge_tunnel_header = [0xaa, 0xaa, 0x03, 0x00, 0x00, 0xf8]"

definition is_multicast_ether_addr :: "mac \<Rightarrow> bool" where
  "is_multicast_ether_addr addr = (0x01 AND addr ! 0 \<noteq> 0)"

text \<open>compare_ether_addr is zero for equal addresses.\<close>

definition compare_ether_addr :: "mac \<Rightarrow> mac \<Rightarrow> int" where
  "compare_ether_addr a b =
     (if a!0 = b!0 \<and> a!1 = b!1 \<and> a!2 = b!2 \<and> a!3 = b!3 \<and> a!4 = b!4 \<and> a!5 = b!5 then 0 else 1)"

text \<open>ethertype = (payload[6] << 8) | payload[7], and the test for an encapsulation to remove.\<close>

definition snap_encap :: "bytes \<Rightarrow> u16 \<Rightarrow> bool" where
  "snap_encap payload ethertype \<longleftrightarrow>
     (compare_ether_addr payload rfc1042_header = 0 \<and> ethertype \<noteq> ETH_P_AARP \<and> ethertype \<noteq> ETH_P_IPX)
     \<or> compare_ether_addr payload bridge_tunnel_header = 0"

subsection \<open>802.11 to 802.3\<close>

text \<open>The switch on the ToDS and FromDS bits: the interface types that refuse the frame.\<close>

definition to_8023_refused :: "u16 \<Rightarrow> nl80211_iftype \<Rightarrow> mac \<Rightarrow> mac \<Rightarrow> mac \<Rightarrow> bool" where
  "to_8023_refused fc iftype dst src addr =
     (let ds = fc AND (IEEE80211_FCTL_TODS OR IEEE80211_FCTL_FROMDS) in
      if ds = IEEE80211_FCTL_TODS then
        iftype \<noteq> NL80211_IFTYPE_AP \<and> iftype \<noteq> NL80211_IFTYPE_P2P_GO
      else if ds = IEEE80211_FCTL_TODS OR IEEE80211_FCTL_FROMDS then True
      else if ds = IEEE80211_FCTL_FROMDS then
        (iftype \<noteq> NL80211_IFTYPE_STATION \<and> iftype \<noteq> NL80211_IFTYPE_P2P_CLIENT) \<or>
        (is_multicast_ether_addr dst \<and> compare_ether_addr src addr = 0)
      else iftype \<noteq> NL80211_IFTYPE_ADHOC \<and> iftype \<noteq> NL80211_IFTYPE_STATION)"

text \<open>The Ethernet header in front of a payload: with an encapsulation, its ethertype stays and the
  six bytes before it go; otherwise a header is pushed whose last field is the given 16 bits.\<close>

definition push_ether_header :: "sk_buff \<Rightarrow> mac \<Rightarrow> mac \<Rightarrow> sk_buff option" where
  "push_ether_header skb dst src = do {
     skb \<leftarrow> skb_wrn (skb_push skb ETH_ALEN) 0 src;
     skb_wrn (skb_push skb ETH_ALEN) 0 dst }"

definition ieee80211_data_to_8023 ::
    "sk_buff \<Rightarrow> mac \<Rightarrow> nl80211_iftype \<Rightarrow> (int \<times> sk_buff) option" where
  "ieee80211_data_to_8023 skb addr iftype = do {
     fc \<leftarrow> skb_fc skb;
     if \<not> ieee80211_is_data_present fc then Some (-1, skb)
     else do {
       let hdrlen = unat (ieee80211_hdrlen fc);
       dst \<leftarrow> skb_rdn skb (ieee80211_get_DA fc) ETH_ALEN;
       src \<leftarrow> skb_rdn skb (ieee80211_get_SA fc) ETH_ALEN;
       if to_8023_refused fc iftype dst src addr then Some (-1, skb)
       else do {
         payload \<leftarrow> skb_rdn skb (int hdrlen) 8;
         let ethertype = be16 (payload ! 6) (payload ! 7);
         if snap_encap payload ethertype then do {
           skb \<leftarrow> push_ether_header (skb_pull skb (hdrlen + 6)) dst src;
           Some (0, skb) }
         else do {
           let skb = skb_push (skb_pull skb hdrlen) ETH_HLEN;
           skb \<leftarrow> skb_wrn skb 0 dst;
           skb \<leftarrow> skb_wrn skb 6 src;
           skb \<leftarrow> skb_wrn skb 12 (bytes16 ethertype);
           Some (0, skb) } } } }"

subsection \<open>802.3 to 802.11\<close>

text \<open>ethdr is the position of the Ethernet header, which the code keeps using after it has moved
  data: the addresses are copied from there while the 802.11 header is built over it.\<close>

definition skb_at :: "sk_buff \<Rightarrow> int \<Rightarrow> nat \<Rightarrow> bytes option" where
  "skb_at skb p n = rdn (skb_mem skb) p n"

definition skb_put_at :: "sk_buff \<Rightarrow> int \<Rightarrow> bytes \<Rightarrow> sk_buff option" where
  "skb_put_at skb p bs = do { m \<leftarrow> wrn (skb_mem skb) p bs; Some (skb\<lparr>skb_mem := m\<rparr>) }"

text \<open>The end of ieee80211_data_from_8023: the QoS field, the fixed fields, the encapsulation.\<close>

definition write_80211_header ::
    "sk_buff \<Rightarrow> int \<Rightarrow> int \<Rightarrow> bytes option \<Rightarrow> bool \<Rightarrow> u16 \<Rightarrow> (int \<times> sk_buff) option" where
  "write_80211_header skb hdr llchdr encaps_data qos fc = do {
     (skb, fc) \<leftarrow> (if qos then do {
         let tid = skb_priority skb AND 7;
         skb \<leftarrow> skb_put_at skb (hdr + 24) (bytes16 (ucast (0 OR tid)));
         Some (skb, fc OR IEEE80211_STYPE_QOS_DATA) }
       else Some (skb, fc));
     skb \<leftarrow> skb_put_at skb hdr (bytes16 fc);
     skb \<leftarrow> skb_put_at skb (hdr + 2) (bytes16 0);
     skb \<leftarrow> skb_put_at skb (hdr + 22) (bytes16 0);
     skb \<leftarrow> (case encaps_data of Some e \<Rightarrow> skb_put_at skb llchdr e | None \<Rightarrow> Some skb);
     Some (0, skb) }"

text \<open>The encapsulation chosen from the ethertype; NULL is None.\<close>

definition encaps_data_of :: "u16 \<Rightarrow> bytes option" where
  "encaps_data_of ethertype =
     (if ethertype = ETH_P_AARP \<or> ethertype = ETH_P_IPX then Some bridge_tunnel_header
      else if ethertype > 0x600 then Some rfc1042_header
      else None)"

definition ieee80211_data_from_8023 ::
    "sk_buff \<Rightarrow> mac \<Rightarrow> nl80211_iftype \<Rightarrow> mac \<Rightarrow> bool \<Rightarrow> (int \<times> sk_buff) option" where
  "ieee80211_data_from_8023 skb addr iftype bssid qos =
     (if skb_len skb < of_nat ETH_HLEN then Some (- EINVAL, skb)
      else do {
        let ethdr = skb_data skb;
        h_proto \<leftarrow> skb_rd16 skb 12;
        let ethertype = ntohs h_proto;
        let encaps_data = encaps_data_of ethertype;
        let skip_header_bytes = (if encaps_data = None then ETH_HLEN else ETH_HLEN - 2);
        let skb = skb_pull skb skip_header_bytes;
        let skb = (case encaps_data of Some e \<Rightarrow> skb_push skb (length e) | None \<Rightarrow> skb);
        let llchdr = skb_data skb;
        let skb = skb_push skb (24 + (if qos then 2 else 0));
        let hdr = skb_data skb;
        let fc = IEEE80211_FTYPE_DATA OR IEEE80211_STYPE_DATA;
        if iftype = NL80211_IFTYPE_AP \<or> iftype = NL80211_IFTYPE_P2P_GO then do {
          d \<leftarrow> skb_at skb ethdr ETH_ALEN;
          skb \<leftarrow> skb_put_at skb (hdr + 4) d;
          skb \<leftarrow> skb_put_at skb (hdr + 10) addr;
          s \<leftarrow> skb_at skb (ethdr + 6) ETH_ALEN;
          skb \<leftarrow> skb_put_at skb (hdr + 16) s;
          write_80211_header skb hdr llchdr encaps_data qos (fc OR IEEE80211_FCTL_FROMDS) }
        else if iftype = NL80211_IFTYPE_STATION \<or> iftype = NL80211_IFTYPE_P2P_CLIENT then do {
          skb \<leftarrow> skb_put_at skb (hdr + 4) bssid;
          s \<leftarrow> skb_at skb (ethdr + 6) ETH_ALEN;
          skb \<leftarrow> skb_put_at skb (hdr + 10) s;
          d \<leftarrow> skb_at skb ethdr ETH_ALEN;
          skb \<leftarrow> skb_put_at skb (hdr + 16) d;
          write_80211_header skb hdr llchdr encaps_data qos (fc OR IEEE80211_FCTL_TODS) }
        else Some (- EOPNOTSUPP, skb) })"

subsection \<open>A-MSDU\<close>

text \<open>The loop that splits an aggregate into frames.  kz k is the answer of the allocator to the
  k-th request, lst the queue of frames built so far, freed the buffers given to dev_kfree_skb.
  The two copies of the loop in the source differ in the headroom hlen they reserve, in check_dest,
  the test of the destination address that only rx.c has, and in copying the priority.

  The result is the error, the queue, the freed buffers, the rest of the aggregate and the number of
  allocations.\<close>

definition amsdu_purge ::
    "sk_buff list \<Rightarrow> nat list \<Rightarrow> sk_buff \<Rightarrow> nat \<Rightarrow> int \<times> sk_buff list \<times> nat list \<times> sk_buff \<times> nat" where
  "amsdu_purge lst freed skb k = (-1, [], freed @ map skb_addr lst, skb, k)"

definition amsdu_frame :: "sk_buff \<Rightarrow> mac \<Rightarrow> mac \<Rightarrow> u16 \<Rightarrow> sk_buff option" where
  "amsdu_frame frame dst src len = do {
     payload \<leftarrow> skb_rdn frame 0 8;
     let ethertype = be16 (payload ! 6) (payload ! 7);
     if snap_encap payload ethertype then push_ether_header (skb_pull frame 6) dst src
     else do {
       frame \<leftarrow> skb_wrn (skb_push frame 2) 0 (bytes16 len);
       push_ether_header frame dst src } }"

lemma pull_pull_len:
  assumes "a + b \<le> unat (skb_len skb)"
  shows "unat (skb_len (skb_pull (skb_pull skb a) b)) = unat (skb_len skb) - a - b"
  using assms unat_minus_of_nat[of a "skb_len skb"] unat_minus_of_nat[of b "skb_len skb - of_nat a"]
  by (simp add: skb_pull_def)

function amsdu_loop ::
    "bool \<Rightarrow> nat \<Rightarrow> bool \<Rightarrow> (nat \<Rightarrow> nat option) \<Rightarrow> nat \<Rightarrow> sk_buff \<Rightarrow> sk_buff list \<Rightarrow> nat list \<Rightarrow>
     (int \<times> sk_buff list \<times> nat list \<times> sk_buff \<times> nat) option" where
  "amsdu_loop check_dest hlen prio kz k skb lst freed = do {
     eth \<leftarrow> skb_rdn skb 0 ETH_HLEN;
     let len = le16 (eth ! 12) (eth ! 13);
     let n = unat (ntohs len);
     let subframe_len = ETH_HLEN + n;
     let remaining = unat (skb_len skb);
     let dst = take 6 eth;
     let src = take 6 (drop 6 eth);
     let padding = unat ((4 - of_nat subframe_len :: u32) AND 3);
     if subframe_len > remaining then Some (amsdu_purge lst freed skb k)
     else if check_dest \<and> compare_ether_addr dst rfc1042_header \<noteq> 0
     then Some (amsdu_purge lst freed skb k)
     else do {
       let skb1 = skb_pull skb ETH_HLEN;
       if remaining \<le> subframe_len + padding then do {
         frame \<leftarrow> amsdu_frame skb1 dst src len;
         Some (0, lst @ [frame], freed, frame, k) }
       else (case dev_alloc_skb (kz k) (of_nat (hlen + subframe_len + 2)) of
           None \<Rightarrow> Some (amsdu_purge lst freed skb1 (Suc k))
         | Some frame \<Rightarrow> do {
             let frame = skb_reserve frame (hlen + ETH_HLEN + 2);
             bs \<leftarrow> skb_rdn skb1 0 n;
             frame \<leftarrow> skb_put_at (skb_put frame n) (skb_Tail frame) bs;
             let frame = (if prio then frame\<lparr>skb_priority := skb_priority skb\<rparr> else frame);
             frame \<leftarrow> amsdu_frame frame dst src len;
             amsdu_loop check_dest hlen prio kz (Suc k) (skb_pull skb1 (n + padding))
               (lst @ [frame]) freed }) } }"
  by pat_completeness auto

termination
  by (relation "measure (\<lambda>(_, _, _, _, _, skb, _, _). unat (skb_len skb))")
    (simp_all add: pull_pull_len Let_def)

text \<open>In rx.c the headroom is ALIGN2(extra_headroom, 4), and the only caller passes 0.\<close>

definition ALIGN2 :: "nat \<Rightarrow> nat \<Rightarrow> nat" where
  "ALIGN2 x a = (x + a - 1) div a * a"

definition atbm_ieee80211_amsdu_to_8023s ::
    "(nat \<Rightarrow> nat option) \<Rightarrow> sk_buff \<Rightarrow> sk_buff list \<Rightarrow> mac \<Rightarrow> nl80211_iftype \<Rightarrow> nat \<Rightarrow> bool \<Rightarrow>
     (int \<times> sk_buff list \<times> nat list \<times> sk_buff \<times> nat) option" where
  "atbm_ieee80211_amsdu_to_8023s kz skb lst addr iftype extra_headroom has_80211_header =
     (if has_80211_header then do {
        (err, skb) \<leftarrow> ieee80211_data_to_8023 skb addr iftype;
        if err \<noteq> 0 then Some (-1, lst, [], skb, 0)
        else amsdu_loop True (ALIGN2 extra_headroom 4) True kz 0 (skb_pull skb ETH_HLEN) lst [] }
      else amsdu_loop True (ALIGN2 extra_headroom 4) True kz 0 skb lst [])"

text \<open>The copy in atbm_os_proto.c returns nothing and frees the aggregate itself when it gives up.\<close>

definition ieee80211_amsdu_to_8023s ::
    "(nat \<Rightarrow> nat option) \<Rightarrow> sk_buff \<Rightarrow> sk_buff list \<Rightarrow> mac \<Rightarrow> nl80211_iftype \<Rightarrow> bool \<Rightarrow>
     (sk_buff list \<times> nat list) option" where
  "ieee80211_amsdu_to_8023s kz skb lst addr iftype has_80211_header = do {
     (err, skb) \<leftarrow> (if has_80211_header then ieee80211_data_to_8023 skb addr iftype else Some (0, skb));
     if err \<noteq> 0 then Some (lst, [skb_addr skb])
     else do {
       (err, lst, freed, skb, k) \<leftarrow> amsdu_loop False 32 False kz 0
          (if has_80211_header then skb_pull skb ETH_HLEN else skb) lst [];
       Some (lst, if err \<noteq> 0 then freed @ [skb_addr skb] else freed) } }"

subsection \<open>The header that is pushed\<close>

lemma push_ether_header_ok:
  assumes "skb_view skb (pre @ h) body post" "length h = 12" "length dst = 6" "length src = 6"
    "length body + 12 < 2 ^ 16"
  shows "\<exists>skb'. push_ether_header skb dst src = Some skb' \<and> skb_view skb' pre (dst @ src @ body) post
     \<and> skb_addr skb' = skb_addr skb"
proof -
  define h1 h2 where "h1 = take 6 h" and "h2 = drop 6 h"
  have h: "h = h1 @ h2" "length h1 = 6" "length h2 = 6" using assms(2) by (auto simp: h1_def h2_def)
  have "skb_view (skb_push skb 6) (pre @ h1) (h2 @ body) post"
    by (rule view_push) (use assms h in auto)
  then obtain s1 where s1: "skb_wrn (skb_push skb 6) 0 src = Some s1"
    "skb_view s1 (pre @ h1) (src @ body) post" "skb_addr s1 = skb_addr skb"
    using view_wrn[of "skb_push skb 6" "pre @ h1" "[]" h2 body post 0 src] h assms(4)
    by (auto simp: skb_push_def)
  have "skb_view (skb_push s1 6) pre (h1 @ src @ body) post"
    by (rule view_push) (use s1(2) h assms in auto)
  then show ?thesis
    using view_wrn[of "skb_push s1 6" pre "[]" h1 "src @ body" post 0 dst] h assms(3) s1
    by (auto simp: push_ether_header_def skb_push_def)
qed

subsection \<open>Round trip between 802.3 and 802.11\<close>

lemma all_less_6: "(\<forall>i<6. P i) = (P 0 \<and> P 1 \<and> P 2 \<and> P 3 \<and> P 4 \<and> P (5::nat))"
  by (simp add: numeral_eq_Suc All_less_Suc2)

lemma compare_ether_addr_0:
  assumes "length a \<ge> 6" "length b \<ge> 6"
  shows "compare_ether_addr a b = 0 \<longleftrightarrow> take 6 a = take 6 b"
proof -
  have "take 6 a = take 6 b \<longleftrightarrow> (\<forall>i<6. a ! i = b ! i)"
    using assms by (auto simp: list_eq_iff_nth_eq min_def)
  then show ?thesis by (simp add: compare_ether_addr_def all_less_6)
qed

lemma view_rd16:
  assumes "skb_view skb pre (a @ b @ c) post" "off = int (length a)" "length b = 2"
  shows "skb_rd16 skb off = Some (le16 (b ! 0) (b ! 1))"
proof -
  obtain x y where b: "b = [x, y]" using assms(3) by (auto simp: length_Suc_conv numeral_2_eq_2)
  show ?thesis
    using assms(1,2) by (auto simp: skb_view_def skb_rd16_def rd16_def rd8_def b nth_append nat_add_distrib)
qed

lemma to_8023_ok:
  assumes v: "skb_view skb pre (hdr @ enc @ ty @ rest) post"
    and hdr: "hdr = bytes16 fc @ hdr'" "length hdr = unat (ieee80211_hdrlen fc)"
    and enc: "length enc = 6" "length ty = 2"
    and d: "ieee80211_is_data_present fc" "snap_encap (enc @ ty) (be16 (ty ! 0) (ty ! 1))"
    and a: "dst = take 6 (drop (nat (ieee80211_get_DA fc)) hdr)"
      "src = take 6 (drop (nat (ieee80211_get_SA fc)) hdr)" "\<not> to_8023_refused fc iftype dst src addr"
    and l: "length hdr \<ge> 24" "length (ty @ rest) + 12 < 2 ^ 16"
  shows "\<exists>skb' pre'. ieee80211_data_to_8023 skb addr iftype = Some (0, skb') \<and>
           skb_view skb' pre' (dst @ src @ ty @ rest) post \<and> skb_addr skb' = skb_addr skb"
proof -
  have fc: "skb_fc skb = Some fc"
    using view_rd16[of skb pre "[]" "bytes16 fc" "hdr' @ enc @ ty @ rest" post 0] v
    by (simp add: skb_fc_def hdr(1)) (simp add: bytes16_def)
  have a4: "\<not> ieee80211_has_a4 fc"
    using a(3) by (auto simp: to_8023_refused_def ieee80211_has_a4_def Let_def)
  have pos: "ieee80211_get_DA fc \<in> {4, 16}" "ieee80211_get_SA fc \<in> {10, 16}"
    using a4 by (auto simp: ieee80211_get_DA_def ieee80211_get_SA_def)
  have rdn: "skb_rdn skb off 6 = Some (take 6 (drop (nat off) hdr))"
    if "off \<in> {4, 10, 16}" for off
    using view_rdn[OF v, of "nat off" 6] that l by (auto simp del: append_assoc)
  have pl: "skb_rdn skb (int (length hdr)) 8 = Some (enc @ ty)"
    by (rule view_rdn_body[of skb pre hdr "enc @ ty" rest post]) (use v enc in auto)
  have ix: "(enc @ ty) ! 6 = ty ! 0" "(enc @ ty) ! 7 = ty ! 1" using enc by (auto simp: nth_append)
  define A B where "A = take (length hdr - 6) hdr" and "B = drop (length hdr - 6) hdr"
  have AB: "hdr = A @ B" "length (B @ enc) = 12" using l(1) enc by (simp_all add: A_def B_def)
  have "skb_view (skb_pull skb (length hdr + 6)) (pre @ hdr @ enc) (ty @ rest) post"
    using view_pull[OF v, of "length hdr + 6"] enc by simp
  then have v2: "skb_view (skb_pull skb (length hdr + 6)) ((pre @ A) @ (B @ enc)) (ty @ rest) post"
    by (simp add: AB(1))
  have "length dst = 6" "length src = 6" using a(1,2) pos l(1) by auto
  from push_ether_header_ok[OF v2 AB(2) this l(2)]
  obtain skb' where "push_ether_header (skb_pull skb (length hdr + 6)) dst src = Some skb'"
    "skb_view skb' (pre @ A) (dst @ src @ ty @ rest) post"
    "skb_addr skb' = skb_addr (skb_pull skb (length hdr + 6))" by blast
  then show ?thesis
    using fc d a pl ix rdn pos
    by (auto simp: ieee80211_data_to_8023_def hdr(2)[symmetric] skb_pull_def Let_def)
qed

text \<open>Writing at an absolute position of a view.\<close>

lemma view_put_at:
  assumes "skb_view skb pre (a @ b @ c) post" "off = int (length pre + length a)" "length bs = length b"
  shows "\<exists>skb'. skb_put_at skb off bs = Some skb' \<and> skb_view skb' pre (a @ bs @ c) post \<and>
     skb_priority skb' = skb_priority skb \<and> skb_addr skb' = skb_addr skb"
  using assms by (auto simp: skb_view_def skb_put_at_def wrn_def)

lemma view_at:
  assumes "skb_view skb pre (a @ b @ c) post" "off = int (length pre + length a)" "n = length b"
  shows "skb_at skb off n = Some b"
  using assms by (auto simp: skb_view_def skb_at_def rdn_def nat_add_distrib)

lemma write_80211_header_ok:
  assumes v: "skb_view skb pre (p0 @ p1 @ as @ p5 @ p6 @ q @ ty) post"
    and l: "length p0 = 2" "length p1 = 2" "length as = 18" "length p5 = 2"
      "length p6 = (if qos then 2 else 0)" "enc = Some e \<or> enc = None \<and> e = []" "length q = length e"
    and h: "hdr = int (length pre)" "llchdr = hdr + 24 + int (length p6)"
  shows "\<exists>skb'. write_80211_header skb hdr llchdr enc qos fc = Some (0, skb') \<and>
    skb_view skb' pre (bytes16 (if qos then fc OR IEEE80211_STYPE_QOS_DATA else fc) @ [0, 0] @ as @ [0, 0]
       @ (if qos then bytes16 (ucast (skb_priority skb AND 7)) else []) @ e @ ty) post
    \<and> skb_addr skb' = skb_addr skb"
proof -
  have z: "bytes16 0 = [0, 0]" by (simp add: bytes16_def lo8_def hi8_def)
  define t where "t = (if qos then bytes16 (ucast (skb_priority skb AND 7)) else [])"
  define fc' where "fc' = (if qos then fc OR IEEE80211_STYPE_QOS_DATA else fc)"
  have lt: "length t = length p6" using l by (auto simp: t_def)
  obtain s0 where s0: "(if qos then do {
         let tid = skb_priority skb AND 7;
         skb \<leftarrow> skb_put_at skb (hdr + 24) (bytes16 (ucast (0 OR tid)));
         Some (skb, fc OR IEEE80211_STYPE_QOS_DATA) } else Some (skb, fc)) = Some (s0, fc')"
    "skb_view s0 pre (p0 @ p1 @ as @ p5 @ t @ q @ ty) post" "skb_addr s0 = skb_addr skb"
  proof (cases qos)
    case True
    then show ?thesis
      using that view_put_at[of skb pre "p0 @ p1 @ as @ p5" p6 "q @ ty" post "hdr + 24" t] v l h
      by (auto simp: t_def fc'_def Let_def)
  qed (use that v l in \<open>auto simp: t_def fc'_def\<close>)
  obtain s1 where s1: "skb_put_at s0 hdr (bytes16 fc') = Some s1"
    "skb_view s1 pre (bytes16 fc' @ p1 @ as @ p5 @ t @ q @ ty) post" "skb_addr s1 = skb_addr skb"
    using view_put_at[of s0 pre "[]" p0 "p1 @ as @ p5 @ t @ q @ ty" post hdr "bytes16 fc'"] s0 l h by auto
  obtain s2 where s2: "skb_put_at s1 (hdr + 2) (bytes16 0) = Some s2"
    "skb_view s2 pre (bytes16 fc' @ [0, 0] @ as @ p5 @ t @ q @ ty) post" "skb_addr s2 = skb_addr skb"
    using view_put_at[of s1 pre "bytes16 fc'" p1 "as @ p5 @ t @ q @ ty" post "hdr + 2" "bytes16 0"] s1 l h
    by (auto simp: z)
  obtain s3 where s3: "skb_put_at s2 (hdr + 22) (bytes16 0) = Some s3"
    "skb_view s3 pre (bytes16 fc' @ [0, 0] @ as @ [0, 0] @ t @ q @ ty) post" "skb_addr s3 = skb_addr skb"
    using view_put_at[of s2 pre "bytes16 fc' @ [0, 0] @ as" p5 "t @ q @ ty" post "hdr + 22" "bytes16 0"] s2 l h
    by (auto simp: z)
  obtain s4 where s4: "(case enc of Some e \<Rightarrow> skb_put_at s3 llchdr e | None \<Rightarrow> Some s3) = Some s4"
    "skb_view s4 pre (bytes16 fc' @ [0, 0] @ as @ [0, 0] @ t @ e @ ty) post" "skb_addr s4 = skb_addr skb"
    using view_put_at[of s3 pre "bytes16 fc' @ [0, 0] @ as @ [0, 0] @ t" q ty post llchdr e] s3 l(6) l h lt
    by (elim disjE) auto
  show ?thesis
    using s0 s1 s2 s3 s4 l(6)
    by (auto simp: write_80211_header_def t_def fc'_def simp del: append_Cons append_assoc)
qed

text \<open>The 802.11 header that ieee80211_data_from_8023 should build, as the standard lays it out.\<close>

definition dot11_data_header :: "u16 \<Rightarrow> mac \<Rightarrow> mac \<Rightarrow> mac \<Rightarrow> bool \<Rightarrow> u8 \<Rightarrow> bytes" where
  "dot11_data_header ds a1 a2 a3 qos tid =
     bytes16 (IEEE80211_FTYPE_DATA OR ds OR (if qos then IEEE80211_STYPE_QOS_DATA else 0))
     @ [0, 0] @ a1 @ a2 @ a3 @ [0, 0] @ (if qos then bytes16 (ucast tid) else [])"

definition encaps_of :: "u16 \<Rightarrow> bytes" where
  "encaps_of ethertype = (if ethertype = ETH_P_AARP \<or> ethertype = ETH_P_IPX
     then bridge_tunnel_header else rfc1042_header)"

lemma split_at: "n \<le> length xs \<Longrightarrow> \<exists>ys zs. xs = ys @ zs \<and> length ys = n \<and> length zs = length xs - n"
  by (metis append_take_drop_id length_drop length_take min.absorb2)

lemma ntohs_le16: "ntohs (le16 a b) = be16 a b"
  by (simp add: ntohs_def le16_def be16_def lo8_le16[unfolded le16_def] hi8_le16[unfolded le16_def])

lemma from_8023_ok:
  assumes v: "skb_view skb (pre @ h) (dst @ src @ ty @ rest) post"
    and l: "length h = (if qos then 20 else 18)" "length dst = 6" "length src = 6" "length ty = 2"
      "length addr = 6" "length bssid = 6" "length rest + 34 < 2 ^ 16"
    and et: "et = be16 (ty ! 0) (ty ! 1)" "et = ETH_P_AARP \<or> et = ETH_P_IPX \<or> et > 0x600"
    and iftype: "iftype = (if ap then NL80211_IFTYPE_AP else NL80211_IFTYPE_STATION)"
  shows "\<exists>skb'. ieee80211_data_from_8023 skb addr iftype bssid qos = Some (0, skb') \<and>
    skb_addr skb' = skb_addr skb \<and>
    skb_view skb' pre ((if ap then dot11_data_header IEEE80211_FCTL_FROMDS dst addr src qos (skb_priority skb AND 7)
       else dot11_data_header IEEE80211_FCTL_TODS bssid src dst qos (skb_priority skb AND 7))
      @ encaps_of et @ ty @ rest) post"
proof -
  define E where "E = encaps_of et"
  have E: "length E = 6" by (simp add: E_def encaps_of_def rfc1042_header_def bridge_tunnel_header_def)
  have len: "\<not> skb_len skb < of_nat ETH_HLEN"
    using v l by (simp add: skb_view_def word_less_nat_alt)
  have rd: "skb_rd16 skb 12 = Some (le16 (ty ! 0) (ty ! 1))"
    using view_rd16[of skb "pre @ h" "dst @ src" ty rest post 12] v l by simp
  have enc: "encaps_data_of et = Some E"
    using et(2) by (auto simp: E_def encaps_of_def encaps_data_of_def)
  have v1: "skb_view (skb_pull skb 12) ((pre @ h @ dst) @ src) (ty @ rest) post"
    using view_pull[OF v, of 12] l by simp
  have v2: "skb_view (skb_push (skb_pull skb 12) 6) (pre @ (h @ dst)) (src @ ty @ rest) post"
    using view_push[OF v1, of 6] l by simp
  define n where "n = (if qos then 26 else 24 :: nat)"
  define s0 where "s0 = skb_push (skb_push (skb_pull skb 12) 6) n"
  have hn: "n = length (h @ dst)" "n \<le> 26" using l by (simp_all add: n_def)
  have v3: "skb_view s0 pre (h @ dst @ src @ ty @ rest) post"
    using view_push[OF v2 hn(1)] l hn(2) unfolding s0_def by simp
  have s0: "skb_data (skb_push (skb_pull skb 12) 6) = int (length pre + n)"
    "skb_data s0 = int (length pre)" "skb_data skb = int (length pre + length h)"
    "skb_priority s0 = skb_priority skb" "skb_addr s0 = skb_addr skb"
    using v2 v3 v hn by (simp_all add: skb_view_def s0_def skb_push_def skb_pull_def)
  define e where "e = (if qos then 4 else 2 :: nat)"
  have lh: "length h = 16 + e" "2 \<le> e" using l by (simp_all add: e_def)
  obtain p0 h1 where p0: "h = p0 @ h1" "length p0 = 2" "length h1 = 14 + e"
    using split_at[of 2 h] lh by auto
  obtain p1 h2 where p1: "h1 = p1 @ h2" "length p1 = 2" "length h2 = 12 + e"
    using split_at[of 2 h1] p0 by auto
  obtain p2 h3 where p2: "h2 = p2 @ h3" "length p2 = 6" "length h3 = 6 + e"
    using split_at[of 6 h2] p1 by auto
  obtain p3 x where p3: "h3 = p3 @ x" "length p3 = 6" "length x = (if qos then 4 else 2)"
    using split_at[of 6 h3] p2 by (auto simp: e_def)
  obtain p4 y where p4: "x @ dst = p4 @ y" "length p4 = 6" "length y = (if qos then 4 else 2)"
    using split_at[of 6 "x @ dst"] l p3 by (auto split: if_splits)
  obtain p5 p6 where p5: "y = p5 @ p6" "length p5 = 2" "length p6 = (if qos then 2 else 0)"
    using split_at[of 2 y] p4 by (auto split: if_splits)
  note L = l(1-6) p0(2) p1(2) p2(2) p3(2,3) p4(2) p5(2,3)
  have v3': "skb_view s0 pre (p0 @ p1 @ p2 @ p3 @ p4 @ p5 @ p6 @ src @ ty @ rest) post"
    using v3 p0(1) p1(1) p2(1) p3(1) p4(1) p5(1) by (metis append_assoc)
  have xd: "p4 @ p5 @ p6 @ r = x @ dst @ r" for r using p4(1) p5(1) by (metis append_assoc)
  have hl: "length h = 16 + length x" using p0 p1 p2 p3 by simp
  have nq: "24 + (if qos then 2 else 0) = n" by (simp add: n_def)
  have ete: "be16 (ty ! 0) (ty ! Suc 0) = et" using et(1) by simp
  have run: "ieee80211_data_from_8023 skb addr iftype bssid qos =
     (if ap then do {
          d \<leftarrow> skb_at s0 (skb_data skb) 6;
          s1 \<leftarrow> skb_put_at s0 (skb_data s0 + 4) d;
          s2 \<leftarrow> skb_put_at s1 (skb_data s0 + 10) addr;
          s \<leftarrow> skb_at s2 (skb_data skb + 6) 6;
          s3 \<leftarrow> skb_put_at s2 (skb_data s0 + 16) s;
          write_80211_header s3 (skb_data s0) (skb_data s0 + int n) (Some E) qos (8 OR IEEE80211_FCTL_FROMDS) }
      else do {
          s1 \<leftarrow> skb_put_at s0 (skb_data s0 + 4) bssid;
          s \<leftarrow> skb_at s1 (skb_data skb + 6) 6;
          s2 \<leftarrow> skb_put_at s1 (skb_data s0 + 10) s;
          d \<leftarrow> skb_at s2 (skb_data skb) 6;
          s3 \<leftarrow> skb_put_at s2 (skb_data s0 + 16) d;
          write_80211_header s3 (skb_data s0) (skb_data s0 + int n) (Some E) qos (8 OR IEEE80211_FCTL_TODS) })"
    using len rd enc E s0(1,2)
    by (simp add: ieee80211_data_from_8023_def iftype ntohs_le16 ete Let_def nq
        flip: s0_def)
  have ll: "skb_data s0 + int n = skb_data s0 + 24 + int (length p6)" using L by (simp add: n_def)
  show ?thesis
  proof (cases ap)
    case True
    have 1: "skb_at s0 (skb_data skb) 6 = Some dst"
      by (rule view_at[of s0 pre h dst "src @ ty @ rest" post]) (use v3 s0 L in auto)
    obtain s1 where s1: "skb_put_at s0 (skb_data s0 + 4) dst = Some s1"
      "skb_view s1 pre (p0 @ p1 @ dst @ p3 @ p4 @ p5 @ p6 @ src @ ty @ rest) post"
      "skb_priority s1 = skb_priority skb" "skb_addr s1 = skb_addr skb"
      using view_put_at[of s0 pre "p0 @ p1" p2 "p3 @ p4 @ p5 @ p6 @ src @ ty @ rest" post
          "skb_data s0 + 4" dst] v3' s0 L by auto
    obtain s2 where s2: "skb_put_at s1 (skb_data s0 + 10) addr = Some s2"
      "skb_view s2 pre (p0 @ p1 @ dst @ addr @ p4 @ p5 @ p6 @ src @ ty @ rest) post"
      "skb_priority s2 = skb_priority skb" "skb_addr s2 = skb_addr skb"
      using view_put_at[of s1 pre "p0 @ p1 @ dst" p3 "p4 @ p5 @ p6 @ src @ ty @ rest" post
          "skb_data s0 + 10" addr] s1 s0 L by auto
    have 2: "skb_at s2 (skb_data skb + 6) 6 = Some src"
      by (rule view_at[of s2 pre "p0 @ p1 @ dst @ addr @ p4 @ p5 @ p6" src "ty @ rest" post])
        (use s2 s0 L hl in auto)
    obtain s3 where s3: "skb_put_at s2 (skb_data s0 + 16) src = Some s3"
      "skb_view s3 pre (p0 @ p1 @ (dst @ addr @ src) @ p5 @ p6 @ src @ ty @ rest) post"
      "skb_priority s3 = skb_priority skb" "skb_addr s3 = skb_addr skb"
      using view_put_at[of s2 pre "p0 @ p1 @ dst @ addr" p4 "p5 @ p6 @ src @ ty @ rest" post
          "skb_data s0 + 16" src] s2 s0 L by auto
    show ?thesis
      using write_80211_header_ok[OF s3(2), of qos "Some E" E "skb_data s0" "skb_data s0 + int n"
          "8 OR IEEE80211_FCTL_FROMDS"] run 1 s1 s2 2 s3 True L E s0(2) ll
      by (auto simp: dot11_data_header_def E_def)
  next
    case False
    obtain s1 where s1: "skb_put_at s0 (skb_data s0 + 4) bssid = Some s1"
      "skb_view s1 pre (p0 @ p1 @ bssid @ p3 @ p4 @ p5 @ p6 @ src @ ty @ rest) post"
      "skb_priority s1 = skb_priority skb" "skb_addr s1 = skb_addr skb"
      using view_put_at[of s0 pre "p0 @ p1" p2 "p3 @ p4 @ p5 @ p6 @ src @ ty @ rest" post
          "skb_data s0 + 4" bssid] v3' s0 L by auto
    have 1: "skb_at s1 (skb_data skb + 6) 6 = Some src"
      by (rule view_at[of s1 pre "p0 @ p1 @ bssid @ p3 @ p4 @ p5 @ p6" src "ty @ rest" post])
        (use s1 s0 L hl in auto)
    obtain s2 where s2: "skb_put_at s1 (skb_data s0 + 10) src = Some s2"
      "skb_view s2 pre (p0 @ p1 @ bssid @ src @ p4 @ p5 @ p6 @ src @ ty @ rest) post"
      "skb_priority s2 = skb_priority skb" "skb_addr s2 = skb_addr skb"
      using view_put_at[of s1 pre "p0 @ p1 @ bssid" p3 "p4 @ p5 @ p6 @ src @ ty @ rest" post
          "skb_data s0 + 10" src] s1 s0 L by auto
    have 2: "skb_at s2 (skb_data skb) 6 = Some dst"
      by (rule view_at[of s2 pre "p0 @ p1 @ bssid @ src @ x" dst "src @ ty @ rest" post])
        (use s2 s0 L hl xd in auto)
    obtain s3 where s3: "skb_put_at s2 (skb_data s0 + 16) dst = Some s3"
      "skb_view s3 pre (p0 @ p1 @ (bssid @ src @ dst) @ p5 @ p6 @ src @ ty @ rest) post"
      "skb_priority s3 = skb_priority skb" "skb_addr s3 = skb_addr skb"
      using view_put_at[of s2 pre "p0 @ p1 @ bssid @ src" p4 "p5 @ p6 @ src @ ty @ rest" post
          "skb_data s0 + 16" dst] s2 s0 L by auto
    show ?thesis
      using write_80211_header_ok[OF s3(2), of qos "Some E" E "skb_data s0" "skb_data s0 + int n"
          "8 OR IEEE80211_FCTL_TODS"] run s1 1 s2 2 s3 False L E s0(2) ll
      by (auto simp: dot11_data_header_def E_def)
  qed
qed

lemma snap_encap_encaps:
  assumes "length ty = 2" "et = be16 (ty ! 0) (ty ! 1)"
  shows "snap_encap (encaps_of et @ ty) et"
  by (auto simp: snap_encap_def encaps_of_def compare_ether_addr_def rfc1042_header_def
      bridge_tunnel_header_def)

text \<open>A station's Ethernet frame converted to 802.11 by ieee80211_data_from_8023 and back by the
  access point's ieee80211_data_to_8023 is the original frame, byte for byte, and the same from an
  access point to a station (unless it is the station's own multicast frame coming back), with and
  without a QoS header, for every ethertype above 0x600 and the two bridge-tunnelled ones.\<close>
theorem ethernet_dot11_roundtrip:
  assumes v: "skb_view skb (pre @ h) (dst @ src @ ty @ rest) post"
    and l: "length h = (if qos then 20 else 18)" "length dst = 6" "length src = 6" "length ty = 2"
      "length addr = 6" "length bssid = 6" "length rest + 34 < 2 ^ 16"
    and et: "et = be16 (ty ! 0) (ty ! 1)" "et = ETH_P_AARP \<or> et = ETH_P_IPX \<or> et > 0x600"
    and own: "ap \<Longrightarrow> \<not> (is_multicast_ether_addr dst \<and> compare_ether_addr src raddr = 0)"
  shows "\<exists>s1 s2. ieee80211_data_from_8023 skb addr
             (if ap then NL80211_IFTYPE_AP else NL80211_IFTYPE_STATION) bssid qos = Some (0, s1) \<and>
           ieee80211_data_to_8023 s1 raddr
             (if ap then NL80211_IFTYPE_STATION else NL80211_IFTYPE_AP) = Some (0, s2) \<and>
           skb_payload s2 = Some (dst @ src @ ty @ rest)"
proof -
  define fc where "fc = (IEEE80211_FTYPE_DATA OR (if ap then IEEE80211_FCTL_FROMDS else IEEE80211_FCTL_TODS)
     OR (if qos then IEEE80211_STYPE_QOS_DATA else 0))"
  define hdr where "hdr = (if ap
    then dot11_data_header IEEE80211_FCTL_FROMDS dst addr src qos (skb_priority skb AND 7)
    else dot11_data_header IEEE80211_FCTL_TODS bssid src dst qos (skb_priority skb AND 7))"
  obtain s1 where s1: "ieee80211_data_from_8023 skb addr
      (if ap then NL80211_IFTYPE_AP else NL80211_IFTYPE_STATION) bssid qos = Some (0, s1)"
    "skb_view s1 pre (hdr @ encaps_of et @ ty @ rest) post"
    using from_8023_ok[OF v l et refl, of ap] by (auto simp: hdr_def)
  have fc: "ieee80211_is_data_present fc" "unat (ieee80211_hdrlen fc) = (if qos then 26 else 24)"
    "nat (ieee80211_get_DA fc) = (if ap then 4 else 16)" "nat (ieee80211_get_SA fc) = (if ap then 16 else 10)"
    by (simp_all add: fc_def fc_defs ieee80211_hdrlen_def ieee80211_get_DA_def ieee80211_get_SA_def)
  have hd: "hdr = bytes16 fc @ drop 2 hdr" "length hdr = unat (ieee80211_hdrlen fc)" "24 \<le> length hdr"
    using l unfolding fc(2) by (simp_all add: hdr_def dot11_data_header_def fc_def)
  have da: "dst = take 6 (drop (nat (ieee80211_get_DA fc)) hdr)"
    "src = take 6 (drop (nat (ieee80211_get_SA fc)) hdr)"
    using l unfolding fc by (simp_all add: hdr_def dot11_data_header_def)
  have ok: "\<not> to_8023_refused fc (if ap then NL80211_IFTYPE_STATION else NL80211_IFTYPE_AP) dst src raddr"
    using own by (auto simp: to_8023_refused_def fc_def Let_def)
  have "length (encaps_of et) = 6"
    by (simp add: encaps_of_def rfc1042_header_def bridge_tunnel_header_def)
  moreover have "snap_encap (encaps_of et @ ty) (be16 (ty ! 0) (ty ! 1))"
    using snap_encap_encaps[OF l(4) et(1)] et(1) by simp
  moreover have "length (ty @ rest) + 12 < 2 ^ 16" using l by simp
  ultimately obtain s2 pre' where "ieee80211_data_to_8023 s1 raddr
      (if ap then NL80211_IFTYPE_STATION else NL80211_IFTYPE_AP) = Some (0, s2)"
    "skb_view s2 pre' (dst @ src @ ty @ rest) post"
    using to_8023_ok[OF s1(2) hd(1,2) _ l(4) fc(1) _ da ok hd(3)] by blast
  then show ?thesis using s1(1) view_payload by blast
qed

text \<open>For an 802.3 frame whose type field is a length (at most 0x600 and not bridge-tunnelled) a
  station's ieee80211_data_from_8023 loses the destination: it copies the source address over it
  before it reads it, and the 802.11 header carries the source address as DA.\<close>
theorem from_8023_length_frame_loses_da:
  assumes v: "skb_view skb (pre @ h) (dst @ src @ ty @ rest) post"
    and l: "length h = 10" "length dst = 6" "length src = 6" "length ty = 2" "length bssid = 6"
      "length rest + 34 < 2 ^ 16"
    and et: "be16 (ty ! 0) (ty ! 1) \<le> 0x600"
  shows "\<exists>skb'. ieee80211_data_from_8023 skb addr NL80211_IFTYPE_STATION bssid False = Some (0, skb') \<and>
    skb_payload skb' = Some (dot11_data_header IEEE80211_FCTL_TODS bssid src src False 0 @ rest)"
proof -
  define et where "et = be16 (ty ! 0) (ty ! 1)"
  have len: "\<not> skb_len skb < of_nat ETH_HLEN"
    using v l by (simp add: skb_view_def word_less_nat_alt)
  have rd: "skb_rd16 skb 12 = Some (le16 (ty ! 0) (ty ! 1))"
    using view_rd16[of skb "pre @ h" "dst @ src" ty rest post 12] v l by simp
  have enc: "encaps_data_of (be16 (ty ! 0) (ty ! Suc 0)) = None"
    using et by (auto simp: encaps_data_of_def)
  have v1: "skb_view (skb_pull skb 14) (pre @ (h @ dst @ src @ ty)) rest post"
    using view_pull[OF v, of 14] l by simp
  define s0 where "s0 = skb_push (skb_pull skb 14) 24"
  obtain p0 h1 where p0: "h = p0 @ h1" "length p0 = 2" "length h1 = 8" using split_at[of 2 h] l by auto
  obtain p1 p2 where p1: "h1 = p1 @ p2" "length p1 = 2" "length p2 = 6" using split_at[of 2 h1] p0 by auto
  have v0: "skb_view s0 pre (p0 @ p1 @ p2 @ dst @ src @ ty @ rest) post"
    using view_push[OF v1, of 24] l p0 p1 by (simp add: s0_def)
  have s0: "skb_data s0 = int (length pre)" "skb_data skb = int (length pre + 10)"
    "skb_data (skb_pull skb 14) = int (length pre + 24)"
    using v0 v v1 l by (simp_all add: skb_view_def)
  note L = l p0(2) p1(2,3)
  obtain s1 where s1: "skb_put_at s0 (skb_data s0 + 4) bssid = Some s1"
    "skb_view s1 pre (p0 @ p1 @ bssid @ dst @ src @ ty @ rest) post"
    using view_put_at[of s0 pre "p0 @ p1" p2 "dst @ src @ ty @ rest" post "skb_data s0 + 4" bssid] v0 s0 L
    by auto
  have 1: "skb_at s1 (skb_data skb + 6) 6 = Some src"
    by (rule view_at[of s1 pre "p0 @ p1 @ bssid @ dst" src "ty @ rest" post]) (use s1 s0 L in auto)
  obtain s2 where s2: "skb_put_at s1 (skb_data s0 + 10) src = Some s2"
    "skb_view s2 pre (p0 @ p1 @ bssid @ src @ src @ ty @ rest) post"
    using view_put_at[of s1 pre "p0 @ p1 @ bssid" dst "src @ ty @ rest" post "skb_data s0 + 10" src] s1 s0 L
    by auto
  have 2: "skb_at s2 (skb_data skb) 6 = Some src"
    by (rule view_at[of s2 pre "p0 @ p1 @ bssid" src "src @ ty @ rest" post]) (use s2 s0 L in auto)
  obtain s3 where s3: "skb_put_at s2 (skb_data s0 + 16) src = Some s3"
    "skb_view s3 pre (p0 @ p1 @ (bssid @ src @ src) @ ty @ [] @ [] @ rest) post"
    using view_put_at[of s2 pre "p0 @ p1 @ bssid @ src" src "ty @ rest" post "skb_data s0 + 16" src] s2 s0 L
    by auto
  obtain s4 where s4: "write_80211_header s3 (skb_data s0) (skb_data s0 + 24) None False
      (8 OR IEEE80211_FCTL_TODS) = Some (0, s4)"
    "skb_view s4 pre (dot11_data_header IEEE80211_FCTL_TODS bssid src src False 0 @ rest) post"
    using write_80211_header_ok[OF s3(2), of False None "[]" "skb_data s0" "skb_data s0 + 24"
        "8 OR IEEE80211_FCTL_TODS"] L s0 by (auto simp: dot11_data_header_def)
  have "ieee80211_data_from_8023 skb addr NL80211_IFTYPE_STATION bssid False = Some (0, s4)"
    using len rd enc s0 s1 1 s2 2 s3 s4(1)
    by (simp add: ieee80211_data_from_8023_def ntohs_le16 Let_def flip: s0_def)
  then show ?thesis using view_payload[OF s4(2)] by blast
qed

subsection \<open>A-MSDU: no access outside a buffer, no buffer lost\<close>

lemma skb_wrn_defined:
  assumes "0 \<le> skb_data skb + off" "skb_data skb + off + int (length bs) \<le> int (length (skb_mem skb))"
  shows "\<exists>m. skb_wrn skb off bs = Some (skb\<lparr>skb_mem := m\<rparr>) \<and> length m = length (skb_mem skb)"
  using assms by (auto simp: skb_wrn_def wrn_def)

lemma push_ether_header_defined:
  assumes "12 \<le> skb_data f" "skb_data f \<le> int (length (skb_mem f))" "length dst = 6" "length src = 6"
  shows "\<exists>f'. push_ether_header f dst src = Some f' \<and> skb_addr f' = skb_addr f"
proof -
  obtain m where m: "skb_wrn (skb_push f 6) 0 src = Some ((skb_push f 6)\<lparr>skb_mem := m\<rparr>)"
    "length m = length (skb_mem f)"
    using skb_wrn_defined[of "skb_push f 6" 0 src] assms by (auto simp: skb_push_def)
  then show ?thesis
    using skb_wrn_defined[of "skb_push ((skb_push f 6)\<lparr>skb_mem := m\<rparr>) 6" 0 dst] assms
    by (auto simp: push_ether_header_def skb_push_def)
qed

lemma amsdu_frame_defined:
  assumes "14 \<le> skb_data f" "skb_data f + 8 \<le> int (length (skb_mem f))" "length dst = 6" "length src = 6"
  shows "\<exists>f'. amsdu_frame f dst src len = Some f' \<and> skb_addr f' = skb_addr f"
proof -
  obtain p where p: "skb_rdn f 0 8 = Some p"
    using assms by (auto simp: skb_rdn_def rdn_def)
  obtain m where m: "skb_wrn (skb_push f 2) 0 (bytes16 len) = Some ((skb_push f 2)\<lparr>skb_mem := m\<rparr>)"
    "length m = length (skb_mem f)"
    using skb_wrn_defined[of "skb_push f 2" 0 "bytes16 len"] assms by (auto simp: skb_push_def)
  show ?thesis
    using p m push_ether_header_defined[of "skb_pull f 6" dst src]
      push_ether_header_defined[of "(skb_push f 2)\<lparr>skb_mem := m\<rparr>" dst src] assms
    by (auto simp: amsdu_frame_def skb_pull_def skb_push_def Let_def)
qed

lemma padding_le: "unat ((4 - of_nat n :: u32) AND 3) \<le> 3"
proof -
  have "(4 - of_nat n :: u32) AND 3 \<le> 3" by (rule word_and_le1)
  then show ?thesis by (simp add: word_le_nat_alt)
qed

text \<open>A frame built in a fresh buffer.\<close>

lemma amsdu_alloc_defined:
  assumes al: "dev_alloc_skb kz (of_nat (hlen + (14 + n) + 2)) = Some f" and n: "n < 2 ^ 16" "hlen \<le> 64"
    and bs: "length bs = n"
  shows "\<exists>g. skb_put_at (skb_put (skb_reserve f (hlen + 14 + 2)) n) (skb_Tail (skb_reserve f (hlen + 14 + 2))) bs
            = Some g \<and> 14 \<le> skb_data g \<and> skb_data g + 8 \<le> int (length (skb_mem g)) \<and>
            skb_addr g = the kz"
proof -
  define sz where "sz = hlen + (14 + n) + 2"
  have "sz < 2 ^ 32" using n by (simp add: sz_def)
  then have sz: "unat (of_nat sz :: u32) = sz" by (simp add: unat_of_nat)
  have al': "dev_alloc_skb kz (of_nat sz) = Some f" using al by (simp only: sz_def)
  then have A: "0 \<le> skb_Head f" "skb_data f = skb_Head f + 64" "skb_Tail f = skb_data f"
    "skb_Tail f + int sz + 33 \<le> int (length (skb_mem f))"
    using alloc_facts(1-5,8)[OF al'] sz n
    by (auto simp: skb_wf_def skb_headroom_def sz_def simp del: of_nat_unat of_nat_add)
  have "skb_addr f = the kz"
    using al by (cases kz) (auto simp: dev_alloc_skb_def atbm_pbuf_alloc_def Let_def)
  then show ?thesis using A bs
    by (auto simp: skb_put_at_def wrn_def skb_put_def skb_reserve_def Let_def sz_def)
qed

text \<open>The buffers the allocator handed out for requests k to k' - 1, and what the loop returns: an error
  with every frame freed, or every allocated buffer and the aggregate itself in the queue, in
  order.\<close>

definition handed_out :: "(nat \<Rightarrow> nat option) \<Rightarrow> nat \<Rightarrow> nat \<Rightarrow> nat list" where
  "handed_out kz k k' = List.map_filter kz [k..<k']"

definition amsdu_result_ok ::
    "(nat \<Rightarrow> nat option) \<Rightarrow> nat \<Rightarrow> nat \<Rightarrow> nat list \<Rightarrow> nat list \<Rightarrow>
     int \<times> sk_buff list \<times> nat list \<times> sk_buff \<times> nat \<Rightarrow> bool" where
  "amsdu_result_ok kz k a queued freed r = (case r of (err, out, fr, skb', k') \<Rightarrow> k \<le> k' \<and>
     (if err = 0 then map skb_addr out = queued @ handed_out kz k k' @ [a] \<and> fr = freed
      else out = [] \<and> fr = freed @ queued @ handed_out kz k k'))"

lemma amsdu_result_step:
  assumes "amsdu_result_ok kz (Suc k) a (q @ [p]) freed r" "kz k = Some p"
  shows "amsdu_result_ok kz k a q freed r"
proof -
  have "handed_out kz k k' = p # handed_out kz (Suc k) k'" if "Suc k \<le> k'" for k'
    using that assms(2) by (simp add: handed_out_def upt_conv_Cons map_filter_simps)
  then show ?thesis
    using assms(1) by (auto simp: amsdu_result_ok_def split: prod.splits)
qed

lemma amsdu_loop_safe:
  assumes "skb_wf skb" "skb_Tail skb + 14 \<le> int (length (skb_mem skb))" "hlen \<le> 64"
  shows "\<exists>r. amsdu_loop chk hlen prio kz k skb lst freed = Some r \<and>
             amsdu_result_ok kz k (skb_addr skb) (map skb_addr lst) freed r"
  using assms
proof (induction "unat (skb_len skb)" arbitrary: k skb lst rule: less_induct)
  case less
  define L where "L = unat (skb_len skb)"
  have wf: "0 \<le> skb_data skb" "skb_Tail skb = skb_data skb + int L"
    "skb_Tail skb + 14 \<le> int (length (skb_mem skb))"
    using less.prems by (auto simp: skb_wf_def L_def simp del: of_nat_unat)
  obtain eth where eth: "skb_rdn skb 0 14 = Some eth" "length eth = 14"
    using wf by (auto simp: skb_rdn_def rdn_def)
  define len where "len = le16 (eth ! 12) (eth ! 13)"
  define n where "n = unat (ntohs len)"
  have n: "n < 2 ^ 16" using unat_lt2p[of "ntohs len"] by (simp add: n_def)
  define pad where "pad = unat ((4 - of_nat (14 + n) :: u32) AND 3)"
  define dst src where "dst = take 6 eth" and "src = take 6 (drop 6 eth)"
  have ds: "length dst = 6" "length src = 6" using eth(2) by (auto simp: dst_def src_def)
  have purge: "amsdu_result_ok kz k (skb_addr skb) (map skb_addr lst) freed (amsdu_purge lst freed s k)" for s
    by (simp add: amsdu_result_ok_def amsdu_purge_def handed_out_def map_filter_simps)
  note simps = amsdu_loop.simps[of chk hlen prio kz k skb lst freed]
  note unf = eth(1) Let_def len_def[symmetric] n_def[symmetric] L_def[symmetric] pad_def[symmetric]
    dst_def[symmetric] src_def[symmetric]
  show ?case
  proof (cases "14 + n > L \<or> chk \<and> compare_ether_addr dst rfc1042_header \<noteq> 0")
    case True
    then have "amsdu_loop chk hlen prio kz k skb lst freed = Some (amsdu_purge lst freed skb k)"
      by (subst simps) (auto simp: unf simp del: of_nat_add)
    then show ?thesis using purge by blast
  next
    case False
    define s1 where "s1 = skb_pull skb 14"
    have s1: "skb_mem s1 = skb_mem skb" "skb_data s1 = skb_data skb + 14" "skb_addr s1 = skb_addr skb"
      by (simp_all add: s1_def skb_pull_def)
    note unf = unf s1_def[symmetric]
    show ?thesis
    proof (cases "L \<le> 14 + n + pad")
      case last: True
      obtain f where f: "amsdu_frame s1 dst src len = Some f" "skb_addr f = skb_addr skb"
        using amsdu_frame_defined[of s1 dst src len] s1 wf ds False by auto
      then have "amsdu_loop chk hlen prio kz k skb lst freed = Some (0, lst @ [f], freed, f, k)"
        using False last by (subst simps) (auto simp: unf simp del: of_nat_add)
      then show ?thesis
        using f by (simp add: amsdu_result_ok_def handed_out_def map_filter_simps)
    next
      case more: False
      show ?thesis
      proof (cases "dev_alloc_skb (kz k) (of_nat (hlen + (14 + n) + 2))")
        case None
        then have "kz k = None"
          by (cases "kz k") (auto simp: dev_alloc_skb_def atbm_pbuf_alloc_def Let_def)
        moreover have "amsdu_loop chk hlen prio kz k skb lst freed = Some (amsdu_purge lst freed s1 (Suc k))"
          using False more None by (subst simps) (auto simp: unf simp del: of_nat_add)
        ultimately show ?thesis
          by (simp add: amsdu_result_ok_def amsdu_purge_def handed_out_def map_filter_simps)
      next
        case (Some f)
        obtain p where p: "kz k = Some p"
          using Some by (cases "kz k") (auto simp: dev_alloc_skb_def atbm_pbuf_alloc_def)
        define bs where "bs = take n (drop (nat (skb_data s1)) (skb_mem s1))"
        have bs: "skb_rdn s1 0 n = Some bs" "length bs = n"
          using s1 wf False by (auto simp: skb_rdn_def rdn_def bs_def)
        obtain g where g: "skb_put_at (skb_put (skb_reserve f (hlen + 14 + 2)) n)
            (skb_Tail (skb_reserve f (hlen + 14 + 2))) bs = Some g"
          "14 \<le> skb_data g" "skb_data g + 8 \<le> int (length (skb_mem g))" "skb_addr g = p"
          using amsdu_alloc_defined[OF Some n less.prems(3) bs(2)] p by auto
        define g' where "g' = (if prio then g\<lparr>skb_priority := skb_priority skb\<rparr> else g)"
        have g': "skb_data g' = skb_data g" "skb_mem g' = skb_mem g" "skb_addr g' = p"
          using g(4) by (simp_all add: g'_def)
        obtain fr where fr: "amsdu_frame g' dst src len = Some fr" "skb_addr fr = p"
          using amsdu_frame_defined[of g' dst src len] g ds g' by auto
        define t where "t = skb_pull s1 (n + pad)"
        have run: "amsdu_loop chk hlen prio kz k skb lst freed =
            amsdu_loop chk hlen prio kz (Suc k) t (lst @ [fr]) freed"
          using False more Some bs(1) g(1) fr(1)
          by (subst simps) (auto simp: unf t_def g'_def[symmetric] simp del: of_nat_add amsdu_loop.simps)
        have lt: "unat (skb_len t) = L - 14 - (n + pad)"
          using pull_pull_len[of 14 "n + pad" skb] False more
          by (simp add: t_def s1_def L_def)
        have t: "skb_addr t = skb_addr skb" "skb_mem t = skb_mem skb" "skb_Tail t = skb_Tail skb"
          "skb_data t = skb_data skb + int (14 + n + pad)" "skb_Head t = skb_Head skb"
          by (simp_all add: t_def s1_def skb_pull_def)
        have "skb_wf t" using less.prems(1) t lt more False
          by (auto simp: skb_wf_def simp flip: L_def simp del: of_nat_unat)
        then obtain r where r: "amsdu_loop chk hlen prio kz (Suc k) t (lst @ [fr]) freed = Some r"
          "amsdu_result_ok kz (Suc k) (skb_addr t) (map skb_addr (lst @ [fr])) freed r"
          using less.hyps[of t "Suc k" "lst @ [fr]"] less.prems(2,3) t lt more by (auto simp: L_def)
        then show ?thesis
          using amsdu_result_step[of kz k "skb_addr skb" "map skb_addr lst" p freed r] p fr t run by simp
      qed
    qed
  qed
qed


subsection \<open>A-MSDU: the frames come out\<close>

definition amsdu_pad :: "nat \<Rightarrow> nat" where
  "amsdu_pad n = (4 - (14 + n) mod 4) mod 4"

lemma amsdu_pad_code: "unat ((4 - of_nat (14 + n) :: u32) AND 3) = amsdu_pad n"
proof -
  have "(4 - of_nat (14 + n) :: u32) AND 3 = take_bit 2 (of_int (4 - int (14 + n)))"
    by (simp add: take_bit_eq_mask mask_eq_exp_minus_1)
  also have "\<dots> = of_int (take_bit 2 (4 - int (14 + n)))"
    by (rule take_bit_of_int)
  also have "take_bit 2 (4 - int (14 + n)) = int (amsdu_pad n)"
    by (simp add: take_bit_eq_mod amsdu_pad_def zmod_int of_nat_diff) presburger
  finally have "(4 - of_nat (14 + n) :: u32) AND 3 = of_nat (amsdu_pad n)" by simp
  moreover have "amsdu_pad n < 4" by (simp add: amsdu_pad_def)
  ultimately show ?thesis by (simp add: unat_of_nat)
qed

text \<open>An aggregate as the standard writes it: destination, source, length (big endian) and body of
  each subframe, padded to a multiple of four except the last.\<close>

type_synonym subframe = "mac \<times> mac \<times> bytes"

definition len_field :: "bytes \<Rightarrow> bytes" where
  "len_field b = bytes16 (ntohs (of_nat (length b)))"

fun amsdu_enc :: "subframe list \<Rightarrow> bytes" where
  "amsdu_enc [] = []"
| "amsdu_enc [(d, s, b)] = d @ s @ len_field b @ b"
| "amsdu_enc ((d, s, b) # x # xs) =
     d @ s @ len_field b @ b @ replicate (amsdu_pad (length b)) 0 @ amsdu_enc (x # xs)"

definition subframe_ok :: "subframe \<Rightarrow> bool" where
  "subframe_ok x = (case x of (d, s, b) \<Rightarrow> length d = 6 \<and> length s = 6 \<and> 8 \<le> length b)"

text \<open>The Ethernet frame of a subframe: a SNAP header is removed, anything else keeps its length.\<close>

definition subframe_eth :: "subframe \<Rightarrow> bytes" where
  "subframe_eth x = (case x of (d, s, b) \<Rightarrow>
     if snap_encap (take 8 b) (be16 (b ! 6) (b ! 7)) then d @ s @ drop 6 b else d @ s @ len_field b @ b)"

lemma amsdu_frame_ok:
  assumes v: "skb_view f (pre @ h) b post" and l: "length h = 14" "subframe_ok (d, s, b)"
    "length b + 14 < 2 ^ 16"
  shows "\<exists>f'. amsdu_frame f d s (ntohs (of_nat (length b))) = Some f' \<and>
     skb_payload f' = Some (subframe_eth (d, s, b))"
proof -
  have p: "skb_rdn f 0 8 = Some (take 8 b)"
    using view_rdn_body[of f "pre @ h" "[]" "take 8 b" "drop 8 b" post 0 8] v l
    by (auto simp: subframe_ok_def)
  have ix: "take 8 b ! 6 = b ! 6" "take 8 b ! 7 = b ! 7" by simp_all
  show ?thesis
  proof (cases "snap_encap (take 8 b) (be16 (b ! 6) (b ! 7))")
    case True
    have "skb_view (skb_pull f 6) ((pre @ take 8 h) @ (drop 8 h @ take 6 b)) (drop 6 b) post"
      using view_pull[OF v, of 6] l by (auto simp: subframe_ok_def)
        (metis append_assoc append_take_drop_id)
    then show ?thesis
      using push_ether_header_ok[of "skb_pull f 6" "pre @ take 8 h" "drop 8 h @ take 6 b" "drop 6 b" post d s]
        p ix True l view_payload
      by (fastforce simp: amsdu_frame_def subframe_ok_def subframe_eth_def)
  next
    case False
    have "skb_view f ((pre @ take 12 h) @ drop 12 h) b post" using v by simp
    then have v2: "skb_view (skb_push f 2) (pre @ take 12 h) (drop 12 h @ b) post"
      by (rule view_push) (use l in auto)
    obtain g where g: "skb_wrn (skb_push f 2) 0 (len_field b) = Some g"
      "skb_view g (pre @ take 12 h) (len_field b @ b) post"
      using view_wrn[of "skb_push f 2" "pre @ take 12 h" "[]" "drop 12 h" b post 0 "len_field b"] v2 l
      by (auto simp: len_field_def)
    then show ?thesis
      using push_ether_header_ok[of g pre "take 12 h" "len_field b @ b" post d s] p ix False l view_payload
      by (fastforce simp: amsdu_frame_def subframe_ok_def subframe_eth_def len_field_def)
  qed
qed

text \<open>A fresh buffer filled with a body.\<close>

lemma amsdu_alloc_view:
  assumes kz: "kz = Some p" and n: "length bs < 2 ^ 16" "hlen \<le> 64"
  shows "\<exists>f g pre h post. dev_alloc_skb kz (of_nat (hlen + (14 + length bs) + 2)) = Some f \<and>
     skb_put_at (skb_put (skb_reserve f (hlen + 14 + 2)) (length bs))
       (skb_Tail (skb_reserve f (hlen + 14 + 2))) bs = Some g \<and>
     skb_view g (pre @ h) bs post \<and> length h = 14"
proof -
  define sz where "sz = hlen + (14 + length bs) + 2"
  have "sz < 2 ^ 32" using n by (simp add: sz_def)
  then have sz: "unat (of_nat sz :: u32) = sz" by (simp add: unat_of_nat)
  obtain f where f: "dev_alloc_skb kz (of_nat sz) = Some f"
    using kz by (simp add: dev_alloc_skb_def atbm_pbuf_alloc_def Let_def)
  have A: "0 \<le> skb_Head f" "skb_data f = skb_Head f + 64" "skb_Tail f = skb_data f" "skb_len f = 0"
    "skb_Tail f + int sz + 33 \<le> int (length (skb_mem f))"
    using alloc_facts(1-5,8)[OF f] sz n
    by (auto simp: skb_wf_def skb_headroom_def sz_def simp del: of_nat_unat of_nat_add)
  define d where "d = nat (skb_data f) + hlen + 16"
  have d: "skb_data f + int (hlen + 14 + 2) = int d" "14 \<le> d" "d + length bs \<le> length (skb_mem f)"
    using A by (auto simp: d_def sz_def)
  define m where "m = take d (skb_mem f) @ bs @ drop (d + length bs) (skb_mem f)"
  define g where "g = (skb_put (skb_reserve f (hlen + 14 + 2)) (length bs))\<lparr>skb_mem := m\<rparr>"
  have run: "skb_put_at (skb_put (skb_reserve f (hlen + 14 + 2)) (length bs))
       (skb_Tail (skb_reserve f (hlen + 14 + 2))) bs = Some g"
    using d unfolding g_def m_def skb_put_at_def skb_reserve_def skb_put_def Let_def
    by (simp add: wrn_def)
  have "unat (of_nat (length bs) :: u16) = length bs" using n by (simp add: unat_of_nat)
  then have "skb_view g (take d (skb_mem f)) bs (drop (d + length bs) (skb_mem f))"
    using d A unfolding g_def m_def skb_view_def skb_reserve_def skb_put_def Let_def by simp
  then have "skb_view g (take (d - 14) (skb_mem f) @ drop (d - 14) (take d (skb_mem f))) bs
     (drop (d + length bs) (skb_mem f))"
    using d(2) append_take_drop_id[of "d - 14" "take d (skb_mem f)"] by (simp add: min_def)
  moreover have "length (drop (d - 14) (take d (skb_mem f))) = 14" using d by simp
  ultimately show ?thesis using f run unfolding sz_def by blast
qed

lemma amsdu_head:
  assumes v: "skb_view skb pre (d @ s @ len_field b @ r) post" and l: "length d = 6" "length s = 6"
    "length b < 2 ^ 16"
  obtains eth where "skb_rdn skb 0 14 = Some eth" "take 6 eth = d" "take 6 (drop 6 eth) = s"
    "le16 (eth ! 12) (eth ! 13) = ntohs (of_nat (length b))"
    "unat (ntohs (le16 (eth ! 12) (eth ! 13))) = length b"
proof
  define eth where "eth = d @ s @ len_field b"
  show "skb_rdn skb 0 14 = Some eth"
    by (rule view_rdn_body[of skb pre "[]" eth r post]) (use v l in \<open>auto simp: eth_def len_field_def\<close>)
  show "take 6 eth = d" "take 6 (drop 6 eth) = s" using l by (auto simp: eth_def)
  have "eth ! 12 = lo8 (ntohs (of_nat (length b)))" "eth ! 13 = hi8 (ntohs (of_nat (length b)))"
    using l by (simp_all add: eth_def len_field_def bytes16_def nth_append)
  then show "le16 (eth ! 12) (eth ! 13) = ntohs (of_nat (length b))" by simp
  then show "unat (ntohs (le16 (eth ! 12) (eth ! 13))) = length b" using l by (simp add: unat_of_nat)
qed

lemma amsdu_loop_decodes:
  assumes "skb_view skb pre (amsdu_enc xs) post" "xs \<noteq> []" "\<forall>x\<in>set xs. subframe_ok x"
    "length (amsdu_enc xs) + 14 < 2 ^ 16" "\<forall>i. kz i \<noteq> None" "hlen \<le> 64"
    "chk \<Longrightarrow> \<forall>x\<in>set xs. fst x = rfc1042_header"
  shows "\<exists>out s k'. amsdu_loop chk hlen prio kz k skb lst freed = Some (0, lst @ out, freed, s, k') \<and>
           map skb_payload out = map (Some \<circ> subframe_eth) xs"
  using assms
proof (induction xs arbitrary: k skb pre lst rule: amsdu_enc.induct)
  case 1
  then show ?case by simp
next
  case (2 d s b)
  have ok: "length d = 6" "length s = 6" "8 \<le> length b" using "2.prems"(3) by (auto simp: subframe_ok_def)
  have lb: "length b + 28 < 2 ^ 16" using "2.prems"(4) ok by (simp add: len_field_def)
  obtain eth where eth: "skb_rdn skb 0 14 = Some eth" "take 6 eth = d" "take 6 (drop 6 eth) = s"
    "le16 (eth ! 12) (eth ! 13) = ntohs (of_nat (length b))"
    "unat (ntohs (le16 (eth ! 12) (eth ! 13))) = length b"
    using amsdu_head[of skb pre d s b b post] "2.prems"(1) ok lb by auto
  have L: "unat (skb_len skb) = 14 + length b"
    using "2.prems"(1) ok by (simp add: skb_view_def len_field_def)
  have "skb_view (skb_pull skb 14) (pre @ (d @ s @ len_field b)) b post"
    using view_pull[OF "2.prems"(1), of 14] ok by (simp add: len_field_def)
  then obtain f where f: "amsdu_frame (skb_pull skb 14) d s (ntohs (of_nat (length b))) = Some f"
    "skb_payload f = Some (subframe_eth (d, s, b))"
    using amsdu_frame_ok[of "skb_pull skb 14" pre "d @ s @ len_field b" b post d s] "2.prems"(3) ok lb
    by (auto simp: len_field_def)
  have chk: "\<not> (chk \<and> compare_ether_addr d rfc1042_header \<noteq> 0)"
    using "2.prems"(7) by (auto simp: compare_ether_addr_def)
  have "amsdu_loop chk hlen prio kz k skb lst freed = Some (0, lst @ [f], freed, f, k)"
    unfolding amsdu_loop.simps[of chk hlen prio kz k skb lst freed] eth(1) Let_def
    using eth(2-5) L chk f by (auto simp: amsdu_pad_code)
  then show ?case using f(2) by force
next
  case (3 d s b x xs)
  define r where "r = amsdu_enc (x # xs)"
  define z where "z = replicate (amsdu_pad (length b)) (0::u8)"
  have ok: "length d = 6" "length s = 6" "8 \<le> length b" using "3.prems"(3) by (auto simp: subframe_ok_def)
  have v: "skb_view skb pre (d @ s @ len_field b @ b @ z @ r) post"
    using "3.prems"(1) by (simp add: r_def z_def)
  have lb: "14 + length b + amsdu_pad (length b) + length r + 14 < 2 ^ 16"
    using "3.prems"(4) ok by (simp add: len_field_def r_def)
  have r0: "0 < length r" using "3.prems"(3)
    by (cases xs; cases x) (auto simp: r_def subframe_ok_def len_field_def)
  obtain eth where eth: "skb_rdn skb 0 14 = Some eth" "take 6 eth = d" "take 6 (drop 6 eth) = s"
    "le16 (eth ! 12) (eth ! 13) = ntohs (of_nat (length b))"
    "unat (ntohs (le16 (eth ! 12) (eth ! 13))) = length b"
    using amsdu_head[of skb pre d s b "b @ z @ r" post] v ok lb by auto
  have L: "unat (skb_len skb) = 14 + length b + amsdu_pad (length b) + length r"
    using v ok by (simp add: skb_view_def len_field_def z_def)
  have v1: "skb_view (skb_pull skb 14) (pre @ d @ s @ len_field b) (b @ z @ r) post"
    using view_pull[OF v, of 14] ok by (simp add: len_field_def)
  have bs: "skb_rdn (skb_pull skb 14) 0 (length b) = Some b"
    by (rule view_rdn_body[of _ "pre @ d @ s @ len_field b" "[]" b "z @ r" post]) (use v1 in auto)
  have v2: "skb_view (skb_pull (skb_pull skb 14) (length b + amsdu_pad (length b)))
      (pre @ d @ s @ len_field b @ b @ z) r post"
    using view_pull[OF v1, of "length b + amsdu_pad (length b)"] by (simp add: z_def)
  obtain p where p: "kz k = Some p" using "3.prems"(5) by blast
  obtain f g pre' h post' where fg:
    "dev_alloc_skb (kz k) (of_nat (hlen + (14 + length b) + 2)) = Some f"
    "skb_put_at (skb_put (skb_reserve f (hlen + 14 + 2)) (length b))
       (skb_Tail (skb_reserve f (hlen + 14 + 2))) b = Some g"
    "skb_view g (pre' @ h) b post'" "length h = 14"
    using amsdu_alloc_view[OF p, of b hlen] lb "3.prems"(6) by auto
  define g' where "g' = (if prio then g\<lparr>skb_priority := skb_priority skb\<rparr> else g)"
  have "skb_view g' (pre' @ h) b post'" using fg(3) by (simp add: g'_def skb_view_def)
  then obtain fr where fr: "amsdu_frame g' d s (ntohs (of_nat (length b))) = Some fr"
    "skb_payload fr = Some (subframe_eth (d, s, b))"
    using amsdu_frame_ok[of g' pre' h b post' d s] fg(4) "3.prems"(3) lb by auto
  have chk: "\<not> (chk \<and> compare_ether_addr d rfc1042_header \<noteq> 0)"
    using "3.prems"(7) by (auto simp: compare_ether_addr_def)
  have run: "amsdu_loop chk hlen prio kz k skb lst freed = amsdu_loop chk hlen prio kz (Suc k)
      (skb_pull (skb_pull skb 14) (length b + amsdu_pad (length b))) (lst @ [fr]) freed"
    unfolding amsdu_loop.simps[of chk hlen prio kz k skb lst freed] eth(1) Let_def
    using eth(2-5) L chk fg(1,2) fr(1) bs r0
    by (auto simp: amsdu_pad_code g'_def[symmetric] simp del: of_nat_add amsdu_loop.simps)
  have "\<exists>out s k'. amsdu_loop chk hlen prio kz (Suc k)
      (skb_pull (skb_pull skb 14) (length b + amsdu_pad (length b))) (lst @ [fr]) freed
        = Some (0, (lst @ [fr]) @ out, freed, s, k') \<and>
      map skb_payload out = map (Some \<circ> subframe_eth) (x # xs)"
    by (rule "3.IH"[OF v2[unfolded r_def]]) (use "3.prems" lb in \<open>auto simp: r_def\<close>)
  then show ?case using fr(2) unfolding run by fastforce
qed

text \<open>C26. Splitting any received byte sequence as an A-MSDU stays inside the buffers, returns, and loses
  and duplicates no buffer: either every buffer allocated and the aggregate itself are in the queue,
  in order, or the error is reported and every queued buffer has been freed once.\<close>
theorem amsdu_split_safe:
  assumes "skb_wf skb" "skb_Tail skb + 14 \<le> int (length (skb_mem skb))" "hlen \<le> 64"
  shows "\<exists>r. amsdu_loop chk hlen prio kz k skb lst freed = Some r \<and>
             amsdu_result_ok kz k (skb_addr skb) (map skb_addr lst) freed r"
  by (rule amsdu_loop_safe) (use assms in auto)

theorem amsdu_split_safe_witness:
  "\<exists>r. amsdu_loop True 0 True (\<lambda>_. None) 0 (mk_skb 7 [] (replicate 20 5) (replicate 14 0)) [] [] = Some r \<and>
     amsdu_result_ok (\<lambda>_. None) 0 7 [] [] r"
  using amsdu_split_safe[of "mk_skb 7 [] (replicate 20 5) (replicate 14 0)" 0 True True "\<lambda>_. None" 0 "[]" "[]"]
  by (simp add: mk_skb_ok) (simp add: mk_skb_def)

text \<open>The copy of the splitter in atbm_os_proto.c turns a standard A-MSDU into one Ethernet frame
  per subframe, in order, with SNAP headers removed, and frees nothing.\<close>
theorem amsdu_to_8023s_correct:
  assumes "skb_view skb pre (amsdu_enc xs) post" "xs \<noteq> []" "\<forall>x\<in>set xs. subframe_ok x"
    "length (amsdu_enc xs) + 14 < 2 ^ 16" "\<forall>i. kz i \<noteq> None"
  shows "\<exists>out. ieee80211_amsdu_to_8023s kz skb [] addr iftype False = Some (out, []) \<and>
           map skb_payload out = map (Some \<circ> subframe_eth) xs"
proof -
  obtain out s k' where "amsdu_loop False 32 False kz 0 skb [] [] = Some (0, [] @ out, [], s, k')"
    "map skb_payload out = map (Some \<circ> subframe_eth) xs"
    using amsdu_loop_decodes[OF assms(1-5), of 32 False False 0 "[]" "[]"] by auto
  then show ?thesis by (auto simp: ieee80211_amsdu_to_8023s_def simp del: amsdu_loop.simps)
qed

definition two_subframes :: "subframe list" where
  "two_subframes = [([2,0,0,0,0,1], [2,0,0,0,0,2], [0xaa,0xaa,3,0,0,0,8,0,0x45]),
                    ([2,0,0,0,0,1], [2,0,0,0,0,3], [1,2,3,4,5,6,7,8])]"

theorem amsdu_to_8023s_correct_witness:
  "\<exists>out. ieee80211_amsdu_to_8023s (\<lambda>i. Some (4096 * (i + 1))) (mk_skb 7 [] (amsdu_enc two_subframes) [])
       [] [] NL80211_IFTYPE_STATION False = Some (out, []) \<and>
     map skb_payload out = map (Some \<circ> subframe_eth) two_subframes"
proof (rule amsdu_to_8023s_correct)
  have "length (amsdu_enc two_subframes) = 46"
    by (simp add: two_subframes_def len_field_def amsdu_pad_def)
  then show "skb_view (mk_skb 7 [] (amsdu_enc two_subframes) []) [] (amsdu_enc two_subframes) []"
    "length (amsdu_enc two_subframes) + 14 < 2 ^ 16"
    by (simp_all add: mk_skb_ok)
  show "two_subframes \<noteq> []" "\<forall>x\<in>set two_subframes. subframe_ok x"
    by (simp_all add: two_subframes_def subframe_ok_def)
qed simp

text \<open>The copy the receive path uses refuses every A-MSDU whose first destination is not the six
  bytes of the SNAP header: the test meant to refuse exactly that address is inverted.\<close>
theorem rx_amsdu_refuses_real_destinations:
  assumes to8023: "ieee80211_data_to_8023 skb addr iftype = Some (0, s)"
    and v: "skb_view (skb_pull s ETH_HLEN) pre (d @ sa @ len_field b @ r) post"
    and l: "length d = 6" "length sa = 6" "length b < 2 ^ 16" and d: "d \<noteq> rfc1042_header"
  shows "atbm_ieee80211_amsdu_to_8023s kz skb lst addr iftype extra True
       = Some (-1, [], map skb_addr lst, skb_pull s ETH_HLEN, 0)"
proof -
  obtain eth where eth: "skb_rdn (skb_pull s 14) 0 14 = Some eth" "take 6 eth = d"
    using amsdu_head[OF v l] by auto
  have "compare_ether_addr d rfc1042_header \<noteq> 0"
    using compare_ether_addr_0[of d rfc1042_header] l(1) d by (simp add: rfc1042_header_def)
  then show ?thesis
    unfolding atbm_ieee80211_amsdu_to_8023s_def
    using to8023 eth
    by (auto simp: Let_def amsdu_purge_def amsdu_loop.simps[of True _ True kz 0 "skb_pull s 14"])
qed

definition qos_amsdu_skb :: sk_buff where
  "qos_amsdu_skb = mk_skb 7 [] ([0x88, 2, 0, 0] @ [2,0,0,0,0,9] @ [2,0,0,0,0,8] @ [2,0,0,0,0,7] @ [0, 0] @ [0x80, 0]
     @ [2,0,0,0,0,1] @ [2,0,0,0,0,2] @ len_field [1,2,3,4,5,6,7,8] @ [1,2,3,4,5,6,7,8]) []"

definition qos_amsdu_8023 :: sk_buff where
  "qos_amsdu_8023 =
     snd (the (ieee80211_data_to_8023 qos_amsdu_skb [2,0,0,0,0,9] NL80211_IFTYPE_STATION))"

lemma qos_amsdu_run:
  "ieee80211_data_to_8023 qos_amsdu_skb [2,0,0,0,0,9] NL80211_IFTYPE_STATION = Some (0, qos_amsdu_8023)"
  "skb_view (skb_pull qos_amsdu_8023 14) (take 26 (skb_mem qos_amsdu_8023))
     ([2,0,0,0,0,1] @ [2,0,0,0,0,2] @ len_field [1,2,3,4,5,6,7,8] @ [1,2,3,4,5,6,7,8]) []"
  by code_simp+

theorem rx_amsdu_refuses_real_destinations_witness:
  "atbm_ieee80211_amsdu_to_8023s (\<lambda>_. Some 4096) qos_amsdu_skb [] [2,0,0,0,0,9]
       NL80211_IFTYPE_STATION 0 True = Some (-1, [], [], skb_pull qos_amsdu_8023 14, 0)"
  using rx_amsdu_refuses_real_destinations[OF qos_amsdu_run, of "\<lambda>_. Some 4096" "[]" 0]
  by (simp add: rfc1042_header_def)

subsection \<open>Instances\<close>

theorem ethernet_dot11_roundtrip_witness:
  "\<exists>s1 s2. ieee80211_data_from_8023 (mk_skb 7 (replicate 18 0) ([2,0,0,0,0,1] @ [2,0,0,0,0,2] @ [8, 6] @ [1, 2, 3]) [])
        [0,0,0,0,0,0] NL80211_IFTYPE_STATION [2,0,0,0,0,9] False = Some (0, s1) \<and>
     ieee80211_data_to_8023 s1 [2,0,0,0,0,9] NL80211_IFTYPE_AP = Some (0, s2) \<and>
     skb_payload s2 = Some ([2,0,0,0,0,1] @ [2,0,0,0,0,2] @ [8, 6] @ [1, 2, 3])"
proof -
  have v: "skb_view (mk_skb 7 (replicate 18 0) ([2,0,0,0,0,1] @ [2,0,0,0,0,2] @ [8, 6] @ [1, 2, 3]) [])
     ([] @ replicate 18 0) ([2,0,0,0,0,1] @ [2,0,0,0,0,2] @ [8, 6] @ [1, 2, 3]) []"
    unfolding append_Nil by (rule mk_skb_ok) simp
  show ?thesis
    using ethernet_dot11_roundtrip[OF v, where ap = False and qos = False and addr = "[0,0,0,0,0,0]"
        and bssid = "[2,0,0,0,0,9]" and et = "0x0806" and raddr = "[2,0,0,0,0,9]"]
    by (simp add: be16_def)
qed

theorem from_8023_length_frame_loses_da_witness:
  "\<exists>skb'. ieee80211_data_from_8023 (mk_skb 7 (replicate 10 0) ([2,0,0,0,0,1] @ [2,0,0,0,0,2] @ [0, 3] @ [1, 2, 3]) [])
        [0,0,0,0,0,0] NL80211_IFTYPE_STATION [2,0,0,0,0,9] False = Some (0, skb') \<and>
     skb_payload skb' = Some (dot11_data_header IEEE80211_FCTL_TODS [2,0,0,0,0,9] [2,0,0,0,0,2]
        [2,0,0,0,0,2] False 0 @ [1, 2, 3])"
proof -
  have v: "skb_view (mk_skb 7 (replicate 10 0) ([2,0,0,0,0,1] @ [2,0,0,0,0,2] @ [0, 3] @ [1, 2, 3]) [])
     ([] @ replicate 10 0) ([2,0,0,0,0,1] @ [2,0,0,0,0,2] @ [0, 3] @ [1, 2, 3]) []"
    unfolding append_Nil by (rule mk_skb_ok) simp
  show ?thesis
    by (rule from_8023_length_frame_loses_da[OF v]) (simp_all add: be16_def)
qed

end
