(* ===== verification/Reorder.thy ===== *)
theory Reorder
  imports Skbuf
begin

text \<open>The A-MPDU reorder buffer of hal_apollo/rx.c, lines 111 to 420: frames of a block-ack session
  arrive in any order and leave in the order of their 12-bit sequence numbers.

  struct tid_ampdu_rx (hal_apollo/sta_info.h) is the record below; a NULL slot of reorder_buf is
  None.  The queue frames that receives the released buffers is a list (Skb_Queue shows that the
  linked queue is one), freed are the buffers given to dev_kfree_skb, and timers is the sequence of
  calls made to the timer functions.  The two file-static variables are fields of the state.
  jiffies is read once per call.  A result None is an access outside the arrays, a division by
  buf_size = 0, or a loop that does not end.\<close>

abbreviation (input) SEQ_MODULO :: u16 where "SEQ_MODULO \<equiv> 0x1000"
abbreviation (input) SEQ_MASK :: u16 where "SEQ_MASK \<equiv> 0xfff"
abbreviation (input) HZ :: u32 where "HZ \<equiv> 1000"
abbreviation (input) IEEE80211_RX_DEFERRED_RELEASE :: u32 where "IEEE80211_RX_DEFERRED_RELEASE \<equiv> 0x20"
abbreviation (input) ETH_P_PAE :: u16 where "ETH_P_PAE \<equiv> 0x888E"

record tid_ampdu_rx =
  reorder_buf :: "sk_buff option list"
  reorder_time :: "u32 list"
  head_seq_num :: u16
  stored_mpdu_num :: u16
  ssn :: u16
  buf_size :: u16
  timeout :: u16
  dialog_token :: u8

datatype timer_call =
    Mod_reorder_timer u32
  | Del_reorder_timer
  | Mod_session_timer u32

record reorder_state =
  tid_rx :: tid_ampdu_rx
  frames :: "sk_buff list"
  freed :: "sk_buff list"
  timers :: "timer_call list"
  HT_RX_REORDER_BUF_TIMEOUT :: u32
  Sta_shortTcp_RxCnt :: int

subsection \<open>Sequence numbers\<close>

definition seq_less :: "u16 \<Rightarrow> u16 \<Rightarrow> bool" where
  "seq_less sq1 sq2 = ((sq1 - sq2) AND SEQ_MASK > drop_bit 1 SEQ_MODULO)"

definition seq_inc :: "u16 \<Rightarrow> u16" where
  "seq_inc sq = (sq + 1) AND SEQ_MASK"

definition seq_sub :: "u16 \<Rightarrow> u16 \<Rightarrow> u16" where
  "seq_sub sq1 sq2 = (sq1 - sq2) AND SEQ_MASK"

lemma uint_and_mask12: "uint (x AND SEQ_MASK) = uint x mod 4096"
proof -
  have "x AND SEQ_MASK = take_bit 12 x" by (simp add: take_bit_eq_mask mask_eq_exp_minus_1)
  then have "uint (x AND SEQ_MASK) = take_bit 12 (uint x)" by (simp only: unsigned_take_bit_eq)
  then show ?thesis by (simp add: take_bit_eq_mod)
qed

lemma uint_seq_sub: "uint (seq_sub a b) = (uint a - uint b) mod 4096"
  by (simp only: seq_sub_def uint_and_mask12 uint_word_ariths) (simp add: mod_mod_cancel)

lemma uint_seq_inc: "uint (seq_inc a) = (uint a + 1) mod 4096"
  by (simp only: seq_inc_def uint_and_mask12 uint_word_ariths) (simp add: mod_mod_cancel)

lemma seq_less_iff: "seq_less a b \<longleftrightarrow> (uint a - uint b) mod 4096 > 2048"
proof -
  have "drop_bit 1 SEQ_MODULO = 0x800" by simp
  then show ?thesis
    unfolding seq_less_def word_less_def uint_and_mask12 uint_word_ariths by (simp add: mod_mod_cancel)
qed

lemma mod_pred:
  assumes "a mod n \<noteq> 0" "0 < (n::int)"
  shows "(a - 1) mod n = a mod n - 1"
proof -
  have "(a - 1) mod n = (a mod n - 1) mod n" by (simp add: mod_diff_left_eq)
  also have "\<dots> = a mod n - 1"
  proof (rule mod_pos_pos_trivial)
    have "0 \<le> a mod n" "a mod n < n" using assms(2) by simp_all
    then show "0 \<le> a mod n - 1" "a mod n - 1 < n" using assms(1) by linarith+
  qed
  finally show ?thesis .
qed

lemma seq_less_measure:
  assumes "seq_less h t"
  shows "unat (seq_sub t (seq_inc h)) < unat (seq_sub t h)"
proof -
  define a where "a = uint t - uint h"
  have "(- a) mod 4096 \<noteq> 0" using assms by (auto simp: seq_less_iff a_def)
  then have "a mod 4096 \<noteq> 0" by (auto simp: zmod_zminus1_eq_if)
  then have "(a - 1) mod 4096 < a mod 4096" by (simp add: mod_pred)
  moreover have "(uint t - (uint h + 1) mod 4096) mod 4096 = (a - 1) mod 4096"
    by (simp add: mod_diff_right_eq a_def algebra_simps)
  ultimately have "(uint t - (uint h + 1) mod 4096) mod 4096 < (uint t - uint h) mod 4096"
    by (simp add: a_def)
  then have "uint (seq_sub t (seq_inc h)) < uint (seq_sub t h)"
    by (simp only: uint_seq_sub uint_seq_inc)
  then show ?thesis by (simp only: word_less_def[symmetric] word_less_nat_alt)
qed

text \<open>The slot of a sequence number, seq_sub(sn, ssn) % buf_size.\<close>

definition slot_of :: "tid_ampdu_rx \<Rightarrow> u16 \<Rightarrow> nat option" where
  "slot_of t sn = (if buf_size t = 0 then None
                   else Some (unat (seq_sub sn (ssn t)) mod unat (buf_size t)))"

subsection \<open>Releasing\<close>

definition mark_deferred :: "sk_buff \<Rightarrow> sk_buff" where
  "mark_deferred skb = skb\<lparr>skb_cb := (skb_cb skb)\<lparr>rx_rx_flags :=
      rx_rx_flags (skb_cb skb) OR IEEE80211_RX_DEFERRED_RELEASE\<rparr>\<rparr>"

definition inc_head :: "tid_ampdu_rx \<Rightarrow> tid_ampdu_rx" where
  "inc_head t = t\<lparr>head_seq_num := seq_inc (head_seq_num t)\<rparr>"

definition ieee80211_release_reorder_frame ::
    "nat \<Rightarrow> tid_ampdu_rx \<times> sk_buff list \<Rightarrow> (tid_ampdu_rx \<times> sk_buff list) option" where
  "ieee80211_release_reorder_frame index s = (case s of (t, fs) \<Rightarrow>
     if index < length (reorder_buf t) then
       Some (case reorder_buf t ! index of
          None \<Rightarrow> (inc_head t, fs)
        | Some skb \<Rightarrow>
            (inc_head (t\<lparr>stored_mpdu_num := stored_mpdu_num t - 1,
                         reorder_buf := (reorder_buf t)[index := None]\<rparr>),
             fs @ [mark_deferred skb]))
     else None)"

lemma release_frame_head:
  "ieee80211_release_reorder_frame index (t, fs) = Some (t', fs') \<Longrightarrow>
     head_seq_num t' = seq_inc (head_seq_num t)"
  by (auto simp: ieee80211_release_reorder_frame_def inc_head_def split: if_splits option.splits)

function ieee80211_release_reorder_frames ::
    "u16 \<Rightarrow> tid_ampdu_rx \<times> sk_buff list \<Rightarrow> (tid_ampdu_rx \<times> sk_buff list) option" where
  "ieee80211_release_reorder_frames head (t, fs) =
     (if seq_less (head_seq_num t) head then
        (case slot_of t (head_seq_num t) of
           None \<Rightarrow> None
         | Some index \<Rightarrow> (case ieee80211_release_reorder_frame index (t, fs) of
             None \<Rightarrow> None
           | Some s \<Rightarrow> ieee80211_release_reorder_frames head s))
      else Some (t, fs))"
  by pat_completeness auto
termination
  by (relation "measure (\<lambda>(head, t, fs). unat (seq_sub head (head_seq_num t)))")
    (auto simp: seq_less_measure dest: release_frame_head)

text \<open>The loop over the slots behind an empty head: frames older than the timeout are released, and the
  head skips the missing ones before them.  The result is the slot whose timer is to be set when the
  loop stops at a frame that is not old enough.  The fuel is the number of slots.\<close>

definition time_after :: "u32 \<Rightarrow> u32 \<Rightarrow> bool" where
  "time_after a b = (sint (b - a) < 0)"

fun expire_loop ::
    "nat \<Rightarrow> u32 \<Rightarrow> u32 \<Rightarrow> nat \<Rightarrow> nat \<Rightarrow> nat \<Rightarrow> tid_ampdu_rx \<times> sk_buff list \<Rightarrow>
     ((tid_ampdu_rx \<times> sk_buff list) \<times> nat option) option" where
  "expire_loop fuel jiffies tmo index j skipped (t, fs) =
     (if j = index then Some ((t, fs), None)
      else case fuel of
        0 \<Rightarrow> None
      | Suc fuel \<Rightarrow>
          let next = (j + 1) mod unat (buf_size t) in
          if j \<ge> length (reorder_buf t) \<or> j \<ge> length (reorder_time t) then None
          else if reorder_buf t ! j = None then expire_loop fuel jiffies tmo index next (skipped + 1) (t, fs)
          else if skipped \<noteq> 0 \<and> \<not> time_after jiffies (reorder_time t ! j + tmo)
          then Some ((t, fs), Some j)
          else (case ieee80211_release_reorder_frame j (t, fs) of
              None \<Rightarrow> None
            | Some (t, fs) \<Rightarrow>
                let t = t\<lparr>head_seq_num := (head_seq_num t + of_nat skipped) AND SEQ_MASK\<rparr> in
                expire_loop fuel jiffies tmo index next 0 (t, fs)))"

text \<open>The loop that releases the run of frames at the head.\<close>

fun run_loop ::
    "nat \<Rightarrow> nat \<Rightarrow> tid_ampdu_rx \<times> sk_buff list \<Rightarrow> (tid_ampdu_rx \<times> sk_buff list) option" where
  "run_loop fuel index (t, fs) =
     (if index \<ge> length (reorder_buf t) then None
      else if reorder_buf t ! index = None then Some (t, fs)
      else case fuel of
        0 \<Rightarrow> None
      | Suc fuel \<Rightarrow> (case ieee80211_release_reorder_frame index (t, fs) of
            None \<Rightarrow> None
          | Some (t, fs) \<Rightarrow> (case slot_of t (head_seq_num t) of
                None \<Rightarrow> None
              | Some index \<Rightarrow> run_loop fuel index (t, fs))))"

text \<open>The search for the first stored frame.  (index - 1) % buf_size is a C remainder: for index 0 it is
  -1, which no slot equals.\<close>

fun find_loop :: "nat \<Rightarrow> nat \<Rightarrow> nat \<Rightarrow> tid_ampdu_rx \<Rightarrow> nat option" where
  "find_loop fuel index j t =
     (if int j = (int index - 1) smod int (unat (buf_size t)) then Some j
      else if j \<ge> length (reorder_buf t) then None
      else if reorder_buf t ! j \<noteq> None then Some j
      else case fuel of
        0 \<Rightarrow> None
      | Suc fuel \<Rightarrow> find_loop fuel index ((j + 1) mod unat (buf_size t)) t)"

definition set_release_timer :: "tid_ampdu_rx \<Rightarrow> u32 \<Rightarrow> nat \<Rightarrow> timer_call option" where
  "set_release_timer t tmo j =
     (if j < length (reorder_time t) then Some (Mod_reorder_timer (reorder_time t ! j + 1 + tmo))
      else None)"

definition ieee80211_sta_reorder_release ::
    "u32 \<Rightarrow> u32 \<Rightarrow> tid_ampdu_rx \<times> sk_buff list \<Rightarrow>
     ((tid_ampdu_rx \<times> sk_buff list) \<times> timer_call) option" where
  "ieee80211_sta_reorder_release jiffies tmo s = (case s of (t, fs) \<Rightarrow> do {
     let bs = unat (buf_size t);
     index \<leftarrow> slot_of t (head_seq_num t);
     guard (index < length (reorder_buf t));
     ((t, fs), timer) \<leftarrow>
       (if reorder_buf t ! index = None \<and> stored_mpdu_num t \<noteq> 0
        then expire_loop bs jiffies tmo index ((index + 1) mod bs) 1 (t, fs)
        else do { s \<leftarrow> run_loop bs index (t, fs); Some (s, None) });
     (case timer of
        Some j \<Rightarrow> do { c \<leftarrow> set_release_timer t tmo j; Some ((t, fs), c) }
      | None \<Rightarrow>
          if stored_mpdu_num t \<noteq> 0 then do {
            index \<leftarrow> slot_of t (head_seq_num t);
            j \<leftarrow> find_loop bs index index t;
            c \<leftarrow> set_release_timer t tmo j;
            Some ((t, fs), c) }
          else Some ((t, fs), Del_reorder_timer)) })"

subsection \<open>Storing\<close>

definition ieee80211_frame_eapol :: "sk_buff \<Rightarrow> u16 \<Rightarrow> bool option" where
  "ieee80211_frame_eapol skb len = do {
     fc \<leftarrow> skb_fc skb;
     if ieee80211_is_data fc \<and> len > 34 then do {
       let eapol_index = (if ieee80211_is_data_qos fc then 30 + 2 else 30);
       b0 \<leftarrow> skb_rd8 skb eapol_index;
       b1 \<leftarrow> skb_rd8 skb (eapol_index + 1);
       Some (be16 b0 b1 = ETH_P_PAE) }
     else Some False }"

text \<open>The adaptation of the timeout to short frames.\<close>

definition adapt_timeout :: "u16 \<Rightarrow> reorder_state \<Rightarrow> reorder_state" where
  "adapt_timeout len s =
     (if len < 150 then
        (let c = Sta_shortTcp_RxCnt s + 1 in
         if c > 50 then s\<lparr>Sta_shortTcp_RxCnt := 50, HT_RX_REORDER_BUF_TIMEOUT := HZ div 4\<rparr>
         else s\<lparr>Sta_shortTcp_RxCnt := c\<rparr>)
      else
        (let c = (if Sta_shortTcp_RxCnt s \<ge> 20 then Sta_shortTcp_RxCnt s - 20 else Sta_shortTcp_RxCnt s) in
         if c < 20 then s\<lparr>Sta_shortTcp_RxCnt := 0, HT_RX_REORDER_BUF_TIMEOUT := HZ div 2\<rparr>
         else s\<lparr>Sta_shortTcp_RxCnt := c\<rparr>))"

text \<open>Steps of ieee80211_sta_manage_reorder_buf after the sequence number has been read.\<close>

definition free_skb :: "sk_buff \<Rightarrow> reorder_state \<Rightarrow> reorder_state" where
  "free_skb skb s = s\<lparr>freed := freed s @ [skb]\<rparr>"

definition store_frame ::
    "u32 \<Rightarrow> nat \<Rightarrow> sk_buff \<Rightarrow> reorder_state \<Rightarrow> (bool \<times> reorder_state) option" where
  "store_frame jiffies index skb s = do {
     let t = tid_rx s;
     guard (index < length (reorder_buf t) \<and> index < length (reorder_time t));
     let t = t\<lparr>reorder_buf := (reorder_buf t)[index := Some skb],
               reorder_time := (reorder_time t)[index := jiffies],
               stored_mpdu_num := stored_mpdu_num t + 1\<rparr>;
     ((t, fs), c) \<leftarrow> ieee80211_sta_reorder_release jiffies (HT_RX_REORDER_BUF_TIMEOUT s) (t, frames s);
     Some (True, s\<lparr>tid_rx := t, frames := fs, timers := timers s @ [c]\<rparr>) }"

definition manage_reorder ::
    "u32 \<Rightarrow> u16 \<Rightarrow> bool \<Rightarrow> sk_buff \<Rightarrow> reorder_state \<Rightarrow> (bool \<times> reorder_state) option" where
  "manage_reorder jiffies mpdu_seq_num isEapol skb s = do {
     let t = tid_rx s;
     if seq_less mpdu_seq_num (head_seq_num t) then Some (True, free_skb skb s)
     else do {
       (t, fs) \<leftarrow>
         (if \<not> seq_less mpdu_seq_num (head_seq_num t + buf_size t)
          then ieee80211_release_reorder_frames (seq_inc (seq_sub mpdu_seq_num (buf_size t))) (t, frames s)
          else Some (t, frames s));
       let s = s\<lparr>tid_rx := t, frames := fs\<rparr>;
       index \<leftarrow> slot_of t mpdu_seq_num;
       guard (index < length (reorder_buf t));
       if reorder_buf t ! index \<noteq> None then Some (True, free_skb skb s)
       else if mpdu_seq_num = head_seq_num t \<and> stored_mpdu_num t = 0
       then Some (False, s\<lparr>tid_rx := inc_head t\<rparr>)
       else if isEapol \<and> uint mpdu_seq_num = uint (head_seq_num t) + 1 \<and> stored_mpdu_num t = 0
       then Some (False, s\<lparr>tid_rx := inc_head t\<rparr>)
       else store_frame jiffies index skb s } }"

text \<open>True: the frame was consumed (stored or freed); False: the caller delivers it.\<close>

definition ieee80211_sta_manage_reorder_buf ::
    "u32 \<Rightarrow> sk_buff \<Rightarrow> reorder_state \<Rightarrow> (bool \<times> reorder_state) option" where
  "ieee80211_sta_manage_reorder_buf jiffies skb s = do {
     fc \<leftarrow> skb_fc skb;
     sc \<leftarrow> skb_rd16 skb 22;
     let mpdu_seq_num = drop_bit 4 (sc AND IEEE80211_SCTL_SEQ);
     isEapol \<leftarrow> (if ieee80211_is_data fc then ieee80211_frame_eapol skb (skb_len skb) else Some False);
     manage_reorder jiffies mpdu_seq_num isEapol skb (adapt_timeout (skb_len skb) s) }"

text \<open>ieee80211_rx_reorder_ampdu.  sess tid is the session of the station for the TID: sta = None is
  an unknown station, sess tid = None no session.  The result is the state of the session, when
  there is one, and the queue.\<close>

definition TU_TO_EXP_TIME :: "u32 \<Rightarrow> u16 \<Rightarrow> u32" where
  "TU_TO_EXP_TIME jiffies tmo = jiffies + ucast tmo * 1024"

definition ieee80211_rx_reorder_ampdu ::
    "u32 \<Rightarrow> sk_buff \<Rightarrow> (nat \<Rightarrow> reorder_state option) option \<Rightarrow> sk_buff list \<Rightarrow>
     ((nat \<Rightarrow> reorder_state option) option \<times> sk_buff list) option" where
  "ieee80211_rx_reorder_ampdu jiffies skb sta fs = do {
     fc \<leftarrow> skb_fc skb;
     let dont_reorder = Some (sta, fs @ [skb]);
     if \<not> ieee80211_is_data_qos fc then dont_reorder
     else (case sta of None \<Rightarrow> dont_reorder | Some sess \<Rightarrow> do {
       qc \<leftarrow> rd32 (skb_mem skb) (skb_data skb + ieee80211_get_qos_ctl fc);
       let tid = unat (qc AND 0xf);
       (case sess tid of
          None \<Rightarrow> dont_reorder
        | Some s \<Rightarrow>
            if fc AND IEEE80211_STYPE_NULLFUNC \<noteq> 0 then dont_reorder
            else do {
              let s = (if timeout (tid_rx s) \<noteq> 0
                then s\<lparr>timers := timers s @ [Mod_session_timer (TU_TO_EXP_TIME jiffies (timeout (tid_rx s)))]\<rparr>
                else s);
              sc \<leftarrow> skb_rd16 skb 22;
              if sc AND IEEE80211_SCTL_FRAG \<noteq> 0 then Some (Some (sess(tid := Some s)), fs @ [skb])
              else do {
                (consumed, s) \<leftarrow> ieee80211_sta_manage_reorder_buf jiffies skb (s\<lparr>frames := fs\<rparr>);
                let sta = Some (sess(tid := Some (s\<lparr>frames := []\<rparr>)));
                if consumed then Some (sta, frames s) else Some (sta, frames s @ [skb]) } }) }) }"

end
