(* ===== verification/Reorder_Window.thy ===== *)
theory Reorder_Window
  imports Reorder
begin

text \<open>The reorder buffer as a sliding window: the slots from the head on are a list of optional frames,
  and every routine of Reorder advances that list and delivers what leaves it.  The lemmas end with
  the specification of one frame (reorder_spec) and the order of delivery.\<close>

subsection \<open>The sliding window\<close>

text \<open>The abstract view of a session: the window is the list of slots from the head on.  Advancing it by
  n delivers the frames of its first n slots and appends empty ones.\<close>

fun cat_some :: "'a option list \<Rightarrow> 'a list" where
  "cat_some [] = []"
| "cat_some (None # xs) = cat_some xs"
| "cat_some (Some x # xs) = x # cat_some xs"

definition adv_out :: "nat \<Rightarrow> 'a option list \<Rightarrow> 'a list" where
  "adv_out n w = cat_some (take n w)"

definition adv :: "nat \<Rightarrow> 'a option list \<Rightarrow> 'a option list" where
  "adv n w = drop n w @ replicate (min n (length w)) None"

definition head_slot :: "tid_ampdu_rx \<Rightarrow> nat" where
  "head_slot t = unat (seq_sub (head_seq_num t) (ssn t)) mod unat (buf_size t)"

definition window :: "tid_ampdu_rx \<Rightarrow> sk_buff option list" where
  "window t = rotate (head_slot t) (reorder_buf t)"

definition n_stored :: "'a option list \<Rightarrow> nat" where
  "n_stored xs = length (cat_some xs)"

definition reorder_wf :: "tid_ampdu_rx \<Rightarrow> bool" where
  "reorder_wf t \<longleftrightarrow> 0 < buf_size t \<and> length (reorder_buf t) = unat (buf_size t) \<and>
     length (reorder_time t) = unat (buf_size t) \<and> head_seq_num t < 4096 \<and>
     unat (stored_mpdu_num t) = n_stored (reorder_buf t)"

lemma cat_some_append [simp]: "cat_some (xs @ ys) = cat_some xs @ cat_some ys"
  by (induction xs rule: cat_some.induct) auto

lemma cat_some_replicate [simp]: "cat_some (replicate n None) = []"
  by (induction n) auto

lemma cat_some_nil: "cat_some xs = [] \<longleftrightarrow> set xs \<subseteq> {None}"
  by (induction xs rule: cat_some.induct) auto

lemma set_cat_some: "x \<in> set (cat_some xs) \<longleftrightarrow> Some x \<in> set xs"
  by (induction xs rule: cat_some.induct) auto

lemma n_stored_0: "n_stored xs = 0 \<longleftrightarrow> set xs \<subseteq> {None}"
  by (simp add: n_stored_def cat_some_nil)

lemma n_stored_le: "n_stored xs \<le> length xs"
  unfolding n_stored_def by (induction xs rule: cat_some.induct) auto

lemma n_stored_update:
  assumes "i < length xs"
  shows "n_stored (xs[i := None]) = n_stored xs - (if xs ! i = None then 0 else 1)"
    and "xs ! i \<noteq> None \<Longrightarrow> 0 < n_stored xs"
    and "xs ! i = None \<Longrightarrow> n_stored (xs[i := Some x]) = n_stored xs + 1"
proof -
  obtain ys z zs where xs: "xs = ys @ z # zs" "length ys = i"
    using assms by (metis id_take_nth_drop length_take less_imp_le_nat min.absorb2)
  then show "n_stored (xs[i := None]) = n_stored xs - (if xs ! i = None then 0 else 1)"
    "xs ! i \<noteq> None \<Longrightarrow> 0 < n_stored xs"
    "xs ! i = None \<Longrightarrow> n_stored (xs[i := Some x]) = n_stored xs + 1"
    by (cases z; auto simp: n_stored_def list_update_append nth_append)+
qed

lemma n_stored_rotate [simp]: "n_stored (rotate n xs) = n_stored xs"
proof -
  have "length (cat_some xs) = length (cat_some (take k xs)) + length (cat_some (drop k xs))" for k
    by (metis append_take_drop_id cat_some_append length_append)
  from this[of "n mod length xs"] show ?thesis
    by (simp add: n_stored_def rotate_drop_take)
qed

subsection \<open>Slots and window positions\<close>

lemma add_mod_inj:
  assumes "i < n" "k < n" "(p + i) mod n = (p + k) mod (n::nat)"
  shows "i = k"
proof -
  have le: "i = k" if "i \<le> k" "k < n" "(p + k) mod n = (p + i) mod n" for i k
  proof -
    have "n dvd (p + k) - (p + i)" using that mod_eq_dvd_iff_nat[of "p + i" "p + k" n] by simp
    then show ?thesis using that by (auto dest: dvd_imp_le)
  qed
  show ?thesis using le[of i k] le[of k i] assms by (cases "i \<le> k") auto
qed

lemma rotate_update:
  assumes "k < length xs"
  shows "rotate p (xs[(p + k) mod length xs := v]) = (rotate p xs)[k := v]"
proof (rule nth_equalityI)
  fix i assume i: "i < length (rotate p (xs[(p + k) mod length xs := v]))"
  have "(p + i) mod length xs = (p + k) mod length xs \<longleftrightarrow> i = k"
    using assms i add_mod_inj[of i "length xs" k p] by auto
  moreover have "(p + k) mod length xs < length xs" using assms by (intro mod_less_divisor) linarith
  ultimately show "rotate p (xs[(p + k) mod length xs := v]) ! i = (rotate p xs)[k := v] ! i"
    using i assms by (auto simp: nth_rotate nth_list_update)
qed simp

text \<open>With a window size that divides 4096 slots move with the head.\<close>

definition size_ok :: "tid_ampdu_rx \<Rightarrow> bool" where
  "size_ok t \<longleftrightarrow> unat (buf_size t) dvd 4096"

definition off :: "tid_ampdu_rx \<Rightarrow> u16 \<Rightarrow> nat" where
  "off t sn = unat (seq_sub sn (head_seq_num t))"

lemma off_int: "int (off t sn) = (uint sn - uint (head_seq_num t)) mod 4096"
  by (simp add: off_def uint_seq_sub)

lemma slot_int:
  "int (unat (seq_sub sn (ssn t)) mod unat (buf_size t)) = (uint sn - uint (ssn t)) mod 4096 mod uint (buf_size t)"
  by (simp add: zmod_int uint_seq_sub)

lemma slot_shift:
  assumes "size_ok t" "uint sn = (uint (head_seq_num t) + int k) mod 4096"
  shows "unat (seq_sub sn (ssn t)) mod unat (buf_size t) = (head_slot t + k) mod unat (buf_size t)"
proof -
  define B where "B = int (unat (buf_size t))"
  have dvd: "B dvd 4096" using assms(1) unfolding size_ok_def B_def
    by (metis of_nat_dvd_iff of_nat_numeral)
  have "int (unat (seq_sub sn (ssn t)) mod unat (buf_size t)) = (uint sn - uint (ssn t)) mod B"
    using dvd by (simp add: slot_int mod_mod_cancel B_def)
  also have "\<dots> = (uint (head_seq_num t) + int k - uint (ssn t)) mod B"
  proof -
    define X where "X = uint (head_seq_num t) + int k"
    have "(X mod 4096 - uint (ssn t)) mod B = (X mod 4096 mod B - uint (ssn t)) mod B"
      by (rule mod_diff_left_eq[symmetric])
    also have "\<dots> = (X - uint (ssn t)) mod B" by (simp only: mod_mod_cancel[OF dvd] mod_diff_left_eq)
    finally show ?thesis by (simp only: assms(2) X_def)
  qed
  also have "\<dots> = ((uint (head_seq_num t) - uint (ssn t)) mod B + int k) mod B"
    by (simp only: mod_add_left_eq) (simp add: algebra_simps)
  also have "(uint (head_seq_num t) - uint (ssn t)) mod B = int (head_slot t)"
    using dvd by (simp add: head_slot_def slot_int mod_mod_cancel B_def)
  also have "(int (head_slot t) + int k) mod B = int ((head_slot t + k) mod unat (buf_size t))"
    by (simp only: B_def of_nat_mod of_nat_add)
  finally show ?thesis by linarith
qed

lemma slot_of_off:
  assumes "size_ok t" "0 < buf_size t" "sn < 4096"
  shows "slot_of t sn = Some ((head_slot t + off t sn) mod unat (buf_size t))"
proof -
  have "uint sn mod 4096 = uint sn" using assms(3) by (simp add: word_less_def)
  then have "uint sn = (uint (head_seq_num t) + int (off t sn)) mod 4096"
    by (simp add: off_int mod_add_right_eq)
  from slot_shift[OF assms(1) this] show ?thesis
    using assms(2) by (auto simp: slot_of_def)
qed

lemma head_slot_add:
  assumes "size_ok t" "uint h = (uint (head_seq_num t) + int n) mod 4096"
  shows "head_slot (t\<lparr>head_seq_num := h\<rparr>) = (head_slot t + n) mod unat (buf_size t)"
  using slot_shift[OF assms] by (simp add: head_slot_def)

lemma window_head:
  assumes "size_ok t" "reorder_wf t" "uint h = (uint (head_seq_num t) + int n) mod 4096"
  shows "window (t\<lparr>head_seq_num := h\<rparr>) = rotate n (window t)"
proof -
  have "rotate ((head_slot t + n) mod unat (buf_size t)) (reorder_buf t)
      = rotate (n + head_slot t) (reorder_buf t)"
    using rotate_conv_mod[of "head_slot t + n" "reorder_buf t"] assms(2)
    by (simp add: reorder_wf_def add.commute)
  then show ?thesis using assms by (simp add: window_def head_slot_add rotate_rotate)
qed

lemma window_length: "reorder_wf t \<Longrightarrow> length (window t) = unat (buf_size t)"
  by (simp add: window_def reorder_wf_def)

lemma window_nth:
  "reorder_wf t \<Longrightarrow> k < unat (buf_size t) \<Longrightarrow>
     window t ! k = reorder_buf t ! ((head_slot t + k) mod unat (buf_size t))"
  by (simp add: window_def reorder_wf_def nth_rotate)

lemma window_update:
  assumes "reorder_wf t" "k < unat (buf_size t)"
  shows "window (t\<lparr>reorder_buf := (reorder_buf t)[(head_slot t + k) mod unat (buf_size t) := v]\<rparr>)
       = (window t)[k := v]"
  using assms rotate_update[of k "reorder_buf t" "head_slot t" v]
  by (simp add: window_def reorder_wf_def head_slot_def)


subsection \<open>Advancing the window\<close>

lemma adv_0 [simp]: "adv 0 w = w" "adv_out 0 w = []"
  by (simp_all add: adv_def adv_out_def)

lemma adv_1: "w \<noteq> [] \<Longrightarrow> adv 1 w = tl w @ [None]" "w \<noteq> [] \<Longrightarrow> adv_out 1 w = cat_some [w ! 0]"
  by (cases w; simp add: adv_def adv_out_def)+

lemma adv_length [simp]: "length (adv n w) = length w"
  by (simp add: adv_def)

lemma adv_add:
  "adv (m + n) w = adv n (adv m w)" "adv_out (m + n) w = adv_out m w @ adv_out n (adv m w)"
proof -
  show "adv (m + n) w = adv n (adv m w)"
  proof (cases "m \<le> length w")
    case True
    show ?thesis
    proof (cases "n \<le> length w - m")
      case True
      then show ?thesis using \<open>m \<le> length w\<close>
        by (simp add: adv_def replicate_add add.commute)
    next
      case False
      then show ?thesis using \<open>m \<le> length w\<close>
        by (auto simp: adv_def min_def simp flip: replicate_add)
    qed
  qed (simp add: adv_def flip: replicate_add)
  show "adv_out (m + n) w = adv_out m w @ adv_out n (adv m w)"
    by (simp add: adv_out_def adv_def take_add)
qed

lemma rotate1_adv: "w \<noteq> [] \<Longrightarrow> rotate 1 (w[0 := None]) = adv 1 w"
  by (cases w) (simp_all add: adv_def)

definition same_config :: "tid_ampdu_rx \<Rightarrow> tid_ampdu_rx \<Rightarrow> bool" where
  "same_config t t' \<longleftrightarrow> ssn t' = ssn t \<and> buf_size t' = buf_size t \<and> reorder_time t' = reorder_time t
     \<and> timeout t' = timeout t"

lemma same_config_refl [simp]: "same_config t t" by (simp add: same_config_def)
lemma same_config_trans: "same_config a b \<Longrightarrow> same_config b c \<Longrightarrow> same_config a c"
  by (simp add: same_config_def)

lemma seq_inc_lt: "seq_inc h < 4096"
  by (simp add: word_less_def uint_seq_inc)

lemma release_at:
  assumes wf: "reorder_wf t" and sz: "size_ok t" and k: "k < unat (buf_size t)"
    and idx: "idx = (head_slot t + k) mod unat (buf_size t)"
  shows "\<exists>t'. ieee80211_release_reorder_frame idx (t, fs)
            = Some (t', fs @ map mark_deferred (cat_some [window t ! k])) \<and>
          reorder_wf t' \<and> size_ok t' \<and> same_config t t' \<and>
          head_seq_num t' = seq_inc (head_seq_num t) \<and>
          window t' = rotate 1 ((window t)[k := None])"
proof -
  define B where "B = unat (buf_size t)"
  have L: "length (reorder_buf t) = B" "0 < B" "B < 65536" "idx < B"
    using wf k idx unat_lt2p[of "buf_size t"] by (auto simp: reorder_wf_def B_def)
  have w: "window t ! k = reorder_buf t ! idx" using window_nth[OF wf k] idx by simp
  define t1 where "t1 = t\<lparr>reorder_buf := (reorder_buf t)[idx := None]\<rparr>"
  define t2 where "t2 = (if reorder_buf t ! idx = None then t
    else t\<lparr>stored_mpdu_num := stored_mpdu_num t - 1, reorder_buf := (reorder_buf t)[idx := None]\<rparr>)"
  have st: "unat (stored_mpdu_num t2) = n_stored ((reorder_buf t)[idx := None])"
  proof (cases "reorder_buf t ! idx = None")
    case True
    then show ?thesis using wf n_stored_update(1)[of idx "reorder_buf t"] L
      by (simp add: t2_def reorder_wf_def)
  next
    case False
    then have "0 < n_stored (reorder_buf t)" using n_stored_update(2)[of idx "reorder_buf t"] L by simp
    then have "1 \<le> unat (stored_mpdu_num t)" using wf by (simp add: reorder_wf_def)
    then have "unat (stored_mpdu_num t - 1) = unat (stored_mpdu_num t) - 1"
      using unat_minus_of_nat[of 1 "stored_mpdu_num t"] by simp
    then show ?thesis using False wf n_stored_update(1)[of idx "reorder_buf t"] L
      by (simp add: t2_def reorder_wf_def del: not_None_eq)
  qed
  have b2: "reorder_buf t2 = (reorder_buf t)[idx := None]"
    by (simp add: t2_def) (metis list_update_id)
  have f2: "head_seq_num t2 = head_seq_num t" by (simp add: t2_def)
  have "window t2 = (window t)[k := None]"
    using window_update[OF wf k, of None] b2 idx by (simp add: window_def head_slot_def t2_def)
  moreover have wf2: "reorder_wf t2" "size_ok t2"
    using wf sz st b2 by (auto simp: reorder_wf_def size_ok_def t2_def)
  moreover have "uint (seq_inc (head_seq_num t)) = (uint (head_seq_num t2) + int 1) mod 4096"
    by (simp add: uint_seq_inc t2_def)
  ultimately have "window (inc_head t2) = rotate 1 ((window t)[k := None])"
    using window_head[of t2 "seq_inc (head_seq_num t)" 1] by (simp add: inc_head_def f2)
  moreover have "ieee80211_release_reorder_frame idx (t, fs)
      = Some (inc_head t2, fs @ map mark_deferred (cat_some [window t ! k]))"
    using L w by (auto simp: ieee80211_release_reorder_frame_def t2_def split: option.splits)
  moreover have "reorder_wf (inc_head t2)" "size_ok (inc_head t2)" "same_config t (inc_head t2)"
    "head_seq_num (inc_head t2) = seq_inc (head_seq_num t)"
    using wf2 seq_inc_lt by (auto simp: reorder_wf_def size_ok_def inc_head_def same_config_def t2_def)
  ultimately show ?thesis by blast
qed

lemma release_head:
  assumes "reorder_wf t" "size_ok t"
  shows "\<exists>t'. ieee80211_release_reorder_frame (head_slot t) (t, fs)
            = Some (t', fs @ map mark_deferred (adv_out 1 (window t))) \<and>
          reorder_wf t' \<and> size_ok t' \<and> same_config t t' \<and>
          head_seq_num t' = seq_inc (head_seq_num t) \<and> window t' = adv 1 (window t)"
proof -
  have B: "0 < unat (buf_size t)" using assms(1) by (simp add: reorder_wf_def word_less_nat_alt)
  have "window t \<noteq> []" using window_length[OF assms(1)] B by auto
  moreover have "head_slot t = (head_slot t + 0) mod unat (buf_size t)" by (simp add: head_slot_def)
  ultimately show ?thesis
    using release_at[OF assms B, of "head_slot t" fs]
    by (simp add: rotate1_adv adv_1(2) del: One_nat_def)
qed

text \<open>The head after n steps.\<close>

definition head_plus :: "tid_ampdu_rx \<Rightarrow> nat \<Rightarrow> tid_ampdu_rx \<Rightarrow> bool" where
  "head_plus t n t' \<longleftrightarrow> uint (head_seq_num t') = (uint (head_seq_num t) + int n) mod 4096"

lemma head_plus_trans: "head_plus a m b \<Longrightarrow> head_plus b n c \<Longrightarrow> head_plus a (m + n) c"
  by (simp add: head_plus_def mod_add_left_eq add.assoc)

lemma head_plus_0: "reorder_wf t \<Longrightarrow> head_plus t 0 t"
  by (simp add: head_plus_def reorder_wf_def word_less_def)

lemma head_plus_1: "head_seq_num t' = seq_inc (head_seq_num t) \<Longrightarrow> head_plus t 1 t'"
  by (simp add: head_plus_def uint_seq_inc)

text \<open>What every releasing routine does: it advances the window by some n and delivers what leaves.\<close>

definition advanced ::
    "nat \<Rightarrow> tid_ampdu_rx \<times> sk_buff list \<Rightarrow> tid_ampdu_rx \<times> sk_buff list \<Rightarrow> bool" where
  "advanced n s s' \<longleftrightarrow> (case s of (t, fs) \<Rightarrow> case s' of (t', fs') \<Rightarrow>
     reorder_wf t' \<and> size_ok t' \<and> same_config t t' \<and> head_plus t n t' \<and>
     window t' = adv n (window t) \<and> fs' = fs @ map mark_deferred (adv_out n (window t)))"

lemma advanced_0: "reorder_wf t \<Longrightarrow> size_ok t \<Longrightarrow> advanced 0 (t, fs) (t, fs)"
  by (simp add: advanced_def head_plus_0)

lemma advanced_trans: "advanced m s s1 \<Longrightarrow> advanced n s1 s2 \<Longrightarrow> advanced (m + n) s s2"
  by (auto simp: advanced_def adv_add intro: same_config_trans head_plus_trans)

lemma release_head_advanced:
  assumes "reorder_wf t" "size_ok t"
  shows "\<exists>s'. ieee80211_release_reorder_frame (head_slot t) (t, fs) = Some s' \<and> advanced 1 (t, fs) s' \<and>
     head_seq_num (fst s') = seq_inc (head_seq_num t)"
proof -
  obtain t' where t': "ieee80211_release_reorder_frame (head_slot t) (t, fs)
            = Some (t', fs @ map mark_deferred (adv_out 1 (window t)))"
    "reorder_wf t'" "size_ok t'" "same_config t t'" "head_seq_num t' = seq_inc (head_seq_num t)"
    "window t' = adv 1 (window t)"
    using release_head[OF assms, of fs] by blast
  then show ?thesis using head_plus_1[OF t'(5)] by (simp add: advanced_def)
qed

lemma slot_of_head: "reorder_wf t \<Longrightarrow> slot_of t (head_seq_num t) = Some (head_slot t)"
  by (auto simp: slot_of_def head_slot_def reorder_wf_def)

lemma seq_sub_step:
  assumes "seq_less h t"
  shows "unat (seq_sub t h) = Suc (unat (seq_sub t (seq_inc h)))"
    and "\<not> seq_less (seq_inc h) t \<Longrightarrow> unat (seq_sub t (seq_inc h)) = 0"
proof -
  define a where "a = uint t - uint h"
  have lt: "(- a) mod 4096 > 2048" using assms by (simp add: seq_less_iff a_def)
  then have nz: "a mod 4096 \<noteq> 0" by (auto simp: zmod_zminus1_eq_if)
  then have neg: "(- a) mod 4096 = 4096 - a mod 4096" by (simp add: zmod_zminus1_eq_if)
  have s: "uint (seq_sub t (seq_inc h)) = a mod 4096 - 1"
    using mod_pred[OF nz] by (simp add: uint_seq_sub uint_seq_inc mod_diff_right_eq a_def algebra_simps)
  moreover have s0: "uint (seq_sub t h) = a mod 4096" by (simp add: uint_seq_sub a_def)
  ultimately have "uint (seq_sub t h) = 1 + uint (seq_sub t (seq_inc h))" by simp
  then show "unat (seq_sub t h) = Suc (unat (seq_sub t (seq_inc h)))"
    by (metis of_nat_Suc of_nat_eq_iff uint_nat add.commute)
  show "unat (seq_sub t (seq_inc h)) = 0" if "\<not> seq_less (seq_inc h) t"
  proof -
    define b where "b = a mod 4096 - 1"
    have b: "0 \<le> b" "b < 2047" using lt neg nz pos_mod_sign[of 4096 a] by (auto simp: b_def)
    have "(uint (seq_inc h) - uint t) mod 4096 = (- b) mod 4096"
    proof -
      have "(uint (seq_inc h) - uint t) mod 4096 = (1 - a) mod 4096"
        by (simp add: uint_seq_inc mod_diff_left_eq a_def algebra_simps)
      also have "\<dots> = (1 - a mod 4096) mod 4096" by (simp add: mod_diff_right_eq)
      finally show ?thesis by (simp add: b_def)
    qed
    then have "\<not> (- b) mod 4096 > 2048" using that by (simp add: seq_less_iff)
    then have "b = 0" using b by (cases "b = 0") (auto simp: zmod_zminus1_eq_if)
    then have "uint (seq_sub t (seq_inc h)) = 0" using s by (simp add: b_def)
    then show ?thesis by (simp add: unat_eq_nat_uint)
  qed
qed

lemma release_frames_ok:
  assumes "reorder_wf t" "size_ok t"
  shows "\<exists>s'. ieee80211_release_reorder_frames head (t, fs) = Some s' \<and>
     advanced (if seq_less (head_seq_num t) head then unat (seq_sub head (head_seq_num t)) else 0) (t, fs) s'"
  using assms
proof (induction head "(t, fs)" arbitrary: t fs rule: ieee80211_release_reorder_frames.induct)
  case (1 head t fs)
  show ?case
  proof (cases "seq_less (head_seq_num t) head")
    case False
    then show ?thesis using 1(2,3) by (simp add: advanced_0)
  next
    case True
    obtain t1 fs1 where s1: "ieee80211_release_reorder_frame (head_slot t) (t, fs) = Some (t1, fs1)"
      "advanced 1 (t, fs) (t1, fs1)" "head_seq_num t1 = seq_inc (head_seq_num t)"
      using release_head_advanced[OF 1(2,3), of fs] by auto
    have ok: "reorder_wf t1" "size_ok t1" using s1(2) by (auto simp: advanced_def)
    obtain s2 where s2: "ieee80211_release_reorder_frames head (t1, fs1) = Some s2"
      "advanced (if seq_less (head_seq_num t1) head then unat (seq_sub head (head_seq_num t1)) else 0) (t1, fs1) s2"
      using 1(1)[OF True slot_of_head[OF 1(2)] s1(1) ok] by auto
    have "ieee80211_release_reorder_frames head (t, fs) = Some s2"
      using True s1(1) s2(1) slot_of_head[OF 1(2)] by simp
    moreover have "advanced (unat (seq_sub head (head_seq_num t))) (t, fs) s2"
      using advanced_trans[OF s1(2) s2(2)] seq_sub_step[OF True] s1(3)
      by (auto split: if_splits)
    ultimately show ?thesis using True by auto
  qed
qed

text \<open>Steps from slot j forward to slot i of a ring of b slots.\<close>

definition ring_dist :: "nat \<Rightarrow> nat \<Rightarrow> nat \<Rightarrow> nat" where
  "ring_dist b j i = (if j \<le> i then i - j else b + i - j)"

lemma ring_dist_step:
  assumes "j < b" "i < b" "j \<noteq> i"
  shows "ring_dist b j i = Suc (ring_dist b ((j + 1) mod b) i)"
  using assms by (cases "j + 1 < b") (auto simp: ring_dist_def mod_if)

lemma ring_dist_less: "j < b \<Longrightarrow> i < b \<Longrightarrow> ring_dist b j i < b"
  by (auto simp: ring_dist_def)

lemma ring_dist_next: "i < b \<Longrightarrow> ring_dist b ((i + 1) mod b) i = b - 1"
  by (cases "i + 1 < b") (auto simp: ring_dist_def mod_if)

lemma find_loop_ok:
  assumes "j < unat (buf_size t)" "k < unat (buf_size t)" "reorder_buf t ! k \<noteq> None"
    "length (reorder_buf t) = unat (buf_size t)" "ring_dist (unat (buf_size t)) j k \<le> fuel"
  shows "\<exists>r. find_loop fuel index j t = Some r \<and> r < unat (buf_size t)"
  using assms
proof (induction fuel index j t rule: find_loop.induct)
  case (1 fuel index j t)
  consider "int j = (int index - 1) smod int (unat (buf_size t)) \<or> reorder_buf t ! j \<noteq> None"
    | "\<not> int j = (int index - 1) smod int (unat (buf_size t))" "reorder_buf t ! j = None" by blast
  then show ?case
  proof cases
    case 1
    then show ?thesis using \<open>j < unat (buf_size t)\<close> "1.prems"(4) by (subst find_loop.simps) auto
  next
    case 2
    then have "j \<noteq> k" using "1.prems"(3) by auto
    then have d: "ring_dist (unat (buf_size t)) j k
        = Suc (ring_dist (unat (buf_size t)) ((j + 1) mod unat (buf_size t)) k)"
      using "1.prems" by (intro ring_dist_step) auto
    then obtain f where f: "fuel = Suc f" using "1.prems"(5) by (cases fuel) auto
    have "\<exists>r. find_loop f index ((j + 1) mod unat (buf_size t)) t = Some r \<and> r < unat (buf_size t)"
      by (rule "1.IH") (use 2 "1.prems" d f in auto)
    then show ?thesis using 2 f "1.prems" by (subst find_loop.simps) auto
  qed
qed

lemma run_loop_ok:
  assumes "reorder_wf t" "size_ok t" "n_stored (reorder_buf t) \<le> fuel"
  shows "\<exists>s'. run_loop fuel (head_slot t) (t, fs) = Some s' \<and>
     advanced (length (takeWhile (\<lambda>x. x \<noteq> None) (window t))) (t, fs) s'"
  using assms
proof (induction fuel arbitrary: t fs)
  case (0 t fs)
  have B: "0 < unat (buf_size t)" using 0(1) by (simp add: reorder_wf_def word_less_nat_alt)
  have emp: "set (reorder_buf t) \<subseteq> {None}" using 0(3) by (simp add: n_stored_0)
  have hl: "head_slot t < length (reorder_buf t)" using B 0(1) by (simp add: reorder_wf_def head_slot_def)
  have "reorder_buf t ! head_slot t = None" using nth_mem[OF hl] emp by auto
  moreover have "set (window t) \<subseteq> {None}" using emp by (simp add: window_def)
  then have "takeWhile (\<lambda>x. x \<noteq> None) (window t) = []" by (cases "window t") auto
  moreover note hl
  ultimately show ?case using 0(1,2) by (auto simp: advanced_0)
next
  case (Suc f t fs)
  have B: "0 < unat (buf_size t)" using Suc(2) by (simp add: reorder_wf_def word_less_nat_alt)
  have hl: "head_slot t < length (reorder_buf t)" using B Suc(2) by (simp add: reorder_wf_def head_slot_def)
  obtain x xs where w: "window t = x # xs" using window_length[OF Suc(2)] B by (cases "window t") auto
  have x: "reorder_buf t ! head_slot t = x" using window_nth[OF Suc(2) B] w by (simp add: head_slot_def)
  show ?case
  proof (cases x)
    case None
    then show ?thesis using Suc(2,3) x w hl by (auto simp: advanced_0)
  next
    case (Some y)
    obtain t1 fs1 where s1: "ieee80211_release_reorder_frame (head_slot t) (t, fs) = Some (t1, fs1)"
      "advanced 1 (t, fs) (t1, fs1)"
      using release_head_advanced[OF Suc(2,3), of fs] by auto
    have ok: "reorder_wf t1" "size_ok t1" "window t1 = xs @ [None]"
      using s1(2) w adv_1(1)[of "window t"] by (auto simp: advanced_def)
    have "n_stored (reorder_buf t1) = n_stored (window t1)" "n_stored (reorder_buf t) = n_stored (window t)"
      by (simp_all add: window_def)
    then have "n_stored (reorder_buf t1) \<le> f" using Suc(4) w ok(3) Some by (simp add: n_stored_def)
    then obtain s2 where s2: "run_loop f (head_slot t1) (t1, fs1) = Some s2"
      "advanced (length (takeWhile (\<lambda>x. x \<noteq> None) (window t1))) (t1, fs1) s2"
      using Suc.IH[OF ok(1,2)] by blast
    have "run_loop (Suc f) (head_slot t) (t, fs) = Some s2"
      using s1(1) s2(1) x Some hl slot_of_head[OF ok(1)] by simp
    moreover have "takeWhile (\<lambda>x. x \<noteq> None) (xs @ [None]) = takeWhile (\<lambda>x. x \<noteq> None) xs"
      by (induction xs) auto
    ultimately show ?thesis using advanced_trans[OF s1(2) s2(2)] w ok(3) Some by auto
  qed
qed

text \<open>Releasing the slot behind a run of empty ones advances the window over all of them.\<close>

lemma adv_gap:
  assumes "k < length w" "\<forall>i<k. w ! i = None"
  shows "rotate (Suc k) (w[k := None]) = adv (Suc k) w" "adv_out (Suc k) w = cat_some [w ! k]"
proof -
  have tk: "take k w = replicate k None"
    using assms by (intro nth_equalityI) auto
  have "take (Suc k) (w[k := None]) = replicate (Suc k) None"
    using assms tk by (simp add: take_Suc_conv_app_nth replicate_append_same)
  moreover have "drop (Suc k) (w[k := None]) = drop (Suc k) w" using assms(1) by simp
  moreover have "rotate (Suc k) xs = drop (Suc k) xs @ take (Suc k) xs" if "Suc k \<le> length xs" for xs :: "'a option list"
    using that by (cases "Suc k = length xs") (auto simp: rotate_drop_take)
  ultimately show "rotate (Suc k) (w[k := None]) = adv (Suc k) w"
    using assms(1) by (simp add: adv_def min_def)
  show "adv_out (Suc k) w = cat_some [w ! k]"
    using assms(1) tk by (simp add: adv_out_def take_Suc_conv_app_nth)
qed

lemma release_gap:
  assumes wf: "reorder_wf t" and sz: "size_ok t" and k: "k < unat (buf_size t)"
    and idx: "idx = (head_slot t + k) mod unat (buf_size t)" and emp: "\<forall>i<k. window t ! i = None"
  shows "\<exists>t1 fs1. ieee80211_release_reorder_frame idx (t, fs) = Some (t1, fs1) \<and>
     (let t2 = t1\<lparr>head_seq_num := (head_seq_num t1 + of_nat k) AND SEQ_MASK\<rparr> in
      advanced (Suc k) (t, fs) (t2, fs1) \<and>
      head_slot t2 = (idx + 1) mod unat (buf_size t))"
proof -
  define B where "B = unat (buf_size t)"
  have B: "B < 65536" using unat_lt2p[of "buf_size t"] by (simp add: B_def)
  obtain t1 where t1: "ieee80211_release_reorder_frame idx (t, fs)
      = Some (t1, fs @ map mark_deferred (cat_some [window t ! k]))"
    "reorder_wf t1" "size_ok t1" "same_config t t1" "head_seq_num t1 = seq_inc (head_seq_num t)"
    "window t1 = rotate 1 ((window t)[k := None])"
    using release_at[OF wf sz k idx, of fs] by blast
  define h where "h = (head_seq_num t1 + of_nat k) AND SEQ_MASK"
  define t2 where "t2 = t1\<lparr>head_seq_num := h\<rparr>"
  have uk: "uint (of_nat k :: u16) = int k" using k B by (simp add: uint_nat unat_of_nat B_def)
  have "uint h = uint (head_seq_num t1 + of_nat k) mod 4096" by (simp only: h_def uint_and_mask12)
  then have h: "uint h = (uint (head_seq_num t1) + int k) mod 4096"
    by (simp add: uint_word_ariths uk mod_mod_cancel del: uint_word_of_int_eq)
  have "uint h < 4096" using h by simp
  then have "h < 4096" by (simp add: word_less_def)
  then have ok: "reorder_wf t2" "size_ok t2" "same_config t t2"
    using t1 by (auto simp: t2_def reorder_wf_def size_ok_def same_config_def)
  have "head_plus t (Suc k) t2"
    using head_plus_trans[OF head_plus_1[OF t1(5)], of k t2] h by (simp add: head_plus_def t2_def)
  moreover have "window t2 = adv (Suc k) (window t)"
    using window_head[OF t1(3,2) h] t1(6) adv_gap(1)[of k "window t"] emp k window_length[OF wf]
    by (simp add: t2_def rotate_rotate rotate1_rotate_swap)
  moreover have "cat_some [window t ! k] = adv_out (Suc k) (window t)"
    using adv_gap(2)[of k "window t"] emp k window_length[OF wf] by simp
  ultimately have "advanced (Suc k) (t, fs) (t2, fs @ map mark_deferred (cat_some [window t ! k]))"
    using ok by (simp add: advanced_def)
  moreover have "head_slot t2 = (idx + 1) mod unat (buf_size t)"
  proof -
    have "head_slot t2 = (head_slot t1 + k) mod unat (buf_size t)"
      using head_slot_add[OF t1(3) h] t1(4) by (simp add: t2_def same_config_def)
    moreover have "uint (head_seq_num t1) = (uint (head_seq_num t) + int 1) mod 4096"
      using t1(5) by (simp add: uint_seq_inc)
    then have "head_slot (t\<lparr>head_seq_num := head_seq_num t1\<rparr>) = (head_slot t + 1) mod unat (buf_size t)"
      by (rule head_slot_add[OF sz])
    then have "head_slot t1 = (head_slot t + 1) mod unat (buf_size t)"
      using t1(4) by (simp add: head_slot_def same_config_def)
    ultimately show ?thesis by (simp add: idx mod_simps add.commute add.left_commute)
  qed
  ultimately show ?thesis using t1(1) by (auto simp: Let_def t2_def h_def)
qed

lemma expire_loop_ok:
  assumes "reorder_wf t" "size_ok t" "j < unat (buf_size t)" "index < unat (buf_size t)"
    "j = (head_slot t + skipped) mod unat (buf_size t)" "\<forall>i < skipped. window t ! i = None"
    "skipped + ring_dist (unat (buf_size t)) j index \<le> unat (buf_size t)"
    "ring_dist (unat (buf_size t)) j index \<le> fuel"
  shows "\<exists>s' n r. expire_loop fuel jif tmo index j skipped (t, fs) = Some (s', r) \<and>
     advanced n (t, fs) s' \<and> n \<le> skipped + ring_dist (unat (buf_size t)) j index \<and>
     (\<forall>j'. r = Some j' \<longrightarrow> j' < unat (buf_size t) \<and> reorder_buf (fst s') ! j' \<noteq> None)"
  using assms
proof (induction fuel arbitrary: j skipped t fs)
  case (0 j skipped t fs)
  have "j = index" using 0(3,4,8) by (simp add: ring_dist_def split: if_splits)
  then show ?case using 0 advanced_0[of t fs] by auto
next
  case (Suc f j skipped t fs)
  define B where "B = unat (buf_size t)"
  have L: "length (reorder_buf t) = B" "length (reorder_time t) = B"
    using Suc(2) by (auto simp: reorder_wf_def B_def)
  show ?case
  proof (cases "j = index")
    case True
    then show ?thesis using Suc(2,3) advanced_0[of t fs] by auto
  next
    case ne: False
    define nx where "nx = (j + 1) mod B"
    have d: "ring_dist B j index = Suc (ring_dist B nx index)"
      using ring_dist_step[of j B index] Suc ne by (simp add: B_def nx_def)
    have nl: "nx < B" using Suc(4) by (simp add: nx_def B_def)
    have k: "skipped < B" using Suc(8) d by (simp add: B_def)
    have wk: "window t ! skipped = reorder_buf t ! j"
      using window_nth[OF Suc(2), of skipped] k Suc(6) by (simp add: B_def)
    show ?thesis
    proof (cases "reorder_buf t ! j")
      case None
      have "nx = (head_slot t + (skipped + 1)) mod B"
        using Suc(6) by (simp add: nx_def B_def mod_Suc_eq)
      moreover have "\<forall>i < skipped + 1. window t ! i = None" using Suc(7) wk None by (auto simp: less_Suc_eq)
      ultimately have "\<exists>s' n r. expire_loop f jif tmo index nx (skipped + 1) (t, fs) = Some (s', r) \<and>
          advanced n (t, fs) s' \<and> n \<le> skipped + 1 + ring_dist B nx index \<and> (\<forall>j'. r = Some j' \<longrightarrow> j' < B \<and> reorder_buf (fst s') ! j' \<noteq> None)"
        unfolding B_def by (intro Suc.IH) (use Suc.prems nl d in \<open>auto simp: B_def\<close>)
      moreover have "expire_loop (Suc f) jif tmo index j skipped (t, fs)
          = expire_loop f jif tmo index nx (skipped + 1) (t, fs)"
        using ne None L Suc(4) by (subst expire_loop.simps) (simp add: Let_def nx_def B_def)
      ultimately show ?thesis using d by (fastforce simp: B_def)
    next
      case (Some y)
      show ?thesis
      proof (cases "skipped \<noteq> 0 \<and> \<not> time_after jif (reorder_time t ! j + tmo)")
        case True
        then have "expire_loop (Suc f) jif tmo index j skipped (t, fs) = Some ((t, fs), Some j)"
          using ne Some L Suc(4) by (subst expire_loop.simps) (simp add: Let_def B_def)
        then show ?thesis using Suc(2,3,4) Some advanced_0[of t fs] by auto
      next
        case False
        obtain t1 fs1 where r1: "ieee80211_release_reorder_frame j (t, fs) = Some (t1, fs1)"
          "(let t2 = t1\<lparr>head_seq_num := (head_seq_num t1 + of_nat skipped) AND SEQ_MASK\<rparr> in
            advanced (Suc skipped) (t, fs) (t2, fs1) \<and> head_slot t2 = (j + 1) mod unat (buf_size t))"
          using release_gap[OF Suc(2,3) k[unfolded B_def] Suc(6,7), of fs] by blast
        define t2 where "t2 = t1\<lparr>head_seq_num := (head_seq_num t1 + of_nat skipped) AND SEQ_MASK\<rparr>"
        have t2: "advanced (Suc skipped) (t, fs) (t2, fs1)" "head_slot t2 = nx"
          using r1(2) by (simp_all add: t2_def Let_def nx_def B_def)
        then have ok: "reorder_wf t2" "size_ok t2" "unat (buf_size t2) = B"
          by (auto simp: advanced_def same_config_def B_def)
        have "\<exists>s' n r. expire_loop f jif tmo index nx 0 (t2, fs1) = Some (s', r) \<and>
            advanced n (t2, fs1) s' \<and> n \<le> 0 + ring_dist (unat (buf_size t2)) nx index \<and>
            (\<forall>j'. r = Some j' \<longrightarrow> j' < unat (buf_size t2) \<and> reorder_buf (fst s') ! j' \<noteq> None)"
          by (rule Suc.IH) (use ok t2 nl d Suc.prems in \<open>auto simp: B_def\<close>)
        then obtain s' n r where s': "expire_loop f jif tmo index nx 0 (t2, fs1) = Some (s', r)"
          "advanced n (t2, fs1) s'" "n \<le> ring_dist B nx index" "\<forall>j'. r = Some j' \<longrightarrow> j' < B \<and> reorder_buf (fst s') ! j' \<noteq> None"
          using ok(3) by auto
        have "expire_loop (Suc f) jif tmo index j skipped (t, fs)
            = expire_loop f jif tmo index nx 0 (t2, fs1)"
          using ne Some L Suc(4) False r1(1)
          by (subst expire_loop.simps) (auto simp: Let_def B_def nx_def t2_def)
        then show ?thesis using s' d advanced_trans[OF t2(1) s'(2)]
          by (intro exI[of _ s'] exI[of _ "Suc skipped + n"] exI[of _ r]) (simp add: B_def)
      qed
    qed
  qed
qed

lemma stored_iff: "reorder_wf t \<Longrightarrow> stored_mpdu_num t = 0 \<longleftrightarrow> n_stored (reorder_buf t) = 0"
  by (metis reorder_wf_def unat_eq_zero unsigned_0)

lemma set_release_timer_ok:
  "reorder_wf t \<Longrightarrow> j < unat (buf_size t) \<Longrightarrow> \<exists>e. set_release_timer t tmo j = Some (Mod_reorder_timer e)"
  by (simp add: set_release_timer_def reorder_wf_def)

text \<open>ieee80211_sta_reorder_release returns, advances the window over the run of frames at the head
  when there is one, and leaves the timer set exactly when frames are still stored.\<close>

lemma sta_reorder_release_ok:
  assumes wf: "reorder_wf t" and sz: "size_ok t"
  shows "\<exists>s' n c. ieee80211_sta_reorder_release jif tmo (t, fs) = Some (s', c) \<and> advanced n (t, fs) s' \<and>
     n \<le> unat (buf_size t) \<and>
     (window t ! 0 \<noteq> None \<longrightarrow> n = length (takeWhile (\<lambda>x. x \<noteq> None) (window t))) \<and>
     (c = Del_reorder_timer \<longleftrightarrow> stored_mpdu_num (fst s') = 0)"
proof -
  define B where "B = unat (buf_size t)"
  have B: "0 < B" using wf by (simp add: reorder_wf_def word_less_nat_alt B_def)
  have hl: "head_slot t < B" using B by (simp add: head_slot_def B_def)
  have L: "length (reorder_buf t) = B" using wf by (simp add: reorder_wf_def B_def)
  have w0: "window t ! 0 = reorder_buf t ! head_slot t"
    using window_nth[OF wf, of 0] B by (simp add: B_def head_slot_def)
  obtain t1 fs1 r n where first:
    "(if reorder_buf t ! head_slot t = None \<and> stored_mpdu_num t \<noteq> 0
      then expire_loop B jif tmo (head_slot t) ((head_slot t + 1) mod B) 1 (t, fs)
      else do { s \<leftarrow> run_loop B (head_slot t) (t, fs); Some (s, None) }) = Some ((t1, fs1), r)"
    "advanced n (t, fs) (t1, fs1)" "n \<le> B"
    "window t ! 0 \<noteq> None \<longrightarrow> n = length (takeWhile (\<lambda>x. x \<noteq> None) (window t))"
    "\<forall>j. r = Some j \<longrightarrow> j < B \<and> reorder_buf t1 ! j \<noteq> None"
  proof (cases "reorder_buf t ! head_slot t = None \<and> stored_mpdu_num t \<noteq> 0")
    case True
    have "\<exists>s' n r. expire_loop B jif tmo (head_slot t) ((head_slot t + 1) mod B) 1 (t, fs) = Some (s', r) \<and>
       advanced n (t, fs) s' \<and> n \<le> 1 + ring_dist (unat (buf_size t)) ((head_slot t + 1) mod B) (head_slot t) \<and>
       (\<forall>j'. r = Some j' \<longrightarrow> j' < unat (buf_size t) \<and> reorder_buf (fst s') ! j' \<noteq> None)"
      by (rule expire_loop_ok) (use wf sz B hl True w0 ring_dist_next[OF hl] in \<open>auto simp: B_def\<close>)
    then show ?thesis using that True w0 ring_dist_next[OF hl] B by (fastforce simp: B_def)
  next
    case False
    obtain s' where s': "run_loop B (head_slot t) (t, fs) = Some s'"
      "advanced (length (takeWhile (\<lambda>x. x \<noteq> None) (window t))) (t, fs) s'"
      using run_loop_ok[OF wf sz, of B fs] n_stored_le[of "reorder_buf t"] L by auto
    have "length (takeWhile (\<lambda>x. x \<noteq> None) (window t)) \<le> B"
      using length_takeWhile_le[of _ "window t"] window_length[OF wf] by (metis B_def)
    then show ?thesis using that[of "fst s'" "snd s'" None] False s' by auto
  qed
  have ok: "reorder_wf t1" "unat (buf_size t1) = B"
    using first(2) by (auto simp: advanced_def same_config_def B_def)
  have L1: "length (reorder_buf t1) = B" using ok by (simp add: reorder_wf_def)
  have rest: "\<exists>c. (case r of
        Some j \<Rightarrow> do { c \<leftarrow> set_release_timer t1 tmo j; Some ((t1, fs1), c) }
      | None \<Rightarrow>
          if stored_mpdu_num t1 \<noteq> 0 then do {
            index \<leftarrow> slot_of t1 (head_seq_num t1);
            j \<leftarrow> find_loop B index index t1;
            c \<leftarrow> set_release_timer t1 tmo j;
            Some ((t1, fs1), c) }
          else Some ((t1, fs1), Del_reorder_timer)) = Some ((t1, fs1), c)
      \<and> (c = Del_reorder_timer \<longleftrightarrow> stored_mpdu_num t1 = 0)"
  proof (cases r)
    case (Some j)
    then have "j < B" "reorder_buf t1 ! j \<noteq> None" using first(5) by auto
    then have "0 < n_stored (reorder_buf t1)" using n_stored_update(2)[of j "reorder_buf t1"] L1 by simp
    then have "stored_mpdu_num t1 \<noteq> 0" using stored_iff[OF ok(1)] by simp
    then show ?thesis using Some set_release_timer_ok[OF ok(1), of j tmo] \<open>j < B\<close> ok(2) by auto
  next
    case None
    show ?thesis
    proof (cases "stored_mpdu_num t1 = 0")
      case False
      have "\<not> set (reorder_buf t1) \<subseteq> {None}"
        unfolding n_stored_0[symmetric] using False stored_iff[OF ok(1)] by blast
      then obtain x where "x \<in> set (reorder_buf t1)" "x \<noteq> None" by blast
      then obtain k where "k < B" "reorder_buf t1 ! k \<noteq> None"
        using L1 by (metis in_set_conv_nth)
      moreover have "head_slot t1 < B" using B ok(2) by (simp add: head_slot_def)
      ultimately obtain j where "find_loop B (head_slot t1) (head_slot t1) t1 = Some j" "j < B"
        using find_loop_ok[of "head_slot t1" t1 k B "head_slot t1"] ok L1
          ring_dist_less[of "head_slot t1" B k] by auto
      then show ?thesis
        using None False slot_of_head[OF ok(1)] set_release_timer_ok[OF ok(1), of j tmo] ok(2) by auto
    qed (use None in simp)
  qed
  then obtain c where c: "(case r of
        Some j \<Rightarrow> do { c \<leftarrow> set_release_timer t1 tmo j; Some ((t1, fs1), c) }
      | None \<Rightarrow>
          if stored_mpdu_num t1 \<noteq> 0 then do {
            index \<leftarrow> slot_of t1 (head_seq_num t1);
            j \<leftarrow> find_loop B index index t1;
            c \<leftarrow> set_release_timer t1 tmo j;
            Some ((t1, fs1), c) }
          else Some ((t1, fs1), Del_reorder_timer)) = Some ((t1, fs1), c)"
    "c = Del_reorder_timer \<longleftrightarrow> stored_mpdu_num t1 = 0" by blast
  have "ieee80211_sta_reorder_release jif tmo (t, fs) = Some ((t1, fs1), c)"
  proof (cases "reorder_buf t ! head_slot t = None \<and> stored_mpdu_num t \<noteq> 0")
    case True
    have "expire_loop B jif tmo (head_slot t) ((head_slot t + 1) mod B) 1 (t, fs) = Some ((t1, fs1), r)"
      using first(1) unfolding if_P[OF True] by blast
    then show ?thesis unfolding ieee80211_sta_reorder_release_def
      using True c(1)[unfolded B_def] hl L slot_of_head[OF wf]
      by (simp add: Let_def B_def del: expire_loop.simps run_loop.simps find_loop.simps split del: if_split)
  next
    case False
    have "do { s \<leftarrow> run_loop B (head_slot t) (t, fs); Some (s, None) } = Some ((t1, fs1), r)"
      using first(1) unfolding if_not_P[OF False] by blast
    then have "run_loop B (head_slot t) (t, fs) = Some (t1, fs1)" "r = None"
      by (auto simp: bind_eq_Some_conv simp del: run_loop.simps)
    then show ?thesis unfolding ieee80211_sta_reorder_release_def
      using c(1)[unfolded B_def] hl L slot_of_head[OF wf] False
      by (cases "reorder_buf t ! head_slot t = None")
        (simp_all add: Let_def B_def del: not_None_eq expire_loop.simps run_loop.simps find_loop.simps split del: if_split)
  qed
  then show ?thesis using first(2-4) c(2) by (auto simp: B_def)
qed

subsection \<open>What one frame does to the window\<close>

text \<open>ofs is the distance of the frame's sequence number from the head, w the window.  More than 2048
  behind the head counts as old.  A frame beyond the window first advances it so that the frame
  gets the last slot.\<close>

definition reorder_shift :: "nat \<Rightarrow> nat \<Rightarrow> nat" where
  "reorder_shift b ofs = (if ofs < b then 0 else ofs - b + 1)"

definition reorder_spec ::
    "nat \<Rightarrow> sk_buff \<Rightarrow> reorder_state \<Rightarrow> bool \<Rightarrow> reorder_state \<Rightarrow> bool" where
  "reorder_spec ofs skb s ret s' \<longleftrightarrow>
     (let t = tid_rx s; b = unat (buf_size t); n = reorder_shift b ofs; w = adv n (window t); k = ofs - n;
          out = map mark_deferred (adv_out n (window t)) in
      if ofs > 2048 then ret \<and> s' = free_skb skb s
      else if w ! k \<noteq> None then
        ret \<and> freed s' = freed s @ [skb] \<and> window (tid_rx s') = w \<and> head_plus t n (tid_rx s') \<and>
        frames s' = frames s @ out
      else if k = 0 \<and> n_stored w = 0 then
        \<not> ret \<and> freed s' = freed s \<and> window (tid_rx s') = adv 1 w \<and> head_plus t (n + 1) (tid_rx s') \<and>
        frames s' = frames s @ out
      else ret \<and> freed s' = freed s \<and> (\<exists>m\<le>b.
        window (tid_rx s') = adv m (w[k := Some skb]) \<and> head_plus t (n + m) (tid_rx s') \<and>
        frames s' = frames s @ out @ map mark_deferred (adv_out m (w[k := Some skb])) \<and>
        (k = 0 \<longrightarrow> m = length (takeWhile (\<lambda>x. x \<noteq> None) (w[k := Some skb])))))"

text \<open>The bypass of an EAPOL frame: after the slide nothing is stored and the frame is exactly one beyond
  the head (compared as integers, so not across the wrap of the sequence numbers).  The frame is
  handed to the caller and the head moves by one, onto the number of the frame.\<close>

definition eapol_bypass :: "bool \<Rightarrow> nat \<Rightarrow> tid_ampdu_rx \<Rightarrow> bool" where
  "eapol_bypass e ofs t \<longleftrightarrow> (let n = reorder_shift (unat (buf_size t)) ofs in
     e \<and> ofs \<le> 2048 \<and> ofs = n + 1 \<and> n_stored (adv n (window t)) = 0 \<and>
     (uint (head_seq_num t) + int n) mod 4096 < 4095)"

definition reorder_any_spec ::
    "bool \<Rightarrow> nat \<Rightarrow> sk_buff \<Rightarrow> reorder_state \<Rightarrow> bool \<Rightarrow> reorder_state \<Rightarrow> bool" where
  "reorder_any_spec e ofs skb s ret s' \<longleftrightarrow>
     (let t = tid_rx s; n = reorder_shift (unat (buf_size t)) ofs in
      if eapol_bypass e ofs t then
        \<not> ret \<and> freed s' = freed s \<and> window (tid_rx s') = adv 1 (adv n (window t)) \<and>
        head_plus t (n + 1) (tid_rx s') \<and>
        frames s' = frames s @ map mark_deferred (adv_out n (window t))
      else reorder_spec ofs skb s ret s')"

lemma reorder_any_spec_False [simp]: "reorder_any_spec False ofs skb s ret s' = reorder_spec ofs skb s ret s'"
  by (simp add: reorder_any_spec_def eapol_bypass_def)

lemma n_stored_all_None: "n_stored w = 0 \<Longrightarrow> k < length w \<Longrightarrow> w ! k = None"
  using n_stored_0[of w] nth_mem[of k w] by (metis singletonD subsetD)

definition session_ok :: "tid_ampdu_rx \<Rightarrow> bool" where
  "session_ok t \<longleftrightarrow> reorder_wf t \<and> size_ok t \<and> 2 \<le> buf_size t \<and> buf_size t \<le> 64"

lemma session_ok_same: "session_ok t \<Longrightarrow> advanced n (t, fs) (t', fs') \<Longrightarrow> session_ok t'"
  by (simp add: session_ok_def advanced_def same_config_def)

lemma mod_neg_wrap: "- n \<le> z \<Longrightarrow> z < 0 \<Longrightarrow> z mod n = z + (n::int)"
  using mod_pos_pos_trivial[of "z + n" n] by simp

lemma window_shift:
  assumes ok: "session_ok t" and sn: "sn < 4096" and o: "off t sn \<le> 2048"
  shows "\<exists>s1. (if \<not> seq_less sn (head_seq_num t + buf_size t)
      then ieee80211_release_reorder_frames (seq_inc (seq_sub sn (buf_size t))) (t, fs)
      else Some (t, fs)) = Some s1 \<and>
    advanced (reorder_shift (unat (buf_size t)) (off t sn)) (t, fs) s1"
proof -
  define b where "b = uint (buf_size t)"
  define h where "h = uint (head_seq_num t)"
  define a where "a = uint sn - h"
  have ub: "uint (64::u16) = 64" "uint (2::u16) = 2" by simp_all
  have b: "2 \<le> b" "b \<le> 64" "int (unat (buf_size t)) = b"
    using ok ub unfolding session_ok_def b_def word_le_def by simp_all
  have h: "0 \<le> h" "h < 4096" using ok by (auto simp: session_ok_def reorder_wf_def word_less_def h_def)
  have hb: "uint (head_seq_num t + buf_size t) = h + b"
    using b h by (simp add: uint_word_ariths h_def b_def)
  have oa: "int (off t sn) = a mod 4096" by (simp add: off_int a_def h_def)
  have less: "seq_less sn (head_seq_num t + buf_size t) \<longleftrightarrow> off t sn < unat (buf_size t)"
  proof -
    have "(uint sn - (h + b)) mod 4096 = (a mod 4096 - b) mod 4096"
      by (simp add: mod_diff_left_eq a_def algebra_simps)
    moreover have "(a mod 4096 - b) mod 4096 > 2048 \<longleftrightarrow> a mod 4096 < b"
    proof (cases "a mod 4096 < b")
      case True
      have "0 \<le> a mod 4096" by simp
      then have "(a mod 4096 - b) mod 4096 = a mod 4096 - b + 4096"
        using b True by (intro mod_neg_wrap) linarith+
      then show ?thesis using True b \<open>0 \<le> a mod 4096\<close> by linarith
    next
      case False
      have "a mod 4096 < 4096" by simp
      then have "(a mod 4096 - b) mod 4096 = a mod 4096 - b"
        using b False by (intro mod_pos_pos_trivial) linarith+
      then show ?thesis using False b o oa by linarith
    qed
    ultimately show ?thesis unfolding seq_less_iff hb using oa b(3) by linarith
  qed
  show ?thesis
  proof (cases "off t sn < unat (buf_size t)")
    case True
    then show ?thesis using less ok by (simp add: reorder_shift_def advanced_0 session_ok_def)
  next
    case False
    define H where "H = seq_inc (seq_sub sn (buf_size t))"
    define d where "d = a mod 4096 - b + 1"
    have "int (unat (buf_size t)) \<le> int (off t sn)" "int (off t sn) \<le> 2048"
      using False o by (simp_all del: of_nat_unat)
    then have d: "1 \<le> d" "d < 2048" using oa b unfolding d_def by linarith+
    have d': "d mod 4096 = d" "(- d) mod 4096 = 4096 - d"
      using d mod_neg_wrap[of 4096 "- d"] by simp_all
    have "uint H = (uint sn - b + 1) mod 4096"
      by (simp add: H_def uint_seq_inc uint_seq_sub b_def mod_add_left_eq)
    also have "uint sn - b + 1 = h + (a - b + 1)" by (simp add: a_def)
    finally have H: "uint H = (h + (a - b + 1)) mod 4096" .
    have dm: "(a - b + 1) mod 4096 = d"
    proof -
      have "(a - b + 1) mod 4096 = (a mod 4096 - b + 1) mod 4096"
        using mod_add_left_eq[of a 4096 "1 - b"] by (simp add: algebra_simps)
      then show ?thesis using d'(1) by (simp add: d_def)
    qed
    have "(uint H - h) mod 4096 = (h + (a - b + 1) - h) mod 4096"
      unfolding H by (rule mod_diff_left_eq)
    then have 1: "(uint H - h) mod 4096 = d" using dm by simp
    then have "(h - uint H) mod 4096 = 4096 - d"
      using zmod_zminus1_eq_if[of "uint H - h" 4096] d by simp
    then have sl: "seq_less (head_seq_num t) H" using d by (simp add: seq_less_iff h_def)
    have "int (unat (seq_sub H (head_seq_num t))) = d" using 1 by (simp add: uint_seq_sub h_def)
    moreover have "int (reorder_shift (unat (buf_size t)) (off t sn)) = d"
      using False oa b(3) by (simp add: reorder_shift_def d_def of_nat_diff)
    ultimately have n: "unat (seq_sub H (head_seq_num t)) = reorder_shift (unat (buf_size t)) (off t sn)"
      by linarith
    obtain s' where "ieee80211_release_reorder_frames H (t, fs) = Some s'"
      "advanced (unat (seq_sub H (head_seq_num t))) (t, fs) s'"
      using release_frames_ok[of t H fs] ok sl by (auto simp: session_ok_def)
    then show ?thesis using less False n by (simp add: H_def)
  qed
qed

lemma store_frame_ok:
  assumes ok: "session_ok t" and t: "tid_rx s = t" and k: "k < unat (buf_size t)"
    and idx: "idx = (head_slot t + k) mod unat (buf_size t)" and emp: "window t ! k = None"
  shows "\<exists>s' m. store_frame jif idx skb s = Some (True, s') \<and> freed s' = freed s \<and>
     session_ok (tid_rx s') \<and> m \<le> unat (buf_size t) \<and>
     window (tid_rx s') = adv m ((window t)[k := Some skb]) \<and> head_plus t m (tid_rx s') \<and>
     frames s' = frames s @ map mark_deferred (adv_out m ((window t)[k := Some skb])) \<and>
     (k = 0 \<longrightarrow> m = length (takeWhile (\<lambda>x. x \<noteq> None) ((window t)[k := Some skb])))"
proof -
  define B where "B = unat (buf_size t)"
  have wf: "reorder_wf t" "size_ok t" using ok by (auto simp: session_ok_def)
  have B: "0 < B" "B \<le> 64" "length (reorder_buf t) = B" "length (reorder_time t) = B" "idx < B"
    using wf k idx ok by (auto simp: reorder_wf_def B_def session_ok_def word_le_nat_alt)
  have bi: "reorder_buf t ! idx = None" using window_nth[OF wf(1) k] idx emp by simp
  define t1 where "t1 = t\<lparr>reorder_buf := (reorder_buf t)[idx := Some skb]\<rparr>"
  define t2 where "t2 = t\<lparr>reorder_buf := (reorder_buf t)[idx := Some skb],
     reorder_time := (reorder_time t)[idx := jif], stored_mpdu_num := stored_mpdu_num t + 1\<rparr>"
  have ns: "n_stored ((reorder_buf t)[idx := Some skb]) = n_stored (reorder_buf t) + 1"
    using n_stored_update(3)[of idx "reorder_buf t"] bi B by simp
  moreover have "unat (stored_mpdu_num t) = n_stored (reorder_buf t)" using wf by (simp add: reorder_wf_def)
  moreover have "n_stored (reorder_buf t) \<le> 64" using n_stored_le[of "reorder_buf t"] B by simp
  ultimately have "unat (stored_mpdu_num t + 1) = n_stored ((reorder_buf t)[idx := Some skb])"
    using unat_plus_of_nat[of "stored_mpdu_num t" 1] by simp
  then have wf2: "reorder_wf t2" "size_ok t2" "session_ok t2"
    using wf ok by (auto simp: reorder_wf_def size_ok_def session_ok_def t2_def)
  have w2: "window t2 = (window t)[k := Some skb]"
    using window_update[OF wf(1) k, of "Some skb"] idx by (simp add: window_def head_slot_def t2_def)
  obtain t3 fs3 m c where r: "ieee80211_sta_reorder_release jif (HT_RX_REORDER_BUF_TIMEOUT s) (t2, frames s)
      = Some ((t3, fs3), c)" "advanced m (t2, frames s) (t3, fs3)" "m \<le> unat (buf_size t2)"
    "window t2 ! 0 \<noteq> None \<longrightarrow> m = length (takeWhile (\<lambda>x. x \<noteq> None) (window t2))"
    using sta_reorder_release_ok[OF wf2(1,2), of jif "HT_RX_REORDER_BUF_TIMEOUT s" "frames s"] by auto
  have run: "store_frame jif idx skb s
      = Some (True, s\<lparr>tid_rx := t3, frames := fs3, timers := timers s @ [c]\<rparr>)"
    using B t r(1) by (simp add: store_frame_def Let_def t2_def)
  have lw: "length (window t) = B" using window_length[OF wf(1)] by (simp add: B_def)
  have s3: "session_ok t3" using session_ok_same[OF wf2(3) r(2)] .
  have "window t2 ! 0 \<noteq> None" if "k = 0" using that w2 lw B by simp
  then show ?thesis using run r w2 s3
    by (intro exI[of _ "s\<lparr>tid_rx := t3, frames := fs3, timers := timers s @ [c]\<rparr>"] exI[of _ m])
      (auto simp: advanced_def head_plus_def t2_def)
qed

lemma manage_reorder_any_spec:
  assumes ok: "session_ok (tid_rx s)" and sn: "sn < 4096"
  shows "\<exists>ret s'. manage_reorder jif sn e skb s = Some (ret, s') \<and> session_ok (tid_rx s') \<and>
     reorder_any_spec e (off (tid_rx s) sn) skb s ret s'"
proof -
  define t where "t = tid_rx s"
  define B where "B = unat (buf_size t)"
  define ofs where "ofs = off t sn"
  have wf: "reorder_wf t" "size_ok t" and ok': "session_ok t" using ok by (auto simp: session_ok_def t_def)
  have B: "2 \<le> B" "B \<le> 64" using ok' by (auto simp: session_ok_def word_le_nat_alt B_def)
  have old: "seq_less sn (head_seq_num t) \<longleftrightarrow> ofs > 2048"
    unfolding seq_less_iff ofs_def using off_int[of t sn] by linarith
  show ?thesis
  proof (cases "ofs > 2048")
    case True
    then show ?thesis using old ok
      by (auto simp: manage_reorder_def reorder_any_spec_def eapol_bypass_def reorder_spec_def free_skb_def Let_def t_def ofs_def)
  next
    case False
    define n where "n = reorder_shift B ofs"
    obtain t1 fs1 where s1: "(if \<not> seq_less sn (head_seq_num t + buf_size t)
        then ieee80211_release_reorder_frames (seq_inc (seq_sub sn (buf_size t))) (t, frames s)
        else Some (t, frames s)) = Some (t1, fs1)" "advanced n (t, frames s) (t1, fs1)"
      using window_shift[OF ok' sn, of "frames s"] False by (auto simp: n_def B_def ofs_def)
    have ok1: "session_ok t1" using session_ok_same[OF ok' s1(2)] .
    have a1: "reorder_wf t1" "size_ok t1" "window t1 = adv n (window t)" "head_plus t n t1"
      "unat (buf_size t1) = B" "fs1 = frames s @ map mark_deferred (adv_out n (window t))"
      using s1(2) by (auto simp: advanced_def same_config_def B_def)
    define k where "k = ofs - n"
    have nk: "n \<le> ofs" "k < B" using B by (auto simp: n_def k_def reorder_shift_def)
    have off1: "off t1 sn = k"
    proof -
      have "int (off t1 sn) = (uint sn - (uint (head_seq_num t) + int n) mod 4096) mod 4096"
        using a1(4) by (simp add: off_int head_plus_def)
      also have "\<dots> = (uint sn - uint (head_seq_num t) - int n) mod 4096"
        by (simp add: mod_diff_right_eq algebra_simps)
      also have "\<dots> = ((uint sn - uint (head_seq_num t)) mod 4096 - int n) mod 4096"
        by (simp add: mod_diff_left_eq)
      also have "\<dots> = (int ofs - int n) mod 4096" by (simp add: ofs_def off_int)
      also have "\<dots> = int k" using nk False by (simp add: k_def of_nat_diff)
      finally show ?thesis by simp
    qed
    define idx where "idx = (head_slot t1 + k) mod B"
    have "0 < buf_size t1" using a1(1) by (simp add: reorder_wf_def)
    then have idx: "slot_of t1 sn = Some idx"
      using slot_of_off[OF a1(2) _ sn] off1 a1(5) by (simp add: idx_def)
    have L: "idx < length (reorder_buf t1)" using a1(1,5) B by (simp add: reorder_wf_def idx_def)
    have wk: "window t1 ! k = reorder_buf t1 ! idx"
      using window_nth[OF a1(1), of k] nk a1(5) by (simp add: idx_def)
    have h1: "head_seq_num t1 < 4096" using a1(1) by (simp add: reorder_wf_def)
    have eq0: "sn = head_seq_num t1 \<longleftrightarrow> k = 0"
    proof
      assume "sn = head_seq_num t1"
      then show "k = 0" using off1 by (simp add: off_def seq_sub_def)
    next
      assume "k = 0"
      then have "(uint sn - uint (head_seq_num t1)) mod 4096 = 0" using off1 off_int[of t1 sn] by simp
      then have "uint sn mod 4096 = uint (head_seq_num t1) mod 4096"
        by (metis mod_eq_dvd_iff dvd_eq_mod_eq_0)
      moreover have "uint sn < 4096" "uint (head_seq_num t1) < 4096"
        using sn h1 by (simp_all add: word_less_def)
      ultimately show "sn = head_seq_num t1" by (simp add: word_uint_eq_iff)
    qed
    have st: "stored_mpdu_num t1 = 0 \<longleftrightarrow> n_stored (adv n (window t)) = 0"
      using stored_iff[OF a1(1)] a1(3) by (metis n_stored_rotate window_def)
    have run: "manage_reorder jif sn e skb s =
       (if reorder_buf t1 ! idx \<noteq> None then Some (True, free_skb skb (s\<lparr>tid_rx := t1, frames := fs1\<rparr>))
        else if sn = head_seq_num t1 \<and> stored_mpdu_num t1 = 0
        then Some (False, s\<lparr>tid_rx := inc_head t1, frames := fs1\<rparr>)
        else if e \<and> uint sn = uint (head_seq_num t1) + 1 \<and> stored_mpdu_num t1 = 0
        then Some (False, s\<lparr>tid_rx := inc_head t1, frames := fs1\<rparr>)
        else store_frame jif idx skb (s\<lparr>tid_rx := t1, frames := fs1\<rparr>))"
      using old False s1(1) idx L by (simp add: manage_reorder_def t_def[symmetric] Let_def)
    define w where "w = adv n (window t)"
    have w1: "window t1 = w" using a1(3) by (simp add: w_def)
    have spec: "reorder_spec ofs skb s ret s' \<longleftrightarrow>
     (if w ! k \<noteq> None then
        ret \<and> freed s' = freed s @ [skb] \<and> window (tid_rx s') = w \<and> head_plus t n (tid_rx s') \<and>
        frames s' = frames s @ map mark_deferred (adv_out n (window t))
      else if k = 0 \<and> n_stored w = 0 then
        \<not> ret \<and> freed s' = freed s \<and> window (tid_rx s') = adv 1 w \<and> head_plus t (n + 1) (tid_rx s') \<and>
        frames s' = frames s @ map mark_deferred (adv_out n (window t))
      else ret \<and> freed s' = freed s \<and> (\<exists>m\<le>B.
        window (tid_rx s') = adv m (w[k := Some skb]) \<and> head_plus t (n + m) (tid_rx s') \<and>
        frames s' = frames s @ map mark_deferred (adv_out n (window t))
          @ map mark_deferred (adv_out m (w[k := Some skb])) \<and>
        (k = 0 \<longrightarrow> m = length (takeWhile (\<lambda>x. x \<noteq> None) (w[k := Some skb])))))" for ret s'
      unfolding reorder_spec_def using False
      by (simp add: Let_def t_def[symmetric] B_def[symmetric] n_def[symmetric] w_def[symmetric]
          k_def[symmetric] del: not_None_eq)
    have eq1: "uint sn = uint (head_seq_num t1) + 1 \<longleftrightarrow> k = 1 \<and> uint (head_seq_num t1) < 4095"
    proof -
      have u: "uint sn < 4096" "uint (head_seq_num t1) < 4096" "0 \<le> uint sn" "0 \<le> uint (head_seq_num t1)"
        using sn h1 by (simp_all add: word_less_def)
      have "int k = (uint sn - uint (head_seq_num t1)) mod 4096" using off1 off_int[of t1 sn] by simp
      moreover have "int k = uint sn - uint (head_seq_num t1)" if "uint (head_seq_num t1) \<le> uint sn"
        using calculation that u by (simp add: mod_pos_pos_trivial)
      moreover have "int k = uint sn - uint (head_seq_num t1) + 4096" if "uint sn < uint (head_seq_num t1)"
        using calculation(1) that u mod_add_self2[of "uint sn - uint (head_seq_num t1)" 4096]
          mod_pos_pos_trivial[of "uint sn - uint (head_seq_num t1) + 4096" 4096] by linarith
      ultimately show ?thesis using u by linarith
    qed
    have byp: "eapol_bypass e ofs t \<longleftrightarrow> e \<and> uint sn = uint (head_seq_num t1) + 1 \<and> n_stored w = 0"
      using False nk a1(4) unfolding eq1
      by (auto simp: eapol_bypass_def Let_def B_def[symmetric] n_def[symmetric] w_def k_def head_plus_def)
    have lw: "length w = B" using window_length[OF a1(1)] a1(5) w1 by simp
    have inc: "window (inc_head t1) = adv 1 w" "session_ok (inc_head t1)" "head_plus t (n + 1) (inc_head t1)"
      if "w ! 0 = None"
    proof -
      have "w = w[0 := None]" using that list_update_id[of w 0] by simp
      moreover have "w \<noteq> []" using lw B by auto
      moreover have hi: "uint (seq_inc (head_seq_num t1)) = (uint (head_seq_num t1) + int 1) mod 4096"
        by (simp add: uint_seq_inc)
      ultimately show "window (inc_head t1) = adv 1 w"
        using window_head[OF a1(2,1) hi] rotate1_adv[of w] w1 by (simp add: inc_head_def)
      show "session_ok (inc_head t1)"
        using ok1 seq_inc_lt by (simp add: session_ok_def reorder_wf_def size_ok_def inc_head_def)
      show "head_plus t (n + 1) (inc_head t1)"
        by (rule head_plus_trans[OF a1(4) head_plus_1]) (simp add: inc_head_def)
    qed
    consider (bypass) "e" "uint sn = uint (head_seq_num t1) + 1" "n_stored w = 0" | (dup) "w ! k \<noteq> None"
      | (direct) "w ! k = None" "k = 0" "n_stored w = 0"
      | (store) "w ! k = None" "\<not> (k = 0 \<and> n_stored w = 0)"
        "\<not> (e \<and> uint sn = uint (head_seq_num t1) + 1 \<and> n_stored w = 0)" by metis
    then have "\<exists>ret s'. manage_reorder jif sn e skb s = Some (ret, s') \<and> session_ok (tid_rx s') \<and>
       reorder_any_spec e ofs skb s ret s'"
    proof cases
      case bypass
      then have n: "w ! 0 = None" "w ! k = None" "eapol_bypass e ofs t"
        using n_stored_all_None[of w] lw nk B byp by auto
      have "manage_reorder jif sn e skb s = Some (False, s\<lparr>tid_rx := inc_head t1, frames := fs1\<rparr>)"
        using run bypass n wk w1 st by (simp add: w_def)
      then show ?thesis using inc n a1(6)
        by (intro exI[of _ False] exI[of _ "s\<lparr>tid_rx := inc_head t1, frames := fs1\<rparr>"])
          (simp add: reorder_any_spec_def t_def[symmetric] B_def[symmetric] n_def[symmetric] w_def[symmetric])
    next
      case dup
      then have "\<not> eapol_bypass e ofs t" using n_stored_all_None[of w k] lw nk byp by auto
      with dup show ?thesis using run wk w1 a1(4,6) ok1
        by (intro exI[of _ True] exI[of _ "free_skb skb (s\<lparr>tid_rx := t1, frames := fs1\<rparr>)"])
          (simp add: reorder_any_spec_def t_def[symmetric] spec free_skb_def del: not_None_eq)
    next
      case direct
      then have ne: "\<not> eapol_bypass e ofs t" using byp unfolding eq1 by simp
      have "manage_reorder jif sn e skb s = Some (False, s\<lparr>tid_rx := inc_head t1, frames := fs1\<rparr>)"
        using run direct wk w1 eq0 st by (simp add: w_def)
      then show ?thesis using inc direct a1(6) ne
        by (intro exI[of _ False] exI[of _ "s\<lparr>tid_rx := inc_head t1, frames := fs1\<rparr>"])
          (simp add: reorder_any_spec_def t_def[symmetric] spec)
    next
      case store
      have "manage_reorder jif sn e skb s = store_frame jif idx skb (s\<lparr>tid_rx := t1, frames := fs1\<rparr>)"
        using run store wk w1 eq0 st by (auto simp: w_def)
      moreover obtain s' m where "store_frame jif idx skb (s\<lparr>tid_rx := t1, frames := fs1\<rparr>) = Some (True, s')"
        "freed s' = freed s" "session_ok (tid_rx s')" "m \<le> B"
        "window (tid_rx s') = adv m (w[k := Some skb])" "head_plus t1 m (tid_rx s')"
        "frames s' = fs1 @ map mark_deferred (adv_out m (w[k := Some skb]))"
        "k = 0 \<longrightarrow> m = length (takeWhile (\<lambda>x. x \<noteq> None) (w[k := Some skb]))"
        using store_frame_ok[OF ok1, of "s\<lparr>tid_rx := t1, frames := fs1\<rparr>" k idx jif skb] nk a1(5) store(1) w1
        by (auto simp: idx_def)
      moreover note head_plus_trans[OF a1(4) this(6)]
      moreover have "\<not> eapol_bypass e ofs t" using store byp by simp
      ultimately show ?thesis using store a1(6)
        by (intro exI[of _ True] exI[of _ s'])
          (auto simp: reorder_any_spec_def t_def[symmetric] spec simp del: not_None_eq)
    qed
    then show ?thesis by (simp add: ofs_def t_def)
  qed
qed

lemma manage_reorder_spec:
  assumes "session_ok (tid_rx s)" "sn < 4096"
  shows "\<exists>ret s'. manage_reorder jif sn False skb s = Some (ret, s') \<and> session_ok (tid_rx s') \<and>
     reorder_spec (off (tid_rx s) sn) skb s ret s'"
  using manage_reorder_any_spec[OF assms, of jif False skb] by simp

subsection \<open>Sequence numbers in the window\<close>

definition sn_of :: "sk_buff \<Rightarrow> u16" where
  "sn_of skb = drop_bit 4 (the (skb_rd16 skb 22) AND IEEE80211_SCTL_SEQ)"

text \<open>The frame in window slot k has the sequence number head + k.\<close>

definition seq_inv :: "tid_ampdu_rx \<Rightarrow> bool" where
  "seq_inv t \<longleftrightarrow> (\<forall>k < length (window t). \<forall>f. window t ! k = Some f \<longrightarrow> off t (sn_of f) = k)"

lemma sn_of_mark [simp]: "sn_of (mark_deferred f) = sn_of f"
  by (simp add: sn_of_def mark_deferred_def skb_rd16_def)

lemma cat_some_sorted:
  assumes "\<forall>i < length w. \<forall>f. w ! i = Some f \<longrightarrow> g f = c + i"
  shows "sorted_wrt (<) (map g (cat_some w)) \<and> (\<forall>f\<in>set (cat_some w). c \<le> g f \<and> g f < c + length w)"
  using assms
proof (induction w arbitrary: c rule: cat_some.induct)
  case (2 xs)
  have "sorted_wrt (<) (map g (cat_some xs)) \<and>
      (\<forall>f\<in>set (cat_some xs). Suc c \<le> g f \<and> g f < Suc c + length xs)"
    by (rule "2.IH") (use "2.prems" in fastforce)
  then show ?case by fastforce
next
  case (3 x xs)
  have "sorted_wrt (<) (map g (cat_some xs)) \<and>
      (\<forall>f\<in>set (cat_some xs). Suc c \<le> g f \<and> g f < Suc c + length xs)"
    by (rule "3.IH") (use "3.prems" in fastforce)
  moreover have "g x = c" using "3.prems" by fastforce
  ultimately show ?case by fastforce
qed simp

text \<open>Distances from the head before and after it moved.\<close>

lemma mod_off: "(s - h) mod m = ((s - (h + n) mod m) mod m + n) mod (m::int)"
  by (simp add: mod_simps)

lemma mod_off': "(s - (h + n) mod m) mod m = ((s - h) mod m - n) mod (m::int)"
  by (simp add: mod_simps algebra_simps)

lemma off_head_plus:
  assumes "head_plus t n t'" "off t' sn + n < 4096"
  shows "off t sn = n + off t' sn"
proof -
  have "int (off t sn) = (uint sn - uint (head_seq_num t)) mod 4096" by (rule off_int)
  also have "\<dots> = ((uint sn - uint (head_seq_num t')) mod 4096 + int n) mod 4096"
    unfolding assms(1)[unfolded head_plus_def] by (rule mod_off)
  also have "\<dots> = (int (off t' sn) + int n) mod 4096" by (simp add: off_int)
  also have "\<dots> = int (off t' sn) + int n" using assms(2) by simp
  finally show ?thesis by simp
qed

lemma off_head_plus_rev:
  assumes "head_plus t n t'" "n \<le> off t sn"
  shows "off t' sn = off t sn - n"
proof -
  have lt: "off t sn < 4096"
    using seq_inc_lt off_int[of t sn] by (metis of_nat_less_numeral_iff pos_mod_bound zero_less_numeral)
  have "int (off t' sn) = (uint sn - uint (head_seq_num t')) mod 4096" by (rule off_int)
  also have "\<dots> = ((uint sn - uint (head_seq_num t)) mod 4096 - int n) mod 4096"
    unfolding assms(1)[unfolded head_plus_def] by (rule mod_off')
  also have "\<dots> = (int (off t sn) - int n) mod 4096" by (simp add: off_int)
  also have "\<dots> = int (off t sn - n)" using assms(2) lt by (simp add: of_nat_diff)
  finally show ?thesis by simp
qed

lemma adv_nth:
  "k < length w \<Longrightarrow> adv n w ! k = (if n + k < length w then w ! (n + k) else None)"
  by (auto simp: adv_def nth_append intro!: nth_replicate)

text \<open>Advancing keeps the invariant and delivers in order.\<close>

definition numbered :: "tid_ampdu_rx \<Rightarrow> nat \<Rightarrow> sk_buff option list \<Rightarrow> bool" where
  "numbered t c w \<longleftrightarrow> (\<forall>k < length w. \<forall>f. w ! k = Some f \<longrightarrow> off t (sn_of f) = c + k)"

lemma numbered_adv: "numbered t c w \<Longrightarrow> numbered t (c + n) (adv n w)"
  by (auto simp: numbered_def adv_nth split: if_splits)

lemma numbered_update:
  "numbered t c w \<Longrightarrow> off t (sn_of f) = c + k \<Longrightarrow> numbered t c (w[k := Some f])"
  by (auto simp: numbered_def) (metis nth_list_update_eq nth_list_update_neq option.inject)

lemma adv_out_order:
  assumes "numbered t c w"
  shows "sorted_wrt (<) (map (\<lambda>f. off t (sn_of f)) (adv_out n w))"
    and "\<forall>f\<in>set (adv_out n w). c \<le> off t (sn_of f) \<and> off t (sn_of f) < c + n"
proof -
  have "\<forall>i < length (take n w). \<forall>f. take n w ! i = Some f \<longrightarrow> off t (sn_of f) = c + i"
    using assms by (auto simp: numbered_def)
  from cat_some_sorted[OF this]
  show "sorted_wrt (<) (map (\<lambda>f. off t (sn_of f)) (adv_out n w))"
    "\<forall>f\<in>set (adv_out n w). c \<le> off t (sn_of f) \<and> off t (sn_of f) < c + n"
    by (auto simp: adv_out_def)
qed

lemma numbered_seq_inv:
  assumes "numbered t c (window t')" "head_plus t c t'"
  shows "seq_inv t'"
  unfolding seq_inv_def
proof (intro allI impI)
  fix k f assume "k < length (window t')" "window t' ! k = Some f"
  then have "off t (sn_of f) = c + k" using assms(1) by (simp add: numbered_def)
  then show "off t' (sn_of f) = k" using off_head_plus_rev[OF assms(2), of "sn_of f"] by simp
qed

lemma seq_inv_numbered: "seq_inv t \<longleftrightarrow> numbered t 0 (window t)"
  by (simp add: seq_inv_def numbered_def)

end
