(* ===== verification/Reorder_Props.thy ===== *)
theory Reorder_Props
  imports Reorder_Window
begin

text \<open>The properties of the reorder buffer, with the two inputs on which it goes wrong.\<close>

lemma reorder_spec_unfold:
  assumes "n = reorder_shift (unat (buf_size (tid_rx s))) ofs" "w = adv n (window (tid_rx s))" "k = ofs - n"
    "t = tid_rx s" "ofs \<le> 2048"
  shows "reorder_spec ofs skb s ret s' \<longleftrightarrow>
     (if w ! k \<noteq> None then
        ret \<and> freed s' = freed s @ [skb] \<and> window (tid_rx s') = w \<and> head_plus t n (tid_rx s') \<and>
        frames s' = frames s @ map mark_deferred (adv_out n (window t))
      else if k = 0 \<and> n_stored w = 0 then
        \<not> ret \<and> freed s' = freed s \<and> window (tid_rx s') = adv 1 w \<and> head_plus t (n + 1) (tid_rx s') \<and>
        frames s' = frames s @ map mark_deferred (adv_out n (window t))
      else ret \<and> freed s' = freed s \<and> (\<exists>m\<le>unat (buf_size t).
        window (tid_rx s') = adv m (w[k := Some skb]) \<and> head_plus t (n + m) (tid_rx s') \<and>
        frames s' = frames s @ map mark_deferred (adv_out n (window t))
          @ map mark_deferred (adv_out m (w[k := Some skb])) \<and>
        (k = 0 \<longrightarrow> m = length (takeWhile (\<lambda>x. x \<noteq> None) (w[k := Some skb])))))"
  using assms(5) unfolding reorder_spec_def Let_def assms(1-4) by (simp only: not_less[symmetric] if_False simp_thms)

lemma sn_lt: "sn_of skb < 4096"
proof -
  have "drop_bit 4 (x AND 0xFFF0) = drop_bit 4 x AND 0xFFF" for x :: u16
    by (rule bit_word_eqI) (auto simp: bit_simps)
  then have "uint (drop_bit 4 (x AND 0xFFF0) :: u16) < 4096" for x :: u16
    by (simp only: uint_and_mask12)
  then have "drop_bit 4 (x AND 0xFFF0 :: u16) < 4096" for x :: u16 by (simp only: word_less_def) simp
  then show ?thesis by (simp only: sn_of_def)
qed

text \<open>What ieee80211_sta_manage_reorder_buf reads of a frame before it decides.\<close>

definition eapol_flag :: "sk_buff \<Rightarrow> bool option" where
  "eapol_flag skb = do { fc \<leftarrow> skb_fc skb;
     if ieee80211_is_data fc then ieee80211_frame_eapol skb (skb_len skb) else Some False }"

lemma adapt_timeout_same [simp]:
  "tid_rx (adapt_timeout l s) = tid_rx s" "frames (adapt_timeout l s) = frames s"
  "freed (adapt_timeout l s) = freed s" "timers (adapt_timeout l s) = timers s"
  by (simp_all add: adapt_timeout_def Let_def)

lemma manage_buf_eq:
  assumes "eapol_flag skb = Some e" "skb_rd16 skb 22 \<noteq> None"
  shows "ieee80211_sta_manage_reorder_buf jif skb s
       = manage_reorder jif (sn_of skb) e skb (adapt_timeout (skb_len skb) s)"
  using assms by (auto simp: ieee80211_sta_manage_reorder_buf_def eapol_flag_def sn_of_def Let_def
      split: Option.bind_splits if_splits)

lemma in_order_lemma:
  assumes ok: "session_ok (tid_rx s)" "seq_inv (tid_rx s)"
    and run: "manage_reorder jif (sn_of skb) False skb s = Some (ret, s')"
  shows "seq_inv (tid_rx s') \<and>
     (\<exists>n out. head_plus (tid_rx s) n (tid_rx s') \<and> frames s' = frames s @ out \<and>
        sorted_wrt (<) (map (\<lambda>f. off (tid_rx s) (sn_of f)) (out @ (if ret then [] else [skb]))) \<and>
        (\<forall>f\<in>set (out @ (if ret then [] else [skb])). off (tid_rx s) (sn_of f) < n))"
proof -
  define t where "t = tid_rx s"
  define ofs where "ofs = off t (sn_of skb)"
  define n where "n = reorder_shift (unat (buf_size t)) ofs"
  define w where "w = adv n (window t)"
  define k where "k = ofs - n"
  have spec: "reorder_spec ofs skb s ret s'" and ok': "session_ok (tid_rx s')"
    using manage_reorder_spec[OF ok(1) sn_lt, of jif skb skb] run by (auto simp: ofs_def t_def)
  have n0: "numbered t 0 (window t)" using ok(2) by (simp add: seq_inv_numbered t_def)
  then have nw: "numbered t n w" using numbered_adv[OF n0, of n] by (simp add: w_def)
  note O = adv_out_order[OF n0, of n]
  have nn: "n \<le> ofs" using ok(1) by (auto simp: n_def reorder_shift_def session_ok_def t_def word_le_nat_alt)
  note spec' = reorder_spec_unfold[OF n_def[unfolded t_def] w_def[unfolded t_def] k_def t_def, THEN iffD1, OF _ spec]
  consider (old) "ofs > 2048" | (dup) "ofs \<le> 2048" "w ! k \<noteq> None"
    | (direct) "ofs \<le> 2048" "w ! k = None" "k = 0" "n_stored w = 0"
    | (store) "ofs \<le> 2048" "w ! k = None" "\<not> (k = 0 \<and> n_stored w = 0)"
    by (metis not_less)
  then show ?thesis
  proof cases
    case old
    then have "ret" "s' = free_skb skb s" using spec by (auto simp: reorder_spec_def Let_def)
    then show ?thesis using ok head_plus_0[of t] by (auto simp: free_skb_def t_def session_ok_def)
  next
    case dup
    then have r: "ret" "window (tid_rx s') = w" "head_plus t n (tid_rx s')"
      "frames s' = frames s @ map mark_deferred (adv_out n (window t))"
      using spec' dup by (auto simp del: not_None_eq)
    have "seq_inv (tid_rx s')" by (rule numbered_seq_inv[of t n]) (use r nw in auto)
    then show ?thesis using r O by (force simp: t_def comp_def)
  next
    case direct
    then have r: "\<not> ret" "window (tid_rx s') = adv 1 w" "head_plus t (n + 1) (tid_rx s')"
      "frames s' = frames s @ map mark_deferred (adv_out n (window t))"
      using spec' direct by (auto simp del: not_None_eq)
    have "seq_inv (tid_rx s')"
      by (rule numbered_seq_inv[of t "n + 1"]) (use r numbered_adv[OF nw, of 1] in auto)
    moreover have "off t (sn_of skb) = n" using direct nn by (simp add: k_def ofs_def)
    ultimately show ?thesis using r O
      by (force simp: t_def[symmetric] comp_def sorted_wrt_append)
  next
    case store
    then obtain m where r: "ret" "window (tid_rx s') = adv m (w[k := Some skb])"
      "head_plus t (n + m) (tid_rx s')"
      "frames s' = frames s @ map mark_deferred (adv_out n (window t))
         @ map mark_deferred (adv_out m (w[k := Some skb]))"
      using spec' store by (auto simp del: not_None_eq split: if_splits)
    have nw2: "numbered t n (w[k := Some skb])"
      by (rule numbered_update[OF nw]) (use nn in \<open>simp add: k_def ofs_def\<close>)
    note O2 = adv_out_order[OF nw2, of m]
    have "seq_inv (tid_rx s')"
      by (rule numbered_seq_inv[of t "n + m"]) (use r numbered_adv[OF nw2, of m] in auto)
    then show ?thesis using r O O2
      by (intro conjI exI[of _ "n + m"] exI[of _ "map mark_deferred (adv_out n (window t))
         @ map mark_deferred (adv_out m (w[k := Some skb]))"])
        (force simp: t_def[symmetric] comp_def sorted_wrt_append)+
  qed
qed

lemma off_lt: "off t sn < 4096"
  using off_int[of t sn] pos_mod_bound[of 4096 "uint sn - uint (head_seq_num t)"] by linarith

text \<open>C1. The reorder buffer is a sliding window.  For a session whose window has 2 to 64 slots and a size
  that divides 4096 (the code accepts other sizes, whose slots collide: reorder_slots_distinct_iff),
  and for every frame that can be read, the routine returns, keeps the session well formed, and does
  what reorder_any_spec says.  A frame more than 2048 behind the head is freed; otherwise the window
  first slides until the frame is inside; then the frame is freed when its slot is taken, handed to
  the caller when it is next and nothing is stored, and stored otherwise, and the run of frames at
  the head is delivered.  The one exception is spelled out too: an EAPOL frame exactly one beyond the
  head, with nothing stored, is handed to the caller and the head moves onto its number.\<close>
theorem reorder_window_spec:
  assumes "session_ok (tid_rx s)" "eapol_flag skb = Some e" "skb_rd16 skb 22 \<noteq> None"
  shows "\<exists>ret s'. ieee80211_sta_manage_reorder_buf jif skb s = Some (ret, s') \<and> session_ok (tid_rx s') \<and>
     reorder_any_spec e (off (tid_rx s) (sn_of skb)) skb (adapt_timeout (skb_len skb) s) ret s'"
  using manage_reorder_any_spec[of "adapt_timeout (skb_len skb) s" "sn_of skb" jif e skb] assms sn_lt
  by (simp add: manage_buf_eq del: not_None_eq)

text \<open>C10. In-order delivery.  For a session whose window size divides 4096 and a frame that is not an
  EAPOL frame, a call of ieee80211_sta_manage_reorder_buf delivers frames (those it queues, and then
  the frame itself when the caller keeps it) in strictly increasing order of their distance from the
  old head, all of them before the new head; so nothing delivered later can precede them.  Every
  stored frame sits at its own distance from the head.  Both conditions are needed: an EAPOL frame
  may overtake its predecessor (eapol_fast_path), and with a window of 48 slots a fresh frame is taken
  for a duplicate (reorder_drops_fresh_frame).\<close>
theorem reorder_in_order:
  assumes ok: "session_ok (tid_rx s)" "seq_inv (tid_rx s)"
    and fr: "eapol_flag skb = Some False" "skb_rd16 skb 22 \<noteq> None"
    and run: "ieee80211_sta_manage_reorder_buf jif skb s = Some (ret, s')"
  shows "seq_inv (tid_rx s') \<and>
     (\<exists>n out. head_plus (tid_rx s) n (tid_rx s') \<and> frames s' = frames s @ out \<and>
        sorted_wrt (<) (map (\<lambda>f. off (tid_rx s) (sn_of f)) (out @ (if ret then [] else [skb]))) \<and>
        (\<forall>f\<in>set (out @ (if ret then [] else [skb])). off (tid_rx s) (sn_of f) < n))"
  using in_order_lemma[of "adapt_timeout (skb_len skb) s" jif skb ret s'] assms
  by (simp add: manage_buf_eq del: not_None_eq)

text \<open>C38. While frames are stored the release timer runs: every call of ieee80211_sta_reorder_release on a
  well-formed session returns, advances the window by at most its size, and ends with a call that
  deletes the timer exactly when no frame is left.\<close>
theorem reorder_timer_armed:
  assumes "reorder_wf t" "size_ok t"
  shows "\<exists>t' fs' n c. ieee80211_sta_reorder_release jif tmo (t, fs) = Some ((t', fs'), c) \<and>
     advanced n (t, fs) (t', fs') \<and> n \<le> unat (buf_size t) \<and>
     (c = Del_reorder_timer \<longleftrightarrow> stored_mpdu_num t' = 0)"
  using sta_reorder_release_ok[OF assms, of jif tmo fs] by force

subsection \<open>A concrete session\<close>

definition demo_frame :: "u16 \<Rightarrow> sk_buff" where
  "demo_frame sn = mk_skb (unat sn) []
     ([0x88, 0] @ replicate 20 0 @ bytes16 (push_bit 4 sn) @ [0, 0]) []"

definition demo_session :: "u16 \<Rightarrow> u16 \<Rightarrow> u16 \<Rightarrow> (sk_buff option list) \<Rightarrow> reorder_state" where
  "demo_session b s0 h slots =
     \<lparr>tid_rx = \<lparr>reorder_buf = slots, reorder_time = replicate (unat b) 0, head_seq_num = h,
        stored_mpdu_num = of_nat (n_stored slots), ssn = s0, buf_size = b, timeout = 0, dialog_token = 0\<rparr>,
      frames = [], freed = [], timers = [], HT_RX_REORDER_BUF_TIMEOUT = 100, Sta_shortTcp_RxCnt = 0\<rparr>"

lemma seq_inv_code [code]:
  "seq_inv t \<longleftrightarrow> (\<forall>k\<in>set [0..<length (window t)].
     case window t ! k of None \<Rightarrow> True | Some f \<Rightarrow> off t (sn_of f) = k)"
  by (auto simp: seq_inv_def split: option.splits)

abbreviation "demo \<equiv> demo_session 4 0 0 [None, Some (demo_frame 1), None, None]"

lemma demo_ok:
  "session_ok (tid_rx demo)" "seq_inv (tid_rx demo)"
  "eapol_flag (demo_frame 0) = Some False" "skb_rd16 (demo_frame 0) 22 \<noteq> None"
  by code_simp+

lemma demo_run: "map_option fst (ieee80211_sta_manage_reorder_buf 0 (demo_frame 0) demo) = Some True"
  "map_option (\<lambda>(r, s). map sn_of (frames s)) (ieee80211_sta_manage_reorder_buf 0 (demo_frame 0) demo) = Some [0, 1]"
  by code_simp+

theorem reorder_window_spec_witness:
  "\<exists>ret s'. ieee80211_sta_manage_reorder_buf 0 (demo_frame 0) demo = Some (ret, s') \<and> session_ok (tid_rx s') \<and>
     reorder_any_spec False (off (tid_rx demo) (sn_of (demo_frame 0))) (demo_frame 0)
       (adapt_timeout (skb_len (demo_frame 0)) demo) ret s' \<and> ret \<and> map sn_of (frames s') = [0, 1]"
proof -
  obtain ret s' where r: "ieee80211_sta_manage_reorder_buf 0 (demo_frame 0) demo = Some (ret, s')"
    "session_ok (tid_rx s')" "reorder_any_spec False (off (tid_rx demo) (sn_of (demo_frame 0))) (demo_frame 0)
       (adapt_timeout (skb_len (demo_frame 0)) demo) ret s'"
    using reorder_window_spec[OF demo_ok(1,3,4)] by blast
  then show ?thesis using demo_run by auto
qed

theorem reorder_in_order_witness:
  "\<exists>ret s'. ieee80211_sta_manage_reorder_buf 0 (demo_frame 0) demo = Some (ret, s') \<and> seq_inv (tid_rx s') \<and>
     map sn_of (frames s') = [0, 1]"
proof -
  obtain ret s' where r: "ieee80211_sta_manage_reorder_buf 0 (demo_frame 0) demo = Some (ret, s')"
    using demo_run(1) by auto
  then show ?thesis using reorder_in_order[OF demo_ok r] demo_run by auto
qed

theorem reorder_timer_armed_witness:
  "\<exists>t' fs' n c. ieee80211_sta_reorder_release 0 100 (tid_rx demo, []) = Some ((t', fs'), c) \<and>
     (c = Del_reorder_timer \<longleftrightarrow> stored_mpdu_num t' = 0) \<and> stored_mpdu_num t' = 1"
proof -
  have ok: "reorder_wf (tid_rx demo)" "size_ok (tid_rx demo)"
    using demo_ok(1) unfolding session_ok_def by blast+
  have "map_option (\<lambda>((t, fs), c). stored_mpdu_num t) (ieee80211_sta_reorder_release 0 100 (tid_rx demo, []))
      = Some 1" by code_simp
  then show ?thesis using reorder_timer_armed[OF ok, of 0 100 "[]"] by auto
qed

subsection \<open>Where the reorder buffer goes wrong\<close>

text \<open>C39. The fast path for EAPOL frames moves the head by one where the frame it delivers is one beyond
  the head.  An EAPOL frame with the number after the head, arriving while nothing is stored, is
  handed up; when the sender repeats it, it is handed up again; and the frame it overtook, which was
  never received, is freed as old when it arrives.\<close>
theorem eapol_fast_path:
  assumes ok: "session_ok (tid_rx s)" "stored_mpdu_num (tid_rx s) = 0"
    and e: "eapol_flag skb = Some True" "skb_rd16 skb 22 \<noteq> None"
      "uint (sn_of skb) = uint (head_seq_num (tid_rx s)) + 1"
    and f: "eapol_flag f = Some False" "skb_rd16 f 22 \<noteq> None" "sn_of f = head_seq_num (tid_rx s)"
  shows "\<exists>s1 s2 s3. ieee80211_sta_manage_reorder_buf jif skb s = Some (False, s1) \<and>
     ieee80211_sta_manage_reorder_buf jif skb s1 = Some (False, s2) \<and>
     ieee80211_sta_manage_reorder_buf jif f s1 = Some (True, s3) \<and> freed s3 = freed s @ [f] \<and> frames s3 = frames s"
proof -
  define t where "t = tid_rx s"
  define h where "h = head_seq_num t"
  define sn where "sn = sn_of skb"
  have wf: "reorder_wf t" "size_ok t" and b: "2 \<le> buf_size t" "buf_size t \<le> 64"
    using ok(1) by (auto simp: session_ok_def t_def)
  have ub: "2 \<le> uint (buf_size t)" "uint (buf_size t) \<le> 64" using b by (auto simp: word_le_def)
  have u: "0 \<le> uint h" "uint sn = uint h + 1" "uint sn < 4096"
    using e(3) sn_lt[of skb] by (auto simp: h_def t_def sn_def word_less_def)
  have hb: "uint (h + buf_size t) = uint h + uint (buf_size t)"
    using ub u by (simp add: uint_word_ariths)
  have inc: "seq_inc h = sn" using u by (simp add: word_uint_eq_iff uint_seq_inc)
  have less: "\<not> seq_less sn h" "seq_less sn (h + buf_size t)" "\<not> seq_less sn sn" "seq_less h sn"
    "seq_less sn (sn + buf_size t)"
  proof -
    show "\<not> seq_less sn h" "\<not> seq_less sn sn" using u by (simp_all add: seq_less_iff)
    show "seq_less h sn" using u by (simp add: seq_less_iff)
    have "(uint sn - (uint h + uint (buf_size t))) mod 4096 = 4097 - uint (buf_size t)"
      using ub u mod_neg_wrap[of 4096 "1 - uint (buf_size t)"] by simp
    then show "seq_less sn (h + buf_size t)" using ub by (simp add: seq_less_iff hb)
    have "uint (sn + buf_size t) = uint sn + uint (buf_size t)"
      using ub u by (simp add: uint_word_ariths)
    then show "seq_less sn (sn + buf_size t)"
      using ub mod_neg_wrap[of 4096 "- uint (buf_size t)"] by (simp add: seq_less_iff)
  qed
  have st: "set (reorder_buf t) \<subseteq> {None}"
    using stored_iff[OF wf(1)] ok(2) by (simp add: t_def n_stored_0)
  define idx where "idx = unat (seq_sub sn (ssn t)) mod unat (buf_size t)"
  have B: "0 < unat (buf_size t)" using b by (simp add: word_le_nat_alt)
  have slot: "slot_of t' sn = Some idx" "idx < length (reorder_buf t)" "reorder_buf t ! idx = None"
    if "ssn t' = ssn t" "buf_size t' = buf_size t" for t'
  proof -
    show "slot_of t' sn = Some idx" using b that by (auto simp: slot_of_def idx_def)
    show i: "idx < length (reorder_buf t)" using wf B by (simp add: reorder_wf_def idx_def)
    then show "reorder_buf t ! idx = None" using st nth_mem by fastforce
  qed
  define s0 where "s0 = adapt_timeout (skb_len skb) s"
  define s1 where "s1 = s0\<lparr>tid_rx := inc_head t\<rparr>"
  have s0: "tid_rx s0 = t" "frames s0 = frames s" "freed s0 = freed s" by (simp_all add: s0_def t_def)
  have ne: "sn \<noteq> h" using u by (auto simp: word_uint_eq_iff)
  have r1: "ieee80211_sta_manage_reorder_buf jif skb s = Some (False, s1)"
    using manage_buf_eq[OF e(1,2), of jif s] less slot[of t] ne u ok(2)
    by (simp add: manage_reorder_def s0_def[symmetric] s0 Let_def sn_def[symmetric] h_def[symmetric] t_def[symmetric] s1_def)
  define s1' where "s1' = adapt_timeout (skb_len skb) s1"
  have t1: "tid_rx s1' = inc_head t" "tid_rx s1 = inc_head t" by (simp_all add: s1'_def s1_def)
  have hh: "head_seq_num (inc_head t) = sn" "reorder_buf (inc_head t) = reorder_buf t"
    "stored_mpdu_num (inc_head t) = 0" "ssn (inc_head t) = ssn t" "buf_size (inc_head t) = buf_size t"
    using inc ok(2) by (simp_all add: inc_head_def h_def t_def)
  have "\<exists>s2. ieee80211_sta_manage_reorder_buf jif skb s1 = Some (False, s2)"
    using manage_buf_eq[OF e(1,2), of jif s1] less slot[of "inc_head t"]
    by (simp add: manage_reorder_def s1'_def[symmetric] t1 hh Let_def sn_def[symmetric])
  moreover have "ieee80211_sta_manage_reorder_buf jif f s1 = Some (True, free_skb f (adapt_timeout (skb_len f) s1))"
    using manage_buf_eq[OF f(1,2), of jif s1] less f(3)
    by (simp add: manage_reorder_def t1 hh Let_def h_def[symmetric] t_def[symmetric])
  ultimately show ?thesis using r1 s0 by (auto simp: free_skb_def s1_def)
qed

definition window_slots :: "tid_ampdu_rx \<Rightarrow> nat option list" where
  "window_slots t = map (\<lambda>i. slot_of t ((head_seq_num t + of_nat i) AND SEQ_MASK)) [0..<unat (buf_size t)]"

definition slots_distinct :: "u16 \<Rightarrow> bool" where
  "slots_distinct b \<longleftrightarrow> (\<forall>t. buf_size t = b \<longrightarrow> distinct (window_slots t))"

lemma slots_distinct_if:
  assumes "1 \<le> b" "b \<le> 64" and dvd: "unat b dvd 4096"
  shows "slots_distinct b"
  unfolding slots_distinct_def window_slots_def distinct_conv_nth
proof (intro allI impI)
  fix t i k
  assume t: "buf_size t = b" and ik: "i < length (map (\<lambda>i. slot_of t ((head_seq_num t + of_nat i) AND SEQ_MASK)) [0..<unat (buf_size t)])"
    "k < length (map (\<lambda>i. slot_of t ((head_seq_num t + of_nat i) AND SEQ_MASK)) [0..<unat (buf_size t)])" "i \<noteq> k"
  have b64: "unat b \<le> 64" "0 < unat b" using assms by (simp_all add: word_le_nat_alt)
  have s: "slot_of t ((head_seq_num t + of_nat j) AND SEQ_MASK) = Some ((head_slot t + j) mod unat b)"
    if "j < unat b" for j
  proof -
    have "uint (of_nat j :: u16) = int j" using that b64 by (simp add: uint_nat unat_of_nat)
    then have "uint ((head_seq_num t + of_nat j) AND SEQ_MASK) = (uint (head_seq_num t) + int j) mod 4096"
      by (simp only: uint_and_mask12 uint_word_ariths) (simp add: mod_mod_cancel)
    from slot_shift[OF _ this] show ?thesis using dvd t b64
      by (auto simp: size_ok_def slot_of_def)
  qed
  show "map (\<lambda>i. slot_of t ((head_seq_num t + of_nat i) AND SEQ_MASK)) [0..<unat (buf_size t)] ! i
    \<noteq> map (\<lambda>i. slot_of t ((head_seq_num t + of_nat i) AND SEQ_MASK)) [0..<unat (buf_size t)] ! k"
    using ik t s[of i] s[of k] add_mod_inj[of i "unat b" k "head_slot t"] by auto
qed

lemma slots_distinct_only_if:
  assumes "1 \<le> b" "b \<le> 64" and d: "slots_distinct b"
  shows "unat b dvd 4096"
proof (rule ccontr)
  assume nd: "\<not> unat b dvd 4096"
  define B where "B = unat b"
  define r where "r = 4096 mod B"
  have B: "0 < B" "B \<le> 64" using assms by (simp_all add: word_le_nat_alt B_def)
  have r: "0 < r" "r < B" using nd B by (auto simp: r_def B_def dvd_eq_mod_eq_0)
  define t where "t = tid_rx (demo_session b 0 4095 [])"
  have t: "buf_size t = b" "ssn t = 0" "head_seq_num t = 4095" by (simp_all add: t_def demo_session_def)
  have u: "unat ((4095 + of_nat j :: u16) AND SEQ_MASK) = (4095 + j) mod 4096" if "j < B" for j
  proof -
    have "uint (of_nat j :: u16) = int j" using that B by (simp add: uint_nat unat_of_nat)
    then have "uint ((4095 + of_nat j :: u16) AND SEQ_MASK) = (4095 + int j) mod 4096"
      by (simp only: uint_and_mask12 uint_word_ariths) (simp add: mod_mod_cancel)
    then have "int (unat ((4095 + of_nat j :: u16) AND SEQ_MASK)) = int ((4095 + j) mod 4096)"
      by (simp add: zmod_int)
    then show ?thesis by linarith
  qed
  have ss: "unat (seq_sub x 0) = unat x mod 4096" for x
  proof -
    have "int (unat (seq_sub x 0)) = int (unat x mod 4096)" by (simp add: uint_seq_sub zmod_int)
    then show ?thesis by linarith
  qed
  have s: "slot_of t ((head_seq_num t + of_nat j) AND SEQ_MASK) = Some ((4095 + j) mod 4096 mod B)"
    if "j < B" for j using B u[OF that] t by (auto simp: slot_of_def ss B_def)
  have "4095 mod B = r - 1"
  proof -
    have "4096 = 4096 div B * B + r" by (simp add: r_def)
    then have "4095 = 4096 div B * B + (r - 1)" using r by linarith
    then have "4095 mod B = (r - 1) mod B" by (metis mod_mult_self3 )
    then show ?thesis using r by simp
  qed
  moreover have "(4095 + r) mod 4096 mod B = r - 1"
  proof -
    have "4095 + r = r - 1 + 4096" using r by simp
    then have "(4095 + r) mod 4096 = (r - 1) mod 4096" by (metis mod_add_self2)
    also have "\<dots> = r - 1" using r B by (intro mod_less) simp
    finally have "(4095 + r) mod 4096 = r - 1" .
    then show ?thesis using r by simp
  qed
  ultimately have eq: "window_slots t ! 0 = window_slots t ! r"
    using r B s[of 0] s[of r] t by (simp add: window_slots_def B_def)
  have "distinct (window_slots t)" using d t by (auto simp: slots_distinct_def)
  moreover have "length (window_slots t) = B" by (simp add: window_slots_def t B_def)
  ultimately show False using eq r nth_eq_iff_index_eq[of "window_slots t" 0 r] by simp
qed

text \<open>The slot of a sequence number is taken modulo the window size after the reduction modulo 4096,
  so the slots of one window are pairwise different for every position of the head exactly when the
  size negotiated by the peer divides 4096.  The code accepts every size up to 64.\<close>
theorem reorder_slots_distinct_iff:
  assumes "1 \<le> b" "b \<le> 64"
  shows "slots_distinct b \<longleftrightarrow> unat b dvd 4096"
  using slots_distinct_if[OF assms] slots_distinct_only_if[OF assms] by blast

theorem reorder_slots_distinct_witness: "\<not> slots_distinct 48"
  using reorder_slots_distinct_iff[of 48] by simp

text \<open>With a window of 48 frames the frame 10 is freed as a duplicate although it was never received:
  its slot still holds the frame 4090.\<close>
theorem reorder_drops_fresh_frame:
  "map_option (\<lambda>(ret, s). (ret, map sn_of (freed s), map sn_of (frames s)))
     (ieee80211_sta_manage_reorder_buf 0 (demo_frame 10)
        (demo_session 48 0 4089 ((replicate 48 None)[10 := Some (demo_frame 4090)])))
   = Some (True, [10], [])"
  by code_simp

text \<open>The frame and the session of the EAPOL case.\<close>

definition demo_eapol :: "u16 \<Rightarrow> sk_buff" where
  "demo_eapol sn = mk_skb (unat sn) []
     ([0x88, 0] @ replicate 20 0 @ bytes16 (push_bit 4 sn) @ [0, 0, 0xaa, 0xaa, 3, 0, 0, 0, 0x88, 0x8e, 1]) []"

theorem eapol_fast_path_witness:
  "\<exists>s1 s2 s3. ieee80211_sta_manage_reorder_buf 0 (demo_eapol 6) (demo_session 4 0 5 [None, None, None, None]) = Some (False, s1) \<and>
     ieee80211_sta_manage_reorder_buf 0 (demo_eapol 6) s1 = Some (False, s2) \<and>
     ieee80211_sta_manage_reorder_buf 0 (demo_frame 5) s1 = Some (True, s3) \<and> freed s3 = [demo_frame 5]"
proof -
  let ?s = "demo_session 4 0 5 [None, None, None, None]"
  have "session_ok (tid_rx ?s)" "stored_mpdu_num (tid_rx ?s) = 0" "eapol_flag (demo_eapol 6) = Some True"
    "skb_rd16 (demo_eapol 6) 22 \<noteq> None" "uint (sn_of (demo_eapol 6)) = uint (head_seq_num (tid_rx ?s)) + 1"
    "eapol_flag (demo_frame 5) = Some False" "skb_rd16 (demo_frame 5) 22 \<noteq> None"
    "sn_of (demo_frame 5) = head_seq_num (tid_rx ?s)" "freed ?s = []"
    by code_simp+
  from eapol_fast_path[OF this(1-8), of 0] this(9) show ?thesis by auto
qed
end
