(* ===== verification/Wsm_Buf.thy ===== *)
theory Wsm_Buf
  imports Prelude
begin

text \<open>The message buffers of the WSM protocol: struct wsm_buf (hal_apollo/wsm.h) with the functions
  wsm_buf_init, _deinit, _reset and _reserve and the macros WSM_GET and WSM_PUT of hal_apollo/wsm.c.

  begin is the block of memory wb_mem (None for NULL); data and end are offsets from it.  The end of
  a received message comes from its length field and need not lie inside the block: a read behind the
  block is undefined (None).

  The allocator is the parameter alloc: alloc n is NULL or a block of n bytes of unknown contents
  (alloc_ok).  atbm_krealloc of the port (os/ankai_V330/atbm_os_mem.c) allocates a new block and
  frees the old one without copying it.\<close>

abbreviation (input) MAX_WSM_BUF_LEN :: nat where "MAX_WSM_BUF_LEN \<equiv> 1632"
abbreviation (input) SDIO_BLOCK_SIZE :: u32 where "SDIO_BLOCK_SIZE \<equiv> 256"
abbreviation (input) sizeof_wsm_hdr_tx :: nat where "sizeof_wsm_hdr_tx \<equiv> 8"
abbreviation (input) sizeof_wsm_hdr :: nat where "sizeof_wsm_hdr \<equiv> 4"

record wsm_buf =
  wb_mem :: "bytes option"
  wb_data :: int
  wb_end :: int

type_synonym allocator = "nat \<Rightarrow> bytes option"

definition alloc_ok :: "allocator \<Rightarrow> bool" where
  "alloc_ok alloc \<longleftrightarrow> (\<forall>n m. alloc n = Some m \<longrightarrow> length m = n)"

named_theorems wsm_buf_defs \<open>definitions of the buffer operations\<close>

subsection \<open>Life cycle\<close>

definition wsm_buf_reset :: "wsm_buf \<Rightarrow> wsm_buf option" where
  "wsm_buf_reset buf = (case wb_mem buf of
     Some m \<Rightarrow> do { m' \<leftarrow> wr32 m 0 0; Some (buf\<lparr>wb_mem := Some m', wb_data := int sizeof_wsm_hdr_tx\<rparr>) }
   | None \<Rightarrow> Some (buf\<lparr>wb_data := 0\<rparr>))"

definition wsm_buf_init :: "allocator \<Rightarrow> wsm_buf \<Rightarrow> wsm_buf option" where
  "wsm_buf_init alloc buf = do {
     guard (wb_mem buf = None);
     let mem = alloc MAX_WSM_BUF_LEN;
     let e = (case mem of Some _ \<Rightarrow> int MAX_WSM_BUF_LEN | None \<Rightarrow> 0);
     wsm_buf_reset (buf\<lparr>wb_mem := mem, wb_end := e\<rparr>) }"

definition wsm_buf_deinit :: "wsm_buf \<Rightarrow> wsm_buf" where
  "wsm_buf_deinit buf = \<lparr>wb_mem = None, wb_data = 0, wb_end = 0\<rparr>"

definition krealloc :: "allocator \<Rightarrow> bytes option \<Rightarrow> nat \<Rightarrow> bytes option" where
  "krealloc alloc p new_size = (if new_size = 0 then None else alloc new_size)"

text \<open>The new size; size_t is 32 bits wide.\<close>

definition reserve_size :: "u32 \<Rightarrow> u32" where
  "reserve_size sz = (if sz AND (SDIO_BLOCK_SIZE - 1) \<noteq> 0
                        then (sz AND SDIO_BLOCK_SIZE) + SDIO_BLOCK_SIZE else sz)"

text \<open>The result True is 0, False is -ENOMEM.\<close>

definition wsm_buf_reserve :: "allocator \<Rightarrow> nat \<Rightarrow> wsm_buf \<Rightarrow> bool \<times> wsm_buf" where
  "wsm_buf_reserve alloc extra_size buf =
     (let pos = wb_data buf;
          size = unat (reserve_size (of_int pos + of_nat extra_size))
      in case krealloc alloc (wb_mem buf) size of
           Some m \<Rightarrow> (True, \<lparr>wb_mem = Some m, wb_data = pos, wb_end = int size\<rparr>)
         | None \<Rightarrow> (False, \<lparr>wb_mem = None, wb_data = 0, wb_end = 0\<rparr>))"

subsection \<open>WSM_PUT and WSM_GET\<close>

text \<open>WSM_PUT: the result False is the jump to nomem.  wsm_puts is a sequence of them.\<close>

definition wsm_put :: "allocator \<Rightarrow> bytes \<Rightarrow> wsm_buf \<Rightarrow> (bool \<times> wsm_buf) option" where
  "wsm_put alloc bs buf =
     (let (ok, buf) = (if wb_data buf + int (length bs) > wb_end buf
                       then wsm_buf_reserve alloc (length bs) buf else (True, buf))
      in if \<not> ok then Some (False, buf)
         else do {
           m \<leftarrow> wb_mem buf;
           m' \<leftarrow> wrn m (wb_data buf) bs;
           Some (True, buf\<lparr>wb_mem := Some m', wb_data := wb_data buf + int (length bs)\<rparr>) })"

fun wsm_puts :: "allocator \<Rightarrow> bytes list \<Rightarrow> wsm_buf \<Rightarrow> (bool \<times> wsm_buf) option" where
  "wsm_puts alloc [] buf = Some (True, buf)"
| "wsm_puts alloc (bs # bss) buf = (case wsm_put alloc bs buf of
       None \<Rightarrow> None
     | Some (ok, buf) \<Rightarrow> if ok then wsm_puts alloc bss buf else Some (False, buf))"

text \<open>WSM_GET: the fields of the given sizes one after the other.  The result has the fields that were
  read and whether all were, False being the jump to underflow.\<close>

definition wsm_get :: "nat \<Rightarrow> wsm_buf \<Rightarrow> (bytes option \<times> wsm_buf) option" where
  "wsm_get n buf =
     (if wb_data buf + int n > wb_end buf then Some (None, buf)
      else do {
        m \<leftarrow> wb_mem buf;
        bs \<leftarrow> rdn m (wb_data buf) n;
        Some (Some bs, buf\<lparr>wb_data := wb_data buf + int n\<rparr>) })"

fun wsm_gets :: "nat list \<Rightarrow> wsm_buf \<Rightarrow> (bytes list \<times> bool \<times> wsm_buf) option" where
  "wsm_gets [] buf = Some ([], True, buf)"
| "wsm_gets (n # ns) buf = (case wsm_get n buf of
       None \<Rightarrow> None
     | Some (None, buf) \<Rightarrow> Some ([], False, buf)
     | Some (Some bs, buf) \<Rightarrow> (case wsm_gets ns buf of
           None \<Rightarrow> None
         | Some (bss, ok, buf) \<Rightarrow> Some (bs # bss, ok, buf)))"

definition val8 :: "bytes \<Rightarrow> u8" where "val8 bs = bs ! 0"
definition val16 :: "bytes \<Rightarrow> u16" where "val16 bs = le16 (bs ! 0) (bs ! 1)"
definition val32 :: "bytes \<Rightarrow> u32" where "val32 bs = le32 (bs ! 0) (bs ! 1) (bs ! 2) (bs ! 3)"

lemma val_bytes [simp]: "val16 (bytes16 w) = w" "val32 (bytes32 v) = v"
  by (simp_all add: val16_def bytes16_def val32_def bytes32_def)

subsection \<open>The buffer of a request\<close>

text \<open>A buffer is ready when it lies in its block; ready_at n when in addition the bytes after the
  header are the payload put so far.\<close>

definition wb_ready :: "wsm_buf \<Rightarrow> bool" where
  "wb_ready buf \<longleftrightarrow> (\<exists>m. wb_mem buf = Some m \<and> int sizeof_wsm_hdr_tx \<le> wb_data buf \<and>
     wb_data buf \<le> wb_end buf \<and> wb_end buf = int (length m))"

definition wb_payload :: "wsm_buf \<Rightarrow> bytes" where
  "wb_payload buf = (case wb_mem buf of None \<Rightarrow> [] | Some m \<Rightarrow>
     take (nat (wb_data buf) - sizeof_wsm_hdr_tx) (drop sizeof_wsm_hdr_tx m))"

definition wb_room :: "wsm_buf \<Rightarrow> int" where
  "wb_room buf = wb_end buf - wb_data buf"

lemma reset_ready:
  assumes "wb_mem buf = Some m" "8 \<le> length m" "wb_end buf = int (length m)"
  shows "\<exists>buf'. wsm_buf_reset buf = Some buf' \<and> wb_ready buf' \<and> wb_payload buf' = [] \<and>
     wb_room buf' = int (length m) - 8 \<and> wb_end buf' = wb_end buf"
  using assms by (auto simp: wsm_buf_reset_def wr32_def wrn_def wb_ready_def wb_payload_def wb_room_def)

lemma init_ready:
  assumes "alloc_ok alloc" "alloc MAX_WSM_BUF_LEN \<noteq> None" "wb_mem buf = None"
  shows "\<exists>buf'. wsm_buf_init alloc buf = Some buf' \<and> wb_ready buf' \<and> wb_payload buf' = [] \<and>
     wb_room buf' = 1624"
proof -
  obtain m where m: "alloc MAX_WSM_BUF_LEN = Some m" "length m = 1632"
    using assms(1,2) by (auto simp: alloc_ok_def)
  then show ?thesis
    using reset_ready[of "buf\<lparr>wb_mem := Some m, wb_end := 1632\<rparr>" m] assms(3)
    by (auto simp: wsm_buf_init_def)
qed

text \<open>What fits is appended.\<close>

lemma put_fits:
  assumes "wb_ready buf" "int (length bs) \<le> wb_room buf"
  shows "\<exists>buf'. wsm_put alloc bs buf = Some (True, buf') \<and> wb_ready buf' \<and>
     wb_payload buf' = wb_payload buf @ bs \<and> wb_room buf' = wb_room buf - int (length bs) \<and>
     wb_end buf' = wb_end buf"
proof -
  obtain m where m: "wb_mem buf = Some m" "8 \<le> wb_data buf" "wb_data buf \<le> wb_end buf"
    "wb_end buf = int (length m)" using assms(1) by (auto simp: wb_ready_def)
  have f: "wb_data buf + int (length bs) \<le> int (length m)" using assms(2) m by (simp add: wb_room_def)
  then obtain m' where m': "wrn m (wb_data buf) bs = Some m'"
    "m' = take (nat (wb_data buf)) m @ bs @ drop (nat (wb_data buf) + length bs) m"
    using m by (auto simp: wrn_def)
  let ?b = "buf\<lparr>wb_mem := Some m', wb_data := wb_data buf + int (length bs)\<rparr>"
  have "wsm_put alloc bs buf = Some (True, ?b)" using m f m' by (simp add: wsm_put_def)
  moreover have "wb_payload ?b = wb_payload buf @ bs"
  proof -
    have "nat (wb_data buf + int (length bs)) = nat (wb_data buf) + length bs" using m by simp
    moreover have "8 \<le> nat (wb_data buf)" "nat (wb_data buf) \<le> length m" using m by auto
    ultimately show ?thesis by (simp add: wb_payload_def m m'(2) take_drop min_def)
  qed
  moreover have "length m' = length m" using wrn_length[OF m'(1)] .
  ultimately show ?thesis using m f
    by (intro exI[of _ ?b]) (auto simp: wb_ready_def wb_room_def)
qed

lemma puts_fit:
  assumes "wb_ready buf" "int (length (concat bss)) \<le> wb_room buf"
  shows "\<exists>buf'. wsm_puts alloc bss buf = Some (True, buf') \<and> wb_ready buf' \<and>
     wb_payload buf' = wb_payload buf @ concat bss \<and> wb_end buf' = wb_end buf"
  using assms
proof (induction bss arbitrary: buf)
  case (Cons bs bss)
  then obtain b1 where b1: "wsm_put alloc bs buf = Some (True, b1)" "wb_ready b1"
    "wb_payload b1 = wb_payload buf @ bs" "wb_room b1 = wb_room buf - int (length bs)" "wb_end b1 = wb_end buf"
    using put_fits[of buf bs alloc] by auto
  moreover have "int (length (concat bss)) \<le> wb_room b1" using Cons.prems b1 by simp
  ultimately show ?case using Cons.IH[of b1] by auto
qed simp

text \<open>What was put is read back.\<close>

lemma get_fits:
  assumes "wb_mem buf = Some m" "0 \<le> wb_data buf" "wb_data buf + int n \<le> wb_end buf"
    "wb_data buf + int n \<le> int (length m)"
  shows "wsm_get n buf = Some (Some (take n (drop (nat (wb_data buf)) m)), buf\<lparr>wb_data := wb_data buf + int n\<rparr>)"
  using assms by (simp add: wsm_get_def rdn_def)

lemma gets_concat:
  assumes "wb_mem buf = Some (pre @ concat bss @ post)" "wb_data buf = int (length pre)"
    "wb_end buf \<ge> int (length pre + length (concat bss))"
  shows "wsm_gets (map length bss) buf
       = Some (bss, True, buf\<lparr>wb_data := int (length pre + length (concat bss))\<rparr>)"
  using assms
proof (induction bss arbitrary: pre buf)
  case (Cons bs bss)
  have g: "wsm_get (length bs) buf = Some (Some bs, buf\<lparr>wb_data := wb_data buf + int (length bs)\<rparr>)"
    using Cons.prems by (subst get_fits) auto
  have "wsm_gets (map length bss) (buf\<lparr>wb_data := wb_data buf + int (length bs)\<rparr>)
      = Some (bss, True, buf\<lparr>wb_data := int (length (pre @ bs) + length (concat bss))\<rparr>)"
    using Cons.prems Cons.IH[of "buf\<lparr>wb_data := wb_data buf + int (length bs)\<rparr>" "pre @ bs"] by simp
  then show ?case using g by (simp add: add.assoc)
qed simp

text \<open>The fields read are exactly of their sizes, whatever the message.\<close>

lemma gets_sizes:
  "wsm_gets ns buf = Some (bss, ok, buf') \<Longrightarrow> 0 \<le> wb_data buf \<Longrightarrow>
     list_all2 (\<lambda>bs n. length bs = n) bss (take (length bss) ns) \<and> (ok \<longrightarrow> length bss = length ns) \<and>
     wb_mem buf' = wb_mem buf \<and> wb_end buf' = wb_end buf"
proof (induction ns arbitrary: buf bss)
  case (Cons n ns)
  show ?case
  proof (cases "wsm_get n buf")
    case None
    then show ?thesis using Cons.prems by simp
  next
    case (Some r)
    then show ?thesis
    proof (cases "fst r")
      case None
      then show ?thesis using Some Cons.prems
        by (cases r) (auto simp: wsm_get_def split: if_splits Option.bind_splits)
    next
      fix bs assume "fst r = Some bs"
      then obtain b1 where r: "wsm_get n buf = Some (Some bs, b1)" "length bs = n" "0 \<le> wb_data b1"
        "wb_mem b1 = wb_mem buf" "wb_end b1 = wb_end buf"
        using Some Cons.prems(2)
        by (cases r) (auto simp: wsm_get_def rdn_def split: if_splits Option.bind_splits)
      then obtain bss' where g: "wsm_gets ns b1 = Some (bss', ok, buf')" "bss = bs # bss'"
        using Cons.prems(1) by (auto split: option.splits)
      then show ?thesis using Cons.IH[OF g(1) r(3)] r by simp
    qed
  qed
qed simp

subsection \<open>Properties\<close>

text \<open>C40. Encoding and decoding agree: the fields put into a fresh message buffer, when they fit, are the
  fields that the reading macros give back from the message between header and end, in order.\<close>
theorem wsm_put_get_roundtrip:
  assumes "alloc_ok alloc" "alloc MAX_WSM_BUF_LEN \<noteq> None" "length (concat bss) \<le> 1624"
  shows "\<exists>b0 b1. wsm_buf_init alloc \<lparr>wb_mem = None, wb_data = 0, wb_end = 0\<rparr> = Some b0 \<and>
     wsm_puts alloc bss b0 = Some (True, b1) \<and> wb_data b1 = int (8 + length (concat bss)) \<and>
     wsm_gets (map length bss) (b1\<lparr>wb_data := 8, wb_end := wb_data b1\<rparr>)
       = Some (bss, True, b1\<lparr>wb_end := wb_data b1\<rparr>)"
proof -
  obtain b0 where b0: "wsm_buf_init alloc \<lparr>wb_mem = None, wb_data = 0, wb_end = 0\<rparr> = Some b0"
    "wb_ready b0" "wb_payload b0 = []" "wb_room b0 = 1624"
    using init_ready[OF assms(1,2), of "\<lparr>wb_mem = None, wb_data = 0, wb_end = 0\<rparr>"] by auto
  obtain b1 where b1: "wsm_puts alloc bss b0 = Some (True, b1)" "wb_ready b1" "wb_payload b1 = concat bss"
    using puts_fit[OF b0(2), of bss alloc] b0 assms(3) by auto
  obtain m where m: "wb_mem b1 = Some m" "8 \<le> wb_data b1" "wb_data b1 \<le> int (length m)"
    using b1(2) by (auto simp: wb_ready_def)
  define n where "n = nat (wb_data b1) - 8"
  have p: "take n (drop 8 m) = concat bss" "n \<le> length m - 8" using b1(3) m by (auto simp: wb_payload_def n_def)
  then have n: "n = length (concat bss)" by (metis length_drop length_take min.absorb2)
  have "m = take 8 m @ concat bss @ drop n (drop 8 m)"
    by (metis append_take_drop_id p(1))
  then have "wb_mem (b1\<lparr>wb_data := 8, wb_end := wb_data b1\<rparr>) = Some (take 8 m @ concat bss @ drop n (drop 8 m))"
    using m by simp
  moreover have d: "wb_data b1 = int (8 + length (concat bss))" using m n by (simp add: n_def)
  moreover have "length (take 8 m) = 8" using m by simp
  ultimately have "wsm_gets (map length bss) (b1\<lparr>wb_data := 8, wb_end := wb_data b1\<rparr>)
       = Some (bss, True, b1\<lparr>wb_data := 8, wb_end := wb_data b1\<rparr>\<lparr>wb_data := int (8 + length (concat bss))\<rparr>)"
    by (subst gets_concat) auto
  moreover have "b1\<lparr>wb_data := 8, wb_end := wb_data b1\<rparr>\<lparr>wb_data := int (8 + length (concat bss))\<rparr>
      = b1\<lparr>wb_end := wb_data b1\<rparr>" using d by simp
  ultimately show ?thesis using b0(1) b1(1) d by auto
qed

definition demo_alloc :: allocator where "demo_alloc n = Some (replicate n 0)"

lemma demo_alloc_ok: "alloc_ok demo_alloc" "demo_alloc n \<noteq> None"
  by (auto simp: alloc_ok_def demo_alloc_def)

theorem wsm_put_get_roundtrip_witness:
  "\<exists>b0 b1. wsm_buf_init demo_alloc \<lparr>wb_mem = None, wb_data = 0, wb_end = 0\<rparr> = Some b0 \<and>
     wsm_puts demo_alloc [[1, 2], [3, 4, 5, 6]] b0 = Some (True, b1) \<and> wb_data b1 = 14 \<and>
     wsm_gets [2, 4] (b1\<lparr>wb_data := 8, wb_end := wb_data b1\<rparr>)
       = Some ([[1, 2], [3, 4, 5, 6]], True, b1\<lparr>wb_end := wb_data b1\<rparr>)"
  using wsm_put_get_roundtrip[OF demo_alloc_ok, of "[[1, 2], [3, 4, 5, 6]]"] by (simp add: numeral_eq_Suc del: wsm_puts.simps wsm_gets.simps)

lemma reserve_size_le:
  assumes "sz AND 255 \<noteq> 0" shows "unat (reserve_size sz) \<le> 512"
proof -
  have "sz AND 256 \<le> 256" by (rule word_and_le1)
  then have "unat (sz AND 256) \<le> 256" by (simp add: word_le_nat_alt)
  moreover from this have "unat ((sz AND 256) + 256) = unat (sz AND 256) + 256"
    using unat_plus_of_nat[of "sz AND 256" 256] by simp
  ultimately show ?thesis using assms by (simp add: reserve_size_def)
qed

lemma unat_and_255: "unat (sz AND 255 :: u32) = unat sz mod 256"
proof -
  have "sz AND 255 = take_bit 8 sz" by (simp only: take_bit_eq_mask mask_eq_exp_minus_1) simp
  then have "unat (sz AND 255) = take_bit 8 (unat sz)" by (simp only: unsigned_take_bit_eq)
  then show ?thesis by (simp only: take_bit_eq_mod) simp
qed

text \<open>Growing a message buffer shrinks it.  wsm_buf_reserve keeps one bit of the needed size where it
  means to round it up, so the new block has at most 512 bytes; a field that does not fit into the old
  block and ends behind byte 512 (at no multiple of 256) is then written outside the new one.\<close>
theorem wsm_put_overflows:
  assumes "alloc_ok alloc" "\<forall>n > 0. alloc n \<noteq> None" "wb_ready buf"
    "wb_data buf + int (length bs) > wb_end buf" "nat (wb_data buf) + length bs < 2 ^ 32"
    "512 < nat (wb_data buf) + length bs" "(nat (wb_data buf) + length bs) mod 256 \<noteq> 0"
  shows "wsm_put alloc bs buf = None"
proof -
  define sz where "sz = (of_int (wb_data buf) + of_nat (length bs) :: u32)"
  define n where "n = nat (wb_data buf) + length bs"
  have d: "8 \<le> wb_data buf" using assms(3) by (auto simp: wb_ready_def)
  then have "sz = of_nat n" by (simp add: sz_def n_def)
  then have u: "unat sz = n" using assms(5) by (simp add: unat_of_nat n_def[symmetric])
  then have "sz AND 255 \<noteq> 0" using unat_and_255[of sz] assms(7) by (metis n_def unat_0)
  then have le: "unat (reserve_size sz) \<le> 512" by (rule reserve_size_le)
  show ?thesis
  proof (cases "krealloc alloc (wb_mem buf) (unat (reserve_size sz))")
    case None
    then have "unat (reserve_size sz) = 0" using assms(2)[rule_format, of "unat (reserve_size sz)"]
      by (auto simp: krealloc_def split: if_splits)
    then have "reserve_size sz = 0" by (simp add: unat_eq_zero)
    moreover have "(sz AND 256) + 256 \<noteq> 0"
    proof
      assume "(sz AND 256) + 256 = 0"
      moreover have "unat (sz AND 256) \<le> 256" using word_and_le1[of sz 256] by (simp add: word_le_nat_alt)
      ultimately show False using unat_plus_of_nat[of "sz AND 256" 256] by simp
    qed
    ultimately show ?thesis using \<open>sz AND 255 \<noteq> 0\<close> by (simp add: reserve_size_def)
  next
    case (Some m)
    then have "length m = unat (reserve_size sz)"
      using assms(1) by (auto simp: krealloc_def alloc_ok_def split: if_splits)
    then have "length m \<le> 512" using le by simp
    then have "int (length m) < wb_data buf + int (length bs)" using assms(6) d by linarith
    then show ?thesis using Some assms(4)
      by (simp add: wsm_put_def wsm_buf_reserve_def Let_def sz_def[symmetric] wrn_def)
  qed
qed

theorem wsm_put_overflows_witness:
  "wsm_put demo_alloc (replicate 1700 0) \<lparr>wb_mem = Some (replicate 1632 0), wb_data = 8, wb_end = 1632\<rparr> = None"
  by (rule wsm_put_overflows[OF demo_alloc_ok(1)]) (simp_all add: demo_alloc_def wb_ready_def)

end
