(* ===== verification/Hw_State.thy ===== *)
theory Hw_State
  imports Wsm_Buf Ieee80211_Data
begin

text \<open>The state of the adapter: the part of struct atbm_common (hal_apollo/apollo.h) that the command
  interface wsm.c and the bus thread bh_sdio.c share, with struct wsm_cmd and struct wsm_caps of
  hal_apollo/wsm.h.

  The pointer wsm_cmd.ptr is the command buffer or NULL; a frame is told from it by its identity.
  The parameter 'm of the record is the state of the layer above, which only the receive callback
  touches.  Wake-ups of the bus thread and of the waiting sender are counted.  The memory behind
  the arg pointer of a request is ret_buf.\<close>

datatype buf_ptr = Cmd_buffer | Skb_buffer nat

datatype wsm_arg = Arg_NULL | Shmem_arg nat | Get_arg nat | Struct_arg

record wsm_cmd =
  cmd_done :: bool
  cmd_last_send :: u16
  cmd_ptr :: "buf_ptr option"
  cmd_len :: u32
  cmd_arg :: wsm_arg
  cmd_ret :: int
  cmd_cmd :: u16

record wsm_caps =
  numInpChBufs :: u16
  sizeInpChBuf :: u16
  hardwareId :: u16
  hardwareSubId :: u16
  firmwareCap :: u32
  firmwareType :: u16
  firmwareApiVer :: u16
  firmwareBuildNumber :: u16
  firmwareVersion :: u16
  HiHwCnfBufaddr :: u32
  firmwareReady :: bool
  exceptionaddr :: u32
  NumOfHwXmitedAddr :: u32

record atbm_wsm_event =
  ev_eventId :: u32
  ev_buffer :: bytes
  ev_if_id :: u8

record 'm atbm_common =
  wsm_cmd_buf :: wsm_buf
  hw_wsm_cmd :: wsm_cmd
  wsm_cmd_mux :: bool
  wsm_oper_lock_held :: bool
  tx_lock :: int
  tx_frame_queue :: "sk_buff list"
  rx_frame_queue :: "sk_buff list"
  bh_running :: bool
  extra_tx_headroom :: nat
  wsm_tx_seq :: u16
  wsm_rx_seq :: u16
  hw_bufs_used :: int
  hw_bufs_free :: int
  hw_bufs_free_init :: int
  n_xmits :: u32
  hw_xmits :: u32
  hw_caps :: wsm_caps
  xmit_buff :: bytes
  xmit_buff_put :: nat
  wsm_txframe_num :: int
  tx_num_queued :: int
  tx_queue_overfull :: bool
  lwip_queue_enable :: bool
  lwip_enable :: bool
  event_queue :: "atbm_wsm_event list"
  event_works :: nat
  vif_type :: "nl80211_iftype option"
  bh_error :: bool
  bh_wakeups :: nat
  cmd_wq_wakeups :: nat
  tx_burst_idx :: int
  wifi_run_sta :: int
  ret_buf :: bytes
  freed_skbs :: "sk_buff list"
  mac :: 'm

text \<open>The only virtual interface is vif_list[0].  vif_type is None while it does not exist.\<close>

abbreviation (input) ATBM_WIFI_MAX_VIFS :: nat where "ATBM_WIFI_MAX_VIFS \<equiv> 1"

definition ABwifi_hwpriv_to_vifpriv :: "'m atbm_common \<Rightarrow> nat \<Rightarrow> nl80211_iftype option" where
  "ABwifi_hwpriv_to_vifpriv hw if_id = (if if_id \<ge> ATBM_WIFI_MAX_VIFS then None else vif_type hw)"

definition atbm_bh_wakeup :: "'m atbm_common \<Rightarrow> 'm atbm_common" where
  "atbm_bh_wakeup hw = hw\<lparr>bh_wakeups := bh_wakeups hw + 1\<rparr>"

definition free_hw_skb :: "sk_buff \<Rightarrow> 'm atbm_common \<Rightarrow> 'm atbm_common" where
  "free_hw_skb skb hw = hw\<lparr>freed_skbs := freed_skbs hw @ [skb]\<rparr>"

end
