(* ===== verification/Wsm.thy ===== *)
theory Wsm
  imports Hw_State
begin

text \<open>The command interface of hal_apollo/wsm.c: sending a command and waiting for its confirmation
  (wsm_cmd_send), the message the bus thread sends next (wsm_get_tx, wsm_txed), and the messages of
  the firmware (wsm_handle_rx with the confirmations and indications it dispatches to).

  While wsm_cmd_send waits, other threads run.  What they do is the parameter rounds: for every time
  the sender is woken, the jiffies elapsed since the send and the change other threads made to the
  state.  wait_event_timeout is the one of os/ankai_V330/atbm_os_queue.c: it takes the semaphore
  of the wait queue (cmd_wq_wakeups), which down_timeout of that port waits for without a limit, and
  then tests the condition.  None is a BUG_ON, an undefined access, or waiting for ever.\<close>

abbreviation (input) ENOMEM :: int where "ENOMEM \<equiv> 12"
abbreviation (input) ETIMEDOUT :: int where "ETIMEDOUT \<equiv> 110"
abbreviation (input) WSM_CMD_TIMEOUT :: nat where "WSM_CMD_TIMEOUT \<equiv> 60000"
abbreviation (input) WSM_CMD_SCAN_TIMEOUT :: nat where "WSM_CMD_SCAN_TIMEOUT \<equiv> 15000"
abbreviation (input) WSM_CMD_JOIN_TIMEOUT :: nat where "WSM_CMD_JOIN_TIMEOUT \<equiv> 18000"
abbreviation (input) WSM_CMD_START_TIMEOUT :: nat where "WSM_CMD_START_TIMEOUT \<equiv> 17000"
abbreviation (input) WSM_CMD_RESET_TIMEOUT :: nat where "WSM_CMD_RESET_TIMEOUT \<equiv> 14000"
abbreviation (input) WSM_CMD_DEFAULT_TIMEOUT :: nat where "WSM_CMD_DEFAULT_TIMEOUT \<equiv> 40000"
abbreviation (input) WSM_CNF_BASE :: u16 where "WSM_CNF_BASE \<equiv> 0x0400"
abbreviation (input) WSM_IND_BASE :: u16 where "WSM_IND_BASE \<equiv> 0x0800"
abbreviation (input) WSM_TX_LINK_ID_MAX :: u16 where "WSM_TX_LINK_ID_MAX \<equiv> 0x0F"
abbreviation (input) MAX_SDIO_EVENT_BUFFER_LEN :: nat where "MAX_SDIO_EVENT_BUFFER_LEN \<equiv> 504"
abbreviation (input) sizeof_wsm_event :: nat where "sizeof_wsm_event \<equiv> 520"
abbreviation (input) WSM_EVENT_INDICATION_ID :: u16 where "WSM_EVENT_INDICATION_ID \<equiv> 0x0805"
abbreviation (input) WSM_RECEIVE2_INDICATION_ID :: u16 where "WSM_RECEIVE2_INDICATION_ID \<equiv> 0x0814"
abbreviation (input) WSM_RECEIVE_INDICATION_ID :: u16 where "WSM_RECEIVE_INDICATION_ID \<equiv> 0x0804"
abbreviation (input) WSM_STARTUP_IND_ID :: u16 where "WSM_STARTUP_IND_ID \<equiv> 0x0801"
abbreviation (input) WSM_TRACE_IND_ID :: u16 where "WSM_TRACE_IND_ID \<equiv> 0x0802"

definition WSM_TX_LINK_ID :: "u16 \<Rightarrow> u16" where
  "WSM_TX_LINK_ID link_id = push_bit 6 (link_id AND WSM_TX_LINK_ID_MAX)"

record wsm_rx =
  wrx_status :: u32
  wrx_channelNumber :: u16
  wrx_rxedRate :: u8
  wrx_rcpiRssi :: u8
  wrx_flags :: u32
  wrx_channel_type :: u32
  wrx_link_id :: u32
  wrx_if_id :: nat

text \<open>What wsm.c calls: the allocator, the address the allocator of socket buffers returns, and
  atbm_rx_cb, which may take the buffer (and set the caller's pointer to NULL).\<close>

record 'm wsm_env =
  env_alloc :: allocator
  env_kz :: "nat option"
  env_rx_cb :: "wsm_rx \<Rightarrow> sk_buff \<Rightarrow> 'm atbm_common \<Rightarrow> (sk_buff option \<times> 'm atbm_common) option"

type_synonym 'm rounds = "(nat \<times> ('m atbm_common \<Rightarrow> 'm atbm_common option)) list"

subsection \<open>Locks\<close>

definition wsm_cmd_lock :: "'m atbm_common \<Rightarrow> 'm atbm_common option" where
  "wsm_cmd_lock hw = (if wsm_cmd_mux hw then None else Some (hw\<lparr>wsm_cmd_mux := True\<rparr>))"

definition wsm_cmd_unlock :: "'m atbm_common \<Rightarrow> 'm atbm_common" where
  "wsm_cmd_unlock hw = hw\<lparr>wsm_cmd_mux := False\<rparr>"

definition wsm_oper_lock :: "'m atbm_common \<Rightarrow> 'm atbm_common option" where
  "wsm_oper_lock hw = (if wsm_oper_lock_held hw then None else Some (hw\<lparr>wsm_oper_lock_held := True\<rparr>))"

definition wsm_oper_unlock :: "'m atbm_common \<Rightarrow> 'm atbm_common" where
  "wsm_oper_unlock hw = hw\<lparr>wsm_oper_lock_held := False\<rparr>"

definition wsm_lock_tx :: "'m atbm_common \<Rightarrow> 'm atbm_common option" where
  "wsm_lock_tx hw = do {
     hw \<leftarrow> wsm_cmd_lock hw;
     let hw = hw\<lparr>tx_lock := tx_lock hw + 1\<rparr>;
     Some (wsm_cmd_unlock hw) }"

definition wsm_lock_tx_async :: "'m atbm_common \<Rightarrow> 'm atbm_common" where
  "wsm_lock_tx_async hw = hw\<lparr>tx_lock := tx_lock hw + 1\<rparr>"

definition wsm_unlock_tx_async :: "'m atbm_common \<Rightarrow> 'm atbm_common" where
  "wsm_unlock_tx_async hw = hw\<lparr>tx_lock := tx_lock hw - 1\<rparr>"

definition wsm_unlock_tx :: "'m atbm_common \<Rightarrow> 'm atbm_common option" where
  "wsm_unlock_tx hw =
     (if bh_error hw then Some hw
      else let hw = hw\<lparr>tx_lock := tx_lock hw - 1\<rparr> in
        if tx_lock hw < 0 then None
        else if tx_lock hw = 0 then Some (atbm_bh_wakeup hw)
        else Some hw)"

subsection \<open>Sending a command\<close>

definition wait_event_timeout ::
    "('m atbm_common \<Rightarrow> 'm atbm_common option) \<Rightarrow> 'm atbm_common \<Rightarrow> (bool \<times> 'm atbm_common) option" where
  "wait_event_timeout others hw = do {
     hw \<leftarrow> others hw;
     guard (cmd_wq_wakeups hw > 0);
     let hw = hw\<lparr>cmd_wq_wakeups := cmd_wq_wakeups hw - 1\<rparr>;
     Some (cmd_done (hw_wsm_cmd hw), hw) }"

fun wait_loop :: "'m rounds \<Rightarrow> nat \<Rightarrow> 'm atbm_common \<Rightarrow> (bool \<times> 'm rounds \<times> 'm atbm_common) option" where
  "wait_loop [] wsm_cmd_max_tmo hw = None"
| "wait_loop ((wsm_cmd_runtime, others) # rounds) wsm_cmd_max_tmo hw =
     (case wait_event_timeout others hw of
        None \<Rightarrow> None
      | Some (ret, hw) \<Rightarrow>
          if ret then Some (True, rounds, hw)
          else if wsm_cmd_runtime < wsm_cmd_max_tmo
          then wait_loop rounds wsm_cmd_max_tmo (atbm_bh_wakeup hw)
          else Some (False, rounds, hw))"

text \<open>The header of a message: flag, len, id.\<close>

definition fill_header :: "wsm_buf \<Rightarrow> u16 \<Rightarrow> u16 \<Rightarrow> u16 \<Rightarrow> wsm_buf option" where
  "fill_header buf buf_len cmd if_id = do {
     m \<leftarrow> wb_mem buf;
     m \<leftarrow> wr16 m 4 buf_len;
     m \<leftarrow> wr16 m 6 (cmd OR push_bit 6 if_id);
     Some (buf\<lparr>wb_mem := Some m\<rparr>) }"

text \<open>if_id -1 stands for the hardware and is sent on interface 0.\<close>

definition real_if_id :: "int \<Rightarrow> u16" where
  "real_if_id if_id = (if if_id = -1 then 0 else of_int if_id)"

definition post_command :: "wsm_arg \<Rightarrow> u16 \<Rightarrow> u32 \<Rightarrow> 'm atbm_common \<Rightarrow> 'm atbm_common option" where
  "post_command arg cmd buf_len hw = do {
     guard (cmd_ptr (hw_wsm_cmd hw) = None);
     Some (hw\<lparr>hw_wsm_cmd := (hw_wsm_cmd hw)\<lparr>cmd_done := False, cmd_ptr := Some Cmd_buffer,
                cmd_len := buf_len, cmd_arg := arg, cmd_cmd := cmd\<rparr>\<rparr>) }"

text \<open>The end of wsm_cmd_send: ret tells whether the confirmation has come.\<close>

definition finish_command :: "bool \<Rightarrow> 'm rounds \<Rightarrow> 'm atbm_common \<Rightarrow> (int \<times> 'm atbm_common) option" where
  "finish_command ret rounds hw =
     (if \<not> ret then do {
        let raceCheck = cmd_cmd (hw_wsm_cmd hw);
        let hw = hw\<lparr>hw_wsm_cmd := (hw_wsm_cmd hw)\<lparr>cmd_arg := Arg_NULL, cmd_ptr := None\<rparr>\<rparr>;
        if raceCheck = 0xFFFF then
          (case rounds of
             [] \<Rightarrow> None
           | (t, others) # _ \<Rightarrow> do {
               (ok, hw) \<leftarrow> wait_event_timeout others hw;
               guard ok;
               Some (- ETIMEDOUT, hw) })
        else Some (- ETIMEDOUT, hw) }
      else do {
        guard (cmd_done (hw_wsm_cmd hw));
        Some (cmd_ret (hw_wsm_cmd hw), hw) })"

definition wsm_cmd_send ::
    "'m rounds \<Rightarrow> wsm_arg \<Rightarrow> u16 \<Rightarrow> nat \<Rightarrow> int \<Rightarrow> 'm atbm_common \<Rightarrow> (int \<times> 'm atbm_common) option" where
  "wsm_cmd_send rounds arg cmd tmo if_id hw = do {
     let buf_len = wb_data (wsm_cmd_buf hw);
     buf \<leftarrow> fill_header (wsm_cmd_buf hw) (of_int buf_len) cmd (real_if_id if_id);
     hw \<leftarrow> post_command arg cmd (of_int buf_len) (hw\<lparr>wsm_cmd_buf := buf\<rparr>);
     let hw = atbm_bh_wakeup hw;
     let wsm_cmd_max_tmo =
       (if tmo = WSM_CMD_SCAN_TIMEOUT then WSM_CMD_SCAN_TIMEOUT
        else if tmo = WSM_CMD_START_TIMEOUT then WSM_CMD_START_TIMEOUT else WSM_CMD_DEFAULT_TIMEOUT);
     (ret, rounds, hw) \<leftarrow> wait_loop rounds wsm_cmd_max_tmo hw;
     (r, hw) \<leftarrow> finish_command ret rounds hw;
     buf \<leftarrow> wsm_buf_reset (wsm_cmd_buf hw);
     Some (r, hw\<lparr>wsm_cmd_buf := buf\<rparr>) }"

text \<open>Without a confirmation the message is copied to a frame of the transmit queue.\<close>

definition wsm_cmd_send_no_ack ::
    "'m wsm_env \<Rightarrow> u16 \<Rightarrow> int \<Rightarrow> 'm atbm_common \<Rightarrow> (int \<times> 'm atbm_common) option" where
  "wsm_cmd_send_no_ack env cmd if_id hw = do {
     let buf_len = wb_data (wsm_cmd_buf hw);
     buf \<leftarrow> fill_header (wsm_cmd_buf hw) (of_int buf_len) cmd (real_if_id if_id);
     let hw = hw\<lparr>wsm_cmd_buf := buf\<rparr>;
     (case dev_alloc_skb (env_kz env) (of_nat (extra_tx_headroom hw) + of_int buf_len) of
        None \<Rightarrow> Some (-1, hw)
      | Some skb \<Rightarrow> do {
          let skb = skb_reserve skb (extra_tx_headroom hw);
          m \<leftarrow> wb_mem buf;
          bs \<leftarrow> rdn m 0 (nat buf_len);
          skb \<leftarrow> skb_wrn (skb_put skb (nat buf_len)) 0 bs;
          buf \<leftarrow> wsm_buf_reset buf;
          Some (0, atbm_bh_wakeup (hw\<lparr>tx_frame_queue := tx_frame_queue hw @ [skb], wsm_cmd_buf := buf\<rparr>)) }) }"

subsection \<open>What the bus thread sends next\<close>

text \<open>The result of wsm_get_tx: the pointer, its length, the interface and the frame, if it is one.\<close>

record tx_item =
  tx_ptr :: buf_ptr
  tx_len :: u32
  tx_vif :: int
  tx_skb :: "sk_buff option"

definition wsm_get_tx :: "'m atbm_common \<Rightarrow> (tx_item option \<times> 'm atbm_common) option" where
  "wsm_get_tx hw =
     (case cmd_ptr (hw_wsm_cmd hw) of
        Some p \<Rightarrow> Some (Some \<lparr>tx_ptr = p, tx_len = cmd_len (hw_wsm_cmd hw), tx_vif = -1, tx_skb = None\<rparr>, hw)
      | None \<Rightarrow> (case tx_frame_queue hw of
            [] \<Rightarrow> Some (None, hw)
          | skb # q \<Rightarrow> do {
              len \<leftarrow> skb_rd16 skb 4;
              Some (Some \<lparr>tx_ptr = Skb_buffer (skb_addr skb), tx_len = ucast len, tx_vif = 0,
                          tx_skb = Some skb\<rparr>, hw\<lparr>tx_frame_queue := q\<rparr>) }))"

definition wsm_txed :: "buf_ptr \<Rightarrow> 'm atbm_common \<Rightarrow> bool \<times> 'm atbm_common" where
  "wsm_txed data hw =
     (if cmd_ptr (hw_wsm_cmd hw) = Some data
      then (True, hw\<lparr>hw_wsm_cmd := (hw_wsm_cmd hw)\<lparr>cmd_last_send := cmd_cmd (hw_wsm_cmd hw), cmd_ptr := None\<rparr>\<rparr>)
      else (False, hw))"

end
