(* ===== verification/Wsm_Rx.thy ===== *)
theory Wsm_Rx
  imports Wsm
begin

text \<open>The messages of the firmware: wsm_handle_rx of hal_apollo/wsm.c and the confirmations and
  indications it dispatches to.  A message is the memory msg from its header to the end of the
  block it lies in; its length field is only compared with, never checked against, that memory.\<close>

abbreviation (input) WSM_STATUS_SUCCESS :: u32 where "WSM_STATUS_SUCCESS \<equiv> 0"
abbreviation (input) HI_STATUS_SUCCESS :: u32 where "HI_STATUS_SUCCESS \<equiv> 0"

subsection \<open>Confirmations\<close>

definition set_ret_buf :: "bytes \<Rightarrow> 'm atbm_common \<Rightarrow> 'm atbm_common" where
  "set_ret_buf bs hw = hw\<lparr>ret_buf := bs\<rparr>"

definition wsm_generic_confirm :: "wsm_buf \<Rightarrow> int option" where
  "wsm_generic_confirm buf = (case wsm_gets [4] buf of
     None \<Rightarrow> None
   | Some (fs, ok, _) \<Rightarrow>
       Some (if \<not> ok then - EINVAL else if val32 (fs ! 0) \<noteq> WSM_STATUS_SUCCESS then - EINVAL else 0))"

definition wsm_generic_get_confirm :: "nat \<Rightarrow> wsm_buf \<Rightarrow> 'm atbm_common \<Rightarrow> (int \<times> 'm atbm_common) option" where
  "wsm_generic_get_confirm buf_size buf hw = (case wsm_gets [buf_size] buf of
     None \<Rightarrow> None
   | Some (fs, ok, _) \<Rightarrow> Some (if ok then (0, set_ret_buf (fs ! 0) hw) else (- EINVAL, hw)))"

definition wsm_read_shmem_confirm :: "nat \<Rightarrow> wsm_buf \<Rightarrow> 'm atbm_common \<Rightarrow> (int \<times> 'm atbm_common) option" where
  "wsm_read_shmem_confirm buf_size buf hw = (case wsm_gets [4] buf of
     None \<Rightarrow> None
   | Some (fs, ok, buf) \<Rightarrow>
       if \<not> ok then Some (- EINVAL, hw)
       else if val32 (fs ! 0) \<noteq> HI_STATUS_SUCCESS then Some (- EINVAL, hw)
       else (case wsm_gets [buf_size] buf of
           None \<Rightarrow> None
         | Some (fs, ok, _) \<Rightarrow> Some (if ok then (0, set_ret_buf (fs ! 0) hw) else (- EINVAL, hw))))"

definition wsm_write_shmem_confirm :: "wsm_buf \<Rightarrow> int option" where
  "wsm_write_shmem_confirm buf = (case wsm_gets [4] buf of
     None \<Rightarrow> None
   | Some (fs, ok, _) \<Rightarrow>
       Some (if \<not> ok then - EINVAL else if val32 (fs ! 0) \<noteq> HI_STATUS_SUCCESS then - EINVAL else 0))"

definition wsm_confirm_for_sdio_alive :: "wsm_buf \<Rightarrow> int option" where
  "wsm_confirm_for_sdio_alive buf = (case wsm_gets [4, 4] buf of
     None \<Rightarrow> None
   | Some (fs, ok, _) \<Rightarrow>
       Some (if \<not> ok then - EINVAL
             else if val32 (fs ! 0) = WSM_STATUS_SUCCESS \<and> val32 (fs ! 1) = 2121 then 0 else -1))"

text \<open>The identifiers whose confirmation is data, is ignored, or is a status.\<close>

definition get_confirm_ids :: "u16 list" where
  "get_confirm_ids = [0x402, 0x40B, 0x40C, 0x411, 0x412, 0x41E, 0x41F, 0x421, 0x427, 0x429, 0x42A,
     0x42B, 0x42D, 0x433]"

definition ignored_confirm_ids :: "u16 list" where
  "ignored_confirm_ids = [0x403, 0x40A, 0x40D, 0x40F, 0x410]"

definition status_confirm_ids :: "u16 list" where
  "status_confirm_ids = [0x409, 0x408, 0x40E, 0x413, 0x414, 0x415, 0x416, 0x417, 0x418, 0x419, 0x41A,
     0x41B, 0x41C, 0x41D, 0x420, 0x422, 0x423, 0x424, 0x425, 0x426, 0x42C, 0x430, 0x431, 0x42E,
     0x42F, 0x432, 0x434, 0x435, 0x436, 0x437, 0x438, 0x439]"

definition arg_size :: "wsm_arg \<Rightarrow> nat option" where
  "arg_size a = (case a of Shmem_arg n \<Rightarrow> Some n | Get_arg n \<Rightarrow> Some n | _ \<Rightarrow> None)"

text \<open>The switch over the identifier of a confirmation.  The handlers cast arg to the structure with
  the buffer and its size; another structure there is undefined.\<close>

definition confirm_switch ::
    "u16 \<Rightarrow> wsm_arg \<Rightarrow> wsm_buf \<Rightarrow> 'm atbm_common \<Rightarrow> (int \<times> 'm atbm_common) option" where
  "confirm_switch msg_id wsm_arg buf hw =
     (if msg_id = 0x0400 then
        (if wsm_arg = Arg_NULL then Some (0, hw)
         else do { n \<leftarrow> arg_size wsm_arg; wsm_read_shmem_confirm n buf hw })
      else if msg_id = 0x0401 then
        (if wsm_arg = Arg_NULL then Some (0, hw)
         else do { r \<leftarrow> wsm_write_shmem_confirm buf; Some (r, hw) })
      else if msg_id \<in> set get_confirm_ids then
        (if wsm_arg = Arg_NULL then Some (0, hw)
         else do { n \<leftarrow> arg_size wsm_arg; wsm_generic_get_confirm n buf hw })
      else if msg_id \<in> set ignored_confirm_ids then Some (0, hw)
      else if msg_id \<in> set status_confirm_ids then do { r \<leftarrow> wsm_generic_confirm buf; Some (r, hw) }
      else if msg_id = 0x043A then do { r \<leftarrow> wsm_confirm_for_sdio_alive buf; Some (r, hw) }
      else None)"

definition handle_confirm :: "u16 \<Rightarrow> wsm_buf \<Rightarrow> 'm atbm_common \<Rightarrow> (int \<times> 'm atbm_common) option" where
  "handle_confirm msg_id buf hw = do {
     let wsm_arg = cmd_arg (hw_wsm_cmd hw);
     let wsm_cmd = cmd_cmd (hw_wsm_cmd hw) AND NOT (WSM_TX_LINK_ID WSM_TX_LINK_ID_MAX);
     let hw = hw\<lparr>hw_wsm_cmd := (hw_wsm_cmd hw)\<lparr>cmd_cmd := 0xFFFF, cmd_last_send := 0xFFFF\<rparr>\<rparr>;
     if msg_id AND NOT WSM_CNF_BASE \<noteq> wsm_cmd then Some (- EINVAL, hw)
     else do {
       (ret, hw) \<leftarrow> confirm_switch msg_id wsm_arg buf hw;
       Some (0, hw\<lparr>hw_wsm_cmd := (hw_wsm_cmd hw)\<lparr>cmd_ret := ret, cmd_done := True\<rparr>,
                  cmd_wq_wakeups := cmd_wq_wakeups hw + 1\<rparr>) } }"

subsection \<open>Indications\<close>

text \<open>The events that need no interface.\<close>

definition host_events :: "u32 list" where "host_events = [10, 11, 12, 13, 14]"

abbreviation (input) WSM_EVENT_SDIO_INPUTCHAN_EVNET :: u32 where "WSM_EVENT_SDIO_INPUTCHAN_EVNET \<equiv> 3"

definition queue_event :: "atbm_wsm_event \<Rightarrow> 'm atbm_common \<Rightarrow> 'm atbm_common" where
  "queue_event event hw =
     (let first = (event_queue hw = []); hw = hw\<lparr>event_queue := event_queue hw @ [event]\<rparr>
      in if first then hw\<lparr>event_works := event_works hw + 1\<rparr> else hw)"

definition wsm_event_indication ::
    "allocator \<Rightarrow> wsm_buf \<Rightarrow> nat \<Rightarrow> 'm atbm_common \<Rightarrow> (int \<times> 'm atbm_common) option" where
  "wsm_event_indication alloc buf if_id hw = (case wsm_gets [4] buf of
     None \<Rightarrow> None
   | Some (_, False, _) \<Rightarrow> Some (- EINVAL, hw)
   | Some (fs, True, buf) \<Rightarrow>
       let eventid = val32 (fs ! 0); priv = ABwifi_hwpriv_to_vifpriv hw if_id in
       if eventid \<notin> set host_events \<and> (priv = None \<or> priv = Some NL80211_IFTYPE_UNSPECIFIED)
       then Some (0, hw)
       else if eventid = WSM_EVENT_SDIO_INPUTCHAN_EVNET then
         (case wsm_gets [4] buf of
            None \<Rightarrow> None
          | Some (fs, ok, _) \<Rightarrow> Some (if ok then (0, hw\<lparr>hw_xmits := val32 (fs ! 0)\<rparr>) else (- EINVAL, hw)))
       else if alloc sizeof_wsm_event = None then Some (0, hw)
       else (case wsm_gets [MAX_SDIO_EVENT_BUFFER_LEN] buf of
            None \<Rightarrow> None
          | Some (fs, ok, _) \<Rightarrow>
              Some (if ok then (0, queue_event \<lparr>ev_eventId = eventid, ev_buffer = fs ! 0,
                                                ev_if_id = of_nat if_id\<rparr> hw)
                    else (- EINVAL, hw))))"

definition read_wsm_rx :: "bytes list \<Rightarrow> nat \<Rightarrow> wsm_rx" where
  "read_wsm_rx fs if_id = \<lparr>wrx_status = val32 (fs ! 0), wrx_channelNumber = val16 (fs ! 1),
     wrx_rxedRate = val8 (fs ! 2), wrx_rcpiRssi = val8 (fs ! 3), wrx_flags = val32 (fs ! 4),
     wrx_channel_type = val32 (fs ! 5),
     wrx_link_id = drop_bit 25 (val32 (fs ! 4) AND push_bit 25 0xf), wrx_if_id = if_id\<rparr>"

text \<open>The 802.11 frame of a receive indication starts behind its 20 bytes of header.  Whatever
  atbm_rx_cb leaves to the caller gets them back.\<close>

definition wsm_receive_indication ::
    "'m wsm_env \<Rightarrow> nat \<Rightarrow> wsm_buf \<Rightarrow> sk_buff option \<Rightarrow> 'm atbm_common \<Rightarrow>
     (int \<times> sk_buff option \<times> 'm atbm_common) option" where
  "wsm_receive_indication env if_id buf skb_p hw = (case wsm_gets [4, 2, 1, 1, 4, 4] buf of
     None \<Rightarrow> None
   | Some (_, False, _) \<Rightarrow> Some (- EINVAL, skb_p, hw)
   | Some (fs, True, buf) \<Rightarrow>
       (case ABwifi_hwpriv_to_vifpriv hw if_id of
          None \<Rightarrow> Some (0, skb_p, hw)
        | Some _ \<Rightarrow> do {
            m \<leftarrow> wb_mem buf;
            fctl \<leftarrow> rd16 m (wb_data buf);
            let hdr_len = nat (wb_data buf);
            skb \<leftarrow> skb_p;
            (skb_p, hw) \<leftarrow> env_rx_cb env (read_wsm_rx fs if_id) (skb_pull skb hdr_len) hw;
            Some (0, map_option (\<lambda>skb. skb_push skb hdr_len) skb_p, hw) }))"

definition startup_sizes :: "nat list" where
  "startup_sizes = replicate 10 2 @ [128] @ replicate 4 4 @ [2]"

text \<open>The fields are stored one by one as they are read, in the order numInpChBufs, sizeInpChBuf,
  hardwareId, hardwareSubId, status, firmwareCap, firmwareType, firmwareApiVer, firmwareBuildNumber,
  firmwareVersion, label, Config[0..3], firmwareCap2; status, label, Config and firmwareCap2 are
  local variables.\<close>

definition store_caps :: "bytes list \<Rightarrow> wsm_caps \<Rightarrow> wsm_caps" where
  "store_caps fs c =
     (let n = length fs; g = (\<lambda>i old. if i < n then val16 (fs ! i) else old)
      in c\<lparr>numInpChBufs := g 0 (numInpChBufs c), sizeInpChBuf := g 1 (sizeInpChBuf c),
           hardwareId := g 2 (hardwareId c), hardwareSubId := g 3 (hardwareSubId c),
           firmwareCap := (if 5 < n then ucast (val16 (fs ! 5)) else firmwareCap c),
           firmwareType := g 6 (firmwareType c), firmwareApiVer := g 7 (firmwareApiVer c),
           firmwareBuildNumber := g 8 (firmwareBuildNumber c), firmwareVersion := g 9 (firmwareVersion c)\<rparr>)"

definition wsm_startup_indication :: "wsm_buf \<Rightarrow> 'm atbm_common \<Rightarrow> (int \<times> 'm atbm_common) option" where
  "wsm_startup_indication buf hw = (case wsm_gets startup_sizes buf of
     None \<Rightarrow> None
   | Some (fs, ok, _) \<Rightarrow>
       let caps = store_caps fs (hw_caps hw); hw = hw\<lparr>hw_caps := caps\<rparr> in
       if \<not> ok then Some (- EINVAL, hw)
       else
         let status = val16 (fs ! 4); config = (\<lambda>i. val32 (fs ! (11 + i)));
             caps = caps\<lparr>firmwareCap := firmwareCap caps OR push_bit 16 (ucast (val16 (fs ! 15))),
                         NumOfHwXmitedAddr := config 3\<rparr>;
             hw = hw\<lparr>hw_caps := caps, hw_xmits := ucast (numInpChBufs caps),
                     hw_bufs_free := uint (numInpChBufs caps), hw_bufs_free_init := uint (numInpChBufs caps)\<rparr>
         in if status \<noteq> 0 then Some (- EINVAL, hw)
            else if firmwareType caps > 4 then Some (- EINVAL, hw)
            else Some (0, hw\<lparr>hw_caps := caps\<lparr>firmwareReady := True, exceptionaddr := config 1,
                                                  HiHwCnfBufaddr := config 2\<rparr>\<rparr>))"

text \<open>The assert message of the firmware.\<close>

definition wsm_handle_exception :: "wsm_buf \<Rightarrow> 'm atbm_common \<Rightarrow> (int \<times> 'm atbm_common) option" where
  "wsm_handle_exception buf hw = (case wsm_gets ([4] @ replicate 18 4 @ [32]) buf of
     None \<Rightarrow> None
   | Some (_, ok, _) \<Rightarrow> Some (if ok then 0 else - EINVAL, hw\<lparr>wifi_run_sta := 1\<rparr>))"

subsection \<open>The dispatcher\<close>

definition msg_buf :: "bytes \<Rightarrow> wsm_buf option" where
  "msg_buf msg = do {
     len \<leftarrow> rd16 msg 0;
     Some \<lparr>wb_mem = Some msg, wb_data = int sizeof_wsm_hdr, wb_end = uint len\<rparr> }"

definition wsm_handle_rx ::
    "'m wsm_env \<Rightarrow> u16 \<Rightarrow> bytes \<Rightarrow> sk_buff option \<Rightarrow> 'm atbm_common \<Rightarrow>
     (int \<times> sk_buff option \<times> 'm atbm_common) option" where
  "wsm_handle_rx env msg_id msg skb_p hw = do {
     let interface_link_id = unat (drop_bit 6 msg_id AND 0x0F);
     let msg_id = msg_id AND NOT (WSM_TX_LINK_ID WSM_TX_LINK_ID_MAX);
     buf \<leftarrow> msg_buf msg;
     if msg_id AND WSM_CNF_BASE \<noteq> 0 then do {
       (ret, hw) \<leftarrow> handle_confirm msg_id buf hw;
       Some (ret, skb_p, hw) }
     else if msg_id AND WSM_IND_BASE \<noteq> 0 then
       (if msg_id = WSM_STARTUP_IND_ID then do {
          (ret, hw) \<leftarrow> wsm_startup_indication buf hw;
          Some (ret, skb_p, hw) }
        else if msg_id = WSM_EVENT_INDICATION_ID then do {
          (ret, hw) \<leftarrow> wsm_event_indication (env_alloc env) buf interface_link_id hw;
          Some (ret, skb_p, hw) }
        else if msg_id = WSM_RECEIVE_INDICATION_ID \<or> msg_id = WSM_RECEIVE2_INDICATION_ID
        then wsm_receive_indication env interface_link_id buf skb_p hw
        else Some (0, skb_p, hw))
     else Some (- EINVAL, skb_p, hw) }"

end
