(* ===== verification/Wsm_Api.thy ===== *)
theory Wsm_Api
  imports Wsm_Rx
begin

text \<open>The requests of hal_apollo/wsm.c, one definition per C function.  Every one takes the command lock,
  puts its fields into the command buffer, sends the command and waits for the confirmation, and
  gives the lock back, on the path to nomem too (wsm_request).  buffer is the memory the caller
  passes with its size; after a get request the bytes the firmware returned are in ret_buf.\<close>

abbreviation (input) WSM_ADAPTIVE_REQ_ID :: u16 where "WSM_ADAPTIVE_REQ_ID \<equiv> 0x001D"
abbreviation (input) WSM_ADD_CONN_PARAM_INFO_REQ_ID :: u16 where "WSM_ADD_CONN_PARAM_INFO_REQ_ID \<equiv> 0x0030"
abbreviation (input) WSM_ADD_NETPATTERN_INFO_REQ_ID :: u16 where "WSM_ADD_NETPATTERN_INFO_REQ_ID \<equiv> 0x002E"
abbreviation (input) WSM_AP_CFG_REQ_ID :: u16 where "WSM_AP_CFG_REQ_ID \<equiv> 0x000E"
abbreviation (input) WSM_AP_TOUCH_START_REQ_ID :: u16 where "WSM_AP_TOUCH_START_REQ_ID \<equiv> 0x0015"
abbreviation (input) WSM_AP_TOUCH_STOP_REQ_ID :: u16 where "WSM_AP_TOUCH_STOP_REQ_ID \<equiv> 0x0016"
abbreviation (input) WSM_AT_CMD_REQ_ID :: u16 where "WSM_AT_CMD_REQ_ID \<equiv> 0x0023"
abbreviation (input) WSM_AUTO_RECONNECT_REQ_ID :: u16 where "WSM_AUTO_RECONNECT_REQ_ID \<equiv> 0x0036"
abbreviation (input) WSM_CHANNEL_REQ_ID :: u16 where "WSM_CHANNEL_REQ_ID \<equiv> 0x000F"
abbreviation (input) WSM_CHECK_ALIVE_REQ_ID :: u16 where "WSM_CHECK_ALIVE_REQ_ID \<equiv> 0x003A"
abbreviation (input) WSM_CLEAR_WIFI_CFG_REQ_ID :: u16 where "WSM_CLEAR_WIFI_CFG_REQ_ID \<equiv> 0x002C"
abbreviation (input) WSM_CLEAR_WK_SSID_REQ_ID :: u16 where "WSM_CLEAR_WK_SSID_REQ_ID \<equiv> 0x0035"
abbreviation (input) WSM_CONFIGURATION_REQ_ID :: u16 where "WSM_CONFIGURATION_REQ_ID \<equiv> 0x0009"
abbreviation (input) WSM_CONFIG_REQ_ID :: u16 where "WSM_CONFIG_REQ_ID \<equiv> 0x0002"
abbreviation (input) WSM_CONN_LOSE_REQ_ID :: u16 where "WSM_CONN_LOSE_REQ_ID \<equiv> 0x0033"
abbreviation (input) WSM_CONN_SWITCH_REQ_ID :: u16 where "WSM_CONN_SWITCH_REQ_ID \<equiv> 0x0032"
abbreviation (input) WSM_CUSTOMER_CERT_SAVE_REQ_ID :: u16 where "WSM_CUSTOMER_CERT_SAVE_REQ_ID \<equiv> 0x0039"
abbreviation (input) WSM_CUSTOMER_CMD_REQ_ID :: u16 where "WSM_CUSTOMER_CMD_REQ_ID \<equiv> 0x0038"
abbreviation (input) WSM_DEL_CONN_PARAM_INFO_REQ_ID :: u16 where "WSM_DEL_CONN_PARAM_INFO_REQ_ID \<equiv> 0x0031"
abbreviation (input) WSM_DEL_NETPATTERN_INFO_REQ_ID :: u16 where "WSM_DEL_NETPATTERN_INFO_REQ_ID \<equiv> 0x002F"
abbreviation (input) WSM_ETF_RESET_RX_REQ_ID :: u16 where "WSM_ETF_RESET_RX_REQ_ID \<equiv> 0x001C"
abbreviation (input) WSM_ETF_SINGLE_TONE_REQ_ID :: u16 where "WSM_ETF_SINGLE_TONE_REQ_ID \<equiv> 0x0018"
abbreviation (input) WSM_ETF_START_RX_NO_DROP_REQ_ID :: u16 where "WSM_ETF_START_RX_NO_DROP_REQ_ID \<equiv> 0x0025"
abbreviation (input) WSM_ETF_START_RX_REQ_ID :: u16 where "WSM_ETF_START_RX_REQ_ID \<equiv> 0x001A"
abbreviation (input) WSM_ETF_START_TX_REQ_ID :: u16 where "WSM_ETF_START_TX_REQ_ID \<equiv> 0x0017"
abbreviation (input) WSM_ETF_STOP_RX_REQ_ID :: u16 where "WSM_ETF_STOP_RX_REQ_ID \<equiv> 0x001B"
abbreviation (input) WSM_ETF_STOP_TX_REQ_ID :: u16 where "WSM_ETF_STOP_TX_REQ_ID \<equiv> 0x0019"
abbreviation (input) WSM_FW_SLEEP_REQ_ID :: u16 where "WSM_FW_SLEEP_REQ_ID \<equiv> 0x0026"
abbreviation (input) WSM_GET_AP_CFG_REQ_ID :: u16 where "WSM_GET_AP_CFG_REQ_ID \<equiv> 0x0021"
abbreviation (input) WSM_GET_COUNTRY_REQ_ID :: u16 where "WSM_GET_COUNTRY_REQ_ID \<equiv> 0x0011"
abbreviation (input) WSM_GET_ETF_RX_INFO_REQ_ID :: u16 where "WSM_GET_ETF_RX_INFO_REQ_ID \<equiv> 0x002D"
abbreviation (input) WSM_GET_RATE_REQ_ID :: u16 where "WSM_GET_RATE_REQ_ID \<equiv> 0x0027"
abbreviation (input) WSM_GET_RSSI_REQ_ID :: u16 where "WSM_GET_RSSI_REQ_ID \<equiv> 0x002A"
abbreviation (input) WSM_GET_SCAN_STATE_REQ_ID :: u16 where "WSM_GET_SCAN_STATE_REQ_ID \<equiv> 0x0029"
abbreviation (input) WSM_GET_SDK_VER_REQ_ID :: u16 where "WSM_GET_SDK_VER_REQ_ID \<equiv> 0x001F"
abbreviation (input) WSM_GET_STALIST_REQ_ID :: u16 where "WSM_GET_STALIST_REQ_ID \<equiv> 0x0012"
abbreviation (input) WSM_GET_TIME_REQ_ID :: u16 where "WSM_GET_TIME_REQ_ID \<equiv> 0x002B"
abbreviation (input) WSM_GET_VER_REQ_ID :: u16 where "WSM_GET_VER_REQ_ID \<equiv> 0x001E"
abbreviation (input) WSM_IPC_DATA_REQ_ID :: u16 where "WSM_IPC_DATA_REQ_ID \<equiv> 0x0028"
abbreviation (input) WSM_JOIN_REQ_ID :: u16 where "WSM_JOIN_REQ_ID \<equiv> 0x0003"
abbreviation (input) WSM_PSMODE_REQ_ID :: u16 where "WSM_PSMODE_REQ_ID \<equiv> 0x0008"
abbreviation (input) WSM_SCAN_INFO_REQ_ID :: u16 where "WSM_SCAN_INFO_REQ_ID \<equiv> 0x000B"
abbreviation (input) WSM_SCAN_REQ_ID :: u16 where "WSM_SCAN_REQ_ID \<equiv> 0x000A"
abbreviation (input) WSM_SET_COUNTRY_REQ_ID :: u16 where "WSM_SET_COUNTRY_REQ_ID \<equiv> 0x0010"
abbreviation (input) WSM_SET_DBG_PRINT_REQ_ID :: u16 where "WSM_SET_DBG_PRINT_REQ_ID \<equiv> 0x0024"
abbreviation (input) WSM_SET_LISTEN_ITVL_REQ_ID :: u16 where "WSM_SET_LISTEN_ITVL_REQ_ID \<equiv> 0x0022"
abbreviation (input) WSM_SET_WK_SSID_REQ_ID :: u16 where "WSM_SET_WK_SSID_REQ_ID \<equiv> 0x0034"
abbreviation (input) WSM_SMART_CFG_START_REQ_ID :: u16 where "WSM_SMART_CFG_START_REQ_ID \<equiv> 0x0013"
abbreviation (input) WSM_SMART_CFG_STOP_REQ_ID :: u16 where "WSM_SMART_CFG_STOP_REQ_ID \<equiv> 0x0014"
abbreviation (input) WSM_TCP_FILTER_GET_ID :: u16 where "WSM_TCP_FILTER_GET_ID \<equiv> 0x000C"
abbreviation (input) WSM_TCP_FILTER_REQ_ID :: u16 where "WSM_TCP_FILTER_REQ_ID \<equiv> 0x0009"
abbreviation (input) WSM_UPDATE_REQ_ID :: u16 where "WSM_UPDATE_REQ_ID \<equiv> 0x0020"
abbreviation (input) WSM_WAKEUP_EVENT_REQ_ID :: u16 where "WSM_WAKEUP_EVENT_REQ_ID \<equiv> 0x0037"
abbreviation (input) WSM_WIFIMODE_REQ_ID :: u16 where "WSM_WIFIMODE_REQ_ID \<equiv> 0x000D"

named_theorems wsm_api \<open>the definitions of the requests\<close>

definition wsm_request ::
    "'m wsm_env \<Rightarrow> 'm rounds \<Rightarrow> bytes list \<Rightarrow> wsm_arg \<Rightarrow> u16 \<Rightarrow> nat \<Rightarrow> int \<Rightarrow> 'm atbm_common \<Rightarrow>
     (int \<times> 'm atbm_common) option" where
  "wsm_request env rounds items arg cmd tmo if_id hw = do {
     hw \<leftarrow> wsm_cmd_lock hw;
     (ok, buf) \<leftarrow> wsm_puts (env_alloc env) items (wsm_cmd_buf hw);
     let hw = hw\<lparr>wsm_cmd_buf := buf\<rparr>;
     if ok then do {
       (ret, hw) \<leftarrow> wsm_cmd_send rounds arg cmd tmo if_id hw;
       Some (ret, wsm_cmd_unlock hw) }
     else Some (- ENOMEM, wsm_cmd_unlock hw) }"

type_synonym 'm request =
  "'m wsm_env \<Rightarrow> 'm rounds \<Rightarrow> bytes \<Rightarrow> 'm atbm_common \<Rightarrow> (int \<times> 'm atbm_common) option"

subsection \<open>Requests with a structure or several fields\<close>

record wsm_reset_arg =
  link_id :: u16
  reset_statistics :: bool

definition wsm_reset ::
    "'m wsm_env \<Rightarrow> 'm rounds \<Rightarrow> wsm_reset_arg \<Rightarrow> int \<Rightarrow> 'm atbm_common \<Rightarrow> (int \<times> 'm atbm_common) option" where
  [wsm_api]: "wsm_reset env rounds arg if_id hw =
     wsm_request env rounds [bytes32 (if reset_statistics arg then 0 else 1)] Arg_NULL
       (0x000A OR WSM_TX_LINK_ID (link_id arg)) WSM_CMD_RESET_TIMEOUT if_id hw"

definition wsm_read_shmem ::
    "'m wsm_env \<Rightarrow> 'm rounds \<Rightarrow> u32 \<Rightarrow> bytes \<Rightarrow> 'm atbm_common \<Rightarrow> (int \<times> 'm atbm_common) option" where
  [wsm_api]: "wsm_read_shmem env rounds address buffer hw =
     wsm_request env rounds [bytes32 address, bytes16 (of_nat (length buffer)), bytes16 0]
       (Shmem_arg (length buffer)) 0x0000 WSM_CMD_TIMEOUT 0 (set_ret_buf buffer hw)"

definition wsm_write_shmem ::
    "'m wsm_env \<Rightarrow> 'm rounds \<Rightarrow> u32 \<Rightarrow> bytes \<Rightarrow> 'm atbm_common \<Rightarrow> (int \<times> 'm atbm_common) option" where
  [wsm_api]: "wsm_write_shmem env rounds address buffer hw =
     wsm_request env rounds [bytes32 address, bytes16 (of_nat (length buffer)), bytes16 0, buffer]
       (Shmem_arg (length buffer)) 0x0001 WSM_CMD_TIMEOUT 0 (set_ret_buf buffer hw)"

text \<open>scan_req and the join argument are the bytes of the structures.\<close>

definition wsm_set_scan ::
    "'m wsm_env \<Rightarrow> 'm rounds \<Rightarrow> bytes \<Rightarrow> 'm atbm_common \<Rightarrow> (int \<times> 'm atbm_common) option" where
  [wsm_api]: "wsm_set_scan env rounds scan_req hw =
     wsm_request env rounds [scan_req] Arg_NULL WSM_SCAN_REQ_ID WSM_CMD_TIMEOUT 0 hw"

definition wsm_join ::
    "'m wsm_env \<Rightarrow> 'm rounds \<Rightarrow> bytes \<Rightarrow> int \<Rightarrow> 'm atbm_common \<Rightarrow> (int \<times> 'm atbm_common) option" where
  "wsm_join env rounds arg if_id hw = do {
     hw \<leftarrow> wsm_oper_lock hw;
     hw \<leftarrow> wsm_cmd_lock hw;
     (ok, buf) \<leftarrow> wsm_puts (env_alloc env) [arg] (wsm_cmd_buf hw);
     let hw = hw\<lparr>wsm_cmd_buf := buf\<rparr>;
     if ok then do {
       let hw = hw\<lparr>tx_burst_idx := -1\<rparr>;
       (ret, hw) \<leftarrow> wsm_cmd_send rounds Struct_arg WSM_JOIN_REQ_ID WSM_CMD_JOIN_TIMEOUT if_id hw;
       Some (ret, wsm_oper_unlock (wsm_cmd_unlock hw)) }
     else Some (- ENOMEM, wsm_oper_unlock (wsm_cmd_unlock hw)) }"

record wsm_configuration_arg =
  dot11MaxTransmitMsduLifeTime :: u32
  dot11MaxReceiveLifeTime :: u32
  dot11RtsThreshold :: u32
  dot11StationId :: mac
  dpdData :: bytes

definition wsm_configuration ::
    "'m wsm_env \<Rightarrow> 'm rounds \<Rightarrow> wsm_configuration_arg \<Rightarrow> int \<Rightarrow> 'm atbm_common \<Rightarrow> (int \<times> 'm atbm_common) option" where
  [wsm_api]: "wsm_configuration env rounds arg if_id hw =
     wsm_request env rounds
       [bytes32 (dot11MaxTransmitMsduLifeTime arg), bytes32 (dot11MaxReceiveLifeTime arg),
        bytes32 (dot11RtsThreshold arg), bytes16 (of_nat (length (dpdData arg)) + 12), bytes16 1,
        take 6 (dot11StationId arg), bytes16 5, dpdData arg]
       Struct_arg WSM_CONFIGURATION_REQ_ID WSM_CMD_TIMEOUT if_id hw"

definition wsm_send_ipc_data ::
    "'m wsm_env \<Rightarrow> bytes \<Rightarrow> 'm atbm_common \<Rightarrow> (int \<times> 'm atbm_common) option" where
  "wsm_send_ipc_data env buffer hw = do {
     hw \<leftarrow> wsm_cmd_lock hw;
     (ok, buf) \<leftarrow> wsm_puts (env_alloc env) [buffer] (wsm_cmd_buf hw);
     let hw = hw\<lparr>wsm_cmd_buf := buf\<rparr>;
     if ok then do {
       (ret, hw) \<leftarrow> wsm_cmd_send_no_ack env WSM_IPC_DATA_REQ_ID 0 hw;
       Some (ret, wsm_cmd_unlock hw) }
     else Some (- ENOMEM, wsm_cmd_unlock hw) }"

subsection \<open>Requests with a buffer of the caller\<close>

definition wsm_get_config :: "'m request" where
  [wsm_api]: "wsm_get_config env rounds buffer hw = wsm_request env rounds [bytes16 (of_nat (length buffer))] (Get_arg (length buffer))
     WSM_CONFIG_REQ_ID WSM_CMD_TIMEOUT 0 (set_ret_buf buffer hw)"

definition wsm_set_tcp_filter :: "'m request" where
  [wsm_api]: "wsm_set_tcp_filter env rounds buffer hw = wsm_request env rounds [buffer] Arg_NULL WSM_TCP_FILTER_REQ_ID WSM_CMD_TIMEOUT 0 hw"

definition wsm_get_tcp_filter :: "'m request" where
  [wsm_api]: "wsm_get_tcp_filter env rounds buffer hw = wsm_request env rounds [bytes16 (of_nat (length buffer))] (Get_arg (length buffer))
     WSM_TCP_FILTER_GET_ID WSM_CMD_TIMEOUT 0 (set_ret_buf buffer hw)"

definition wsm_set_psmode :: "'m request" where
  [wsm_api]: "wsm_set_psmode env rounds buffer hw = wsm_request env rounds [buffer] Arg_NULL WSM_PSMODE_REQ_ID WSM_CMD_TIMEOUT 0 hw"

definition wsm_get_scan_info :: "'m request" where
  [wsm_api]: "wsm_get_scan_info env rounds buffer hw = wsm_request env rounds [buffer] (Get_arg (length buffer))
     WSM_SCAN_INFO_REQ_ID WSM_CMD_TIMEOUT 0 (set_ret_buf buffer hw)"

definition wsm_set_wifimode :: "'m request" where
  [wsm_api]: "wsm_set_wifimode env rounds buffer hw = wsm_request env rounds [buffer] Arg_NULL WSM_WIFIMODE_REQ_ID WSM_CMD_TIMEOUT 0 hw"

definition wsm_set_ap_cfg :: "'m request" where
  [wsm_api]: "wsm_set_ap_cfg env rounds buffer hw = wsm_request env rounds [buffer] Arg_NULL WSM_AP_CFG_REQ_ID WSM_CMD_TIMEOUT 0 hw"

definition wsm_set_wifichannel :: "'m request" where
  [wsm_api]: "wsm_set_wifichannel env rounds buffer hw = wsm_request env rounds [buffer] Arg_NULL WSM_CHANNEL_REQ_ID WSM_CMD_TIMEOUT 0 hw"

definition wsm_set_countryId :: "'m request" where
  [wsm_api]: "wsm_set_countryId env rounds buffer hw = wsm_request env rounds [buffer] Arg_NULL WSM_SET_COUNTRY_REQ_ID WSM_CMD_TIMEOUT 0 hw"

definition wsm_get_countryId :: "'m request" where
  [wsm_api]: "wsm_get_countryId env rounds buffer hw = wsm_request env rounds [bytes16 (of_nat (length buffer))] (Get_arg (length buffer))
     WSM_GET_COUNTRY_REQ_ID WSM_CMD_TIMEOUT 0 (set_ret_buf buffer hw)"

definition wsm_get_stalist :: "'m request" where
  [wsm_api]: "wsm_get_stalist env rounds buffer hw = wsm_request env rounds [bytes16 (of_nat (length buffer))] (Get_arg (length buffer))
     WSM_GET_STALIST_REQ_ID WSM_CMD_TIMEOUT 0 (set_ret_buf buffer hw)"

definition wsm_smart_cfg_start :: "'m request" where
  [wsm_api]: "wsm_smart_cfg_start env rounds buffer hw = wsm_request env rounds [buffer] Arg_NULL WSM_SMART_CFG_START_REQ_ID WSM_CMD_TIMEOUT 0 hw"

definition wsm_smart_cfg_stop :: "'m request" where
  [wsm_api]: "wsm_smart_cfg_stop env rounds buffer hw = wsm_request env rounds [buffer] Arg_NULL WSM_SMART_CFG_STOP_REQ_ID WSM_CMD_TIMEOUT 0 hw"

definition wsm_ap_touch_start :: "'m request" where
  [wsm_api]: "wsm_ap_touch_start env rounds buffer hw = wsm_request env rounds [buffer] Arg_NULL WSM_AP_TOUCH_START_REQ_ID WSM_CMD_TIMEOUT 0 hw"

definition wsm_ap_touch_stop :: "'m request" where
  [wsm_api]: "wsm_ap_touch_stop env rounds buffer hw = wsm_request env rounds [buffer] Arg_NULL WSM_AP_TOUCH_STOP_REQ_ID WSM_CMD_TIMEOUT 0 hw"

definition wsm_etf_start_tx :: "'m request" where
  [wsm_api]: "wsm_etf_start_tx env rounds buffer hw = wsm_request env rounds [buffer] Arg_NULL WSM_ETF_START_TX_REQ_ID WSM_CMD_TIMEOUT 0 hw"

definition wsm_etf_single_tone :: "'m request" where
  [wsm_api]: "wsm_etf_single_tone env rounds buffer hw = wsm_request env rounds [buffer] Arg_NULL WSM_ETF_SINGLE_TONE_REQ_ID WSM_CMD_TIMEOUT 0 hw"

definition wsm_etf_stop_tx :: "'m request" where
  [wsm_api]: "wsm_etf_stop_tx env rounds buffer hw = wsm_request env rounds [buffer] Arg_NULL WSM_ETF_STOP_TX_REQ_ID WSM_CMD_TIMEOUT 0 hw"

definition wsm_etf_start_rx :: "'m request" where
  [wsm_api]: "wsm_etf_start_rx env rounds buffer hw = wsm_request env rounds [buffer] Arg_NULL WSM_ETF_START_RX_REQ_ID WSM_CMD_TIMEOUT 0 hw"

definition wsm_etf_start_rx_no_drop :: "'m request" where
  [wsm_api]: "wsm_etf_start_rx_no_drop env rounds buffer hw = wsm_request env rounds [buffer] Arg_NULL WSM_ETF_START_RX_NO_DROP_REQ_ID WSM_CMD_TIMEOUT 0 hw"

definition wsm_etf_stop_rx :: "'m request" where
  [wsm_api]: "wsm_etf_stop_rx env rounds buffer hw = wsm_request env rounds [buffer] Arg_NULL WSM_ETF_STOP_RX_REQ_ID WSM_CMD_TIMEOUT 0 hw"

definition wsm_etf_reset_rx :: "'m request" where
  [wsm_api]: "wsm_etf_reset_rx env rounds buffer hw = wsm_request env rounds [buffer] Arg_NULL WSM_ETF_RESET_RX_REQ_ID WSM_CMD_TIMEOUT 0 hw"

definition wsm_set_adaptive :: "'m request" where
  [wsm_api]: "wsm_set_adaptive env rounds buffer hw = wsm_request env rounds [buffer] Arg_NULL WSM_ADAPTIVE_REQ_ID WSM_CMD_TIMEOUT 0 hw"

definition wsm_get_ver :: "'m request" where
  [wsm_api]: "wsm_get_ver env rounds buffer hw = wsm_request env rounds [bytes16 (of_nat (length buffer))] (Get_arg (length buffer))
     WSM_GET_VER_REQ_ID WSM_CMD_TIMEOUT 0 (set_ret_buf buffer hw)"

definition wsm_get_sdk_ver :: "'m request" where
  [wsm_api]: "wsm_get_sdk_ver env rounds buffer hw = wsm_request env rounds [bytes16 (of_nat (length buffer))] (Get_arg (length buffer))
     WSM_GET_SDK_VER_REQ_ID WSM_CMD_TIMEOUT 0 (set_ret_buf buffer hw)"

definition wsm_update_fw :: "'m request" where
  [wsm_api]: "wsm_update_fw env rounds buffer hw = wsm_request env rounds [buffer] Arg_NULL WSM_UPDATE_REQ_ID WSM_CMD_TIMEOUT 0 hw"

definition wsm_get_ap_cfg :: "'m request" where
  [wsm_api]: "wsm_get_ap_cfg env rounds buffer hw = wsm_request env rounds [bytes16 (of_nat (length buffer))] (Get_arg (length buffer))
     WSM_GET_AP_CFG_REQ_ID WSM_CMD_TIMEOUT 0 (set_ret_buf buffer hw)"

definition wsm_set_listen_itvl :: "'m request" where
  [wsm_api]: "wsm_set_listen_itvl env rounds buffer hw = wsm_request env rounds [buffer] Arg_NULL WSM_SET_LISTEN_ITVL_REQ_ID WSM_CMD_TIMEOUT 0 hw"

definition wsm_send_at_cmd :: "'m request" where
  [wsm_api]: "wsm_send_at_cmd env rounds buffer hw = wsm_request env rounds [buffer] Arg_NULL WSM_AT_CMD_REQ_ID WSM_CMD_TIMEOUT 0 hw"

definition wsm_set_dbg_print :: "'m request" where
  [wsm_api]: "wsm_set_dbg_print env rounds buffer hw = wsm_request env rounds [buffer] Arg_NULL WSM_SET_DBG_PRINT_REQ_ID WSM_CMD_TIMEOUT 0 hw"

definition wsm_fw_sleep :: "'m request" where
  [wsm_api]: "wsm_fw_sleep env rounds buffer hw = wsm_request env rounds [buffer] Arg_NULL WSM_FW_SLEEP_REQ_ID WSM_CMD_TIMEOUT 0 hw"

definition wsm_get_tx_rate :: "'m request" where
  [wsm_api]: "wsm_get_tx_rate env rounds buffer hw = wsm_request env rounds [bytes16 (of_nat (length buffer))] (Get_arg (length buffer))
     WSM_GET_RATE_REQ_ID WSM_CMD_TIMEOUT 0 (set_ret_buf buffer hw)"

definition wsm_get_scan_state :: "'m request" where
  [wsm_api]: "wsm_get_scan_state env rounds buffer hw = wsm_request env rounds [bytes16 (of_nat (length buffer))] (Get_arg (length buffer))
     WSM_GET_SCAN_STATE_REQ_ID WSM_CMD_TIMEOUT 0 (set_ret_buf buffer hw)"

definition wsm_get_rssi :: "'m request" where
  [wsm_api]: "wsm_get_rssi env rounds buffer hw = wsm_request env rounds [bytes16 (of_nat (length buffer))] (Get_arg (length buffer))
     WSM_GET_RSSI_REQ_ID WSM_CMD_TIMEOUT 0 (set_ret_buf buffer hw)"

definition wsm_get_time :: "'m request" where
  [wsm_api]: "wsm_get_time env rounds buffer hw = wsm_request env rounds [bytes16 (of_nat (length buffer))] (Get_arg (length buffer))
     WSM_GET_TIME_REQ_ID WSM_CMD_TIMEOUT 0 (set_ret_buf buffer hw)"

definition wsm_clear_wifi_config :: "'m request" where
  [wsm_api]: "wsm_clear_wifi_config env rounds buffer hw = wsm_request env rounds [buffer] Arg_NULL WSM_CLEAR_WIFI_CFG_REQ_ID WSM_CMD_TIMEOUT 0 hw"

definition wsm_get_etf_rx_info :: "'m request" where
  [wsm_api]: "wsm_get_etf_rx_info env rounds buffer hw = wsm_request env rounds [bytes16 (of_nat (length buffer))] (Get_arg (length buffer))
     WSM_GET_ETF_RX_INFO_REQ_ID WSM_CMD_TIMEOUT 0 (set_ret_buf buffer hw)"

definition wsm_add_netpattern_info :: "'m request" where
  [wsm_api]: "wsm_add_netpattern_info env rounds buffer hw = wsm_request env rounds [buffer] Arg_NULL WSM_ADD_NETPATTERN_INFO_REQ_ID WSM_CMD_TIMEOUT 0 hw"

definition wsm_del_netpattern_info :: "'m request" where
  [wsm_api]: "wsm_del_netpattern_info env rounds buffer hw = wsm_request env rounds [buffer] Arg_NULL WSM_DEL_NETPATTERN_INFO_REQ_ID WSM_CMD_TIMEOUT 0 hw"

definition wsm_add_conn_param_info :: "'m request" where
  [wsm_api]: "wsm_add_conn_param_info env rounds buffer hw = wsm_request env rounds [buffer] Arg_NULL WSM_ADD_CONN_PARAM_INFO_REQ_ID WSM_CMD_TIMEOUT 0 hw"

definition wsm_del_conn_param_info :: "'m request" where
  [wsm_api]: "wsm_del_conn_param_info env rounds buffer hw = wsm_request env rounds [buffer] Arg_NULL WSM_DEL_CONN_PARAM_INFO_REQ_ID WSM_CMD_TIMEOUT 0 hw"

definition wsm_conn_switch :: "'m request" where
  [wsm_api]: "wsm_conn_switch env rounds buffer hw = wsm_request env rounds [buffer] Arg_NULL WSM_CONN_SWITCH_REQ_ID WSM_CMD_TIMEOUT 0 hw"

definition wsm_conn_lose :: "'m request" where
  [wsm_api]: "wsm_conn_lose env rounds buffer hw = wsm_request env rounds [bytes16 (of_nat (length buffer))] (Get_arg (length buffer))
     WSM_CONN_LOSE_REQ_ID WSM_CMD_TIMEOUT 0 (set_ret_buf buffer hw)"

definition wsm_set_wakeup_ssid :: "'m request" where
  [wsm_api]: "wsm_set_wakeup_ssid env rounds buffer hw = wsm_request env rounds [buffer] Arg_NULL WSM_SET_WK_SSID_REQ_ID WSM_CMD_TIMEOUT 0 hw"

definition wsm_clear_wakeup_ssid :: "'m request" where
  [wsm_api]: "wsm_clear_wakeup_ssid env rounds buffer hw = wsm_request env rounds [buffer] Arg_NULL WSM_CLEAR_WK_SSID_REQ_ID WSM_CMD_TIMEOUT 0 hw"

definition wsm_auto_reconnect :: "'m request" where
  [wsm_api]: "wsm_auto_reconnect env rounds buffer hw = wsm_request env rounds [buffer] Arg_NULL WSM_AUTO_RECONNECT_REQ_ID WSM_CMD_TIMEOUT 0 hw"

definition wsm_set_wakeup_event :: "'m request" where
  [wsm_api]: "wsm_set_wakeup_event env rounds buffer hw = wsm_request env rounds [buffer] Arg_NULL WSM_WAKEUP_EVENT_REQ_ID WSM_CMD_TIMEOUT 0 hw"

definition wsm_send_customer_cmd :: "'m request" where
  [wsm_api]: "wsm_send_customer_cmd env rounds buffer hw = wsm_request env rounds [buffer] Arg_NULL WSM_CUSTOMER_CMD_REQ_ID WSM_CMD_TIMEOUT 0 hw"

definition wsm_customer_cert_save :: "'m request" where
  [wsm_api]: "wsm_customer_cert_save env rounds buffer hw = wsm_request env rounds [buffer] Arg_NULL WSM_CUSTOMER_CERT_SAVE_REQ_ID WSM_CMD_TIMEOUT 0 hw"

definition wsm_check_alive :: "'m request" where
  [wsm_api]: "wsm_check_alive env rounds buffer hw = wsm_request env rounds [buffer] Arg_NULL WSM_CHECK_ALIVE_REQ_ID WSM_CMD_TIMEOUT 0 hw"

end
