(* ===== verification/Wsm_Props.thy ===== *)
theory Wsm_Props
  imports Wsm_Api
begin

text \<open>What a request of wsm.c does: the message the firmware gets, the result for every answer, and what
  happens when no matching answer comes.\<close>

text \<open>No command is under way and the command buffer is empty.\<close>

definition wsm_idle :: "'m atbm_common \<Rightarrow> bool" where
  "wsm_idle hw \<longleftrightarrow> wb_ready (wsm_cmd_buf hw) \<and> wb_data (wsm_cmd_buf hw) = 8 \<and>
     (case wb_mem (wsm_cmd_buf hw) of None \<Rightarrow> False | Some m \<Rightarrow> take 4 m = [0, 0, 0, 0]) \<and>
     cmd_ptr (hw_wsm_cmd hw) = None \<and> \<not> wsm_cmd_mux hw \<and> cmd_wq_wakeups hw = 0"

text \<open>The bus thread takes the next message, hands it to the firmware fw and passes its answer, an
  identifier and a message, to wsm_handle_rx.\<close>

definition bus_exchange ::
    "'m wsm_env \<Rightarrow> (bytes \<Rightarrow> u16 \<times> bytes) \<Rightarrow> 'm atbm_common \<Rightarrow> 'm atbm_common option" where
  "bus_exchange env fw hw = do {
     (it, hw) \<leftarrow> wsm_get_tx hw;
     it \<leftarrow> it;
     m \<leftarrow> wb_mem (wsm_cmd_buf hw);
     bs \<leftarrow> rdn m 0 (unat (tx_len it));
     let hw = snd (wsm_txed (tx_ptr it) hw);
     let (cid, msg) = fw bs;
     (_, _, hw) \<leftarrow> wsm_handle_rx env cid msg None hw;
     Some hw }"

text \<open>The message the firmware gets.\<close>

definition wsm_message :: "u16 \<Rightarrow> int \<Rightarrow> bytes \<Rightarrow> bytes" where
  "wsm_message cmd if_id payload = [0, 0, 0, 0] @ bytes16 (of_nat (8 + length payload)) @
     bytes16 (cmd OR push_bit 6 (real_if_id if_id)) @ payload"

abbreviation (input) strip_link :: "u16 \<Rightarrow> u16" where
  "strip_link x \<equiv> x AND NOT (WSM_TX_LINK_ID WSM_TX_LINK_ID_MAX)"

lemma fill_header_ok:
  assumes "wb_ready buf" "wb_mem buf = Some m" "take 4 m = [0, 0, 0, 0]"
  shows "fill_header buf l c i
     = Some (buf\<lparr>wb_mem := Some ([0, 0, 0, 0] @ bytes16 l @ bytes16 (c OR push_bit 6 i) @ drop 8 m)\<rparr>)"
proof -
  have L: "8 \<le> length m" using assms(1,2) by (auto simp: wb_ready_def)
  have w1: "wr16 m 4 l = Some ([0, 0, 0, 0] @ bytes16 l @ drop 6 m)"
    using L assms(3) by (simp add: wr16_def wrn_def)
  have w2: "wr16 ([0, 0, 0, 0] @ bytes16 l @ drop 6 m) 6 x = Some ([0, 0, 0, 0] @ bytes16 l @ bytes16 x @ drop 8 m)" for x
    using L by (simp add: wr16_def wrn_def bytes16_def)
  show ?thesis unfolding fill_header_def assms(2) bind.bind_lunit w1 w2 ..
qed

lemma put_keeps_flag:
  assumes "wsm_put alloc bs buf = Some (True, buf')" "wb_ready buf" "int (length bs) \<le> wb_room buf"
    "wb_mem buf = Some m" "wb_mem buf' = Some m'"
  shows "take 4 m' = take 4 m"
proof -
  have "4 \<le> nat (wb_data buf)" using assms(2) by (auto simp: wb_ready_def)
  then show ?thesis using assms
    by (auto simp: wsm_put_def wb_room_def wb_ready_def wrn_def min_def split: if_splits)
qed

lemma puts_keep_flag:
  assumes "wsm_puts alloc bss buf = Some (True, buf')" "wb_ready buf" "int (length (concat bss)) \<le> wb_room buf"
    "wb_mem buf = Some m" "wb_mem buf' = Some m'"
  shows "take 4 m' = take 4 m"
  using assms
proof (induction bss arbitrary: buf m)
  case (Cons bs bss)
  then obtain b1 where b1: "wsm_put alloc bs buf = Some (True, b1)" "wb_ready b1"
    "wb_room b1 = wb_room buf - int (length bs)"
    using put_fits[of buf bs alloc] by auto
  then obtain m1 where m1: "wb_mem b1 = Some m1" by (auto simp: wb_ready_def)
  have "take 4 m1 = take 4 m" by (rule put_keeps_flag[OF b1(1)]) (use Cons.prems m1 in auto)
  moreover have "take 4 m' = take 4 m1"
    by (rule Cons.IH[of b1]) (use Cons.prems b1 m1 in auto)
  ultimately show ?case by simp
qed simp

text \<open>What sending the buffer does, given what the bus thread does while the sender waits.\<close>

lemma exchange_ok:
  assumes ptr: "cmd_ptr (hw_wsm_cmd hw) = Some Cmd_buffer" and len: "unat (cmd_len (hw_wsm_cmd hw)) = length msg"
    and mem: "wb_mem (wsm_cmd_buf hw) = Some (msg @ rest)"
    and fw: "fw msg = (cid, ans)" "msg_buf ans = Some rb"
    and cid: "strip_link cid AND WSM_CNF_BASE \<noteq> 0" "strip_link cid AND NOT WSM_CNF_BASE = strip_link (cmd_cmd (hw_wsm_cmd hw))"
    and sw: "\<And>h :: 'm atbm_common. confirm_switch (strip_link cid) (cmd_arg (hw_wsm_cmd hw)) rb h = Some (r, upd h)"
    and upd: "upd = id \<or> (\<exists>bs. upd = set_ret_buf bs)"
  shows "\<exists>c. bus_exchange env fw (hw :: 'm atbm_common)
      = Some (upd hw\<lparr>hw_wsm_cmd := c, cmd_wq_wakeups := cmd_wq_wakeups hw + 1\<rparr>) \<and>
     cmd_done c \<and> cmd_ret c = r \<and> cmd_ptr c = None"
proof -
  define hw1 where "hw1 = snd (wsm_txed Cmd_buffer hw)"
  have g: "wsm_get_tx hw = Some (Some \<lparr>tx_ptr = Cmd_buffer, tx_len = cmd_len (hw_wsm_cmd hw),
      tx_vif = -1, tx_skb = None\<rparr>, hw)" by (simp add: wsm_get_tx_def ptr)
  have h1: "hw1 = hw\<lparr>hw_wsm_cmd := (hw_wsm_cmd hw)\<lparr>cmd_last_send := cmd_cmd (hw_wsm_cmd hw), cmd_ptr := None\<rparr>\<rparr>"
    by (simp add: hw1_def wsm_txed_def ptr)
  have rd: "rdn (msg @ rest) 0 (length msg) = Some msg" by (simp add: rdn_def)
  have hc: "\<exists>c. handle_confirm (strip_link cid) rb hw1
      = Some (0, upd hw\<lparr>hw_wsm_cmd := c, cmd_wq_wakeups := cmd_wq_wakeups hw + 1\<rparr>) \<and>
     cmd_done c \<and> cmd_ret c = r \<and> cmd_ptr c = None"
    using sw cid(2) upd unfolding handle_confirm_def h1 Let_def
    by (intro exI[of _ "(hw_wsm_cmd hw)\<lparr>cmd_ptr := None, cmd_cmd := 0xFFFF, cmd_last_send := 0xFFFF,
          cmd_ret := r, cmd_done := True\<rparr>"], elim disjE exE) (simp_all add: set_ret_buf_def)
  then show ?thesis
    using g rd cid(1) fw by (auto simp: bus_exchange_def mem len hw1_def[symmetric] wsm_handle_rx_def Let_def)
qed


lemma idle_lock: "wsm_idle hw \<Longrightarrow> wsm_cmd_lock hw = Some (hw\<lparr>wsm_cmd_mux := True\<rparr>)"
  by (simp add: wsm_idle_def wsm_cmd_lock_def)

lemma idle_puts:
  assumes "wsm_idle hw" "int (length (concat items)) \<le> wb_room (wsm_cmd_buf hw)"
  shows "\<exists>buf m. wsm_puts alloc items (wsm_cmd_buf hw) = Some (True, buf) \<and> wb_ready buf \<and> wb_mem buf = Some m \<and>
     take 4 m = [0, 0, 0, 0] \<and> drop 8 m = concat items @ drop (8 + length (concat items)) m \<and>
     wb_data buf = int (8 + length (concat items)) \<and> wb_end buf = wb_end (wsm_cmd_buf hw)"
proof -
  obtain m0 where m0: "wb_ready (wsm_cmd_buf hw)" "wb_data (wsm_cmd_buf hw) = 8"
    "wb_mem (wsm_cmd_buf hw) = Some m0" "take 4 m0 = [0, 0, 0, 0]" "wb_payload (wsm_cmd_buf hw) = []"
    using assms(1) by (auto simp: wsm_idle_def wb_payload_def split: option.splits)
  obtain buf where b: "wsm_puts alloc items (wsm_cmd_buf hw) = Some (True, buf)" "wb_ready buf"
    "wb_payload buf = concat items" "wb_end buf = wb_end (wsm_cmd_buf hw)"
    using puts_fit[OF m0(1) assms(2), of alloc] m0(5) by auto
  obtain m where m: "wb_mem buf = Some m" "8 \<le> wb_data buf" "wb_data buf \<le> int (length m)"
    using b(2) by (auto simp: wb_ready_def)
  have "take 4 m = [0, 0, 0, 0]" using puts_keep_flag[OF b(1) m0(1) assms(2) m0(3) m(1)] m0(4) by simp
  moreover have p: "take (nat (wb_data buf) - 8) (drop 8 m) = concat items" using b(3) m by (simp add: wb_payload_def)
  then have "length (concat items) = nat (wb_data buf) - 8"
    using m by (metis diff_le_mono length_drop length_take min.absorb2 nat_int nat_mono)
  ultimately show ?thesis using b m p append_take_drop_id[of "nat (wb_data buf) - 8" "drop 8 m"]
    by (intro exI[of _ buf] exI[of _ m]) (auto simp: add.commute)
qed

lemma reset_after:
  assumes "wb_mem buf = Some m" "8 \<le> length m" "wb_end buf = int (length m)"
  shows "\<exists>buf'. wsm_buf_reset buf = Some buf' \<and> wb_ready buf' \<and> wb_data buf' = 8 \<and> wb_end buf' = wb_end buf \<and>
     (\<exists>m'. wb_mem buf' = Some m' \<and> take 4 m' = [0, 0, 0, 0])"
  using assms by (auto simp: wsm_buf_reset_def wr32_def wrn_def bytes32_def wb_ready_def)

text \<open>What an answered request leaves alone.\<close>

definition request_only :: "'m atbm_common \<Rightarrow> 'm atbm_common \<Rightarrow> bool" where
  "request_only hw hw' \<longleftrightarrow> mac hw' = mac hw \<and> vif_type hw' = vif_type hw \<and> lwip_enable hw' = lwip_enable hw \<and>
     lwip_queue_enable hw' = lwip_queue_enable hw \<and> event_queue hw' = event_queue hw \<and>
     tx_frame_queue hw' = tx_frame_queue hw"

text \<open>What other threads do while the sender of a command waits for its confirmation: they leave the command
  interface alone, because the sender holds the command lock.  Nothing is asked of them in a state
  where the lock is free.\<close>

definition quiet :: "('m atbm_common \<Rightarrow> 'm atbm_common option) \<Rightarrow> bool" where
  "quiet others \<longleftrightarrow> (\<forall>h. wsm_cmd_mux h \<and> \<not> cmd_done (hw_wsm_cmd h) \<longrightarrow>
     (\<exists>h'. others h = Some h' \<and> wsm_cmd_mux h' \<and> hw_wsm_cmd h' = hw_wsm_cmd h \<and> wsm_cmd_buf h' = wsm_cmd_buf h \<and>
        cmd_wq_wakeups h' = cmd_wq_wakeups h))"

fun run_steps :: "('m atbm_common \<Rightarrow> 'm atbm_common option) list \<Rightarrow> 'm atbm_common \<Rightarrow> 'm atbm_common option" where
  "run_steps [] h = Some h"
| "run_steps (f # fs) h = do { h \<leftarrow> f h; run_steps fs h }"

lemma quiet_steps: "list_all quiet fs \<Longrightarrow> quiet (run_steps fs)"
proof (induction fs)
  case (Cons f fs)
  show ?case unfolding quiet_def
  proof (intro allI impI)
    fix h :: "'a atbm_common"
    assume h: "wsm_cmd_mux h \<and> \<not> cmd_done (hw_wsm_cmd h)"
    then obtain h1 where h1: "f h = Some h1" "wsm_cmd_mux h1" "hw_wsm_cmd h1 = hw_wsm_cmd h" "wsm_cmd_buf h1 = wsm_cmd_buf h"
      "cmd_wq_wakeups h1 = cmd_wq_wakeups h" using Cons.prems by (auto simp: quiet_def)
    then obtain h2 where "run_steps fs h1 = Some h2" "wsm_cmd_mux h2" "hw_wsm_cmd h2 = hw_wsm_cmd h1"
      "wsm_cmd_buf h2 = wsm_cmd_buf h1" "cmd_wq_wakeups h2 = cmd_wq_wakeups h1"
      using Cons h by (auto simp: quiet_def)
    then show "\<exists>h'. run_steps (f # fs) h = Some h' \<and> wsm_cmd_mux h' \<and> hw_wsm_cmd h' = hw_wsm_cmd h \<and>
        wsm_cmd_buf h' = wsm_cmd_buf h \<and> cmd_wq_wakeups h' = cmd_wq_wakeups h" using h1 by auto
  qed
qed (simp add: quiet_def)

text \<open>A request on an idle interface whose payload fits, answered by the firmware after the steps of other
  threads.\<close>

lemma request_run_after:
  assumes idle: "wsm_idle (hw :: 'm atbm_common)"
    and fits: "int (length (concat items)) \<le> wb_room (wsm_cmd_buf hw)" "length (concat items) + 8 < 2 ^ 16"
    and fw: "fw (wsm_message cmd if_id (concat items)) = (cid, ans)" "msg_buf ans = Some rb"
    and cid: "strip_link cid AND WSM_CNF_BASE \<noteq> 0" "strip_link cid AND NOT WSM_CNF_BASE = strip_link cmd"
    and sw: "\<And>h :: 'm atbm_common. confirm_switch (strip_link cid) arg rb h = Some (r, upd h)"
    and upd: "upd = id \<or> (\<exists>bs. upd = set_ret_buf bs)"
    and q: "quiet pre"
  shows "\<exists>hw' h0 h1. wsm_request env ((t, \<lambda>h. do { h \<leftarrow> pre h; bus_exchange env fw h }) # rs) items arg cmd tmo if_id hw = Some (r, hw') \<and>
     wsm_idle hw' \<and> wb_end (wsm_cmd_buf hw') = wb_end (wsm_cmd_buf hw) \<and> pre h0 = Some h1 \<and>
     request_only hw h0 \<and> ret_buf h0 = ret_buf hw \<and> ret_buf hw' = ret_buf (upd h1) \<and> request_only h1 hw'"
proof -
  define n where "n = 8 + length (concat items)"
  obtain buf m where b: "wsm_puts (env_alloc env) items (wsm_cmd_buf hw) = Some (True, buf)" "wb_ready buf"
    "wb_mem buf = Some m" "take 4 m = [0, 0, 0, 0]" "drop 8 m = concat items @ drop n m"
    "wb_data buf = int n" "wb_end buf = wb_end (wsm_cmd_buf hw)"
    using idle_puts[OF idle fits(1), of "env_alloc env"] by (auto simp: n_def)
  define msg where "msg = wsm_message cmd if_id (concat items)"
  have lm: "length msg = n" by (simp add: msg_def wsm_message_def n_def)
  define buf2 where "buf2 = buf\<lparr>wb_mem := Some (msg @ drop n m)\<rparr>"
  have f: "fill_header buf (of_int (wb_data buf)) cmd (real_if_id if_id) = Some buf2"
    using fill_header_ok[OF b(2,3,4), of "of_int (wb_data buf)" cmd "real_if_id if_id"] b(5,6)
    by (simp add: buf2_def msg_def wsm_message_def n_def)
  define hw1 where "hw1 = hw\<lparr>wsm_cmd_mux := True, wsm_cmd_buf := buf\<rparr>"
  define hw2 where "hw2 = hw1\<lparr>wsm_cmd_buf := buf2, hw_wsm_cmd := (hw_wsm_cmd hw1)\<lparr>cmd_done := False,
      cmd_ptr := Some Cmd_buffer, cmd_len := of_int (wb_data buf), cmd_arg := arg, cmd_cmd := cmd\<rparr>\<rparr>"
  define hw3 where "hw3 = atbm_bh_wakeup hw2"
  have post: "post_command arg cmd (of_int (wb_data buf)) (hw1\<lparr>wsm_cmd_buf := buf2\<rparr>) = Some hw2"
    using idle by (simp add: post_command_def wsm_idle_def hw1_def hw2_def)
  have "n < 65536" using fits(2) by (simp add: n_def)
  then have un: "unat (of_int (wb_data buf) :: u32) = n" by (simp add: b(6) unat_of_nat)
  have h3: "cmd_ptr (hw_wsm_cmd hw3) = Some Cmd_buffer" "unat (cmd_len (hw_wsm_cmd hw3)) = length msg"
    "wb_mem (wsm_cmd_buf hw3) = Some (msg @ drop n m)" "cmd_arg (hw_wsm_cmd hw3) = arg"
    "cmd_cmd (hw_wsm_cmd hw3) = cmd" "cmd_wq_wakeups hw3 = 0" "wsm_cmd_buf hw3 = buf2"
    using un lm idle
    by (simp_all add: hw3_def hw2_def hw1_def atbm_bh_wakeup_def buf2_def wsm_idle_def)
  have m3: "wsm_cmd_mux hw3" "\<not> cmd_done (hw_wsm_cmd hw3)" "request_only hw hw3" "ret_buf hw3 = ret_buf hw"
    by (simp_all add: hw3_def hw2_def hw1_def atbm_bh_wakeup_def request_only_def)
  then obtain hq where q3: "pre hw3 = Some hq" "hw_wsm_cmd hq = hw_wsm_cmd hw3" "wsm_cmd_buf hq = wsm_cmd_buf hw3"
    "cmd_wq_wakeups hq = cmd_wq_wakeups hw3" using q unfolding quiet_def by blast
  note h3 = h3[folded q3(2-4)]
  obtain c where c: "bus_exchange env fw hq = Some (upd hq\<lparr>hw_wsm_cmd := c, cmd_wq_wakeups := 1\<rparr>)"
    "cmd_done c" "cmd_ret c = r" "cmd_ptr c = None"
    using exchange_ok[where fw = fw and upd = upd and r = r and env = env,
        OF h3(1-3) fw(1)[folded msg_def] fw(2) cid(1)] cid(2) sw upd h3 by auto
  define hw5 where "hw5 = upd hq\<lparr>hw_wsm_cmd := c, cmd_wq_wakeups := 0\<rparr>"
  let ?ex = "\<lambda>h. do { h \<leftarrow> pre h; bus_exchange env fw h }"
  have wait: "wait_event_timeout ?ex hw3 = Some (True, hw5)"
    using c q3(1) by (simp add: wait_event_timeout_def hw5_def)
  have "wb_end buf2 = int (length (msg @ drop n m))"
    using b(2,3,6) lm by (auto simp: buf2_def wb_ready_def)
  then obtain buf3 where r3: "wsm_buf_reset buf2 = Some buf3" "wb_ready buf3" "wb_data buf3 = 8" "wb_end buf3 = wb_end buf2"
    "\<exists>m'. wb_mem buf3 = Some m' \<and> take 4 m' = [0, 0, 0, 0]"
    using reset_after[of buf2 "msg @ drop n m"] lm by (auto simp: buf2_def n_def)
  have h5: "wsm_cmd_buf hw5 = buf2" "hw_wsm_cmd hw5 = c" "ret_buf hw5 = ret_buf (upd hq)" "cmd_wq_wakeups hw5 = 0"
    "request_only hq hw5"
    using upd h3(7) by (auto simp: request_only_def hw5_def set_ret_buf_def)
  have wl: "wait_loop ((t, ?ex) # rs) mx hw3 = Some (True, rs, hw5)" for mx
    using wait by simp
  have fin: "finish_command True rs hw5 = Some (r, hw5)" using c(2,3) h5 by (simp add: finish_command_def)
  have d: "wsm_cmd_buf hw1 = buf" by (simp add: hw1_def)
  have send: "wsm_cmd_send ((t, ?ex) # rs) arg cmd tmo if_id hw1 = Some (r, hw5\<lparr>wsm_cmd_buf := buf3\<rparr>)"
    by (simp add: wsm_cmd_send_def Let_def d f post hw3_def[symmetric] wl fin h5 r3(1) del: wait_loop.simps)
  let ?hw = "hw5\<lparr>wsm_cmd_buf := buf3, wsm_cmd_mux := False\<rparr>"
  have "wsm_request env ((t, ?ex) # rs) items arg cmd tmo if_id hw = Some (r, ?hw)"
    using send b(1) idle_lock[OF idle] by (simp add: wsm_request_def hw1_def[symmetric] wsm_cmd_unlock_def)
  moreover have "wsm_idle ?hw" "wb_end (wsm_cmd_buf ?hw) = wb_end (wsm_cmd_buf hw)" "request_only hq ?hw" "ret_buf ?hw = ret_buf (upd hq)"
    using b(7) r3 h5 c(4) by (auto simp: wsm_idle_def buf2_def request_only_def)
  ultimately show ?thesis using q3(1) m3(3,4) by blast
qed

lemma request_run:
  assumes idle: "wsm_idle (hw :: 'm atbm_common)"
    and fits: "int (length (concat items)) \<le> wb_room (wsm_cmd_buf hw)" "length (concat items) + 8 < 2 ^ 16"
    and fw: "fw (wsm_message cmd if_id (concat items)) = (cid, ans)" "msg_buf ans = Some rb"
    and cid: "strip_link cid AND WSM_CNF_BASE \<noteq> 0" "strip_link cid AND NOT WSM_CNF_BASE = strip_link cmd"
    and sw: "\<And>h :: 'm atbm_common. confirm_switch (strip_link cid) arg rb h = Some (r, upd h)"
    and upd: "upd = id \<or> (\<exists>bs. upd = set_ret_buf bs)"
  shows "\<exists>hw'. wsm_request env ((t, bus_exchange env fw) # rs) items arg cmd tmo if_id hw = Some (r, hw') \<and>
     wsm_idle hw' \<and> ret_buf hw' = ret_buf (upd hw) \<and> wb_end (wsm_cmd_buf hw') = wb_end (wsm_cmd_buf hw) \<and>
     request_only hw hw'"
proof -
  have q: "quiet (Some :: 'm atbm_common \<Rightarrow> 'm atbm_common option)" by (simp add: quiet_def)
  have same: "ret_buf (upd h) = ret_buf (upd hw)" if "ret_buf h = ret_buf hw" for h
    using upd that by (auto simp: set_ret_buf_def)
  obtain hw' h0 h1 where r: "wsm_request env ((t, \<lambda>h. do { h \<leftarrow> Some h; bus_exchange env fw h }) # rs) items arg cmd tmo if_id hw = Some (r, hw')"
    "wsm_idle hw'" "wb_end (wsm_cmd_buf hw') = wb_end (wsm_cmd_buf hw)" "Some h0 = Some h1" "request_only hw h0"
    "ret_buf h0 = ret_buf hw" "ret_buf hw' = ret_buf (upd h1)" "request_only h1 hw'"
    using request_run_after[where env = env and t = t and rs = rs and tmo = tmo and hw = hw and items = items and fw = fw
      and cmd = cmd and if_id = if_id and cid = cid and ans = ans and rb = rb and arg = arg and r = r and upd = upd and pre = Some,
      OF assms q] by blast
  moreover have "ret_buf (upd h1) = ret_buf (upd hw)" using same[of h0] r(4,6) by simp
  ultimately show ?thesis by (intro exI[of _ hw']) (simp add: request_only_def)
qed

text \<open>The requests whose confirmation is a status, those whose confirmation is ignored, and those whose
  confirmation is data, with their command identifiers.\<close>

definition set_requests :: "('m request \<times> u16) list" where
  "set_requests = [(wsm_set_tcp_filter, 0x0009),
     (wsm_set_psmode, 0x0008),
     (wsm_set_ap_cfg, 0x000e),
     (wsm_smart_cfg_start, 0x0013),
     (wsm_smart_cfg_stop, 0x0014),
     (wsm_ap_touch_start, 0x0015),
     (wsm_ap_touch_stop, 0x0016),
     (wsm_etf_start_tx, 0x0017),
     (wsm_etf_single_tone, 0x0018),
     (wsm_etf_stop_tx, 0x0019),
     (wsm_etf_start_rx, 0x001a),
     (wsm_etf_start_rx_no_drop, 0x0025),
     (wsm_etf_stop_rx, 0x001b),
     (wsm_etf_reset_rx, 0x001c),
     (wsm_set_adaptive, 0x001d),
     (wsm_update_fw, 0x0020),
     (wsm_set_listen_itvl, 0x0022),
     (wsm_send_at_cmd, 0x0023),
     (wsm_set_dbg_print, 0x0024),
     (wsm_fw_sleep, 0x0026),
     (wsm_clear_wifi_config, 0x002c),
     (wsm_add_netpattern_info, 0x002e),
     (wsm_del_netpattern_info, 0x002f),
     (wsm_add_conn_param_info, 0x0030),
     (wsm_del_conn_param_info, 0x0031),
     (wsm_conn_switch, 0x0032),
     (wsm_set_wakeup_ssid, 0x0034),
     (wsm_clear_wakeup_ssid, 0x0035),
     (wsm_auto_reconnect, 0x0036),
     (wsm_set_wakeup_event, 0x0037),
     (wsm_send_customer_cmd, 0x0038),
     (wsm_customer_cert_save, 0x0039)]"

definition ignored_requests :: "('m request \<times> u16) list" where
  "ignored_requests = [(wsm_set_wifimode, 0x000d),
     (wsm_set_wifichannel, 0x000f),
     (wsm_set_countryId, 0x0010),
     (wsm_set_scan, 0x000a)]"

definition get_requests :: "('m request \<times> u16) list" where
  "get_requests = [(wsm_get_config, 0x0002),
     (wsm_get_tcp_filter, 0x000c),
     (wsm_get_countryId, 0x0011),
     (wsm_get_stalist, 0x0012),
     (wsm_get_ver, 0x001e),
     (wsm_get_sdk_ver, 0x001f),
     (wsm_get_ap_cfg, 0x0021),
     (wsm_get_tx_rate, 0x0027),
     (wsm_get_scan_state, 0x0029),
     (wsm_get_rssi, 0x002a),
     (wsm_get_time, 0x002b),
     (wsm_get_etf_rx_info, 0x002d),
     (wsm_conn_lose, 0x0033)]"

lemma set_request_eq:
  "(f, cmd) \<in> set set_requests \<Longrightarrow> f env rounds buffer hw = wsm_request env rounds [buffer] Arg_NULL cmd WSM_CMD_TIMEOUT 0 hw"
  by (auto simp: set_requests_def wsm_api)

lemma ignored_request_eq:
  "(f, cmd) \<in> set ignored_requests \<Longrightarrow> f env rounds buffer hw = wsm_request env rounds [buffer] Arg_NULL cmd WSM_CMD_TIMEOUT 0 hw"
  by (auto simp: ignored_requests_def wsm_api)

lemma get_request_eq:
  "(f, cmd) \<in> set get_requests \<Longrightarrow> f env rounds buffer hw
     = wsm_request env rounds [bytes16 (of_nat (length buffer))] (Get_arg (length buffer)) cmd WSM_CMD_TIMEOUT 0 (set_ret_buf buffer hw)"
  by (auto simp: get_requests_def wsm_api)

text \<open>The identifier of the confirmation of a command, and a confirmation.\<close>

definition cnf_id :: "u16 \<Rightarrow> u16" where "cnf_id cmd = cmd OR WSM_CNF_BASE"

definition cnf_ok :: "u16 list \<Rightarrow> u16 \<Rightarrow> bool" where
  "cnf_ok ids cmd \<longleftrightarrow> strip_link (cnf_id cmd) = cnf_id cmd \<and> cnf_id cmd AND WSM_CNF_BASE \<noteq> 0 \<and>
     cnf_id cmd AND NOT WSM_CNF_BASE = strip_link cmd \<and> cnf_id cmd \<in> set ids \<and>
     cnf_id cmd \<noteq> 0x0400 \<and> cnf_id cmd \<noteq> 0x0401"

lemma cnf_ids:
  "\<forall>cmd \<in> snd ` set (set_requests :: ('m request \<times> u16) list). cnf_ok status_confirm_ids cmd"
  "\<forall>cmd \<in> snd ` set (ignored_requests :: ('m request \<times> u16) list). cnf_ok ignored_confirm_ids cmd"
  "\<forall>cmd \<in> snd ` set (get_requests :: ('m request \<times> u16) list). cnf_ok get_confirm_ids cmd"
  unfolding set_requests_def ignored_requests_def get_requests_def
  by (simp_all add: cnf_ok_def cnf_id_def WSM_TX_LINK_ID_def status_confirm_ids_def ignored_confirm_ids_def get_confirm_ids_def)

lemma confirm_ids_disjoint:
  "set get_confirm_ids \<inter> set ignored_confirm_ids = {}" "set get_confirm_ids \<inter> set status_confirm_ids = {}"
  "set ignored_confirm_ids \<inter> set status_confirm_ids = {}"
  by code_simp+

definition wsm_answer :: "u16 \<Rightarrow> bytes \<Rightarrow> bytes \<Rightarrow> bytes" where
  "wsm_answer cid data rest = bytes16 (of_nat (4 + length data)) @ bytes16 cid @ data @ rest"

lemma msg_buf_answer:
  assumes "length data + 4 < 2 ^ 16"
  shows "msg_buf (wsm_answer cid data rest)
     = Some \<lparr>wb_mem = Some (wsm_answer cid data rest), wb_data = 4, wb_end = int (4 + length data)\<rparr>"
proof -
  have "rd16 (wsm_answer cid data rest) 0 = Some (of_nat (4 + length data))"
    by (simp add: rd16_def rd8_def wsm_answer_def bytes16_def del: of_nat_add)
  moreover have "uint (of_nat (4 + length data) :: u16) = int (4 + length data)"
    using assms by (simp add: uint_nat unat_of_nat del: of_nat_add)
  ultimately show ?thesis by (simp add: msg_buf_def del: of_nat_add)
qed

lemma gets_answer:
  assumes "length data + 4 < 2 ^ 16" "msg_buf (wsm_answer cid data rest) = Some buf"
  shows "wsm_gets [n] buf = Some (if n \<le> length data then ([take n data], True, buf\<lparr>wb_data := 4 + int n\<rparr>)
                                  else ([], False, buf))"
proof -
  have b: "buf = \<lparr>wb_mem = Some (wsm_answer cid data rest), wb_data = 4, wb_end = int (4 + length data)\<rparr>"
    using msg_buf_answer[OF assms(1)] assms(2) by simp
  have "take n (drop 4 (wsm_answer cid data rest)) = take n data" if "n \<le> length data"
    using that by (simp add: wsm_answer_def bytes16_def)
  then show ?thesis by (auto simp: b wsm_get_def rdn_def wsm_answer_def)
qed

lemma confirm_status:
  assumes "cnf_ok status_confirm_ids cmd" "length data + 4 < 2 ^ 16" "msg_buf (wsm_answer cid data rest) = Some buf"
    "data = bytes32 st @ extra"
  shows "confirm_switch (cnf_id cmd) a buf h = Some (if st = 0 then 0 else - EINVAL, h)"
proof -
  have "wsm_gets [4] buf = Some ([bytes32 st], True, buf\<lparr>wb_data := 8\<rparr>)"
    using gets_answer[OF assms(2,3), of 4] assms(4) by simp
  then have "wsm_generic_confirm buf = Some (if st = 0 then 0 else - EINVAL)"
    by (simp add: wsm_generic_confirm_def)
  then show ?thesis using assms(1) confirm_ids_disjoint
    by (auto simp: confirm_switch_def cnf_ok_def)
qed

lemma confirm_data:
  assumes "cnf_ok get_confirm_ids cmd" "length data + 4 < 2 ^ 16" "msg_buf (wsm_answer cid data rest) = Some buf"
  shows "confirm_switch (cnf_id cmd) (Get_arg n) buf h
     = Some (if n \<le> length data then 0 else - EINVAL, (if n \<le> length data then set_ret_buf (take n data) else id) h)"
  using gets_answer[OF assms(2,3), of n] assms(1)
  by (simp add: confirm_switch_def cnf_ok_def arg_size_def wsm_generic_get_confirm_def)

lemma set_request_ok:
  assumes "(f, cmd) \<in> set set_requests" "wsm_idle hw" "int (length buffer) \<le> wb_room (wsm_cmd_buf hw)"
    "length buffer + 8 < 2 ^ 16"
    and fw: "fw (wsm_message cmd 0 buffer) = (cnf_id cmd, wsm_answer cid (bytes32 st @ extra) rest)"
    "length extra + 8 < 2 ^ 16"
  shows "\<exists>hw'. f env ((t, bus_exchange env fw) # rs) buffer hw = Some (if st = 0 then 0 else - EINVAL, hw') \<and>
     wsm_idle hw' \<and> ret_buf hw' = ret_buf hw \<and> wb_end (wsm_cmd_buf hw') = wb_end (wsm_cmd_buf hw) \<and> request_only hw hw'"
proof -
  have c: "cnf_ok status_confirm_ids cmd" using cnf_ids(1) assms(1) by force
  have L: "length (bytes32 st @ extra) + 4 < 2 ^ 16" using fw(2) by simp
  then obtain buf where buf: "msg_buf (wsm_answer cid (bytes32 st @ extra) rest) = Some buf"
    using msg_buf_answer by blast
  have cc: "strip_link (cnf_id cmd) = cnf_id cmd" "cnf_id cmd AND WSM_CNF_BASE \<noteq> 0"
    "cnf_id cmd AND NOT WSM_CNF_BASE = strip_link cmd" using c by (auto simp: cnf_ok_def)
  have "\<exists>hw'. wsm_request env ((t, bus_exchange env fw) # rs) [buffer] Arg_NULL cmd WSM_CMD_TIMEOUT 0 hw
      = Some (if st = 0 then 0 else - EINVAL, hw') \<and> wsm_idle hw' \<and> ret_buf hw' = ret_buf (id hw) \<and>
      wb_end (wsm_cmd_buf hw') = wb_end (wsm_cmd_buf hw) \<and> request_only hw hw'"
    by (rule request_run[where cid = "cnf_id cmd" and ans = "wsm_answer cid (bytes32 st @ extra) rest" and rb = buf])
      (use assms buf cc confirm_status[OF c L buf refl] in \<open>auto\<close>)
  then show ?thesis using set_request_eq[OF assms(1)] by auto
qed

text \<open>C12. Every request that sets something sends its payload to the firmware in one message under its own
  identifier, and returns 0 when the status of the firmware's confirmation is 0 and -EINVAL otherwise;
  afterwards the command interface is idle again, with the lock given back and the buffer empty.\<close>
theorem set_request_result:
  assumes "(f, cmd) \<in> set set_requests" "wsm_idle hw" "int (length buffer) \<le> wb_room (wsm_cmd_buf hw)"
    "length buffer + 8 < 2 ^ 16"
    and fw: "fw (wsm_message cmd 0 buffer) = (cnf_id cmd, wsm_answer cid (bytes32 st @ extra) rest)"
    "length extra + 8 < 2 ^ 16"
  shows "\<exists>hw'. f env ((t, bus_exchange env fw) # rs) buffer hw = Some (if st = 0 then 0 else - EINVAL, hw') \<and>
     wsm_idle hw' \<and> ret_buf hw' = ret_buf hw"
  using set_request_ok[where f = f and cmd = cmd and hw = hw and buffer = buffer and fw = fw and cid = cid and st = st
    and extra = extra and rest = rest and env = env and t = t and rs = rs] assms by blast

lemma get_request_ok:
  fixes hw :: "'m atbm_common"
  assumes "(f, cmd) \<in> set get_requests" "wsm_idle hw" "2 \<le> wb_room (wsm_cmd_buf hw)"
    and fw: "fw (wsm_message cmd 0 (bytes16 (of_nat (length buffer)))) = (cnf_id cmd, wsm_answer cid data rest)"
    "length data + 4 < 2 ^ 16"
  shows "\<exists>hw'. f env ((t, bus_exchange env fw) # rs) buffer hw
       = Some (if length buffer \<le> length data then 0 else - EINVAL, hw') \<and> wsm_idle hw' \<and>
     ret_buf hw' = (if length buffer \<le> length data then take (length buffer) data else buffer) \<and>
     wb_end (wsm_cmd_buf hw') = wb_end (wsm_cmd_buf hw) \<and> request_only hw hw'"
proof -
  have c: "cnf_ok get_confirm_ids cmd" using cnf_ids(3) assms(1) by force
  obtain buf where buf: "msg_buf (wsm_answer cid data rest) = Some buf"
    using msg_buf_answer[OF fw(2)] by blast
  have cc: "strip_link (cnf_id cmd) = cnf_id cmd" "cnf_id cmd AND WSM_CNF_BASE \<noteq> 0"
    "cnf_id cmd AND NOT WSM_CNF_BASE = strip_link cmd" using c by (auto simp: cnf_ok_def)
  define upd :: "'m atbm_common \<Rightarrow> 'm atbm_common" where
    "upd = (if length buffer \<le> length data then set_ret_buf (take (length buffer) data) else id)"
  have sw: "confirm_switch (cnf_id cmd) (Get_arg (length buffer)) buf h
      = Some (if length buffer \<le> length data then 0 else - EINVAL, upd h)" for h :: "'m atbm_common"
    by (simp add: upd_def confirm_data[OF c fw(2) buf])
  have "\<exists>hw'. wsm_request env ((t, bus_exchange env fw) # rs) [bytes16 (of_nat (length buffer))]
        (Get_arg (length buffer)) cmd WSM_CMD_TIMEOUT 0 (set_ret_buf buffer hw)
      = Some (if length buffer \<le> length data then 0 else - EINVAL, hw') \<and> wsm_idle hw' \<and>
      ret_buf hw' = ret_buf (upd (set_ret_buf buffer hw)) \<and>
      wb_end (wsm_cmd_buf hw') = wb_end (wsm_cmd_buf (set_ret_buf buffer hw)) \<and> request_only (set_ret_buf buffer hw) hw'"
    by (rule request_run[where cid = "cnf_id cmd" and ans = "wsm_answer cid data rest" and rb = buf])
      (use assms buf cc sw in \<open>auto simp: set_ret_buf_def wsm_idle_def upd_def\<close>)
  then show ?thesis using get_request_eq[OF assms(1)] by (auto simp: upd_def set_ret_buf_def request_only_def)
qed

text \<open>C13. Every request that gets data returns it: when the confirmation carries at least as many bytes as
  the caller's buffer has, the result is 0 and the buffer holds the first of them; a shorter confirmation
  gives -EINVAL and leaves the buffer alone.  The command interface is idle again in both cases, and
  the stations and the interface are untouched.\<close>
theorem get_request_result:
  fixes hw :: "'m atbm_common"
  assumes "(f, cmd) \<in> set get_requests" "wsm_idle hw" "2 \<le> wb_room (wsm_cmd_buf hw)"
    and fw: "fw (wsm_message cmd 0 (bytes16 (of_nat (length buffer)))) = (cnf_id cmd, wsm_answer cid data rest)"
    "length data + 4 < 2 ^ 16"
  shows "\<exists>hw'. f env ((t, bus_exchange env fw) # rs) buffer hw
       = Some (if length buffer \<le> length data then 0 else - EINVAL, hw') \<and> wsm_idle hw' \<and>
     ret_buf hw' = (if length buffer \<le> length data then take (length buffer) data else buffer) \<and>
     mac hw' = mac hw \<and> vif_type hw' = vif_type hw"
proof -
  have "\<exists>hw'. f env ((t, bus_exchange env fw) # rs) buffer hw
       = Some (if length buffer \<le> length data then 0 else - EINVAL, hw') \<and> wsm_idle hw' \<and>
     ret_buf hw' = (if length buffer \<le> length data then take (length buffer) data else buffer) \<and>
     wb_end (wsm_cmd_buf hw') = wb_end (wsm_cmd_buf hw) \<and> request_only hw hw'"
    by (rule get_request_ok) (rule assms)+
  then show ?thesis by (auto simp: request_only_def)
qed

text \<open>Setting the mode, the channel or the country and starting a scan report success whatever status
  the firmware answers: the switch over the confirmations leaves their result at 0.\<close>
theorem ignored_request_result:
  assumes "(f, cmd) \<in> set ignored_requests" "wsm_idle hw" "int (length buffer) \<le> wb_room (wsm_cmd_buf hw)"
    "length buffer + 8 < 2 ^ 16"
    and fw: "fw (wsm_message cmd 0 buffer) = (cnf_id cmd, ans)" "2 \<le> length ans"
  shows "\<exists>hw'. f env ((t, bus_exchange env fw) # rs) buffer hw = Some (0, hw') \<and> wsm_idle hw'"
proof -
  have c: "cnf_ok ignored_confirm_ids cmd" using cnf_ids(2) assms(1) by force
  have "rd16 ans 0 = Some (le16 (ans ! 0) (ans ! 1))" using fw(2) by (cases ans) (auto simp: rd16_def rd8_def)
  then obtain buf where buf: "msg_buf ans = Some buf" by (simp add: msg_buf_def)
  have cc: "strip_link (cnf_id cmd) = cnf_id cmd" "cnf_id cmd AND WSM_CNF_BASE \<noteq> 0"
    "cnf_id cmd AND NOT WSM_CNF_BASE = strip_link cmd" using c by (auto simp: cnf_ok_def)
  have sw: "confirm_switch (cnf_id cmd) a buf h = Some (0, h)" for a and h :: "'a atbm_common"
    using c confirm_ids_disjoint by (auto simp: confirm_switch_def cnf_ok_def)
  have "\<exists>hw'. wsm_request env ((t, bus_exchange env fw) # rs) [buffer] Arg_NULL cmd WSM_CMD_TIMEOUT 0 hw
      = Some (0, hw') \<and> wsm_idle hw' \<and> ret_buf hw' = ret_buf (id hw) \<and>
      wb_end (wsm_cmd_buf hw') = wb_end (wsm_cmd_buf hw) \<and> request_only hw hw'"
    by (rule request_run[where cid = "cnf_id cmd" and ans = ans and rb = buf])
      (use assms buf cc sw in \<open>auto\<close>)
  then show ?thesis using ignored_request_eq[OF assms(1)] by auto
qed

lemma request_blocks:
  assumes "wsm_idle hw" "int (length (concat items)) \<le> wb_room (wsm_cmd_buf hw)" "quiet others"
  shows "wsm_request env [(t, others)] items arg cmd tmo if_id hw = None"
proof -
  obtain buf m where b: "wsm_puts (env_alloc env) items (wsm_cmd_buf hw) = Some (True, buf)" "wb_ready buf"
    using idle_puts[OF assms(1,2), of "env_alloc env"] by auto
  have w: "wait_event_timeout others h = None"
    if h: "cmd_wq_wakeups h = 0" "wsm_cmd_mux h" "\<not> cmd_done (hw_wsm_cmd h)" for h :: "'a atbm_common"
  proof -
    obtain h' where "others h = Some h'" "cmd_wq_wakeups h' = cmd_wq_wakeups h"
      using assms(3) h(2,3) unfolding quiet_def by blast
    then show ?thesis using h(1) by (simp add: wait_event_timeout_def)
  qed
  have "wsm_cmd_send [(t, others)] arg cmd tmo if_id (hw\<lparr>wsm_cmd_mux := True, wsm_cmd_buf := buf\<rparr>) = None"
    using assms(1)
    by (auto simp: wsm_cmd_send_def Let_def w post_command_def atbm_bh_wakeup_def wsm_idle_def
        split: Option.bind_splits)
  then show ?thesis using b idle_lock[OF assms(1)] by (simp add: wsm_request_def)
qed

text \<open>C35. A request does not time out: it waits with the command lock held until the confirmation comes.
  While it waits, other threads may take any number of steps that respect the command lock, and any
  time t may pass, more than every timeout of wsm_cmd_send too.  When the bus thread then exchanges the
  message, the request returns the status of the confirmation and leaves the interface idle, as if it
  had come at once.  And while it does not come, the request does not return.  The wait takes the
  semaphore of the wait queue without a limit.\<close>
theorem wsm_request_never_times_out:
  fixes hw :: "'m atbm_common"
  assumes "(f, cmd) \<in> set set_requests" "wsm_idle hw" "int (length buffer) \<le> wb_room (wsm_cmd_buf hw)"
    "length buffer + 8 < 2 ^ 16"
    and fw: "fw (wsm_message cmd 0 buffer) = (cnf_id cmd, wsm_answer cid (bytes32 st @ extra) rest)"
    "length extra + 8 < 2 ^ 16"
    and steps: "list_all quiet steps"
  shows "(\<exists>hw'. f env [(t, \<lambda>h. do { h \<leftarrow> run_steps steps h; bus_exchange env fw h })] buffer hw
       = Some (if st = 0 then 0 else - EINVAL, hw') \<and> wsm_idle hw') \<and>
     f env [(t, run_steps steps)] buffer hw = None"
proof
  have c: "cnf_ok status_confirm_ids cmd" using cnf_ids(1) assms(1) by force
  have L: "length (bytes32 st @ extra) + 4 < 2 ^ 16" using fw(2) by simp
  then obtain rb where rb: "msg_buf (wsm_answer cid (bytes32 st @ extra) rest) = Some rb"
    using msg_buf_answer by blast
  have cc: "strip_link (cnf_id cmd) = cnf_id cmd" "cnf_id cmd AND WSM_CNF_BASE \<noteq> 0"
    "cnf_id cmd AND NOT WSM_CNF_BASE = strip_link cmd" using c by (auto simp: cnf_ok_def)
  have "\<exists>hw' h0 h1. wsm_request env [(t, \<lambda>h. do { h \<leftarrow> run_steps steps h; bus_exchange env fw h })] [buffer] Arg_NULL cmd
        WSM_CMD_TIMEOUT 0 hw = Some (if st = 0 then 0 else - EINVAL, hw') \<and>
     wsm_idle hw' \<and> wb_end (wsm_cmd_buf hw') = wb_end (wsm_cmd_buf hw) \<and> run_steps steps h0 = Some h1 \<and>
     request_only hw h0 \<and> ret_buf h0 = ret_buf hw \<and> ret_buf hw' = ret_buf (id h1) \<and> request_only h1 hw'"
    by (rule request_run_after[where cid = "cnf_id cmd" and ans = "wsm_answer cid (bytes32 st @ extra) rest" and rb = rb])
      (use assms rb cc confirm_status[OF c L rb refl] quiet_steps[OF steps] in \<open>auto\<close>)
  then show "\<exists>hw'. f env [(t, \<lambda>h. do { h \<leftarrow> run_steps steps h; bus_exchange env fw h })] buffer hw
       = Some (if st = 0 then 0 else - EINVAL, hw') \<and> wsm_idle hw'"
    using set_request_eq[OF assms(1)] by auto
  show "f env [(t, run_steps steps)] buffer hw = None"
    unfolding set_request_eq[OF assms(1)]
    by (rule request_blocks[OF assms(2) _ quiet_steps[OF steps]]) (use assms(3) in simp)
qed

text \<open>A confirmation with another identifier than the command's is refused with -EINVAL, and with it the
  command is lost: its identifier is overwritten by 0xFFFF and the sender is not woken, so that the
  confirmation that belongs to it is refused too when it comes.\<close>
theorem stray_confirmation_loses_command:
  assumes "strip_link cid AND WSM_CNF_BASE \<noteq> 0"
    "strip_link cid AND NOT WSM_CNF_BASE \<noteq> strip_link (cmd_cmd (hw_wsm_cmd hw))"
    "msg_buf ans = Some rb" "msg_buf ans' = Some rb'" "cid' = cnf_id (cmd_cmd (hw_wsm_cmd hw))" "cmd_cmd (hw_wsm_cmd hw) < 0x40"
  shows "\<exists>hw1 hw2. wsm_handle_rx env cid ans skb hw = Some (- EINVAL, skb, hw1) \<and>
     wsm_handle_rx env cid' ans' skb hw1 = Some (- EINVAL, skb, hw2) \<and>
     cmd_wq_wakeups hw2 = cmd_wq_wakeups hw \<and> cmd_done (hw_wsm_cmd hw2) = cmd_done (hw_wsm_cmd hw)"
proof -
  define lost where "lost h = h\<lparr>hw_wsm_cmd := (hw_wsm_cmd h)\<lparr>cmd_cmd := 0xFFFF, cmd_last_send := 0xFFFF\<rparr>\<rparr>"
    for h :: "'a atbm_common"
  have 1: "wsm_handle_rx env cid ans skb hw = Some (- EINVAL, skb, lost hw)"
    using assms(1-3) by (simp add: wsm_handle_rx_def handle_confirm_def Let_def lost_def)
  define c where "c = cmd_cmd (hw_wsm_cmd hw)"
  have id: "strip_link cid' AND WSM_CNF_BASE \<noteq> 0"
    "strip_link cid' AND NOT WSM_CNF_BASE \<noteq> strip_link 0xFFFF"
  proof -
    have "bit (strip_link cid') 10" by (simp add: assms(5) cnf_id_def WSM_TX_LINK_ID_def bit_simps)
    then show "strip_link cid' AND WSM_CNF_BASE \<noteq> 0"
      by (auto simp: bit_eq_iff bit_simps intro!: exI[of _ 10])
    have "\<not> bit (strip_link cid' AND NOT WSM_CNF_BASE) 10" by (simp add: bit_simps)
    moreover have "bit (strip_link 0xFFFF) 10" by (simp add: WSM_TX_LINK_ID_def)
    ultimately show "strip_link cid' AND NOT WSM_CNF_BASE \<noteq> strip_link 0xFFFF" by metis
  qed
  have 2: "wsm_handle_rx env cid' ans' skb (lost hw) = Some (- EINVAL, skb, lost (lost hw))"
    using id assms(4) by (simp add: wsm_handle_rx_def handle_confirm_def Let_def lost_def)
  show ?thesis using 1 2 by (auto simp: lost_def)
qed
subsection \<open>A concrete adapter\<close>

definition demo_env :: "unit wsm_env" where
  "demo_env = \<lparr>env_alloc = demo_alloc, env_kz = Some 4096, env_rx_cb = (\<lambda>_ skb hw. Some (Some skb, hw))\<rparr>"

definition demo_caps :: wsm_caps where
  "demo_caps = \<lparr>numInpChBufs = 8, sizeInpChBuf = 1632, hardwareId = 0, hardwareSubId = 0, firmwareCap = 0,
     firmwareType = 2, firmwareApiVer = 0, firmwareBuildNumber = 0, firmwareVersion = 0,
     HiHwCnfBufaddr = 0, firmwareReady = True, exceptionaddr = 0, NumOfHwXmitedAddr = 0\<rparr>"

definition demo_hw :: "unit atbm_common" where
  "demo_hw = \<lparr>wsm_cmd_buf = \<lparr>wb_mem = Some (replicate 64 0), wb_data = 8, wb_end = 64\<rparr>,
     hw_wsm_cmd = \<lparr>cmd_done = False, cmd_last_send = 0xFFFF, cmd_ptr = None, cmd_len = 0,
                   cmd_arg = Arg_NULL, cmd_ret = 0, cmd_cmd = 0x0008\<rparr>,
     wsm_cmd_mux = False, wsm_oper_lock_held = False, tx_lock = 0, tx_frame_queue = [], rx_frame_queue = [],
     bh_running = False, extra_tx_headroom = 32, wsm_tx_seq = 0, wsm_rx_seq = 0, hw_bufs_used = 0,
     hw_bufs_free = 8, hw_bufs_free_init = 8, n_xmits = 0, hw_xmits = 8, hw_caps = demo_caps,
     xmit_buff = replicate 32768 0, xmit_buff_put = 0, wsm_txframe_num = 0,
     tx_num_queued = 0, tx_queue_overfull = False, lwip_queue_enable = True, lwip_enable = True, event_queue = [], event_works = 0,
     vif_type = Some NL80211_IFTYPE_STATION, bh_error = False, bh_wakeups = 0, cmd_wq_wakeups = 0,
     tx_burst_idx = 0, wifi_run_sta = 0, ret_buf = [], freed_skbs = [], mac = ()\<rparr>"

lemma demo_idle: "wsm_idle demo_hw" "wb_room (wsm_cmd_buf demo_hw) = 56"
proof -
  have "replicate 4 (0::u8) = [0, 0, 0, 0]" by (simp add: numeral_eq_Suc)
  then show "wsm_idle demo_hw" "wb_room (wsm_cmd_buf demo_hw) = 56"
    by (simp_all add: wsm_idle_def demo_hw_def wb_ready_def wb_room_def)
qed

theorem set_request_result_witness:
  "\<exists>hw'. wsm_set_psmode demo_env [(0, bus_exchange demo_env (\<lambda>_. (0x408, wsm_answer 0x408 (bytes32 1) [])))]
     [1, 0, 0, 0] demo_hw = Some (- 22, hw') \<and> wsm_idle hw'"
proof -
  have "(wsm_set_psmode :: unit request, 0x0008) \<in> set set_requests" by (simp add: set_requests_def)
  from set_request_result[OF this demo_idle(1), where buffer = "[1, 0, 0, 0]" and st = 1
      and fw = "\<lambda>_. (0x408, wsm_answer 0x408 (bytes32 1) [])" and cid = "0x408" and extra = "[]" and rest = "[]"
      and env = demo_env and t = 0 and rs = "[]"] show ?thesis
    by (auto simp: demo_idle(2) cnf_id_def)
qed

theorem get_request_result_witness:
  "\<exists>hw'. wsm_get_ver demo_env [(0, bus_exchange demo_env (\<lambda>_. (0x41E, wsm_answer 0x41E [1, 2, 3, 4, 5] [])))]
     [0, 0, 0] demo_hw = Some (0, hw') \<and> wsm_idle hw' \<and> ret_buf hw' = [1, 2, 3]"
proof -
  have "(wsm_get_ver :: unit request, 0x001E) \<in> set get_requests" by (simp add: get_requests_def)
  from get_request_result[OF this demo_idle(1), where buffer = "[0, 0, 0]"
      and fw = "\<lambda>_. (0x41E, wsm_answer 0x41E [1, 2, 3, 4, 5] [])" and cid = "0x41E" and data = "[1, 2, 3, 4, 5]"
      and rest = "[]" and env = demo_env and t = 0 and rs = "[]"] show ?thesis
    by (auto simp: demo_idle(2) cnf_id_def)
qed

theorem ignored_request_result_witness:
  "\<exists>hw'. wsm_set_wifichannel demo_env [(0, bus_exchange demo_env (\<lambda>_. (0x40F, wsm_answer 0x40F (bytes32 1) [])))]
     [6] demo_hw = Some (0, hw') \<and> wsm_idle hw'"
proof -
  have "(wsm_set_wifichannel :: unit request, 0x000F) \<in> set ignored_requests" by (simp add: ignored_requests_def)
  from ignored_request_result[OF this demo_idle(1), where buffer = "[6]"
      and fw = "\<lambda>_. (0x40F, wsm_answer 0x40F (bytes32 1) [])" and ans = "wsm_answer 0x40F (bytes32 1) []"
      and env = demo_env and t = 0 and rs = "[]"] show ?thesis
    by (auto simp: demo_idle(2) cnf_id_def wsm_answer_def)
qed

text \<open>Another thread that tries to send a command: it finds the lock taken and goes on waiting for it; with
  the lock free it would put its own message into the command buffer.\<close>

definition other_sender :: "unit atbm_common \<Rightarrow> unit atbm_common option" where
  "other_sender h = (case wsm_cmd_lock h of None \<Rightarrow> Some h
     | Some h1 \<Rightarrow> Some (h1\<lparr>wsm_cmd_buf := (wsm_cmd_buf h1)\<lparr>wb_data := 0\<rparr>\<rparr>))"

theorem wsm_request_never_times_out_witness:
  "\<exists>hw'. wsm_set_psmode demo_env [(100000, \<lambda>h. do { h \<leftarrow> run_steps [other_sender, other_sender] h;
       bus_exchange demo_env (\<lambda>_. (0x408, wsm_answer 0x408 (bytes32 1) [])) h })] [1, 0, 0, 0] demo_hw = Some (- 22, hw') \<and> wsm_idle hw'"
proof -
  have f: "(wsm_set_psmode :: unit request, 0x0008) \<in> set set_requests" by (simp add: set_requests_def)
  have q: "list_all quiet [other_sender, other_sender]" by (simp add: quiet_def other_sender_def wsm_cmd_lock_def)
  from wsm_request_never_times_out[OF f demo_idle(1), where buffer = "[1, 0, 0, 0]" and st = 1
      and fw = "\<lambda>_. (0x408, wsm_answer 0x408 (bytes32 1) [])" and cid = "0x408" and extra = "[]" and rest = "[]"
      and env = demo_env and t = 100000 and steps = "[other_sender, other_sender]"] show ?thesis
    using q by (auto simp: demo_idle(2) cnf_id_def)
qed

theorem stray_confirmation_loses_command_witness:
  "\<exists>hw1 hw2. wsm_handle_rx demo_env 0x41E (wsm_answer 0x41E [] []) None demo_hw = Some (- 22, None, hw1) \<and>
     wsm_handle_rx demo_env 0x408 (wsm_answer 0x408 (bytes32 0) []) None hw1 = Some (- 22, None, hw2) \<and>
     cmd_wq_wakeups hw2 = 0"
proof -
  have p: "strip_link 0x41E AND WSM_CNF_BASE \<noteq> 0"
    "strip_link 0x41E AND NOT WSM_CNF_BASE \<noteq> strip_link (cmd_cmd (hw_wsm_cmd demo_hw))"
    "0x408 = cnf_id (cmd_cmd (hw_wsm_cmd demo_hw))" "cmd_cmd (hw_wsm_cmd demo_hw) < 0x40"
    by (simp_all add: demo_hw_def WSM_TX_LINK_ID_def cnf_id_def)
  have w: "cmd_wq_wakeups demo_hw = 0" by (simp add: demo_hw_def)
  obtain rb rb' where "msg_buf (wsm_answer 0x41E [] []) = Some rb" "msg_buf (wsm_answer 0x408 (bytes32 0) []) = Some rb'"
    using msg_buf_answer[of "[]"] msg_buf_answer[of "bytes32 0"] by auto
  from stray_confirmation_loses_command[OF p(1,2) this p(3,4), of demo_env None] w show ?thesis by metis
qed

end
