(* ===== verification/Wsm_Safety.thy ===== *)
theory Wsm_Safety
  imports Wsm_Props
begin

text \<open>The messages of the firmware are read inside the memory that holds them.\<close>

subsection \<open>Safety of the receiver\<close>

lemma gets_safe:
  assumes "wb_mem buf = Some m" "0 \<le> wb_data buf" "wb_end buf \<le> int (length m)"
  shows "\<exists>bss ok buf'. wsm_gets ns buf = Some (bss, ok, buf') \<and> wb_mem buf' = Some m \<and> 0 \<le> wb_data buf' \<and>
     wb_end buf' = wb_end buf \<and> (ok \<and> ns \<noteq> [] \<longrightarrow> wb_data buf' \<le> wb_end buf')"
  using assms
proof (induction ns arbitrary: buf)
  case (Cons n ns)
  show ?case
  proof (cases "wb_data buf + int n > wb_end buf")
    case True
    then show ?thesis using Cons.prems
      by (intro exI[of _ "[]"] exI[of _ False] exI[of _ buf]) (simp add: wsm_get_def)
  next
    case False
    then have g: "wsm_get n buf = Some (Some (take n (drop (nat (wb_data buf)) m)), buf\<lparr>wb_data := wb_data buf + int n\<rparr>)"
      using Cons.prems by (intro get_fits) auto
    let ?b = "buf\<lparr>wb_data := wb_data buf + int n\<rparr>"
    obtain bss ok buf' where r: "wsm_gets ns ?b = Some (bss, ok, buf')" "wb_mem buf' = Some m" "0 \<le> wb_data buf'"
      "wb_end buf' = wb_end buf" "ok \<and> ns \<noteq> [] \<longrightarrow> wb_data buf' \<le> wb_end buf'"
      using Cons.IH[of ?b] Cons.prems by auto
    moreover have "wb_data buf' \<le> wb_end buf'" if "ok"
    proof (cases "ns = []")
      case True
      then show ?thesis using r False by auto
    qed (use r that in auto)
    ultimately show ?thesis using g by auto
  qed
qed auto

lemma if_not_None: "(P \<Longrightarrow> x \<noteq> None) \<Longrightarrow> (\<not> P \<Longrightarrow> y \<noteq> None) \<Longrightarrow> (if P then x else y) \<noteq> None"
  by simp

definition known_confirm_ids :: "u16 set" where
  "known_confirm_ids = {0x400, 0x401, 0x43A} \<union> set get_confirm_ids \<union> set ignored_confirm_ids \<union> set status_confirm_ids"

text \<open>The length field is not checked against the memory: an event whose message claims to be longer than
  the memory that holds it is read outside.\<close>
lemma long_length_reads_outside:
  assumes "rd16 msg 0 = Some len" "length msg < 8" "8 \<le> unat len"
  shows "wsm_handle_rx env WSM_EVENT_INDICATION_ID msg skb_p hw = None"
proof -
  have "int 8 \<le> int (unat len)" using assms(3) by (simp only: of_nat_le_iff)
  then have "8 \<le> uint len" by simp
  moreover have "rdn msg 4 4 = None" using assms(2) by (simp add: rdn_def)
  ultimately have "wsm_gets [4] \<lparr>wb_mem = Some msg, wb_data = 4, wb_end = uint len\<rparr> = None"
    by (simp add: wsm_get_def)
  then show ?thesis using assms(1)
    by (simp add: wsm_handle_rx_def msg_buf_def wsm_event_indication_def Let_def WSM_TX_LINK_ID_def del: wsm_gets.simps)
qed

text \<open>C25. A message whose length field is true is read inside the memory that holds it.  The length in the
  header and two more bytes must lie in that memory, which the driver does not check
  (long_length_reads_outside).  Then wsm_handle_rx handles the message whatever its fields are, when
  the receive callback returns, when the identifier of a confirmation is one the switch knows (another
  stops the driver), and when the pending command is not one of the two whose confirmation is read into
  a structure.\<close>
theorem wsm_handle_rx_safe:
  assumes "rd16 msg 0 = Some len" "unat len + 2 \<le> length msg" "\<forall>rx skb h. env_rx_cb env rx skb h \<noteq> None"
    "skb_p \<noteq> None" "strip_link mid AND WSM_CNF_BASE \<noteq> 0 \<longrightarrow> strip_link mid \<in> known_confirm_ids"
    "cmd_arg (hw_wsm_cmd hw) \<noteq> Struct_arg"
  shows "wsm_handle_rx env mid msg skb_p hw \<noteq> None"
proof -
  define buf where "buf = \<lparr>wb_mem = Some msg, wb_data = 4, wb_end = uint len\<rparr>"
  have "int (unat len + 2) \<le> int (length msg)" using assms(2) by (simp only: of_nat_le_iff)
  then have e: "uint len + 2 \<le> int (length msg)" by simp
  have mb: "msg_buf msg = Some buf" using assms(1) by (simp add: msg_buf_def buf_def)
  have gs: "\<exists>bss ok b'. wsm_gets ns b = Some (bss, ok, b') \<and> wb_mem b' = Some msg \<and> 0 \<le> wb_data b' \<and>
      wb_end b' = uint len \<and> (ok \<and> ns \<noteq> [] \<longrightarrow> wb_data b' \<le> wb_end b')"
    if "wb_mem b = Some msg" "0 \<le> wb_data b" "wb_end b = uint len" for b ns
    using gets_safe[OF that(1,2), of ns] that(3) e by auto
  have b0: "wb_mem buf = Some msg" "0 \<le> wb_data buf" "wb_end buf = uint len" by (simp_all add: buf_def)
  note g0 = gs[OF b0]
  have 1: "confirm_switch i a buf h \<noteq> None" if "i \<in> known_confirm_ids" "a \<noteq> Struct_arg" for i a and h :: "'a atbm_common"
  proof -
    obtain x1 where x1: "wsm_gets [4] buf = Some x1" using g0[of "[4]"] by auto
    obtain x2 where x2: "wsm_gets [4, 4] buf = Some x2" using g0[of "[4, 4]"] by auto
    have x3: "\<exists>x. wsm_gets [n] buf = Some x" for n using g0[of "[n]"] by auto
    have sh: "wsm_read_shmem_confirm n buf h \<noteq> None" for n
    proof -
      obtain fs ok b1 where b1: "wsm_gets [4] buf = Some (fs, ok, b1)" "wb_mem b1 = Some msg" "0 \<le> wb_data b1"
        "wb_end b1 = uint len" using g0[of "[4]"] by auto
      obtain y where "wsm_gets [n] b1 = Some y" using gs[OF b1(2-4), of "[n]"] by auto
      then show ?thesis using b1(1) by (cases y) (simp add: wsm_read_shmem_confirm_def del: wsm_gets.simps)
    qed
    have ge: "wsm_generic_get_confirm n buf h \<noteq> None" for n
      using x3[of n] by (auto simp: wsm_generic_get_confirm_def simp del: wsm_gets.simps)
    obtain w c l where st: "wsm_write_shmem_confirm buf = Some w" "wsm_generic_confirm buf = Some c"
      "wsm_confirm_for_sdio_alive buf = Some l"
      using x1 x2 by (cases x1; cases x2) (simp add: wsm_write_shmem_confirm_def wsm_generic_confirm_def
          wsm_confirm_for_sdio_alive_def del: wsm_gets.simps)
    have ar: "a = Arg_NULL \<or> (\<exists>n. arg_size a = Some n)" using that(2) by (cases a) (simp_all add: arg_size_def)
    have f: "i = 0x400 \<or> i = 0x401 \<or> i = 0x43A \<or> i \<in> set get_confirm_ids \<or> i \<in> set ignored_confirm_ids \<or>
        i \<in> set status_confirm_ids" using that(1) unfolding known_confirm_ids_def by blast
    show ?thesis using ar
    proof
      assume "a = Arg_NULL"
      then show ?thesis using f unfolding confirm_switch_def by (intro if_not_None) (simp_all add: st)
    next
      assume "\<exists>n. arg_size a = Some n"
      then obtain n where n: "arg_size a = Some n" ..
      show ?thesis using f sh[of n] ge[of n] unfolding confirm_switch_def
        by (intro if_not_None) (simp_all add: st n)
    qed
  qed
  have 2: "handle_confirm i buf hw \<noteq> None" if k: "i \<in> known_confirm_ids" for i
  proof -
    obtain r h' where "confirm_switch i (cmd_arg (hw_wsm_cmd hw)) buf
        (hw\<lparr>hw_wsm_cmd := (hw_wsm_cmd hw)\<lparr>cmd_cmd := 0xFFFF, cmd_last_send := 0xFFFF\<rparr>\<rparr>) = Some (r, h')"
      using 1[OF k assms(6), of "hw\<lparr>hw_wsm_cmd := (hw_wsm_cmd hw)\<lparr>cmd_cmd := 0xFFFF, cmd_last_send := 0xFFFF\<rparr>\<rparr>"]
      by auto
    then show ?thesis by (simp add: handle_confirm_def Let_def)
  qed
  have 3: "wsm_startup_indication buf hw \<noteq> None"
  proof -
    obtain fs ok b1 where "wsm_gets startup_sizes buf = Some (fs, ok, b1)" using g0[of startup_sizes] by auto
    then show ?thesis by (simp add: wsm_startup_indication_def Let_def)
  qed
  have 4: "wsm_event_indication al buf n hw \<noteq> None" for al n
  proof -
    obtain fs ok b1 where b1: "wsm_gets [4] buf = Some (fs, ok, b1)" "wb_mem b1 = Some msg" "0 \<le> wb_data b1"
      "wb_end b1 = uint len" using g0[of "[4]"] by auto
    obtain y where "wsm_gets [4] b1 = Some y" using gs[OF b1(2-4), of "[4]"] by auto
    moreover obtain z where "wsm_gets [504] b1 = Some z" using gs[OF b1(2-4), of "[504]"] by auto
    ultimately show ?thesis using b1(1)
      by (cases ok; cases y; cases z) (simp_all add: wsm_event_indication_def Let_def del: wsm_gets.simps)
  qed
  have 5: "wsm_receive_indication env n buf skb_p hw \<noteq> None" for n
  proof -
    obtain fs ok b1 where b1: "wsm_gets [4, 2, 1, 1, 4, 4] buf = Some (fs, ok, b1)" "wb_mem b1 = Some msg"
      "0 \<le> wb_data b1" "wb_end b1 = uint len" "ok \<longrightarrow> wb_data b1 \<le> wb_end b1"
      using g0[of "[4, 2, 1, 1, 4, 4]"] by auto
    then have "ok \<longrightarrow> rd16 msg (wb_data b1) \<noteq> None" using e by (auto simp: rd16_def rd8_def)
    moreover obtain skb where skb: "skb_p = Some skb" using assms(4) by blast
    moreover obtain p h where "env_rx_cb env (read_wsm_rx fs n) (skb_pull skb (nat (wb_data b1))) hw = Some (p, h)"
      using assms(3) by fastforce
    ultimately show ?thesis using b1
      by (cases ok) (auto simp: wsm_receive_indication_def Let_def simp del: wsm_gets.simps split: option.splits)
  qed
  define i where "i = strip_link mid"
  define n where "n = unat (drop_bit 6 mid AND 0x0F)"
  obtain rs hs where s: "wsm_startup_indication buf hw = Some (rs, hs)" using 3 by auto
  obtain re he where e: "wsm_event_indication (env_alloc env) buf n hw = Some (re, he)" using 4 by fastforce
  have c: "\<exists>r h. handle_confirm i buf hw = Some (r, h)" if "i AND WSM_CNF_BASE \<noteq> 0"
    using 2[of i] assms(5) that by (auto simp: i_def)
  show ?thesis
  proof (cases "i AND WSM_CNF_BASE = 0")
    case True
    then show ?thesis using mb s e 5[of n] by (simp add: wsm_handle_rx_def Let_def i_def[symmetric] n_def[symmetric])
  next
    case False
    then obtain r h where "handle_confirm i buf hw = Some (r, h)" using c by blast
    then show ?thesis using mb False by (simp add: wsm_handle_rx_def Let_def i_def[symmetric])
  qed
qed

theorem wsm_handle_rx_safe_witness:
  "wsm_handle_rx demo_env 0x804 (wsm_answer 0x804 (replicate 20 0) [0, 0]) (Some (mk_skb 7 [] (replicate 26 0) [])) demo_hw \<noteq> None"
  by (rule wsm_handle_rx_safe[where len = 24])
    (simp_all add: wsm_answer_def rd16_def rd8_def bytes16_def demo_env_def WSM_TX_LINK_ID_def demo_hw_def
      lo8_def hi8_def le16_def)
end
