(* ===== verification/Chains.thy ===== *)
theory Chains
  imports Prelude
begin

text \<open>Singly linked chains through a next pointer, as the hash tables of the stations
  (hal_apollo/sta_info.c) and of the timers (os/ankai_V330/atbm_os_timer.c) use them, and the
  interface of a table with keys that both provide.  A pointer is a natural number, NULL is None.\<close>

fun chain :: "(nat \<Rightarrow> nat option) \<Rightarrow> nat option \<Rightarrow> nat list \<Rightarrow> bool" where
  "chain nx p [] \<longleftrightarrow> p = None"
| "chain nx p (x # xs) \<longleftrightarrow> p = Some x \<and> chain nx (nx x) xs"

text \<open>The loops over a chain.  On a cyclic chain they do not return, which is the value None.\<close>

partial_function (option) chain_find ::
    "(nat \<Rightarrow> bool) \<Rightarrow> (nat \<Rightarrow> nat option) \<Rightarrow> nat option \<Rightarrow> nat option option" where
  "chain_find P nx p = (case p of None \<Rightarrow> Some None
     | Some x \<Rightarrow> if P x then Some (Some x) else chain_find P nx (nx x))"

partial_function (option) chain_pred :: "(nat \<Rightarrow> nat option) \<Rightarrow> nat \<Rightarrow> nat \<Rightarrow> nat option" where
  "chain_pred nx t s = (case nx s of None \<Rightarrow> Some s
     | Some x \<Rightarrow> if x = t then Some s else chain_pred nx t x)"

text \<open>Unlinking t from the chain that starts at p: the result tells whether it was found, the new start
  and the new pointers.\<close>

definition chain_del ::
    "(nat \<Rightarrow> nat option) \<Rightarrow> nat option \<Rightarrow> nat \<Rightarrow> (bool \<times> nat option \<times> (nat \<Rightarrow> nat option)) option" where
  "chain_del nx p t = (case p of
     None \<Rightarrow> Some (False, p, nx)
   | Some s \<Rightarrow>
       if s = t then Some (True, nx t, nx)
       else do {
         q \<leftarrow> chain_pred nx t s;
         if nx q \<noteq> None then Some (True, p, nx(q := nx t)) else Some (False, p, nx) })"

lemma chain_cong: "\<forall>x\<in>set xs. nx x = nx' x \<Longrightarrow> chain nx p xs = chain nx' p xs"
  by (induction xs arbitrary: p) auto

lemma chain_upd [simp]: "y \<notin> set xs \<Longrightarrow> chain (nx(y := v)) p xs = chain nx p xs"
  by (rule chain_cong) auto

lemma chain_det: "chain nx p xs \<Longrightarrow> chain nx p ys \<Longrightarrow> xs = ys"
proof (induction xs arbitrary: p ys)
  case (Cons x xs)
  then show ?case by (cases ys) auto
qed (metis chain.elims(2) chain.simps(1) option.distinct(1))

lemma chain_distinct: "chain nx p xs \<Longrightarrow> distinct xs"
proof (induction xs arbitrary: p)
  case (Cons x xs)
  have "chain nx (Some y) (dropWhile (\<lambda>z. z \<noteq> y) zs)" if "chain nx q zs" "y \<in> set zs" for q y zs
    using that by (induction zs arbitrary: q) auto
  from this[of "nx x" xs x] have "x \<in> set xs \<Longrightarrow> chain nx (Some x) (dropWhile (\<lambda>z. z \<noteq> x) xs)"
    using Cons.prems by simp
  moreover have "chain nx (Some x) (x # xs)" using Cons.prems by simp
  ultimately have "x \<in> set xs \<Longrightarrow> dropWhile (\<lambda>z. z \<noteq> x) xs = x # xs" by (metis chain_det)
  moreover have "length (dropWhile (\<lambda>z. z \<noteq> x) xs) < length (x # xs)"
    using length_dropWhile_le[of "\<lambda>z. z \<noteq> x" xs] by simp
  ultimately have "x \<notin> set xs" by auto
  then show ?case using Cons by auto
qed simp

lemma chain_find_ok: "chain nx p xs \<Longrightarrow> chain_find P nx p = Some (List.find P xs)"
proof (induction xs arbitrary: p)
  case Nil
  then show ?case by (simp add: chain_find.simps)
next
  case (Cons x xs)
  then show ?case by (subst chain_find.simps) simp
qed

lemma chain_pred_ok:
  "chain nx (Some s) (s # xs) \<Longrightarrow> t \<noteq> s \<Longrightarrow>
     (t \<notin> set xs \<longrightarrow> chain_pred nx t s = Some (last (s # xs))) \<and>
     (\<forall>ys zs. xs = ys @ t # zs \<longrightarrow> t \<notin> set ys \<longrightarrow> chain_pred nx t s = Some (last (s # ys)))"
proof (induction xs arbitrary: s)
  case Nil
  then show ?case by (subst chain_pred.simps) simp
next
  case (Cons x xs)
  then have x: "nx s = Some x" "chain nx (Some x) (x # xs)" by auto
  show ?case
  proof (cases "x = t")
    case True
    then show ?thesis using x(1) by (subst (1 2) chain_pred.simps) (auto simp: Cons_eq_append_conv)
  next
    case False
    then show ?thesis using x Cons.IH[OF x(2)]
      by (subst (1 2) chain_pred.simps) (auto simp: Cons_eq_append_conv)
  qed
qed

lemma chain_snoc: "chain nx p (xs @ [y]) \<Longrightarrow> nx y = None"
  by (induction xs arbitrary: p) auto

lemma chain_link: "chain nx p (xs @ y # z # zs) \<Longrightarrow> nx y = Some z"
  by (induction xs arbitrary: p) auto

lemma chain_skip:
  "chain nx p (xs @ y # t # zs) \<Longrightarrow> chain (nx(y := nx t)) p (xs @ y # zs)"
proof (induction xs arbitrary: p)
  case Nil
  then have "y \<notin> set zs" using chain_distinct[OF Nil] by auto
  from chain_upd[OF this, of nx "nx t" "nx t"] Nil show ?case
    by (simp del: chain_upd fun_upd_apply) (simp only: fun_upd_same simp_thms)
next
  case (Cons x xs)
  then have "x \<noteq> y" using chain_distinct[OF Cons.prems] by auto
  then show ?case using Cons by auto
qed

lemma chain_del_ok:
  assumes "chain nx p xs"
  shows "\<exists>p' nx'. chain_del nx p t = Some (t \<in> set xs, p', nx') \<and> chain nx' p' (remove1 t xs) \<and>
     (\<forall>y. y \<notin> set xs \<longrightarrow> nx' y = nx y) \<and> nx' t = nx t"
proof (cases xs)
  case Nil
  then show ?thesis using assms by (simp add: chain_del_def)
next
  case (Cons s xs')
  have d: "distinct xs" using chain_distinct[OF assms] .
  show ?thesis
  proof (cases "s = t")
    case True
    then show ?thesis using assms Cons by (simp add: chain_del_def)
  next
    case False
    have c: "chain nx (Some s) (s # xs')" "p = Some s" using assms Cons by auto
    show ?thesis
    proof (cases "t \<in> set xs'")
      case True
      then obtain ys zs where xs': "xs' = ys @ t # zs" "t \<notin> set ys" by (meson split_list_first)
      define q where "q = last (s # ys)"
      obtain us where us: "s # ys = us @ [q]" by (metis append_butlast_last_id list.distinct(1) q_def)
      have e: "s # xs' = us @ q # t # zs" using us xs'(1) by (metis append_Cons append_Nil append_assoc)
      have q: "chain_pred nx t s = Some q" using chain_pred_ok[OF c(1), of t] False xs' by (auto simp: q_def)
      have n: "nx q = Some t" using chain_link[of nx "Some s" us q t zs] c(1) e by simp
      have ch: "chain (nx(q := nx t)) (Some s) (us @ q # zs)" using chain_skip[of nx "Some s" us q t zs] c(1) e by simp
      have r: "remove1 t xs = us @ q # zs"
      proof -
        have "t \<notin> set (us @ [q])" using \<open>s \<noteq> t\<close> xs'(2) unfolding us[symmetric] by simp
        then show ?thesis using Cons e by (simp add: remove1_append)
      qed
      have "q \<in> set xs" "q \<noteq> t" using e Cons d by auto
      then show ?thesis using q n ch r False c(2) Cons True
        by (auto simp: chain_del_def)
    next
      case False
      have q: "chain_pred nx t s = Some (last (s # xs'))"
        using chain_pred_ok[OF c(1), of t] \<open>s \<noteq> t\<close> False by auto
      have "nx (last (s # xs')) = None"
        using chain_snoc[of nx "Some s" "butlast (s # xs')" "last (s # xs')"] c(1)
        unfolding append_butlast_last_id[OF list.distinct(2)] .
      then show ?thesis using q \<open>s \<noteq> t\<close> False assms Cons c(2)
        by (auto simp: chain_del_def remove1_idem)
    qed
  qed
qed

subsection \<open>Hash tables of chains\<close>

text \<open>The buckets heads with the pointers nx hold the map m from keys to objects: every object sits in
  the bucket of its key, and no two objects of the table have the same key.\<close>

definition buckets ::
    "('k \<Rightarrow> nat) \<Rightarrow> (nat \<Rightarrow> 'k) \<Rightarrow> ('k \<Rightarrow> nat option) \<Rightarrow> (nat \<Rightarrow> nat list) \<Rightarrow> bool" where
  "buckets hash key m L \<longleftrightarrow>
     (\<forall>i y. y \<in> set (L i) \<longleftrightarrow> hash (key y) = i \<and> m (key y) = Some y) \<and>
     (\<forall>k y. m k = Some y \<longrightarrow> key y = k)"

lemma buckets_mem: "buckets hash key m L \<Longrightarrow> y \<in> set (L i) \<longleftrightarrow> hash (key y) = i \<and> m (key y) = Some y"
  by (simp add: buckets_def)

lemma buckets_key: "buckets hash key m L \<Longrightarrow> m k = Some y \<Longrightarrow> key y = k"
  by (simp add: buckets_def)

definition table_rep ::
    "('k \<Rightarrow> nat) \<Rightarrow> (nat \<Rightarrow> 'k) \<Rightarrow> (nat \<Rightarrow> nat option) \<Rightarrow> (nat \<Rightarrow> nat option) \<Rightarrow> ('k \<Rightarrow> nat option) \<Rightarrow> bool" where
  "table_rep hash key nx heads m \<longleftrightarrow> (\<exists>L. (\<forall>i. chain nx (heads i) (L i)) \<and> buckets hash key m L)"

lemma table_find:
  assumes "table_rep hash key nx heads m" "\<And>x. P x = (key x = k)"
  shows "chain_find P nx (heads (hash k)) = Some (m k)"
proof -
  obtain L where L: "chain nx (heads (hash k)) (L (hash k))" and b: "buckets hash key m L"
    using assms(1) unfolding table_rep_def by metis
  have "List.find P (L (hash k)) = m k"
  proof (cases "m k")
    case None
    then show ?thesis using buckets_mem[OF b] assms(2) by (auto simp: find_None_iff)
  next
    case (Some x)
    then have "x \<in> set (L (hash k))" "P x" using buckets_mem[OF b] buckets_key[OF b Some] assms(2) by auto
    then obtain y where y: "List.find P (L (hash k)) = Some y"
      by (metis find_None_iff not_Some_eq)
    then have "y \<in> set (L (hash k))" "P y" by (auto simp: find_Some_iff)
    then have "m (key y) = Some y" "key y = k" using buckets_mem[OF b] assms(2) by auto
    then show ?thesis using y by simp
  qed
  then show ?thesis using chain_find_ok[OF L] by simp
qed

lemma table_add:
  assumes "table_rep hash key nx heads m" "m (key x) = None"
  shows "table_rep hash key (nx(x := heads (hash (key x)))) (heads(hash (key x) := Some x)) (m(key x \<mapsto> x))"
proof -
  obtain L where L: "\<And>i. chain nx (heads i) (L i)" and b: "buckets hash key m L"
    using assms(1) unfolding table_rep_def by blast
  let ?L = "L(hash (key x) := x # L (hash (key x)))"
  have x: "x \<notin> set (L i)" for i using buckets_mem[OF b] assms(2) by simp
  have "chain (nx(x := heads (hash (key x)))) ((heads(hash (key x) := Some x)) i) (?L i)" for i
    using L[of i] L[of "hash (key x)"] chain_upd[OF x] by (cases "i = hash (key x)") simp_all
  moreover have "buckets hash key (m(key x \<mapsto> x)) ?L"
    using buckets_mem[OF b] buckets_key[OF b] assms(2)
    by (auto simp: buckets_def)
  ultimately show ?thesis unfolding table_rep_def by blast
qed

lemma table_del:
  assumes "table_rep hash key nx heads m"
    and "chain_del nx (heads (hash (key x))) x = Some (found, p', nx')"
  shows "found \<longleftrightarrow> m (key x) = Some x"
    and "table_rep hash key (nx'(x := v)) (heads(hash (key x) := p')) (if found then m(key x := None) else m)"
proof -
  let ?h = "hash (key x)"
  obtain L where L: "\<And>i. chain nx (heads i) (L i)" and b: "buckets hash key m L"
    using assms(1) unfolding table_rep_def by blast
  from chain_del_ok[OF L[of ?h], of x] assms(2)
  have f: "found \<longleftrightarrow> x \<in> set (L ?h)" and c: "chain nx' p' (remove1 x (L ?h))"
    and n: "\<And>y. y \<notin> set (L ?h) \<Longrightarrow> nx' y = nx y" by auto
  show fm: "found \<longleftrightarrow> m (key x) = Some x" using f buckets_mem[OF b] by simp
  have d: "distinct (L ?h)" by (rule chain_distinct[OF L])
  let ?L = "L(?h := remove1 x (L ?h))"
  have L': "set (?L i) = set (L i) - {x}" for i using buckets_mem[OF b] d by (auto simp: set_remove1_eq)
  have "chain nx' ((heads(?h := p')) i) (?L i)" for i
  proof (cases "i = ?h")
    case False
    have "chain nx' (heads i) (L i) = chain nx (heads i) (L i)"
      by (rule chain_cong) (use n False buckets_mem[OF b] in auto)
    then show ?thesis using False L by simp
  qed (simp add: c)
  then have "chain (nx'(x := v)) ((heads(?h := p')) i) (?L i)" for i
    using chain_upd[of x "?L i"] L'[of i] by simp
  moreover have "buckets hash key (if found then m(key x := None) else m) ?L"
    unfolding buckets_def L'
  proof (intro conjI allI)
    fix i y
    show "(y \<in> set (L i) - {x}) = (hash (key y) = i \<and> (if found then m(key x := None) else m) (key y) = Some y)"
      using fm buckets_mem[OF b, of y i] by (cases "key y = key x") auto
  next
    fix k y
    show "(if found then m(key x := None) else m) k = Some y \<longrightarrow> key y = k"
      using buckets_key[OF b, of k y] by (auto split: if_splits)
  qed
  ultimately show "table_rep hash key (nx'(x := v)) (heads(?h := p')) (if found then m(key x := None) else m)"
    unfolding table_rep_def by blast
qed

subsection \<open>The interface of a table with keys\<close>

text \<open>What the timers and the stations promise to their users: rep s m says that the state s holds the
  map m; key s x is the key of the object x.\<close>

locale keyed_table =
  fixes rep :: "'s \<Rightarrow> ('k \<Rightarrow> nat option) \<Rightarrow> bool"
    and key :: "'s \<Rightarrow> nat \<Rightarrow> 'k"
    and get :: "'k \<Rightarrow> 's \<Rightarrow> nat option option"
    and add :: "nat \<Rightarrow> 's \<Rightarrow> 's option"
    and del :: "nat \<Rightarrow> 's \<Rightarrow> 's option"
  assumes get_rep: "rep s m \<Longrightarrow> get k s = Some (m k)"
    and add_rep: "rep s m \<Longrightarrow> m (key s x) = None \<Longrightarrow>
      \<exists>s'. add x s = Some s' \<and> rep s' (m(key s x \<mapsto> x)) \<and> key s' = key s"
    and del_rep: "rep s m \<Longrightarrow>
      \<exists>s'. del x s = Some s' \<and> rep s' (if m (key s x) = Some x then m(key s x := None) else m) \<and> key s' = key s"
begin

fun add_all :: "nat list \<Rightarrow> 's \<Rightarrow> 's option" where
  "add_all [] s = Some s"
| "add_all (x # xs) s = do { s \<leftarrow> add x s; add_all xs s }"

fun del_all :: "nat list \<Rightarrow> 's \<Rightarrow> 's option" where
  "del_all [] s = Some s"
| "del_all (x # xs) s = do { s \<leftarrow> del x s; del_all xs s }"

lemma rep_unique: "rep s m \<Longrightarrow> rep s m' \<Longrightarrow> m = m'"
  using get_rep by (metis ext option.inject)

lemma get_add:
  assumes "rep s m" "m (key s x) = None"
  shows "\<exists>s'. add x s = Some s' \<and> get k s' = Some (if k = key s x then Some x else m k)"
  using add_rep[OF assms] get_rep by fastforce

lemma get_del:
  assumes "rep s m" "m (key s x) = Some x"
  shows "\<exists>s'. del x s = Some s' \<and> get k s' = Some (if k = key s x then None else m k)"
  using del_rep[OF assms(1), of x] get_rep assms(2) by fastforce

lemma add_del:
  assumes "rep s m" "m (key s x) = None"
  shows "\<exists>s' s''. add x s = Some s' \<and> del x s' = Some s'' \<and> rep s'' m \<and> key s'' = key s"
proof -
  obtain s' where s': "add x s = Some s'" "rep s' (m(key s x \<mapsto> x))" "key s' = key s"
    using add_rep[OF assms] by blast
  moreover have "m(key s x := None) = m" using assms(2) by auto
  ultimately show ?thesis using del_rep[OF s'(2), of x] by auto
qed

lemma add_all_rep:
  assumes "rep s m" "distinct (map (key s) xs)" "\<forall>x\<in>set xs. m (key s x) = None"
  shows "\<exists>s'. add_all xs s = Some s' \<and> rep s' (m ++ map_of (map (\<lambda>x. (key s x, x)) xs)) \<and> key s' = key s"
  using assms
proof (induction xs arbitrary: s m)
  case (Cons x xs)
  obtain s1 where s1: "add x s = Some s1" "rep s1 (m(key s x \<mapsto> x))" "key s1 = key s"
    using add_rep[OF Cons.prems(1), of x] Cons.prems(3) by auto
  have "\<exists>s'. add_all xs s1 = Some s' \<and>
      rep s' ((m(key s x \<mapsto> x)) ++ map_of (map (\<lambda>x. (key s1 x, x)) xs)) \<and> key s' = key s1"
    using Cons.prems by (intro Cons.IH[OF s1(2)]) (auto simp: s1(3) image_iff)
  moreover have "(m(key s x \<mapsto> x)) ++ map_of (map (\<lambda>x. (key s x, x)) xs) =
      m ++ map_of (map (\<lambda>x. (key s x, x)) (x # xs))"
    using Cons.prems(2)
    by (auto simp: map_add_def fun_eq_iff image_iff split: option.splits dest!: map_of_SomeD)
  ultimately have "\<exists>s'. add_all xs s1 = Some s' \<and>
      rep s' (m ++ map_of (map (\<lambda>x. (key s x, x)) (x # xs))) \<and> key s' = key s" by (simp only: s1(3))
  then show ?case by (simp only: add_all.simps s1(1) bind.bind_lunit)
qed simp

lemma del_all_rep:
  assumes "rep s m" "distinct xs" "\<forall>x\<in>set xs. m (key s x) = Some x"
  shows "\<exists>s'. del_all xs s = Some s' \<and> rep s' (m |` (- key s ` set xs)) \<and> key s' = key s"
  using assms
proof (induction xs arbitrary: s m)
  case (Cons x xs)
  obtain s1 where s1: "del x s = Some s1" "rep s1 (m(key s x := None))" "key s1 = key s"
    using del_rep[OF Cons.prems(1), of x] Cons.prems(3) by auto
  have ne: "\<forall>y\<in>set xs. key s y \<noteq> key s x" using Cons.prems(2,3) by fastforce
  have "\<exists>s'. del_all xs s1 = Some s' \<and> rep s' ((m(key s x := None)) |` (- key s1 ` set xs)) \<and> key s' = key s1"
    using Cons.prems ne by (intro Cons.IH[OF s1(2)]) (auto simp: s1(3))
  moreover have "(m(key s x := None)) |` (- key s ` set xs) = m |` (- key s ` set (x # xs))"
    by (auto simp: restrict_map_def)
  ultimately show ?case using s1 by auto
qed (auto simp: restrict_map_def)

end

end
