(* ===== verification/Os_Timer.thy ===== *)
theory Os_Timer
  imports Chains
begin

text \<open>The timers of the port, os/ankai_V330/atbm_os_timer.c.  The vtimers of the operating system know
  a timer by a handle, which drv_vtimer_start returns; the port finds the timer of a handle in a hash
  table of 8 chains.

  A timer object is addressed by a natural number.  Everything the file keeps in static variables
  is in the record timer_sys.  Calls of the timer functions and of drv_vtimer_stop are logged.
  drv_vtimer_start is not part of the sources: it is the argument vstart of atbm_mod_timer, which
  gives the handle and the handles of the vtimers that expire before mod_timer has entered the new
  timer into the table (the timer task of the system runs in between).\<close>

datatype timer_callback = Agg_session_timer | Agg_reorder_timer | Other_timer nat

text \<open>The argument of the callback is a number or, in agg-rx.c, the address of an element of the array
  timer_to_tid of a station.\<close>

datatype timer_data = Data_num u32 | Timer_to_tid nat nat

record atbm_timer_list =
  tm_function :: "timer_callback option"
  tm_data :: timer_data
  TimerHander :: u32
  bTimerStart :: int
  tm_hnext :: "nat option"

record timer_sys =
  tm_heap :: "nat \<Rightarrow> atbm_timer_list"
  atbm_timer_hash :: "nat \<Rightarrow> nat option"
  cur_timeout_id :: u32
  set_start_timer :: u32
  hash_lock_init :: bool
  tm_calls :: "(timer_callback \<times> timer_data) list"
  vtimer_stops :: "u32 list"

type_synonym vtimer_start = "u32 \<Rightarrow> u32 \<times> u32 list"

definition TIMER_HASH :: "u32 \<Rightarrow> nat" where
  "TIMER_HASH index = unat (index AND (8 - 1))"

definition ATBM_AK_TIMEOUT_VAL :: "u32 \<Rightarrow> u32" where
  "ATBM_AK_TIMEOUT_VAL val = (if val mod 5 = 0 then val else val + 5 - val mod 5)"

abbreviation timer_next :: "timer_sys \<Rightarrow> nat \<Rightarrow> nat option" where
  "timer_next s \<equiv> \<lambda>x. tm_hnext (tm_heap s x)"

abbreviation timer_key :: "timer_sys \<Rightarrow> nat \<Rightarrow> u32" where
  "timer_key s \<equiv> \<lambda>x. TimerHander (tm_heap s x)"

definition upd_timer :: "nat \<Rightarrow> (atbm_timer_list \<Rightarrow> atbm_timer_list) \<Rightarrow> timer_sys \<Rightarrow> timer_sys" where
  "upd_timer t f s = s\<lparr>tm_heap := (tm_heap s)(t := f (tm_heap s t))\<rparr>"

definition set_timer_hash :: "nat \<Rightarrow> nat option \<Rightarrow> timer_sys \<Rightarrow> timer_sys" where
  "set_timer_hash i p s = s\<lparr>atbm_timer_hash := (atbm_timer_hash s)(i := p)\<rparr>"

subsection \<open>The hash table\<close>

definition timer_hash_add :: "nat \<Rightarrow> timer_sys \<Rightarrow> timer_sys" where
  "timer_hash_add t s =
     (let i = TIMER_HASH (TimerHander (tm_heap s t));
          s = upd_timer t (\<lambda>x. x\<lparr>tm_hnext := atbm_timer_hash s i\<rparr>) s
      in set_timer_hash i (Some t) s)"

definition timer_hash_get :: "u32 \<Rightarrow> timer_sys \<Rightarrow> nat option option" where
  "timer_hash_get handle s =
     chain_find (\<lambda>x. TimerHander (tm_heap s x) = handle) (timer_next s) (atbm_timer_hash s (TIMER_HASH handle))"

definition timer_hash_del_bytimer :: "nat \<Rightarrow> timer_sys \<Rightarrow> timer_sys option" where
  "timer_hash_del_bytimer t s =
     (let i = TIMER_HASH (TimerHander (tm_heap s t)) in
      case atbm_timer_hash s i of
        None \<Rightarrow> Some s
      | Some h \<Rightarrow>
          if h = t then Some (set_timer_hash i (tm_hnext (tm_heap s t)) s)
          else do {
            q \<leftarrow> chain_pred (timer_next s) t h;
            let s1 = (if tm_hnext (tm_heap s q) \<noteq> None
                      then upd_timer q (\<lambda>x. x\<lparr>tm_hnext := tm_hnext (tm_heap s t)\<rparr>) s else s);
            Some (upd_timer t (\<lambda>x. x\<lparr>tm_hnext := None\<rparr>) s1) })"

definition timer_hash_del_byhandle :: "u32 \<Rightarrow> timer_sys \<Rightarrow> timer_sys option" where
  "timer_hash_del_byhandle handle s = do {
     tm \<leftarrow> timer_hash_get handle s;
     case tm of None \<Rightarrow> Some s | Some t \<Rightarrow> timer_hash_del_bytimer t s }"

subsection \<open>Expiry, start and stop\<close>

definition call_timer_function :: "nat \<Rightarrow> timer_sys \<Rightarrow> timer_sys" where
  "call_timer_function t s = (case tm_function (tm_heap s t) of
      None \<Rightarrow> s
    | Some f \<Rightarrow> s\<lparr>tm_calls := tm_calls s @ [(f, tm_data (tm_heap s t))]\<rparr>)"

definition timer_out_func :: "u32 \<Rightarrow> timer_sys \<Rightarrow> timer_sys option" where
  "timer_out_func timer_id s = do {
     tm \<leftarrow> timer_hash_get timer_id s;
     case tm of
       None \<Rightarrow> Some (if set_start_timer s \<noteq> 0 \<and> cur_timeout_id s = -1
                     then s\<lparr>cur_timeout_id := timer_id\<rparr> else s)
     | Some t \<Rightarrow> do {
         s \<leftarrow> timer_hash_del_bytimer t s;
         Some (call_timer_function t s) } }"

definition cancel_timer :: "nat \<Rightarrow> timer_sys \<Rightarrow> (int \<times> timer_sys) option" where
  "cancel_timer t s =
     (if bTimerStart (tm_heap s t) = 0 then Some (-1, s)
      else do {
        s \<leftarrow> timer_hash_del_bytimer t (upd_timer t (\<lambda>x. x\<lparr>bTimerStart := 0\<rparr>) s);
        Some (0, s\<lparr>vtimer_stops := vtimer_stops s @ [TimerHander (tm_heap s t)]\<rparr>) })"

definition atbm_init_timer :: "nat \<Rightarrow> timer_sys \<Rightarrow> timer_sys" where
  "atbm_init_timer t s =
     upd_timer t (\<lambda>x. x\<lparr>tm_function := None, tm_data := Data_num 0, bTimerStart := 0, tm_hnext := None\<rparr>)
       (if hash_lock_init s then s else s\<lparr>hash_lock_init := True\<rparr>)"

fun timers_out :: "u32 list \<Rightarrow> timer_sys \<Rightarrow> timer_sys option" where
  "timers_out [] s = Some s"
| "timers_out (i # is) s = do { s \<leftarrow> timer_out_func i s; timers_out is s }"

text \<open>jiffies is the tick counter, which mod_timer reads twice: jif1 in the comparison and jif2 in the
  difference.  The test of the handle for a negative value is false for an unsigned handle.\<close>

definition mod_timer_delay :: "u32 \<Rightarrow> u32 \<Rightarrow> u32 \<Rightarrow> u32" where
  "mod_timer_delay jif1 jif2 expires = (if expires > jif1 then expires - jif2 else 0)"

definition atbm_mod_timer ::
    "vtimer_start \<Rightarrow> u32 \<Rightarrow> u32 \<Rightarrow> nat \<Rightarrow> u32 \<Rightarrow> timer_sys \<Rightarrow> (int \<times> timer_sys) option" where
  "atbm_mod_timer vstart jif1 jif2 t expires s = do {
     let time_after = mod_timer_delay jif1 jif2 expires;
     (_, s) \<leftarrow> cancel_timer t s;
     if time_after = 0 then Some (0, call_timer_function t s)
     else do {
       let init_ms = ATBM_AK_TIMEOUT_VAL (time_after * 1000);
       let s = s\<lparr>set_start_timer := 1\<rparr>;
       let (handle, early) = vstart init_ms;
       s \<leftarrow> timers_out early s;
       let s = upd_timer t (\<lambda>x. x\<lparr>TimerHander := handle\<rparr>) s;
       let s = timer_hash_add t (upd_timer t (\<lambda>x. x\<lparr>bTimerStart := 1\<rparr>) s);
       s \<leftarrow> (if cur_timeout_id s \<noteq> -1
             then do {
               s \<leftarrow> timer_out_func (cur_timeout_id s) s;
               Some (s\<lparr>cur_timeout_id := -1\<rparr>) }
             else Some s);
       Some (0, s\<lparr>set_start_timer := 0\<rparr>) } }"

definition zero_timer :: atbm_timer_list where
  "zero_timer = \<lparr>tm_function = None, tm_data = Data_num 0, TimerHander = 0, bTimerStart = 0, tm_hnext = None\<rparr>"

definition atbm_del_timer :: "nat \<Rightarrow> timer_sys \<Rightarrow> (int \<times> timer_sys) option" where
  "atbm_del_timer t s = do {
     (_, s) \<leftarrow> cancel_timer t s;
     Some (0, upd_timer t (\<lambda>_. zero_timer) s) }"

definition atbm_del_timer_sync :: "nat \<Rightarrow> timer_sys \<Rightarrow> (int \<times> timer_sys) option" where
  "atbm_del_timer_sync t s = atbm_del_timer t s"

definition atbm_timer_pending :: "nat \<Rightarrow> timer_sys \<Rightarrow> bool" where
  "atbm_timer_pending t s = (bTimerStart (tm_heap s t) = 1)"

text \<open>os/ankai_V330/atbm_os_timer.h: the comparison of two tick counts.\<close>

definition time_after_ticks :: "u32 \<Rightarrow> u32 \<Rightarrow> bool" where
  "time_after_ticks a b = (sint (b - a) < 0)"

subsection \<open>The table of handles\<close>

definition timer_rep :: "timer_sys \<Rightarrow> (u32 \<Rightarrow> nat option) \<Rightarrow> bool" where
  "timer_rep s m = table_rep TIMER_HASH (timer_key s) (timer_next s) (atbm_timer_hash s) m"

text \<open>Nothing but the links of the table differs between two states.\<close>

definition links_only :: "timer_sys \<Rightarrow> timer_sys \<Rightarrow> bool" where
  "links_only s s' \<longleftrightarrow>
     (\<forall>x. (tm_heap s' x)\<lparr>tm_hnext := None\<rparr> = (tm_heap s x)\<lparr>tm_hnext := None\<rparr>) \<and>
     s'\<lparr>tm_heap := tm_heap s, atbm_timer_hash := atbm_timer_hash s\<rparr> = s"

lemma links_onlyD:
  assumes "links_only s s'"
  shows "tm_function (tm_heap s' x) = tm_function (tm_heap s x)" "tm_data (tm_heap s' x) = tm_data (tm_heap s x)"
    "TimerHander (tm_heap s' x) = TimerHander (tm_heap s x)" "bTimerStart (tm_heap s' x) = bTimerStart (tm_heap s x)"
    "cur_timeout_id s' = cur_timeout_id s" "set_start_timer s' = set_start_timer s"
    "tm_calls s' = tm_calls s" "vtimer_stops s' = vtimer_stops s" "hash_lock_init s' = hash_lock_init s"
proof -
  have "(tm_heap s' x)\<lparr>tm_hnext := None\<rparr> = (tm_heap s x)\<lparr>tm_hnext := None\<rparr>" using assms by (simp add: links_only_def)
  then show "tm_function (tm_heap s' x) = tm_function (tm_heap s x)" "tm_data (tm_heap s' x) = tm_data (tm_heap s x)"
    "TimerHander (tm_heap s' x) = TimerHander (tm_heap s x)" "bTimerStart (tm_heap s' x) = bTimerStart (tm_heap s x)"
    by (cases "tm_heap s' x"; cases "tm_heap s x"; simp)+
  have "s'\<lparr>tm_heap := tm_heap s, atbm_timer_hash := atbm_timer_hash s\<rparr> = s" using assms by (simp add: links_only_def)
  then show "cur_timeout_id s' = cur_timeout_id s" "set_start_timer s' = set_start_timer s"
    "tm_calls s' = tm_calls s" "vtimer_stops s' = vtimer_stops s" "hash_lock_init s' = hash_lock_init s"
    by (cases s'; cases s; simp)+
qed

lemma timer_get_rep: "timer_rep s m \<Longrightarrow> timer_hash_get h s = Some (m h)"
  unfolding timer_rep_def timer_hash_get_def by (rule table_find) auto

lemma timer_add_rep:
  assumes "timer_rep s m" "m (timer_key s t) = None"
  shows "timer_rep (timer_hash_add t s) (m(timer_key s t \<mapsto> t))" "links_only s (timer_hash_add t s)"
proof -
  let ?s = "timer_hash_add t s"
  have "timer_key ?s = timer_key s"
    "timer_next ?s = (timer_next s)(t := atbm_timer_hash s (TIMER_HASH (timer_key s t)))"
    "atbm_timer_hash ?s = (atbm_timer_hash s)(TIMER_HASH (timer_key s t) := Some t)"
    by (auto simp: timer_hash_add_def upd_timer_def set_timer_hash_def Let_def fun_eq_iff)
  then show "timer_rep ?s (m(timer_key s t \<mapsto> t))"
    using table_add[OF assms(1)[unfolded timer_rep_def] assms(2)] by (simp only: timer_rep_def)
  show "links_only s ?s"
    by (auto simp: timer_hash_add_def upd_timer_def set_timer_hash_def links_only_def Let_def)
qed

lemma del_bytimer_chain:
  assumes "chain_del (timer_next s) (atbm_timer_hash s (TIMER_HASH (timer_key s t))) t = Some (found, p', nx')"
  shows "\<exists>s' v. timer_hash_del_bytimer t s = Some s' \<and> links_only s s' \<and> timer_next s' = nx'(t := v) \<and>
     atbm_timer_hash s' = (atbm_timer_hash s)(TIMER_HASH (timer_key s t) := p')"
proof -
  let ?i = "TIMER_HASH (timer_key s t)"
  note defs = timer_hash_del_bytimer_def Let_def set_timer_hash_def upd_timer_def links_only_def
  consider (empty) "atbm_timer_hash s ?i = None" "found = False" "p' = None" "nx' = timer_next s"
    | (head) "atbm_timer_hash s ?i = Some t" "found = True" "p' = timer_next s t" "nx' = timer_next s"
    | (in_chain) h q where "atbm_timer_hash s ?i = Some h" "h \<noteq> t" "chain_pred (timer_next s) t h = Some q"
        "p' = Some h" "timer_next s q \<noteq> None" "nx' = (timer_next s)(q := timer_next s t)"
    | (absent) h q where "atbm_timer_hash s ?i = Some h" "h \<noteq> t" "chain_pred (timer_next s) t h = Some q"
        "p' = Some h" "timer_next s q = None" "nx' = timer_next s"
  proof (cases "atbm_timer_hash s ?i")
    case None
    then show ?thesis using assms empty by (simp add: chain_del_def)
  next
    case (Some h)
    show ?thesis
    proof (cases "h = t")
      case True
      then show ?thesis using assms head Some by (simp add: chain_del_def)
    next
      case False
      then obtain q where q: "chain_pred (timer_next s) t h = Some q"
        using assms Some by (cases "chain_pred (timer_next s) t h") (simp_all add: chain_del_def)
      show ?thesis
        using assms Some False q in_chain[OF Some False q] absent[OF Some False q]
        by (cases "timer_next s q") (simp_all add: chain_del_def)
    qed
  qed
  then show ?thesis
  proof cases
    case empty
    then show ?thesis by (intro exI[of _ s] exI[of _ "timer_next s t"]) (auto simp: defs fun_eq_iff)
  next
    case head
    then show ?thesis
      by (intro exI[of _ "set_timer_hash ?i (timer_next s t) s"] exI[of _ "timer_next s t"]) (auto simp: defs fun_eq_iff)
  next
    case in_chain
    then show ?thesis
      by (intro exI[of _ "upd_timer t (\<lambda>x. x\<lparr>tm_hnext := None\<rparr>)
            (upd_timer q (\<lambda>x. x\<lparr>tm_hnext := timer_next s t\<rparr>) s)"] exI[of _ None]) (auto simp: defs fun_eq_iff)
  next
    case absent
    then show ?thesis
      by (intro exI[of _ "upd_timer t (\<lambda>x. x\<lparr>tm_hnext := None\<rparr>) s"] exI[of _ None]) (auto simp: defs fun_eq_iff)
  qed
qed

lemma timer_del_rep:
  assumes "timer_rep s m"
  shows "\<exists>s'. timer_hash_del_bytimer t s = Some s' \<and> links_only s s' \<and>
     timer_rep s' (if m (timer_key s t) = Some t then m(timer_key s t := None) else m)"
proof -
  obtain L where "chain (timer_next s) (atbm_timer_hash s (TIMER_HASH (timer_key s t))) L"
    using assms unfolding timer_rep_def table_rep_def by blast
  from chain_del_ok[OF this, of t] obtain found p' nx' where
    d: "chain_del (timer_next s) (atbm_timer_hash s (TIMER_HASH (timer_key s t))) t = Some (found, p', nx')" by blast
  obtain s' v where s': "timer_hash_del_bytimer t s = Some s'" "links_only s s'" "timer_next s' = nx'(t := v)"
      "atbm_timer_hash s' = (atbm_timer_hash s)(TIMER_HASH (timer_key s t) := p')"
    using del_bytimer_chain[OF d] by blast
  have k: "timer_key s' = timer_key s" using links_onlyD(3)[OF s'(2)] by auto
  have f: "found \<longleftrightarrow> m (timer_key s t) = Some t"
    by (rule table_del(1)[OF assms[unfolded timer_rep_def] d])
  have "timer_rep s' (if found then m(timer_key s t := None) else m)"
    unfolding timer_rep_def k s'(3,4) by (rule table_del(2)[OF assms[unfolded timer_rep_def] d])
  then show ?thesis using s'(1,2) f by simp
qed

interpretation timers: keyed_table timer_rep timer_key timer_hash_get "\<lambda>t s. Some (timer_hash_add t s)"
  timer_hash_del_bytimer
proof
  show "timer_hash_get k s = Some (m k)" if "timer_rep s m" for s m k
    using that by (rule timer_get_rep)
  show "\<exists>s'. Some (timer_hash_add x s) = Some s' \<and> timer_rep s' (m(timer_key s x \<mapsto> x)) \<and> timer_key s' = timer_key s"
    if "timer_rep s m" "m (timer_key s x) = None" for s m x
    using timer_add_rep[OF that] links_onlyD(3) by auto
  show "\<exists>s'. timer_hash_del_bytimer x s = Some s' \<and>
      timer_rep s' (if m (timer_key s x) = Some x then m(timer_key s x := None) else m) \<and> timer_key s' = timer_key s"
    if "timer_rep s m" for s m x
    using timer_del_rep[OF that, of x] links_onlyD(3) by (metis (no_types, lifting) ext)
qed

end
