(* ===== verification/Os_Timer_Props.thy ===== *)
theory Os_Timer_Props
  imports Os_Timer
begin

text \<open>The timers keep their table, call back once, and are silent after atbm_del_timer.\<close>

text \<open>Between two operations of the port: the table is the map m, every timer in it is marked as
  started, and no early expiry is remembered.\<close>

definition timer_inv :: "timer_sys \<Rightarrow> (u32 \<Rightarrow> nat option) \<Rightarrow> bool" where
  "timer_inv s m \<longleftrightarrow> timer_rep s m \<and> (\<forall>h t. m h = Some t \<longrightarrow> bTimerStart (tm_heap s t) = 1) \<and>
     cur_timeout_id s = -1 \<and> set_start_timer s = 0"

definition without :: "nat \<Rightarrow> (u32 \<Rightarrow> nat option) \<Rightarrow> u32 \<Rightarrow> nat option" where
  "without t m = (\<lambda>h. if m h = Some t then None else m h)"

definition same_timer :: "nat \<Rightarrow> timer_sys \<Rightarrow> timer_sys \<Rightarrow> bool" where
  "same_timer t s s' \<longleftrightarrow> tm_function (tm_heap s' t) = tm_function (tm_heap s t) \<and>
     tm_data (tm_heap s' t) = tm_data (tm_heap s t)"

lemma same_timer_simps [simp]:
  "same_timer t s s"
  "same_timer t s s1 \<Longrightarrow> same_timer t s1 s2 \<Longrightarrow> same_timer t s s2"
  by (simp_all add: same_timer_def)

lemma links_only_same: "links_only s s' \<Longrightarrow> same_timer t s s'"
  by (simp add: same_timer_def links_onlyD)

lemma timer_repD: "timer_rep s m \<Longrightarrow> m h = Some t \<Longrightarrow> TimerHander (tm_heap s t) = h"
  unfolding timer_rep_def table_rep_def by (auto dest: buckets_key)

lemma without_upd:
  assumes "timer_rep s m"
  shows "(if m (timer_key s t) = Some t then m(timer_key s t := None) else m) = without t m"
proof
  fix h
  show "(if m (timer_key s t) = Some t then m(timer_key s t := None) else m) h = without t m h"
    using timer_repD[OF assms, of h t] by (cases "m h = Some t") (auto simp: without_def)
qed

lemma timer_rep_cong:
  assumes "\<And>x. TimerHander (tm_heap s' x) = TimerHander (tm_heap s x)"
    "\<And>x. tm_hnext (tm_heap s' x) = tm_hnext (tm_heap s x)" "atbm_timer_hash s' = atbm_timer_hash s"
  shows "timer_rep s' m = timer_rep s m"
  by (simp add: timer_rep_def assms)

lemma timer_rep_calls [simp]:
  "timer_rep (s\<lparr>vtimer_stops := v\<rparr>) m = timer_rep s m"
  "timer_rep (s\<lparr>set_start_timer := n\<rparr>) m = timer_rep s m"
  "timer_rep (s\<lparr>cur_timeout_id := i\<rparr>) m = timer_rep s m"
  "timer_rep (s\<lparr>tm_calls := cs\<rparr>) m = timer_rep s m"
  "timer_rep (upd_timer t (\<lambda>x. x\<lparr>bTimerStart := b\<rparr>) s) m = timer_rep s m"
  by (rule timer_rep_cong; simp add: upd_timer_def)+

text \<open>A field of a timer that is in no chain may change.\<close>

lemma table_cong:
  assumes "table_rep hash key nx heads m" "x \<notin> ran m" "\<And>y. y \<noteq> x \<Longrightarrow> key' y = key y \<and> nx' y = nx y"
  shows "table_rep hash key' nx' heads m"
proof -
  obtain L where L: "\<And>i. chain nx (heads i) (L i)" and b: "buckets hash key m L"
    using assms(1) unfolding table_rep_def by blast
  have x: "x \<notin> set (L i)" for i using buckets_mem[OF b] assms(2) by (auto simp: ran_def)
  have "chain nx' (heads i) (L i)" for i
    using L chain_cong[of "L i" nx' nx] x assms(3) by metis
  moreover have "buckets hash key' m L"
    unfolding buckets_def
  proof (intro conjI allI)
    fix i y
    show "(y \<in> set (L i)) = (hash (key' y) = i \<and> m (key' y) = Some y)"
      using buckets_mem[OF b, of y i] x assms(2,3) by (cases "y = x") (auto simp: ran_def)
  next
    fix k y
    show "m k = Some y \<longrightarrow> key' y = k"
      using buckets_key[OF b, of k y] assms(2,3) by (cases "y = x") (auto simp: ran_def)
  qed
  ultimately show ?thesis unfolding table_rep_def by blast
qed

lemma timer_rep_upd:
  assumes "timer_rep s m" "t \<notin> ran m"
  shows "timer_rep (upd_timer t f s) m"
  unfolding timer_rep_def
  by (rule table_cong[of _ "timer_key s" "timer_next s" _ _ t])
    (use assms in \<open>auto simp: timer_rep_def upd_timer_def\<close>)

lemma without_ran: "t \<notin> ran (without t m)"
  by (auto simp: ran_def without_def)

subsection \<open>The steps\<close>

lemma cancel_timer_ok:
  assumes "timer_inv s m"
  shows "\<exists>r s'. cancel_timer t s = Some (r, s') \<and> timer_inv s' (without t m) \<and> (\<forall>x. same_timer x s s') \<and>
     tm_calls s' = tm_calls s \<and> timer_key s' = timer_key s \<and>
     vtimer_stops s' = vtimer_stops s @ (if bTimerStart (tm_heap s t) = 0 then [] else [timer_key s t])"
proof (cases "bTimerStart (tm_heap s t) = 0")
  case True
  then have "without t m = m" using assms by (fastforce simp: without_def timer_inv_def fun_eq_iff)
  then show ?thesis using True assms by (simp add: cancel_timer_def)
next
  case False
  let ?s0 = "upd_timer t (\<lambda>x. x\<lparr>bTimerStart := 0\<rparr>) s"
  have r0: "timer_rep ?s0 m" using assms by (simp add: timer_inv_def)
  have k0: "timer_key ?s0 = timer_key s" by (auto simp: upd_timer_def)
  from timer_del_rep[OF r0, of t] obtain s1 where s1: "timer_hash_del_bytimer t ?s0 = Some s1"
      "links_only ?s0 s1" "timer_rep s1 (without t m)"
    unfolding without_upd[OF r0] by blast
  have "bTimerStart (tm_heap s1 x) = 1" if "without t m h = Some x" for h x
    using that assms links_onlyD(4)[OF s1(2)] by (auto simp: without_def timer_inv_def upd_timer_def split: if_splits)
  then show ?thesis using False s1 assms links_onlyD[OF s1(2)] k0
    by (auto simp: cancel_timer_def timer_inv_def same_timer_def upd_timer_def fun_eq_iff)
qed

lemma del_timer_ok:
  assumes inv: "timer_inv s m"
  shows "\<exists>s1. atbm_del_timer t s = Some (0, s1) \<and> timer_inv s1 (without t m) \<and> tm_heap s1 t = zero_timer \<and>
    tm_calls s1 = tm_calls s \<and> (\<forall>x. x \<noteq> t \<longrightarrow> same_timer x s s1)"
proof -
  obtain r sc where sc: "cancel_timer t s = Some (r, sc)" "timer_inv sc (without t m)" "tm_calls sc = tm_calls s"
      "\<forall>x. same_timer x s sc"
    using cancel_timer_ok[OF inv, of t] by blast
  let ?s1 = "upd_timer t (\<lambda>_. zero_timer) sc"
  have "bTimerStart (tm_heap ?s1 x) = 1" if "without t m h = Some x" for h x
    using that sc(2) by (auto simp: timer_inv_def upd_timer_def without_def split: if_splits)
  moreover have "timer_rep ?s1 (without t m)"
    using sc(2) by (intro timer_rep_upd without_ran) (simp add: timer_inv_def)
  ultimately have "timer_inv ?s1 (without t m)"
    using sc(2) by (simp add: timer_inv_def) (simp add: upd_timer_def)
  then show ?thesis using sc
    by (intro exI[of _ ?s1]) (auto simp: atbm_del_timer_def upd_timer_def same_timer_def)
qed

lemma call_timer_function_simps [simp]:
  "tm_heap (call_timer_function t s) = tm_heap s" "cur_timeout_id (call_timer_function t s) = cur_timeout_id s"
  "set_start_timer (call_timer_function t s) = set_start_timer s"
  "vtimer_stops (call_timer_function t s) = vtimer_stops s"
  "timer_rep (call_timer_function t s) m = timer_rep s m"
  "tm_calls (call_timer_function t s) = tm_calls s @
     (case tm_function (tm_heap s t) of None \<Rightarrow> [] | Some f \<Rightarrow> [(f, tm_data (tm_heap s t))])"
  by (simp_all add: call_timer_function_def split: option.split)

text \<open>What a vtimer that expires does: a known one is taken out of the table and called, an unknown one
  is remembered while a timer is being started.\<close>

lemma timer_out_known:
  assumes "timer_rep s m" "m h = Some t"
  shows "\<exists>s'. timer_out_func h s = Some s' \<and> timer_rep s' (m(h := None)) \<and> same_timer x s s' \<and>
     (\<forall>x. bTimerStart (tm_heap s' x) = bTimerStart (tm_heap s x)) \<and> timer_key s' = timer_key s \<and>
     cur_timeout_id s' = cur_timeout_id s \<and> set_start_timer s' = set_start_timer s \<and> vtimer_stops s' = vtimer_stops s \<and>
     tm_calls s' = tm_calls s @
       (case tm_function (tm_heap s t) of None \<Rightarrow> [] | Some f \<Rightarrow> [(f, tm_data (tm_heap s t))])"
proof -
  have k: "timer_key s t = h" using timer_repD[OF assms] .
  from timer_del_rep[OF assms(1), of t] obtain s1 where s1: "timer_hash_del_bytimer t s = Some s1"
      "links_only s s1" "timer_rep s1 (m(h := None))"
    unfolding k using assms(2) by auto
  show ?thesis
    using timer_get_rep[OF assms(1), of h] assms(2) s1 links_onlyD[OF s1(2)]
    by (auto simp: timer_out_func_def same_timer_def fun_eq_iff split: option.split)
qed

lemma timer_out_unknown:
  assumes "timer_rep s m" "m h = None"
  shows "timer_out_func h s = Some (if set_start_timer s \<noteq> 0 \<and> cur_timeout_id s = -1
                                    then s\<lparr>cur_timeout_id := h\<rparr> else s)"
  using timer_get_rep[OF assms(1), of h] assms(2) by (simp add: timer_out_func_def)

text \<open>The part of mod_timer between the start of the vtimer and the return.\<close>

lemma mod_timer_start:
  assumes inv: "timer_inv s m" and d: "mod_timer_delay j1 j2 expires \<noteq> 0"
    and v: "vstart (ATBM_AK_TIMEOUT_VAL (mod_timer_delay j1 j2 expires * 1000)) = (h, early)"
    and early: "\<forall>i\<in>set early. without t m i = None" and h: "without t m h = None"
  shows "\<exists>s1. atbm_mod_timer vstart j1 j2 t expires s =
      do { s \<leftarrow> (if cur_timeout_id s1 \<noteq> -1
             then do { s \<leftarrow> timer_out_func (cur_timeout_id s1) s1; Some (s\<lparr>cur_timeout_id := -1\<rparr>) }
             else Some s1);
           Some (0, s\<lparr>set_start_timer := 0\<rparr>) } \<and>
    timer_rep s1 ((without t m)(h \<mapsto> t)) \<and> (\<forall>x. same_timer x s s1) \<and> tm_calls s1 = tm_calls s \<and>
    (\<forall>h' x. ((without t m)(h \<mapsto> t)) h' = Some x \<longrightarrow> bTimerStart (tm_heap s1 x) = 1) \<and>
    set_start_timer s1 = 1 \<and> cur_timeout_id s1 = (case filter (\<lambda>i. i \<noteq> -1) early of [] \<Rightarrow> -1 | i # is \<Rightarrow> i)"
proof -
  obtain r sc where sc: "cancel_timer t s = Some (r, sc)" "timer_inv sc (without t m)" "\<forall>x. same_timer x s sc"
      "tm_calls sc = tm_calls s"
    using cancel_timer_ok[OF inv, of t] by blast
  let ?se = "sc\<lparr>set_start_timer := 1\<rparr>"
  let ?cur = "case filter (\<lambda>i. i \<noteq> -1) early of [] \<Rightarrow> -1 | i # is \<Rightarrow> i"
  have rep: "timer_rep ?se (without t m)" using sc(2) by (simp add: timer_inv_def)
  have outs: "timers_out is s2 = Some (s2\<lparr>cur_timeout_id := if cur_timeout_id s2 = -1
        then (case filter (\<lambda>i. i \<noteq> -1) is of [] \<Rightarrow> -1 | i # _ \<Rightarrow> i) else cur_timeout_id s2\<rparr>)"
    if "timer_rep s2 (without t m)" "\<forall>i\<in>set is. without t m i = None" "set_start_timer s2 = 1" for "is" s2
    using that
  proof (induction "is" arbitrary: s2)
    case (Cons i "is")
    have "timer_out_func i s2 = Some (if cur_timeout_id s2 = -1 then s2\<lparr>cur_timeout_id := i\<rparr> else s2)"
      using timer_out_unknown[of s2 "without t m" i] Cons.prems by simp
    then show ?case using Cons.IH[of s2] Cons.IH[of "s2\<lparr>cur_timeout_id := i\<rparr>"] Cons.prems by simp
  qed simp
  let ?s2 = "?se\<lparr>cur_timeout_id := ?cur\<rparr>"
  have o: "timers_out early ?se = Some ?s2"
    using outs[OF rep early] sc(2) by (simp add: timer_inv_def)
  let ?s3 = "upd_timer t (\<lambda>x. x\<lparr>bTimerStart := 1\<rparr>) (upd_timer t (\<lambda>x. x\<lparr>TimerHander := h\<rparr>) ?s2)"
  have rep3: "timer_rep ?s3 (without t m)"
    using timer_rep_upd[of ?s2 "without t m" t "\<lambda>x. x\<lparr>TimerHander := h\<rparr>"] rep by (simp add: without_ran)
  have k3: "timer_key ?s3 t = h" by (simp add: upd_timer_def)
  have n3: "without t m (timer_key ?s3 t) = None" unfolding k3 by (rule h)
  note add = timer_add_rep[OF rep3 n3, unfolded k3]
  let ?s4 = "timer_hash_add t ?s3"
  have "atbm_mod_timer vstart j1 j2 t expires s =
      do { s \<leftarrow> (if cur_timeout_id ?s4 \<noteq> -1
             then do { s \<leftarrow> timer_out_func (cur_timeout_id ?s4) ?s4; Some (s\<lparr>cur_timeout_id := -1\<rparr>) }
             else Some ?s4);
           Some (0, s\<lparr>set_start_timer := 0\<rparr>) }"
    using sc(1) d v o by (simp add: atbm_mod_timer_def Let_def)
  moreover have "bTimerStart (tm_heap ?s4 x) = 1" if "((without t m)(h \<mapsto> t)) h' = Some x" for h' x
    using that sc(2) unfolding links_onlyD(4)[OF add(2)]
    by (auto simp: timer_inv_def upd_timer_def split: if_splits)
  moreover have "\<forall>x. same_timer x s ?s4" "tm_calls ?s4 = tm_calls s" "set_start_timer ?s4 = 1" "cur_timeout_id ?s4 = ?cur"
    using sc(3,4) links_onlyD[OF add(2)] by (simp_all add: same_timer_def upd_timer_def)
  ultimately show ?thesis using add(1) by blast
qed

text \<open>A start of a vtimer that returns a free handle, with nothing expiring meanwhile.\<close>

definition calm :: "vtimer_start \<Rightarrow> (u32 \<Rightarrow> nat option) \<Rightarrow> bool" where
  "calm vstart m \<longleftrightarrow> (\<forall>ms. snd (vstart ms) = [] \<and> m (fst (vstart ms)) = None)"

definition calls_of :: "nat \<Rightarrow> timer_sys \<Rightarrow> (timer_callback \<times> timer_data) list" where
  "calls_of t s = (case tm_function (tm_heap s t) of None \<Rightarrow> [] | Some f \<Rightarrow> [(f, tm_data (tm_heap s t))])"

lemma mod_timer_calm:
  assumes inv: "timer_inv s m" and v: "calm vstart m"
  shows "\<exists>s' m'. atbm_mod_timer vstart j1 j2 t e s = Some (0, s') \<and> timer_inv s' m' \<and> (\<forall>x. same_timer x s s') \<and>
    tm_calls s' = tm_calls s @ (if mod_timer_delay j1 j2 e = 0 then calls_of t s else []) \<and>
    (m' = without t m \<or> (\<exists>h. m' = (without t m)(h \<mapsto> t)))"
proof (cases "mod_timer_delay j1 j2 e = 0")
  case True
  obtain r sc where sc: "cancel_timer t s = Some (r, sc)" "timer_inv sc (without t m)" "\<forall>x. same_timer x s sc"
      "tm_calls sc = tm_calls s"
    using cancel_timer_ok[OF inv, of t] by blast
  have "timer_inv (call_timer_function t sc) (without t m)" using sc(2) by (simp add: timer_inv_def)
  moreover have "calls_of t sc = calls_of t s" using sc(3) by (simp add: calls_of_def same_timer_def split: option.split)
  ultimately show ?thesis using sc True
    by (intro exI[of _ "call_timer_function t sc"] exI[of _ "without t m"])
      (auto simp: atbm_mod_timer_def Let_def same_timer_def calls_of_def)
next
  case False
  obtain h where h: "vstart (ATBM_AK_TIMEOUT_VAL (mod_timer_delay j1 j2 e * 1000)) = (h, [])" "m h = None"
    using v by (metis calm_def prod.collapse)
  then have wh: "without t m h = None" by (simp add: without_def)
  obtain s1 where s1: "atbm_mod_timer vstart j1 j2 t e s = Some (0, s1\<lparr>set_start_timer := 0\<rparr>)"
      "timer_rep s1 ((without t m)(h \<mapsto> t))" "\<forall>x. same_timer x s s1" "tm_calls s1 = tm_calls s"
      "\<forall>h' x. ((without t m)(h \<mapsto> t)) h' = Some x \<longrightarrow> bTimerStart (tm_heap s1 x) = 1" "cur_timeout_id s1 = -1"
    using mod_timer_start[of s m j1 j2 e vstart h "[]" t] inv False h wh by auto
  let ?s' = "s1\<lparr>set_start_timer := 0\<rparr>"
  have "timer_inv ?s' ((without t m)(h \<mapsto> t))" using s1(2,5,6) by (simp add: timer_inv_def)
  moreover have "\<forall>x. same_timer x s ?s'" using s1(3) by (simp add: same_timer_def)
  ultimately show ?thesis using s1(1,4) False
    by (intro exI[of _ ?s'] exI[of _ "(without t m)(h \<mapsto> t)"]) auto
qed

subsection \<open>Properties\<close>

text \<open>C28. The timer table implements a map from the handles of the vtimers to the timers: a look-up returns
  the entry of the handle, an insertion under a free handle adds it, and removing a timer or a handle
  deletes exactly its entry, from any position of its chain.\<close>
theorem timer_table_is_map:
  assumes "timer_rep s m"
  shows "timer_hash_get h s = Some (m h) \<and>
    (m (timer_key s t) = None \<longrightarrow> timer_rep (timer_hash_add t s) (m(timer_key s t \<mapsto> t))) \<and>
    (\<exists>s'. timer_hash_del_bytimer t s = Some s' \<and> timer_rep s' (without t m)) \<and>
    (\<exists>s'. timer_hash_del_byhandle h s = Some s' \<and> timer_rep s' (m(h := None)))"
proof -
  have "\<exists>s'. timer_hash_del_byhandle h s = Some s' \<and> timer_rep s' (m(h := None))"
  proof (cases "m h")
    case None
    then have "m(h := None) = m" by auto
    then show ?thesis using timers.get_rep[OF assms, of h] None assms by (simp add: timer_hash_del_byhandle_def)
  next
    case (Some x)
    then have "timer_key s x = h" using timer_repD[OF assms] by simp
    then show ?thesis using timers.get_rep[OF assms, of h] timers.del_rep[OF assms, of x] Some
      by (auto simp: timer_hash_del_byhandle_def)
  qed
  then show ?thesis
    using timers.get_rep[OF assms] timers.add_rep[OF assms, of t] timers.del_rep[OF assms, of t]
    unfolding without_upd[OF assms] by auto
qed

definition demo_timer :: atbm_timer_list where
  "demo_timer = zero_timer\<lparr>tm_function := Some (Other_timer 1), tm_data := Data_num 7\<rparr>"

definition demo_timers :: timer_sys where
  "demo_timers = \<lparr>tm_heap = (\<lambda>_. demo_timer), atbm_timer_hash = (\<lambda>_. None), cur_timeout_id = -1,
     set_start_timer = 0, hash_lock_init = True, tm_calls = [], vtimer_stops = []\<rparr>"

lemma demo_timers_inv: "timer_inv demo_timers Map.empty"
proof -
  have "timer_rep demo_timers Map.empty"
    unfolding timer_rep_def table_rep_def
    by (rule exI[of _ "\<lambda>_. []"]) (simp add: demo_timers_def buckets_def)
  then show ?thesis by (simp add: timer_inv_def) (simp add: demo_timers_def)
qed

theorem timer_table_is_map_witness:
  "timer_hash_get 5 demo_timers = Some None \<and> timer_rep (timer_hash_add 3 demo_timers) [0 \<mapsto> 3]"
proof -
  have "timer_key demo_timers 3 = 0" by (simp add: demo_timers_def demo_timer_def zero_timer_def)
  then show ?thesis
    using timer_table_is_map[of demo_timers Map.empty 5 3] demo_timers_inv by (simp add: timer_inv_def)
qed

text \<open>C18. A timer that is started for a later time calls its function exactly once, unless the expiry of
  another vtimer comes in between.  While atbm_mod_timer starts the vtimer, vtimers that are not in the
  table may expire: its own (the list early then holds h) or those of cancelled timers.  When its own
  expiry is the first of them, mod_timer itself calls the function, once, and the timer is out of the
  table.  Otherwise the timer is in the table, nothing has been called, and the next expiry of its
  handle calls the function; after it a further expiry of the handle calls nothing.  So the timer is
  called once when early is empty or h; but when its vtimer has expired behind another one, that next
  expiry does not come: there is one slot for early expiries (early_expiry_lost).\<close>
theorem mod_timer_calls_once:
  assumes inv: "timer_inv s m" and d: "mod_timer_delay j1 j2 expires \<noteq> 0"
    and v: "vstart (ATBM_AK_TIMEOUT_VAL (mod_timer_delay j1 j2 expires * 1000)) = (h, early)"
    and early: "\<forall>i\<in>set early. without t m i = None \<and> i \<noteq> -1" and h: "without t m h = None" "h \<noteq> -1"
    and f: "tm_function (tm_heap s t) = Some f"
  shows "\<exists>s'. atbm_mod_timer vstart j1 j2 t expires s = Some (0, s') \<and>
    (if early \<noteq> [] \<and> hd early = h then
       timer_inv s' (without t m) \<and> tm_calls s' = tm_calls s @ [(f, tm_data (tm_heap s t))] \<and>
       timer_out_func h s' = Some s'
     else timer_inv s' ((without t m)(h \<mapsto> t)) \<and> tm_calls s' = tm_calls s \<and>
       (\<exists>s''. timer_out_func h s' = Some s'' \<and> timer_inv s'' (without t m) \<and>
          tm_calls s'' = tm_calls s @ [(f, tm_data (tm_heap s t))] \<and> timer_out_func h s'' = Some s''))"
proof -
  let ?m = "(without t m)(h \<mapsto> t)"
  have m': "?m(h := None) = without t m" using h by auto
  have e: "\<forall>i\<in>set early. without t m i = None" "filter (\<lambda>i. i \<noteq> -1) early = early"
    using early by (auto simp: filter_id_conv)
  obtain s1 where s1: "atbm_mod_timer vstart j1 j2 t expires s =
      do { s \<leftarrow> (if cur_timeout_id s1 \<noteq> -1
             then do { s \<leftarrow> timer_out_func (cur_timeout_id s1) s1; Some (s\<lparr>cur_timeout_id := -1\<rparr>) }
             else Some s1);
           Some (0, s\<lparr>set_start_timer := 0\<rparr>) }"
    and r1: "timer_rep s1 ?m" "\<forall>x. same_timer x s s1" "tm_calls s1 = tm_calls s"
    and b1: "\<forall>h' x. ?m h' = Some x \<longrightarrow> bTimerStart (tm_heap s1 x) = 1"
    and c1: "set_start_timer s1 = 1" "cur_timeout_id s1 = (case early of [] \<Rightarrow> -1 | i # is \<Rightarrow> i)"
    using mod_timer_start[of s m j1 j2 expires vstart h early t] inv d v e h(1) by auto
  have mh: "?m h = Some t" by simp
  have b': "\<forall>h' x. without t m h' = Some x \<longrightarrow> bTimerStart (tm_heap s1 x) = 1"
    using b1 h by (metis fun_upd_other option.distinct(1))
  show ?thesis
  proof (cases "early \<noteq> [] \<and> hd early = h")
    case False
    let ?s' = "s1\<lparr>cur_timeout_id := -1, set_start_timer := 0\<rparr>"
    have run: "atbm_mod_timer vstart j1 j2 t expires s = Some (0, ?s')"
    proof (cases early)
      case Nil
      then show ?thesis using s1 c1 by simp
    next
      case (Cons i rest)
      then have i: "?m i = None" "i \<noteq> -1" "cur_timeout_id s1 = i" using False early c1(2) by auto
      have "timer_out_func i s1 = Some s1" using timer_out_unknown[OF r1(1) i(1)] i c1(1) by simp
      then show ?thesis using s1 i by simp
    qed
    have i': "timer_inv ?s' ?m" using r1 b1 by (simp add: timer_inv_def)
    then obtain s2 where s2: "timer_out_func h ?s' = Some s2" "timer_rep s2 (without t m)"
        "\<forall>x. bTimerStart (tm_heap s2 x) = bTimerStart (tm_heap ?s' x)" "cur_timeout_id s2 = cur_timeout_id ?s'"
        "set_start_timer s2 = set_start_timer ?s'"
        "tm_calls s2 = tm_calls ?s' @ [(f, tm_data (tm_heap s t))]"
      using timer_out_known[of ?s' ?m h t t] r1(2) f unfolding m' by (auto simp: timer_inv_def same_timer_def)
    then have "timer_inv s2 (without t m)" "timer_out_func h s2 = Some s2"
      using b' timer_out_unknown[OF s2(2) h(1)] by (auto simp: timer_inv_def)
    then show ?thesis using run False i' s2 r1(3) by auto
  next
    case True
    then have ee: "cur_timeout_id s1 = h" using c1(2) by (cases early) auto
    obtain s2 where s2: "timer_out_func h s1 = Some s2" "timer_rep s2 (without t m)"
        "\<forall>x. bTimerStart (tm_heap s2 x) = bTimerStart (tm_heap s1 x)"
        "tm_calls s2 = tm_calls s1 @ [(f, tm_data (tm_heap s t))]"
      using timer_out_known[OF r1(1) mh, of t] r1(2) f unfolding m' by (auto simp: same_timer_def)
    let ?s' = "s2\<lparr>cur_timeout_id := -1, set_start_timer := 0\<rparr>"
    have "timer_inv ?s' (without t m)" using s2 b' by (simp add: timer_inv_def)
    moreover have "timer_out_func h ?s' = Some ?s'"
      using timer_out_unknown[of ?s' "without t m" h] s2(2) h by simp
    ultimately show ?thesis using s1 ee True h(2) s2 r1(3) by auto
  qed
qed

theorem mod_timer_calls_once_witness:
  "\<exists>s'. atbm_mod_timer (\<lambda>_. (9, [9])) 100 100 0 150 demo_timers = Some (0, s') \<and>
     tm_calls s' = [(Other_timer 1, Data_num 7)]"
proof -
  have "\<exists>s'. atbm_mod_timer (\<lambda>_. (9, [9])) 100 100 0 150 demo_timers = Some (0, s') \<and>
     tm_calls s' = tm_calls demo_timers @ [(Other_timer 1, tm_data (tm_heap demo_timers 0))]"
    using mod_timer_calls_once[OF demo_timers_inv, of 100 100 150 "\<lambda>_. (9, [9])" 9 "[9]" 0 "Other_timer 1"]
    by (auto simp: mod_timer_delay_def without_def demo_timers_def demo_timer_def zero_timer_def)
  then show ?thesis by (simp add: demo_timers_def demo_timer_def zero_timer_def)
qed

text \<open>atbm_del_timer removes a timer for good: it clears the object, function included, so that even a
  timer that is started again afterwards calls nothing when it expires.  The handle of a timer that
  is not in the table is no longer served either.\<close>
theorem deleted_timer_is_silent:
  assumes inv: "timer_inv s m"
  shows "\<exists>s1. atbm_del_timer t s = Some (0, s1) \<and> timer_inv s1 (without t m) \<and> tm_calls s1 = tm_calls s \<and>
    \<not> atbm_timer_pending t s1 \<and>
    (\<forall>vstart j1 j2 expires h. mod_timer_delay j1 j2 expires \<noteq> 0 \<longrightarrow>
       vstart (ATBM_AK_TIMEOUT_VAL (mod_timer_delay j1 j2 expires * 1000)) = (h, []) \<longrightarrow> without t m h = None \<longrightarrow>
       (\<exists>s2 s3. atbm_mod_timer vstart j1 j2 t expires s1 = Some (0, s2) \<and>
          timer_out_func h s2 = Some s3 \<and> tm_calls s3 = tm_calls s)) \<and>
    (\<forall>vstart j1 j2 expires. mod_timer_delay j1 j2 expires = 0 \<longrightarrow>
       (\<exists>s2. atbm_mod_timer vstart j1 j2 t expires s1 = Some (0, s2) \<and> tm_calls s2 = tm_calls s))"
proof -
  obtain s1 where s1: "atbm_del_timer t s = Some (0, s1)" and i1: "timer_inv s1 (without t m)"
    and z: "tm_heap s1 t = zero_timer" and c1: "tm_calls s1 = tm_calls s"
    using del_timer_ok[OF inv] by blast
  have ww: "without t (without t m) = without t m" by (auto simp: without_def)
  have later: "\<exists>s2 s3. atbm_mod_timer vstart j1 j2 t expires s1 = Some (0, s2) \<and>
          timer_out_func h s2 = Some s3 \<and> tm_calls s3 = tm_calls s"
    if d: "mod_timer_delay j1 j2 expires \<noteq> 0"
      and v: "vstart (ATBM_AK_TIMEOUT_VAL (mod_timer_delay j1 j2 expires * 1000)) = (h, [])"
      and h: "without t m h = None" for vstart :: vtimer_start and j1 j2 expires h
  proof -
    obtain s2 where s2: "atbm_mod_timer vstart j1 j2 t expires s1 =
          Some (0, s2\<lparr>set_start_timer := 0\<rparr>)" "timer_rep s2 ((without t m)(h \<mapsto> t))" "\<forall>x. same_timer x s1 s2"
        "tm_calls s2 = tm_calls s"
      using mod_timer_start[of s1 "without t m" j1 j2 expires vstart h "[]" t] i1 d v h c1 by (auto simp: ww)
    obtain s3 where "timer_out_func h (s2\<lparr>set_start_timer := 0\<rparr>) = Some s3" "tm_calls s3 = tm_calls s"
      using timer_out_known[of "s2\<lparr>set_start_timer := 0\<rparr>" "(without t m)(h \<mapsto> t)" h t t] s2 z
      by (auto simp: same_timer_def zero_timer_def)
    then show ?thesis using s2(1) by blast
  qed
  have now: "\<exists>s2. atbm_mod_timer vstart j1 j2 t expires s1 = Some (0, s2) \<and> tm_calls s2 = tm_calls s"
    if "mod_timer_delay j1 j2 expires = 0" for vstart :: vtimer_start and j1 j2 expires
    using that z c1 by (simp add: atbm_mod_timer_def Let_def cancel_timer_def zero_timer_def)
  show ?thesis
    using s1 i1 c1 z later now
    by (intro exI[of _ s1]) (auto simp: atbm_timer_pending_def zero_timer_def)
qed

theorem deleted_timer_is_silent_witness:
  "\<exists>s1. atbm_del_timer 0 demo_timers = Some (0, s1) \<and> tm_calls s1 = []"
  using deleted_timer_is_silent[OF demo_timers_inv, of 0] by (auto simp: demo_timers_def)

text \<open>A timer that has expired still counts as pending, and its handle is used again: the next
  atbm_mod_timer or atbm_del_timer stops the vtimer with the old handle, whatever it now runs for.\<close>
theorem expired_timer_stops_stale_handle:
  assumes inv: "timer_inv s m" and t: "m h = Some t"
  shows "\<exists>s1 s2. timer_out_func h s = Some s1 \<and> timer_hash_get h s1 = Some None \<and> atbm_timer_pending t s1 \<and>
    atbm_del_timer t s1 = Some (0, s2) \<and> vtimer_stops s2 = vtimer_stops s @ [h]"
proof -
  have r: "timer_rep s m" and b: "bTimerStart (tm_heap s t) = 1" using inv t by (auto simp: timer_inv_def)
  obtain s1 where s1: "timer_out_func h s = Some s1" "timer_rep s1 (m(h := None))"
      "\<forall>x. bTimerStart (tm_heap s1 x) = bTimerStart (tm_heap s x)" "timer_key s1 = timer_key s"
      "cur_timeout_id s1 = cur_timeout_id s" "set_start_timer s1 = set_start_timer s" "vtimer_stops s1 = vtimer_stops s"
    using timer_out_known[OF r t, of t] by blast
  have i1: "timer_inv s1 (m(h := None))" using inv s1 by (auto simp: timer_inv_def)
  have "timer_key s1 t = h" using timer_repD[OF r t] s1(4) by metis
  then obtain r' s2 where "cancel_timer t s1 = Some (r', s2)" "vtimer_stops s2 = vtimer_stops s @ [h]"
    using cancel_timer_ok[OF i1, of t] s1(3,7) b by auto
  then show ?thesis using s1(1,3) b timer_get_rep[OF s1(2), of h]
    by (auto simp: atbm_del_timer_def atbm_timer_pending_def upd_timer_def)
qed

theorem expired_timer_stops_stale_handle_witness:
  "\<exists>s0 s1 s2. timer_out_func 9 s0 = Some s1 \<and> atbm_timer_pending 3 s1 \<and>
     atbm_del_timer 3 s1 = Some (0, s2) \<and> vtimer_stops s2 = vtimer_stops s0 @ [9]"
proof -
  obtain s1 where "timer_rep s1 [9 \<mapsto> 3]" "\<forall>h x. [9 \<mapsto> 3] h = Some x \<longrightarrow> bTimerStart (tm_heap s1 x) = 1"
      "cur_timeout_id s1 = -1"
    using mod_timer_start[of demo_timers Map.empty 100 100 150 "\<lambda>_. (9, [])" 9 "[]" 3] demo_timers_inv
    by (auto simp: mod_timer_delay_def without_def)
  then have "timer_inv (s1\<lparr>set_start_timer := 0\<rparr>) [9 \<mapsto> 3]" by (simp add: timer_inv_def)
  from expired_timer_stops_stale_handle[OF this, of 9 3, OF fun_upd_same] show ?thesis by blast
qed

text \<open>There is one slot for early expiries: when another unknown vtimer expires first, the expiry of the
  new timer is lost, and the timer stays in the table without a running vtimer.\<close>

lemma early_expiry_lost:
  assumes inv: "timer_inv s m" and d: "mod_timer_delay j1 j2 expires \<noteq> 0"
    and v: "vstart (ATBM_AK_TIMEOUT_VAL (mod_timer_delay j1 j2 expires * 1000)) = (h, [i, h])"
    and i: "without t m i = None" "i \<noteq> -1" "i \<noteq> h" and h: "without t m h = None"
  shows "\<exists>s'. atbm_mod_timer vstart j1 j2 t expires s = Some (0, s') \<and> tm_calls s' = tm_calls s \<and>
    timer_inv s' ((without t m)(h \<mapsto> t))"
proof -
  let ?m = "(without t m)(h \<mapsto> t)"
  obtain s1 where s1: "atbm_mod_timer vstart j1 j2 t expires s =
      do { s \<leftarrow> (if cur_timeout_id s1 \<noteq> -1
             then do { s \<leftarrow> timer_out_func (cur_timeout_id s1) s1; Some (s\<lparr>cur_timeout_id := -1\<rparr>) }
             else Some s1);
           Some (0, s\<lparr>set_start_timer := 0\<rparr>) }"
    and r1: "timer_rep s1 ?m" "tm_calls s1 = tm_calls s"
    and b1: "\<forall>h' x. ?m h' = Some x \<longrightarrow> bTimerStart (tm_heap s1 x) = 1"
    and c1: "set_start_timer s1 = 1" "cur_timeout_id s1 = i"
    using mod_timer_start[of s m j1 j2 expires vstart h "[i, h]" t] inv d v i h by auto
  have "timer_out_func i s1 = Some s1" using timer_out_unknown[OF r1(1), of i] i c1 by simp
  then show ?thesis using s1 c1 i(2) r1 b1 by (simp add: timer_inv_def)
qed

text \<open>The delay is the distance to the expiry unless the tick counter wraps before it: then the timer
  counts as expired.  A tick between the two reads of the counter turns the last delay into nearly
  the whole range.\<close>

lemma mod_timer_delay_wraps:
  "mod_timer_delay j j (j + d) = (if unat j + unat d < 2 ^ 32 then d else 0)"
  "mod_timer_delay j (j + 2) (j + 1) = (if j < -1 then -1 else 0)"
proof -
  have "j + d > j \<longleftrightarrow> d \<noteq> 0 \<and> unat j + unat d < 2 ^ 32"
    using no_olen_add_nat[of j d] by (auto simp: word_le_less_eq)
  then show "mod_timer_delay j j (j + d) = (if unat j + unat d < 2 ^ 32 then d else 0)"
    by (auto simp: mod_timer_delay_def)
  have "j < j + 1 \<longleftrightarrow> unat j + 1 < 2 ^ 32"
    using no_olen_add_nat[of j 1] by (auto simp: word_le_less_eq)
  also have "\<dots> \<longleftrightarrow> j < -1"
    using unsigned_minus_1_eq_mask[where 'a = nat and 'b = 32] by (simp add: word_less_nat_alt mask_eq_exp_minus_1)
  finally have "j < j + 1 \<longleftrightarrow> j < -1" .
  then show "mod_timer_delay j (j + 2) (j + 1) = (if j < -1 then -1 else 0)"
    by (auto simp: mod_timer_delay_def)
qed

end
