(* ===== verification/Os_Work.thy ===== *)
theory Os_Work
  imports Skb_Queue
begin

text \<open>Bit operations (os/ankai_V330/atbm_os_atomic.c) and work queues (os/ankai_V330/atbm_os_queue.c)
  of the port.

  A work queue is a circular list through the prev and next pointers of its works; the head is
  wq->work_head.  The links are those of Skb_Queue.  The mutexes of the system (RT-Thread) may be
  taken again by their owner, so they order the operations and do nothing else inside one of them.
  The worker thread sleeps on a semaphore with one count per queue_work.  What a work does is the
  parameter func.\<close>

subsection \<open>Bit operations\<close>

text \<open>The bit nr of an array of unsigned long; addr is the list of its words.\<close>

definition bit_mask :: "u32 \<Rightarrow> u32" where
  "bit_mask nr = push_bit (unat (nr AND 0x1f)) 1"

definition bit_word :: "u32 \<Rightarrow> nat" where
  "bit_word nr = unat (drop_bit 5 nr)"

definition upd_bits :: "(u32 \<Rightarrow> u32) \<Rightarrow> u32 \<Rightarrow> u32 list \<Rightarrow> u32 list option" where
  "upd_bits f nr addr = (if bit_word nr < length addr
     then Some (addr[bit_word nr := f (addr ! bit_word nr)]) else None)"

definition set_bit_at :: "u32 \<Rightarrow> u32 list \<Rightarrow> u32 list option" where
  "set_bit_at nr addr = upd_bits (\<lambda>w. w OR bit_mask nr) nr addr"

definition clear_bit_at :: "u32 \<Rightarrow> u32 list \<Rightarrow> u32 list option" where
  "clear_bit_at nr addr = upd_bits (\<lambda>w. w AND NOT (bit_mask nr)) nr addr"

definition test_bit_at :: "u32 \<Rightarrow> u32 list \<Rightarrow> bool option" where
  "test_bit_at nr addr = (if bit_word nr < length addr
     then Some (1 AND signed_drop_bit (unat (nr AND 31)) (addr ! bit_word nr) \<noteq> 0) else None)"

definition test_and_set_bit :: "u32 \<Rightarrow> u32 list \<Rightarrow> (u32 \<times> u32 list) option" where
  "test_and_set_bit nr addr = do {
     addr' \<leftarrow> upd_bits (\<lambda>w. w OR bit_mask nr) nr addr;
     Some (addr ! bit_word nr AND bit_mask nr, addr') }"

definition test_and_clear_bit :: "u32 \<Rightarrow> u32 list \<Rightarrow> (u32 \<times> u32 list) option" where
  "test_and_clear_bit nr addr = do {
     addr' \<leftarrow> upd_bits (\<lambda>w. w AND NOT (bit_mask nr)) nr addr;
     Some (addr ! bit_word nr AND bit_mask nr, addr') }"

definition bit_of :: "u32 list \<Rightarrow> u32 \<Rightarrow> bool" where
  "bit_of addr nr = bit (addr ! bit_word nr) (unat (nr AND 31))"

lemma bit_idx: "unat (nr AND 31 :: u32) = unat nr mod 32"
proof -
  have "nr AND 31 = take_bit 5 nr" by (simp add: take_bit_eq_mask mask_eq_exp_minus_1)
  then show ?thesis by (simp only: unsigned_take_bit_eq) (simp add: take_bit_eq_mod)
qed

lemma bit_idx_less: "unat (nr AND 31 :: u32) < 32" by (simp add: bit_idx)

lemma bit_pos: "bit_word a = unat a div 32" "bit_word a = bit_word b \<Longrightarrow> unat (a AND 31) = unat (b AND 31) \<Longrightarrow> a = b"
proof -
  show w: "bit_word a = unat a div 32" for a
    by (simp add: bit_word_def drop_bit_eq_div unat_div)
  show "a = b" if "bit_word a = bit_word b" "unat (a AND 31) = unat (b AND 31)"
    using that unfolding w bit_idx by (metis div_mult_mod_eq word_unat_eq_iff)
qed

lemma bit_mask_bit: "bit (bit_mask nr) n \<longleftrightarrow> n = unat (nr AND 31)"
  using bit_idx_less[of nr] by (auto simp: bit_mask_def bit_simps)

lemma and_bit_mask: "(w AND bit_mask nr \<noteq> 0) = bit w (unat (nr AND 31))"
  by (simp only: bit_mask_def bit_iff_and_push_bit_not_eq_0)

lemma upd_bits_ok:
  assumes "bit_word nr < length addr" "\<And>w n. n < 32 \<Longrightarrow> bit (f w) n = (if n = unat (nr AND 31) then v else bit w n)"
  shows "\<exists>addr'. upd_bits f nr addr = Some addr' \<and> length addr' = length addr \<and>
     (\<forall>k. bit_of addr' k = (if k = nr then v else bit_of addr k))"
proof -
  let ?addr' = "addr[bit_word nr := f (addr ! bit_word nr)]"
  have "bit_of ?addr' k = (if k = nr then v else bit_of addr k)" for k
  proof (cases "bit_word k = bit_word nr")
    case True
    then show ?thesis
      using assms(1) assms(2)[OF bit_idx_less[of k], of "addr ! bit_word nr"] bit_pos(2)[OF True]
      by (auto simp: bit_of_def)
  next
    case False
    then show ?thesis by (auto simp: bit_of_def)
  qed
  then show ?thesis using assms(1) by (simp add: upd_bits_def)
qed

lemma set_bit_ok:
  assumes "bit_word nr < length addr"
  shows "\<exists>addr'. set_bit_at nr addr = Some addr' \<and> length addr' = length addr \<and>
     (\<forall>k. bit_of addr' k = (k = nr \<or> bit_of addr k))"
proof -
  have "bit (w OR bit_mask nr) n = (if n = unat (nr AND 31) then True else bit w n)" for w n
    by (simp only: bit_or_iff bit_mask_bit) simp
  from upd_bits_ok[OF assms this] show ?thesis by (auto simp: set_bit_at_def)
qed

lemma clear_bit_ok:
  assumes "bit_word nr < length addr"
  shows "\<exists>addr'. clear_bit_at nr addr = Some addr' \<and> length addr' = length addr \<and>
     (\<forall>k. bit_of addr' k = (k \<noteq> nr \<and> bit_of addr k))"
proof -
  have "bit (w AND NOT (bit_mask nr)) n = (if n = unat (nr AND 31) then False else bit w n)"
    if "n < 32" for w n
    using that by (simp only: bit_and_iff bit_not_iff bit_mask_bit) simp
  from upd_bits_ok[OF assms this] show ?thesis by (auto simp: clear_bit_at_def)
qed

lemma test_bit_ok: "bit_word nr < length addr \<Longrightarrow> test_bit_at nr addr = Some (bit_of addr nr)"
proof -
  have "(1 AND signed_drop_bit n w \<noteq> (0 :: u32)) = bit w n" if "n < 32" for n w
  proof -
    have "(1 AND signed_drop_bit n w \<noteq> (0 :: u32)) = bit (signed_drop_bit n w) 0"
      by (simp only: one_and_eq bit_0 odd_iff_mod_2_eq_one) (simp add: not_mod_2_eq_0_eq_1)
    then show ?thesis using that by (simp add: bit_signed_drop_bit_iff)
  qed
  then show "bit_word nr < length addr \<Longrightarrow> test_bit_at nr addr = Some (bit_of addr nr)"
    using bit_idx_less[of nr] by (simp add: test_bit_at_def bit_of_def)
qed

lemma test_and_clear_bit_ok:
  assumes "bit_word nr < length addr"
  shows "\<exists>v addr'. test_and_clear_bit nr addr = Some (v, addr') \<and> (v \<noteq> 0 \<longleftrightarrow> bit_of addr nr) \<and>
     length addr' = length addr \<and> (\<forall>k. bit_of addr' k = (k \<noteq> nr \<and> bit_of addr k))"
  using clear_bit_ok[OF assms]
  by (auto simp: clear_bit_at_def test_and_clear_bit_def and_bit_mask bit_of_def)

subsection \<open>Work queues\<close>

record work_queue =
  wq_links :: qheap
  wq_sem :: nat
  wq_ran :: "ptr list"

type_synonym work_func = "ptr \<Rightarrow> work_queue \<Rightarrow> work_queue option"

definition lift_links :: "(qheap \<Rightarrow> qheap option) \<Rightarrow> work_queue \<Rightarrow> work_queue option" where
  "lift_links f s = map_option (\<lambda>h. s\<lparr>wq_links := h\<rparr>) (f (wq_links s))"

definition create_singlethread_workqueue :: "ptr \<Rightarrow> work_queue \<Rightarrow> work_queue option" where
  "create_singlethread_workqueue wq s = do {
     s \<leftarrow> lift_links (set_next wq wq) s;
     s \<leftarrow> lift_links (set_prev wq wq) s;
     Some (s\<lparr>wq_sem := 0\<rparr>) }"

definition INIT_WORK :: "ptr \<Rightarrow> work_queue \<Rightarrow> work_queue option" where
  "INIT_WORK work s = do {
     s \<leftarrow> lift_links (set_prev work NULL) s;
     lift_links (set_next work NULL) s }"

definition queue_work :: "ptr \<Rightarrow> ptr \<Rightarrow> work_queue \<Rightarrow> work_queue option" where
  "queue_work wq work s = do {
     p \<leftarrow> get_prev wq (wq_links s);
     s \<leftarrow> lift_links (set_prev work p) s;
     p \<leftarrow> get_prev wq (wq_links s);
     s \<leftarrow> lift_links (set_next p work) s;
     s \<leftarrow> lift_links (set_next work wq) s;
     s \<leftarrow> lift_links (set_prev wq work) s;
     Some (s\<lparr>wq_sem := wq_sem s + 1\<rparr>) }"

text \<open>The inner loop of the worker: work->prev->next = work->next, then work->next->prev = work->prev,
  each pointer read when it is used.\<close>

partial_function (option) run_works :: "work_func \<Rightarrow> ptr \<Rightarrow> ptr \<Rightarrow> work_queue \<Rightarrow> work_queue option" where
  "run_works func wq work s = (if work = wq then Some s else do {
     s \<leftarrow> func work s;
     p \<leftarrow> get_prev work (wq_links s);
     n \<leftarrow> get_next work (wq_links s);
     s \<leftarrow> lift_links (set_next p n) s;
     n \<leftarrow> get_next work (wq_links s);
     p \<leftarrow> get_prev work (wq_links s);
     s \<leftarrow> lift_links (set_prev n p) s;
     n \<leftarrow> get_next work (wq_links s);
     run_works func wq n s })"

text \<open>One turn of the worker: down of the semaphore (it sleeps while the count is 0), then the list.\<close>

definition workqueue_work :: "work_func \<Rightarrow> ptr \<Rightarrow> work_queue \<Rightarrow> work_queue option" where
  "workqueue_work func wq s =
     (if wq_sem s = 0 then Some s
      else do {
        let s = s\<lparr>wq_sem := wq_sem s - 1\<rparr>;
        n \<leftarrow> get_next wq (wq_links s);
        if n \<noteq> wq then run_works func wq n s else Some s })"

fun worker_turns :: "work_func \<Rightarrow> ptr \<Rightarrow> nat \<Rightarrow> work_queue \<Rightarrow> work_queue option" where
  "worker_turns func wq 0 s = Some s"
| "worker_turns func wq (Suc n) s = do { s \<leftarrow> workqueue_work func wq s; worker_turns func wq n s }"

text \<open>A work that does nothing to the queue.\<close>

definition log_work :: work_func where
  "log_work work s = Some (s\<lparr>wq_ran := wq_ran s @ [work]\<rparr>)"

subsection \<open>The list of the works\<close>

definition works :: "work_queue \<Rightarrow> ptr \<Rightarrow> ptr list \<Rightarrow> bool" where
  "works s wq xs \<longleftrightarrow> NULL \<notin> set (wq # xs) \<and> distinct (wq # xs) \<and> seg (wq_links s) wq xs wq"

lemma lift_links_simps [simp]:
  "lift_links (set_next p v) s = (if p = NULL then None else Some (s\<lparr>wq_links := (wq_links s)\<lparr>lnext := (lnext (wq_links s))(p := v)\<rparr>\<rparr>))"
  "lift_links (set_prev p v) s = (if p = NULL then None else Some (s\<lparr>wq_links := (wq_links s)\<lparr>lprev := (lprev (wq_links s))(p := v)\<rparr>\<rparr>))"
  by (simp_all add: lift_links_def)

lemma create_works: "wq \<noteq> NULL \<Longrightarrow> \<exists>s'. create_singlethread_workqueue wq s = Some s' \<and> works s' wq [] \<and> wq_sem s' = 0"
  by (auto simp: create_singlethread_workqueue_def works_def)

lemma queue_work_ok:
  assumes q: "works s wq xs" and n: "n \<noteq> NULL" "n \<notin> set (wq # xs)"
  shows "\<exists>s'. queue_work wq n s = Some s' \<and> works s' wq (xs @ [n]) \<and> wq_ran s' = wq_ran s \<and> wq_sem s' = wq_sem s + 1"
proof -
  let ?h = "wq_links s"
  define z where "z = last (wq # xs)"
  have zl: "lprev ?h wq = z" "z \<in> set (wq # xs)"
    using q seg_last[of ?h wq xs wq] last_in_set[of "wq # xs"]
    by (simp_all add: z_def works_def del: last.simps list.set)
  then have z: "z \<noteq> NULL" "wq \<noteq> NULL" "z \<noteq> n" using q n by (auto simp: works_def intro!: gr0I)
  define h' where "h' = ?h\<lparr>lprev := (lprev ?h)(n := z, wq := n), lnext := (lnext ?h)(z := n, n := wq)\<rparr>"
  have run: "queue_work wq n s = Some (s\<lparr>wq_links := h', wq_sem := wq_sem s + 1\<rparr>)"
    using z n zl by (simp add: queue_work_def h'_def)
  have "seg h' wq xs n"
  proof (rule seg_retarget[of ?h wq xs wq])
    show "lnext h' (last (wq # xs)) = n" "lprev h' n = last (wq # xs)"
      unfolding z_def[symmetric] h'_def using z n by simp_all
    show "lnext h' p = lnext ?h p" if "p \<in> set (wq # xs)" "p \<noteq> last (wq # xs)" for p
      using that n unfolding z_def[symmetric] by (auto simp: h'_def)
    show "lprev h' p = lprev ?h p" if "p \<in> set xs" for p
      using that n q by (auto simp: h'_def works_def)
  qed (use q n in \<open>auto simp: works_def\<close>)
  moreover have "lnext h' n = wq" "lprev h' wq = n" using z n by (auto simp: h'_def)
  ultimately have "works (s\<lparr>wq_links := h', wq_sem := wq_sem s + 1\<rparr>) wq (xs @ [n])" using q n by (auto simp: works_def)
  then show ?thesis using run by simp
qed

lemma run_works_ok:
  assumes "works s wq xs"
  shows "\<exists>s'. run_works log_work wq (hd (xs @ [wq])) s = Some s' \<and> works s' wq [] \<and>
     wq_ran s' = wq_ran s @ xs \<and> wq_sem s' = wq_sem s"
  using assms
proof (induction xs arbitrary: s)
  case Nil
  then show ?case by (subst run_works.simps) simp
next
  case (Cons x xs)
  let ?h = "wq_links s"
  define b where "b = hd (xs @ [wq])"
  have b: "lnext ?h x = b" "lprev ?h x = wq"
    using Cons.prems seg_hd[of ?h x xs wq] by (simp_all add: works_def b_def)
  have nz: "wq \<noteq> NULL" "x \<noteq> NULL" "b \<noteq> NULL" "x \<noteq> wq" "b \<noteq> x"
    using Cons.prems by (cases xs; auto simp: works_def b_def)+
  define s1 where "s1 = s\<lparr>wq_ran := wq_ran s @ [x],
     wq_links := ?h\<lparr>lnext := (lnext ?h)(wq := b), lprev := (lprev ?h)(b := wq)\<rparr>\<rparr>"
  have run: "run_works log_work wq x s = run_works log_work wq b s1"
    using b nz by (subst run_works.simps) (simp add: log_work_def s1_def)
  have "works s1 wq xs"
  proof (cases xs)
    case Nil
    then show ?thesis using nz by (simp add: works_def s1_def b_def)
  next
    case (Cons y ys)
    have "seg (wq_links s1) y ys wq = seg ?h y ys wq"
      by (rule seg_cong) (use Cons.prems Cons in \<open>auto simp: s1_def b_def works_def\<close>)
    then show ?thesis using Cons.prems Cons by (auto simp: works_def s1_def b_def)
  qed
  from Cons.IH[OF this] show ?case using run by (simp add: b_def[symmetric]) (simp add: s1_def)
qed

subsection \<open>Properties\<close>

text \<open>C29. A work queue runs its works in the order in which they were queued, each once, and is empty
  afterwards, as long as no work is queued that is still in it.\<close>
theorem work_queue_in_order:
  assumes "works s wq xs" "distinct (xs @ ns)" "NULL \<notin> set ns" "wq \<notin> set ns" "xs @ ns \<noteq> []" "wq_sem s = length xs"
  shows "\<exists>s1 s2. foldl (\<lambda>s n. s \<bind> queue_work wq n) (Some s) ns = Some s1 \<and> works s1 wq (xs @ ns) \<and>
    workqueue_work log_work wq s1 = Some s2 \<and> wq_ran s2 = wq_ran s @ xs @ ns \<and> works s2 wq []"
proof -
  have "\<exists>s1. foldl (\<lambda>s n. s \<bind> queue_work wq n) (Some s) ns = Some s1 \<and> works s1 wq (xs @ ns) \<and>
      wq_ran s1 = wq_ran s \<and> wq_sem s1 = wq_sem s + length ns"
    using assms(1-4)
  proof (induction ns arbitrary: s xs)
    case (Cons n ns)
    then obtain s' where s': "queue_work wq n s = Some s'" "works s' wq (xs @ [n])" "wq_ran s' = wq_ran s"
        "wq_sem s' = wq_sem s + 1"
      using queue_work_ok[of s wq xs n] by (auto simp: works_def)
    show ?case using Cons.IH[OF s'(2)] Cons.prems s' by auto
  qed simp
  then obtain s1 where s1: "foldl (\<lambda>s n. s \<bind> queue_work wq n) (Some s) ns = Some s1" "works s1 wq (xs @ ns)"
      "wq_ran s1 = wq_ran s" "wq_sem s1 = length (xs @ ns)" using assms(6) by auto
  let ?s1 = "s1\<lparr>wq_sem := wq_sem s1 - 1\<rparr>"
  have w: "works ?s1 wq (xs @ ns)" using s1(2) by (simp add: works_def)
  then have "lnext (wq_links s1) wq = hd ((xs @ ns) @ [wq])" "hd ((xs @ ns) @ [wq]) \<noteq> wq" "wq \<noteq> NULL"
    using assms(5) seg_hd[of "wq_links s1" wq "xs @ ns" wq] by (cases "xs @ ns"; auto simp: works_def)+
  then show ?thesis using run_works_ok[OF w] s1 assms(5) by (auto simp: workqueue_work_def Let_def)
qed

definition demo_queue :: work_queue where
  "demo_queue = \<lparr>wq_links = \<lparr>lnext = (\<lambda>_. 1), lprev = (\<lambda>_. 1), qlen = (\<lambda>_. 0), freed = []\<rparr>, wq_sem = 0, wq_ran = []\<rparr>"

lemma demo_queue_works: "works demo_queue 1 []" "wq_sem demo_queue = 0" "wq_ran demo_queue = []"
  by (simp_all add: works_def demo_queue_def)

theorem work_queue_in_order_witness:
  "\<exists>s1 s2. foldl (\<lambda>s n. s \<bind> queue_work 1 n) (Some demo_queue) [5, 7] = Some s1 \<and>
     workqueue_work log_work 1 s1 = Some s2 \<and> wq_ran s2 = [5, 7]"
  using work_queue_in_order[OF demo_queue_works(1), of "[5, 7]"] demo_queue_works by auto

text \<open>queue_work does not look whether the work is queued already.  When the first work of the queue is
  queued again, the worker runs it, and the works behind it are never run: each later turn of the
  worker finds the same work again at the head of the list.\<close>
theorem requeued_work_starves_others:
  assumes "works s wq (w # ys)" "ys \<noteq> []" "wq_sem s > 0"
  shows "\<exists>s1. queue_work wq w s = Some s1 \<and>
    (\<forall>n \<le> wq_sem s1. \<exists>s2. worker_turns log_work wq n s1 = Some s2 \<and> wq_ran s2 = wq_ran s @ replicate n w)"
proof -
  let ?h = "wq_links s"
  define z where "z = last ys"
  have zl: "lprev ?h wq = z" "z \<in> set ys" "lnext ?h wq = w"
    using assms seg_last[of ?h wq "w # ys" wq] by (simp_all add: z_def works_def)
  have nz: "wq \<noteq> NULL" "w \<noteq> NULL" "z \<noteq> NULL" "w \<noteq> wq" "z \<noteq> w" "z \<noteq> wq"
    using assms(1) zl(2) by (auto simp: works_def intro!: gr0I)
  define s1 where "s1 = s\<lparr>wq_links := ?h\<lparr>lprev := (lprev ?h)(w := z, wq := w),
     lnext := (lnext ?h)(z := w, w := wq)\<rparr>, wq_sem := wq_sem s + 1\<rparr>"
  have run: "queue_work wq w s = Some s1"
    using nz zl by (simp add: queue_work_def s1_def)
  define stuck where "stuck s2 \<longleftrightarrow> lnext (wq_links s2) wq = w \<and> lnext (wq_links s2) w = wq \<and>
      lprev (wq_links s2) w = z" for s2 :: work_queue
  have turn: "\<exists>s3. workqueue_work log_work wq s2 = Some s3 \<and> stuck s3 \<and> wq_ran s3 = wq_ran s2 @ [w] \<and>
      wq_sem s3 = wq_sem s2 - 1" if "stuck s2" "wq_sem s2 > 0" for s2
  proof -
    define h2 where "h2 = (wq_links s2)\<lparr>lnext := (lnext (wq_links s2))(z := wq), lprev := (lprev (wq_links s2))(wq := z)\<rparr>"
    define s3 where "s3 = s2\<lparr>wq_sem := wq_sem s2 - 1, wq_ran := wq_ran s2 @ [w], wq_links := h2\<rparr>"
    have "run_works log_work wq w (s2\<lparr>wq_sem := wq_sem s2 - 1\<rparr>) = run_works log_work wq wq s3"
      using that nz by (subst run_works.simps) (simp add: log_work_def stuck_def s3_def h2_def)
    also have "\<dots> = Some s3" by (subst run_works.simps) simp
    finally show ?thesis using that nz
      by (intro exI[of _ s3]) (simp add: workqueue_work_def Let_def stuck_def s3_def h2_def)
  qed
  have "\<exists>s3. worker_turns log_work wq n s2 = Some s3 \<and> wq_ran s3 = wq_ran s2 @ replicate n w"
    if "stuck s2" "n \<le> wq_sem s2" for n s2
    using that
  proof (induction n arbitrary: s2)
    case (Suc n)
    then obtain s3 where s3: "workqueue_work log_work wq s2 = Some s3" "stuck s3" "wq_ran s3 = wq_ran s2 @ [w]"
        "wq_sem s3 = wq_sem s2 - 1" using turn[of s2] by auto
    with Suc.IH[of s3] Suc.prems show ?case by auto
  qed simp
  moreover have "stuck s1" using nz zl by (simp add: stuck_def s1_def)
  moreover have "wq_ran s1 = wq_ran s" by (simp add: s1_def)
  ultimately show ?thesis using run by metis
qed

theorem requeued_work_starves_others_witness:
  "\<exists>s s1 s2. works s 1 [5, 7] \<and> wq_ran s = [] \<and> queue_work 1 5 s = Some s1 \<and>
     worker_turns log_work 1 2 s1 = Some s2 \<and> wq_ran s2 = [5, 5]"
proof -
  obtain s where s: "works s 1 [5]" "wq_ran s = []" "wq_sem s = 1"
    using queue_work_ok[OF demo_queue_works(1), of 5] demo_queue_works by auto
  obtain s0 where s0: "works s0 1 [5, 7]" "wq_ran s0 = []" "wq_sem s0 = 2"
    using queue_work_ok[OF s(1), of 7] s by auto
  obtain s1 where "queue_work 1 5 s0 = Some s1"
      "\<forall>n \<le> wq_sem s1. \<exists>s2. worker_turns log_work 1 n s1 = Some s2 \<and> wq_ran s2 = wq_ran s0 @ replicate n 5"
    using requeued_work_starves_others[OF s0(1)] s0 by auto
  moreover have "wq_sem s1 = 3" using \<open>queue_work 1 5 s0 = Some s1\<close> s0(3)
    by (auto simp: queue_work_def split: bind_splits if_splits)
  ultimately show ?thesis using s0 by (metis (no_types, opaque_lifting) append_Nil numeral_2_eq_2
    numeral_3_eq_3 le_SucI order_refl replicate_0 replicate_Suc)
qed

end
