(* ===== verification/Sta_State.thy ===== *)
theory Sta_State
  imports Reorder Os_Timer Os_Work
begin

text \<open>The stations of the driver: struct sta_info and struct sta_ampdu_mlme (hal_apollo/sta_info.h) and
  the fields of struct atbm_common that hold them.  A station is addressed by a natural number.

  A receive session is the reorder state of Reorder together with its two timers, which are objects
  of Os_Timer.  The memory given back by kfree is logged, and so are the sessions handed to call_rcu.
  On this port call_rcu(x, y) is the empty macro (os/ankai_V330/atbm_os.h), so they are never freed.
  The mutexes may be taken again by their owner and order the operations only.\<close>

record rx_session =
  agg_rx :: tid_ampdu_rx
  session_timer :: nat
  reorder_timer :: nat

text \<open>The key of a station or of a group.  key_type is the number of the enumeration
  ieee80211_enc_type, 0 in cleared memory.\<close>

record ieee80211_key =
  key_type :: u32
  key_iv_len :: u8
  key_icv_len :: u8

abbreviation (input) IEEE80211_ENC_TYPE :: u32 where "IEEE80211_ENC_TYPE \<equiv> 1"
abbreviation (input) IEEE80211_ENC_WEP :: u32 where "IEEE80211_ENC_WEP \<equiv> 2"
abbreviation (input) IEEE80211_ENC_TKIP :: u32 where "IEEE80211_ENC_TKIP \<equiv> 3"
abbreviation (input) IEEE80211_ENC_AES :: u32 where "IEEE80211_ENC_AES \<equiv> 4"
abbreviation (input) IEEE80211_ENC_AES_CMAC :: u32 where "IEEE80211_ENC_AES_CMAC \<equiv> 5"

definition no_key :: ieee80211_key where
  "no_key = \<lparr>key_type = 0, key_iv_len = 0, key_icv_len = 0\<rparr>"

record sta_info =
  sta_hnext :: "nat option"
  sta_vif :: nat
  sta_addr :: mac
  sta_dead :: bool
  sta_uploaded :: bool
  sta_dummy :: bool
  sta_flags :: "u32 list"
  last_seq_ctrl :: "u16 list"
  timer_to_tid :: "u8 list"
  ht_cap :: u16
  mlme_tid_rx :: "rx_session option list"
  tid_rx_timer_expired :: "u32 list"
  tid_rx_stop_requested :: "u32 list"
  sta_enc :: bool
  sta_wmm :: bool
  sta_bgnMode :: u8
  sta_shortGI :: bool
  sta_cipher :: ieee80211_key
  sta_aid :: u16

record mac_state =
  sta_heap :: "nat \<Rightarrow> sta_info"
  sta_hash :: "nat \<Rightarrow> nat option"
  sta_list :: "nat list"
  num_sta :: u32
  sta_freed :: "nat list"
  mac_timers :: timer_sys
  rcu_sessions :: "rx_session list"
  agg_works :: "nat list"
  mac_freed :: "sk_buff list"

abbreviation (input) STA_TID_NUM :: nat where "STA_TID_NUM \<equiv> 16"
abbreviation (input) NUM_RX_DATA_QUEUES :: nat where "NUM_RX_DATA_QUEUES \<equiv> 16"
abbreviation (input) WLAN_STA_ASSOC :: u32 where "WLAN_STA_ASSOC \<equiv> 1"
abbreviation (input) WLAN_STA_BLOCK_BA :: u32 where "WLAN_STA_BLOCK_BA \<equiv> 10"

definition upd_sta :: "nat \<Rightarrow> (sta_info \<Rightarrow> sta_info) \<Rightarrow> mac_state \<Rightarrow> mac_state" where
  "upd_sta sta f s = s\<lparr>sta_heap := (sta_heap s)(sta := f (sta_heap s sta))\<rparr>"

definition test_sta_flag :: "nat \<Rightarrow> u32 \<Rightarrow> mac_state \<Rightarrow> bool option" where
  "test_sta_flag sta flag s = test_bit_at flag (sta_flags (sta_heap s sta))"

definition set_sta_flag :: "nat \<Rightarrow> u32 \<Rightarrow> mac_state \<Rightarrow> mac_state option" where
  "set_sta_flag sta flag s = do {
     w \<leftarrow> set_bit_at flag (sta_flags (sta_heap s sta));
     Some (upd_sta sta (\<lambda>x. x\<lparr>sta_flags := w\<rparr>) s) }"

definition clear_sta_flag :: "nat \<Rightarrow> u32 \<Rightarrow> mac_state \<Rightarrow> mac_state option" where
  "clear_sta_flag sta flag s = do {
     w \<leftarrow> clear_bit_at flag (sta_flags (sta_heap s sta));
     Some (upd_sta sta (\<lambda>x. x\<lparr>sta_flags := w\<rparr>) s) }"

definition lift_timer :: "(timer_sys \<Rightarrow> (int \<times> timer_sys) option) \<Rightarrow> mac_state \<Rightarrow> mac_state option" where
  "lift_timer f s = map_option (\<lambda>(_, t). s\<lparr>mac_timers := t\<rparr>) (f (mac_timers s))"

text \<open>The arrays of a station have the sizes of the struct, and timer_to_tid is the identity.\<close>

definition sta_wf :: "sta_info \<Rightarrow> bool" where
  "sta_wf x \<longleftrightarrow> length (mlme_tid_rx x) = STA_TID_NUM \<and> length (sta_flags x) = 1 \<and>
     length (tid_rx_timer_expired x) = 1 \<and> length (tid_rx_stop_requested x) = 1 \<and>
     timer_to_tid x = map of_nat [0..<STA_TID_NUM] \<and> length (last_seq_ctrl x) = NUM_RX_DATA_QUEUES + 1"

lemma upd_sta_simps [simp]:
  "sta_heap (upd_sta a f s) = (sta_heap s)(a := f (sta_heap s a))"
  "sta_hash (upd_sta a f s) = sta_hash s" "sta_list (upd_sta a f s) = sta_list s"
  "num_sta (upd_sta a f s) = num_sta s" "sta_freed (upd_sta a f s) = sta_freed s"
  "mac_timers (upd_sta a f s) = mac_timers s" "rcu_sessions (upd_sta a f s) = rcu_sessions s"
  "agg_works (upd_sta a f s) = agg_works s" "mac_freed (upd_sta a f s) = mac_freed s"
  by (simp_all add: upd_sta_def)

end
