(* ===== verification/Agg_Rx.thy ===== *)
theory Agg_Rx
  imports Sta_State
begin

text \<open>Receive block-ack sessions, hal_apollo/agg-rx.c: starting one on an ADDBA request, stopping it on a
  DELBA, on the removal of the station or from the work, and the functions of its two timers.

  A management frame is the list of its bytes from the 802.11 header on; reading behind its end is
  undefined.\<close>

abbreviation (input) WLAN_BACK_INITIATOR :: u16 where "WLAN_BACK_INITIATOR \<equiv> 1"
abbreviation (input) WLAN_BACK_RECIPIENT :: u16 where "WLAN_BACK_RECIPIENT \<equiv> 0"
abbreviation (input) IEEE80211_MAX_AMPDU_BUF :: u16 where "IEEE80211_MAX_AMPDU_BUF \<equiv> 0x40"
abbreviation (input) IEEE80211_HT_CAP_DELAY_BA :: u16 where "IEEE80211_HT_CAP_DELAY_BA \<equiv> 0x400"

text \<open>Offsets in struct atbm_ieee80211_mgmt.\<close>

abbreviation (input) MGMT_CATEGORY :: int where "MGMT_CATEGORY \<equiv> 24"
abbreviation (input) MGMT_ACTION_CODE :: int where "MGMT_ACTION_CODE \<equiv> 25"
abbreviation (input) ADDBA_DIALOG_TOKEN :: int where "ADDBA_DIALOG_TOKEN \<equiv> 26"
abbreviation (input) ADDBA_CAPAB :: int where "ADDBA_CAPAB \<equiv> 27"
abbreviation (input) ADDBA_TIMEOUT :: int where "ADDBA_TIMEOUT \<equiv> 29"
abbreviation (input) ADDBA_START_SEQ :: int where "ADDBA_START_SEQ \<equiv> 31"
abbreviation (input) DELBA_PARAMS :: int where "DELBA_PARAMS \<equiv> 26"

subsection \<open>Stopping\<close>

text \<open>What call_rcu would run on other systems.\<close>

fun free_reorder_buf :: "sk_buff option list \<Rightarrow> sk_buff list \<Rightarrow> sk_buff list" where
  "free_reorder_buf [] fs = fs"
| "free_reorder_buf (None # xs) fs = free_reorder_buf xs fs"
| "free_reorder_buf (Some skb # xs) fs = free_reorder_buf xs (fs @ [skb])"

definition ieee80211_free_tid_rx :: "rx_session \<Rightarrow> mac_state \<Rightarrow> mac_state option" where
  "ieee80211_free_tid_rx a s = do {
     let t = agg_rx a;
     guard (unat (buf_size t) \<le> length (reorder_buf t));
     Some (s\<lparr>mac_freed := free_reorder_buf (take (unat (buf_size t)) (reorder_buf t)) (mac_freed s)\<rparr>) }"

definition stop_rx_ba_session_locked ::
    "nat \<Rightarrow> u16 \<Rightarrow> u16 \<Rightarrow> u16 \<Rightarrow> bool \<Rightarrow> mac_state \<Rightarrow> mac_state option" where
  "stop_rx_ba_session_locked sta tid initiator reason tx s = do {
     let x = sta_heap s sta;
     guard (unat tid < length (mlme_tid_rx x));
     case mlme_tid_rx x ! unat tid of
       None \<Rightarrow> Some s
     | Some a \<Rightarrow> do {
         let s = upd_sta sta (\<lambda>x. x\<lparr>mlme_tid_rx := (mlme_tid_rx x)[unat tid := None]\<rparr>) s;
         s \<leftarrow> lift_timer (atbm_del_timer_sync (session_timer a)) s;
         s \<leftarrow> lift_timer (atbm_del_timer_sync (reorder_timer a)) s;
         Some (s\<lparr>rcu_sessions := rcu_sessions s @ [a]\<rparr>) } }"

definition stop_rx_ba_session ::
    "nat \<Rightarrow> u16 \<Rightarrow> u16 \<Rightarrow> u16 \<Rightarrow> bool \<Rightarrow> mac_state \<Rightarrow> mac_state option" where
  "stop_rx_ba_session sta tid initiator reason tx s = stop_rx_ba_session_locked sta tid initiator reason tx s"

text \<open>cancel_work_sync does nothing on this port.\<close>

fun tear_down_loop :: "nat \<Rightarrow> nat \<Rightarrow> bool \<Rightarrow> nat \<Rightarrow> mac_state \<Rightarrow> mac_state option" where
  "tear_down_loop 0 i tx sta s = Some s"
| "tear_down_loop (Suc n) i tx sta s = do {
     s \<leftarrow> stop_rx_ba_session sta (of_nat i) WLAN_BACK_RECIPIENT 36 tx s;
     tear_down_loop n (i + 1) tx sta s }"

definition ieee80211_sta_tear_down_BA_sessions :: "nat \<Rightarrow> bool \<Rightarrow> mac_state \<Rightarrow> mac_state option" where
  "ieee80211_sta_tear_down_BA_sessions sta tx s = tear_down_loop STA_TID_NUM 0 tx sta s"

definition ieee80211_process_delba :: "nat \<Rightarrow> bytes \<Rightarrow> mac_state \<Rightarrow> mac_state option" where
  "ieee80211_process_delba sta mgmt s = do {
     params \<leftarrow> rd16 mgmt DELBA_PARAMS;
     let tid = drop_bit 12 (params AND 0xf000);
     let initiator = drop_bit 11 (params AND 0x0800);
     if initiator = WLAN_BACK_INITIATOR
     then stop_rx_ba_session sta tid WLAN_BACK_INITIATOR 0 True s
     else Some s }"

subsection \<open>Starting\<close>

datatype addba_result = Addba_blocked | Addba_invalid | Addba_accept u16

definition addba_tid :: "u16 \<Rightarrow> u16" where
  "addba_tid capab = drop_bit 2 (capab AND 0x3c)"

definition addba_buf_size :: "u16 \<Rightarrow> u16" where
  "addba_buf_size capab = drop_bit 6 (capab AND 0xffc0)"

text \<open>The sanity checks; the result is the size of the reorder buffer.\<close>

definition addba_check :: "bool \<Rightarrow> u16 \<Rightarrow> u16 \<Rightarrow> addba_result" where
  "addba_check blocked cap capab =
     (let ba_policy = drop_bit 1 (capab AND 0x2); bs = addba_buf_size capab in
      if blocked then Addba_blocked
      else if ba_policy \<noteq> 1 \<and> cap AND IEEE80211_HT_CAP_DELAY_BA = 0 \<or> bs > IEEE80211_MAX_AMPDU_BUF
      then Addba_invalid
      else Addba_accept (if bs = 0 then IEEE80211_MAX_AMPDU_BUF else bs))"

text \<open>Memory for the session: kmalloc gives the two timers inside of the object, or NULL; kcalloc gives
  both arrays or not.\<close>

record addba_alloc =
  alloc_session :: "(nat \<times> nat) option"
  alloc_buf :: bool
  alloc_time :: bool

definition new_tid_rx :: "u8 \<Rightarrow> u16 \<Rightarrow> u16 \<Rightarrow> u16 \<Rightarrow> tid_ampdu_rx" where
  "new_tid_rx token sn bs tmo = \<lparr>reorder_buf = replicate (unat bs) None, reorder_time = replicate (unat bs) 0,
     head_seq_num = sn, stored_mpdu_num = 0, ssn = sn, buf_size = bs, timeout = tmo, dialog_token = token\<rparr>"

text \<open>The timers get their function and data first and are initialised then.\<close>

definition setup_session_timers :: "nat \<Rightarrow> u16 \<Rightarrow> nat \<Rightarrow> nat \<Rightarrow> mac_state \<Rightarrow> mac_state" where
  "setup_session_timers sta tid st rt s =
     (let t = mac_timers s;
          t = upd_timer st (\<lambda>x. x\<lparr>tm_function := Some Agg_session_timer, tm_data := Timer_to_tid sta (unat tid)\<rparr>) t;
          t = atbm_init_timer st t;
          t = upd_timer rt (\<lambda>x. x\<lparr>tm_function := Some Agg_reorder_timer, tm_data := Timer_to_tid sta (unat tid)\<rparr>) t;
          t = atbm_init_timer rt t
      in s\<lparr>mac_timers := t\<rparr>)"

text \<open>From the allocation on.  jif is the tick counter read by TU_TO_EXP_TIME and the two reads of
  mod_timer.\<close>

definition activate_session ::
    "addba_alloc \<Rightarrow> vtimer_start \<Rightarrow> u32 \<times> u32 \<times> u32 \<Rightarrow> nat \<Rightarrow> u16 \<Rightarrow> u8 \<Rightarrow> u16 \<Rightarrow> u16 \<Rightarrow> u16 \<Rightarrow>
     mac_state \<Rightarrow> mac_state option" where
  "activate_session al vstart jif sta tid token sn bs tmo s =
     (case alloc_session al of
        None \<Rightarrow> Some s
      | Some (st, rt) \<Rightarrow>
          (let s = setup_session_timers sta tid st rt s in
           if \<not> alloc_buf al \<or> \<not> alloc_time al then Some s
           else
             (let a = \<lparr>agg_rx = new_tid_rx token sn bs tmo, session_timer = st, reorder_timer = rt\<rparr>;
                  s = upd_sta sta (\<lambda>x. x\<lparr>mlme_tid_rx := (mlme_tid_rx x)[unat tid := Some a]\<rparr>) s
              in if tmo \<noteq> 0
                 then (case jif of (j0, j1, j2) \<Rightarrow>
                         lift_timer (atbm_mod_timer vstart j1 j2 st (TU_TO_EXP_TIME j0 tmo)) s)
                 else Some s)))"

definition ieee80211_process_addba_request ::
    "addba_alloc \<Rightarrow> vtimer_start \<Rightarrow> u32 \<times> u32 \<times> u32 \<Rightarrow> nat \<Rightarrow> bytes \<Rightarrow> mac_state \<Rightarrow> mac_state option" where
  "ieee80211_process_addba_request al vstart jif sta mgmt s = do {
     token \<leftarrow> rd8 mgmt ADDBA_DIALOG_TOKEN;
     tmo \<leftarrow> rd16 mgmt ADDBA_TIMEOUT;
     start \<leftarrow> rd16 mgmt ADDBA_START_SEQ;
     capab \<leftarrow> rd16 mgmt ADDBA_CAPAB;
     let tid = addba_tid capab;
     blocked \<leftarrow> test_sta_flag sta WLAN_STA_BLOCK_BA s;
     case addba_check blocked (ht_cap (sta_heap s sta)) capab of
       Addba_blocked \<Rightarrow> Some s
     | Addba_invalid \<Rightarrow> Some s
     | Addba_accept bs \<Rightarrow> do {
         guard (unat tid < length (mlme_tid_rx (sta_heap s sta)));
         s \<leftarrow> (if mlme_tid_rx (sta_heap s sta) ! unat tid \<noteq> None
               then stop_rx_ba_session_locked sta tid WLAN_BACK_RECIPIENT 32 False s
               else Some s);
         activate_session al vstart jif sta tid token (drop_bit 4 start) bs tmo s } }"

subsection \<open>The timers and the work\<close>

text \<open>data points to element i of timer_to_tid of a station.  container_of on ptid - *ptid is defined when
  the element holds its own index.\<close>

definition timer_station :: "timer_data \<Rightarrow> mac_state \<Rightarrow> (nat \<times> u8) option" where
  "timer_station data s = (case data of
      Data_num _ \<Rightarrow> None
    | Timer_to_tid sta i \<Rightarrow> do {
        guard (i < length (timer_to_tid (sta_heap s sta)));
        let tid = timer_to_tid (sta_heap s sta) ! i;
        guard (unat tid = i);
        Some (sta, tid) })"

definition sta_rx_agg_session_timer_expired :: "timer_data \<Rightarrow> mac_state \<Rightarrow> mac_state option" where
  "sta_rx_agg_session_timer_expired data s = do {
     (sta, tid) \<leftarrow> timer_station data s;
     w \<leftarrow> set_bit_at (ucast tid) (tid_rx_timer_expired (sta_heap s sta));
     let s = upd_sta sta (\<lambda>x. x\<lparr>tid_rx_timer_expired := w\<rparr>) s;
     Some (s\<lparr>agg_works := agg_works s @ [sta]\<rparr>) }"

text \<open>The reorder timer releases the frames of the session (rx.c); what happens to the released
  frames is the receive path's.\<close>

definition apply_timer_call ::
    "vtimer_start \<Rightarrow> u32 \<Rightarrow> u32 \<Rightarrow> rx_session \<Rightarrow> timer_call \<Rightarrow> mac_state \<Rightarrow> mac_state option" where
  "apply_timer_call vstart jif1 jif2 a c s = (case c of
      Mod_reorder_timer e \<Rightarrow> lift_timer (atbm_mod_timer vstart jif1 jif2 (reorder_timer a) e) s
    | Del_reorder_timer \<Rightarrow> lift_timer (atbm_del_timer (reorder_timer a)) s
    | Mod_session_timer e \<Rightarrow> lift_timer (atbm_mod_timer vstart jif1 jif2 (session_timer a) e) s)"

definition ieee80211_release_reorder_timeout ::
    "vtimer_start \<Rightarrow> u32 \<times> u32 \<times> u32 \<Rightarrow> u32 \<Rightarrow> nat \<Rightarrow> nat \<Rightarrow> mac_state \<Rightarrow> (sk_buff list \<times> mac_state) option" where
  "ieee80211_release_reorder_timeout vstart jif tmo sta tid s = do {
     guard (tid < length (mlme_tid_rx (sta_heap s sta)));
     case mlme_tid_rx (sta_heap s sta) ! tid of
       None \<Rightarrow> Some ([], s)
     | Some a \<Rightarrow> do {
         ((t, released), c) \<leftarrow> ieee80211_sta_reorder_release (fst jif) tmo (agg_rx a, []);
         let s = upd_sta sta (\<lambda>x. x\<lparr>mlme_tid_rx := (mlme_tid_rx x)[tid := Some (a\<lparr>agg_rx := t\<rparr>)]\<rparr>) s;
         s \<leftarrow> apply_timer_call vstart (fst (snd jif)) (snd (snd jif)) a c s;
         Some (released, s) } }"

definition sta_rx_agg_reorder_timer_expired ::
    "vtimer_start \<Rightarrow> u32 \<times> u32 \<times> u32 \<Rightarrow> u32 \<Rightarrow> timer_data \<Rightarrow> mac_state \<Rightarrow> (sk_buff list \<times> mac_state) option" where
  "sta_rx_agg_reorder_timer_expired vstart jif tmo data s = do {
     (sta, tid) \<leftarrow> timer_station data s;
     ieee80211_release_reorder_timeout vstart jif tmo sta (unat tid) s }"

definition stop_if_bit ::
    "(sta_info \<Rightarrow> u32 list) \<Rightarrow> (u32 list \<Rightarrow> sta_info \<Rightarrow> sta_info) \<Rightarrow> u16 \<Rightarrow> nat \<Rightarrow> u32 \<Rightarrow> mac_state \<Rightarrow> mac_state option" where
  "stop_if_bit get_bits set_bits reason sta tid s = do {
     (v, w) \<leftarrow> test_and_clear_bit tid (get_bits (sta_heap s sta));
     let s = upd_sta sta (set_bits w) s;
     if v \<noteq> 0 then stop_rx_ba_session_locked sta (ucast tid) WLAN_BACK_RECIPIENT reason True s else Some s }"

fun ba_work_loop :: "nat \<Rightarrow> nat \<Rightarrow> nat \<Rightarrow> mac_state \<Rightarrow> mac_state option" where
  "ba_work_loop 0 tid sta s = Some s"
| "ba_work_loop (Suc n) tid sta s = do {
     s \<leftarrow> stop_if_bit tid_rx_timer_expired (\<lambda>w x. x\<lparr>tid_rx_timer_expired := w\<rparr>) 39 sta (of_nat tid) s;
     s \<leftarrow> stop_if_bit tid_rx_stop_requested (\<lambda>w x. x\<lparr>tid_rx_stop_requested := w\<rparr>) 1 sta (of_nat tid) s;
     ba_work_loop n (tid + 1) sta s }"

definition ieee80211_ba_session_work :: "nat \<Rightarrow> mac_state \<Rightarrow> mac_state option" where
  "ieee80211_ba_session_work sta s = do {
     blocked \<leftarrow> test_sta_flag sta WLAN_STA_BLOCK_BA s;
     if blocked then Some s else ba_work_loop STA_TID_NUM 0 sta s }"

end
