(* ===== verification/Agg_Props.thy ===== *)
theory Agg_Props
  imports Agg_Rx Os_Timer_Props Reorder_Window
begin

text \<open>What starting and stopping a receive block-ack session does.\<close>

abbreviation session_of :: "mac_state \<Rightarrow> nat \<Rightarrow> nat \<Rightarrow> rx_session option" where
  "session_of s sta tid \<equiv> mlme_tid_rx (sta_heap s sta) ! tid"

text \<open>The session a is gone from slot tid of the station; nothing else of the stations changed.\<close>

definition only_slot :: "nat \<Rightarrow> nat \<Rightarrow> rx_session option \<Rightarrow> mac_state \<Rightarrow> mac_state \<Rightarrow> bool" where
  "only_slot sta tid v s s' \<longleftrightarrow>
     sta_heap s' = (sta_heap s)(sta := (sta_heap s sta)\<lparr>mlme_tid_rx := (mlme_tid_rx (sta_heap s sta))[tid := v]\<rparr>) \<and>
     s'\<lparr>sta_heap := sta_heap s, mac_timers := mac_timers s, rcu_sessions := rcu_sessions s\<rparr> = s"

lemma addba_tid_less: "unat (addba_tid capab) < 16"
proof -
  have "addba_tid capab = drop_bit 2 capab AND 0xf"
    by (simp add: addba_tid_def drop_bit_and)
  then have "addba_tid capab \<le> 0xf" by (simp add: word_and_le1)
  then show ?thesis by (simp add: word_le_nat_alt)
qed

lemma lift_timer_Some: "f (mac_timers s) = Some (r, t) \<Longrightarrow> lift_timer f s = Some (s\<lparr>mac_timers := t\<rparr>)"
  by (simp add: lift_timer_def)

definition without_session :: "rx_session \<Rightarrow> (u32 \<Rightarrow> nat option) \<Rightarrow> u32 \<Rightarrow> nat option" where
  "without_session a m = without (reorder_timer a) (without (session_timer a) m)"

lemma stop_none:
  assumes "unat tid < length (mlme_tid_rx (sta_heap s sta))" "session_of s sta (unat tid) = None"
  shows "stop_rx_ba_session_locked sta tid i r tx s = Some s"
  using assms by (simp add: stop_rx_ba_session_locked_def Let_def)

lemma stop_some:
  assumes "unat tid < length (mlme_tid_rx (sta_heap s sta))" "session_of s sta (unat tid) = Some a"
    and inv: "timer_inv (mac_timers s) m"
  shows "\<exists>s'. stop_rx_ba_session_locked sta tid i r tx s = Some s' \<and> only_slot sta (unat tid) None s s' \<and>
    timer_inv (mac_timers s') (without_session a m) \<and> tm_calls (mac_timers s') = tm_calls (mac_timers s) \<and>
    tm_function (tm_heap (mac_timers s') (session_timer a)) = None \<and>
    tm_function (tm_heap (mac_timers s') (reorder_timer a)) = None \<and>
    rcu_sessions s' = rcu_sessions s @ [a]"
proof -
  obtain t1 where t1: "atbm_del_timer (session_timer a) (mac_timers s) = Some (0, t1)"
      "timer_inv t1 (without (session_timer a) m)" "tm_heap t1 (session_timer a) = zero_timer"
      "tm_calls t1 = tm_calls (mac_timers s)"
    using del_timer_ok[OF inv, of "session_timer a"] by blast
  obtain t2 where t2: "atbm_del_timer (reorder_timer a) t1 = Some (0, t2)"
      "timer_inv t2 (without_session a m)" "tm_heap t2 (reorder_timer a) = zero_timer"
      "tm_calls t2 = tm_calls t1" "\<forall>x. x \<noteq> reorder_timer a \<longrightarrow> same_timer x t1 t2"
    using del_timer_ok[OF t1(2), of "reorder_timer a"] by (auto simp: without_session_def)
  have f: "tm_function (tm_heap t2 (session_timer a)) = None"
    using t1(3) t2(3,5) by (cases "session_timer a = reorder_timer a") (auto simp: same_timer_def zero_timer_def)
  let ?s' = "(upd_sta sta (\<lambda>x. x\<lparr>mlme_tid_rx := (mlme_tid_rx x)[unat tid := None]\<rparr>) s)
      \<lparr>mac_timers := t2, rcu_sessions := rcu_sessions s @ [a]\<rparr>"
  have "stop_rx_ba_session_locked sta tid i r tx s = Some ?s'"
    using assms(1,2) t1(1) t2(1)
    by (simp add: stop_rx_ba_session_locked_def Let_def lift_timer_def atbm_del_timer_sync_def)
  then show ?thesis using f t1(4) t2
    by (intro exI[of _ ?s']) (simp add: only_slot_def upd_sta_def zero_timer_def)
qed

lemma timer_inv_upd: "timer_inv t m \<Longrightarrow> x \<notin> ran m \<Longrightarrow> timer_inv (upd_timer x f t) m"
  by (auto simp: timer_inv_def timer_rep_upd ran_def) (auto simp: upd_timer_def)

lemma timer_inv_lock [simp]: "timer_inv (t\<lparr>hash_lock_init := b\<rparr>) m = timer_inv t m"
  by (simp add: timer_inv_def) (simp add: timer_rep_def)

lemma init_timer_inv: "timer_inv t m \<Longrightarrow> x \<notin> ran m \<Longrightarrow> timer_inv (atbm_init_timer x t) m"
  unfolding atbm_init_timer_def by (rule timer_inv_upd) simp_all

lemma init_timer_simps:
  "tm_function (tm_heap (atbm_init_timer x t) y) = (if y = x then None else tm_function (tm_heap t y))"
  "tm_calls (atbm_init_timer x t) = tm_calls t"
  by (simp_all add: atbm_init_timer_def upd_timer_def)

lemma setup_ok:
  assumes "timer_inv (mac_timers s) m" "st \<notin> ran m" "rt \<notin> ran m" "st \<noteq> rt"
  shows "\<exists>t. setup_session_timers sta tid st rt s = s\<lparr>mac_timers := t\<rparr> \<and> timer_inv t m \<and>
    tm_function (tm_heap t st) = None \<and> tm_function (tm_heap t rt) = None \<and> tm_calls t = tm_calls (mac_timers s)"
proof -
  let ?fn = "\<lambda>f x. x\<lparr>tm_function := Some f, tm_data := Timer_to_tid sta (unat tid)\<rparr>"
  let ?t1 = "atbm_init_timer st (upd_timer st (?fn Agg_session_timer) (mac_timers s))"
  let ?t = "atbm_init_timer rt (upd_timer rt (?fn Agg_reorder_timer) ?t1)"
  have "timer_inv ?t m" by (intro init_timer_inv timer_inv_upd assms)
  moreover have "tm_function (tm_heap ?t st) = None" "tm_function (tm_heap ?t rt) = None"
      "tm_calls ?t = tm_calls (mac_timers s)"
    using assms(4) by (simp_all add: init_timer_simps) (simp_all add: upd_timer_def init_timer_simps)
  ultimately show ?thesis
    by (intro exI[of _ ?t]) (simp add: setup_session_timers_def Let_def)
qed

lemma calm_mono: "calm vstart m \<Longrightarrow> calm vstart (without_session a m)"
  by (simp add: calm_def without_session_def without_def)

lemma ran_mono: "x \<notin> ran m \<Longrightarrow> x \<notin> ran (without_session a m)"
  by (auto simp: ran_def without_session_def without_def split: if_splits)

lemma only_slot_trans: "only_slot sta tid v s s1 \<Longrightarrow> only_slot sta tid w s1 s2 \<Longrightarrow> only_slot sta tid w s s2"
  unfolding only_slot_def by (cases s; cases s1; cases s2; auto)

lemma only_slot_get: "only_slot sta tid v s s' \<Longrightarrow> tid < length (mlme_tid_rx (sta_heap s sta)) \<Longrightarrow>
    session_of s' sta tid = v"
  by (simp add: only_slot_def)

text \<open>The frame of an ADDBA request and a station that is able to accept it.\<close>

definition addba_frame :: "bytes \<Rightarrow> u8 \<Rightarrow> u16 \<Rightarrow> u16 \<Rightarrow> u16 \<Rightarrow> bool" where
  "addba_frame mgmt token capab tmo start \<longleftrightarrow> rd8 mgmt ADDBA_DIALOG_TOKEN = Some token \<and>
     rd16 mgmt ADDBA_CAPAB = Some capab \<and> rd16 mgmt ADDBA_TIMEOUT = Some tmo \<and> rd16 mgmt ADDBA_START_SEQ = Some start"

definition sta_blocked :: "mac_state \<Rightarrow> nat \<Rightarrow> bool" where
  "sta_blocked s sta = bit_of (sta_flags (sta_heap s sta)) WLAN_STA_BLOCK_BA"

lemma test_block: "sta_wf (sta_heap s sta) \<Longrightarrow> test_sta_flag sta WLAN_STA_BLOCK_BA s = Some (sta_blocked s sta)"
  by (simp add: test_sta_flag_def sta_blocked_def sta_wf_def test_bit_ok bit_word_def)

lemma activate_ok:
  assumes inv: "timer_inv (mac_timers s) m" and v: "calm vstart m"
    and al: "alloc_session al = Some (st, rt)" "alloc_buf al" "alloc_time al" "st \<noteq> rt" "st \<notin> ran m" "rt \<notin> ran m"
  shows "\<exists>s' m'. activate_session al vstart jif sta tid token sn bs tmo s = Some s' \<and>
    only_slot sta (unat tid) (Some \<lparr>agg_rx = new_tid_rx token sn bs tmo, session_timer = st, reorder_timer = rt\<rparr>) s s' \<and>
    rcu_sessions s' = rcu_sessions s \<and> timer_inv (mac_timers s') m' \<and> tm_calls (mac_timers s') = tm_calls (mac_timers s) \<and>
    tm_function (tm_heap (mac_timers s') st) = None \<and> tm_function (tm_heap (mac_timers s') rt) = None"
proof -
  obtain j0 j1 j2 where j: "jif = (j0, j1, j2)" by (cases jif)
  obtain t where t: "setup_session_timers sta tid st rt s = s\<lparr>mac_timers := t\<rparr>" "timer_inv t m"
      "tm_function (tm_heap t st) = None" "tm_function (tm_heap t rt) = None" "tm_calls t = tm_calls (mac_timers s)"
    using setup_ok[OF inv al(5,6,4)] by blast
  let ?a = "\<lparr>agg_rx = new_tid_rx token sn bs tmo, session_timer = st, reorder_timer = rt\<rparr>"
  let ?s' = "\<lambda>t. upd_sta sta (\<lambda>x. x\<lparr>mlme_tid_rx := (mlme_tid_rx x)[unat tid := Some ?a]\<rparr>) (s\<lparr>mac_timers := t\<rparr>)"
  have os: "only_slot sta (unat tid) (Some ?a) s (?s' t')" "rcu_sessions (?s' t') = rcu_sessions s" for t'
    by (simp_all add: only_slot_def upd_sta_def)
  show ?thesis
  proof (cases "tmo = 0")
    case True
    then have "activate_session al vstart jif sta tid token sn bs tmo s = Some (?s' t)"
      using al t(1) by (simp add: activate_session_def Let_def)
    then show ?thesis using t(2-5) os[of t] by (intro exI[of _ "?s' t"] exI[of _ m]) simp
  next
    case False
    obtain t' m' where t': "atbm_mod_timer vstart j1 j2 st (TU_TO_EXP_TIME j0 tmo) t = Some (0, t')"
        "timer_inv t' m'" "\<forall>x. same_timer x t t'" "tm_calls t' = tm_calls t"
      using mod_timer_calm[OF t(2) v, of j1 j2 st "TU_TO_EXP_TIME j0 tmo"] t(3) by (auto simp: calls_of_def)
    then have "activate_session al vstart jif sta tid token sn bs tmo s = Some (?s' t')"
      using al t(1) False j by (simp add: activate_session_def Let_def lift_timer_def upd_sta_def)
    then show ?thesis using t(3-5) t' os[of t'] by (intro exI[of _ "?s' t'"] exI[of _ m']) (simp add: same_timer_def)
  qed
qed

lemma addba_run:
  assumes fr: "addba_frame mgmt token capab tmo start" and wf: "sta_wf (sta_heap s sta)"
    and inv: "timer_inv (mac_timers s) m"
    and al: "alloc_session al = Some (st, rt)" "alloc_buf al" "alloc_time al" "st \<noteq> rt" "st \<notin> ran m" "rt \<notin> ran m"
    and v: "calm vstart m"
    and acc: "addba_check (sta_blocked s sta) (ht_cap (sta_heap s sta)) capab = Addba_accept bs"
  shows "\<exists>s' m'. ieee80211_process_addba_request al vstart jif sta mgmt s = Some s' \<and>
    only_slot sta (unat (addba_tid capab)) (Some \<lparr>agg_rx = new_tid_rx token (drop_bit 4 start) bs tmo,
       session_timer = st, reorder_timer = rt\<rparr>) s s' \<and>
    rcu_sessions s' = rcu_sessions s @ (case session_of s sta (unat (addba_tid capab)) of None \<Rightarrow> [] | Some a \<Rightarrow> [a]) \<and>
    timer_inv (mac_timers s') m' \<and> tm_calls (mac_timers s') = tm_calls (mac_timers s) \<and>
    tm_function (tm_heap (mac_timers s') st) = None \<and> tm_function (tm_heap (mac_timers s') rt) = None"
proof -
  let ?tid = "unat (addba_tid capab)"
  have len: "?tid < length (mlme_tid_rx (sta_heap s sta))" using wf addba_tid_less by (simp add: sta_wf_def)
  have run: "ieee80211_process_addba_request al vstart jif sta mgmt s = do {
      s \<leftarrow> (if session_of s sta ?tid \<noteq> None
            then stop_rx_ba_session_locked sta (addba_tid capab) WLAN_BACK_RECIPIENT 32 False s else Some s);
      activate_session al vstart jif sta (addba_tid capab) token (drop_bit 4 start) bs tmo s }"
    using fr test_block[OF wf] acc len by (simp add: ieee80211_process_addba_request_def addba_frame_def Let_def)
  show ?thesis
  proof (cases "session_of s sta ?tid")
    case None
    then show ?thesis using activate_ok[OF inv v al] unfolding run by simp
  next
    case (Some a)
    obtain s1 where s1: "stop_rx_ba_session_locked sta (addba_tid capab) WLAN_BACK_RECIPIENT 32 False s = Some s1"
        "only_slot sta ?tid None s s1" "timer_inv (mac_timers s1) (without_session a m)"
        "tm_calls (mac_timers s1) = tm_calls (mac_timers s)" "rcu_sessions s1 = rcu_sessions s @ [a]"
      using stop_some[OF len Some inv] by blast
    show ?thesis
      using activate_ok[OF s1(3) calm_mono[OF v] al(1-4) ran_mono[OF al(5)] ran_mono[OF al(6)]] s1 Some
        only_slot_trans[OF s1(2)] unfolding run by fastforce
  qed
qed

lemma new_tid_rx_ok:
  assumes "2 \<le> bs" "bs \<le> 64" "unat bs dvd 4096"
  shows "session_ok (new_tid_rx token (drop_bit 4 start) bs tmo)" "seq_inv (new_tid_rx token (drop_bit 4 start) bs tmo)"
proof -
  have "drop_bit 4 start < (4096 :: u16)"
    using unat_lt2p[of start] by (simp add: word_less_nat_alt drop_bit_eq_div unat_div)
  moreover have "0 < bs" using assms(1) by (simp add: word_less_nat_alt word_le_nat_alt)
  moreover have "n_stored (replicate k None) = 0" for k by (simp add: n_stored_def)
  ultimately show "session_ok (new_tid_rx token (drop_bit 4 start) bs tmo)"
    using assms by (simp add: session_ok_def reorder_wf_def size_ok_def new_tid_rx_def)
  show "seq_inv (new_tid_rx token (drop_bit 4 start) bs tmo)"
    by (auto simp: seq_inv_def window_def new_tid_rx_def nth_rotate)
qed

lemma addba_check_size:
  assumes "addba_check b cap capab = Addba_accept bs"
  shows "bs \<noteq> 0" "bs \<le> 64" "bs = (if addba_buf_size capab = 0 then 64 else addba_buf_size capab)"
  using assms by (auto simp: addba_check_def Let_def not_less split: if_splits)

text \<open>An ADDBA request that passes the checks opens a session for its TID, and only there: an empty
  reorder buffer of the requested size (64 when the request leaves it open) that starts at the
  requested sequence number.  A session that was open for the TID is given up.  When the size is a
  power of two the new session satisfies the invariants of the reorder buffer.\<close>
theorem addba_request_opens_session:
  assumes "addba_frame mgmt token capab tmo start" "sta_wf (sta_heap s sta)" "timer_inv (mac_timers s) m"
    and "alloc_session al = Some (st, rt)" "alloc_buf al" "alloc_time al" "st \<noteq> rt" "st \<notin> ran m" "rt \<notin> ran m"
    and "calm vstart m"
    and acc: "addba_check (sta_blocked s sta) (ht_cap (sta_heap s sta)) capab = Addba_accept bs"
  shows "\<exists>s' a. ieee80211_process_addba_request al vstart jif sta mgmt s = Some s' \<and>
    only_slot sta (unat (addba_tid capab)) (Some a) s s' \<and> session_of s' sta (unat (addba_tid capab)) = Some a \<and>
    reorder_buf (agg_rx a) = replicate (unat bs) None \<and> stored_mpdu_num (agg_rx a) = 0 \<and>
    head_seq_num (agg_rx a) = drop_bit 4 start \<and> ssn (agg_rx a) = drop_bit 4 start \<and>
    buf_size (agg_rx a) = bs \<and> timeout (agg_rx a) = tmo \<and> dialog_token (agg_rx a) = token \<and>
    bs = (if addba_buf_size capab = 0 then 64 else addba_buf_size capab) \<and>
    (2 \<le> bs \<and> unat bs dvd 4096 \<longrightarrow> session_ok (agg_rx a) \<and> seq_inv (agg_rx a)) \<and>
    rcu_sessions s' = rcu_sessions s @ (case session_of s sta (unat (addba_tid capab)) of None \<Rightarrow> [] | Some a \<Rightarrow> [a])"
proof -
  have len: "unat (addba_tid capab) < length (mlme_tid_rx (sta_heap s sta))"
    using assms(2) addba_tid_less by (simp add: sta_wf_def)
  let ?a = "\<lparr>agg_rx = new_tid_rx token (drop_bit 4 start) bs tmo, session_timer = st, reorder_timer = rt\<rparr>"
  obtain s' where s': "ieee80211_process_addba_request al vstart jif sta mgmt s = Some s'"
      "only_slot sta (unat (addba_tid capab)) (Some ?a) s s'"
      "rcu_sessions s' = rcu_sessions s @ (case session_of s sta (unat (addba_tid capab)) of None \<Rightarrow> [] | Some a \<Rightarrow> [a])"
    using addba_run[OF assms] by blast
  show ?thesis
    using s' only_slot_get[OF s'(2) len] addba_check_size[OF acc] new_tid_rx_ok[of bs token start tmo]
    by (intro exI[of _ s'] exI[of _ ?a]) (simp, simp add: new_tid_rx_def)
qed

text \<open>A request that is refused - the station is being removed, the policy is not supported or the size
  exceeds 64 - changes nothing, and no memory leaves the session slot half set: when an allocation
  fails the slot of the TID is empty.\<close>
theorem addba_request_refused:
  assumes fr: "addba_frame mgmt token capab tmo start" and wf: "sta_wf (sta_heap s sta)"
    and inv: "timer_inv (mac_timers s) m"
  shows "case addba_check (sta_blocked s sta) (ht_cap (sta_heap s sta)) capab of
      Addba_accept bs \<Rightarrow> alloc_session al = None \<or> \<not> alloc_buf al \<or> \<not> alloc_time al \<longrightarrow>
        (\<exists>s'. ieee80211_process_addba_request al vstart jif sta mgmt s = Some s' \<and>
           only_slot sta (unat (addba_tid capab)) None s s')
    | _ \<Rightarrow> ieee80211_process_addba_request al vstart jif sta mgmt s = Some s"
proof (cases "addba_check (sta_blocked s sta) (ht_cap (sta_heap s sta)) capab")
  case (Addba_accept bs)
  let ?tid = "unat (addba_tid capab)"
  have len: "?tid < length (mlme_tid_rx (sta_heap s sta))" using wf addba_tid_less by (simp add: sta_wf_def)
  have run: "ieee80211_process_addba_request al vstart jif sta mgmt s = do {
      s \<leftarrow> (if session_of s sta ?tid \<noteq> None
            then stop_rx_ba_session_locked sta (addba_tid capab) WLAN_BACK_RECIPIENT 32 False s else Some s);
      activate_session al vstart jif sta (addba_tid capab) token (drop_bit 4 start) bs tmo s }"
    using fr test_block[OF wf] Addba_accept len
    by (simp add: ieee80211_process_addba_request_def addba_frame_def Let_def)
  have act: "\<exists>t. activate_session al vstart jif sta tid token sn bs tmo s1 = Some (s1\<lparr>mac_timers := t\<rparr>)"
    if "alloc_session al = None \<or> \<not> alloc_buf al \<or> \<not> alloc_time al" for s1 tid sn
    using that by (auto simp: activate_session_def Let_def setup_session_timers_def split: option.splits
        intro: exI[of _ "mac_timers s1"])
  have os: "only_slot sta ?tid None s1 s2 \<Longrightarrow> only_slot sta ?tid None s1 (s2\<lparr>mac_timers := t\<rparr>)" for s1 s2 t
    unfolding only_slot_def by (cases s1; cases s2; simp)
  have none: "only_slot sta ?tid None s s" if "session_of s sta ?tid = None"
    using that len list_update_id[of "mlme_tid_rx (sta_heap s sta)" ?tid] by (simp add: only_slot_def)
  show ?thesis
  proof (cases "session_of s sta ?tid")
    case None
    then show ?thesis using act[of "addba_tid capab" "drop_bit 4 start" s] os[OF none[OF None]] Addba_accept
      unfolding run by auto
  next
    case (Some a)
    then obtain s1 where "stop_rx_ba_session_locked sta (addba_tid capab) WLAN_BACK_RECIPIENT 32 False s = Some s1"
        "only_slot sta ?tid None s s1"
      using stop_some[OF len Some inv] by blast
    then show ?thesis using act[of "addba_tid capab" "drop_bit 4 start" s1] os Some Addba_accept unfolding run by auto
  qed
qed (use fr test_block[OF wf] in \<open>simp_all add: ieee80211_process_addba_request_def addba_frame_def Let_def\<close>)

text \<open>C32. The two timers of a session never do anything: atbm_init_timer clears the functions that the code
  has set just before, so neither a later atbm_mod_timer nor the expiry of its vtimer calls one.\<close>
theorem session_timers_never_call:
  assumes "addba_frame mgmt token capab tmo start" "sta_wf (sta_heap s sta)" "timer_inv (mac_timers s) m"
    and "alloc_session al = Some (st, rt)" "alloc_buf al" "alloc_time al" "st \<noteq> rt" "st \<notin> ran m" "rt \<notin> ran m"
    and "calm vstart m"
    and "addba_check (sta_blocked s sta) (ht_cap (sta_heap s sta)) capab = Addba_accept bs"
    and t: "t = st \<or> t = rt"
  shows "\<exists>s'. ieee80211_process_addba_request al vstart jif sta mgmt s = Some s' \<and>
    tm_calls (mac_timers s') = tm_calls (mac_timers s) \<and>
    (\<forall>vstart' m' j1 j2 e. timer_inv (mac_timers s') m' \<and> calm vstart' m' \<longrightarrow>
       (\<exists>ts m''. atbm_mod_timer vstart' j1 j2 t e (mac_timers s') = Some (0, ts) \<and> timer_inv ts m'' \<and>
          tm_calls ts = tm_calls (mac_timers s) \<and>
          (\<forall>h. m'' h = Some t \<longrightarrow>
             (\<exists>ts'. timer_out_func h ts = Some ts' \<and> tm_calls ts' = tm_calls (mac_timers s)))))"
proof -
  obtain s' where s': "ieee80211_process_addba_request al vstart jif sta mgmt s = Some s'"
      "tm_calls (mac_timers s') = tm_calls (mac_timers s)" "tm_function (tm_heap (mac_timers s') st) = None"
      "tm_function (tm_heap (mac_timers s') rt) = None"
    using addba_run[OF assms(1-11)] by blast
  have f: "tm_function (tm_heap (mac_timers s') t) = None" using s'(3,4) t by auto
  have "\<exists>ts m''. atbm_mod_timer vstart' j1 j2 t e (mac_timers s') = Some (0, ts) \<and> timer_inv ts m'' \<and>
      tm_calls ts = tm_calls (mac_timers s) \<and>
      (\<forall>h. m'' h = Some t \<longrightarrow> (\<exists>ts'. timer_out_func h ts = Some ts' \<and> tm_calls ts' = tm_calls (mac_timers s)))"
    if i: "timer_inv (mac_timers s') m'" and c: "calm vstart' m'" for vstart' m' j1 j2 e
  proof -
    obtain ts m'' where ts: "atbm_mod_timer vstart' j1 j2 t e (mac_timers s') = Some (0, ts)" "timer_inv ts m''"
        "\<forall>x. same_timer x (mac_timers s') ts" "tm_calls ts = tm_calls (mac_timers s)"
      using mod_timer_calm[OF i c, of j1 j2 t e] f s'(2) by (auto simp: calls_of_def)
    have "\<exists>ts'. timer_out_func h ts = Some ts' \<and> tm_calls ts' = tm_calls (mac_timers s)" if "m'' h = Some t" for h
      using timer_out_known[of ts m'' h t t] ts(2-4) f that by (auto simp: timer_inv_def same_timer_def)
    then show ?thesis using ts by blast
  qed
  then show ?thesis using s' by blast
qed

subsection \<open>Stopping all sessions\<close>

definition all_sessions :: "mac_state \<Rightarrow> nat \<Rightarrow> nat \<Rightarrow> nat \<Rightarrow> rx_session list" where
  "all_sessions s sta i n = cat_some (map (session_of s sta) [i..<i + n])"

lemma all_sessions_Suc: "all_sessions s sta i (Suc n) =
    (case session_of s sta i of None \<Rightarrow> [] | Some a \<Rightarrow> [a]) @ all_sessions s sta (Suc i) n"
proof -
  have "[i..<i + Suc n] = i # [Suc i..<Suc i + n]" using upt_conv_Cons[of i "i + Suc n"] by simp
  then show ?thesis by (simp add: all_sessions_def del: upt_Suc split: option.split)
qed

text \<open>Only the sessions of one station change.\<close>

definition sessions_only :: "nat \<Rightarrow> mac_state \<Rightarrow> mac_state \<Rightarrow> bool" where
  "sessions_only sta s s' \<longleftrightarrow>
     (\<exists>xs. length xs = length (mlme_tid_rx (sta_heap s sta)) \<and>
        sta_heap s' = (sta_heap s)(sta := (sta_heap s sta)\<lparr>mlme_tid_rx := xs\<rparr>)) \<and>
     s'\<lparr>sta_heap := sta_heap s, mac_timers := mac_timers s, rcu_sessions := rcu_sessions s\<rparr> = s"

lemma sessions_only_refl [simp]: "sessions_only sta s s"
  by (auto simp: sessions_only_def intro: exI[of _ "mlme_tid_rx (sta_heap s sta)"])

lemma only_slot_sessions: "only_slot sta tid v s s' \<Longrightarrow> sessions_only sta s s'"
  unfolding only_slot_def sessions_only_def by (intro conjI exI[of _ "(mlme_tid_rx (sta_heap s sta))[tid := v]"]) auto

lemma sessions_only_trans: "sessions_only sta s s1 \<Longrightarrow> sessions_only sta s1 s2 \<Longrightarrow> sessions_only sta s s2"
  unfolding sessions_only_def by (cases s; cases s1; cases s2; auto)

text \<open>The running timers without those of some sessions.\<close>

definition without_sessions :: "rx_session list \<Rightarrow> (u32 \<Rightarrow> nat option) \<Rightarrow> u32 \<Rightarrow> nat option" where
  "without_sessions as m = (\<lambda>h. case m h of None \<Rightarrow> None
     | Some x \<Rightarrow> if list_ex (\<lambda>a. x = session_timer a \<or> x = reorder_timer a) as then None else Some x)"

lemma without_sessions_simps [simp]:
  "without_sessions [] m = m" "without_sessions [a] m = without_session a m"
  "without_sessions (as @ bs) m = without_sessions bs (without_sessions as m)"
  by (auto simp: without_sessions_def without_session_def without_def fun_eq_iff split: option.split)

lemma tear_down_loop_ok:
  assumes "length (mlme_tid_rx (sta_heap s sta)) = 16" "i + n = 16" "timer_inv (mac_timers s) m"
  shows "\<exists>s'. tear_down_loop n i tx sta s = Some s' \<and> sessions_only sta s s' \<and>
    timer_inv (mac_timers s') (without_sessions (all_sessions s sta i n) m) \<and>
    tm_calls (mac_timers s') = tm_calls (mac_timers s) \<and>
    (\<forall>k < 16. session_of s' sta k = (if i \<le> k then None else session_of s sta k)) \<and>
    rcu_sessions s' = rcu_sessions s @ all_sessions s sta i n"
  using assms
proof (induction n arbitrary: i s m)
  case 0
  then show ?case by (auto simp: all_sessions_def)
next
  case (Suc n)
  have u: "unat (of_nat i :: u16) = i" using Suc.prems(2) by (simp add: unat_of_nat)
  have len: "unat (of_nat i :: u16) < length (mlme_tid_rx (sta_heap s sta))" using Suc.prems u by simp
  let ?a = "case session_of s sta i of None \<Rightarrow> [] | Some a \<Rightarrow> [a]"
  have "\<exists>s1. stop_rx_ba_session sta (of_nat i) WLAN_BACK_RECIPIENT 36 tx s = Some s1 \<and> only_slot sta i None s s1 \<and>
      timer_inv (mac_timers s1) (without_sessions ?a m) \<and> tm_calls (mac_timers s1) = tm_calls (mac_timers s) \<and>
      rcu_sessions s1 = rcu_sessions s @ (case session_of s sta i of None \<Rightarrow> [] | Some a \<Rightarrow> [a])"
  proof (cases "session_of s sta i")
    case None
    have "only_slot sta i None s s" using None len u list_update_id[of "mlme_tid_rx (sta_heap s sta)" i]
      by (simp add: only_slot_def)
    then show ?thesis using stop_none[OF len] None u Suc.prems(3) by (auto simp: stop_rx_ba_session_def)
  next
    case (Some a)
    show ?thesis using stop_some[OF len _ Suc.prems(3), of a] Some u by (fastforce simp: stop_rx_ba_session_def)
  qed
  then obtain s1 where s1: "stop_rx_ba_session sta (of_nat i) WLAN_BACK_RECIPIENT 36 tx s = Some s1"
      "only_slot sta i None s s1" "timer_inv (mac_timers s1) (without_sessions ?a m)" "tm_calls (mac_timers s1) = tm_calls (mac_timers s)"
      "rcu_sessions s1 = rcu_sessions s @ (case session_of s sta i of None \<Rightarrow> [] | Some a \<Rightarrow> [a])" by blast
  have l1: "mlme_tid_rx (sta_heap s1 sta) = (mlme_tid_rx (sta_heap s sta))[i := None]"
    using s1(2) by (simp add: only_slot_def)
  have a1: "all_sessions s1 sta (Suc i) n = all_sessions s sta (Suc i) n"
    unfolding all_sessions_def l1
    by (intro arg_cong[where f = cat_some] map_cong refl nth_list_update_neq) auto
  obtain s' where s': "tear_down_loop n (i + 1) tx sta s1 = Some s'" "sessions_only sta s1 s'"
      "timer_inv (mac_timers s') (without_sessions (all_sessions s1 sta (i + 1) n) (without_sessions ?a m))"
      "tm_calls (mac_timers s') = tm_calls (mac_timers s1)"
      "\<forall>k < 16. session_of s' sta k = (if i + 1 \<le> k then None else session_of s1 sta k)"
      "rcu_sessions s' = rcu_sessions s1 @ all_sessions s1 sta (i + 1) n"
    using Suc.IH[of s1 "i + 1" "without_sessions ?a m"] Suc.prems s1(3) l1 by auto
  have "\<forall>k < 16. session_of s' sta k = (if i \<le> k then None else session_of s sta k)"
    using s'(5) Suc.prems(1) by (auto simp: l1 nth_list_update)
  then show ?case
    using s1 s' a1 sessions_only_trans[OF only_slot_sessions[OF s1(2)] s'(2)]
    by (intro exI[of _ s']) (simp add: all_sessions_Suc)
qed

lemma tear_down_ok:
  assumes "sta_wf (sta_heap s sta)" "timer_inv (mac_timers s) m"
  shows "\<exists>s'. ieee80211_sta_tear_down_BA_sessions sta tx s = Some s' \<and> sessions_only sta s s' \<and>
    (\<forall>tid < 16. session_of s' sta tid = None) \<and>
    timer_inv (mac_timers s') (without_sessions (all_sessions s sta 0 16) m) \<and>
    tm_calls (mac_timers s') = tm_calls (mac_timers s) \<and>
    rcu_sessions s' = rcu_sessions s @ all_sessions s sta 0 16 \<and> mac_freed s' = mac_freed s"
proof -
  obtain s' where s': "tear_down_loop 16 0 tx sta s = Some s'" "sessions_only sta s s'"
      "timer_inv (mac_timers s') (without_sessions (all_sessions s sta 0 16) m)"
      "tm_calls (mac_timers s') = tm_calls (mac_timers s)" "\<forall>k < 16. session_of s' sta k = None"
      "rcu_sessions s' = rcu_sessions s @ all_sessions s sta 0 16"
    using tear_down_loop_ok[of s sta 0 16 m tx] assms by (auto simp: sta_wf_def)
  have "mac_freed s' = mac_freed (s'\<lparr>sta_heap := sta_heap s, mac_timers := mac_timers s, rcu_sessions := rcu_sessions s\<rparr>)"
    by simp
  also have "\<dots> = mac_freed s" using s'(2) unfolding sessions_only_def by metis
  finally show ?thesis using s' by (auto simp: ieee80211_sta_tear_down_BA_sessions_def)
qed

text \<open>C34. Tearing down the sessions of a station empties all 16 slots and stops all their timers: the timers
  that run afterwards are those that ran before, without the session timer and the reorder timer of
  each session that was open.  No timer function is called.  Each open
  session is given to call_rcu once, in the order of the TIDs; on this port nothing takes it from
  there: neither the session nor a frame in its reorder buffer is freed.\<close>
theorem tear_down_ends_all_sessions:
  assumes "sta_wf (sta_heap s sta)" "timer_inv (mac_timers s) m"
  shows "\<exists>s'. ieee80211_sta_tear_down_BA_sessions sta tx s = Some s' \<and> sessions_only sta s s' \<and>
    (\<forall>tid < 16. session_of s' sta tid = None) \<and>
    timer_inv (mac_timers s') (without_sessions (all_sessions s sta 0 16) m) \<and>
    tm_calls (mac_timers s') = tm_calls (mac_timers s) \<and>
    rcu_sessions s' = rcu_sessions s @ all_sessions s sta 0 16 \<and> mac_freed s' = mac_freed s"
  using tear_down_ok[OF assms] .

text \<open>A DELBA of the side that opened the session ends the session of its TID; one of the other side is
  ignored.\<close>
theorem delba_ends_session:
  assumes "rd16 mgmt DELBA_PARAMS = Some params" "sta_wf (sta_heap s sta)" "timer_inv (mac_timers s) m"
  shows "\<exists>s'. ieee80211_process_delba sta mgmt s = Some s' \<and>
    (if bit params 11 then only_slot sta (unat (drop_bit 12 params)) None s s' else s' = s)"
proof -
  have i: "drop_bit 11 (params AND 0x0800) = 1 \<longleftrightarrow> bit params 11"
  proof -
    have "drop_bit 11 (params AND 0x0800) = drop_bit 11 params AND 1" by (simp add: drop_bit_and)
    also have "\<dots> = of_bool (bit params 11)" by (simp add: and_one_eq bit_iff_odd_drop_bit odd_iff_mod_2_eq_one of_bool_def)
    finally show ?thesis by simp
  qed
  have t: "drop_bit 12 (params AND 0xf000) = drop_bit 12 params AND 0xf" by (simp add: drop_bit_and)
  have d: "unat (drop_bit 12 params) < 16"
    using unat_lt2p[of params] by (simp add: drop_bit_eq_div unat_div)
  have "drop_bit 12 params AND 0xf = take_bit 4 (drop_bit 12 params)"
    by (simp add: take_bit_eq_mask mask_eq_exp_minus_1)
  also have "\<dots> = drop_bit 12 params"
    using d by (simp add: take_bit_eq_mod word_unat_eq_iff unat_mod)
  finally have tt: "drop_bit 12 (params AND 0xf000) = drop_bit 12 params" using t by simp
  let ?tid = "unat (drop_bit 12 params)"
  have len: "?tid < length (mlme_tid_rx (sta_heap s sta))" using d assms(2) by (simp add: sta_wf_def)
  have run: "ieee80211_process_delba sta mgmt s = (if bit params 11
      then stop_rx_ba_session_locked sta (drop_bit 12 params) WLAN_BACK_INITIATOR 0 True s else Some s)"
    using assms(1) i tt by (simp add: ieee80211_process_delba_def Let_def stop_rx_ba_session_def)
  show ?thesis
  proof (cases "session_of s sta ?tid")
    case None
    have "only_slot sta ?tid None s s" using None len list_update_id[of "mlme_tid_rx (sta_heap s sta)" ?tid]
      by (simp add: only_slot_def)
    then show ?thesis using stop_none[OF len None] run by simp
  next
    case (Some a)
    show ?thesis using stop_some[OF len Some assms(3)] run by fastforce
  qed
qed

subsection \<open>Witnesses\<close>

definition demo_sta :: sta_info where
  "demo_sta = \<lparr>sta_hnext = None, sta_vif = 0, sta_addr = [2, 0, 0, 0, 0, 7], sta_dead = False, sta_uploaded = True,
     sta_dummy = False, sta_flags = [2], last_seq_ctrl = replicate 17 0xFFFF, timer_to_tid = map of_nat [0..<16],
     ht_cap = 0, mlme_tid_rx = replicate 16 None, tid_rx_timer_expired = [0], tid_rx_stop_requested = [0],
     sta_enc = False, sta_wmm = False, sta_bgnMode = 0, sta_shortGI = False, sta_cipher = no_key, sta_aid = 0\<rparr>"

definition demo_mac :: mac_state where
  "demo_mac = \<lparr>sta_heap = (\<lambda>_. demo_sta), sta_hash = (\<lambda>_. None), sta_list = [], num_sta = 0, sta_freed = [],
     mac_timers = demo_timers, rcu_sessions = [], agg_works = [], mac_freed = []\<rparr>"

text \<open>An ADDBA request for TID 5 with a buffer of 64 frames, and the DELBA that ends it.\<close>

definition demo_addba :: bytes where
  "demo_addba = replicate 24 0 @ [3, 0, 9, 0x16, 0x10, 0, 0, 0x20, 1]"

definition demo_delba :: bytes where
  "demo_delba = replicate 24 0 @ [3, 2, 0, 0x58, 1, 0]"

definition demo_addba_alloc :: addba_alloc where
  "demo_addba_alloc = \<lparr>alloc_session = Some (100, 200), alloc_buf = True, alloc_time = True\<rparr>"

lemma demo_mac_ok: "sta_wf (sta_heap demo_mac 3)" "timer_inv (mac_timers demo_mac) Map.empty"
    "sta_blocked demo_mac 3 = False" "ht_cap (sta_heap demo_mac 3) = 0" "rcu_sessions demo_mac = []"
    "mac_freed demo_mac = []"
  using demo_timers_inv
  by (simp_all add: demo_mac_def demo_sta_def sta_wf_def sta_blocked_def bit_of_def bit_word_def)

lemma demo_addba_frame: "addba_frame demo_addba 9 0x1016 0 0x120"
  by (simp add: addba_frame_def demo_addba_def rd8_def rd16_def le16_def nth_append)

lemma demo_addba_check: "addba_check False 0 0x1016 = Addba_accept 64"
  by (simp add: addba_check_def addba_buf_size_def)

lemma demo_calm: "calm (\<lambda>_. (9, [])) Map.empty" by (simp add: calm_def)

lemma demo_alloc_ok': "alloc_session demo_addba_alloc = Some (100, 200)" "alloc_buf demo_addba_alloc"
    "alloc_time demo_addba_alloc" "(100 :: nat) \<noteq> 200" "100 \<notin> ran Map.empty" "200 \<notin> ran Map.empty"
  by (simp_all add: demo_addba_alloc_def)

lemma demo_check: "addba_check (sta_blocked demo_mac 3) (ht_cap (sta_heap demo_mac 3)) 0x1016 = Addba_accept 64"
  using demo_addba_check demo_mac_ok by simp

lemma demo_tid: "unat (addba_tid 0x1016) = 5" by (simp add: addba_tid_def)

theorem addba_request_opens_session_witness:
  "\<exists>s' a. ieee80211_process_addba_request demo_addba_alloc (\<lambda>_. (9, [])) (0, 0, 0) 3 demo_addba demo_mac = Some s' \<and>
     session_of s' 3 5 = Some a \<and> session_ok (agg_rx a)"
proof -
  obtain s' a where "ieee80211_process_addba_request demo_addba_alloc (\<lambda>_. (9, [])) (0, 0, 0) 3 demo_addba demo_mac = Some s'"
      "session_of s' 3 (unat (addba_tid 0x1016)) = Some a"
      "2 \<le> (64 :: u16) \<and> unat (64 :: u16) dvd 4096 \<longrightarrow> session_ok (agg_rx a) \<and> seq_inv (agg_rx a)"
    using addba_request_opens_session[OF demo_addba_frame demo_mac_ok(1,2) demo_alloc_ok' demo_calm demo_check,
        of "(0, 0, 0)"] by blast
  then show ?thesis unfolding demo_tid by auto
qed

theorem addba_request_refused_witness:
  "\<exists>s'. ieee80211_process_addba_request (demo_addba_alloc\<lparr>alloc_time := False\<rparr>) (\<lambda>_. (9, [])) (0, 0, 0) 3 demo_addba demo_mac
     = Some s' \<and> only_slot 3 5 None demo_mac s'"
  using addba_request_refused[OF demo_addba_frame demo_mac_ok(1,2), of "demo_addba_alloc\<lparr>alloc_time := False\<rparr>"
      "\<lambda>_. (9, [])" "(0, 0, 0)"]
  unfolding demo_check demo_tid by simp

theorem session_timers_never_call_witness:
  "\<exists>s'. ieee80211_process_addba_request demo_addba_alloc (\<lambda>_. (9, [])) (0, 0, 0) 3 demo_addba demo_mac = Some s' \<and>
     tm_calls (mac_timers s') = []"
proof -
  have "tm_calls (mac_timers demo_mac) = []" by (simp add: demo_mac_def demo_timers_def)
  moreover have "\<exists>s'. ieee80211_process_addba_request demo_addba_alloc (\<lambda>_. (9, [])) (0, 0, 0) 3 demo_addba demo_mac =
      Some s' \<and> tm_calls (mac_timers s') = tm_calls (mac_timers demo_mac)"
    using session_timers_never_call[OF demo_addba_frame demo_mac_ok(1,2) demo_alloc_ok' demo_calm demo_check, of 100
        "(0, 0, 0)"] by blast
  ultimately show ?thesis by simp
qed

text \<open>A station with a session for TID 5 whose session timer 20 runs.\<close>

definition demo_open_session :: rx_session where
  "demo_open_session = \<lparr>agg_rx = new_tid_rx 9 18 64 100, session_timer = 20, reorder_timer = 21\<rparr>"

definition open_mac :: "timer_sys \<Rightarrow> mac_state" where
  "open_mac t = (upd_sta 3 (\<lambda>x. x\<lparr>mlme_tid_rx := (mlme_tid_rx x)[5 := Some demo_open_session]\<rparr>) demo_mac)\<lparr>mac_timers := t\<rparr>"

theorem tear_down_ends_all_sessions_witness:
  "\<exists>t s'. timer_inv t [9 \<mapsto> 20] \<and> ieee80211_sta_tear_down_BA_sessions 3 True (open_mac t) = Some s' \<and>
     session_of s' 3 5 = None \<and> timer_inv (mac_timers s') Map.empty \<and> rcu_sessions s' = [demo_open_session]"
proof -
  obtain t1 where "timer_rep t1 [9 \<mapsto> 20]" "\<forall>h x. [9 \<mapsto> 20] h = Some x \<longrightarrow> bTimerStart (tm_heap t1 x) = 1" "cur_timeout_id t1 = -1"
    using mod_timer_start[of demo_timers Map.empty 100 100 150 "\<lambda>_. (9, [])" 9 "[]" 20] demo_timers_inv
    by (auto simp: mod_timer_delay_def without_def)
  then have t: "timer_inv (t1\<lparr>set_start_timer := 0\<rparr>) [9 \<mapsto> 20]" by (simp add: timer_inv_def)
  let ?s = "open_mac (t1\<lparr>set_start_timer := 0\<rparr>)"
  have o: "sta_wf (sta_heap ?s 3)" "timer_inv (mac_timers ?s) [9 \<mapsto> 20]" "rcu_sessions ?s = []"
    using demo_mac_ok(1,5) t by (simp_all add: open_mac_def upd_sta_def sta_wf_def)
  have "[0..<0 + 16] = [0,1,2,3,4,5,6,7,8,9,10,11,12,13,14,15 :: nat]" by code_simp
  then have a: "all_sessions ?s 3 0 16 = [demo_open_session]"
    by (simp only: all_sessions_def) (simp add: open_mac_def upd_sta_def demo_mac_def demo_sta_def)
  have w: "without_sessions [demo_open_session] [9 \<mapsto> 20] = Map.empty"
    by (auto simp: without_session_def without_def demo_open_session_def fun_eq_iff)
  show ?thesis using tear_down_ends_all_sessions[OF o(1,2), of True] t o(3) unfolding a w by fastforce
qed

theorem delba_ends_session_witness:
  "\<exists>s'. ieee80211_process_delba 3 demo_delba demo_mac = Some s' \<and> only_slot 3 5 None demo_mac s'"
proof -
  have "rd16 demo_delba DELBA_PARAMS = Some 0x5800"
    by (simp add: demo_delba_def rd8_def rd16_def le16_def nth_append)
  moreover have "bit (0x5800 :: u16) 11" "unat (drop_bit 12 (0x5800 :: u16)) = 5" by simp_all
  ultimately show ?thesis using delba_ends_session[of demo_delba "0x5800" demo_mac 3, OF _ demo_mac_ok(1,2)] by simp
qed

end
