(* ===== verification/Sta_Info.thy ===== *)
theory Sta_Info
  imports Agg_Props
begin

text \<open>The stations, hal_apollo/sta_info.c: the hash table over the last byte of the address with chains
  through hnext, the list of all stations, insertion, removal and flushing.

  The list sta_list holds the stations in its order; list_add puts one in front, list_del of one that
  is not in the list is undefined.  The memory of a new station is the argument mem of
  sta_info_alloc, None when the allocation fails.  Error codes are those of Linux.\<close>

abbreviation (input) ENOENT :: int where "ENOENT \<equiv> 2"
abbreviation (input) EEXIST :: int where "EEXIST \<equiv> 17"

definition STA_HASH :: "mac \<Rightarrow> nat" where
  "STA_HASH addr = unat (addr ! 5)"

abbreviation sta_next :: "mac_state \<Rightarrow> nat \<Rightarrow> nat option" where
  "sta_next s \<equiv> \<lambda>x. sta_hnext (sta_heap s x)"

abbreviation sta_key :: "mac_state \<Rightarrow> nat \<Rightarrow> nat \<times> mac" where
  "sta_key s \<equiv> \<lambda>x. (sta_vif (sta_heap s x), sta_addr (sta_heap s x))"

definition set_sta_hash :: "nat \<Rightarrow> nat option \<Rightarrow> mac_state \<Rightarrow> mac_state" where
  "set_sta_hash i p s = s\<lparr>sta_hash := (sta_hash s)(i := p)\<rparr>"

subsection \<open>The hash table\<close>

definition sta_info_hash_del :: "nat \<Rightarrow> mac_state \<Rightarrow> (int \<times> mac_state) option" where
  "sta_info_hash_del sta s =
     (let i = STA_HASH (sta_addr (sta_heap s sta)) in
      case sta_hash s i of
        None \<Rightarrow> Some (- ENOENT, s)
      | Some h \<Rightarrow>
          if h = sta then Some (0, set_sta_hash i (sta_hnext (sta_heap s h)) s)
          else do {
            q \<leftarrow> chain_pred (sta_next s) sta h;
            if sta_hnext (sta_heap s q) \<noteq> None
            then Some (0, upd_sta q (\<lambda>x. x\<lparr>sta_hnext := sta_hnext (sta_heap s sta)\<rparr>) s)
            else Some (- ENOENT, s) })"

definition sta_info_get :: "nat \<Rightarrow> mac \<Rightarrow> mac_state \<Rightarrow> nat option option" where
  "sta_info_get vif addr s =
     chain_find (\<lambda>x. sta_vif (sta_heap s x) = vif \<and> sta_addr (sta_heap s x) = addr)
       (sta_next s) (sta_hash s (STA_HASH addr))"

definition sta_info_get_rx :: "nat \<Rightarrow> mac \<Rightarrow> mac_state \<Rightarrow> nat option option" where
  "sta_info_get_rx vif addr s =
     chain_find (\<lambda>x. sta_vif (sta_heap s x) = vif \<and> sta_addr (sta_heap s x) = addr)
       (sta_next s) (sta_hash s (STA_HASH addr))"

definition sta_info_hash_add :: "nat \<Rightarrow> mac_state \<Rightarrow> mac_state" where
  "sta_info_hash_add sta s =
     (let i = STA_HASH (sta_addr (sta_heap s sta));
          s = upd_sta sta (\<lambda>x. x\<lparr>sta_hnext := sta_hash s i\<rparr>) s
      in set_sta_hash i (Some sta) s)"

subsection \<open>Allocation and insertion\<close>

definition sta_info_free :: "nat \<Rightarrow> mac_state \<Rightarrow> mac_state" where
  "sta_info_free sta s = s\<lparr>sta_freed := sta_freed s @ [sta]\<rparr>"

definition new_sta :: "nat \<Rightarrow> mac \<Rightarrow> sta_info" where
  "new_sta vif addr = \<lparr>sta_hnext = None, sta_vif = vif, sta_addr = addr, sta_dead = False, sta_uploaded = False,
     sta_dummy = False, sta_flags = [0], last_seq_ctrl = replicate NUM_RX_DATA_QUEUES 0xFFFF @ [0],
     timer_to_tid = map of_nat [0..<STA_TID_NUM], ht_cap = 0, mlme_tid_rx = replicate STA_TID_NUM None,
     tid_rx_timer_expired = [0], tid_rx_stop_requested = [0],
     sta_enc = False, sta_wmm = False, sta_bgnMode = 0, sta_shortGI = False, sta_cipher = no_key, sta_aid = 0\<rparr>"

definition sta_info_alloc :: "nat option \<Rightarrow> nat \<Rightarrow> mac \<Rightarrow> mac_state \<Rightarrow> nat option \<times> mac_state" where
  "sta_info_alloc mem vif addr s = (case mem of
      None \<Rightarrow> (None, s)
    | Some sta \<Rightarrow> (Some sta, upd_sta sta (\<lambda>_. new_sta vif addr) s))"

definition sta_info_finish_insert :: "nat \<Rightarrow> bool \<Rightarrow> bool \<Rightarrow> mac_state \<Rightarrow> int \<times> mac_state" where
  "sta_info_finish_insert sta async dummy_reinsert s =
     (let s = (if \<not> sta_dummy (sta_heap s sta) \<or> dummy_reinsert
               then upd_sta sta (\<lambda>x. x\<lparr>sta_uploaded := True\<rparr>) s else s) in
      if \<not> dummy_reinsert then
        (let s = (if \<not> async then sta_info_hash_add sta (s\<lparr>num_sta := num_sta s + 1\<rparr>) else s)
         in (0, s\<lparr>sta_list := sta # sta_list s\<rparr>))
      else (0, upd_sta sta (\<lambda>x. x\<lparr>sta_dummy := False\<rparr>) s))"

definition sta_info_insert_non_ibss :: "nat \<Rightarrow> mac_state \<Rightarrow> (int \<times> mac_state) option" where
  "sta_info_insert_non_ibss sta s = do {
     exist_sta \<leftarrow> sta_info_get (sta_vif (sta_heap s sta)) (sta_addr (sta_heap s sta)) s;
     case exist_sta of
       None \<Rightarrow> Some (sta_info_finish_insert sta False False s)
     | Some e \<Rightarrow>
         if e = sta \<and> sta_dummy (sta_heap s sta) then Some (sta_info_finish_insert sta False True s)
         else Some (- EEXIST, s) }"

definition sta_info_insert_rcu :: "nat \<Rightarrow> mac_state \<Rightarrow> (int \<times> mac_state) option" where
  "sta_info_insert_rcu sta s = do {
     (err, s) \<leftarrow> sta_info_insert_non_ibss sta s;
     if err \<noteq> 0 then Some (err, sta_info_free sta s) else Some (0, s) }"

definition sta_info_insert :: "nat \<Rightarrow> mac_state \<Rightarrow> (int \<times> mac_state) option" where
  "sta_info_insert sta s = sta_info_insert_rcu sta s"

definition sta_info_reinsert :: "nat \<Rightarrow> mac_state \<Rightarrow> (int \<times> mac_state) option" where
  "sta_info_reinsert sta s = sta_info_insert_non_ibss sta s"

subsection \<open>Removal\<close>

definition sta_list_del :: "nat \<Rightarrow> mac_state \<Rightarrow> mac_state option" where
  "sta_list_del sta s = do {
     guard (sta \<in> set (sta_list s));
     Some (s\<lparr>sta_list := remove1 sta (sta_list s)\<rparr>) }"

definition sta_info_destroy :: "nat option \<Rightarrow> mac_state \<Rightarrow> (int \<times> mac_state) option" where
  "sta_info_destroy p s = (case p of
      None \<Rightarrow> Some (- ENOENT, s)
    | Some sta \<Rightarrow> do {
        s \<leftarrow> set_sta_flag sta WLAN_STA_BLOCK_BA s;
        s \<leftarrow> ieee80211_sta_tear_down_BA_sessions sta True s;
        (ret, s) \<leftarrow> sta_info_hash_del sta s;
        s \<leftarrow> (if ret = 0 then sta_list_del sta s else Some s);
        if ret \<noteq> 0 then Some (ret, s)
        else do {
          let s = upd_sta sta (\<lambda>x. x\<lparr>sta_dead := True\<rparr>) s;
          let s = s\<lparr>num_sta := num_sta s - 1\<rparr>;
          Some (0, sta_info_free sta s) } })"

definition sta_info_destroy_addr :: "nat \<Rightarrow> mac \<Rightarrow> mac_state \<Rightarrow> (int \<times> mac_state) option" where
  "sta_info_destroy_addr vif addr s = do {
     sta \<leftarrow> sta_info_get_rx vif addr s;
     sta_info_destroy sta s }"

definition sta_info_init :: "mac_state \<Rightarrow> mac_state" where
  "sta_info_init s = s\<lparr>sta_list := []\<rparr>"

text \<open>list_for_each_entry_safe: the successor is read before the body runs, and the body removes at most
  the current entry, so the loop visits the entries that were in the list when it began.\<close>

fun flush_loop :: "nat option \<Rightarrow> nat list \<Rightarrow> mac_state \<Rightarrow> mac_state option" where
  "flush_loop vif [] s = Some s"
| "flush_loop vif (sta # rest) s =
     (if vif = None \<or> vif = Some (sta_vif (sta_heap s sta))
      then do { (_, s) \<leftarrow> sta_info_destroy (Some sta) s; flush_loop vif rest s }
      else flush_loop vif rest s)"

definition sta_info_flush :: "nat option \<Rightarrow> mac_state \<Rightarrow> (int \<times> mac_state) option" where
  "sta_info_flush vif s = do {
     s \<leftarrow> flush_loop vif (sta_list s) s;
     Some (0, s) }"

definition sta_info_stop :: "mac_state \<Rightarrow> mac_state option" where
  "sta_info_stop s = do { (_, s) \<leftarrow> sta_info_flush None s; Some s }"

end
