(* ===== verification/Sta_Props.thy ===== *)
theory Sta_Props
  imports Sta_Info
begin

text \<open>The stations are a map from interface and address to the station object, and inserting, removing
  and flushing keep the table, the list and the counter in step.\<close>

definition sta_rep :: "mac_state \<Rightarrow> (nat \<times> mac \<Rightarrow> nat option) \<Rightarrow> bool" where
  "sta_rep s m = table_rep (\<lambda>k. STA_HASH (snd k)) (sta_key s) (sta_next s) (sta_hash s) m"

definition sta_links_only :: "mac_state \<Rightarrow> mac_state \<Rightarrow> bool" where
  "sta_links_only s s' \<longleftrightarrow>
     (\<forall>x. (sta_heap s' x)\<lparr>sta_hnext := None\<rparr> = (sta_heap s x)\<lparr>sta_hnext := None\<rparr>) \<and>
     s'\<lparr>sta_heap := sta_heap s, sta_hash := sta_hash s\<rparr> = s"

lemma sta_links_onlyD:
  assumes "sta_links_only s s'"
  shows "sta_vif (sta_heap s' x) = sta_vif (sta_heap s x)" "sta_addr (sta_heap s' x) = sta_addr (sta_heap s x)"
    "sta_wf (sta_heap s' x) = sta_wf (sta_heap s x)" "mlme_tid_rx (sta_heap s' x) = mlme_tid_rx (sta_heap s x)"
    "sta_list s' = sta_list s" "num_sta s' = num_sta s" "sta_freed s' = sta_freed s" "mac_timers s' = mac_timers s"
proof -
  have "(sta_heap s' x)\<lparr>sta_hnext := None\<rparr> = (sta_heap s x)\<lparr>sta_hnext := None\<rparr>" using assms by (simp add: sta_links_only_def)
  then show "sta_vif (sta_heap s' x) = sta_vif (sta_heap s x)" "sta_addr (sta_heap s' x) = sta_addr (sta_heap s x)"
    "sta_wf (sta_heap s' x) = sta_wf (sta_heap s x)" "mlme_tid_rx (sta_heap s' x) = mlme_tid_rx (sta_heap s x)"
    by (cases "sta_heap s' x"; cases "sta_heap s x"; simp add: sta_wf_def)+
  have "s'\<lparr>sta_heap := sta_heap s, sta_hash := sta_hash s\<rparr> = s" using assms by (simp add: sta_links_only_def)
  then show "sta_list s' = sta_list s" "num_sta s' = num_sta s" "sta_freed s' = sta_freed s" "mac_timers s' = mac_timers s"
    by (cases s'; cases s; simp)+
qed

lemma sta_get_rep: "sta_rep s m \<Longrightarrow> sta_info_get v a s = Some (m (v, a))"
  using table_find[of "\<lambda>k. STA_HASH (snd k)" "sta_key s" "sta_next s" "sta_hash s" m
      "\<lambda>x. sta_vif (sta_heap s x) = v \<and> sta_addr (sta_heap s x) = a" "(v, a)"]
  by (simp add: sta_rep_def sta_info_get_def)

lemma sta_get_rx_same: "sta_info_get_rx = sta_info_get"
  by (simp add: sta_info_get_rx_def sta_info_get_def fun_eq_iff)

lemma sta_add_rep:
  assumes "sta_rep s m" "m (sta_key s x) = None"
  shows "sta_rep (sta_info_hash_add x s) (m(sta_key s x \<mapsto> x))" "sta_links_only s (sta_info_hash_add x s)"
proof -
  let ?s = "sta_info_hash_add x s" and ?i = "STA_HASH (sta_addr (sta_heap s x))"
  have "sta_key ?s = sta_key s" "sta_next ?s = (sta_next s)(x := sta_hash s ?i)"
    "sta_hash ?s = (sta_hash s)(?i := Some x)"
    by (auto simp: sta_info_hash_add_def upd_sta_def set_sta_hash_def Let_def fun_eq_iff)
  then show "sta_rep ?s (m(sta_key s x \<mapsto> x))"
    using table_add[OF assms(1)[unfolded sta_rep_def] assms(2)] by (simp only: sta_rep_def snd_conv)
  show "sta_links_only s ?s"
    by (auto simp: sta_info_hash_add_def upd_sta_def set_sta_hash_def sta_links_only_def Let_def)
qed

lemma hash_del_chain:
  assumes "chain_del (sta_next s) (sta_hash s (STA_HASH (sta_addr (sta_heap s x)))) x = Some (found, p', nx')"
  shows "\<exists>s'. sta_info_hash_del x s = Some (if found then 0 else - ENOENT, s') \<and> sta_links_only s s' \<and> sta_next s' = nx' \<and>
     sta_hash s' = (sta_hash s)(STA_HASH (sta_addr (sta_heap s x)) := p')"
proof -
  let ?i = "STA_HASH (sta_addr (sta_heap s x))"
  note defs = sta_info_hash_del_def Let_def set_sta_hash_def upd_sta_def sta_links_only_def
  show ?thesis
  proof (cases "sta_hash s ?i")
    case None
    then show ?thesis using assms by (intro exI[of _ s]) (auto simp: chain_del_def defs fun_eq_iff)
  next
    case (Some h)
    show ?thesis
    proof (cases "h = x")
      case True
      then show ?thesis using assms Some
        by (intro exI[of _ "set_sta_hash ?i (sta_next s x) s"]) (auto simp: chain_del_def defs fun_eq_iff)
    next
      case False
      then obtain q where q: "chain_pred (sta_next s) x h = Some q"
        using assms Some by (cases "chain_pred (sta_next s) x h") (simp_all add: chain_del_def)
      show ?thesis
      proof (cases "sta_next s q")
        case None
        then have "found = False" "p' = Some h" "nx' = sta_next s"
          using assms Some False q by (simp_all add: chain_del_def)
        then show ?thesis using None Some False q by (intro exI[of _ s]) (auto simp: defs fun_eq_iff)
      next
        case (Some y)
        then have "found = True" "p' = Some h" "nx' = (sta_next s)(q := sta_next s x)"
          using assms \<open>sta_hash s ?i = Some h\<close> False q by (simp_all add: chain_del_def)
        then show ?thesis using Some \<open>sta_hash s ?i = Some h\<close> False q
          by (intro exI[of _ "upd_sta q (\<lambda>y. y\<lparr>sta_hnext := sta_next s x\<rparr>) s"]) (auto simp: defs fun_eq_iff)
      qed
    qed
  qed
qed

lemma sta_del_rep:
  assumes "sta_rep s m"
  shows "\<exists>s'. sta_info_hash_del x s = Some (if m (sta_key s x) = Some x then 0 else - ENOENT, s') \<and> sta_links_only s s' \<and>
     sta_rep s' (if m (sta_key s x) = Some x then m(sta_key s x := None) else m)"
proof -
  let ?p = "sta_hash s (STA_HASH (sta_addr (sta_heap s x)))"
  obtain L where "chain (sta_next s) ?p L"
    using assms unfolding sta_rep_def table_rep_def by blast
  from chain_del_ok[OF this, of x] obtain found p' nx' where
    d: "chain_del (sta_next s) ?p x = Some (found, p', nx')" by blast
  then have d': "chain_del (sta_next s) (sta_hash s (STA_HASH (snd (sta_key s x)))) x = Some (found, p', nx')" by simp
  obtain s' where s': "sta_info_hash_del x s = Some (if found then 0 else - ENOENT, s')" "sta_links_only s s'"
      "sta_next s' = nx'" "sta_hash s' = (sta_hash s)(STA_HASH (sta_addr (sta_heap s x)) := p')"
    using hash_del_chain[OF d] by blast
  have k: "sta_key s' = sta_key s" using sta_links_onlyD(1,2)[OF s'(2)] by auto
  have f: "found \<longleftrightarrow> m (sta_key s x) = Some x"
    by (rule table_del(1)[OF assms[unfolded sta_rep_def] d'])
  have "sta_rep s' (if found then m(sta_key s x := None) else m)"
    using table_del(2)[OF assms[unfolded sta_rep_def] d', of "nx' x"] unfolding sta_rep_def k s'(3,4) by simp
  then show ?thesis using s'(1,2) f by simp
qed

interpretation stations: keyed_table sta_rep sta_key "\<lambda>(v, a) s. sta_info_get v a s"
  "\<lambda>x s. Some (sta_info_hash_add x s)" "\<lambda>x s. map_option snd (sta_info_hash_del x s)"
proof
  show "(case k of (v, a) \<Rightarrow> \<lambda>s. sta_info_get v a s) s = Some (m k)" if "sta_rep s m" for s m k
    using sta_get_rep[OF that] by (cases k) simp
  show "\<exists>s'. Some (sta_info_hash_add x s) = Some s' \<and> sta_rep s' (m(sta_key s x \<mapsto> x)) \<and> sta_key s' = sta_key s"
    if "sta_rep s m" "m (sta_key s x) = None" for s m x
    using sta_add_rep[OF that] sta_links_onlyD(1,2) by auto
  show "\<exists>s'. map_option snd (sta_info_hash_del x s) = Some s' \<and>
      sta_rep s' (if m (sta_key s x) = Some x then m(sta_key s x := None) else m) \<and> sta_key s' = sta_key s"
    if r: "sta_rep s m" for s m x
  proof -
    obtain s' where s': "sta_info_hash_del x s = Some (if m (sta_key s x) = Some x then 0 else - ENOENT, s')"
        "sta_links_only s s'" "sta_rep s' (if m (sta_key s x) = Some x then m(sta_key s x := None) else m)"
      using sta_del_rep[OF r, of x] by blast
    have "sta_key s' = sta_key s" using sta_links_onlyD(1,2)[OF s'(2)] by auto
    then show ?thesis using s' by simp
  qed
qed

subsection \<open>The state of the stations\<close>

definition mac_ok :: "mac_state \<Rightarrow> (nat \<times> mac \<Rightarrow> nat option) \<Rightarrow> bool" where
  "mac_ok s m \<longleftrightarrow> sta_rep s m \<and> distinct (sta_list s) \<and> set (sta_list s) = ran m \<and>
     num_sta s = of_nat (length (sta_list s)) \<and> (\<forall>x\<in>ran m. sta_wf (sta_heap s x)) \<and> (\<exists>tm. timer_inv (mac_timers s) tm)"

lemma sta_rep_key: "sta_rep s m \<Longrightarrow> m k = Some x \<Longrightarrow> sta_key s x = k"
  unfolding sta_rep_def table_rep_def using buckets_key by fast

lemma sta_rep_cong:
  assumes "\<And>x. sta_vif (sta_heap s' x) = sta_vif (sta_heap s x)" "\<And>x. sta_addr (sta_heap s' x) = sta_addr (sta_heap s x)"
    "\<And>x. sta_hnext (sta_heap s' x) = sta_hnext (sta_heap s x)" "sta_hash s' = sta_hash s"
  shows "sta_rep s' m = sta_rep s m"
  by (simp add: sta_rep_def assms)

lemma ran_del:
  assumes "sta_rep s m" "m (sta_key s x) = Some x"
  shows "ran (m(sta_key s x := None)) = ran m - {x}"
proof -
  have "k = sta_key s x" if "m k = Some x" for k using sta_rep_key[OF assms(1) that] by simp
  then have "y \<in> ran (m(sta_key s x := None)) \<longleftrightarrow> y \<in> ran m - {x}" for y
    using assms(2) unfolding ran_def mem_Collect_eq Diff_iff singleton_iff
    by (metis fun_upd_apply option.distinct(1) option.inject)
  then show ?thesis by blast
qed

lemma ran_add: "m k = None \<Longrightarrow> ran (m(k \<mapsto> x)) = insert x (ran m)"
  by (rule ran_map_upd)

text \<open>Insertion.  Nothing but the chains, the list, the counter and the flag uploaded changes.\<close>

lemma insert_new_ok:
  assumes ok: "mac_ok s m" and k: "m (sta_key s x) = None" and wf: "sta_wf (sta_heap s x)" and new: "x \<notin> ran m"
  shows "\<exists>s'. sta_info_insert x s = Some (0, s') \<and> mac_ok s' (m(sta_key s x \<mapsto> x)) \<and> sta_list s' = x # sta_list s \<and>
    sta_freed s' = sta_freed s \<and> sta_key s' = sta_key s"
proof -
  have r: "sta_rep s m" using ok by (simp add: mac_ok_def)
  define s0 where "s0 = (if \<not> sta_dummy (sta_heap s x) then upd_sta x (\<lambda>x. x\<lparr>sta_uploaded := True\<rparr>) s else s)
    \<lparr>num_sta := num_sta s + 1\<rparr>"
  have key: "sta_key s0 = sta_key s" by (auto simp: s0_def upd_sta_def)
  have r0: "sta_rep s0 m" using r by (subst sta_rep_cong[of s0 s]) (auto simp: s0_def upd_sta_def)
  have wf0: "sta_wf (sta_heap s0 y) = sta_wf (sta_heap s y)" for y by (simp add: s0_def upd_sta_def sta_wf_def)
  have m0: "m (sta_key s0 x) = None" using k fun_cong[OF key, of x] by simp
  note a = sta_add_rep[OF r0 m0]
  let ?s1 = "sta_info_hash_add x s0"
  let ?s' = "?s1\<lparr>sta_list := x # sta_list s\<rparr>"
  have get: "sta_info_get (sta_vif (sta_heap s x)) (sta_addr (sta_heap s x)) s = Some None"
    using stations.get_rep[OF r, of "sta_key s x"] k by simp
  have "sta_info_finish_insert x False False s = (0, ?s')"
    using sta_links_onlyD(5)[OF a(2)] unfolding s0_def
    by (cases "sta_dummy (sta_heap s x)") (simp_all add: sta_info_finish_insert_def Let_def)
  then have run: "sta_info_insert x s = Some (0, ?s')"
    using get by (simp add: sta_info_insert_def sta_info_insert_rcu_def sta_info_insert_non_ibss_def)
  have d: "sta_list s0 = sta_list s" "num_sta s0 = num_sta s + 1" "sta_freed s0 = sta_freed s"
      "mac_timers s0 = mac_timers s" by (simp_all add: s0_def)
  have "sta_rep ?s' (m(sta_key s x \<mapsto> x))" using a(1) fun_cong[OF key, of x] by (subst sta_rep_cong[of _ ?s1]) simp_all
  moreover have "ran (m(sta_key s x \<mapsto> x)) = insert x (ran m)" using k by (rule ran_add)
  moreover have "sta_key ?s' = sta_key s" using key sta_links_onlyD(1,2)[OF a(2)] by (auto simp: fun_eq_iff)
  ultimately show ?thesis
    using run ok d wf0 wf new sta_links_onlyD[OF a(2)] by (intro exI[of _ ?s']) (auto simp: mac_ok_def)
qed

text \<open>Removal.\<close>

lemma sessions_only_sta:
  assumes "sessions_only x s s'"
  shows "sta_vif (sta_heap s' y) = sta_vif (sta_heap s y)" "sta_addr (sta_heap s' y) = sta_addr (sta_heap s y)"
    "sta_hnext (sta_heap s' y) = sta_hnext (sta_heap s y)" "sta_wf (sta_heap s' y) = sta_wf (sta_heap s y)"
    "sta_hash s' = sta_hash s" "sta_list s' = sta_list s" "num_sta s' = num_sta s" "sta_freed s' = sta_freed s"
proof -
  obtain xs where "length xs = length (mlme_tid_rx (sta_heap s x))"
    "sta_heap s' = (sta_heap s)(x := (sta_heap s x)\<lparr>mlme_tid_rx := xs\<rparr>)"
    using assms unfolding sessions_only_def by blast
  then show "sta_vif (sta_heap s' y) = sta_vif (sta_heap s y)" "sta_addr (sta_heap s' y) = sta_addr (sta_heap s y)"
    "sta_hnext (sta_heap s' y) = sta_hnext (sta_heap s y)" "sta_wf (sta_heap s' y) = sta_wf (sta_heap s y)"
    by (simp_all add: sta_wf_def)
  have "s'\<lparr>sta_heap := sta_heap s, mac_timers := mac_timers s, rcu_sessions := rcu_sessions s\<rparr> = s"
    using assms by (simp add: sessions_only_def)
  then show "sta_hash s' = sta_hash s" "sta_list s' = sta_list s" "num_sta s' = num_sta s" "sta_freed s' = sta_freed s"
    by (cases s'; cases s; simp)+
qed

lemma destroy_ok:
  assumes ok: "mac_ok s m" and k: "m (sta_key s x) = Some x"
  shows "\<exists>s'. sta_info_destroy (Some x) s = Some (0, s') \<and> mac_ok s' (m(sta_key s x := None)) \<and>
    sta_list s' = remove1 x (sta_list s) \<and> sta_freed s' = sta_freed s @ [x] \<and> sta_key s' = sta_key s \<and>
    sta_dead (sta_heap s' x) \<and> (\<forall>tid < 16. session_of s' x tid = None)"
proof -
  have r: "sta_rep s m" and x: "x \<in> ran m" using ok k by (auto simp: mac_ok_def ran_def)
  then have wf: "sta_wf (sta_heap s x)" and inl: "x \<in> set (sta_list s)" using ok by (auto simp: mac_ok_def)
  obtain tm where inv: "timer_inv (mac_timers s) tm" using ok by (auto simp: mac_ok_def)
  obtain w where w: "set_bit_at WLAN_STA_BLOCK_BA (sta_flags (sta_heap s x)) = Some w" "length w = 1"
  proof -
    have "bit_word WLAN_STA_BLOCK_BA < length (sta_flags (sta_heap s x))" "length (sta_flags (sta_heap s x)) = 1"
      using wf by (simp_all add: sta_wf_def bit_word_def)
    from set_bit_ok[OF this(1)] this(2) show thesis by (auto intro: that)
  qed
  define s1 where "s1 = upd_sta x (\<lambda>y. y\<lparr>sta_flags := w\<rparr>) s"
  have f: "set_sta_flag x WLAN_STA_BLOCK_BA s = Some s1" using w by (simp add: set_sta_flag_def s1_def)
  have wf1: "sta_wf (sta_heap s1 y) = sta_wf (sta_heap s y)" for y
    using w(2) wf by (simp add: s1_def upd_sta_def sta_wf_def)
  obtain s2 m2 where s2: "ieee80211_sta_tear_down_BA_sessions x True s1 = Some s2" "sessions_only x s1 s2"
      "\<forall>tid < 16. session_of s2 x tid = None" "timer_inv (mac_timers s2) m2"
  proof -
    have "sta_wf (sta_heap s1 x)" "timer_inv (mac_timers s1) tm" by (simp add: wf1 wf, simp add: s1_def inv)
    from tear_down_ok[OF this, of True] show thesis using that by blast
  qed
  note so = sessions_only_sta[OF s2(2)]
  have key2: "sta_key s2 = sta_key s" using so(1,2) by (auto simp: s1_def)
  have r2: "sta_rep s2 m" using r so by (subst sta_rep_cong[of _ s]) (auto simp: s1_def)
  have k2: "m (sta_key s2 x) = Some x" using k fun_cong[OF key2, of x] by simp
  obtain s3 where s3: "sta_info_hash_del x s2 = Some (0, s3)" "sta_links_only s2 s3" "sta_rep s3 (m(sta_key s x := None))"
    using sta_del_rep[OF r2, of x] k2 fun_cong[OF key2, of x] by auto
  note ln = sta_links_onlyD[OF s3(2)]
  have same: "sta_list s3 = sta_list s" "num_sta s3 = num_sta s" "sta_freed s3 = sta_freed s"
    using ln(5-7) so(6-8) by (simp_all add: s1_def)
  let ?s' = "sta_info_free x (upd_sta x (\<lambda>y. y\<lparr>sta_dead := True\<rparr>) (s3\<lparr>sta_list := remove1 x (sta_list s)\<rparr>)
      \<lparr>num_sta := num_sta s - 1\<rparr>)"
  have run: "sta_info_destroy (Some x) s = Some (0, ?s')"
    using f s2(1) s3(1) inl same by (simp add: sta_info_destroy_def sta_list_del_def sta_info_free_def)
  have "sta_rep ?s' (m(sta_key s x := None))"
    using s3(3) by (subst sta_rep_cong[of _ s3]) (auto simp: sta_info_free_def)
  moreover have "sta_key ?s' = sta_key s" using key2 ln(1,2) by (auto simp: sta_info_free_def fun_eq_iff)
  moreover have "ran (m(sta_key s x := None)) = ran m - {x}" by (rule ran_del[OF r k])
  moreover have "sta_wf (sta_heap ?s' y)" if "y \<in> ran m" for y
    using that ok ln(3) so(4) wf1 by (auto simp: mac_ok_def sta_info_free_def sta_wf_def)
  moreover have "num_sta ?s' = of_nat (length (remove1 x (sta_list s)))"
  proof -
    obtain n where "length (sta_list s) = Suc n" using inl by (cases "sta_list s") auto
    then show ?thesis using ok inl by (simp add: mac_ok_def sta_info_free_def length_remove1)
  qed
  moreover have "timer_inv (mac_timers ?s') m2" using ln(8) s2(4) by (simp add: sta_info_free_def)
  moreover have l: "sta_list ?s' = remove1 x (sta_list s)" by (simp add: sta_info_free_def)
  moreover have "distinct (remove1 x (sta_list s))" "set (remove1 x (sta_list s)) = ran m - {x}"
    using ok by (auto simp: mac_ok_def set_remove1_eq)
  ultimately have "mac_ok ?s' (m(sta_key s x := None))"
    unfolding mac_ok_def l by blast
  moreover have "sta_freed ?s' = sta_freed s @ [x]" "sta_dead (sta_heap ?s' x)" using same(3) by (simp_all add: sta_info_free_def)
  moreover have "\<forall>tid < 16. session_of ?s' x tid = None" using s2(3) ln(4) by (simp add: sta_info_free_def)
  ultimately show ?thesis using run l \<open>sta_key ?s' = sta_key s\<close> by blast
qed

definition drop_hits ::
    "nat option \<Rightarrow> nat set \<Rightarrow> (nat \<times> mac \<Rightarrow> nat option) \<Rightarrow> nat \<times> mac \<Rightarrow> nat option" where
  "drop_hits v S m = (\<lambda>k. if (\<exists>x\<in>S. m k = Some x \<and> (v = None \<or> v = Some (fst k))) then None else m k)"

lemma flush_loop_ok:
  assumes "mac_ok s m" "distinct rest" "set rest \<subseteq> set (sta_list s)"
  shows "\<exists>s'. flush_loop v rest s = Some s' \<and>
    mac_ok s' (drop_hits v (set rest) m) \<and>
    sta_list s' = filter (\<lambda>x. \<not> (x \<in> set rest \<and> (v = None \<or> v = Some (sta_vif (sta_heap s x))))) (sta_list s) \<and>
    sta_freed s' = sta_freed s @ filter (\<lambda>x. v = None \<or> v = Some (sta_vif (sta_heap s x))) rest \<and> sta_key s' = sta_key s"
  using assms
proof (induction rest arbitrary: s m)
  case (Cons x rest)
  let ?hit = "v = None \<or> v = Some (sta_vif (sta_heap s x))"
  have r: "sta_rep s m" and xr: "x \<in> ran m" and dl: "distinct (sta_list s)"
    using Cons.prems by (auto simp: mac_ok_def)
  then have k: "m (sta_key s x) = Some x" using sta_rep_key[OF r, of _ x] by (auto simp: ran_def)
  have only: "k' = sta_key s x" if "m k' = Some x" for k' using sta_rep_key[OF r that] by simp
  show ?case
  proof (cases ?hit)
    case False
    have e: "drop_hits v (set rest) m = drop_hits v (set (x # rest)) m"
    proof
      fix k'
      have "\<not> (m k' = Some x \<and> (v = None \<or> v = Some (fst k')))" using False only[of k'] by auto
      then show "drop_hits v (set rest) m k' = drop_hits v (set (x # rest)) m k'"
        unfolding drop_hits_def by (intro if_cong refl) auto
    qed
    show ?thesis using Cons.IH[OF Cons.prems(1)] Cons.prems(2,3) False
      by (subst e[symmetric]) (auto simp del: de_Morgan_disj intro!: filter_cong)
  next
    case True
    obtain s1 where s1: "sta_info_destroy (Some x) s = Some (0, s1)" "mac_ok s1 (m(sta_key s x := None))"
        "sta_list s1 = remove1 x (sta_list s)" "sta_freed s1 = sta_freed s @ [x]" "sta_key s1 = sta_key s"
      using destroy_ok[OF Cons.prems(1) k] by blast
    have vif: "sta_vif (sta_heap s1 y) = sta_vif (sta_heap s y)" for y using fun_cong[OF s1(5), of y] by simp
    have addr: "sta_addr (sta_heap s1 y) = sta_addr (sta_heap s y)" for y using fun_cong[OF s1(5), of y] by simp
    have e: "drop_hits v (set rest) (m(sta_key s x := None)) = drop_hits v (set (x # rest)) m"
    proof
      fix k'
      show "drop_hits v (set rest) (m(sta_key s x := None)) k' = drop_hits v (set (x # rest)) m k'"
      proof (cases "k' = sta_key s x")
        case True
        then show ?thesis using \<open>?hit\<close> k by (simp add: drop_hits_def)
      next
        case False
        then have "m k' \<noteq> Some x" using only by blast
        then show ?thesis using False by (simp add: drop_hits_def)
      qed
    qed
    have d: "distinct rest" using Cons.prems(2) by simp
    have sub: "set rest \<subseteq> set (sta_list s1)" using Cons.prems(2,3) dl s1(3) by (auto simp: set_remove1_eq)
    have ih: "\<exists>s'. flush_loop v rest s1 = Some s' \<and>
        mac_ok s' (drop_hits v (set (x # rest)) m) \<and>
        sta_list s' = filter (\<lambda>y. \<not> (y \<in> set rest \<and> (v = None \<or> v = Some (sta_vif (sta_heap s y))))) (sta_list s1) \<and>
        sta_freed s' = sta_freed s1 @ filter (\<lambda>y. v = None \<or> v = Some (sta_vif (sta_heap s y))) rest \<and>
        sta_key s' = sta_key s"
      by (rule Cons.IH[OF s1(2) d sub, unfolded vif addr e])
    then obtain s' where s': "flush_loop v rest s1 = Some s'"
        "mac_ok s' (drop_hits v (set (x # rest)) m)"
        "sta_list s' = filter (\<lambda>y. \<not> (y \<in> set rest \<and> (v = None \<or> v = Some (sta_vif (sta_heap s y))))) (sta_list s1)"
        "sta_freed s' = sta_freed s1 @ filter (\<lambda>y. v = None \<or> v = Some (sta_vif (sta_heap s y))) rest"
        "sta_key s' = sta_key s"
      by (elim exE conjE)
    have "sta_list s' = filter (\<lambda>y. \<not> (y \<in> set (x # rest) \<and> (v = None \<or> v = Some (sta_vif (sta_heap s y))))) (sta_list s)"
      using True dl unfolding s'(3) s1(3) by (auto simp: distinct_remove1_removeAll removeAll_filter_not_eq intro!: filter_cong)
    then show ?thesis using s1(1,4,5) s' True by auto
  qed
qed (simp add: drop_hits_def)

subsection \<open>Properties\<close>

lemma alloc_ok:
  assumes ok: "mac_ok s m" and p: "p \<notin> ran m" and a: "sta_info_alloc (Some p) v a s = (Some p, s1)"
  shows "mac_ok s1 m" "sta_key s1 p = (v, a)" "sta_wf (sta_heap s1 p)" "sta_list s1 = sta_list s"
    "num_sta s1 = num_sta s" "sta_freed s1 = sta_freed s"
proof -
  have s1: "s1 = upd_sta p (\<lambda>_. new_sta v a) s" using a by (simp add: sta_info_alloc_def)
  have "sta_rep s1 m"
    unfolding sta_rep_def
    by (rule table_cong[of _ "sta_key s" "sta_next s" _ _ p]) (use ok p in \<open>auto simp: s1 mac_ok_def sta_rep_def\<close>)
  then show "mac_ok s1 m" using ok p by (auto simp: mac_ok_def s1)
  show "sta_key s1 p = (v, a)" "sta_wf (sta_heap s1 p)" "sta_list s1 = sta_list s"
    "num_sta s1 = num_sta s" "sta_freed s1 = sta_freed s"
    by (simp_all add: s1 new_sta_def sta_wf_def)
qed

text \<open>C11. The life of a station: it is allocated for an interface and an address that no station has, inserted,
  found by every look-up under its address, and destroyed by its address.  Afterwards it is out of
  the table, its memory is freed once, and the table, the list and the counter are as before.\<close>
theorem station_lifecycle:
  assumes ok: "mac_ok s m" and p: "p \<notin> ran m" and new: "m (v, a) = None"
    and al: "sta_info_alloc (Some p) v a s = (Some p, s1)"
  shows "\<exists>s2 s3. sta_info_insert p s1 = Some (0, s2) \<and> mac_ok s2 (m((v, a) \<mapsto> p)) \<and>
    (\<forall>v' a'. sta_info_get v' a' s2 = Some (if (v', a') = (v, a) then Some p else m (v', a'))) \<and>
    sta_info_destroy_addr v a s2 = Some (0, s3) \<and> mac_ok s3 m \<and> sta_info_get v a s3 = Some None \<and>
    sta_freed s3 = sta_freed s @ [p] \<and> sta_list s3 = sta_list s \<and> num_sta s3 = num_sta s"
proof -
  note a = alloc_ok[OF ok p al]
  have k1: "m (sta_key s1 p) = None" unfolding a(2) by (rule new)
  obtain s2 where s2: "sta_info_insert p s1 = Some (0, s2)" "mac_ok s2 (m((v, a) \<mapsto> p))" "sta_list s2 = p # sta_list s1"
      "sta_freed s2 = sta_freed s1" "sta_key s2 = sta_key s1"
    using insert_new_ok[OF a(1) k1 a(3) p] unfolding a(2) by blast
  have r2: "sta_rep s2 (m((v, a) \<mapsto> p))" using s2(2) by (simp add: mac_ok_def)
  have get: "sta_info_get v' a' s2 = Some ((m((v, a) \<mapsto> p)) (v', a'))" for v' a' by (rule sta_get_rep[OF r2])
  have kp: "sta_key s2 p = (v, a)" using fun_cong[OF s2(5), of p] a(2) by simp
  have k2: "(m((v, a) \<mapsto> p)) (sta_key s2 p) = Some p" unfolding kp by simp
  obtain s3 where s3: "sta_info_destroy (Some p) s2 = Some (0, s3)" "mac_ok s3 (m((v, a) \<mapsto> p, (v, a) := None))"
      "sta_list s3 = remove1 p (sta_list s2)" "sta_freed s3 = sta_freed s2 @ [p]"
    using destroy_ok[OF s2(2) k2] unfolding kp by blast
  have m: "m((v, a) \<mapsto> p, (v, a) := None) = m" using new by auto
  have ok3: "mac_ok s3 m" using s3(2) unfolding m .
  have "sta_rep s3 m" using ok3 by (simp add: mac_ok_def)
  then have g3: "sta_info_get v a s3 = Some None" using sta_get_rep new by metis
  have l3: "sta_list s3 = sta_list s" using s3(3) s2(3) a(4) by simp
  have "num_sta s3 = num_sta s" using ok ok3 l3 by (simp add: mac_ok_def)
  moreover have "sta_info_destroy_addr v a s2 = Some (0, s3)"
    using get s3(1) by (simp add: sta_info_destroy_addr_def sta_get_rx_same)
  ultimately show ?thesis using s2(1,2,4) get ok3 g3 l3 s3(4) a(6) by (intro exI[of _ s2] exI[of _ s3]) auto
qed

text \<open>Inserting a second station for an interface and an address fails with -EEXIST, and the station that
  was to be inserted is freed.  When it is the station of the table itself, a pointer to freed memory
  stays in the table and in the list.\<close>
theorem insert_existing_frees:
  assumes ok: "mac_ok s m" and m: "m (sta_key s x) = Some y" and d: "\<not> (y = x \<and> sta_dummy (sta_heap s x))"
  shows "\<exists>s'. sta_info_insert x s = Some (- EEXIST, s') \<and> mac_ok s' m \<and> sta_freed s' = sta_freed s @ [x] \<and>
    (y = x \<longrightarrow> x \<in> set (sta_list s') \<and> sta_info_get (sta_vif (sta_heap s x)) (sta_addr (sta_heap s x)) s' = Some (Some x))"
proof -
  have r: "sta_rep s m" using ok by (simp add: mac_ok_def)
  have "sta_info_get (sta_vif (sta_heap s x)) (sta_addr (sta_heap s x)) s = Some (Some y)"
    using sta_get_rep[OF r, of "sta_vif (sta_heap s x)" "sta_addr (sta_heap s x)"] m by simp
  then have "sta_info_insert x s = Some (- EEXIST, sta_info_free x s)"
    using d by (auto simp: sta_info_insert_def sta_info_insert_rcu_def sta_info_insert_non_ibss_def)
  moreover have ok': "mac_ok (sta_info_free x s) m"
    using ok by (simp add: mac_ok_def sta_info_free_def sta_rep_def)
  moreover have "sta_info_get (sta_vif (sta_heap s x)) (sta_addr (sta_heap s x)) (sta_info_free x s) = Some (Some y)"
    using sta_get_rep[of "sta_info_free x s" m "sta_vif (sta_heap s x)" "sta_addr (sta_heap s x)"] ok' m by (simp add: mac_ok_def)
  moreover have "y = x \<longrightarrow> x \<in> set (sta_list (sta_info_free x s))"
    using m ok by (auto simp: mac_ok_def sta_info_free_def ran_def)
  ultimately show ?thesis by (intro exI[of _ "sta_info_free x s"]) (auto simp: sta_info_free_def)
qed

text \<open>C33. Flushing returns for every table, destroys exactly the stations of the interface (of all interfaces for
  NULL), each once and in the order of the list, and keeps the others.  It returns 0 however many
  stations it removed.\<close>
theorem flush_removes_stations:
  assumes "mac_ok s m"
  shows "\<exists>s'. sta_info_flush v s = Some (0, s') \<and>
    mac_ok s' (\<lambda>k. if v = None \<or> v = Some (fst k) then None else m k) \<and>
    sta_freed s' = sta_freed s @ filter (\<lambda>x. v = None \<or> v = Some (sta_vif (sta_heap s x))) (sta_list s) \<and>
    sta_list s' = filter (\<lambda>x. v \<noteq> None \<and> v \<noteq> Some (sta_vif (sta_heap s x))) (sta_list s)"
proof -
  have d: "distinct (sta_list s)" "set (sta_list s) = ran m" using assms by (auto simp: mac_ok_def)
  obtain s' where s': "flush_loop v (sta_list s) s = Some s'" "mac_ok s' (drop_hits v (set (sta_list s)) m)"
      "sta_list s' = filter (\<lambda>x. \<not> (x \<in> set (sta_list s) \<and> (v = None \<or> v = Some (sta_vif (sta_heap s x))))) (sta_list s)"
      "sta_freed s' = sta_freed s @ filter (\<lambda>x. v = None \<or> v = Some (sta_vif (sta_heap s x))) (sta_list s)"
    using flush_loop_ok[OF assms d(1), of v] by blast
  have "drop_hits v (set (sta_list s)) m k = (if v = None \<or> v = Some (fst k) then None else m k)" for k
    unfolding d(2) drop_hits_def by (cases "m k") (auto intro: ranI)
  then have "drop_hits v (set (sta_list s)) m = (\<lambda>k. if v = None \<or> v = Some (fst k) then None else m k)" by blast
  moreover have "sta_list s' = filter (\<lambda>x. v \<noteq> None \<and> v \<noteq> Some (sta_vif (sta_heap s x))) (sta_list s)"
    unfolding s'(3) by (rule filter_cong) auto
  ultimately show ?thesis using s'(1,2,4) by (auto simp: sta_info_flush_def)
qed

subsection \<open>Witnesses\<close>

lemma demo_mac_inv: "mac_ok demo_mac Map.empty"
proof -
  have "sta_rep demo_mac Map.empty"
    unfolding sta_rep_def table_rep_def by (rule exI[of _ "\<lambda>_. []"]) (simp add: demo_mac_def buckets_def)
  then show ?thesis using demo_mac_ok(2) by (auto simp: mac_ok_def) (simp_all add: demo_mac_def)
qed

abbreviation (input) demo_addr :: mac where "demo_addr \<equiv> [2, 0, 0, 0, 0, 9]"

lemma demo_sta_alloc: "sta_info_alloc (Some 3) 0 demo_addr demo_mac = (Some 3, upd_sta 3 (\<lambda>_. new_sta 0 demo_addr) demo_mac)"
  by (simp add: sta_info_alloc_def)

lemma demo_one_station: "\<exists>s. mac_ok s [(0, demo_addr) \<mapsto> 3] \<and> sta_key s 3 = (0, demo_addr) \<and>
    \<not> sta_dummy (sta_heap s 3) \<and> sta_freed s = [] \<and> sta_list s = [3]"
proof -
  let ?s1 = "upd_sta 3 (\<lambda>_. new_sta 0 demo_addr) demo_mac"
  have n: "(3 :: nat) \<notin> ran Map.empty" by simp
  note a = alloc_ok[OF demo_mac_inv n demo_sta_alloc]
  obtain s2 where s2: "sta_info_insert 3 ?s1 = Some (0, s2)" "mac_ok s2 (Map.empty(sta_key ?s1 3 \<mapsto> 3))"
      "sta_list s2 = 3 # sta_list ?s1" "sta_freed s2 = sta_freed ?s1" "sta_key s2 = sta_key ?s1"
    using insert_new_ok[OF a(1) _ a(3) n] by auto
  have g: "sta_info_get 0 demo_addr ?s1 = Some None"
    using sta_get_rep[of ?s1 Map.empty 0 demo_addr] a(1) by (simp add: mac_ok_def)
  have "\<not> sta_dummy (sta_heap s2 3)"
    using s2(1) g by (auto simp: sta_info_insert_def sta_info_insert_rcu_def sta_info_insert_non_ibss_def
        sta_info_finish_insert_def sta_info_hash_add_def set_sta_hash_def Let_def new_sta_def)
  then show ?thesis
    using s2(2-4) a(2,4,6) fun_cong[OF s2(5), of 3] unfolding a(2)
    by (intro exI[of _ s2]) (simp add: demo_mac_def)
qed

theorem station_lifecycle_witness:
  "\<exists>s2 s3. sta_info_insert 3 (upd_sta 3 (\<lambda>_. new_sta 0 demo_addr) demo_mac) = Some (0, s2) \<and>
     sta_info_get 0 demo_addr s2 = Some (Some 3) \<and> sta_info_destroy_addr 0 demo_addr s2 = Some (0, s3) \<and>
     sta_info_get 0 demo_addr s3 = Some None \<and> sta_freed s3 = [3]"
proof -
  have "sta_freed demo_mac = []" by (simp add: demo_mac_def)
  then show ?thesis
    using station_lifecycle[OF demo_mac_inv, of 3 0 demo_addr, OF _ _ demo_sta_alloc] by auto
qed

theorem insert_existing_frees_witness:
  "\<exists>s s'. sta_info_insert 3 s = Some (- EEXIST, s') \<and> 3 \<in> set (sta_freed s') \<and> 3 \<in> set (sta_list s')"
proof -
  obtain s where s: "mac_ok s [(0, demo_addr) \<mapsto> 3]" "sta_key s 3 = (0, demo_addr)" "\<not> sta_dummy (sta_heap s 3)"
    using demo_one_station by blast
  have "[(0, demo_addr) \<mapsto> 3] (sta_key s 3) = Some 3" unfolding s(2) by simp
  then obtain s' where "sta_info_insert 3 s = Some (- EEXIST, s')" "sta_freed s' = sta_freed s @ [3]" "3 \<in> set (sta_list s')"
    using insert_existing_frees[OF s(1), of 3 3] s(3) by blast
  then show ?thesis by (intro exI[of _ s] exI[of _ s']) simp
qed

theorem flush_removes_stations_witness:
  "\<exists>s s'. sta_list s = [3] \<and> sta_info_flush None s = Some (0, s') \<and> sta_freed s' = [3] \<and> sta_list s' = []"
proof -
  obtain s where s: "mac_ok s [(0, demo_addr) \<mapsto> 3]" "sta_freed s = []" "sta_list s = [3]"
    using demo_one_station by blast
  then obtain s' where "sta_info_flush None s = Some (0, s')" "sta_freed s' = [3]" "sta_list s' = []"
    using flush_removes_stations[OF s(1), of None] by auto
  then show ?thesis using s(3) by blast
qed

end
