(* ===== verification/Sdio_Thread.thy ===== *)
theory Sdio_Thread
  imports Os_Work
begin

text \<open>The two bus threads of hal_apollo/apollo_sdio.c: the loops of atbm_sdio_rx_thread and
  atbm_sdio_tx_thread and the functions that wake them (atbm_sdio_rev_schedule,
  atbm_sdio_xmit_schedule, atbm_sdio_thread_wakeup), on the semaphore and the bit operations of the
  port (os/ankai_V330/atbm_os_thread.c, atbm_os_mutex.c, atbm_os_atomic.c).

  Both threads have the same protocol: a request flag (rx_get, tx_get), the bit THREAD_WAKEUP, which
  a waker sets and the thread clears, and a semaphore (rx_wake, tx_wake).  down_timeout of the port
  waits without a limit.  A step is one atomic operation; a waker is a task in one of the three places
  of the schedule function, the thread is in one of the four places of its loop.  What the handler
  atbm_sdio_rx_bh or atbm_sdio_tx_bh does is not part of the protocol: its runs are counted.\<close>

abbreviation (input) THREAD_WAKEUP :: u32 where "THREAD_WAKEUP \<equiv> 0"

text \<open>Where the thread stands: in process_wait_timeout, before atomic_xchg, in the handler, before
  clear_bit.  Where a waker stands: outside, behind atomic_set, before wake_up_process.\<close>

datatype thread_pc = Waiting | Woken | Handling | Clearing
datatype waker_pc = Outside | Requested | Must_wake

record sdio_thread =
  th_flags :: "u32 list"
  th_get :: int
  th_sem :: nat
  th_task :: bool
  th_pc :: thread_pc
  th_wakers :: "nat \<Rightarrow> waker_pc"
  th_runs :: nat

definition atbm_sdio_thread_start :: "nat \<Rightarrow> sdio_thread" where
  "atbm_sdio_thread_start sem = \<lparr>th_flags = [0], th_get = 0, th_sem = sem, th_task = True,
     th_pc = Waiting, th_wakers = (\<lambda>_. Outside), th_runs = 0\<rparr>"

text \<open>atbm_sdio_xmit_init leaves the semaphore at 0, atbm_sdio_rev_init wakes its thread once.\<close>

definition atbm_sdio_xmit_init :: sdio_thread where
  "atbm_sdio_xmit_init = atbm_sdio_thread_start 0"

definition wake_up_process :: "sdio_thread \<Rightarrow> sdio_thread" where
  "wake_up_process s = s\<lparr>th_sem := th_sem s + 1\<rparr>"

definition atbm_sdio_rev_init :: sdio_thread where
  "atbm_sdio_rev_init = wake_up_process (atbm_sdio_thread_start 0)"

subsection \<open>The steps of a waker\<close>

definition request_step :: "nat \<Rightarrow> sdio_thread \<Rightarrow> sdio_thread option" where
  "request_step i s =
     (if th_wakers s i = Outside then Some (s\<lparr>th_get := 1, th_wakers := (th_wakers s)(i := Requested)\<rparr>)
      else None)"

definition mark_step :: "nat \<Rightarrow> sdio_thread \<Rightarrow> sdio_thread option" where
  "mark_step i s =
     (if th_wakers s i = Requested then do {
        (old, flags) \<leftarrow> test_and_set_bit THREAD_WAKEUP (th_flags s);
        Some (s\<lparr>th_flags := flags,
               th_wakers := (th_wakers s)(i := if old = 0 \<and> th_task s then Must_wake else Outside)\<rparr>) }
      else None)"

definition wake_step :: "nat \<Rightarrow> sdio_thread \<Rightarrow> sdio_thread option" where
  "wake_step i s =
     (if th_wakers s i = Must_wake
      then Some (wake_up_process (s\<lparr>th_wakers := (th_wakers s)(i := Outside)\<rparr>)) else None)"

subsection \<open>The steps of the thread\<close>

definition wait_step :: "sdio_thread \<Rightarrow> sdio_thread option" where
  "wait_step s = (if th_pc s = Waiting \<and> th_sem s > 0
     then Some (s\<lparr>th_sem := th_sem s - 1, th_pc := Woken\<rparr>) else None)"

definition xchg_step :: "sdio_thread \<Rightarrow> sdio_thread option" where
  "xchg_step s = (if th_pc s = Woken
     then Some (s\<lparr>th_get := 0, th_pc := if th_get s = 0 then Waiting else Handling\<rparr>) else None)"

definition handle_step :: "sdio_thread \<Rightarrow> sdio_thread option" where
  "handle_step s = (if th_pc s = Handling
     then Some (s\<lparr>th_runs := th_runs s + 1, th_pc := Clearing\<rparr>) else None)"

definition clear_step :: "sdio_thread \<Rightarrow> sdio_thread option" where
  "clear_step s = (if th_pc s = Clearing then do {
        flags \<leftarrow> clear_bit_at THREAD_WAKEUP (th_flags s);
        Some (s\<lparr>th_flags := flags, th_pc := Waiting\<rparr>) }
      else None)"

datatype sdio_act = Request nat | Mark nat | Wake nat | Wait | Xchg | Handle | Clear

fun act_step :: "sdio_act \<Rightarrow> sdio_thread \<Rightarrow> sdio_thread option" where
  "act_step (Request i) s = request_step i s"
| "act_step (Mark i) s = mark_step i s"
| "act_step (Wake i) s = wake_step i s"
| "act_step Wait s = wait_step s"
| "act_step Xchg s = xchg_step s"
| "act_step Handle s = handle_step s"
| "act_step Clear s = clear_step s"

primrec act_steps :: "sdio_act list \<Rightarrow> sdio_thread \<Rightarrow> sdio_thread option" where
  "act_steps [] s = Some s"
| "act_steps (a # as) s = (case act_step a s of None \<Rightarrow> None | Some s \<Rightarrow> act_steps as s)"

text \<open>A call of atbm_sdio_xmit_schedule or atbm_sdio_rev_schedule that nothing interrupts.\<close>

definition atbm_sdio_thread_wakeup :: "sdio_thread \<Rightarrow> sdio_thread option" where
  "atbm_sdio_thread_wakeup s = do {
     (old, flags) \<leftarrow> test_and_set_bit THREAD_WAKEUP (th_flags s);
     let s = s\<lparr>th_flags := flags\<rparr>;
     Some (if old = 0 \<and> th_task s then wake_up_process s else s) }"

definition atbm_sdio_schedule :: "sdio_thread \<Rightarrow> sdio_thread option" where
  "atbm_sdio_schedule s = atbm_sdio_thread_wakeup (s\<lparr>th_get := 1\<rparr>)"

text \<open>The two ways a state is reached: with calls that run to their end undisturbed, and with every
  interleaving.\<close>

inductive quiet_reach :: "sdio_thread \<Rightarrow> sdio_thread \<Rightarrow> bool" for s0 where
  quiet_init: "quiet_reach s0 s0"
| quiet_call: "quiet_reach s0 s \<Longrightarrow> atbm_sdio_schedule s = Some s' \<Longrightarrow> quiet_reach s0 s'"
| quiet_wait: "quiet_reach s0 s \<Longrightarrow> wait_step s = Some s' \<Longrightarrow> quiet_reach s0 s'"
| quiet_xchg: "quiet_reach s0 s \<Longrightarrow> xchg_step s = Some s' \<Longrightarrow> quiet_reach s0 s'"
| quiet_handle: "quiet_reach s0 s \<Longrightarrow> handle_step s = Some s' \<Longrightarrow> quiet_reach s0 s'"
| quiet_clear: "quiet_reach s0 s \<Longrightarrow> clear_step s = Some s' \<Longrightarrow> quiet_reach s0 s'"

inductive any_reach :: "sdio_thread \<Rightarrow> sdio_thread \<Rightarrow> bool" for s0 where
  any_init: "any_reach s0 s0"
| any_act: "any_reach s0 s \<Longrightarrow> act_step a s = Some s' \<Longrightarrow> any_reach s0 s'"

lemma any_reach_steps: "any_reach s0 s \<Longrightarrow> act_steps as s = Some s' \<Longrightarrow> any_reach s0 s'"
proof (induction as arbitrary: s)
  case (Cons a as)
  then show ?case by (auto split: option.splits intro: any_reach.any_act)
qed simp

subsection \<open>The wake-up bit\<close>

abbreviation marked :: "sdio_thread \<Rightarrow> bool" where
  "marked s \<equiv> bit_of (th_flags s) THREAD_WAKEUP"

definition flags_ok :: "sdio_thread \<Rightarrow> bool" where
  "flags_ok s \<longleftrightarrow> th_flags s \<noteq> []"

lemma bit_word_0 [simp]: "bit_word 0 = 0"
  by (simp add: bit_word_def)

lemma mark_flags:
  assumes "fl \<noteq> []"
  obtains old fl' where "test_and_set_bit 0 fl = Some (old, fl')" "(old = 0) = (\<not> bit_of fl 0)"
    "fl' \<noteq> []" "bit_of fl' 0"
proof -
  from set_bit_ok[of 0 fl] assms obtain fl' where fl': "set_bit_at 0 fl = Some fl'"
    "length fl' = length fl" "bit_of fl' 0" by auto
  then have "test_and_set_bit 0 fl = Some (fl ! 0 AND bit_mask 0, fl')"
    by (simp add: test_and_set_bit_def set_bit_at_def)
  moreover have "(fl ! 0 AND bit_mask 0 = 0) = (\<not> bit_of fl 0)"
    using and_bit_mask[of "fl ! 0" 0] unfolding bit_of_def bit_word_0 by blast
  ultimately show ?thesis using fl' assms by (intro that) auto
qed

lemma clear_flags:
  assumes "fl \<noteq> []"
  obtains fl' where "clear_bit_at 0 fl = Some fl'" "fl' \<noteq> []" "\<not> bit_of fl' 0"
proof -
  from clear_bit_ok[of 0 fl] assms obtain fl' where "clear_bit_at 0 fl = Some fl'"
    "length fl' = length fl" "\<forall>k. bit_of fl' k = (k \<noteq> 0 \<and> bit_of fl k)" by auto
  then have "fl' \<noteq> []" "\<not> bit_of fl' 0" using assms by (metis list.size(3) length_0_conv, metis)
  with \<open>clear_bit_at 0 fl = Some fl'\<close> show ?thesis by (rule that)
qed

lemma bit_of_single: "bit_of [w] 0 = odd w"
  by (simp add: bit_of_def bit_0)

text \<open>An uninterrupted call: it raises the request, sets the bit, and counts the semaphore up when the
  bit was clear.\<close>

lemma schedule_eq:
  assumes "flags_ok s" "th_task s"
  obtains s' where "atbm_sdio_schedule s = Some s'" "flags_ok s'" "marked s'" "th_get s' = 1"
    "th_sem s' = th_sem s + (if marked s then 0 else 1)" "th_pc s' = th_pc s" "th_task s'"
    "th_runs s' = th_runs s"
proof -
  obtain old fl where t: "test_and_set_bit 0 (th_flags s) = Some (old, fl)" "(old = 0) = (\<not> marked s)"
    "fl \<noteq> []" "bit_of fl 0" using mark_flags assms(1) unfolding flags_ok_def by metis
  let ?s = "s\<lparr>th_get := 1, th_flags := fl\<rparr>"
  have "atbm_sdio_schedule s = Some (if marked s then ?s else wake_up_process ?s)"
    using t assms by (simp add: atbm_sdio_schedule_def atbm_sdio_thread_wakeup_def)
  then show ?thesis
    using t assms
    by (intro that[of "if marked s then ?s else wake_up_process ?s"]) (simp_all add: wake_up_process_def flags_ok_def)
qed

lemma clear_eq:
  assumes "flags_ok s" "th_pc s = Clearing"
  obtains fl where "clear_step s = Some (s\<lparr>th_flags := fl, th_pc := Waiting\<rparr>)" "fl \<noteq> []" "\<not> bit_of fl 0"
  using clear_flags[of "th_flags s"] assms unfolding flags_ok_def clear_step_def
  by (metis (no_types, lifting) bind.bind_lunit)

lemmas thread_step_defs = wait_step_def xchg_step_def handle_step_def

subsection \<open>Undisturbed calls\<close>

text \<open>What holds in every state: while the thread is asleep with the bit set, the semaphore holds a
  wake-up, and until the thread has taken the request of a set bit, the request is there.\<close>

definition quiet_inv :: "sdio_thread \<Rightarrow> bool" where
  "quiet_inv s \<longleftrightarrow> flags_ok s \<and> th_task s \<and>
     (marked s \<and> th_pc s = Waiting \<longrightarrow> th_sem s > 0) \<and>
     (marked s \<and> th_pc s \<in> {Waiting, Woken} \<longrightarrow> th_get s \<noteq> 0)"

lemma quiet_inv_start: "quiet_inv atbm_sdio_xmit_init" "quiet_inv atbm_sdio_rev_init"
  by (simp_all add: quiet_inv_def flags_ok_def atbm_sdio_xmit_init_def atbm_sdio_rev_init_def
    wake_up_process_def atbm_sdio_thread_start_def bit_of_single)

lemma quiet_inv_reach:
  assumes "quiet_reach s0 s" "quiet_inv s0"
  shows "quiet_inv s"
  using assms
proof induction
  case (quiet_call s s')
  then have "flags_ok s" "th_task s" by (simp_all add: quiet_inv_def)
  then obtain t where "atbm_sdio_schedule s = Some t" "flags_ok t" "marked t" "th_get t = 1"
    "th_sem t = th_sem s + (if marked s then 0 else 1)" "th_pc t = th_pc s" "th_task t"
    by (rule schedule_eq)
  with quiet_call show ?case by (auto simp: quiet_inv_def)
next
  case (quiet_clear s s')
  then have "flags_ok s" "th_pc s = Clearing" "th_task s"
    by (auto simp: quiet_inv_def clear_step_def split: if_splits)
  then obtain fl where "clear_step s = Some (s\<lparr>th_flags := fl, th_pc := Waiting\<rparr>)" "fl \<noteq> []" "\<not> bit_of fl 0"
    using clear_eq by blast
  with quiet_clear.hyps \<open>th_task s\<close> show ?case by (auto simp: quiet_inv_def flags_ok_def)
qed (auto simp: quiet_inv_def flags_ok_def thread_step_defs split: if_splits)

lemma quiet_wakes_ok:
  assumes "quiet_inv s" "atbm_sdio_schedule s = Some s'"
  shows "(th_pc s = Waiting \<longrightarrow> (\<exists>s''. act_steps [Wait, Xchg, Handle] s' = Some s'' \<and>
            th_runs s'' = th_runs s + 1)) \<and>
         (th_pc s = Woken \<longrightarrow> (\<exists>s''. act_steps [Xchg, Handle] s' = Some s'' \<and>
            th_runs s'' = th_runs s + 1))"
proof -
  from assms have "flags_ok s" "th_task s" by (simp_all add: quiet_inv_def)
  then obtain t where "atbm_sdio_schedule s = Some t" "th_get t = 1"
    "th_sem t = th_sem s + (if marked s then 0 else 1)" "th_pc t = th_pc s" "th_runs t = th_runs s"
    by (rule schedule_eq)
  with assms show ?thesis by (auto simp: quiet_inv_def thread_step_defs)
qed

text \<open>C24. Calls that nothing interrupts wake the threads.  In every state reached from the start of the
  transmit or of the receive thread by such calls and steps of the thread, a further call lets a
  thread that sleeps, or that has just been woken, run its handler: the steps it needs are all enabled.\<close>
theorem schedule_wakes_thread:
  assumes "quiet_reach s0 s" "s0 = atbm_sdio_xmit_init \<or> s0 = atbm_sdio_rev_init"
    and "atbm_sdio_schedule s = Some s'"
  shows "(th_pc s = Waiting \<longrightarrow> (\<exists>s''. act_steps [Wait, Xchg, Handle] s' = Some s'' \<and>
            th_runs s'' = th_runs s + 1)) \<and>
         (th_pc s = Woken \<longrightarrow> (\<exists>s''. act_steps [Xchg, Handle] s' = Some s'' \<and>
            th_runs s'' = th_runs s + 1))"
  using quiet_wakes_ok[OF quiet_inv_reach[OF assms(1)] assms(3)] assms(2) quiet_inv_start by blast

theorem schedule_wakes_thread_witness:
  "\<exists>s' s''. atbm_sdio_schedule atbm_sdio_rev_init = Some s' \<and>
     act_steps [Wait, Xchg, Handle] s' = Some s'' \<and> th_runs s'' = 1"
proof -
  have "flags_ok atbm_sdio_rev_init" "th_task atbm_sdio_rev_init" "th_pc atbm_sdio_rev_init = Waiting"
    "th_runs atbm_sdio_rev_init = 0"
    by (simp_all add: atbm_sdio_rev_init_def atbm_sdio_thread_start_def wake_up_process_def flags_ok_def)
  then show ?thesis
    using schedule_wakes_thread[OF quiet_reach.quiet_init, of atbm_sdio_rev_init] schedule_eq by (metis add_0)
qed

subsection \<open>What the protocol does not give\<close>

lemma test_and_set_single: "test_and_set_bit 0 [w] = Some (w AND 1, [w OR 1])"
  by (simp add: test_and_set_bit_def upd_bits_def bit_mask_def)

lemma clear_single: "clear_bit_at 0 [w] = Some [w AND NOT 1]"
  by (simp add: clear_bit_at_def upd_bits_def bit_mask_def)

lemmas thread_run_simps = request_step_def mark_step_def wake_step_def clear_step_def thread_step_defs
  atbm_sdio_schedule_def atbm_sdio_thread_wakeup_def wake_up_process_def atbm_sdio_xmit_init_def
  atbm_sdio_thread_start_def test_and_set_single clear_single

text \<open>A call that comes while the handler runs can be lost.  There is a state reached by undisturbed
  calls in which a request is pending although the thread sleeps with nothing to wake it: it stands
  in process_wait_timeout, whose time limit the port ignores, the semaphore is 0, and no waker is active.\<close>
theorem call_during_handler_is_lost:
  "\<exists>s. quiet_reach atbm_sdio_xmit_init s \<and> th_get s = 1 \<and> th_pc s = Waiting \<and> wait_step s = None \<and>
     th_runs s = 1 \<and> (\<forall>i. th_wakers s i = Outside)"
proof -
  let ?w = "\<lambda>fl g n pc r. \<lparr>th_flags = fl, th_get = g, th_sem = n, th_task = True, th_pc = pc,
     th_wakers = (\<lambda>_. Outside), th_runs = r\<rparr>"
  have "quiet_reach atbm_sdio_xmit_init (?w [1] 1 1 Waiting 0)"
    by (rule quiet_call[OF quiet_init]) (simp add: thread_run_simps)
  then have "quiet_reach atbm_sdio_xmit_init (?w [1] 1 0 Woken 0)"
    by (rule quiet_wait) (simp add: thread_run_simps)
  then have "quiet_reach atbm_sdio_xmit_init (?w [1] 0 0 Handling 0)"
    by (rule quiet_xchg) (simp add: thread_run_simps)
  then have "quiet_reach atbm_sdio_xmit_init (?w [1] 0 0 Clearing 1)"
    by (rule quiet_handle) (simp add: thread_run_simps)
  then have "quiet_reach atbm_sdio_xmit_init (?w [1] 1 0 Clearing 1)"
    by (rule quiet_call) (simp add: thread_run_simps)
  then have "quiet_reach atbm_sdio_xmit_init (?w [0] 1 0 Waiting 1)"
    by (rule quiet_clear) (simp add: thread_run_simps)
  then show ?thesis by (rule exI[of _ "?w [0] 1 0 Waiting 1", OF conjI]) (simp add: wait_step_def)
qed

text \<open>A thread that sleeps with the bit set, no count and no waker about to count up.\<close>

definition dead_thread :: "sdio_thread \<Rightarrow> bool" where
  "dead_thread s \<longleftrightarrow> flags_ok s \<and> marked s \<and> th_pc s = Waiting \<and> th_sem s = 0 \<and>
     (\<forall>i. th_wakers s i \<noteq> Must_wake)"

lemma dead_step:
  assumes "dead_thread s" "act_step a s = Some s'"
  shows "dead_thread s' \<and> th_runs s' = th_runs s"
proof (cases a)
  case (Mark i)
  obtain old fl where "test_and_set_bit 0 (th_flags s) = Some (old, fl)" "(old = 0) = (\<not> marked s)"
    "fl \<noteq> []" "bit_of fl 0" using mark_flags assms(1) unfolding dead_thread_def flags_ok_def by metis
  then show ?thesis using assms Mark
    by (auto simp: dead_thread_def flags_ok_def mark_step_def split: if_splits)
qed (use assms in \<open>auto simp: dead_thread_def flags_ok_def request_step_def wake_step_def
      clear_step_def thread_step_defs split: if_splits\<close>)

lemma dead_reach: "any_reach s s' \<Longrightarrow> dead_thread s \<Longrightarrow> dead_thread s' \<and> th_runs s' = th_runs s"
  by (induction rule: any_reach.induct) (auto dest: dead_step)

text \<open>C30. One waker is enough to lose the thread for ever.  When the waker is interrupted between its
  atomic_set and its test_and_set_bit and the thread meanwhile takes the request and clears the bit,
  the thread is woken once more, finds no request and sleeps again without clearing the bit: no later
  call of atbm_sdio_xmit_schedule and no interleaving ever runs the handler again.\<close>
theorem interrupted_waker_kills_thread:
  "\<exists>s. any_reach atbm_sdio_xmit_init s \<and> th_runs s = 1 \<and> (\<forall>i. th_wakers s i = Outside) \<and>
     th_runs ` Collect (any_reach s) = {1}"
proof -
  define acts where "acts = [Request 0, Mark 0, Wake 0, Wait, Request 0, Xchg, Handle, Clear,
    Mark 0, Wake 0, Wait, Xchg]"
  define s where "s = \<lparr>th_flags = [1], th_get = 0, th_sem = 0, th_task = True, th_pc = Waiting,
    th_wakers = (\<lambda>_. Outside), th_runs = 1\<rparr>"
  have "act_steps acts atbm_sdio_xmit_init = Some s"
    by (simp add: acts_def s_def thread_run_simps fun_upd_idem)
  then have "any_reach atbm_sdio_xmit_init s" by (rule any_reach_steps[OF any_init])
  moreover have "dead_thread s" by (simp add: s_def dead_thread_def flags_ok_def bit_of_single)
  moreover have "any_reach s s" by (rule any_init)
  ultimately show ?thesis using dead_reach by (intro exI[of _ s]) (force simp: s_def)
qed

end
