(* ===== verification/Os_Sdio.thy ===== *)
theory Os_Sdio
  imports Wsm_Buf
begin

text \<open>The SDIO layer of the port, os/ankai_V330/atbm_os_sdio.c.

  The functions of the SDK it calls (sdio_read_byte, sdio_write_byte, sdio_read_multi,
  sdio_write_multi, sdio_enable_irq) are the record sdio_sdk; they act on the state 'b of the bus and
  return true when they succeed, which is how sdio_f0_readb, sdio_readb and sdio_memcpy_fromio read
  their result.  A read fills the whole buffer, also when it fails.\<close>

abbreviation (input) SDIO_CCCR_CCCR :: u32 where "SDIO_CCCR_CCCR \<equiv> 0x00"
abbreviation (input) SDIO_CCCR_IENx :: u32 where "SDIO_CCCR_IENx \<equiv> 0x04"
abbreviation (input) SDIO_CCCR_ABORT :: u32 where "SDIO_CCCR_ABORT \<equiv> 0x06"
abbreviation (input) SDIO_CCCR_IF :: u32 where "SDIO_CCCR_IF \<equiv> 0x07"
abbreviation (input) SDIO_CCCR_CAPS :: u32 where "SDIO_CCCR_CAPS \<equiv> 0x08"
abbreviation (input) SDIO_CCCR_POWER :: u32 where "SDIO_CCCR_POWER \<equiv> 0x12"
abbreviation (input) SDIO_CCCR_SPEED :: u32 where "SDIO_CCCR_SPEED \<equiv> 0x13"
abbreviation (input) SDIO_SPEED_EHS :: u8 where "SDIO_SPEED_EHS \<equiv> 0x02"
abbreviation (input) SDIO_CCCR_REV_1_10 :: u8 where "SDIO_CCCR_REV_1_10 \<equiv> 1"
abbreviation (input) SDIO_CCCR_REV_1_20 :: u8 where "SDIO_CCCR_REV_1_20 \<equiv> 2"
abbreviation (input) SDIO_FBR_BLKSIZE :: u32 where "SDIO_FBR_BLKSIZE \<equiv> 0x10"

record 'b sdio_sdk =
  sdk_read_byte :: "u32 \<Rightarrow> u32 \<Rightarrow> 'b \<Rightarrow> bool \<times> u8 \<times> 'b"
  sdk_write_byte :: "u32 \<Rightarrow> u32 \<Rightarrow> u8 \<Rightarrow> 'b \<Rightarrow> bool \<times> 'b"
  sdk_read_multi :: "u32 \<Rightarrow> u32 \<Rightarrow> nat \<Rightarrow> 'b \<Rightarrow> bool \<times> (nat \<Rightarrow> u8) \<times> 'b"
  sdk_write_multi :: "u32 \<Rightarrow> u32 \<Rightarrow> bytes \<Rightarrow> 'b \<Rightarrow> bool \<times> 'b"
  sdk_enable_irq :: "bool \<Rightarrow> 'b \<Rightarrow> 'b"

record sdio_func =
  fn_num :: u32
  fn_en :: bool
  fn_blocksize :: u32

record atbm_sdio_cccr =
  sdio_vsn :: u32
  sd_vsn :: u32
  multi_block :: bool
  low_speed :: bool
  wide_bus :: bool
  high_power :: bool
  high_speed :: bool
  disable_cd :: bool

subsection \<open>Single bytes\<close>

text \<open>mmc_io_rw_direct keeps the SDK's result in an int and answers 0 when it is 0.  The byte behind out
  is what the read leaves there.\<close>

definition mmc_io_rw_direct ::
    "'b sdio_sdk \<Rightarrow> bool \<Rightarrow> u32 \<Rightarrow> u32 \<Rightarrow> u8 \<Rightarrow> u8 \<Rightarrow> 'b \<Rightarrow> int \<times> u8 \<times> 'b" where
  "mmc_io_rw_direct sdk write fn addr inb out b =
     (let (ok, out, b) = (if write then (let (ok, b) = sdk_write_byte sdk fn addr inb b in (ok, out, b))
                          else sdk_read_byte sdk fn addr b);
          ret = (if ok then 1 else 0) :: int
      in (if ret = 0 then 0 else -1, out, b))"

definition sdio_f0_readb :: "'b sdio_sdk \<Rightarrow> u32 \<Rightarrow> 'b \<Rightarrow> u8 \<times> int \<times> 'b" where
  "sdio_f0_readb sdk addr b =
     (let (ok, byte, b) = sdk_read_byte sdk 0 addr b in (byte, if ok then 0 else -1, b))"

definition sdio_f0_writeb :: "'b sdio_sdk \<Rightarrow> u8 \<Rightarrow> u32 \<Rightarrow> 'b \<Rightarrow> int \<times> 'b" where
  "sdio_f0_writeb sdk byte addr b =
     (let (ok, b) = sdk_write_byte sdk 0 addr byte b in (if ok then 0 else -1, b))"

definition sdio_readb :: "'b sdio_sdk \<Rightarrow> sdio_func \<Rightarrow> u32 \<Rightarrow> 'b \<Rightarrow> u8 \<times> int \<times> 'b" where
  "sdio_readb sdk func addr b =
     (let (ok, byte, b) = sdk_read_byte sdk (fn_num func) addr b in (byte, if ok then 0 else -1, b))"

definition sdio_writeb :: "'b sdio_sdk \<Rightarrow> sdio_func \<Rightarrow> u8 \<Rightarrow> u32 \<Rightarrow> 'b \<Rightarrow> int \<times> 'b" where
  "sdio_writeb sdk func byte addr b =
     (let (ok, b) = sdk_write_byte sdk (fn_num func) addr byte b in (if ok then 0 else -1, b))"

subsection \<open>Setting up the card\<close>

text \<open>The local variable the register is read into is not initialised: it is the argument junk.\<close>

definition mmc_bus_interface_control :: "'b sdio_sdk \<Rightarrow> u8 \<Rightarrow> 'b \<Rightarrow> int \<times> 'b" where
  "mmc_bus_interface_control sdk junk b =
     (let (ret, reg, b) = mmc_io_rw_direct sdk False 0 SDIO_CCCR_IF 0 junk b in
      if ret \<noteq> 0 then (ret, b)
      else let (ret, _, b) = mmc_io_rw_direct sdk True 0 SDIO_CCCR_IF (reg OR 0x20) reg b in (ret, b))"

definition mmc_sdio_switch_hs :: "'b sdio_sdk \<Rightarrow> bool \<Rightarrow> u8 \<Rightarrow> 'b \<Rightarrow> int \<times> 'b" where
  "mmc_sdio_switch_hs sdk enable junk b =
     (let (ret, speed, b) = mmc_io_rw_direct sdk False 0 SDIO_CCCR_SPEED 0 junk b in
      if ret \<noteq> 0 then (ret, b)
      else let speed = (if enable then speed OR SDIO_SPEED_EHS else speed AND NOT SDIO_SPEED_EHS);
               (ret, _, b) = mmc_io_rw_direct sdk True 0 SDIO_CCCR_SPEED speed speed b
           in (ret, b))"

definition cccr_zero :: atbm_sdio_cccr where
  "cccr_zero = \<lparr>sdio_vsn = 0, sd_vsn = 0, multi_block = False, low_speed = False, wide_bus = False,
     high_power = False, high_speed = False, disable_cd = False\<rparr>"

definition cccr_caps :: "u8 \<Rightarrow> atbm_sdio_cccr \<Rightarrow> atbm_sdio_cccr" where
  "cccr_caps reg c =
     (let c = (if reg AND 0x02 \<noteq> 0 then c\<lparr>multi_block := True\<rparr> else c);
          c = (if reg AND 0x40 \<noteq> 0 then c\<lparr>low_speed := True\<rparr> else c)
      in if reg AND 0x80 \<noteq> 0 then c\<lparr>wide_bus := True\<rparr> else c)"

text \<open>A register that is only read from revision v on, and then reported in a flag.\<close>

definition cccr_flag ::
    "'b sdio_sdk \<Rightarrow> u32 \<Rightarrow> (u8 \<Rightarrow> atbm_sdio_cccr \<Rightarrow> atbm_sdio_cccr) \<Rightarrow> bool \<Rightarrow> int \<times> u8 \<times> atbm_sdio_cccr \<times> 'b \<Rightarrow>
     int \<times> u8 \<times> atbm_sdio_cccr \<times> 'b" where
  "cccr_flag sdk addr upd present r =
     (let (ret, reg, c, b) = r in
      if ret \<noteq> 0 \<or> \<not> present then r
      else let (ret, reg, b) = mmc_io_rw_direct sdk False 0 addr 0 reg b
           in (ret, reg, if ret \<noteq> 0 then c else upd reg c, b))"

definition atbm_sdio_read_cccr :: "'b sdio_sdk \<Rightarrow> u8 \<Rightarrow> 'b \<Rightarrow> int \<times> atbm_sdio_cccr \<times> 'b" where
  "atbm_sdio_read_cccr sdk junk b =
     (let (ret, reg, b) = mmc_io_rw_direct sdk False 0 SDIO_CCCR_CCCR 0 junk b in
      if ret \<noteq> 0 then (ret, cccr_zero, b)
      else let cccr_vsn = reg AND 0x0f in
        if cccr_vsn > SDIO_CCCR_REV_1_20 then (-1, cccr_zero, b)
        else
          let c = cccr_zero\<lparr>sdio_vsn := ucast (drop_bit 4 (reg AND 0xf0))\<rparr>;
              r = cccr_flag sdk SDIO_CCCR_CAPS cccr_caps True (0, reg, c, b);
              r = cccr_flag sdk SDIO_CCCR_POWER
                    (\<lambda>reg c. if reg AND 0x01 \<noteq> 0 then c\<lparr>high_power := True\<rparr> else c)
                    (cccr_vsn \<ge> SDIO_CCCR_REV_1_10) r;
              r = cccr_flag sdk SDIO_CCCR_SPEED
                    (\<lambda>reg c. if reg AND 0x01 \<noteq> 0 then c\<lparr>high_speed := True\<rparr> else c)
                    (cccr_vsn \<ge> SDIO_CCCR_REV_1_20) r;
              (ret, reg, c, b) = cccr_flag sdk SDIO_CCCR_IF (\<lambda>reg c. c) True r
          in if ret \<noteq> 0 then (ret, c, b)
             else let (ret, _, b) = mmc_io_rw_direct sdk True 0 SDIO_CCCR_IF (reg OR 0x20) reg b
                  in (ret, c, b))"

text \<open>The handler is deregistered and the interrupt switched off only behind both accesses.  irq tells
  whether a handler is registered.\<close>

definition sdio_release_irq :: "'b sdio_sdk \<Rightarrow> sdio_func \<Rightarrow> u8 \<Rightarrow> bool \<Rightarrow> 'b \<Rightarrow> int \<times> bool \<times> 'b" where
  "sdio_release_irq sdk func junk irq b =
     (let (ret, reg, b) = mmc_io_rw_direct sdk False 0 SDIO_CCCR_IENx 0 junk b in
      if ret \<noteq> 0 then (ret, irq, b)
      else let reg = reg AND NOT (push_bit (unat (fn_num func)) 1);
               reg = (if reg AND 0xFE = 0 then 0 else reg);
               (ret, _, b) = mmc_io_rw_direct sdk True 0 SDIO_CCCR_IENx reg reg b
           in if ret \<noteq> 0 then (ret, irq, b) else (0, False, sdk_enable_irq sdk False b))"

definition atbm_sdio_set_blocksize :: "'b sdio_sdk \<Rightarrow> sdio_func \<Rightarrow> u32 \<Rightarrow> 'b \<Rightarrow> int \<times> 'b" where
  "atbm_sdio_set_blocksize sdk func blksz b =
     (let base = fn_num func * 0x100 + SDIO_FBR_BLKSIZE;
          (ret, _, b) = mmc_io_rw_direct sdk True 0 base (ucast (blksz AND 0xff)) 0 b
      in if ret \<noteq> 0 then (ret, b)
         else let (ret, _, b) = mmc_io_rw_direct sdk True 0 (base + 1) (ucast (drop_bit 8 blksz AND 0xff)) 0 b
              in (ret, b))"

definition sdio_align_size :: "sdio_func \<Rightarrow> u32 \<Rightarrow> u32" where
  "sdio_align_size func sz =
     (let blks = fn_blocksize func in
      if blks = 0 \<or> sz = 0 then sz
      else if sz mod blks = 0 then sz else sz + blks - sz mod blks)"

subsection \<open>Blocks\<close>

definition sdio_memcpy_fromio ::
    "'b sdio_sdk \<Rightarrow> sdio_func \<Rightarrow> bytes \<Rightarrow> u32 \<Rightarrow> 'b \<Rightarrow> int \<times> bytes \<times> 'b" where
  "sdio_memcpy_fromio sdk func dst addr b =
     (if \<not> fn_en func then (-1, dst, b)
      else let (ok, f, b) = sdk_read_multi sdk (fn_num func) addr (length dst) b
           in (if ok then 0 else 1, map f [0..<length dst], b))"

definition sdio_memcpy_toio ::
    "'b sdio_sdk \<Rightarrow> sdio_func \<Rightarrow> u32 \<Rightarrow> bytes \<Rightarrow> 'b \<Rightarrow> int \<times> 'b" where
  "sdio_memcpy_toio sdk func addr src b =
     (if \<not> fn_en func then (-1, b)
      else let (ok, b) = sdk_write_multi sdk (fn_num func) addr src b in (if ok then 0 else 1, b))"

text \<open>The reset of the card interface that hal_apollo/apollo_sdio.c calls abort.\<close>

definition atbm_cmd52_abort :: "'b sdio_sdk \<Rightarrow> 'b \<Rightarrow> int \<times> 'b" where
  "atbm_cmd52_abort sdk b =
     (let (reg, ret, b) = sdio_f0_readb sdk SDIO_CCCR_ABORT b;
          reg = (if ret \<noteq> 0 then 0x08 else reg OR 0x01)
      in sdio_f0_writeb sdk reg SDIO_CCCR_ABORT b)"

subsection \<open>Results of the single-byte accesses\<close>

text \<open>Success and failure of an access, read off the SDK's result.\<close>

definition byte_read_ok :: "'b sdio_sdk \<Rightarrow> u32 \<Rightarrow> u32 \<Rightarrow> 'b \<Rightarrow> bool" where
  "byte_read_ok sdk fn addr b = fst (sdk_read_byte sdk fn addr b)"

lemma mmc_read_ok:
  "byte_read_ok sdk fn addr b \<Longrightarrow>
   mmc_io_rw_direct sdk False fn addr i out b = (-1, snd (sdk_read_byte sdk fn addr b))"
  by (cases "sdk_read_byte sdk fn addr b") (simp add: mmc_io_rw_direct_def byte_read_ok_def)

lemma mmc_read_fails:
  "\<not> byte_read_ok sdk fn addr b \<Longrightarrow>
   mmc_io_rw_direct sdk False fn addr i out b = (0, snd (sdk_read_byte sdk fn addr b))"
  by (cases "sdk_read_byte sdk fn addr b") (simp add: mmc_io_rw_direct_def byte_read_ok_def)

lemmas card_setup_defs = mmc_sdio_switch_hs_def mmc_bus_interface_control_def atbm_sdio_read_cccr_def
  sdio_release_irq_def

text \<open>mmc_io_rw_direct reports success and failure the wrong way round, so the set-up functions that
  test its result stop exactly when the first read succeeds: high speed is not switched on, the
  capabilities stay zero, the bus width is not set, and an interrupt is never released; each returns
  -1 with nothing written.  sdio_f0_readb, on the same read, reports success.\<close>
theorem card_setup_stops_on_success:
  "(byte_read_ok sdk 0 SDIO_CCCR_SPEED b \<longrightarrow>
      mmc_sdio_switch_hs sdk enable junk b = (-1, snd (snd (sdk_read_byte sdk 0 SDIO_CCCR_SPEED b))) \<and>
      fst (snd (sdio_f0_readb sdk SDIO_CCCR_SPEED b)) = 0) \<and>
   (byte_read_ok sdk 0 SDIO_CCCR_CCCR b \<longrightarrow>
      atbm_sdio_read_cccr sdk junk b = (-1, cccr_zero, snd (snd (sdk_read_byte sdk 0 SDIO_CCCR_CCCR b)))) \<and>
   (byte_read_ok sdk 0 SDIO_CCCR_IF b \<longrightarrow>
      mmc_bus_interface_control sdk junk b = (-1, snd (snd (sdk_read_byte sdk 0 SDIO_CCCR_IF b)))) \<and>
   (byte_read_ok sdk 0 SDIO_CCCR_IENx b \<longrightarrow>
      sdio_release_irq sdk func junk irq b = (-1, irq, snd (snd (sdk_read_byte sdk 0 SDIO_CCCR_IENx b))))"
  by (auto simp: card_setup_defs mmc_read_ok sdio_f0_readb_def byte_read_ok_def split: prod.splits)

text \<open>A bus with one register per address that never fails, for the witnesses: its state is the contents
  of the registers.\<close>

definition demo_sdk :: "(u32 \<Rightarrow> u8) sdio_sdk" where
  "demo_sdk = \<lparr>sdk_read_byte = (\<lambda>fn a b. (True, b a, b)), sdk_write_byte = (\<lambda>fn a x b. (True, b(a := x))),
     sdk_read_multi = (\<lambda>fn a n b. (True, \<lambda>i. b (a + of_nat i), b)),
     sdk_write_multi = (\<lambda>fn a bs b. (True, \<lambda>x. if unat (x - a) < length bs then bs ! unat (x - a) else b x)),
     sdk_enable_irq = (\<lambda>on b. b)\<rparr>"

theorem card_setup_stops_on_success_witness:
  "mmc_sdio_switch_hs demo_sdk True 0 (\<lambda>_. 0x01) = (-1, \<lambda>_. 0x01)"
  using card_setup_stops_on_success[of demo_sdk "\<lambda>_. 0x01" True 0]
  by (simp add: byte_read_ok_def demo_sdk_def)

end
