(* ===== verification/Hwio.thy ===== *)
theory Hwio
  imports Os_Sdio
begin

text \<open>The low-level access to the chip, hal_apollo/hwio_sdio.c and hal_apollo/hwio_sdio.h, on the bus
  operations of hal_apollo/sbus.h and their SDIO instance in hal_apollo/apollo_sdio.c.

  The state hif is the part of struct atbm_common these functions use: the buffer numbers, the two
  force flags, the bus behind sbus_priv and how often the bus lock is held (its mutex is recursive).
  A function that reads takes the contents of the caller's buffer and returns its new contents;
  buf_addr is the address of the buffer, which the code tests for alignment.  Delays are not modelled.\<close>

abbreviation (input) MAX_RETRY :: nat where "MAX_RETRY \<equiv> 10"
abbreviation (input) ATBM_HIFREG_CONFIG_REG_ID :: u16 where "ATBM_HIFREG_CONFIG_REG_ID \<equiv> 0"
abbreviation (input) ATBM_HIFREG_CONTROL_REG_ID :: u16 where "ATBM_HIFREG_CONTROL_REG_ID \<equiv> 1"
abbreviation (input) ATBM_HIFREG_IN_OUT_QUEUE_REG_ID :: u16 where "ATBM_HIFREG_IN_OUT_QUEUE_REG_ID \<equiv> 2"
abbreviation (input) ATBM_HIFREG_AHB_DPORT_REG_ID :: u16 where "ATBM_HIFREG_AHB_DPORT_REG_ID \<equiv> 3"
abbreviation (input) ATBM_HIFREG_SRAM_BASE_ADDR_REG_ID :: u16 where "ATBM_HIFREG_SRAM_BASE_ADDR_REG_ID \<equiv> 4"
abbreviation (input) ATBM_HIFREG_SRAM_DPORT_REG_ID :: u16 where "ATBM_HIFREG_SRAM_DPORT_REG_ID \<equiv> 5"
abbreviation (input) ATBM_HIFREG_CONFIG_ACCESS_MODE_BIT :: u32 where "ATBM_HIFREG_CONFIG_ACCESS_MODE_BIT \<equiv> 0x400"
abbreviation (input) ATBM_HIFREG_CONFIG_AHB_PFETCH_BIT :: u32 where "ATBM_HIFREG_CONFIG_AHB_PFETCH_BIT \<equiv> 0x800"
abbreviation (input) ATBM_HIFREG_CONFIG_PFETCH_BIT :: u32 where "ATBM_HIFREG_CONFIG_PFETCH_BIT \<equiv> 0x2000"
abbreviation (input) ATBM_HIFREG_CONFIG_CPU_RESET_BIT :: u32 where "ATBM_HIFREG_CONFIG_CPU_RESET_BIT \<equiv> 0x4000"
abbreviation (input) ATBM_HIFREG_CONFIG_CLEAR_INT_BIT :: u32 where "ATBM_HIFREG_CONFIG_CLEAR_INT_BIT \<equiv> 0x8000"
abbreviation (input) ATBM_HIFREG_CONF_IRQ_RDY_ENABLE :: u32 where "ATBM_HIFREG_CONF_IRQ_RDY_ENABLE \<equiv> 0x30000"
abbreviation (input) ATBM_HIFREG_PS_SYNC_SDIO_FLAG :: u32 where "ATBM_HIFREG_PS_SYNC_SDIO_FLAG \<equiv> 0x800000"
abbreviation (input) ATBM_HIFREG_PS_SYNC_SDIO_CLEAN :: u32 where "ATBM_HIFREG_PS_SYNC_SDIO_CLEAN \<equiv> 0x1000000"
abbreviation (input) ATBM_HIFREG_CONT_WUP_BIT :: u16 where "ATBM_HIFREG_CONT_WUP_BIT \<equiv> 0x1000"

record 'b sbus_ops =
  sbus_memcpy_fromio :: "u32 \<Rightarrow> bytes \<Rightarrow> 'b \<Rightarrow> int \<times> bytes \<times> 'b"
  sbus_memcpy_toio :: "u32 \<Rightarrow> bytes \<Rightarrow> 'b \<Rightarrow> int \<times> 'b"
  sbus_read_sync :: "u32 \<Rightarrow> bytes \<Rightarrow> 'b \<Rightarrow> int \<times> bytes \<times> 'b"
  sbus_write_sync :: "u32 \<Rightarrow> bytes \<Rightarrow> 'b \<Rightarrow> int \<times> 'b"
  sbus_abort :: "'b \<Rightarrow> int \<times> 'b"
  sbus_irq_unsubscribe :: "'b \<Rightarrow> int \<times> 'b"

record 'b hif =
  hif_bus :: 'b
  hif_locks :: nat
  buf_id_tx :: int
  buf_id_rx :: int
  buf_id_offset :: int
  buf_force_tx :: bool
  buf_force_rx :: bool

text \<open>The operations of the SDIO driver.  irq_unsubscribe has state of its own and is left open.\<close>

definition atbm_sdio_sbus_ops ::
    "'b sdio_sdk \<Rightarrow> sdio_func \<Rightarrow> ('b \<Rightarrow> int \<times> 'b) \<Rightarrow> 'b sbus_ops" where
  "atbm_sdio_sbus_ops sdk func unsub =
     \<lparr>sbus_memcpy_fromio = (\<lambda>addr dst b. sdio_memcpy_fromio sdk func dst addr b),
      sbus_memcpy_toio = (\<lambda>addr src b. sdio_memcpy_toio sdk func addr src b),
      sbus_read_sync = (\<lambda>addr dst b. sdio_memcpy_fromio sdk func dst addr b),
      sbus_write_sync = (\<lambda>addr src b. sdio_memcpy_toio sdk func addr src b),
      sbus_abort = atbm_cmd52_abort sdk, sbus_irq_unsubscribe = unsub\<rparr>"

definition sbus_lock :: "'b hif \<Rightarrow> 'b hif" where
  "sbus_lock h = h\<lparr>hif_locks := hif_locks h + 1\<rparr>"

definition sbus_unlock :: "'b hif \<Rightarrow> 'b hif" where
  "sbus_unlock h = h\<lparr>hif_locks := hif_locks h - 1\<rparr>"

subsection \<open>Addresses and single transfers\<close>

definition SPI_REG_ADDR_TO_SDIO :: "u16 \<Rightarrow> u16" where
  "SPI_REG_ADDR_TO_SDIO spi_reg_addr = push_bit 2 spi_reg_addr"

definition SDIO_ADDR17BIT :: "int \<Rightarrow> bool \<Rightarrow> u16 \<Rightarrow> u32" where
  "SDIO_ADDR17BIT buf_id force reg_id_ofs =
     push_bit 6 (of_int buf_id AND 0x7F) OR push_bit 5 (of_bool force) OR (ucast reg_id_ofs AND 0x1F)"

definition misaligned :: "nat \<Rightarrow> bytes \<Rightarrow> bool" where
  "misaligned buf_addr buf \<longleftrightarrow> buf_addr mod 4 \<noteq> 0 \<and> length buf > 4"

definition atbm_reg_read0 :: "'b sbus_ops \<Rightarrow> u16 \<Rightarrow> nat \<Rightarrow> bytes \<Rightarrow> 'b hif \<Rightarrow> int \<times> bytes \<times> 'b hif" where
  "atbm_reg_read0 ops addr buf_addr buf h =
     (if misaligned buf_addr buf then (- EINVAL, buf, h)
      else let (ret, buf, b) = sbus_read_sync ops (SDIO_ADDR17BIT 0 False (SPI_REG_ADDR_TO_SDIO addr)) buf (hif_bus h)
           in (ret, buf, h\<lparr>hif_bus := b\<rparr>))"

definition atbm_reg_write0 :: "'b sbus_ops \<Rightarrow> u16 \<Rightarrow> bytes \<Rightarrow> 'b hif \<Rightarrow> int \<times> 'b hif" where
  "atbm_reg_write0 ops addr buf h =
     (let (ret, b) = sbus_write_sync ops (SDIO_ADDR17BIT 0 False (SPI_REG_ADDR_TO_SDIO addr)) buf (hif_bus h)
      in (ret, h\<lparr>hif_bus := b\<rparr>))"

definition atbm_data_read0 ::
    "'b sbus_ops \<Rightarrow> u16 \<Rightarrow> nat \<Rightarrow> bytes \<Rightarrow> int \<Rightarrow> 'b hif \<Rightarrow> int \<times> bytes \<times> 'b hif" where
  "atbm_data_read0 ops addr buf_addr buf buf_id h =
     (if misaligned buf_addr buf then (- EINVAL, buf, h)
      else let a = SDIO_ADDR17BIT buf_id (buf_force_tx h) (SPI_REG_ADDR_TO_SDIO addr);
               (ret, buf, b) = sbus_memcpy_fromio ops a buf (hif_bus h)
           in (ret, buf, h\<lparr>buf_force_tx := False, hif_bus := b\<rparr>))"

definition atbm_data_write0 :: "'b sbus_ops \<Rightarrow> u16 \<Rightarrow> bytes \<Rightarrow> int \<Rightarrow> 'b hif \<Rightarrow> int \<times> 'b hif" where
  "atbm_data_write0 ops addr buf buf_id h =
     (let a = SDIO_ADDR17BIT buf_id (buf_force_rx h) (SPI_REG_ADDR_TO_SDIO addr);
          (ret, b) = sbus_memcpy_toio ops a buf (hif_bus h)
      in (ret, h\<lparr>buf_force_rx := False, hif_bus := b\<rparr>))"

text \<open>The registers of 32 bits: a variable on the stack, which is aligned.\<close>

definition atbm_reg_read0_32 :: "'b sbus_ops \<Rightarrow> u16 \<Rightarrow> u32 \<Rightarrow> 'b hif \<Rightarrow> int \<times> u32 \<times> 'b hif" where
  "atbm_reg_read0_32 ops addr val h =
     (let (ret, buf, h) = atbm_reg_read0 ops addr 0 (bytes32 val) h in (ret, val32 buf, h))"

definition atbm_reg_write0_32 :: "'b sbus_ops \<Rightarrow> u16 \<Rightarrow> u32 \<Rightarrow> 'b hif \<Rightarrow> int \<times> 'b hif" where
  "atbm_reg_write0_32 ops addr val h = atbm_reg_write0 ops addr (bytes32 val) h"

text \<open>The registers of the clock generator, whose addresses are not shifted.\<close>

definition atbm_reg_write0_dpll :: "'b sbus_ops \<Rightarrow> u16 \<Rightarrow> nat \<Rightarrow> bytes \<Rightarrow> int \<Rightarrow> 'b hif \<Rightarrow> int \<times> 'b hif" where
  "atbm_reg_write0_dpll ops addr buf_addr buf buf_id h =
     (if misaligned buf_addr buf then (- EINVAL, h)
      else let (ret, b) = sbus_write_sync ops (SDIO_ADDR17BIT buf_id False addr) buf (hif_bus h)
           in (ret, h\<lparr>hif_bus := b\<rparr>))"

definition atbm_reg_read0_dpll :: "'b sbus_ops \<Rightarrow> u16 \<Rightarrow> bytes \<Rightarrow> int \<Rightarrow> 'b hif \<Rightarrow> int \<times> bytes \<times> 'b hif" where
  "atbm_reg_read0_dpll ops addr buf buf_id h =
     (let (ret, buf, b) = sbus_read_sync ops (SDIO_ADDR17BIT buf_id False addr) buf (hif_bus h)
      in (ret, buf, h\<lparr>hif_bus := b\<rparr>))"

definition atbm_reg_read_dpll :: "'b sbus_ops \<Rightarrow> u16 \<Rightarrow> bytes \<Rightarrow> 'b hif \<Rightarrow> int \<times> bytes \<times> 'b hif" where
  "atbm_reg_read_dpll ops addr buf h =
     (let (ret, buf, h) = atbm_reg_read0_dpll ops addr buf 0 (sbus_lock h) in (ret, buf, sbus_unlock h))"

definition atbm_reg_write_dpll :: "'b sbus_ops \<Rightarrow> u16 \<Rightarrow> nat \<Rightarrow> bytes \<Rightarrow> 'b hif \<Rightarrow> int \<times> 'b hif" where
  "atbm_reg_write_dpll ops addr buf_addr buf h =
     (let (ret, h) = atbm_reg_write0_dpll ops addr buf_addr buf 0 (sbus_lock h) in (ret, sbus_unlock h))"

definition atbm_reg_read_8 :: "'b sbus_ops \<Rightarrow> u16 \<Rightarrow> u32 \<Rightarrow> 'b hif \<Rightarrow> int \<times> u8 \<times> 'b hif" where
  "atbm_reg_read_8 ops addr bigVal h =
     (let (ret, buf, h) = atbm_reg_read_dpll ops addr (bytes32 bigVal) h in (ret, ucast (val32 buf), h))"

definition atbm_reg_write_8 :: "'b sbus_ops \<Rightarrow> u16 \<Rightarrow> u8 \<Rightarrow> 'b hif \<Rightarrow> int \<times> 'b hif" where
  "atbm_reg_write_8 ops addr val h = atbm_reg_write_dpll ops addr 0 (bytes32 (ucast val)) h"

subsection \<open>Registers\<close>

definition atbm_reg_read :: "'b sbus_ops \<Rightarrow> u16 \<Rightarrow> nat \<Rightarrow> bytes \<Rightarrow> 'b hif \<Rightarrow> int \<times> bytes \<times> 'b hif" where
  "atbm_reg_read ops addr buf_addr buf h =
     (let (ret, buf, h) = atbm_reg_read0 ops addr buf_addr buf (sbus_lock h) in (ret, buf, sbus_unlock h))"

definition atbm_reg_write :: "'b sbus_ops \<Rightarrow> u16 \<Rightarrow> bytes \<Rightarrow> 'b hif \<Rightarrow> int \<times> 'b hif" where
  "atbm_reg_write ops addr buf h =
     (let (ret, h) = atbm_reg_write0 ops addr buf (sbus_lock h) in (ret, sbus_unlock h))"

text \<open>Loops that try an access again while it fails, with the number of attempts left.\<close>

primrec reg_read_tries ::
    "nat \<Rightarrow> 'b sbus_ops \<Rightarrow> u16 \<Rightarrow> nat \<Rightarrow> int \<times> bytes \<times> 'b hif \<Rightarrow> int \<times> bytes \<times> 'b hif" where
  "reg_read_tries 0 ops addr buf_addr r = r"
| "reg_read_tries (Suc tries) ops addr buf_addr r =
     (let (ret, buf, h) = atbm_reg_read0 ops addr buf_addr (fst (snd r)) (snd (snd r))
      in if ret \<noteq> 0 then reg_read_tries tries ops addr buf_addr (ret, buf, h) else (ret, buf, h))"

definition atbm_reg_read_unlock :: "'b sbus_ops \<Rightarrow> u16 \<Rightarrow> nat \<Rightarrow> bytes \<Rightarrow> 'b hif \<Rightarrow> int \<times> bytes \<times> 'b hif" where
  "atbm_reg_read_unlock ops addr buf_addr buf h = reg_read_tries 4 ops addr buf_addr (0, buf, h)"

primrec reg_write_tries :: "nat \<Rightarrow> 'b sbus_ops \<Rightarrow> u16 \<Rightarrow> bytes \<Rightarrow> int \<times> 'b hif \<Rightarrow> int \<times> 'b hif" where
  "reg_write_tries 0 ops addr buf r = r"
| "reg_write_tries (Suc tries) ops addr buf r =
     (let (ret, h) = atbm_reg_write0 ops addr buf (snd r)
      in if ret \<noteq> 0 then reg_write_tries tries ops addr buf (ret, h) else (ret, h))"

definition atbm_reg_write_unlock :: "'b sbus_ops \<Rightarrow> u16 \<Rightarrow> bytes \<Rightarrow> 'b hif \<Rightarrow> int \<times> 'b hif" where
  "atbm_reg_write_unlock ops addr buf h = reg_write_tries 4 ops addr buf (0, h)"

definition atbm_reg_read_32 :: "'b sbus_ops \<Rightarrow> u16 \<Rightarrow> u32 \<Rightarrow> 'b hif \<Rightarrow> int \<times> u32 \<times> 'b hif" where
  "atbm_reg_read_32 ops addr val h =
     (let (ret, buf, h) = atbm_reg_read ops addr 0 (bytes32 val) h in (ret, val32 buf, h))"

definition atbm_reg_write_32 :: "'b sbus_ops \<Rightarrow> u16 \<Rightarrow> u32 \<Rightarrow> 'b hif \<Rightarrow> int \<times> 'b hif" where
  "atbm_reg_write_32 ops addr val h = atbm_reg_write ops addr (bytes32 val) h"

definition atbm_reg_read_unlock_32 :: "'b sbus_ops \<Rightarrow> u16 \<Rightarrow> u32 \<Rightarrow> 'b hif \<Rightarrow> int \<times> u32 \<times> 'b hif" where
  "atbm_reg_read_unlock_32 ops addr val h =
     (let (ret, buf, h) = atbm_reg_read_unlock ops addr 0 (bytes32 val) h in (ret, val32 buf, h))"

definition atbm_reg_write_unlock_32 :: "'b sbus_ops \<Rightarrow> u16 \<Rightarrow> u32 \<Rightarrow> 'b hif \<Rightarrow> int \<times> 'b hif" where
  "atbm_reg_write_unlock_32 ops addr val h = atbm_reg_write_unlock ops addr (bytes32 val) h"

text \<open>The 16-bit registers go through a variable of 32 bits that is not initialised.\<close>

definition atbm_reg_read_16 :: "'b sbus_ops \<Rightarrow> u16 \<Rightarrow> u32 \<Rightarrow> 'b hif \<Rightarrow> int \<times> u16 \<times> 'b hif" where
  "atbm_reg_read_16 ops addr bigVal h =
     (let (ret, buf, h) = atbm_reg_read ops addr 0 (bytes32 bigVal) h in (ret, ucast (val32 buf), h))"

definition atbm_reg_read_16_unlock :: "'b sbus_ops \<Rightarrow> u16 \<Rightarrow> u32 \<Rightarrow> 'b hif \<Rightarrow> int \<times> u16 \<times> 'b hif" where
  "atbm_reg_read_16_unlock ops addr bigVal h =
     (let (ret, buf, h) = atbm_reg_read_unlock ops addr 0 (bytes32 bigVal) h in (ret, ucast (val32 buf), h))"

definition atbm_reg_write_16 :: "'b sbus_ops \<Rightarrow> u16 \<Rightarrow> u16 \<Rightarrow> 'b hif \<Rightarrow> int \<times> 'b hif" where
  "atbm_reg_write_16 ops addr val h = atbm_reg_write ops addr (bytes32 (ucast val)) h"

subsection \<open>The message queue\<close>

primrec data_read_tries :: "nat \<Rightarrow> 'b sbus_ops \<Rightarrow> nat \<Rightarrow> int \<times> bytes \<times> 'b hif \<Rightarrow> int \<times> bytes \<times> 'b hif" where
  "data_read_tries 0 ops buf_addr r = r"
| "data_read_tries (Suc tries) ops buf_addr r =
     (let (_, buf, h) = r; id_rx = buf_id_rx h;
          (ret, buf, h) = atbm_data_read0 ops ATBM_HIFREG_IN_OUT_QUEUE_REG_ID buf_addr buf (id_rx + 1) h
      in if ret = 0 then (ret, buf, h\<lparr>buf_id_rx := (id_rx + 1) AND 3\<rparr>)
         else data_read_tries tries ops buf_addr (ret, buf, h))"

definition atbm_data_read_unlock :: "'b sbus_ops \<Rightarrow> nat \<Rightarrow> bytes \<Rightarrow> 'b hif \<Rightarrow> int \<times> bytes \<times> 'b hif" where
  "atbm_data_read_unlock ops buf_addr buf h = data_read_tries MAX_RETRY ops buf_addr (-1, buf, h)"

definition atbm_data_read :: "'b sbus_ops \<Rightarrow> nat \<Rightarrow> bytes \<Rightarrow> 'b hif \<Rightarrow> int \<times> bytes \<times> 'b hif" where
  "atbm_data_read ops buf_addr buf h =
     (let (ret, buf, h) = atbm_data_read_unlock ops buf_addr buf (sbus_lock h) in (ret, buf, sbus_unlock h))"

text \<open>Both writes: buf_id is the number of the first attempt, which every attempt uses.\<close>

primrec data_write_tries :: "nat \<Rightarrow> 'b sbus_ops \<Rightarrow> bytes \<Rightarrow> int \<Rightarrow> int \<times> 'b hif \<Rightarrow> int \<times> 'b hif" where
  "data_write_tries 0 ops buf buf_id r = r"
| "data_write_tries (Suc tries) ops buf buf_id r =
     (let (ret, h) = atbm_data_write0 ops ATBM_HIFREG_IN_OUT_QUEUE_REG_ID buf buf_id (snd r)
      in if ret = 0 then (ret, h\<lparr>buf_id_tx := (buf_id + buf_id_offset h) AND 0x3f\<rparr>)
         else data_write_tries tries ops buf buf_id (ret, h))"

definition atbm_data_write_unlock :: "'b sbus_ops \<Rightarrow> bytes \<Rightarrow> 'b hif \<Rightarrow> int \<times> 'b hif" where
  "atbm_data_write_unlock ops buf h = data_write_tries MAX_RETRY ops buf (buf_id_tx h) (-1, h)"

definition atbm_data_write :: "'b sbus_ops \<Rightarrow> bytes \<Rightarrow> 'b hif \<Rightarrow> int \<times> 'b hif" where
  "atbm_data_write ops buf h =
     (let (ret, h) = atbm_data_write_unlock ops buf (sbus_lock h) in (ret, sbus_unlock h))"

definition atbm_data_force_write :: "'b sbus_ops \<Rightarrow> bytes \<Rightarrow> 'b hif \<Rightarrow> int \<times> 'b hif" where
  "atbm_data_force_write ops buf h =
     (let (ret, h) = data_write_tries MAX_RETRY ops buf (((buf_id_tx h - 1) AND 0x3f) + 64) (-1, sbus_lock h)
      in (ret, sbus_unlock h))"

subsection \<open>The memory of the chip\<close>

text \<open>The loop that waits for the prefetch bit to be cleared, as atbm_indirect_read has it: an error
  ends it.  The result is the code, the register and the state.\<close>

primrec poll_prefetch :: "nat \<Rightarrow> 'b sbus_ops \<Rightarrow> u32 \<Rightarrow> int \<times> u32 \<times> 'b hif \<Rightarrow> int \<times> u32 \<times> 'b hif" where
  "poll_prefetch 0 ops prefetch r = r"
| "poll_prefetch (Suc n) ops prefetch r =
     (let (ret, val32, h) = atbm_reg_read0_32 ops ATBM_HIFREG_CONFIG_REG_ID (fst (snd r)) (snd (snd r))
      in if ret < 0 \<or> val32 AND prefetch = 0 then (ret, val32, h)
         else poll_prefetch n ops prefetch (ret, val32, h))"

definition atbm_indirect_read ::
    "'b sbus_ops \<Rightarrow> u32 \<Rightarrow> nat \<Rightarrow> bytes \<Rightarrow> u32 \<Rightarrow> u16 \<Rightarrow> 'b hif \<Rightarrow> int \<times> bytes \<times> 'b hif" where
  "atbm_indirect_read ops addr buf_addr buf prefetch port_addr h =
     (if length buf div 2 \<ge> 0x1000 then (- EINVAL, buf, h)
      else let (ret, h) = atbm_reg_write0_32 ops ATBM_HIFREG_SRAM_BASE_ADDR_REG_ID addr (sbus_lock h) in
        if ret < 0 then (ret, buf, sbus_unlock h)
        else let (ret, val32, h) = atbm_reg_read0_32 ops ATBM_HIFREG_CONFIG_REG_ID 0 h in
          if ret < 0 then (ret, buf, sbus_unlock h)
          else let (ret, h) = atbm_reg_write0_32 ops ATBM_HIFREG_CONFIG_REG_ID (val32 OR prefetch) h in
            if ret < 0 then (ret, buf, sbus_unlock h)
            else let (ret, val32, h) = poll_prefetch 20 ops prefetch (ret, val32, h) in
              if ret < 0 \<or> val32 AND prefetch \<noteq> 0 then (ret, buf, sbus_unlock h)
              else let (ret, buf, h) = atbm_reg_read0 ops port_addr buf_addr buf h
                   in (ret, buf, sbus_unlock h))"

text \<open>A write of the base address followed by a write of a data port: atbm_apb_write and
  atbm_ahb_write differ in the port and in the limit, atbm_apb_write_reset takes no lock.\<close>

definition write_port ::
    "'b sbus_ops \<Rightarrow> u16 \<Rightarrow> u32 \<Rightarrow> bytes \<Rightarrow> 'b hif \<Rightarrow> int \<times> 'b hif" where
  "write_port ops port addr buf h =
     (let (ret, h) = atbm_reg_write0_32 ops ATBM_HIFREG_SRAM_BASE_ADDR_REG_ID addr h
      in if ret < 0 then (ret, h) else atbm_reg_write0 ops port buf h)"

definition atbm_apb_write :: "'b sbus_ops \<Rightarrow> u32 \<Rightarrow> bytes \<Rightarrow> 'b hif \<Rightarrow> int \<times> 'b hif" where
  "atbm_apb_write ops addr buf h =
     (if length buf div 2 \<ge> 0x1000 then (- EINVAL, h)
      else let (ret, h) = write_port ops ATBM_HIFREG_SRAM_DPORT_REG_ID addr buf (sbus_lock h)
           in (ret, sbus_unlock h))"

definition atbm_apb_write_reset :: "'b sbus_ops \<Rightarrow> u32 \<Rightarrow> bytes \<Rightarrow> 'b hif \<Rightarrow> int \<times> 'b hif" where
  "atbm_apb_write_reset ops addr buf h =
     (if length buf div 2 \<ge> 0x1000 then (- EINVAL, h)
      else write_port ops ATBM_HIFREG_SRAM_DPORT_REG_ID addr buf h)"

definition atbm_ahb_write :: "'b sbus_ops \<Rightarrow> u32 \<Rightarrow> bytes \<Rightarrow> 'b hif \<Rightarrow> int \<times> 'b hif" where
  "atbm_ahb_write ops addr buf h =
     (if length buf \<ge> 512 then (- EINVAL, h)
      else let (ret, h) = write_port ops ATBM_HIFREG_AHB_DPORT_REG_ID addr buf (sbus_lock h)
           in (ret, sbus_unlock h))"

definition atbm_fw_write :: "'b sbus_ops \<Rightarrow> u32 \<Rightarrow> bytes \<Rightarrow> 'b hif \<Rightarrow> int \<times> 'b hif" where
  "atbm_fw_write = atbm_ahb_write"

definition atbm_ahb_read_32 :: "'b sbus_ops \<Rightarrow> u32 \<Rightarrow> u32 \<Rightarrow> 'b hif \<Rightarrow> int \<times> u32 \<times> 'b hif" where
  "atbm_ahb_read_32 ops addr val h =
     (let (ret, buf, h) = atbm_indirect_read ops addr 0 (bytes32 val) ATBM_HIFREG_CONFIG_AHB_PFETCH_BIT
            ATBM_HIFREG_AHB_DPORT_REG_ID h
      in (ret, val32 buf, h))"

definition atbm_ahb_write_32 :: "'b sbus_ops \<Rightarrow> u32 \<Rightarrow> u32 \<Rightarrow> 'b hif \<Rightarrow> int \<times> 'b hif" where
  "atbm_ahb_write_32 ops addr val h = atbm_ahb_write ops addr (bytes32 val) h"

subsection \<open>The memory of the chip, without the lock\<close>

text \<open>Here an access is repeated up to four times while it fails with a negative code, and the function
  goes on to the next access whether or not one of them succeeded.\<close>

primrec reg_write_neg_tries :: "nat \<Rightarrow> 'b sbus_ops \<Rightarrow> u16 \<Rightarrow> bytes \<Rightarrow> int \<times> 'b hif \<Rightarrow> int \<times> 'b hif" where
  "reg_write_neg_tries 0 ops addr buf r = r"
| "reg_write_neg_tries (Suc tries) ops addr buf r =
     (let (ret, h) = atbm_reg_write0 ops addr buf (snd r)
      in if ret < 0 then reg_write_neg_tries tries ops addr buf (ret, h) else (ret, h))"

primrec reg_read_neg_tries ::
    "nat \<Rightarrow> 'b sbus_ops \<Rightarrow> u16 \<Rightarrow> nat \<Rightarrow> int \<times> bytes \<times> 'b hif \<Rightarrow> int \<times> bytes \<times> 'b hif" where
  "reg_read_neg_tries 0 ops addr buf_addr r = r"
| "reg_read_neg_tries (Suc tries) ops addr buf_addr r =
     (let (ret, buf, h) = atbm_reg_read0 ops addr buf_addr (fst (snd r)) (snd (snd r))
      in if ret < 0 then reg_read_neg_tries tries ops addr buf_addr (ret, buf, h) else (ret, buf, h))"

primrec poll_prefetch_unlock :: "nat \<Rightarrow> 'b sbus_ops \<Rightarrow> u32 \<Rightarrow> int \<times> u32 \<times> 'b hif \<Rightarrow> int \<times> u32 \<times> 'b hif" where
  "poll_prefetch_unlock 0 ops prefetch r = r"
| "poll_prefetch_unlock (Suc n) ops prefetch r =
     (let (ret, val32, h) = atbm_reg_read0_32 ops ATBM_HIFREG_CONFIG_REG_ID (fst (snd r)) (snd (snd r))
      in if \<not> ret < 0 \<and> val32 AND prefetch = 0 then (ret, val32, h)
         else poll_prefetch_unlock n ops prefetch (ret, val32, h))"

definition atbm_indirect_read_unlock ::
    "'b sbus_ops \<Rightarrow> u32 \<Rightarrow> nat \<Rightarrow> bytes \<Rightarrow> u32 \<Rightarrow> u16 \<Rightarrow> 'b hif \<Rightarrow> int \<times> bytes \<times> 'b hif" where
  "atbm_indirect_read_unlock ops addr buf_addr buf prefetch port_addr h =
     (if length buf div 2 \<ge> 0x1000 then (- EINVAL, buf, h)
      else let (ret, h) = reg_write_neg_tries 4 ops ATBM_HIFREG_SRAM_BASE_ADDR_REG_ID (bytes32 addr) (0, h);
               (ret, cfg, h) = reg_read_neg_tries 4 ops ATBM_HIFREG_CONFIG_REG_ID 0 (ret, bytes32 0, h);
               (ret, h) = reg_write_neg_tries 4 ops ATBM_HIFREG_CONFIG_REG_ID
                            (bytes32 (val32 cfg OR prefetch)) (ret, h);
               (ret, val, h) = poll_prefetch_unlock 20 ops prefetch (ret, val32 cfg, h)
           in if val AND prefetch \<noteq> 0 then (ret, buf, h)
              else reg_read_neg_tries 4 ops port_addr buf_addr (ret, buf, h))"

definition atbm_ahb_write_unlock :: "'b sbus_ops \<Rightarrow> u32 \<Rightarrow> bytes \<Rightarrow> 'b hif \<Rightarrow> int \<times> 'b hif" where
  "atbm_ahb_write_unlock ops addr buf h =
     (if length buf \<ge> 512 then (- EINVAL, h)
      else reg_write_neg_tries 4 ops ATBM_HIFREG_AHB_DPORT_REG_ID buf
             (reg_write_neg_tries 4 ops ATBM_HIFREG_SRAM_BASE_ADDR_REG_ID (bytes32 addr) (0, h)))"

definition atbm_ahb_read_unlock_32 :: "'b sbus_ops \<Rightarrow> u32 \<Rightarrow> u32 \<Rightarrow> 'b hif \<Rightarrow> int \<times> u32 \<times> 'b hif" where
  "atbm_ahb_read_unlock_32 ops addr val h =
     (let (ret, buf, h) = atbm_indirect_read_unlock ops addr 0 (bytes32 val) ATBM_HIFREG_CONFIG_AHB_PFETCH_BIT
            ATBM_HIFREG_AHB_DPORT_REG_ID h
      in (ret, val32 buf, h))"

text \<open>retry is tested but never counted up: the loop ends only with a success.\<close>

partial_function (option) atbm_ahb_write_unlock_32 ::
    "'b sbus_ops \<Rightarrow> u32 \<Rightarrow> u32 \<Rightarrow> 'b hif \<Rightarrow> (int \<times> 'b hif) option" where
  "atbm_ahb_write_unlock_32 ops addr val h =
     (let (ret, h) = atbm_ahb_write_unlock ops addr (bytes32 val) h
      in if ret \<noteq> 0 then atbm_ahb_write_unlock_32 ops addr val h else Some (ret, h))"

subsection \<open>Direct access\<close>

text \<open>The end of the four functions: the label out writes the configuration register back and is its
  own error exit.\<close>

partial_function (option) restore_config ::
    "('b hif \<Rightarrow> int \<times> 'b hif) \<Rightarrow> 'b hif \<Rightarrow> (int \<times> 'b hif) option" where
  "restore_config write h = (let (ret, h) = write h in if ret < 0 then restore_config write h else Some (ret, h))"

definition atbm_direct_read_reg_32 ::
    "'b sbus_ops \<Rightarrow> u32 \<Rightarrow> u32 \<Rightarrow> u32 \<Rightarrow> 'b hif \<Rightarrow> (int \<times> u32 \<times> 'b hif) option" where
  "atbm_direct_read_reg_32 ops addr val junk h =
     (let (ret, config, h) = atbm_reg_read_32 ops ATBM_HIFREG_CONFIG_REG_ID junk h in
      if ret < 0 then Some (ret, val, h)
      else let (ret, h) = atbm_reg_write_32 ops ATBM_HIFREG_CONFIG_REG_ID
                            (config OR ATBM_HIFREG_CONFIG_ACCESS_MODE_BIT) h;
               (val, h) = (if ret < 0 then (val, h)
                           else let (_, val, h) = atbm_ahb_read_32 ops addr val h in (val, h))
           in do { (ret, h) \<leftarrow> restore_config (atbm_reg_write_32 ops ATBM_HIFREG_CONFIG_REG_ID config) h;
                   Some (ret, val, h) })"

definition atbm_direct_write_reg_32 ::
    "'b sbus_ops \<Rightarrow> u32 \<Rightarrow> u32 \<Rightarrow> u32 \<Rightarrow> 'b hif \<Rightarrow> (int \<times> 'b hif) option" where
  "atbm_direct_write_reg_32 ops addr val junk h =
     (let (ret, config, h) = atbm_reg_read_32 ops ATBM_HIFREG_CONFIG_REG_ID junk h in
      if ret < 0 then Some (ret, h)
      else let (ret, h) = atbm_reg_write_32 ops ATBM_HIFREG_CONFIG_REG_ID
                            (config OR ATBM_HIFREG_CONFIG_ACCESS_MODE_BIT) h;
               h = (if ret < 0 then h else snd (atbm_ahb_write_32 ops addr val h))
           in restore_config (atbm_reg_write_32 ops ATBM_HIFREG_CONFIG_REG_ID config) h)"

definition atbm_direct_read_unlock ::
    "'b sbus_ops \<Rightarrow> u32 \<Rightarrow> u32 \<Rightarrow> u32 \<Rightarrow> 'b hif \<Rightarrow> (int \<times> u32 \<times> 'b hif) option" where
  "atbm_direct_read_unlock ops addr val junk h =
     (let (ret, config, h) = atbm_reg_read_unlock_32 ops ATBM_HIFREG_CONFIG_REG_ID junk h in
      if ret < 0 then Some (ret, val, h)
      else let (ret, h) = atbm_reg_write_unlock_32 ops ATBM_HIFREG_CONFIG_REG_ID
                            (config OR ATBM_HIFREG_CONFIG_ACCESS_MODE_BIT) h;
               (val, h) = (if ret < 0 then (val, h)
                           else let (_, val, h) = atbm_ahb_read_unlock_32 ops addr val h in (val, h))
           in do { (ret, h) \<leftarrow> restore_config (atbm_reg_write_unlock_32 ops ATBM_HIFREG_CONFIG_REG_ID config) h;
                   Some (ret, val, h) })"

definition atbm_direct_write_unlock ::
    "'b sbus_ops \<Rightarrow> u32 \<Rightarrow> u32 \<Rightarrow> u32 \<Rightarrow> 'b hif \<Rightarrow> (int \<times> 'b hif) option" where
  "atbm_direct_write_unlock ops addr val junk h =
     (let (ret, config, h) = atbm_reg_read_unlock_32 ops ATBM_HIFREG_CONFIG_REG_ID junk h in
      if ret < 0 then Some (ret, h)
      else let (ret, h) = atbm_reg_write_unlock_32 ops ATBM_HIFREG_CONFIG_REG_ID
                            (config OR ATBM_HIFREG_CONFIG_ACCESS_MODE_BIT) h
           in do { h \<leftarrow> (if ret < 0 then Some h else do { (_, h) \<leftarrow> atbm_ahb_write_unlock_32 ops addr val h; Some h });
                   restore_config (atbm_reg_write_unlock_32 ops ATBM_HIFREG_CONFIG_REG_ID config) h })"

subsection \<open>Interrupts and start\<close>

definition atbm_irq_enable :: "'b sbus_ops \<Rightarrow> bool \<Rightarrow> u32 \<Rightarrow> 'b hif \<Rightarrow> int \<times> 'b hif" where
  "atbm_irq_enable ops enable junk h =
     (let (ret, val32, h) = atbm_reg_read0_32 ops ATBM_HIFREG_CONFIG_REG_ID junk h in
      if ret < 0 then (ret, h)
      else if enable \<and> val32 AND ATBM_HIFREG_CONF_IRQ_RDY_ENABLE \<noteq> 0 then (ret, h)
      else if \<not> enable \<and> val32 AND ATBM_HIFREG_CONF_IRQ_RDY_ENABLE = 0 then (ret, h)
      else let val32 = (if enable then val32 OR ATBM_HIFREG_CONF_IRQ_RDY_ENABLE
                        else val32 AND NOT ATBM_HIFREG_CONF_IRQ_RDY_ENABLE);
               (ret, h) = atbm_reg_write0_32 ops ATBM_HIFREG_CONFIG_REG_ID val32 h
           in if ret < 0 then (ret, h) else (0, h))"

definition irq_unsubscribe :: "'b sbus_ops \<Rightarrow> 'b hif \<Rightarrow> 'b hif" where
  "irq_unsubscribe ops h = h\<lparr>hif_bus := snd (sbus_irq_unsubscribe ops (hif_bus h))\<rparr>"

definition atbm_after_load_firmware :: "'b sbus_ops \<Rightarrow> u32 \<Rightarrow> u32 \<Rightarrow> 'b hif \<Rightarrow> int \<times> 'b hif" where
  "atbm_after_load_firmware ops junk junk16 h =
     (let (_, val, h) = atbm_ahb_read_32 ops 0x161000ac junk h;
          val = (val AND 0xFFFFF7F8) OR 0x1000;
          (_, h) = atbm_ahb_write_32 ops 0x161000ac val h;
          (ret, val, h) = atbm_reg_read_32 ops ATBM_HIFREG_CONFIG_REG_ID val h
      in if ret < 0 then (ret, irq_unsubscribe ops h)
         else let val = (val OR ATBM_HIFREG_CONF_IRQ_RDY_ENABLE) AND NOT ATBM_HIFREG_CONFIG_CPU_RESET_BIT
                          AND NOT ATBM_HIFREG_CONFIG_CLEAR_INT_BIT;
                  (ret, h) = atbm_reg_write_32 ops ATBM_HIFREG_CONFIG_REG_ID val h
              in if ret < 0 then (ret, irq_unsubscribe ops h)
         else let (ret, val, h) = atbm_reg_read_32 ops ATBM_HIFREG_CONFIG_REG_ID val h
              in if ret < 0 then (ret, irq_unsubscribe ops h)
         else let (ret, h) = atbm_reg_write_32 ops ATBM_HIFREG_CONFIG_REG_ID
                               (val AND NOT ATBM_HIFREG_CONFIG_ACCESS_MODE_BIT) h
              in if ret < 0 then (ret, irq_unsubscribe ops h)
         else let (_, _, h) = atbm_reg_read_32 ops ATBM_HIFREG_CONFIG_REG_ID val h;
                  (ret, val16, h) = atbm_reg_read_16 ops ATBM_HIFREG_CONTROL_REG_ID junk16 h
              in if ret < 0 then (ret, h)
         else atbm_reg_write_16 ops ATBM_HIFREG_CONTROL_REG_ID (val16 OR ATBM_HIFREG_CONT_WUP_BIT) h)"

text \<open>atbm_load_firmware of hal_apollo/fwio.c for this chip.\<close>

definition atbm_load_firmware :: "'b sbus_ops \<Rightarrow> u32 \<Rightarrow> u32 \<Rightarrow> 'b hif \<Rightarrow> int \<times> 'b hif" where
  "atbm_load_firmware ops junk junk16 h =
     (let (ret, h) = atbm_after_load_firmware ops junk junk16 h in if ret < 0 then (ret, h) else (0, h))"

definition atbm_powersave_sdio_sync :: "'b sbus_ops \<Rightarrow> u32 \<Rightarrow> 'b hif \<Rightarrow> int \<times> 'b hif" where
  "atbm_powersave_sdio_sync ops junk h =
     (let (ret, config_reg, h) = atbm_reg_read_unlock_32 ops ATBM_HIFREG_CONFIG_REG_ID junk h
      in if config_reg AND ATBM_HIFREG_PS_SYNC_SDIO_FLAG \<noteq> 0
         then (ret, snd (atbm_reg_write_unlock_32 ops ATBM_HIFREG_CONFIG_REG_ID
                           (config_reg OR ATBM_HIFREG_PS_SYNC_SDIO_CLEAN) h))
         else (ret, h))"

end
