(* ===== verification/Hwio_Props.thy ===== *)
theory Hwio_Props
  imports Hwio
begin

text \<open>What the low-level access of Hwio guarantees: the contract of a bus whose transfers never answer
  with a negative code, which the SDIO driver's operations meet while the function is enabled, and
  what follows for the functions that only test for negative codes; the message queue's buffer
  numbers; the poll of the prefetch bit.\<close>

subsection \<open>Single accesses\<close>

lemma reg_read0_aligned:
  "atbm_reg_read0 ops addr 0 buf h =
     (let (ret, buf, b) = sbus_read_sync ops (SDIO_ADDR17BIT 0 False (SPI_REG_ADDR_TO_SDIO addr)) buf (hif_bus h)
      in (ret, buf, h\<lparr>hif_bus := b\<rparr>))"
  by (simp add: atbm_reg_read0_def misaligned_def)

text \<open>An access changes the bus and nothing else.\<close>

definition same_hif :: "'b hif \<Rightarrow> 'b hif \<Rightarrow> bool" where
  "same_hif h h' \<longleftrightarrow> h' = h\<lparr>hif_bus := hif_bus h'\<rparr>"

lemma same_hif_simps:
  "same_hif h h" "same_hif h (h\<lparr>hif_bus := b\<rparr>)"
  "same_hif h h' \<Longrightarrow> hif_locks h' = hif_locks h"
  by (auto simp: same_hif_def) (metis hif.select_convs(2) hif.surjective hif.update_convs(1))+

lemma same_hif_trans: "same_hif h h' \<Longrightarrow> same_hif h' h'' \<Longrightarrow> same_hif h h''"
  by (cases h; cases h'; cases h'') (auto simp: same_hif_def)

lemma same_hif_lock: "same_hif (sbus_lock h) h' \<Longrightarrow> same_hif h (sbus_unlock h')"
  by (cases h; cases h') (auto simp: same_hif_def sbus_lock_def sbus_unlock_def)

lemma reg_read0_same: "same_hif h (snd (snd (atbm_reg_read0 ops addr ba buf h)))"
  by (auto simp: atbm_reg_read0_def same_hif_simps split: prod.splits)

lemma reg_write0_same: "same_hif h (snd (atbm_reg_write0 ops addr buf h))"
  by (auto simp: atbm_reg_write0_def same_hif_simps split: prod.splits)

lemma reg_read0_32_same: "same_hif h (snd (snd (atbm_reg_read0_32 ops addr v h)))"
  using reg_read0_same[of h ops addr 0 "bytes32 v"] by (auto simp: atbm_reg_read0_32_def split: prod.splits)

lemma reg_write0_32_same: "same_hif h (snd (atbm_reg_write0_32 ops addr v h))"
  by (simp add: atbm_reg_write0_32_def reg_write0_same)

lemma poll_prefetch_same: "same_hif h (snd (snd (poll_prefetch n ops p (ret, v, h))))"
proof (induction n arbitrary: ret v h)
  case (Suc n)
  obtain r v' h' where e: "atbm_reg_read0_32 ops ATBM_HIFREG_CONFIG_REG_ID v h = (r, v', h')"
    by (metis prod_cases3)
  have "same_hif h h'" using reg_read0_32_same[of h ops ATBM_HIFREG_CONFIG_REG_ID v] e by simp
  with Suc[of h' r v'] e show ?case by (auto intro: same_hif_trans)
qed (simp add: same_hif_simps)

text \<open>The functions that take the lock give it back.\<close>

lemma reg_read_same: "same_hif h (snd (snd (atbm_reg_read ops addr ba buf h)))"
  using reg_read0_same[of "sbus_lock h" ops addr ba buf]
  by (auto simp: atbm_reg_read_def intro: same_hif_lock split: prod.splits)

lemma reg_write_same: "same_hif h (snd (atbm_reg_write ops addr buf h))"
  using reg_write0_same[of "sbus_lock h" ops addr buf]
  by (auto simp: atbm_reg_write_def intro: same_hif_lock split: prod.splits)

lemma reg_read_32_same: "same_hif h (snd (snd (atbm_reg_read_32 ops addr v h)))"
  using reg_read_same[of h ops addr 0 "bytes32 v"] by (auto simp: atbm_reg_read_32_def split: prod.splits)

lemma reg_write_32_same: "same_hif h (snd (atbm_reg_write_32 ops addr v h))"
  by (simp add: atbm_reg_write_32_def reg_write_same)

lemma write_port_same: "same_hif h (snd (write_port ops port addr buf h))"
proof -
  obtain r h' where e: "atbm_reg_write0_32 ops ATBM_HIFREG_SRAM_BASE_ADDR_REG_ID addr h = (r, h')" by fastforce
  have "same_hif h h'" using reg_write0_32_same[of h ops ATBM_HIFREG_SRAM_BASE_ADDR_REG_ID addr] e by simp
  with e reg_write0_same[of h' ops port buf] show ?thesis by (auto simp: write_port_def intro: same_hif_trans)
qed

lemma indirect_read_same: "same_hif h (snd (snd (atbm_indirect_read ops addr ba buf p port h)))"
proof -
  define h0 where "h0 = sbus_lock h"
  obtain r1 h1 where e1: "atbm_reg_write0_32 ops ATBM_HIFREG_SRAM_BASE_ADDR_REG_ID addr h0 = (r1, h1)" by fastforce
  obtain r2 v2 h2 where e2: "atbm_reg_read0_32 ops ATBM_HIFREG_CONFIG_REG_ID 0 h1 = (r2, v2, h2)" by (metis prod_cases3)
  obtain r3 h3 where e3: "atbm_reg_write0_32 ops ATBM_HIFREG_CONFIG_REG_ID (v2 OR p) h2 = (r3, h3)" by fastforce
  obtain r4 v4 h4 where e4: "poll_prefetch 20 ops p (r3, v2, h3) = (r4, v4, h4)" by (metis prod_cases3)
  obtain r5 buf5 h5 where e5: "atbm_reg_read0 ops port ba buf h4 = (r5, buf5, h5)" by (metis prod_cases3)
  have s1: "same_hif h0 h1" using reg_write0_32_same[of h0] e1 by (metis snd_conv)
  have s2: "same_hif h0 h2" using reg_read0_32_same[of h1] e2 s1 by (metis snd_conv same_hif_trans)
  have s3: "same_hif h0 h3" using reg_write0_32_same[of h2] e3 s2 by (metis snd_conv same_hif_trans)
  have s4: "same_hif h0 h4" using poll_prefetch_same[of h3] e4 s3 by (metis snd_conv same_hif_trans)
  have s5: "same_hif h0 h5" using reg_read0_same[of h4] e5 s4 by (metis snd_conv same_hif_trans)
  show ?thesis
    using s1 s2 s3 s4 s5 e1 e2 e3 e4 e5 unfolding h0_def
    by (simp add: atbm_indirect_read_def same_hif_simps same_hif_lock del: poll_prefetch.simps)
qed

subsection \<open>A bus that never answers with a negative code\<close>

locale unchecked_bus =
  fixes ops :: "'b sbus_ops"
  assumes read_nonneg: "fst (sbus_read_sync ops a buf b) \<ge> 0"
    and write_nonneg: "fst (sbus_write_sync ops a buf b) \<ge> 0"
begin

lemma reg_read0_nonneg: "fst (atbm_reg_read0 ops addr 0 buf h) \<ge> 0"
  by (simp add: reg_read0_aligned Let_def case_prod_beta read_nonneg)

lemma reg_write0_nonneg: "fst (atbm_reg_write0 ops addr buf h) \<ge> 0"
  by (simp add: atbm_reg_write0_def Let_def case_prod_beta write_nonneg)

lemma reg_read_32_nonneg: "fst (atbm_reg_read_32 ops addr v h) \<ge> 0"
  by (simp add: atbm_reg_read_32_def atbm_reg_read_def Let_def case_prod_beta reg_read0_nonneg)

lemma reg_read_16_nonneg: "fst (atbm_reg_read_16 ops addr v h) \<ge> 0"
  by (simp add: atbm_reg_read_16_def atbm_reg_read_def Let_def case_prod_beta reg_read0_nonneg)

lemma reg_write_nonneg: "fst (atbm_reg_write ops addr buf h) \<ge> 0"
  by (simp add: atbm_reg_write_def Let_def case_prod_beta reg_write0_nonneg)

lemma reg_write_32_nonneg: "fst (atbm_reg_write_32 ops addr v h) \<ge> 0"
  by (simp add: atbm_reg_write_32_def reg_write_nonneg)

text \<open>The error exits of the start-up are never taken.\<close>

lemma load_firmware_reports_success: "fst (atbm_load_firmware ops junk junk16 h) = 0"
proof -
  let ?C = ATBM_HIFREG_CONFIG_REG_ID
  obtain r0 v0 h0 where e0: "atbm_ahb_read_32 ops 0x161000ac junk h = (r0, v0, h0)" by (metis prod_cases3)
  let ?v = "v0 AND 0xFFFFF7F8 OR 0x1000"
  obtain r1 h1 where e1: "atbm_ahb_write_32 ops 0x161000ac ?v h0 = (r1, h1)" by fastforce
  obtain r2 v2 h2 where e2: "atbm_reg_read_32 ops ?C ?v h1 = (r2, v2, h2)" by (metis prod_cases3)
  obtain r3 h3 where e3: "atbm_reg_write_32 ops ?C ((v2 OR ATBM_HIFREG_CONF_IRQ_RDY_ENABLE)
      AND NOT ATBM_HIFREG_CONFIG_CPU_RESET_BIT AND NOT ATBM_HIFREG_CONFIG_CLEAR_INT_BIT) h2 = (r3, h3)" by fastforce
  obtain r4 v4 h4 where e4: "atbm_reg_read_32 ops ?C ((v2 OR ATBM_HIFREG_CONF_IRQ_RDY_ENABLE)
      AND NOT ATBM_HIFREG_CONFIG_CPU_RESET_BIT AND NOT ATBM_HIFREG_CONFIG_CLEAR_INT_BIT) h3 = (r4, v4, h4)"
    by (metis prod_cases3)
  obtain r5 h5 where e5: "atbm_reg_write_32 ops ?C (v4 AND NOT ATBM_HIFREG_CONFIG_ACCESS_MODE_BIT) h4 = (r5, h5)"
    by fastforce
  obtain r6 v6 h6 where e6: "atbm_reg_read_32 ops ?C v4 h5 = (r6, v6, h6)" by (metis prod_cases3)
  obtain r7 v7 h7 where e7: "atbm_reg_read_16 ops ATBM_HIFREG_CONTROL_REG_ID junk16 h6 = (r7, v7, h7)"
    by (metis prod_cases3)
  obtain r8 h8 where e8: "atbm_reg_write_16 ops ATBM_HIFREG_CONTROL_REG_ID (v7 OR ATBM_HIFREG_CONT_WUP_BIT) h7 = (r8, h8)"
    by fastforce
  have "\<not> r2 < 0" "\<not> r4 < 0" using reg_read_32_nonneg e2 e4 by (metis fst_conv linorder_not_less)+
  moreover have "\<not> r3 < 0" "\<not> r5 < 0" using reg_write_32_nonneg e3 e5 by (metis fst_conv linorder_not_less)+
  moreover have "\<not> r7 < 0" using reg_read_16_nonneg e7 by (metis fst_conv linorder_not_less)
  moreover have "\<not> r8 < 0" using reg_write_nonneg e8 unfolding atbm_reg_write_16_def
    by (metis fst_conv linorder_not_less)
  ultimately show ?thesis
    by (simp only: atbm_load_firmware_def atbm_after_load_firmware_def Let_def e0 e1 e2 e3 e4 e5 e6 e7 e8
      prod.case if_False fst_conv)
qed

lemma restore_returns:
  "restore_config (atbm_reg_write_32 ops addr v) h = Some (atbm_reg_write_32 ops addr v h)"
  using reg_write_32_nonneg[of addr v h] by (subst restore_config.simps) (auto split: prod.splits)

lemma direct_read_returns:
  "\<exists>ret v h'. atbm_direct_read_reg_32 ops addr val junk h = Some (ret, v, h') \<and> ret \<ge> 0 \<and>
     hif_locks h' = hif_locks h"
proof -
  obtain r0 config h0 where e0: "atbm_reg_read_32 ops ATBM_HIFREG_CONFIG_REG_ID junk h = (r0, config, h0)"
    by (metis prod_cases3)
  obtain r1 h1 where e1: "atbm_reg_write_32 ops ATBM_HIFREG_CONFIG_REG_ID
    (config OR ATBM_HIFREG_CONFIG_ACCESS_MODE_BIT) h0 = (r1, h1)" by fastforce
  obtain r2 v2 h2 where e2: "atbm_ahb_read_32 ops addr val h1 = (r2, v2, h2)" by (metis prod_cases3)
  obtain r3 h3 where e3: "atbm_reg_write_32 ops ATBM_HIFREG_CONFIG_REG_ID config h2 = (r3, h3)" by fastforce
  have r: "r0 \<ge> 0" "r1 \<ge> 0" "r3 \<ge> 0"
    using reg_read_32_nonneg reg_write_32_nonneg e0 e1 e3 by (metis fst_conv)+
  have "same_hif h1 h2" using indirect_read_same[of h1] e2 by (auto simp: atbm_ahb_read_32_def split: prod.splits)
      (metis snd_conv)
  moreover have "same_hif h h0" "same_hif h0 h1" "same_hif h2 h3"
    using reg_read_32_same reg_write_32_same e0 e1 e3 by (metis snd_conv)+
  ultimately have "same_hif h h3" by (blast intro: same_hif_trans)
  with r show ?thesis
    by (simp add: atbm_direct_read_reg_32_def e0 e1 e2 e3 restore_returns same_hif_simps(3))
qed

end

interpretation sdio_bus: unchecked_bus "atbm_sdio_sbus_ops sdk (func\<lparr>fn_en := True\<rparr>) unsub"
  for sdk :: "'b sdio_sdk" and func unsub
  by unfold_locales
    (auto simp: atbm_sdio_sbus_ops_def sdio_memcpy_fromio_def sdio_memcpy_toio_def split: prod.splits)

lemma enabled_func: "fn_en func \<Longrightarrow> func\<lparr>fn_en := True\<rparr> = func"
  by (cases func) simp

text \<open>C31. Failures of the bus pass as success while the chip is started.  sdio_memcpy_fromio and
  sdio_memcpy_toio of the port answer a failed transfer with 1, and the functions of hwio_sdio.c only
  test for negative codes.  With the function enabled, atbm_load_firmware returns 0 whatever the
  transfers do; and atbm_direct_read_reg_32 returns, gives its lock back, and has a code that is never
  negative: it may be 1, which a test for negative codes does not see.\<close>
theorem bus_errors_pass_unnoticed:
  assumes "fn_en func"
  shows "fst (atbm_load_firmware (atbm_sdio_sbus_ops sdk func unsub) junk junk16 h) = 0 \<and>
    (\<exists>ret v h'. atbm_direct_read_reg_32 (atbm_sdio_sbus_ops sdk func unsub) addr val junk h = Some (ret, v, h') \<and>
       ret \<ge> 0 \<and> hif_locks h' = hif_locks h)"
  using sdio_bus.load_firmware_reports_success[of sdk func unsub] sdio_bus.direct_read_returns[of sdk func unsub]
  by (simp add: enabled_func[OF assms])

text \<open>A bus on which every transfer fails.\<close>

definition broken_sdk :: "unit sdio_sdk" where
  "broken_sdk = \<lparr>sdk_read_byte = (\<lambda>fn a b. (False, 0, b)), sdk_write_byte = (\<lambda>fn a x b. (False, b)),
     sdk_read_multi = (\<lambda>fn a n b. (False, \<lambda>i. 0xFF, b)), sdk_write_multi = (\<lambda>fn a bs b. (False, b)),
     sdk_enable_irq = (\<lambda>on b. b)\<rparr>"

definition demo_func :: sdio_func where "demo_func = \<lparr>fn_num = 1, fn_en = True, fn_blocksize = 256\<rparr>"

definition demo_hif :: "'b \<Rightarrow> 'b hif" where
  "demo_hif b = \<lparr>hif_bus = b, hif_locks = 0, buf_id_tx = 0, buf_id_rx = 0, buf_id_offset = 1,
     buf_force_tx = False, buf_force_rx = False\<rparr>"

theorem bus_errors_pass_unnoticed_witness:
  "fst (atbm_load_firmware (atbm_sdio_sbus_ops broken_sdk demo_func (\<lambda>b. (0, b))) 0 0 (demo_hif ())) = 0"
  using bus_errors_pass_unnoticed[of demo_func broken_sdk "\<lambda>b. (0, b)" 0 0 "demo_hif ()"]
  by (simp add: demo_func_def)

subsection \<open>The poll of the prefetch bit\<close>

lemma poll_prefetch_stuck:
  assumes "\<And>v h. \<exists>v' h'. atbm_reg_read0_32 ops ATBM_HIFREG_CONFIG_REG_ID v h = (0, v', h') \<and> v' AND p \<noteq> 0"
    and "v AND p \<noteq> 0"
  shows "\<exists>v' h'. poll_prefetch n ops p (0, v, h) = (0, v', h') \<and> v' AND p \<noteq> 0"
  using assms(2)
proof (induction n arbitrary: v h)
  case (Suc n)
  from assms(1)[of v h] obtain v' h' where
    "atbm_reg_read0_32 ops ATBM_HIFREG_CONFIG_REG_ID v h = (0, v', h')" "v' AND p \<noteq> 0" by blast
  with Suc.IH[of v' h'] show ?case by simp
qed simp

lemma or_and_neq_0: "p \<noteq> 0 \<Longrightarrow> (w OR p) AND p \<noteq> (0 :: u32)"
  by (metis and.commute or.commute word_ao_absorbs(3))

text \<open>A read of the chip's memory that the chip never answers is reported as a success.  When every
  access of the configuration register succeeds but shows the prefetch bit still set, also after the
  20 polls, atbm_indirect_read returns 0 and leaves the caller's buffer as it was.\<close>
theorem prefetch_timeout_reports_success:
  assumes "\<And>v h. \<exists>v' h'. atbm_reg_read0_32 ops ATBM_HIFREG_CONFIG_REG_ID v h = (0, v', h') \<and> v' AND p \<noteq> 0"
    and "\<And>reg v h. fst (atbm_reg_write0_32 ops reg v h) = 0" and "length buf < 0x2000"
  shows "\<exists>h'. atbm_indirect_read ops addr buf_addr buf p port h = (0, buf, h')"
proof -
  obtain h1 where e1: "atbm_reg_write0_32 ops ATBM_HIFREG_SRAM_BASE_ADDR_REG_ID addr (sbus_lock h) = (0, h1)"
    using assms(2) by (metis prod.collapse)
  obtain v2 h2 where e2: "atbm_reg_read0_32 ops ATBM_HIFREG_CONFIG_REG_ID 0 h1 = (0, v2, h2)" "v2 AND p \<noteq> 0"
    using assms(1) by blast
  obtain h3 where e3: "atbm_reg_write0_32 ops ATBM_HIFREG_CONFIG_REG_ID (v2 OR p) h2 = (0, h3)"
    using assms(2) by (metis prod.collapse)
  obtain v4 h4 where e4: "poll_prefetch 20 ops p (0, v2, h3) = (0, v4, h4)" "v4 AND p \<noteq> 0"
    using poll_prefetch_stuck[of ops p, OF assms(1) e2(2)] by blast
  show ?thesis
    using assms(3) e1 e2 e3 e4 by (simp add: atbm_indirect_read_def del: poll_prefetch.simps)
qed

text \<open>A bus that shows every bit of every register set.\<close>

definition stuck_sdk :: "unit sdio_sdk" where
  "stuck_sdk = \<lparr>sdk_read_byte = (\<lambda>fn a b. (True, 0xFF, b)), sdk_write_byte = (\<lambda>fn a x b. (True, b)),
     sdk_read_multi = (\<lambda>fn a n b. (True, \<lambda>i. 0xFF, b)), sdk_write_multi = (\<lambda>fn a bs b. (True, b)),
     sdk_enable_irq = (\<lambda>on b. b)\<rparr>"

lemma stuck_config:
  "\<exists>h'. atbm_reg_read0_32 (atbm_sdio_sbus_ops stuck_sdk demo_func unsub) reg v h = (0, 0xFFFFFFFF, h')"
proof -
  have "map (\<lambda>i. 0xFF :: u8) [0..<4] = [0xFF, 0xFF, 0xFF, 0xFF]" by (simp add: upt_rec)
  moreover have "val32 [0xFF, 0xFF, 0xFF, 0xFF] = 0xFFFFFFFF" by (simp add: val32_def le32_def)
  ultimately show ?thesis
    by (simp add: atbm_reg_read0_32_def reg_read0_aligned atbm_sdio_sbus_ops_def sdio_memcpy_fromio_def
      demo_func_def stuck_sdk_def)
qed

theorem prefetch_timeout_reports_success_witness:
  "\<exists>h'. atbm_indirect_read (atbm_sdio_sbus_ops stuck_sdk demo_func (\<lambda>b. (0, b))) 0x0acc017c 0 [1, 2, 3, 4]
     ATBM_HIFREG_CONFIG_AHB_PFETCH_BIT ATBM_HIFREG_AHB_DPORT_REG_ID (demo_hif ()) = (0, [1, 2, 3, 4], h')"
proof (rule prefetch_timeout_reports_success)
  show "\<exists>v' h'. atbm_reg_read0_32 (atbm_sdio_sbus_ops stuck_sdk demo_func (\<lambda>b. (0, b)))
     ATBM_HIFREG_CONFIG_REG_ID v h = (0, v', h') \<and> v' AND ATBM_HIFREG_CONFIG_AHB_PFETCH_BIT \<noteq> 0" for v h
    using stuck_config[of "\<lambda>b. (0, b)" ATBM_HIFREG_CONFIG_REG_ID v h] by auto
qed (auto simp: atbm_reg_write0_32_def atbm_reg_write0_def atbm_sdio_sbus_ops_def sdio_memcpy_toio_def
    demo_func_def stuck_sdk_def)

subsection \<open>Direct access that does not return\<close>

lemma restore_config_value:
  assumes "restore_config write h = Some y"
  shows "\<exists>h. write h = y \<and> \<not> fst y < 0"
proof (rule restore_config.raw_induct[OF _ assms, where P = "\<lambda>write h y. \<exists>h. write h = y \<and> \<not> fst y < 0"])
  fix f and w :: "'b hif \<Rightarrow> int \<times> 'b hif" and h y
  assume IH: "\<And>w h y. f w h = Some y \<Longrightarrow> \<exists>h. w h = y \<and> \<not> fst y < 0"
    and step: "(let (ret, h) = w h in if ret < 0 then f w h else Some (ret, h)) = Some y"
  obtain r h' where wh: "w h = (r, h')" by fastforce
  show "\<exists>h. w h = y \<and> \<not> fst y < 0"
  proof (cases "r < 0")
    case True
    with step wh have "f w h' = Some y" by simp
    then show ?thesis by (rule IH)
  next
    case False
    with step wh have "w h = y" "\<not> fst y < 0" by auto
    then show ?thesis by blast
  qed
qed

lemma restore_config_hangs:
  assumes "\<And>h. fst (write h) < 0"
  shows "restore_config write h = None"
  using restore_config_value assms by (cases "restore_config write h") blast+

text \<open>The error exit of the direct accesses is a loop.  On a bus whose configuration register can be
  read but not written, a direct read and a direct write of the chip's memory never return; and
  whenever they do return behind the first access, the last thing they have done is a write of
  the register's original contents that did not fail.\<close>
theorem direct_access_hangs:
  assumes "atbm_reg_read_32 ops ATBM_HIFREG_CONFIG_REG_ID junk h = (ret, config, h')" "ret \<ge> 0"
  shows "((\<forall>v h. fst (atbm_reg_write_32 ops ATBM_HIFREG_CONFIG_REG_ID v h) < 0) \<longrightarrow>
      atbm_direct_read_reg_32 ops addr val junk h = None \<and> atbm_direct_write_reg_32 ops addr val junk h = None) \<and>
    (\<forall>ret v h1. atbm_direct_read_reg_32 ops addr val junk h = Some (ret, v, h1) \<longrightarrow>
      ret \<ge> 0 \<and> (\<exists>h0. atbm_reg_write_32 ops ATBM_HIFREG_CONFIG_REG_ID config h0 = (ret, h1))) \<and>
    (\<forall>ret h1. atbm_direct_write_reg_32 ops addr val junk h = Some (ret, h1) \<longrightarrow>
      ret \<ge> 0 \<and> (\<exists>h0. atbm_reg_write_32 ops ATBM_HIFREG_CONFIG_REG_ID config h0 = (ret, h1)))"
proof -
  let ?w = "atbm_reg_write_32 ops ATBM_HIFREG_CONFIG_REG_ID config"
  have hang: "restore_config ?w g = None" if "\<forall>v h. fst (atbm_reg_write_32 ops ATBM_HIFREG_CONFIG_REG_ID v h) < 0" for g
    using that by (intro restore_config_hangs) blast
  have val: "ret \<ge> 0 \<and> (\<exists>h0. ?w h0 = (ret, h1))" if "restore_config ?w g = Some (ret, h1)" for g ret h1
    using restore_config_value[OF that] by auto
  obtain v2 h2 where r: "atbm_direct_read_reg_32 ops addr val junk h =
      do { (ret, h) \<leftarrow> restore_config ?w h2; Some (ret, v2, h) }"
    using assms by (auto simp: atbm_direct_read_reg_32_def case_prod_beta Let_def)
  obtain h3 where w: "atbm_direct_write_reg_32 ops addr val junk h = restore_config ?w h3"
    using assms by (auto simp: atbm_direct_write_reg_32_def case_prod_beta Let_def)
  show ?thesis unfolding r w using hang val by (auto split: bind_splits)
qed

definition read_only_ops :: "unit sbus_ops" where
  "read_only_ops = \<lparr>sbus_memcpy_fromio = (\<lambda>a buf b. (0, buf, b)), sbus_memcpy_toio = (\<lambda>a buf b. (-1, b)),
     sbus_read_sync = (\<lambda>a buf b. (0, buf, b)), sbus_write_sync = (\<lambda>a buf b. (-1, b)),
     sbus_abort = (\<lambda>b. (0, b)), sbus_irq_unsubscribe = (\<lambda>b. (0, b))\<rparr>"

theorem direct_access_hangs_witness:
  "atbm_direct_read_reg_32 read_only_ops 0x0acc017c 0 7 (demo_hif ()) = None"
proof -
  have "atbm_reg_read_32 read_only_ops ATBM_HIFREG_CONFIG_REG_ID 7 (demo_hif ()) = (0, 7, demo_hif ())"
    by (simp add: atbm_reg_read_32_def atbm_reg_read_def reg_read0_aligned read_only_ops_def sbus_lock_def
      sbus_unlock_def demo_hif_def)
  from direct_access_hangs[OF this, of "0x0acc017c" 0] show ?thesis
    by (simp add: atbm_reg_write_32_def atbm_reg_write_def atbm_reg_write0_def read_only_ops_def)
qed

subsection \<open>The message queue\<close>

text \<open>At most ten attempts; a success moves the buffer number on, a failure leaves it.\<close>

lemma data_write0_fields:
  "atbm_data_write0 ops reg buf bid h = (ret, h') \<Longrightarrow>
   buf_id_tx h' = buf_id_tx h \<and> buf_id_rx h' = buf_id_rx h \<and> buf_id_offset h' = buf_id_offset h \<and>
   hif_locks h' = hif_locks h"
  by (auto simp: atbm_data_write0_def Let_def case_prod_beta)

lemma and_0x3f: "x AND 0x3f = x mod (64 :: int)"
  using take_bit_eq_mask[of 6 x] by (simp add: take_bit_eq_mod mask_eq_exp_minus_1)

lemma data_write_tries_ids:
  assumes "data_write_tries n ops buf bid (r, h) = (ret, h')" "r \<noteq> 0"
  shows "buf_id_offset h' = buf_id_offset h \<and> buf_id_rx h' = buf_id_rx h \<and> hif_locks h' = hif_locks h \<and>
    buf_id_tx h' = (if ret = 0 then (bid + buf_id_offset h) mod 64 else buf_id_tx h)"
  using assms
proof (induction n arbitrary: r h)
  case (Suc n)
  obtain r1 h1 where e: "atbm_data_write0 ops ATBM_HIFREG_IN_OUT_QUEUE_REG_ID buf bid h = (r1, h1)" by fastforce
  note f = data_write0_fields[OF e]
  show ?case
  proof (cases "r1 = 0")
    case True
    with Suc.prems(1) e have "ret = 0" "h' = h1\<lparr>buf_id_tx := (bid + buf_id_offset h1) AND 0x3f\<rparr>" by simp_all
    with f show ?thesis by (simp add: and_0x3f)
  next
    case False
    with Suc.prems(1) e have "data_write_tries n ops buf bid (r1, h1) = (ret, h')" by simp
    from Suc.IH[OF this False] f show ?thesis by simp
  qed
qed simp

lemma data_write_ids:
  assumes "atbm_data_write ops buf h = (ret, h')"
  shows "buf_id_offset h' = buf_id_offset h \<and> buf_id_rx h' = buf_id_rx h \<and> hif_locks h' = hif_locks h \<and>
    buf_id_tx h' = (if ret = 0 then (buf_id_tx h + buf_id_offset h) mod 64 else buf_id_tx h)"
proof -
  obtain r1 h1 where e: "data_write_tries 10 ops buf (buf_id_tx h) (-1, sbus_lock h) = (r1, h1)" by fastforce
  then have "ret = r1" "h' = sbus_unlock h1"
    using assms by (simp_all add: atbm_data_write_def atbm_data_write_unlock_def sbus_lock_def
      del: data_write_tries.simps)
  with data_write_tries_ids[OF e] show ?thesis
    by (simp add: sbus_lock_def sbus_unlock_def)
qed

end
