(* ===== verification/Bh_Tx.thy ===== *)
theory Bh_Tx
  imports Wsm Hwio
begin

text \<open>The sending half of the bus thread, hal_apollo/bh_sdio.c: the credit the firmware has given
  (atbm_sdio_have_enough_space, atbm_sdio_wait_enough_space), the burst that collects messages in
  xmit_buff and writes them to the bus (atbm_sdio_tx_bh), and atbm_xmit_linearize of
  hal_apollo/util.c.

  The state is the adapter hw and the bus h.  None is a BUG_ON or an access outside an object.  While
  the thread waits for credit the other threads run: others lists what they change, one entry for
  every sleep.\<close>

abbreviation (input) SDIO_TX_MAXLEN :: nat where "SDIO_TX_MAXLEN \<equiv> 32768"
abbreviation (input) ATBM_WIFI_MAX_QUEUE_SZ :: int where "ATBM_WIFI_MAX_QUEUE_SZ \<equiv> 256"
abbreviation (input) WSM_SDIO_TX_MULT_BLOCK_SIZE :: u32 where "WSM_SDIO_TX_MULT_BLOCK_SIZE \<equiv> SDIO_BLOCK_SIZE"
abbreviation (input) WSM_TX_SEQ_MAX :: u16 where "WSM_TX_SEQ_MAX \<equiv> 7"
abbreviation (input) WSM_FIRMWARE_CHECK_ID :: u16 where "WSM_FIRMWARE_CHECK_ID \<equiv> 0x0002"
abbreviation (input) WSM_TRANSMIT_REQ_MSG_ID :: u16 where "WSM_TRANSMIT_REQ_MSG_ID \<equiv> 0x0004"
abbreviation (input) MAX_LOOP_POLL_CNT :: nat where "MAX_LOOP_POLL_CNT \<equiv> 6000"

definition WSM_TX_SEQ :: "u16 \<Rightarrow> u16" where
  "WSM_TX_SEQ s = push_bit 13 (s AND WSM_TX_SEQ_MAX)"

text \<open>The reset of the counters, with the two buffer numbers of the bus.\<close>

definition atbm_hw_buff_reset :: "'m atbm_common \<Rightarrow> 'b hif \<Rightarrow> 'm atbm_common \<times> 'b hif" where
  "atbm_hw_buff_reset hw h =
     (hw\<lparr>wsm_tx_seq := 0, wsm_rx_seq := 0, hw_bufs_used := 0\<rparr>, h\<lparr>buf_id_tx := 0, buf_id_rx := 0\<rparr>)"

subsection \<open>Buffers of the chip\<close>

definition wsm_alloc_tx_buffer :: "'m atbm_common \<Rightarrow> 'm atbm_common" where
  "wsm_alloc_tx_buffer hw = hw\<lparr>hw_bufs_used := hw_bufs_used hw + 1\<rparr>"

definition wsm_release_tx_buffer :: "int \<Rightarrow> 'm atbm_common \<Rightarrow> int \<times> 'm atbm_common" where
  "wsm_release_tx_buffer count hw =
     (let used = hw_bufs_used hw; hw = hw\<lparr>hw_bufs_used := used - count\<rparr>
      in if hw_bufs_used hw < 0 then (0, hw\<lparr>hw_bufs_used := 0\<rparr>)
         else if used \<ge> uint (numInpChBufs (hw_caps hw)) - 1 then (1, hw) else (0, hw))"

text \<open>hw_bufs_free is an int and n_needs a u32: the comparison is unsigned.\<close>

definition enough_bufs :: "u32 \<Rightarrow> 'm atbm_common \<Rightarrow> bool" where
  "enough_bufs n_needs hw \<longleftrightarrow> (of_int (hw_bufs_free hw) :: u32) \<ge> n_needs"

text \<open>What the firmware allows beyond what has been sent.\<close>

definition tx_credit :: "'m atbm_common \<Rightarrow> int" where
  "tx_credit hw = sint (hw_xmits hw - n_xmits hw)"

definition atbm_sdio_have_enough_space :: "u32 \<Rightarrow> 'm atbm_common \<Rightarrow> (bool \<times> 'm atbm_common) option" where
  "atbm_sdio_have_enough_space n_needs hw =
     (if enough_bufs n_needs hw then Some (True, hw)
      else do {
        guard (\<not> tx_credit hw > uint (numInpChBufs (hw_caps hw)));
        let hw = hw\<lparr>hw_bufs_free := tx_credit hw, hw_bufs_free_init := tx_credit hw\<rparr>;
        Some (enough_bufs n_needs hw, hw) })"

type_synonym 'm others = "('m atbm_common \<Rightarrow> 'm atbm_common option) list"

primrec wait_space_loop ::
    "nat \<Rightarrow> u32 \<Rightarrow> 'm others \<Rightarrow> 'm atbm_common \<Rightarrow> (bool \<times> 'm others \<times> 'm atbm_common) option" where
  "wait_space_loop 0 n_needs others hw = Some (False, others, hw)"
| "wait_space_loop (Suc polls) n_needs others hw = do {
     (enough, hw) \<leftarrow> atbm_sdio_have_enough_space n_needs hw;
     if enough then Some (True, others, hw)
     else if polls = 0 then Some (False, others, hw)
     else (case others of [] \<Rightarrow> None
           | run # others \<Rightarrow> do { hw \<leftarrow> run hw; wait_space_loop polls n_needs others hw }) }"

definition atbm_sdio_wait_enough_space ::
    "u32 \<Rightarrow> 'm others \<Rightarrow> 'm atbm_common \<Rightarrow> (bool \<times> 'm others \<times> 'm atbm_common) option" where
  "atbm_sdio_wait_enough_space n_needs others hw =
     (if enough_bufs n_needs hw then Some (True, others, hw)
      else wait_space_loop MAX_LOOP_POLL_CNT n_needs others hw)"

subsection \<open>One message\<close>

text \<open>The flag word of a message: its length and in the highest byte the sum of the two length bytes,
  with the carry added back.\<close>

definition wsm_flag :: "u32 \<Rightarrow> u32" where
  "wsm_flag len =
     (let flag = len AND 0xffff;
          len0 = ucast (flag AND 0xff) :: u16; len1 = ucast (drop_bit 8 flag AND 0xff) :: u16;
          len_sum = len0 + len1
      in if len_sum AND 0x100 \<noteq> 0 then flag OR push_bit 24 (ucast ((len_sum + 1) AND 0xff))
         else flag OR push_bit 24 (ucast (len_sum AND 0xff)))"

text \<open>The room of a message on the wire.\<close>

definition wire_len :: "u32 \<Rightarrow> u32" where
  "wire_len len =
     (let len = (if len \<le> 8 then 16 else len); r = len mod WSM_SDIO_TX_MULT_BLOCK_SIZE
      in if r \<noteq> 0 then len - r + WSM_SDIO_TX_MULT_BLOCK_SIZE else len)"

text \<open>Reads and writes through the pointer wsm_get_tx returns.\<close>

definition item_rdn :: "'m atbm_common \<Rightarrow> tx_item \<Rightarrow> int \<Rightarrow> nat \<Rightarrow> bytes option" where
  "item_rdn hw it off n = (case tx_skb it of
     None \<Rightarrow> do { m \<leftarrow> wb_mem (wsm_cmd_buf hw); rdn m off n }
   | Some skb \<Rightarrow> skb_rdn skb off n)"

definition item_wrn :: "int \<Rightarrow> bytes \<Rightarrow> tx_item \<times> 'm atbm_common \<Rightarrow> (tx_item \<times> 'm atbm_common) option" where
  "item_wrn off bs = (\<lambda>(it, hw). (case tx_skb it of
     None \<Rightarrow> do { m \<leftarrow> wb_mem (wsm_cmd_buf hw); m \<leftarrow> wrn m off bs;
                  Some (it, hw\<lparr>wsm_cmd_buf := (wsm_cmd_buf hw)\<lparr>wb_mem := Some m\<rparr>\<rparr>) }
   | Some skb \<Rightarrow> do { skb \<leftarrow> skb_wrn skb off bs; Some (it\<lparr>tx_skb := Some skb\<rparr>, hw) }))"

definition atbm_xmit_linearize :: "nat \<Rightarrow> nat \<Rightarrow> tx_item \<Rightarrow> 'm atbm_common \<Rightarrow> 'm atbm_common option" where
  "atbm_xmit_linearize xmit xmit_len it hw = (case tx_skb it of
     None \<Rightarrow> do {
       bs \<leftarrow> item_rdn hw it 0 xmit_len;
       m \<leftarrow> wrn (xmit_buff hw) (int xmit) bs;
       Some (hw\<lparr>xmit_buff := m\<rparr>) }
   | Some skb \<Rightarrow> do {
       let n = (if skb_is_nonlinear skb then unat (skb_headlen skb) else xmit_len);
       bs \<leftarrow> skb_rdn skb 0 n;
       m \<leftarrow> wrn (xmit_buff hw) (int xmit) bs;
       Some (free_hw_skb skb (hw\<lparr>xmit_buff := m\<rparr>)) })"

definition netif_tx_wake_all_queues :: "'m atbm_common \<Rightarrow> 'm atbm_common" where
  "netif_tx_wake_all_queues hw =
     (if \<not> lwip_queue_enable hw \<and> lwip_enable hw then hw\<lparr>lwip_queue_enable := True\<rparr> else hw)"

text \<open>A data frame has been copied: the queue of the network device may be started again, and the
  buffer is given back at once, since no confirmation comes.\<close>

definition frame_sent :: "'m atbm_common \<Rightarrow> 'm atbm_common option" where
  "frame_sent hw = do {
     let hw = hw\<lparr>tx_num_queued := tx_num_queued hw - 1\<rparr>;
     hw \<leftarrow> (if tx_queue_overfull hw \<and> tx_num_queued hw \<le> ATBM_WIFI_MAX_QUEUE_SZ div 2
            then do { guard (vif_type hw \<noteq> None);
                      Some (netif_tx_wake_all_queues (hw\<lparr>tx_queue_overfull := False\<rparr>)) }
            else Some hw);
     let hw = snd (wsm_release_tx_buffer 1 hw);
     Some (hw\<lparr>wsm_txframe_num := wsm_txframe_num hw + 1\<rparr>) }"

text \<open>Why the loop that fills the burst stops, or that it goes on.\<close>

datatype tx_stop = No_space | No_message | Command_sent | Buffer_full
datatype tx_step = Stop tx_stop | Go_on

text \<open>The message gets its flag word and its sequence number.\<close>

definition stamp_item :: "tx_item \<Rightarrow> 'm atbm_common \<Rightarrow> (tx_item \<times> 'm atbm_common) option" where
  "stamp_item it hw = do {
     let len = tx_len it;
     guard (\<not> len < of_nat sizeof_wsm_hdr_tx);
     lb \<leftarrow> item_rdn hw it 4 2;
     guard (ucast (val16 lb) = len);
     (it, hw) \<leftarrow> item_wrn 0 (bytes32 (wsm_flag len)) (it, hw);
     idb \<leftarrow> item_rdn hw it 6 2;
     let tid = (val16 idb AND NOT (WSM_TX_SEQ WSM_TX_SEQ_MAX)) OR WSM_TX_SEQ (wsm_tx_seq hw);
     item_wrn 6 (bytes16 tid) (it, hw) }"

text \<open>One buffer and one credit are used.\<close>

definition take_credit :: "'m atbm_common \<Rightarrow> 'm atbm_common option" where
  "take_credit hw = do {
     let hw = wsm_alloc_tx_buffer hw;
     guard (\<not> hw_bufs_free hw \<le> 0);
     let hw = hw\<lparr>n_xmits := n_xmits hw + 1, hw_bufs_free := hw_bufs_free hw - 1\<rparr>;
     guard (\<not> hw_bufs_free hw < 0);
     Some hw }"

text \<open>The message goes behind those already in the burst.\<close>

definition copy_item :: "tx_item \<Rightarrow> 'm atbm_common \<Rightarrow> 'm atbm_common option" where
  "copy_item it hw = do {
     hw \<leftarrow> atbm_xmit_linearize (xmit_buff_put hw) (unat (tx_len it)) it hw;
     Some (hw\<lparr>xmit_buff_put := xmit_buff_put hw + unat (wire_len (tx_len it)),
              wsm_tx_seq := (wsm_tx_seq hw + 1) AND WSM_TX_SEQ_MAX\<rparr>) }"

definition send_item :: "tx_item \<Rightarrow> 'm atbm_common \<Rightarrow> (tx_step \<times> 'm atbm_common) option" where
  "send_item it hw = do {
     (it, hw) \<leftarrow> stamp_item it hw;
     hw \<leftarrow> take_credit hw;
     hw \<leftarrow> copy_item it hw;
     let (cmd, hw) = wsm_txed (tx_ptr it) hw;
     if cmd then Some (Stop Command_sent, hw)
     else do {
       hw \<leftarrow> frame_sent hw;
       Some (if xmit_buff_put hw + unat (sizeInpChBuf (hw_caps hw)) > SDIO_TX_MAXLEN
             then Stop Buffer_full else Go_on, hw) } }"

text \<open>One round of the loop.  The count of messages goes up when there is one to send.\<close>

definition tx_round :: "nat \<times> 'm atbm_common \<Rightarrow> (tx_step \<times> nat \<times> 'm atbm_common) option" where
  "tx_round = (\<lambda>(n, hw). do {
     (enough, hw) \<leftarrow> atbm_sdio_have_enough_space 1 hw;
     if \<not> enough then Some (Stop No_space, n, hw)
     else do {
       (item, hw) \<leftarrow> wsm_get_tx hw;
       (case item of
          None \<Rightarrow> Some (Stop No_message, n, hw)
        | Some it \<Rightarrow> do { (st, hw) \<leftarrow> send_item it hw; Some (st, n + 1, hw) }) } })"

subsection \<open>The loop that fills the burst\<close>

text \<open>Every round that goes on has put a message in the buffer and left room for another one.\<close>

definition pad_len :: "nat \<Rightarrow> nat" where
  "pad_len n = ((if n \<le> 8 then 16 else n) + 255) div 256 * 256"

lemma pad_len_bounds: "0 < pad_len n" "n \<le> pad_len n" "pad_len n \<le> n + 256" "pad_len n mod 256 = 0"
  by (auto simp: pad_len_def)

lemma round_up_256: "(x + 255) div 256 * 256 = (if x mod 256 = 0 then x else x - x mod 256 + (256 :: nat))"
proof -
  define q r where "q = x div 256" and "r = x mod 256"
  have x: "x = q * 256 + r" "r < 256" by (simp_all add: q_def r_def)
  have "(x + 255) div 256 = (if r = 0 then q else q + 1)" unfolding x(1) using x(2) by (intro div_nat_eqI) auto
  then show ?thesis using x by (simp flip: r_def)
qed

lemma unat_wire_len:
  assumes "unat len < 2 ^ 16"
  shows "unat (wire_len len) = pad_len (unat len)"
proof -
  define l where "l = (if len \<le> 8 then 16 else len)"
  have l: "unat l = (if unat len \<le> 8 then 16 else unat len)"
    by (simp add: l_def word_le_nat_alt)
  have m: "unat (l mod 256) = unat l mod 256" by (simp add: unat_mod)
  have z: "l mod 256 = 0 \<longleftrightarrow> unat l mod 256 = 0" using m by (metis unat_eq_zero)
  have d: "unat (l - l mod 256) = unat l - unat l mod 256"
    using m by (subst unat_sub) (simp_all add: word_le_nat_alt)
  have "unat l < 2 ^ 16" using l assms by auto
  then have r: "unat (l - l mod 256 + 256) = unat l - unat l mod 256 + 256"
    using d by (simp add: unat_word_ariths)
  have "unat (wire_len len) = (if unat l mod 256 = 0 then unat l else unat l - unat l mod 256 + 256)"
    using z r by (simp add: wire_len_def l_def[symmetric] Let_def)
  also have "\<dots> = (unat l + 255) div 256 * 256" by (simp add: round_up_256)
  finally show ?thesis by (simp add: pad_len_def l)
qed

lemma frame_sent_put: "frame_sent hw = Some hw' \<Longrightarrow> xmit_buff_put hw' = xmit_buff_put hw"
  by (auto simp: frame_sent_def netif_tx_wake_all_queues_def wsm_release_tx_buffer_def Let_def guard_def
      split: if_splits)

lemma item_wrn_keeps:
  assumes "item_wrn off bs (it, hw) = Some (it', hw')"
  shows "xmit_buff_put hw' = xmit_buff_put hw \<and> tx_len it' = tx_len it"
proof (cases "tx_skb it")
  case None
  then show ?thesis using assms by (auto simp: item_wrn_def split: bind_splits)
next
  case (Some skb)
  then show ?thesis using assms by (auto simp: item_wrn_def split: bind_splits)
qed

lemma stamp_item_keeps:
  assumes "stamp_item it hw = Some (it', hw')"
  shows "xmit_buff_put hw' = xmit_buff_put hw \<and> tx_len it' = tx_len it \<and> unat (tx_len it) < 2 ^ 16"
proof -
  obtain lb it1 hw1 b2 off where c: "ucast (val16 lb) = tx_len it" and
    w: "item_wrn 0 (bytes32 (wsm_flag (tx_len it))) (it, hw) = Some (it1, hw1)" "item_wrn 6 b2 (it1, hw1) = Some (it', hw')"
    using assms unfolding stamp_item_def by (auto simp: Let_def guard_def split: bind_splits if_splits)
  have "unat (ucast (val16 lb) :: u32) < 2 ^ 16"
    using unat_lt2p[of "val16 lb"] by (simp add: unsigned_ucast_eq unsigned_take_bit_eq take_bit_nat_def)
  then show ?thesis using item_wrn_keeps[OF w(1)] item_wrn_keeps[OF w(2)] unfolding c by simp
qed

lemma copy_item_put:
  "copy_item it hw = Some hw' \<Longrightarrow> xmit_buff_put hw' = xmit_buff_put hw + unat (wire_len (tx_len it))"
  by (auto simp: copy_item_def atbm_xmit_linearize_def free_hw_skb_def Let_def split: option.splits bind_splits)

lemma take_credit_put: "take_credit hw = Some hw' \<Longrightarrow> xmit_buff_put hw' = xmit_buff_put hw"
  by (auto simp: take_credit_def wsm_alloc_tx_buffer_def Let_def split: bind_splits)

lemma send_item_grows:
  assumes "send_item it hw = Some (Go_on, hw')"
  shows "xmit_buff_put hw < xmit_buff_put hw'" "xmit_buff_put hw' \<le> SDIO_TX_MAXLEN"
proof -
  obtain it1 hw1 hw2 hw3 hw4 where s: "stamp_item it hw = Some (it1, hw1)" "take_credit hw1 = Some hw2"
    "copy_item it1 hw2 = Some hw3" "frame_sent hw4 = Some hw'" "xmit_buff_put hw4 = xmit_buff_put hw3"
    "xmit_buff_put hw' + unat (sizeInpChBuf (hw_caps hw')) \<le> SDIO_TX_MAXLEN"
    using assms by (auto simp: send_item_def wsm_txed_def split: bind_splits if_splits)
  have "unat (wire_len (tx_len it1)) > 0"
    using stamp_item_keeps[OF s(1)] unat_wire_len[of "tx_len it1"] pad_len_bounds(1) by simp
  then show "xmit_buff_put hw < xmit_buff_put hw'" "xmit_buff_put hw' \<le> SDIO_TX_MAXLEN"
    using stamp_item_keeps[OF s(1)] take_credit_put[OF s(2)] copy_item_put[OF s(3)] frame_sent_put[OF s(4)] s(5,6)
    by auto
qed

lemma tx_round_grows:
  assumes "tx_round (n, hw) = Some (Go_on, n', hw')"
  shows "xmit_buff_put hw < xmit_buff_put hw'" "xmit_buff_put hw' \<le> SDIO_TX_MAXLEN"
proof -
  obtain hw1 hw2 it where s: "atbm_sdio_have_enough_space 1 hw = Some (True, hw1)"
    "wsm_get_tx hw1 = Some (Some it, hw2)" "send_item it hw2 = Some (Go_on, hw')"
    using assms by (auto simp: tx_round_def split: bind_splits if_splits option.splits)
  have "xmit_buff_put hw1 = xmit_buff_put hw"
    using s(1) by (auto simp: atbm_sdio_have_enough_space_def Let_def split: if_splits bind_splits)
  moreover have "xmit_buff_put hw2 = xmit_buff_put hw1"
    using s(2) by (auto simp: wsm_get_tx_def split: option.splits list.splits bind_splits)
  ultimately show "xmit_buff_put hw < xmit_buff_put hw'" "xmit_buff_put hw' \<le> SDIO_TX_MAXLEN"
    using send_item_grows[OF s(3)] by simp_all
qed

function fill_burst :: "nat \<times> 'm atbm_common \<Rightarrow> (tx_stop \<times> nat \<times> 'm atbm_common) option" where
  "fill_burst s = (case tx_round s of
     None \<Rightarrow> None
   | Some (Stop why, r) \<Rightarrow> Some (why, r)
   | Some (Go_on, r) \<Rightarrow> fill_burst r)"
  by auto
termination
proof (relation "measure (\<lambda>(n, hw). SDIO_TX_MAXLEN - xmit_buff_put hw)")
  fix s :: "nat \<times> 'm atbm_common" and x2 x y
  assume r: "tx_round s = Some x2" "(x, y) = x2" "x = Go_on"
  obtain n hw n' hw' where s: "s = (n, hw)" "y = (n', hw')" by (metis surj_pair)
  have "tx_round (n, hw) = Some (Go_on, n', hw')" using r s by simp
  from tx_round_grows[OF this] show "(y, s) \<in> measure (\<lambda>(n, hw). SDIO_TX_MAXLEN - xmit_buff_put hw)"
    unfolding s by simp
qed simp

declare fill_burst.simps [simp del]

subsection \<open>The thread\<close>

text \<open>A message whose burst could not be written: a command is answered with an error.\<close>

definition atbm_sdio_force_free_wsm :: "bool \<Rightarrow> 'm atbm_common \<Rightarrow> 'm atbm_common option" where
  "atbm_sdio_force_free_wsm need_confirm hw =
     (if \<not> need_confirm then Some hw
      else do {
        m \<leftarrow> wb_mem (wsm_cmd_buf hw);
        idw \<leftarrow> rd16 m 6;
        let hw = snd (wsm_release_tx_buffer 1 hw);
        let wsm_id = idw AND 0x3F;
        if wsm_id = WSM_FIRMWARE_CHECK_ID \<or> wsm_id = WSM_TRANSMIT_REQ_MSG_ID then Some hw
        else if cmd_cmd (hw_wsm_cmd hw) \<noteq> 0xFFFF
        then Some (hw\<lparr>hw_wsm_cmd := (hw_wsm_cmd hw)\<lparr>cmd_ret := -1, cmd_done := True, cmd_cmd := 0xFFFF,
                        cmd_ptr := None, cmd_arg := Arg_NULL\<rparr>,
                      cmd_wq_wakeups := cmd_wq_wakeups hw + 1\<rparr>)
        else Some hw })"

text \<open>One pass from xmit_continue.  The result tells whether the thread is done.\<close>

definition write_burst ::
    "'b sbus_ops \<Rightarrow> 'm atbm_common \<Rightarrow> 'b hif \<Rightarrow> (int \<times> 'b hif) option" where
  "write_burst ops hw h = do {
     bs \<leftarrow> rdn (xmit_buff hw) 0 (xmit_buff_put hw);
     Some (atbm_data_write ops bs h) }"

definition wait_pass ::
    "bool \<Rightarrow> bool \<Rightarrow> 'm others \<Rightarrow> 'm atbm_common \<Rightarrow> ('m others \<times> 'm atbm_common) option" where
  "wait_pass enough need_confirm others hw =
     (if enough then Some (others, hw)
      else do {
        (ok, others, hw) \<leftarrow> atbm_sdio_wait_enough_space 1 others hw;
        if ok then Some (others, hw)
        else do { hw \<leftarrow> atbm_sdio_force_free_wsm need_confirm hw; Some (others, hw) } })"

definition tx_pass ::
    "'b sbus_ops \<Rightarrow> 'm others \<Rightarrow> 'm atbm_common \<Rightarrow> 'b hif \<Rightarrow> (bool \<times> 'm others \<times> 'm atbm_common \<times> 'b hif) option" where
  "tx_pass ops others hw h = do {
     (why, n, hw) \<leftarrow> fill_burst (0, hw\<lparr>xmit_buff_put := 0\<rparr>);
     let enough = (why \<noteq> No_space);
     let need_confirm = (why = Command_sent);
     if n = 0 then
       (if why = No_message then Some (True, others, hw, h)
        else do { (others, hw) \<leftarrow> wait_pass enough need_confirm others hw; Some (False, others, hw, h) })
     else do {
       guard (xmit_buff_put hw \<noteq> 0);
       let h = h\<lparr>buf_id_offset := int n\<rparr>;
       (ret, h) \<leftarrow> write_burst ops hw h;
       (others, hw) \<leftarrow> (if ret \<noteq> 0
          then do { hw \<leftarrow> atbm_sdio_force_free_wsm need_confirm hw; Some (others, hw) }
          else wait_pass enough need_confirm others hw);
       Some (False, others, hw, h) } }"

partial_function (option) atbm_sdio_tx_bh ::
    "'b sbus_ops \<Rightarrow> 'm others \<Rightarrow> 'm atbm_common \<Rightarrow> 'b hif \<Rightarrow> ('m others \<times> 'm atbm_common \<times> 'b hif) option" where
  "atbm_sdio_tx_bh ops others hw h = (case tx_pass ops others hw h of
     None \<Rightarrow> None
   | Some (finished, others, hw, h) \<Rightarrow>
       if finished then Some (others, hw, h) else atbm_sdio_tx_bh ops others hw h)"

text \<open>The end of the transmit thread (hal_apollo/apollo_sdio.c) answers a command that is still open.\<close>

definition atbm_sdio_release_err_cmd :: "'m atbm_common \<Rightarrow> 'm atbm_common" where
  "atbm_sdio_release_err_cmd hw =
     (if cmd_cmd (hw_wsm_cmd hw) \<noteq> 0xFFFF
      then hw\<lparr>hw_wsm_cmd := (hw_wsm_cmd hw)\<lparr>cmd_ret := -1, cmd_done := True, cmd_cmd := 0xFFFF,
                cmd_ptr := None, cmd_arg := Arg_NULL\<rparr>,
              cmd_wq_wakeups := cmd_wq_wakeups hw + 1\<rparr>
      else hw)"

end
