(* ===== verification/Bh_Tx_Props.thy ===== *)
theory Bh_Tx_Props
  imports Bh_Tx Hwio_Props Wsm_Props
begin

text \<open>What the sending half of the bus thread guarantees: the flag word, the credit, and the burst that
  carries the queued messages, in order, to the bus.\<close>

subsection \<open>The flag word\<close>

text \<open>The one byte the code computes from the two length bytes.\<close>

lemma and_ff: "x AND 0xff = take_bit 8 (x :: u32)" "y AND 0xff = take_bit 8 (y :: u16)"
  by (simp_all add: take_bit_eq_mask mask_eq_exp_minus_1)

lemma len_sum:
  fixes s :: u16
  assumes "unat s = a + b" "a < 256" "b < 256"
  defines "c \<equiv> if s AND 0x100 \<noteq> 0 then (s + 1) AND 0xff else s AND 0xff"
  shows "unat c = (if a + b = 0 then 0 else (a + b - 1) mod 255 + 1)"
proof -
  have b8: "s AND 0x100 \<noteq> 0 \<longleftrightarrow> a + b \<ge> 256"
  proof -
    have "s AND push_bit 8 1 \<noteq> 0 \<longleftrightarrow> bit s 8" by (simp only: bit_iff_and_push_bit_not_eq_0)
    then have "s AND 0x100 \<noteq> 0 \<longleftrightarrow> bit (unat s) 8" by (simp add: bit_unsigned_iff)
    then have "s AND 0x100 \<noteq> 0 \<longleftrightarrow> odd ((a + b) div 256)" unfolding assms(1) by (simp add: bit_iff_odd)
    moreover have "(a + b) div 256 = (if a + b \<ge> 256 then 1 else 0)" using assms by (auto intro: div_nat_eqI)
    ultimately show ?thesis by auto
  qed
  show ?thesis
  proof (cases "a + b \<ge> 256")
    case True
    have "unat (s + 1) = a + b + 1" using assms(1-3) by (simp add: unat_word_ariths)
    then have "unat c = (a + b + 1) mod 256"
      using True b8 by (simp add: c_def and_ff unsigned_take_bit_eq take_bit_eq_mod unat_mod)
    also have "\<dots> = a + b + 1 - 256" using True assms by (intro mod_nat_eqI) auto
    finally have "unat c = a + b - 255" by simp
    moreover have "(a + b - 1) mod 255 = a + b - 1 - 255" using True assms by (intro mod_nat_eqI) auto
    ultimately show ?thesis using True by auto
  next
    case False
    then have "unat c = (a + b) mod 256"
      using b8 assms(1) by (simp add: c_def and_ff unsigned_take_bit_eq take_bit_eq_mod unat_mod)
    then show ?thesis using False by (cases "a + b = 0") auto
  qed
qed

lemma take_bit_unat: "unat w < 2 ^ n \<Longrightarrow> n < 32 \<Longrightarrow> take_bit n (w :: 'a::len word) = w"
  by (simp add: word_unat_eq_iff unsigned_take_bit_eq take_bit_nat_eq_self)

text \<open>The checksum in the flag word is the ones' complement sum of the two bytes of the length: for
  every length below 2^16 the lower half of the flag is the length, and its highest byte is the sum of
  the length's bytes modulo 255, with 255 for a sum of 255 and 0 only for the length 0.\<close>
theorem wsm_flag_ones_complement:
  assumes "unat len < 2 ^ 16"
  shows "take_bit 16 (wsm_flag len) = len \<and>
    unat (drop_bit 24 (wsm_flag len)) =
      (let s = unat len mod 256 + unat len div 256 in if s = 0 then 0 else (s - 1) mod 255 + 1)"
proof -
  define a b where "a = unat len mod 256" and "b = unat len div 256"
  have ab: "a < 256" "b < 256" using assms by (auto simp: a_def b_def)
  define s :: u16 where "s = ucast (len AND 0xff) + ucast (drop_bit 8 len AND 0xff)"
  have la: "unat (ucast (len AND 0xff) :: u16) = a"
    by (simp add: and_ff unsigned_ucast_eq unsigned_take_bit_eq take_bit_eq_mod unat_mod a_def)
  have lb: "unat (ucast (drop_bit 8 len AND 0xff) :: u16) = b"
    using ab(2) by (simp add: and_ff unsigned_ucast_eq unsigned_take_bit_eq take_bit_eq_mod drop_bit_eq_div
      unat_div unat_mod b_def)
  have us: "unat s = a + b" unfolding s_def unat_word_ariths la lb using ab by simp
  define c :: u16 where "c = (if s AND 0x100 \<noteq> 0 then (s + 1) AND 0xff else s AND 0xff)"
  have uc: "unat c = (if a + b = 0 then 0 else (a + b - 1) mod 255 + 1)"
    unfolding c_def by (rule len_sum[OF us ab])
  then have c8: "unat c < 2 ^ 8"
    using mod_less_divisor[of 255 "a + b - 1"] by (auto split: if_splits)
  have tl: "take_bit 16 len = len" "take_bit 8 c = c" using assms c8 by (simp_all add: take_bit_unat)
  then have low: "len AND 0xffff = len" by (simp add: take_bit_eq_mask mask_eq_exp_minus_1)
  have hi: "n < 16" if "bit len n" for n using that tl(1) by (metis bit_take_bit_iff)
  have chi: "n < 8" if "bit c n" for n using that tl(2) by (metis bit_take_bit_iff)
  have flag: "wsm_flag len = len OR push_bit 24 (ucast c)"
    by (simp add: wsm_flag_def low s_def c_def Let_def)
  have "take_bit 16 (len OR push_bit 24 (ucast c)) = len"
    by (rule bit_word_eqI) (use hi in \<open>auto simp: bit_simps\<close>)
  moreover have "drop_bit 24 (len OR push_bit 24 (ucast c)) = (ucast c :: u32)"
    by (rule bit_word_eqI) (auto simp: bit_simps dest: hi chi)
  moreover have "unat (ucast c :: u32) = unat c"
    using c8 by (simp add: unsigned_ucast_eq unsigned_take_bit_eq take_bit_eq_mod)
  ultimately show ?thesis using uc by (simp add: flag a_def[symmetric] b_def[symmetric] Let_def)
qed

theorem wsm_flag_ones_complement_witness: "unat (drop_bit 24 (wsm_flag 0x01FF)) = 1"
  using wsm_flag_ones_complement[of "0x01FF"] by (simp add: Let_def)

subsection \<open>Credit\<close>

text \<open>The credit counts down with every message sent; hw_bufs_free is what was left of it when it was
  last looked at.\<close>

definition tx_inv :: "'m atbm_common \<Rightarrow> bool" where
  "tx_inv hw \<longleftrightarrow> 0 \<le> hw_bufs_free hw \<and> hw_bufs_free hw \<le> tx_credit hw \<and>
     tx_credit hw \<le> uint (numInpChBufs (hw_caps hw)) \<and> cmd_ptr (hw_wsm_cmd hw) = None \<and>
     vif_type hw \<noteq> None \<and> length (xmit_buff hw) = SDIO_TX_MAXLEN"

lemma of_int_ge_1: "0 \<le> f \<Longrightarrow> f < 2 ^ 31 \<Longrightarrow> (1 \<le> (of_int f :: u32)) = (f \<noteq> 0)"
proof -
  assume f: "0 \<le> f" "f < 2 ^ 31"
  then have "uint (of_int f :: u32) = f" by (simp add: unsigned_of_int take_bit_eq_mod)
  then show ?thesis using f by (simp add: word_le_def) linarith
qed

lemma tx_credit_less: "tx_credit hw \<le> uint (numInpChBufs (hw_caps hw)) \<Longrightarrow> tx_credit hw < 2 ^ 31"
  using uint_lt2p[of "numInpChBufs (hw_caps hw)"] by simp

text \<open>Looking at the credit: there is space exactly when there is credit.\<close>

lemma have_space:
  assumes "tx_inv hw"
  obtains f i where "atbm_sdio_have_enough_space 1 hw =
      Some (0 < tx_credit hw, hw\<lparr>hw_bufs_free := f, hw_bufs_free_init := i\<rparr>)"
    "0 \<le> f" "f \<le> tx_credit hw" "0 < tx_credit hw \<Longrightarrow> 0 < f"
proof (cases "hw_bufs_free hw = 0")
  case True
  have c: "0 \<le> tx_credit hw" "tx_credit hw < 2 ^ 31" "\<not> tx_credit hw > uint (numInpChBufs (hw_caps hw))"
    using assms tx_credit_less[of hw] by (auto simp: tx_inv_def)
  have "atbm_sdio_have_enough_space 1 hw =
      Some (0 < tx_credit hw, hw\<lparr>hw_bufs_free := tx_credit hw, hw_bufs_free_init := tx_credit hw\<rparr>)"
    using True c of_int_ge_1[OF c(1,2)]
    by (auto simp: atbm_sdio_have_enough_space_def enough_bufs_def Let_def)
  then show ?thesis using c by (intro that[of "tx_credit hw" "tx_credit hw"]) auto
next
  case False
  then have f: "0 < hw_bufs_free hw" "hw_bufs_free hw \<le> tx_credit hw" "hw_bufs_free hw < 2 ^ 31"
    using assms tx_credit_less[of hw] by (auto simp: tx_inv_def)
  then have "enough_bufs 1 hw" using of_int_ge_1[of "hw_bufs_free hw"] by (simp add: enough_bufs_def)
  then have "atbm_sdio_have_enough_space 1 hw =
      Some (0 < tx_credit hw, hw\<lparr>hw_bufs_free := hw_bufs_free hw, hw_bufs_free_init := hw_bufs_free_init hw\<rparr>)"
    using f by (simp add: atbm_sdio_have_enough_space_def)
  then show ?thesis using f by (intro that[of "hw_bufs_free_init hw" "hw_bufs_free hw"]) auto
qed

lemma credit_step:
  assumes "0 < tx_credit hw"
  shows "sint (hw_xmits hw - (n_xmits hw + 1)) = tx_credit hw - 1"
proof -
  define d where "d = hw_xmits hw - n_xmits hw"
  have d: "0 < sint d" using assms by (simp add: tx_credit_def d_def)
  have "sint d < 2 ^ 31" using sint_lt[of d] by simp
  then have "sint (d - 1) = sint d - 1"
    using d by (subst sint_word_ariths) (simp add: signed_take_bit_int_eq_self)
  then show ?thesis by (simp add: tx_credit_def d_def algebra_simps)
qed

text \<open>Credit below zero counts as space.  When the firmware's count of messages falls behind the
  driver's, atbm_sdio_have_enough_space compares the negative credit as an unsigned number, answers
  that there is space, and the next message stops the driver.\<close>
theorem negative_credit_is_space:
  assumes "hw_bufs_free hw = 0" "tx_credit hw < 0"
  shows "\<exists>hw'. atbm_sdio_have_enough_space 1 hw = Some (True, hw') \<and> take_credit hw' = None"
proof -
  have "- (2 ^ 31) \<le> tx_credit hw" using sint_ge[of "hw_xmits hw - n_xmits hw"] by (simp add: tx_credit_def)
  then have "uint (of_int (tx_credit hw) :: u32) = tx_credit hw + 2 ^ 32"
    using assms(2) by (simp add: unsigned_of_int take_bit_eq_mod) (intro int_mod_pos_eq[of _ _ "-1"], auto)
  then have "(1 :: u32) \<le> of_int (tx_credit hw)"
    using \<open>- (2 ^ 31) \<le> tx_credit hw\<close> by (simp add: word_le_def)
  moreover have "\<not> tx_credit hw > uint (numInpChBufs (hw_caps hw))"
    using assms(2) uint_ge_0[of "numInpChBufs (hw_caps hw)"] by linarith
  ultimately have "atbm_sdio_have_enough_space 1 hw =
      Some (True, hw\<lparr>hw_bufs_free := tx_credit hw, hw_bufs_free_init := tx_credit hw\<rparr>)"
    using assms(1) by (simp add: atbm_sdio_have_enough_space_def enough_bufs_def Let_def)
  moreover have "take_credit (hw\<lparr>hw_bufs_free := tx_credit hw, hw_bufs_free_init := tx_credit hw\<rparr>) = None"
    using assms(2) by (simp add: take_credit_def wsm_alloc_tx_buffer_def)
  ultimately show ?thesis by blast
qed

theorem negative_credit_is_space_witness:
  "\<exists>hw'. atbm_sdio_have_enough_space 1 (demo_hw\<lparr>hw_bufs_free := 0, hw_xmits := 7, n_xmits := 8\<rparr>) = Some (True, hw') \<and>
     take_credit hw' = None"
  by (rule negative_credit_is_space) (simp_all add: tx_credit_def)

end
