(* ===== verification/Bh_Tx_Burst.thy ===== *)
theory Bh_Tx_Burst
  imports Bh_Tx_Props
begin

text \<open>The messages in the transmit queue and the burst that carries them to the bus.\<close>

subsection \<open>One message\<close>

text \<open>A message is its flag word, length, identifier and the rest; sending overwrites the flag word and
  puts the sequence number in the identifier.\<close>

definition stamped :: "u16 \<Rightarrow> bytes \<Rightarrow> bytes" where
  "stamped s body = bytes32 (wsm_flag (of_nat (length body))) @ take 2 (drop 4 body) @
     bytes16 ((val16 (take 2 (drop 6 body)) AND NOT (WSM_TX_SEQ WSM_TX_SEQ_MAX)) OR WSM_TX_SEQ s) @ drop 8 body"

text \<open>A message lies at the data pointer.  The length of the buffer is not read on the way to the bus: a
  message is as long as its header says, which for a frame to be encrypted is longer than the buffer.\<close>

definition skb_holds :: "sk_buff \<Rightarrow> bytes \<Rightarrow> bytes \<Rightarrow> bytes \<Rightarrow> bool" where
  "skb_holds skb pre body post \<longleftrightarrow> skb_mem skb = pre @ body @ post \<and> skb_data skb = int (length pre) \<and>
     length body < 2 ^ 16"

lemma view_holds: "skb_view skb pre (body @ icv) post \<Longrightarrow> skb_holds skb pre body (icv @ post)"
  using unat_lt2p[of "skb_len skb"] by (auto simp: skb_view_def skb_holds_def)

lemma holds_rdn:
  assumes "skb_holds skb pre body post" "off + n \<le> length body + length post"
  shows "skb_rdn skb (int off) n = Some (take n (drop off (body @ post)))"
  using assms by (simp add: skb_holds_def skb_rdn_def rdn_def nat_add_distrib)

lemma holds_rdn_body:
  assumes "skb_holds skb pre (a @ b @ c) post" "off = int (length a)" "n = length b"
  shows "skb_rdn skb off n = Some b"
  using holds_rdn[OF assms(1), of "length a" n] assms by simp

lemma holds_wrn:
  assumes "skb_holds skb pre (a @ b @ c) post" "off = int (length a)" "length bs = length b"
  shows "skb_wrn skb off bs = Some (skb\<lparr>skb_mem := pre @ (a @ bs @ c) @ post\<rparr>)"
    and "skb_holds (skb\<lparr>skb_mem := pre @ (a @ bs @ c) @ post\<rparr>) pre (a @ bs @ c) post"
  using assms by (auto simp: skb_holds_def skb_wrn_def wrn_def nat_add_distrib)

definition tx_msg_ok :: "nat \<Rightarrow> sk_buff \<times> bytes \<Rightarrow> bool" where
  "tx_msg_ok room = (\<lambda>(skb, body). (\<exists>pre post. skb_holds skb pre body post) \<and> skb_data_len skb = 0 \<and>
     8 \<le> length body \<and> val16 (take 2 (drop 4 body)) = of_nat (length body) \<and> pad_len (length body) \<le> room)"

lemma length_stamped: "8 \<le> length body \<Longrightarrow> length (stamped s body) = length body"
  by (simp add: stamped_def)

lemma body_split:
  assumes "8 \<le> length body"
  obtains f l i r where "body = f @ l @ i @ r" "length f = 4" "length l = 2" "length i = 2"
    "l = take 2 (drop 4 body)" "i = take 2 (drop 6 body)" "r = drop 8 body"
proof -
  have "drop 4 body = take 2 (drop 4 body) @ drop 6 body" using append_take_drop_id[of 2 "drop 4 body"] by simp
  moreover have "drop 6 body = take 2 (drop 6 body) @ drop 8 body"
    using append_take_drop_id[of 2 "drop 6 body"] by simp
  ultimately have "body = take 4 body @ take 2 (drop 4 body) @ take 2 (drop 6 body) @ drop 8 body"
    using append_take_drop_id[of 4 body] by simp
  then show ?thesis using assms by (intro that[of "take 4 body" "take 2 (drop 4 body)" "take 2 (drop 6 body)"]) auto
qed

lemma unat_len_body: "skb_holds skb pre body post \<Longrightarrow> unat (of_nat (length body) :: u32) = length body"
  "skb_holds skb pre body post \<Longrightarrow> length body < 2 ^ 16"
  by (auto simp: skb_holds_def unat_of_nat)

lemma ucast_of_nat16: "n < 2 ^ 16 \<Longrightarrow> (ucast (of_nat n :: u16) :: u32) = of_nat n"
proof -
  assume n: "n < 2 ^ 16"
  have "unat (of_nat n :: u16) = n" using n by (simp add: unat_of_nat)
  then have "(of_nat n :: u32) = of_nat (unat (of_nat n :: u16))" by (simp only:)
  then show ?thesis by simp
qed

lemma view_mem: "skb_holds (skb\<lparr>skb_mem := m\<rparr>) pre body post \<Longrightarrow> m = pre @ body @ post"
  by (simp add: skb_holds_def)

lemma stamp_frame:
  assumes v: "skb_holds skb pre body post" and l8: "8 \<le> length body"
    and len: "val16 (take 2 (drop 4 body)) = of_nat (length body)"
    and it: "tx_skb it = Some skb" "tx_len it = of_nat (length body)"
  obtains skb' where "stamp_item it hw = Some (it\<lparr>tx_skb := Some skb'\<rparr>, hw)"
    "skb_holds skb' pre (stamped (wsm_tx_seq hw) body) post" "skb_data_len skb' = skb_data_len skb"
    "skb_addr skb' = skb_addr skb"
proof -
  obtain f l i r where b: "body = f @ l @ i @ r" "length f = 4" "length l = 2" "length i = 2"
    "l = take 2 (drop 4 body)" "i = take 2 (drop 6 body)" "r = drop 8 body" using body_split[OF l8] by blast
  define F where "F = bytes32 (wsm_flag (of_nat (length body)))"
  define I where "I = bytes16 ((val16 i AND NOT (WSM_TX_SEQ WSM_TX_SEQ_MAX)) OR WSM_TX_SEQ (wsm_tx_seq hw))"
  have FI: "length F = 4" "length I = 2" by (simp_all add: F_def I_def bytes16_def)
  have v0: "skb_holds skb pre ([] @ f @ (l @ i @ r)) post" using v b(1) by simp
  define s1 where "s1 = skb\<lparr>skb_mem := pre @ ([] @ F @ (l @ i @ r)) @ post\<rparr>"
  have w1: "skb_wrn skb 0 F = Some s1" and v1: "skb_holds s1 pre ([] @ F @ (l @ i @ r)) post"
    using holds_wrn[OF v0, of 0 F] b(2) FI by (simp_all add: s1_def)
  have v2: "skb_holds s1 pre ((F @ l) @ i @ r) post" using v1 by simp
  define s2 where "s2 = s1\<lparr>skb_mem := pre @ ((F @ l) @ I @ r) @ post\<rparr>"
  have w2: "skb_wrn s1 6 I = Some s2" and v3: "skb_holds s2 pre ((F @ l) @ I @ r) post"
    using holds_wrn[OF v2, of 6 I] b(3,4) FI by (simp_all add: s2_def)
  have v0': "skb_holds skb pre (f @ l @ (i @ r)) post" using v0 by simp
  have r1: "skb_rdn skb 4 2 = Some l" by (rule holds_rdn_body[OF v0']) (simp_all add: b(2,3))
  have r2: "skb_rdn s1 6 2 = Some i" by (rule holds_rdn_body[OF v2]) (simp_all add: b(3,4) FI)
  have st: "(F @ l) @ I @ r = stamped (wsm_tx_seq hw) body" using b(5-7) by (simp add: stamped_def F_def I_def)
  have lb: "length body < 2 ^ 16" using unat_len_body(2)[OF v] .
  have g1: "\<not> tx_len it < of_nat sizeof_wsm_hdr_tx"
    using l8 unat_len_body(1)[OF v] it(2) by (simp add: word_less_nat_alt)
  have g2: "ucast (val16 l) = tx_len it"
    unfolding b(5) len it(2) by (rule ucast_of_nat16[OF lb])
  have "stamp_item it hw = Some (it\<lparr>tx_skb := Some s2\<rparr>, hw)"
    using g1 g2 r1 r2 w1 w2 it
    by (simp add: stamp_item_def item_rdn_def item_wrn_def Let_def flip: F_def I_def)
  moreover have "skb_holds s2 pre (stamped (wsm_tx_seq hw) body) post" using v3 unfolding st .
  ultimately show ?thesis by (intro that[of s2]) (simp_all add: s1_def s2_def)
qed

lemma rd16_rdn: "skb_rdn skb off 2 = Some l \<Longrightarrow> skb_rd16 skb off = Some (val16 l)"
proof -
  assume a: "skb_rdn skb off 2 = Some l"
  define k where "k = nat (skb_data skb + off)"
  have k: "0 \<le> skb_data skb + off" "k + 2 \<le> length (skb_mem skb)" "l = take 2 (drop k (skb_mem skb))"
    using a by (auto simp: skb_rdn_def rdn_Some k_def)
  then have "l = [skb_mem skb ! k, skb_mem skb ! (k + 1)]"
    by (simp add: numeral_2_eq_2 take_Suc_conv_app_nth)
  moreover have "rd8 (skb_mem skb) (skb_data skb + off) = Some (skb_mem skb ! k)"
    "rd8 (skb_mem skb) (skb_data skb + off + 1) = Some (skb_mem skb ! (k + 1))"
    using k(1,2) by (auto simp: rd8_def k_def nat_add_distrib)
  ultimately show ?thesis by (simp add: skb_rd16_def rd16_def val16_def)
qed

text \<open>What the burst is about; the rest of the adapter are counters of the network device.\<close>

definition same_burst :: "'m atbm_common \<Rightarrow> 'm atbm_common \<Rightarrow> bool" where
  "same_burst hw hw' \<longleftrightarrow> xmit_buff hw' = xmit_buff hw \<and> xmit_buff_put hw' = xmit_buff_put hw \<and>
     wsm_tx_seq hw' = wsm_tx_seq hw \<and> n_xmits hw' = n_xmits hw \<and> hw_xmits hw' = hw_xmits hw \<and>
     hw_bufs_free hw' = hw_bufs_free hw \<and> hw_caps hw' = hw_caps hw \<and>
     tx_frame_queue hw' = tx_frame_queue hw \<and> hw_wsm_cmd hw' = hw_wsm_cmd hw \<and>
     vif_type hw' = vif_type hw \<and> freed_skbs hw' = freed_skbs hw"

lemma frame_sent_ok:
  assumes "vif_type hw \<noteq> None"
  shows "\<exists>hw'. frame_sent hw = Some hw' \<and> same_burst hw hw'"
  using assms
  by (auto simp: frame_sent_def netif_tx_wake_all_queues_def wsm_release_tx_buffer_def Let_def same_burst_def)

lemma round_frame:
  assumes inv: "tx_inv hw" "0 < tx_credit hw" and q: "tx_frame_queue hw = skb # q"
    and ok: "tx_msg_ok room (skb, body)" and room: "room = unat (sizeInpChBuf (hw_caps hw))"
    "xmit_buff_put hw + room \<le> SDIO_TX_MAXLEN"
  obtains hw' where "tx_round (n, hw) = Some (if xmit_buff_put hw' + room > SDIO_TX_MAXLEN
      then Stop Buffer_full else Go_on, n + 1, hw')"
    "tx_inv hw'" "tx_frame_queue hw' = q" "hw_caps hw' = hw_caps hw" "hw_xmits hw' = hw_xmits hw"
    "n_xmits hw' = n_xmits hw + 1" "tx_credit hw' = tx_credit hw - 1"
    "wsm_tx_seq hw' = (wsm_tx_seq hw + 1) AND WSM_TX_SEQ_MAX"
    "xmit_buff_put hw' = xmit_buff_put hw + pad_len (length body)"
    "xmit_buff hw' = take (xmit_buff_put hw) (xmit_buff hw) @ stamped (wsm_tx_seq hw) body @
       drop (xmit_buff_put hw + length body) (xmit_buff hw)"
    "map skb_addr (freed_skbs hw') = map skb_addr (freed_skbs hw) @ [skb_addr skb]"
proof -
  obtain pre post where v: "skb_holds skb pre body post" using ok by (auto simp: tx_msg_ok_def)
  have m: "skb_data_len skb = 0" "8 \<le> length body" "val16 (take 2 (drop 4 body)) = of_nat (length body)"
    "pad_len (length body) \<le> room" using ok by (auto simp: tx_msg_ok_def)
  have lb: "length body < 2 ^ 16" using unat_len_body(2)[OF v] .
  define put where "put = xmit_buff_put hw"
  obtain f fi where sp: "atbm_sdio_have_enough_space 1 hw = Some (True, hw\<lparr>hw_bufs_free := f, hw_bufs_free_init := fi\<rparr>)"
    "f \<le> tx_credit hw" "0 < f" using have_space[OF inv(1)] inv(2) by metis
  define hw1 where "hw1 = hw\<lparr>hw_bufs_free := f, hw_bufs_free_init := fi, tx_frame_queue := q\<rparr>"
  define it where "it = \<lparr>tx_ptr = Skb_buffer (skb_addr skb), tx_len = of_nat (length body), tx_vif = 0, tx_skb = Some skb\<rparr>"
  have "skb_rdn skb 4 2 = Some (take 2 (drop 4 body))"
    using holds_rdn[OF v, of 4 2] m(2) by simp
  then have "skb_rd16 skb 4 = Some (of_nat (length body))" using rd16_rdn m(3) by metis
  then have get: "wsm_get_tx (hw\<lparr>hw_bufs_free := f, hw_bufs_free_init := fi\<rparr>) = Some (Some it, hw1)"
    using inv(1) q ucast_of_nat16[OF lb] by (simp add: wsm_get_tx_def tx_inv_def hw1_def it_def)
  obtain skb' where st: "stamp_item it hw1 = Some (it\<lparr>tx_skb := Some skb'\<rparr>, hw1)"
    "skb_holds skb' pre (stamped (wsm_tx_seq hw1) body) post" "skb_data_len skb' = skb_data_len skb" "skb_addr skb' = skb_addr skb"
    by (rule stamp_frame[OF v m(2,3), of it hw1]) (simp_all add: it_def)
  define hw2 where "hw2 = hw1\<lparr>hw_bufs_used := hw_bufs_used hw1 + 1, n_xmits := n_xmits hw1 + 1, hw_bufs_free := f - 1\<rparr>"
  have tc: "take_credit hw1 = Some hw2"
    using sp(3) by (simp add: take_credit_def wsm_alloc_tx_buffer_def hw1_def hw2_def)
  define bs where "bs = stamped (wsm_tx_seq hw) body"
  have lbs: "length bs = length body" using length_stamped[OF m(2)] by (simp add: bs_def)
  have fit: "put + length bs \<le> length (xmit_buff hw)"
    using room(2) m(4) pad_len_bounds(2)[of "length body"] inv(1) lbs by (simp add: tx_inv_def put_def)
  have rd: "skb_rdn skb' 0 (length body) = Some bs"
    using holds_rdn[OF st(2), of 0 "length body"] lbs by (simp add: bs_def hw1_def)
  define buf where "buf = take put (xmit_buff hw) @ bs @ drop (put + length bs) (xmit_buff hw)"
  have wr: "wrn (xmit_buff hw) (int put) bs = Some buf" using fit by (auto simp: wrn_def buf_def)
  define hw3 where "hw3 = hw2\<lparr>xmit_buff := buf, freed_skbs := freed_skbs hw @ [skb'], xmit_buff_put := put + pad_len (length body),
      wsm_tx_seq := (wsm_tx_seq hw + 1) AND WSM_TX_SEQ_MAX\<rparr>"
  have ul: "unat (tx_len it) = length body" using unat_len_body(1)[OF v] by (simp add: it_def)
  have cp: "copy_item (it\<lparr>tx_skb := Some skb'\<rparr>) hw2 = Some hw3"
    using rd wr m(1) st(3) ul unat_wire_len[of "tx_len it"] lb
    by (simp add: copy_item_def atbm_xmit_linearize_def skb_is_nonlinear_def free_hw_skb_def hw3_def hw2_def hw1_def put_def)
  have tx: "wsm_txed (tx_ptr it) hw3 = (False, hw3)"
    using inv(1) by (simp add: wsm_txed_def hw3_def hw2_def hw1_def tx_inv_def)
  have "vif_type hw3 \<noteq> None" using inv(1) by (simp add: hw3_def hw2_def hw1_def tx_inv_def)
  then obtain hw' where fs: "frame_sent hw3 = Some hw'" "same_burst hw3 hw'" using frame_sent_ok by blast
  note S = fs(2)[unfolded same_burst_def hw3_def hw2_def hw1_def, simplified]
  have cr: "tx_credit hw' = tx_credit hw - 1"
    using credit_step[OF inv(2)] S unfolding tx_credit_def by simp
  have "send_item it hw1 = Some (if xmit_buff_put hw' + room > SDIO_TX_MAXLEN then Stop Buffer_full else Go_on, hw')"
    using st(1) tc cp tx fs(1) S by (simp add: send_item_def room(1))
  then have "tx_round (n, hw) = Some (if xmit_buff_put hw' + room > SDIO_TX_MAXLEN then Stop Buffer_full else Go_on, n + 1, hw')"
    using sp(1) get by (simp add: tx_round_def)
  moreover have "tx_inv hw'"
    using inv sp(2,3) cr S fit lbs unfolding tx_inv_def by (simp add: buf_def)
  ultimately show ?thesis using S cr st(4)
    by (intro that[of hw']) (simp_all add: put_def buf_def bs_def lbs[unfolded bs_def])
qed

subsection \<open>The burst\<close>

text \<open>The messages of a burst lie one behind the other, each in room for a multiple of 256 bytes, with
  consecutive sequence numbers.\<close>

primrec burst_at :: "bytes \<Rightarrow> nat \<Rightarrow> u16 \<Rightarrow> bytes list \<Rightarrow> bool" where
  "burst_at buf pos s [] = True"
| "burst_at buf pos s (b # bs) = (take (length b) (drop pos buf) = stamped s b \<and>
     burst_at buf (pos + pad_len (length b)) ((s + 1) AND WSM_TX_SEQ_MAX) bs)"

definition burst_len :: "bytes list \<Rightarrow> nat" where
  "burst_len bs = sum_list (map (pad_len \<circ> length) bs)"

lemma burst_len_simps [simp]: "burst_len [] = 0" "burst_len (b # bs) = pad_len (length b) + burst_len bs"
  by (simp_all add: burst_len_def)

text \<open>What filling the burst from the state hw, with n messages already in it, leaves.\<close>

definition burst_filled ::
    "nat \<Rightarrow> (sk_buff \<times> bytes) list \<Rightarrow> nat \<Rightarrow> 'm atbm_common \<Rightarrow> tx_stop \<Rightarrow> 'm atbm_common \<Rightarrow> bool" where
  "burst_filled room ms k hw why hw' \<longleftrightarrow> k \<le> length ms \<and> tx_inv hw' \<and>
     tx_frame_queue hw' = map fst (drop k ms) \<and> hw_caps hw' = hw_caps hw \<and> hw_xmits hw' = hw_xmits hw \<and>
     tx_credit hw' = tx_credit hw - int k \<and>
     xmit_buff_put hw' = xmit_buff_put hw + burst_len (map snd (take k ms)) \<and>
     burst_at (xmit_buff hw') (xmit_buff_put hw) (wsm_tx_seq hw) (map snd (take k ms)) \<and>
     take (xmit_buff_put hw) (xmit_buff hw') = take (xmit_buff_put hw) (xmit_buff hw) \<and>
     xmit_buff_put hw' \<le> SDIO_TX_MAXLEN \<and> wsm_tx_seq hw' = ((\<lambda>s. (s + 1) AND WSM_TX_SEQ_MAX) ^^ k) (wsm_tx_seq hw) \<and>
     map skb_addr (freed_skbs hw') = map skb_addr (freed_skbs hw @ map fst (take k ms)) \<and>
     (case why of No_message \<Rightarrow> k = length ms | No_space \<Rightarrow> tx_credit hw' = 0
      | Buffer_full \<Rightarrow> 0 < k \<and> xmit_buff_put hw' + room > SDIO_TX_MAXLEN | Command_sent \<Rightarrow> False)"

lemma round_no_space:
  assumes "tx_inv hw" "\<not> 0 < tx_credit hw"
  shows "\<exists>f i. tx_round (n, hw) = Some (Stop No_space, n, hw\<lparr>hw_bufs_free := f, hw_bufs_free_init := i\<rparr>) \<and>
    0 \<le> f \<and> f \<le> tx_credit hw"
proof -
  obtain f i where "atbm_sdio_have_enough_space 1 hw = Some (False, hw\<lparr>hw_bufs_free := f, hw_bufs_free_init := i\<rparr>)"
    "0 \<le> f" "f \<le> tx_credit hw" using have_space[OF assms(1)] assms(2) by metis
  then show ?thesis by (intro exI[of _ f] exI[of _ i]) (simp add: tx_round_def)
qed

lemma round_no_message:
  assumes "tx_inv hw" "0 < tx_credit hw" "tx_frame_queue hw = []"
  shows "\<exists>f i. tx_round (n, hw) = Some (Stop No_message, n, hw\<lparr>hw_bufs_free := f, hw_bufs_free_init := i\<rparr>) \<and>
    0 \<le> f \<and> f \<le> tx_credit hw"
proof -
  obtain f i where "atbm_sdio_have_enough_space 1 hw = Some (True, hw\<lparr>hw_bufs_free := f, hw_bufs_free_init := i\<rparr>)"
    "0 \<le> f" "f \<le> tx_credit hw" using have_space[OF assms(1)] assms(2) by metis
  then show ?thesis using assms(1,3)
    by (intro exI[of _ f] exI[of _ i]) (simp add: tx_round_def wsm_get_tx_def tx_inv_def)
qed

lemma filled_stop:
  assumes "tx_inv hw" "0 \<le> f" "f \<le> tx_credit hw" "tx_frame_queue hw = map fst ms"
    "why = No_space \<and> \<not> 0 < tx_credit hw \<or> why = No_message \<and> ms = []" "xmit_buff_put hw + room \<le> SDIO_TX_MAXLEN"
  shows "burst_filled room ms 0 hw why (hw\<lparr>hw_bufs_free := f, hw_bufs_free_init := i\<rparr>)"
  using assms by (auto simp: burst_filled_def tx_inv_def tx_credit_def)

lemma fill_burst_ok:
  assumes "tx_inv hw" "tx_frame_queue hw = map fst ms" "\<forall>m\<in>set ms. tx_msg_ok room m"
    "room = unat (sizeInpChBuf (hw_caps hw))" "xmit_buff_put hw + room \<le> SDIO_TX_MAXLEN"
  shows "\<exists>why k hw'. fill_burst (n, hw) = Some (why, n + k, hw') \<and> burst_filled room ms k hw why hw' \<and>
     (ms \<noteq> [] \<and> 0 < tx_credit hw \<longrightarrow> 0 < k)"
  using assms
proof (induction ms arbitrary: n hw)
  case Nil
  show ?case
  proof (cases "0 < tx_credit hw")
    case True
    obtain f i where
      "tx_round (n, hw) = Some (Stop No_message, n, hw\<lparr>hw_bufs_free := f, hw_bufs_free_init := i\<rparr>)"
      "0 \<le> f" "f \<le> tx_credit hw" using round_no_message[OF Nil(1) True, of n] Nil(2) by auto
    with filled_stop[OF Nil(1) this(2,3), of "[]" No_message room i] Nil(2,5) show ?thesis
      by (intro exI[of _ No_message] exI[of _ 0] exI) (simp add: fill_burst.simps)
  next
    case False
    obtain f i where
      "tx_round (n, hw) = Some (Stop No_space, n, hw\<lparr>hw_bufs_free := f, hw_bufs_free_init := i\<rparr>)"
      "0 \<le> f" "f \<le> tx_credit hw" using round_no_space[OF Nil(1) False, of n] by blast
    with filled_stop[OF Nil(1) this(2,3), of "[]" No_space room i] Nil(2,5) False show ?thesis
      by (intro exI[of _ No_space] exI[of _ 0] exI) (simp add: fill_burst.simps)
  qed
next
  case (Cons m ms)
  obtain skb body where m: "m = (skb, body)" by fastforce
  show ?case
  proof (cases "0 < tx_credit hw")
    case False
    obtain f i where
      "tx_round (n, hw) = Some (Stop No_space, n, hw\<lparr>hw_bufs_free := f, hw_bufs_free_init := i\<rparr>)"
      "0 \<le> f" "f \<le> tx_credit hw" using round_no_space[OF Cons.prems(1) False, of n] by blast
    with filled_stop[OF Cons.prems(1) this(2,3), of "m # ms" No_space room i] Cons.prems(2,5) False show ?thesis
      by (intro exI[of _ No_space] exI[of _ 0] exI) (simp add: fill_burst.simps)
  next
    case True
    have q: "tx_frame_queue hw = skb # map fst ms" using Cons.prems(2) m by simp
    have ok: "tx_msg_ok room (skb, body)" using Cons.prems(3) m by simp
    obtain hw1 where r: "tx_round (n, hw) = Some (if xmit_buff_put hw1 + room > SDIO_TX_MAXLEN
        then Stop Buffer_full else Go_on, n + 1, hw1)"
      and s: "tx_inv hw1" "tx_frame_queue hw1 = map fst ms" "hw_caps hw1 = hw_caps hw" "hw_xmits hw1 = hw_xmits hw"
        "tx_credit hw1 = tx_credit hw - 1" "wsm_tx_seq hw1 = (wsm_tx_seq hw + 1) AND WSM_TX_SEQ_MAX"
        "xmit_buff_put hw1 = xmit_buff_put hw + pad_len (length body)"
        "xmit_buff hw1 = take (xmit_buff_put hw) (xmit_buff hw) @ stamped (wsm_tx_seq hw) body @
           drop (xmit_buff_put hw + length body) (xmit_buff hw)"
        "map skb_addr (freed_skbs hw1) = map skb_addr (freed_skbs hw) @ [skb_addr skb]"
      by (rule round_frame[OF Cons.prems(1) True q ok Cons.prems(4,5)])
    have fit: "xmit_buff_put hw + length body \<le> length (xmit_buff hw)" "length (stamped (wsm_tx_seq hw) body) = length body"
      using ok Cons.prems(1,5) pad_len_bounds(2)[of "length body"] length_stamped
      by (auto simp: tx_msg_ok_def tx_inv_def)
    have first: "take (length body) (drop (xmit_buff_put hw) (xmit_buff hw1)) = stamped (wsm_tx_seq hw) body"
      "take (xmit_buff_put hw) (xmit_buff hw1) = take (xmit_buff_put hw) (xmit_buff hw)"
      using fit by (simp_all add: s(8) min_def)
    show ?thesis
    proof (cases "xmit_buff_put hw1 + room > SDIO_TX_MAXLEN")
      case True
      then have "fill_burst (n, hw) = Some (Buffer_full, n + 1, hw1)" using r by (simp add: fill_burst.simps)
      moreover have "burst_filled room (m # ms) 1 hw Buffer_full hw1"
        using s first True m ok Cons.prems(5) by (simp add: burst_filled_def tx_msg_ok_def)
      ultimately show ?thesis by blast
    next
      case False
      have "room = unat (sizeInpChBuf (hw_caps hw1))" "xmit_buff_put hw1 + room \<le> SDIO_TX_MAXLEN"
        using Cons.prems(4) s(3) False by simp_all
      from Cons.IH[OF s(1,2) _ this, of "n + 1"] Cons.prems(3) obtain why k hw' where
        k: "fill_burst (n + 1, hw1) = Some (why, n + 1 + k, hw')" "burst_filled room ms k hw1 why hw'" by auto
      have "fill_burst (n, hw) = Some (why, n + Suc k, hw')" using r False k(1) by (subst fill_burst.simps) simp
      moreover have "burst_filled room (m # ms) (Suc k) hw why hw'"
      proof -
        note F = k(2)[unfolded burst_filled_def]
        have tk: "take (xmit_buff_put hw1) (xmit_buff hw') = take (xmit_buff_put hw1) (xmit_buff hw1)" using F by blast
        have "take (length body) (drop (xmit_buff_put hw) (xmit_buff hw')) =
            take (length body) (drop (xmit_buff_put hw) (take (xmit_buff_put hw1) (xmit_buff hw')))"
          using s(7) pad_len_bounds(2)[of "length body"] by (simp add: drop_take min_def)
        also have "\<dots> = take (length body) (drop (xmit_buff_put hw) (xmit_buff hw1))"
          unfolding tk using s(7) pad_len_bounds(2)[of "length body"] by (simp add: drop_take min_def)
        finally have b: "take (length body) (drop (xmit_buff_put hw) (xmit_buff hw')) = stamped (wsm_tx_seq hw) body"
          using first(1) by simp
        have "take (xmit_buff_put hw) (take (xmit_buff_put hw1) (xmit_buff hw')) = take (xmit_buff_put hw) (xmit_buff hw1)"
          unfolding tk using s(7) by (simp add: min_def)
        then have p: "take (xmit_buff_put hw) (xmit_buff hw') = take (xmit_buff_put hw) (xmit_buff hw)"
          using s(7) first(2) by (simp add: min_def)
        have sq: "((\<lambda>s. (s + 1) AND WSM_TX_SEQ_MAX) ^^ Suc k) (wsm_tx_seq hw) = wsm_tx_seq hw'"
          using F s(6) by (simp only: funpow_Suc_right comp_def)
        show ?thesis unfolding burst_filled_def using F s b p sq m
          by (auto simp del: funpow.simps split: tx_stop.splits)
      qed
      ultimately show ?thesis by blast
    qed
  qed
qed

subsection \<open>What the chip receives\<close>

text \<open>The reading of a burst: the length of a message is in its header, the next message follows in the
  next block.\<close>

function parse_burst :: "bytes \<Rightarrow> bytes list" where
  "parse_burst bs =
     (if length bs < 8 then []
      else let l = unat (val16 (take 2 (drop 4 bs)))
           in if l < 8 \<or> length bs < l then [] else take l bs # parse_burst (drop (pad_len l) bs))"
  by auto
termination
proof (relation "measure length")
  fix bs :: bytes and l
  assume "\<not> length bs < 8" "\<not> (l < 8 \<or> length bs < l)"
  then show "(drop (pad_len l) bs, bs) \<in> measure length" using pad_len_bounds(1)[of l] by auto
qed simp

declare parse_burst.simps [simp del]

primrec stamped_all :: "u16 \<Rightarrow> bytes list \<Rightarrow> bytes list" where
  "stamped_all s [] = []"
| "stamped_all s (b # bs) = stamped s b # stamped_all ((s + 1) AND WSM_TX_SEQ_MAX) bs"

lemma stamped_all_append:
  "stamped_all s (as @ bs) = stamped_all s as @ stamped_all (((\<lambda>s. (s + 1) AND WSM_TX_SEQ_MAX) ^^ length as) s) bs"
  by (induction as arbitrary: s) (simp_all add: funpow_Suc_right del: funpow.simps)

lemma stamped_len_field:
  assumes "8 \<le> length b"
  shows "take 2 (drop 4 (stamped s b @ xs)) = take 2 (drop 4 b)"
  using assms by (simp add: stamped_def)

lemma parse_burst_at:
  assumes "burst_at buf pos s bs" "\<forall>b\<in>set bs. 8 \<le> length b \<and> length b < 2 ^ 16 \<and>
      val16 (take 2 (drop 4 b)) = of_nat (length b)" "pos + burst_len bs \<le> length buf"
  shows "parse_burst (take (burst_len bs) (drop pos buf)) = stamped_all s bs"
  using assms
proof (induction bs arbitrary: pos s)
  case Nil
  then show ?case by (simp add: parse_burst.simps)
next
  case (Cons b bs)
  let ?w = "take (burst_len (b # bs)) (drop pos buf)"
  have b: "8 \<le> length b" "length b < 2 ^ 16" "val16 (take 2 (drop 4 b)) = of_nat (length b)" using Cons.prems(2) by auto
  have tb: "take (length b) ?w = stamped s b"
    using Cons.prems(1) pad_len_bounds(2)[of "length b"] by (simp add: min_def)
  obtain xs where w: "?w = stamped s b @ xs" using tb by (metis append_take_drop_id)
  have lw: "length ?w = pad_len (length b) + burst_len bs" using Cons.prems(3) by simp
  have l: "unat (val16 (take 2 (drop 4 ?w))) = length b"
    unfolding w stamped_len_field[OF b(1)] b(3) using b(2) by (simp add: unat_of_nat)
  have c: "\<not> length ?w < 8" "\<not> (length b < 8 \<or> length ?w < length b)"
    using lw b(1) pad_len_bounds(2)[of "length b"] by auto
  have "parse_burst ?w = take (length b) ?w # parse_burst (drop (pad_len (length b)) ?w)"
    by (subst parse_burst.simps) (simp only: l c if_False Let_def)
  moreover have "drop (pad_len (length b)) ?w = take (burst_len bs) (drop (pos + pad_len (length b)) buf)"
    by (simp add: drop_take add.commute)
  moreover have "parse_burst (take (burst_len bs) (drop (pos + pad_len (length b)) buf)) =
      stamped_all ((s + 1) AND WSM_TX_SEQ_MAX) bs"
    using Cons.prems by (intro Cons.IH) auto
  ultimately show ?case using tb by simp
qed

text \<open>A bus that takes every message; sent is what it has taken.\<close>

definition takes_messages :: "'b sbus_ops \<Rightarrow> ('b \<Rightarrow> bytes list) \<Rightarrow> bool" where
  "takes_messages ops sent \<longleftrightarrow>
     (\<forall>a bs b. \<exists>b'. sbus_memcpy_toio ops a bs b = (0, b') \<and> sent b' = sent b @ [bs])"

lemma data_write_taken:
  assumes "takes_messages ops sent"
  shows "\<exists>h'. atbm_data_write ops bs h = (0, h') \<and> sent (hif_bus h') = sent (hif_bus h) @ [bs]"
proof -
  define a where "a = SDIO_ADDR17BIT (buf_id_tx h) (buf_force_rx h) (SPI_REG_ADDR_TO_SDIO ATBM_HIFREG_IN_OUT_QUEUE_REG_ID)"
  obtain b' where b: "sbus_memcpy_toio ops a bs (hif_bus h) = (0, b')" "sent b' = sent (hif_bus h) @ [bs]"
    using assms unfolding takes_messages_def by blast
  have "data_write_tries n ops bs (buf_id_tx h) (-1, sbus_lock h) =
      (0, (sbus_lock h)\<lparr>buf_force_rx := False, hif_bus := b',
         buf_id_tx := (buf_id_tx h + buf_id_offset h) AND 0x3f\<rparr>)" if "0 < n" for n
    using that b(1) by (cases n) (simp_all add: atbm_data_write0_def sbus_lock_def a_def)
  from this[of 10] show ?thesis using b(2)
    by (simp add: atbm_data_write_def atbm_data_write_unlock_def sbus_lock_def sbus_unlock_def
      del: data_write_tries.simps)
qed

lemma burst_len_block: "burst_len bs mod 256 = 0"
  by (induction bs) (simp_all add: mod_add_eq[symmetric] pad_len_bounds(4))

text \<open>One pass over a queue that is not empty sends a part of it.\<close>

lemma tx_pass_sends:
  assumes "tx_inv hw" "tx_frame_queue hw = map fst ms" "\<forall>m\<in>set ms. tx_msg_ok room m"
    "room = unat (sizeInpChBuf (hw_caps hw))" "room \<le> SDIO_TX_MAXLEN" "int (length ms) < tx_credit hw"
    "ms \<noteq> []" "takes_messages ops sent"
  obtains k hw' h' burst where "tx_pass ops others hw h = Some (False, others, hw', h')" "0 < k" "k \<le> length ms"
    "tx_inv hw'" "tx_frame_queue hw' = map fst (drop k ms)" "hw_caps hw' = hw_caps hw"
    "tx_credit hw' = tx_credit hw - int k"
    "wsm_tx_seq hw' = ((\<lambda>s. (s + 1) AND WSM_TX_SEQ_MAX) ^^ k) (wsm_tx_seq hw)"
    "map skb_addr (freed_skbs hw') = map skb_addr (freed_skbs hw @ map fst (take k ms))"
    "sent (hif_bus h') = sent (hif_bus h) @ [burst]" "length burst \<le> SDIO_TX_MAXLEN" "length burst mod 256 = 0"
    "parse_burst burst = stamped_all (wsm_tx_seq hw) (map snd (take k ms))"
proof -
  define hw0 where "hw0 = hw\<lparr>xmit_buff_put := 0\<rparr>"
  have "tx_inv hw0" "tx_frame_queue hw0 = map fst ms" "room = unat (sizeInpChBuf (hw_caps hw0))"
    "xmit_buff_put hw0 + room \<le> SDIO_TX_MAXLEN" "tx_credit hw0 = tx_credit hw"
    using assms by (simp_all add: hw0_def tx_inv_def tx_credit_def)
  with fill_burst_ok[OF this(1,2) assms(3) this(3,4), of 0] assms(6,7) obtain why k hw' where
    k: "fill_burst (0, hw0) = Some (why, k, hw')" "burst_filled room ms k hw0 why hw'" "0 < k" by auto
  note F = k(2)[unfolded burst_filled_def]
  have why: "why \<noteq> No_space" using F assms(6) \<open>tx_credit hw0 = tx_credit hw\<close> by (cases why) auto
  define ws where "ws = map snd (take k ms)"
  have put: "xmit_buff_put hw' = burst_len ws" "xmit_buff_put hw' \<le> length (xmit_buff hw')"
    using F by (simp_all add: hw0_def ws_def tx_inv_def)
  have "ms \<noteq> []" "k \<le> length ms" using assms(7) F by simp_all
  then have pos: "0 < burst_len ws" using k(3) pad_len_bounds(1) by (cases ms; cases k) (auto simp: ws_def)
  define burst where "burst = take (burst_len ws) (xmit_buff hw')"
  have rd: "rdn (xmit_buff hw') 0 (xmit_buff_put hw') = Some burst" using put by (simp add: rdn_def burst_def)
  have wf: "\<forall>b\<in>set ws. 8 \<le> length b \<and> length b < 2 ^ 16 \<and> val16 (take 2 (drop 4 b)) = of_nat (length b)"
  proof
    fix b assume "b \<in> set ws"
    then obtain s where "(s, b) \<in> set ms" using set_take_subset by (fastforce simp: ws_def)
    then have "tx_msg_ok room (s, b)" using assms(3) by blast
    then show "8 \<le> length b \<and> length b < 2 ^ 16 \<and> val16 (take 2 (drop 4 b)) = of_nat (length b)"
      using unat_len_body(2) by (auto simp: tx_msg_ok_def)
  qed
  have parse: "parse_burst burst = stamped_all (wsm_tx_seq hw) ws"
    using parse_burst_at[of "xmit_buff hw'" 0 "wsm_tx_seq hw" ws] F wf put by (simp add: burst_def hw0_def ws_def)
  obtain h' where h': "atbm_data_write ops burst (h\<lparr>buf_id_offset := int k\<rparr>) = (0, h')"
    "sent (hif_bus h') = sent (hif_bus h) @ [burst]" using data_write_taken[OF assms(8)] by fastforce
  have "tx_pass ops others hw h = Some (False, others, hw', h')"
    using k(1,3) why put(1) pos rd h'(1)
    by (simp add: tx_pass_def write_burst_def wait_pass_def Let_def flip: hw0_def)
  moreover have "length burst = burst_len ws" using put by (simp add: burst_def)
  ultimately show thesis
    using F k(3) h'(2) parse put burst_len_block[of ws] \<open>tx_credit hw0 = tx_credit hw\<close>
    by (intro that[of hw' h' k burst]) (simp_all add: hw0_def ws_def)
qed

lemma tx_pass_done:
  assumes "tx_inv hw" "tx_frame_queue hw = []" "0 < tx_credit hw"
  shows "\<exists>hw'. tx_pass ops others hw h = Some (True, others, hw', h) \<and> tx_frame_queue hw' = [] \<and>
    tx_credit hw' = tx_credit hw \<and> freed_skbs hw' = freed_skbs hw"
proof -
  define hw0 where "hw0 = hw\<lparr>xmit_buff_put := 0\<rparr>"
  have "tx_inv hw0" "0 < tx_credit hw0" "tx_frame_queue hw0 = []"
    using assms by (simp_all add: hw0_def tx_inv_def tx_credit_def)
  then obtain f i where "tx_round (0, hw0) = Some (Stop No_message, 0, hw0\<lparr>hw_bufs_free := f, hw_bufs_free_init := i\<rparr>)"
    using round_no_message by blast
  then have "fill_burst (0, hw0) = Some (No_message, 0, hw0\<lparr>hw_bufs_free := f, hw_bufs_free_init := i\<rparr>)"
    by (simp add: fill_burst.simps)
  then show ?thesis using assms(2) by (simp add: tx_pass_def hw0_def tx_credit_def)
qed

lemma tx_bh_ok:
  assumes "takes_messages ops sent" "tx_inv hw" "tx_frame_queue hw = map fst ms"
    "\<forall>m\<in>set ms. tx_msg_ok room m" "room = unat (sizeInpChBuf (hw_caps hw))" "room \<le> SDIO_TX_MAXLEN"
    "int (length ms) < tx_credit hw"
  shows "\<exists>hw' h' bursts. atbm_sdio_tx_bh ops others hw h = Some (others, hw', h') \<and>
    tx_frame_queue hw' = [] \<and> tx_credit hw' = tx_credit hw - int (length ms) \<and>
    map skb_addr (freed_skbs hw') = map skb_addr (freed_skbs hw @ map fst ms) \<and>
    sent (hif_bus h') = sent (hif_bus h) @ bursts \<and>
    (\<forall>burst\<in>set bursts. length burst \<le> SDIO_TX_MAXLEN \<and> length burst mod 256 = 0) \<and>
    concat (map parse_burst bursts) = stamped_all (wsm_tx_seq hw) (map snd ms)"
  using assms(2-)
proof (induction "length ms" arbitrary: ms hw h rule: less_induct)
  case less
  show ?case
  proof (cases "ms = []")
    case True
    with tx_pass_done[of hw ops others h] less.prems obtain hw' where
      "tx_pass ops others hw h = Some (True, others, hw', h)" "tx_frame_queue hw' = []" "tx_credit hw' = tx_credit hw"
      "freed_skbs hw' = freed_skbs hw" by auto
    then show ?thesis using True by (intro exI[of _ hw'] exI[of _ h] exI[of _ "[]"]) (subst atbm_sdio_tx_bh.simps, simp)
  next
    case False
    obtain k hw1 h1 burst where p: "tx_pass ops others hw h = Some (False, others, hw1, h1)" "0 < k" "k \<le> length ms"
      "tx_inv hw1" "tx_frame_queue hw1 = map fst (drop k ms)" "hw_caps hw1 = hw_caps hw"
      "tx_credit hw1 = tx_credit hw - int k"
      "wsm_tx_seq hw1 = ((\<lambda>s. (s + 1) AND WSM_TX_SEQ_MAX) ^^ k) (wsm_tx_seq hw)"
      "map skb_addr (freed_skbs hw1) = map skb_addr (freed_skbs hw @ map fst (take k ms))"
      "sent (hif_bus h1) = sent (hif_bus h) @ [burst]" "length burst \<le> SDIO_TX_MAXLEN" "length burst mod 256 = 0"
      "parse_burst burst = stamped_all (wsm_tx_seq hw) (map snd (take k ms))"
      by (rule tx_pass_sends[OF less.prems(1-6) False assms(1)])
    have sub: "\<forall>m\<in>set (drop k ms). tx_msg_ok room m" using less.prems(3) set_drop_subset by fastforce
    have c: "length (drop k ms) < length ms" "room = unat (sizeInpChBuf (hw_caps hw1))"
      "int (length (drop k ms)) < tx_credit hw1"
      using p(2,3,6,7) less.prems(4,6) False by (auto simp: of_nat_diff)
    from less.hyps[OF c(1) p(4,5) sub c(2) less.prems(5) c(3), of h1] obtain hw' h' bursts where
      r: "atbm_sdio_tx_bh ops others hw1 h1 = Some (others, hw', h')" "tx_frame_queue hw' = []"
      "tx_credit hw' = tx_credit hw1 - int (length (drop k ms))"
      "map skb_addr (freed_skbs hw') = map skb_addr (freed_skbs hw1 @ map fst (drop k ms))"
      "sent (hif_bus h') = sent (hif_bus h1) @ bursts"
      "\<forall>burst\<in>set bursts. length burst \<le> SDIO_TX_MAXLEN \<and> length burst mod 256 = 0"
      "concat (map parse_burst bursts) = stamped_all (wsm_tx_seq hw1) (map snd (drop k ms))"
      by blast
    have split: "map f ms = map f (take k ms) @ map f (drop k ms)" for f :: "sk_buff \<times> bytes \<Rightarrow> 'z"
      by (metis append_take_drop_id map_append)
    have "atbm_sdio_tx_bh ops others hw h = Some (others, hw', h')"
      using r(1) p(1) by (subst atbm_sdio_tx_bh.simps) simp
    moreover have "map skb_addr (freed_skbs hw') = map skb_addr (freed_skbs hw @ map fst ms)"
      unfolding split[of fst] map_append r(4) p(9) by simp
    moreover have "stamped_all (wsm_tx_seq hw) (map snd ms) =
        parse_burst burst @ stamped_all (wsm_tx_seq hw1) (map snd (drop k ms))"
      unfolding split[of snd] stamped_all_append p(8,13) using p(3) by (simp add: min_def)
    ultimately show ?thesis using r p(3,7,10-12)
      by (intro exI[of _ hw'] exI[of _ h'] exI[of _ "burst # bursts"]) (auto simp: of_nat_diff)
  qed
qed

text \<open>C2. The transmit thread sends the whole queue, in order.  With credit for more than the queued
  messages, a message size of the firmware that fits the burst buffer, and a bus that takes every
  burst, atbm_sdio_tx_bh returns with an empty queue; every frame has been freed once, in order; the
  bursts are whole blocks of at most SDIO_TX_MAXLEN bytes, and what the chip reads from them, by the
  lengths in the headers, are exactly the queued messages, with their flag words and consecutive
  sequence numbers.  Credit is used up by one per message.\<close>
theorem tx_bh_sends_queue:
  assumes "takes_messages ops sent" "tx_inv hw" "tx_frame_queue hw = map fst ms"
    "\<forall>m\<in>set ms. tx_msg_ok room m" "room = unat (sizeInpChBuf (hw_caps hw))" "room \<le> SDIO_TX_MAXLEN"
    "int (length ms) < tx_credit hw"
  shows "\<exists>hw' h' bursts. atbm_sdio_tx_bh ops others hw h = Some (others, hw', h') \<and>
    tx_frame_queue hw' = [] \<and> tx_credit hw' = tx_credit hw - int (length ms) \<and>
    map skb_addr (freed_skbs hw') = map skb_addr (freed_skbs hw @ map fst ms) \<and>
    sent (hif_bus h') = sent (hif_bus h) @ bursts \<and>
    (\<forall>burst\<in>set bursts. length burst \<le> SDIO_TX_MAXLEN \<and> length burst mod 256 = 0) \<and>
    concat (map parse_burst bursts) = stamped_all (wsm_tx_seq hw) (map snd ms)"
  by (rule tx_bh_ok[OF assms])

text \<open>A bus that records what is written to it.\<close>

definition recording_sdk :: "bytes list sdio_sdk" where
  "recording_sdk = \<lparr>sdk_read_byte = (\<lambda>fn a b. (True, 0, b)), sdk_write_byte = (\<lambda>fn a x b. (True, b)),
     sdk_read_multi = (\<lambda>fn a n b. (True, \<lambda>i. 0, b)), sdk_write_multi = (\<lambda>fn a bs b. (True, b @ [bs])),
     sdk_enable_irq = (\<lambda>on b. b)\<rparr>"

definition recording_ops :: "bytes list sbus_ops" where
  "recording_ops = atbm_sdio_sbus_ops recording_sdk demo_func (\<lambda>b. (0, b))"

lemma recording_takes: "takes_messages recording_ops (\<lambda>b. b)"
  by (simp add: takes_messages_def recording_ops_def recording_sdk_def atbm_sdio_sbus_ops_def
    sdio_memcpy_toio_def demo_func_def)

theorem tx_bh_sends_queue_witness:
  "\<exists>hw' h' bursts. atbm_sdio_tx_bh recording_ops []
       (demo_hw\<lparr>tx_frame_queue := [mk_skb 7 [] [0, 0, 0, 0, 9, 0, 4, 0, 0x55] []]\<rparr>) (demo_hif []) = Some ([], hw', h') \<and>
     tx_frame_queue hw' = [] \<and> hif_bus h' = bursts \<and>
     concat (map parse_burst bursts) = [[9, 0, 0, 9, 9, 0, 4, 0, 0x55]]"
proof -
  let ?m = "(mk_skb 7 [] [0, 0, 0, 0, 9, 0, 4, 0, 0x55] [], [0, 0, 0, 0, 9, 0, 4, 0, 0x55 :: u8])"
  let ?hw = "demo_hw\<lparr>tx_frame_queue := [fst ?m]\<rparr>"
  have inv: "tx_inv ?hw" "tx_credit ?hw = 8" by (simp_all add: tx_inv_def tx_credit_def demo_hw_def demo_caps_def)
  have "skb_view (fst ?m) [] (snd ?m @ []) []" by simp (rule mk_skb_ok, simp)
  then have "skb_holds (fst ?m) [] (snd ?m) ([] @ [])" by (rule view_holds)
  then have "\<exists>pre post. skb_holds (fst ?m) pre (snd ?m) post" by blast
  then have ok: "\<forall>m\<in>set [?m]. tx_msg_ok (unat (sizeInpChBuf (hw_caps ?hw))) m"
    by (simp add: tx_msg_ok_def mk_skb_def pad_len_def val16_def le16_def demo_hw_def demo_caps_def)
  have "stamped_all (wsm_tx_seq ?hw) (map snd [?m]) = [[9, 0, 0, 9, 9, 0, 4, 0, 0x55]]"
    by (simp add: demo_hw_def stamped_def wsm_flag_def bytes32_def bytes16_def lo8_def hi8_def val16_def le16_def
      WSM_TX_SEQ_def Let_def)
  moreover have "int (length [?m]) < tx_credit ?hw" unfolding inv(2) by simp
  moreover have "unat (sizeInpChBuf (hw_caps ?hw)) \<le> SDIO_TX_MAXLEN"
    "tx_frame_queue ?hw = map fst [?m]" by (simp_all add: demo_hw_def demo_caps_def)
  ultimately show ?thesis
    using tx_bh_sends_queue[OF recording_takes inv(1) _ ok refl, of "[]" "demo_hif []"]
    by (fastforce simp: demo_hif_def)
qed

end
