(* ===== verification/Bh_Rx.thy ===== *)
theory Bh_Rx
  imports Wsm_Rx Bh_Tx
begin

text \<open>The receiving half of the bus thread, hal_apollo/bh_sdio.c: reading the messages of the chip
  (atbm_sdio_process_read_data), checking their sequence numbers (atbm_rx_directly), splitting a
  message that carries several frames (atbm_rx_tasklet), and the interrupt handler.

  bh_rx holds the static variables of these functions, the spare buffer skb_cache and the number of
  buffers allocated so far; kz gives the address, or NULL, of the n-th allocation.  The state of the
  half is bh_rx and the adapter.\<close>

abbreviation (input) EFFECTIVE_BUF_SIZE :: u32 where "EFFECTIVE_BUF_SIZE \<equiv> 32758"
abbreviation (input) WSM_TX_EXTRA_HEADROOM :: nat where "WSM_TX_EXTRA_HEADROOM \<equiv> 32"
abbreviation (input) WSM_RX_EXTRA_HEADROOM :: nat where "WSM_RX_EXTRA_HEADROOM \<equiv> 16"
abbreviation (input) ATBM_HIFREG_CONT_NEXT_LEN_LSB_MASK :: u16 where "ATBM_HIFREG_CONT_NEXT_LEN_LSB_MASK \<equiv> 0x0FFF"
abbreviation (input) ATBM_HIFREG_CONT_NEXT_LEN_MSB_MASK :: u16 where "ATBM_HIFREG_CONT_NEXT_LEN_MSB_MASK \<equiv> 0xC000"
abbreviation (input) WSM_MULTI_RECEIVE_INDICATION_ID :: u16 where "WSM_MULTI_RECEIVE_INDICATION_ID \<equiv> 0x0811"
abbreviation (input) WSM_SINGLE_CHANNEL_MULTI_RECEIVE_INDICATION_ID :: u16
  where "WSM_SINGLE_CHANNEL_MULTI_RECEIVE_INDICATION_ID \<equiv> 0x0813"
abbreviation (input) sizeof_wsm_multi_rx :: nat where "sizeof_wsm_multi_rx \<equiv> 8"
abbreviation (input) RX_ALLOC_BUFF_OFFLOAD :: nat where "RX_ALLOC_BUFF_OFFLOAD \<equiv> 40"
abbreviation (input) ATBM_RX_DERICTLY_DATA_FRAME :: u8 where "ATBM_RX_DERICTLY_DATA_FRAME \<equiv> 2"

record bh_rx =
  rx_resync :: bool
  recv_cnt :: nat
  rx_skb_cache :: "sk_buff option"
  rx_allocs :: nat

type_synonym 'm rx_state = "bh_rx \<times> 'm atbm_common"

definition free_rx_skb :: "sk_buff option \<Rightarrow> 'm rx_state \<Rightarrow> 'm rx_state" where
  "free_rx_skb skb_p = (\<lambda>(rx, hw). (rx, case skb_p of None \<Rightarrow> hw | Some skb \<Rightarrow> free_hw_skb skb hw))"

subsection \<open>Buffers\<close>

definition alloc_rx_skb :: "(nat \<Rightarrow> nat option) \<Rightarrow> u32 \<Rightarrow> 'm rx_state \<Rightarrow> (sk_buff \<times> 'm rx_state) option" where
  "alloc_rx_skb kz len = (\<lambda>(rx, hw). do {
     skb \<leftarrow> dev_alloc_skb (kz (rx_allocs rx)) len;
     Some (skb, rx\<lparr>rx_allocs := rx_allocs rx + 1\<rparr>, hw) })"

definition atbm_get_skb :: "(nat \<Rightarrow> nat option) \<Rightarrow> u32 \<Rightarrow> 'm rx_state \<Rightarrow> (sk_buff \<times> 'm rx_state) option" where
  "atbm_get_skb kz len st =
     (let alloc_len = (if len > SDIO_BLOCK_SIZE then len else SDIO_BLOCK_SIZE)
      in case (if len > SDIO_BLOCK_SIZE then None else rx_skb_cache (fst st)) of
           None \<Rightarrow> do {
             (skb, st) \<leftarrow> alloc_rx_skb kz (alloc_len + of_nat WSM_TX_EXTRA_HEADROOM + 8 + 12 - 2) st;
             Some (skb_reserve skb (WSM_TX_EXTRA_HEADROOM + 8 - WSM_RX_EXTRA_HEADROOM), st) }
         | Some skb \<Rightarrow> Some (skb, (fst st)\<lparr>rx_skb_cache := None\<rparr>, snd st))"

definition atbm_put_skb :: "sk_buff \<Rightarrow> 'm rx_state \<Rightarrow> 'm rx_state" where
  "atbm_put_skb skb st =
     (case rx_skb_cache (fst st) of
        Some _ \<Rightarrow> free_rx_skb (Some skb) st
      | None \<Rightarrow> ((fst st)\<lparr>rx_skb_cache := Some skb\<rparr>, snd st))"

text \<open>The address of the data of a buffer.\<close>

definition skb_data_addr :: "sk_buff \<Rightarrow> nat" where
  "skb_data_addr skb = nat (int (skb_addr skb + sizeof_sk_buff) + skb_data skb)"

subsection \<open>One message, one frame after the other\<close>

definition ALIGN2_u32 :: "u32 \<Rightarrow> u32 \<Rightarrow> u32" where
  "ALIGN2_u32 x a = (x + (a - 1)) AND NOT (a - 1)"

text \<open>The memory of a buffer from an offset to its end: what wsm_handle_rx is given.\<close>

definition skb_from :: "sk_buff \<Rightarrow> int \<Rightarrow> bytes" where
  "skb_from skb off = drop (nat (skb_data skb + off)) (skb_mem skb)"

text \<open>The copy of the frame at off, whose length is wsm_len.\<close>

definition copy_rx_frame ::
    "(nat \<Rightarrow> nat option) \<Rightarrow> sk_buff \<Rightarrow> int \<Rightarrow> u16 \<Rightarrow> 'm rx_state \<Rightarrow> (sk_buff \<times> 'm rx_state) option" where
  "copy_rx_frame kz skb off wsm_len st = do {
     (copy, st) \<leftarrow> alloc_rx_skb kz (ucast wsm_len + 16) st;
     let copy = skb_reserve copy (8 - skb_data_addr copy mod 8);
     let copy = copy\<lparr>skb_pkt_type := skb_pkt_type skb\<rparr>;
     bs \<leftarrow> skb_rdn skb off (unat wsm_len);
     copy \<leftarrow> skb_wrn copy 0 bs;
     Some (skb_put copy (unat wsm_len), st) }"

definition handle_rx_msg ::
    "'m wsm_env \<Rightarrow> u16 \<Rightarrow> bytes \<Rightarrow> sk_buff option \<Rightarrow> 'm rx_state \<Rightarrow> (int \<times> sk_buff option \<times> 'm rx_state) option" where
  "handle_rx_msg env wsm_id msg skb_p = (\<lambda>(rx, hw). do {
     (ret, skb_p, hw) \<leftarrow> wsm_handle_rx env wsm_id msg skb_p hw;
     Some (ret, skb_p, rx, hw) })"

text \<open>The loop over the frames: n frames are announced, data_len bytes are left, the next frame is at
  off.  The comparison of data_len with the length of the frame is unsigned.\<close>

function multi_rx_loop ::
    "'m wsm_env \<Rightarrow> (nat \<Rightarrow> nat option) \<Rightarrow> sk_buff \<Rightarrow> int \<Rightarrow> int \<Rightarrow> int \<Rightarrow> 'm rx_state \<Rightarrow> (int \<times> 'm rx_state) option" where
  "multi_rx_loop env kz skb n data_len off st = do {
     wsm_len \<leftarrow> skb_rd16 skb off;
     idw \<leftarrow> skb_rd16 skb (off + 2);
     let wsm_id = idw AND 0xFFF;
     if (of_int data_len :: u32) < ucast wsm_len then do { guard (n = 0); Some (0, st) }
     else do {
       (copy, st) \<leftarrow> copy_rx_frame kz skb off wsm_len st;
       (ret, copy_p, st) \<leftarrow> handle_rx_msg env wsm_id (skb_from skb off) (Some copy) st;
       if ret \<noteq> 0 then Some (ret, free_rx_skb copy_p st)
       else do {
         let step = uint (ALIGN2_u32 (ucast wsm_len + of_nat RX_ALLOC_BUFF_OFFLOAD) 4);
         guard (skb_rd16 skb (off + step) \<noteq> None \<and> skb_rd16 skb (off + step + 2) \<noteq> None);
         let st = free_rx_skb copy_p st;
         if n - 1 > 0 \<and> data_len - step > 32
         then multi_rx_loop env kz skb (n - 1) (data_len - step) (off + step) st
         else do { guard (n - 1 = 0); Some (0, st) } } } }"
  by auto
termination
  by (relation "measure (\<lambda>(_, _, _, n, _, _, _). nat n)") auto

declare multi_rx_loop.simps [simp del]

text \<open>The statistics array rxMutiCnt has 17 entries; the message's length selects one of them.\<close>

definition rx_stat_index :: "u16 \<Rightarrow> u32" where
  "rx_stat_index wsm_len = ALIGN2_u32 (ucast wsm_len) 1024 div 1024"

definition atbm_rx_tasklet ::
    "'m wsm_env \<Rightarrow> (nat \<Rightarrow> nat option) \<Rightarrow> u16 \<Rightarrow> sk_buff \<Rightarrow> 'm rx_state \<Rightarrow> (int \<times> sk_buff option \<times> 'm rx_state) option" where
  "atbm_rx_tasklet env kz id' skb st = do {
     wsm_len \<leftarrow> skb_rd16 skb 0;
     idw \<leftarrow> skb_rd16 skb 2;
     let wsm_id = idw AND 0xFFF;
     if wsm_id = WSM_MULTI_RECEIVE_INDICATION_ID \<or> wsm_id = WSM_SINGLE_CHANNEL_MULTI_RECEIVE_INDICATION_ID
     then do {
       frames \<leftarrow> skb_rd8 skb 4;
       guard (rx_stat_index wsm_len < 17);
       (ret, st) \<leftarrow> multi_rx_loop env kz skb (uint frames) (uint wsm_len - int sizeof_wsm_multi_rx)
                     (int sizeof_wsm_multi_rx) st;
       Some (ret, Some skb, st) }
     else handle_rx_msg env id' (skb_from skb 0) (Some skb) st }"

subsection \<open>The sequence numbers\<close>

definition rx_seq_of :: "u16 \<Rightarrow> u16" where
  "rx_seq_of idw = drop_bit 13 idw AND 7"

definition set_rx_seq :: "u16 \<Rightarrow> 'm rx_state \<Rightarrow> 'm rx_state" where
  "set_rx_seq wsm_seq = (\<lambda>(rx, hw). (rx\<lparr>rx_resync := False\<rparr>, hw\<lparr>wsm_rx_seq := (wsm_seq + 1) AND 7\<rparr>))"

text \<open>A confirmation gives a buffer of the chip back, and may let the transmit thread go on.\<close>

definition rx_confirm :: "u16 \<Rightarrow> 'm rx_state \<Rightarrow> 'm rx_state" where
  "rx_confirm wsm_id = (\<lambda>(rx, hw).
     (rx, if wsm_id AND 0x0400 = 0 then hw
          else let (rc, hw) = wsm_release_tx_buffer 1 hw in if rc > 0 then atbm_bh_wakeup hw else hw))"

definition atbm_rx_directly ::
    "'m wsm_env \<Rightarrow> (nat \<Rightarrow> nat option) \<Rightarrow> sk_buff \<Rightarrow> 'm rx_state \<Rightarrow> (int \<times> 'm rx_state) option" where
  "atbm_rx_directly env kz skb st =
     (if recv_cnt (fst st) < 4
      then let st = set_rx_seq (of_nat (recv_cnt (fst st))) st
           in Some (0, free_rx_skb (Some skb) ((fst st)\<lparr>recv_cnt := recv_cnt (fst st) + 1\<rparr>, snd st))
      else do {
        wsm_len \<leftarrow> skb_rd16 skb 0;
        idw \<leftarrow> skb_rd16 skb 2;
        let wsm_id = idw AND 0xFFF;
        let wsm_seq = rx_seq_of idw;
        let skb = skb_trim skb (unat wsm_len);
        if wsm_id = 0x0800 then do {
          (_, hw) \<leftarrow> wsm_handle_exception
             \<lparr>wb_mem = Some (skb_from skb 0), wb_data = int sizeof_wsm_hdr, wb_end = uint wsm_len\<rparr> (snd st);
          Some (-1, free_rx_skb (Some skb) (fst st, hw)) }
        else if \<not> rx_resync (fst st) \<and> wsm_seq \<noteq> wsm_rx_seq (snd st)
        then Some (-2, free_rx_skb (Some skb) st)
        else do {
          let st = rx_confirm wsm_id (set_rx_seq wsm_seq st);
          (ret, skb_p, st) \<leftarrow> atbm_rx_tasklet env kz wsm_id skb st;
          Some (if ret \<noteq> 0 then -4 else 0, free_rx_skb skb_p st) } })"

subsection \<open>Reading the messages of the chip\<close>

text \<open>The control register holds the length of the next message in units of two bytes, split over two
  fields.\<close>

definition next_read_len :: "u16 \<Rightarrow> u32" where
  "next_read_len ctrl_reg =
     drop_bit 2 (ucast (ctrl_reg AND ATBM_HIFREG_CONT_NEXT_LEN_MSB_MASK) * 2)
       + ucast (ctrl_reg AND ATBM_HIFREG_CONT_NEXT_LEN_LSB_MASK) * 2"

definition block_round :: "u32 \<Rightarrow> u32" where
  "block_round len = (let r = len mod SDIO_BLOCK_SIZE in if r \<noteq> 0 then len - r + SDIO_BLOCK_SIZE else len)"

text \<open>The operations the reader is given: reading the control register and the data port, and the handler
  of a message.\<close>

record ('m, 'b) rx_ops =
  read_ctrl :: "u16 \<Rightarrow> 'b hif \<Rightarrow> int \<times> u16 \<times> 'b hif"
  read_data :: "nat \<Rightarrow> bytes \<Rightarrow> 'b hif \<Rightarrow> int \<times> bytes \<times> 'b hif"
  rx_handle :: "sk_buff \<Rightarrow> 'm rx_state \<Rightarrow> (int \<times> 'm rx_state) option"
  frame_type :: u8

text \<open>From rx_continue to the call of the handler: Inl is the jump to err with the value of skb_rx, Inr a
  message and the control register that came with it.\<close>

definition read_message ::
    "(nat \<Rightarrow> nat option) \<Rightarrow> ('m, 'b) rx_ops \<Rightarrow> sk_buff option \<Rightarrow> u16 \<Rightarrow> 'm rx_state \<Rightarrow> 'b hif \<Rightarrow>
     ((sk_buff option + sk_buff \<times> u16) \<times> 'm rx_state \<times> 'b hif) option" where
  "read_message kz ops skb_rx ctrl_reg st h =
     (let read_len = next_read_len ctrl_reg in
      if read_len < of_nat sizeof_wsm_hdr \<or> read_len > EFFECTIVE_BUF_SIZE then Some (Inl skb_rx, st, h)
      else do {
        let read_len = read_len + 2;
        let alloc_len = block_round read_len;
        (skb, st) \<leftarrow> atbm_get_skb kz alloc_len st;
        let skb = skb_put (skb_trim skb 0) (unat read_len);
        buf \<leftarrow> skb_rdn skb 0 (unat alloc_len);
        let (ret, buf, h) = read_data ops (skb_data_addr skb) buf h;
        skb \<leftarrow> skb_wrn skb 0 buf;
        if ret \<noteq> 0 then Some (Inl (Some skb), st, h)
        else do {
          ctrl_reg \<leftarrow> skb_rd16 skb (2 * (uint alloc_len div 2 - 1));
          Some (Inr (skb\<lparr>skb_pkt_type := frame_type ops\<rparr>, ctrl_reg), st, h) } })"

text \<open>The loop.  check tells whether it stands at rx_check, where the register is read, or at
  rx_continue; skb_rx is the value of that variable, which is never cleared.\<close>

partial_function (option) read_loop ::
    "(nat \<Rightarrow> nat option) \<Rightarrow> ('m, 'b) rx_ops \<Rightarrow> bool \<Rightarrow> sk_buff option \<Rightarrow> u16 \<Rightarrow> u8 \<Rightarrow> 'm rx_state \<Rightarrow> 'b hif \<Rightarrow>
     (int \<times> 'm rx_state \<times> 'b hif) option" where
  "read_loop kz ops check skb_rx ctrl_reg cnt st h =
     (let (ret, ctrl_reg, h) = (if check then read_ctrl ops ctrl_reg h else (0, ctrl_reg, h)) in
      if ret \<noteq> 0 then Some (-1, free_rx_skb skb_rx st, h)
      else if next_read_len ctrl_reg = 0 then Some (uint cnt, st, h)
      else case read_message kz ops skb_rx ctrl_reg st h of
          None \<Rightarrow> None
        | Some (Inl skb_rx, st, h) \<Rightarrow> Some (-1, free_rx_skb skb_rx st, h)
        | Some (Inr (skb, ctrl_reg), st, h) \<Rightarrow>
            (case rx_handle ops skb st of
               None \<Rightarrow> None
             | Some (ret, st) \<Rightarrow>
                 if ret \<noteq> 0 then Some (uint (cnt + 1), st, h)
                 else read_loop kz ops (next_read_len ctrl_reg = 0) (Some skb) ctrl_reg (cnt + 1) st h))"

definition atbm_sdio_process_read_data ::
    "(nat \<Rightarrow> nat option) \<Rightarrow> ('m, 'b) rx_ops \<Rightarrow> 'm rx_state \<Rightarrow> 'b hif \<Rightarrow> (int \<times> 'm rx_state \<times> 'b hif) option" where
  "atbm_sdio_process_read_data kz ops st h = read_loop kz ops True None 0 0 st h"

subsection \<open>The control register\<close>

text \<open>A failed read of the register is followed by a reset of the card's interface, and tried again.
  junk is the value of the variable the register is read into.\<close>

primrec ctrl_reg_tries ::
    "nat \<Rightarrow> ('b hif \<Rightarrow> int \<times> u16 \<times> 'b hif) \<Rightarrow> ('b \<Rightarrow> int \<times> 'b) \<Rightarrow> int \<times> u16 \<times> 'b hif \<Rightarrow> int \<times> u16 \<times> 'b hif" where
  "ctrl_reg_tries 0 rd abort r = r"
| "ctrl_reg_tries (Suc tries) rd abort r =
     (let (ret, ctrl_reg, h) = rd (snd (snd r))
      in if ret = 0 then (ret, ctrl_reg, h)
         else ctrl_reg_tries tries rd abort (ret, ctrl_reg, h\<lparr>hif_bus := snd (abort (hif_bus h))\<rparr>))"

definition atbm_bh_read_ctrl_reg :: "'b sbus_ops \<Rightarrow> u32 \<Rightarrow> u16 \<Rightarrow> 'b hif \<Rightarrow> int \<times> u16 \<times> 'b hif" where
  "atbm_bh_read_ctrl_reg ops junk ctrl_reg h =
     ctrl_reg_tries (MAX_RETRY + 1) (atbm_reg_read_16 ops ATBM_HIFREG_CONTROL_REG_ID junk) (sbus_abort ops)
       (0, ctrl_reg, h)"

definition atbm_bh_read_ctrl_reg_unlock :: "'b sbus_ops \<Rightarrow> u32 \<Rightarrow> u16 \<Rightarrow> 'b hif \<Rightarrow> int \<times> u16 \<times> 'b hif" where
  "atbm_bh_read_ctrl_reg_unlock ops junk ctrl_reg h =
     ctrl_reg_tries (MAX_RETRY + 1) (atbm_reg_read_16_unlock ops ATBM_HIFREG_CONTROL_REG_ID junk) (sbus_abort ops)
       (0, ctrl_reg, h)"

subsection \<open>The thread and the interrupt handler\<close>

definition sdio_rx_ops ::
    "'m wsm_env \<Rightarrow> (nat \<Rightarrow> nat option) \<Rightarrow> 'b sbus_ops \<Rightarrow> u32 \<Rightarrow> ('m, 'b) rx_ops" where
  "sdio_rx_ops env kz ops junk =
     \<lparr>read_ctrl = atbm_bh_read_ctrl_reg ops junk, read_data = atbm_data_read ops,
      rx_handle = atbm_rx_directly env kz, frame_type = ATBM_RX_DERICTLY_DATA_FRAME\<rparr>"

definition atbm_sdio_rx_bh ::
    "'m wsm_env \<Rightarrow> (nat \<Rightarrow> nat option) \<Rightarrow> 'b sbus_ops \<Rightarrow> u32 \<Rightarrow> 'm rx_state \<Rightarrow> 'b hif \<Rightarrow> ('m rx_state \<times> 'b hif) option" where
  "atbm_sdio_rx_bh env kz ops junk st h = do {
     (_, st, h) \<leftarrow> atbm_sdio_process_read_data kz (sdio_rx_ops env kz ops junk) st (sbus_lock h);
     Some (st, sbus_unlock h) }"

text \<open>The interrupt handler runs in a thread of this port, so hard_irq becomes false; it switches the
  interrupt of the chip off and wakes the receive thread.  The first result tells whether the thread
  is woken.  The receive thread switches the interrupt on again behind atbm_sdio_rx_bh.\<close>

definition atbm_irq_handler :: "'b sbus_ops \<Rightarrow> bool \<Rightarrow> u32 \<Rightarrow> 'b hif \<Rightarrow> bool \<times> 'b hif" where
  "atbm_irq_handler ops init_done junk h =
     (if \<not> init_done then (False, snd (snd (atbm_reg_read_16_unlock ops ATBM_HIFREG_CONTROL_REG_ID junk h)))
      else let (_, h) = atbm_irq_enable ops False junk (sbus_lock h) in (True, sbus_unlock h))"

definition rx_thread_pass ::
    "'m wsm_env \<Rightarrow> (nat \<Rightarrow> nat option) \<Rightarrow> 'b sbus_ops \<Rightarrow> u32 \<Rightarrow> 'm rx_state \<Rightarrow> 'b hif \<Rightarrow> ('m rx_state \<times> 'b hif) option" where
  "rx_thread_pass env kz ops junk st h = do {
     (st, h) \<leftarrow> atbm_sdio_rx_bh env kz ops junk st h;
     let (_, h) = atbm_irq_enable ops True junk (sbus_lock h);
     Some (st, sbus_unlock h) }"

end
