(* ===== verification/Bh_Rx_Props.thy ===== *)
theory Bh_Rx_Props
  imports Bh_Rx Wsm_Props Hwio_Props
begin

text \<open>Properties of the receiving half of the bus thread: the buffer a message is read into is large
  enough for every value of the control register, a message with several frames gives each frame to the
  layer above once, and what happens behind a lost message or a failed read.\<close>

subsection \<open>The buffer of a message\<close>

lemma block_round_ok:
  assumes "unat len \<le> 32760"
  shows "unat len \<le> unat (block_round len)" "unat (block_round len) \<le> 32768" "unat (block_round len) mod 256 = 0"
proof -
  have m: "unat (len mod 256) = unat len mod 256" by (simp add: unat_mod)
  have "unat (block_round len) = (unat len + 255) div 256 * 256"
  proof (cases "unat len mod 256 = 0")
    case True
    then have "len mod 256 = 0" using m by (metis unat_eq_zero)
    then show ?thesis using True round_up_256[of "unat len"] by (simp add: block_round_def)
  next
    case False
    then have "len mod 256 \<noteq> 0" using m by (metis unat_0)
    moreover have "unat (len - len mod 256) = unat len - unat len mod 256"
      using m by (subst unat_sub) (simp_all add: word_le_nat_alt)
    ultimately show ?thesis using False assms round_up_256[of "unat len"]
      by (simp add: block_round_def Let_def unat_word_ariths)
  qed
  then show "unat len \<le> unat (block_round len)" "unat (block_round len) \<le> 32768" "unat (block_round len) mod 256 = 0"
    using assms by auto
qed

definition fresh_rx :: "(nat \<Rightarrow> nat option) \<Rightarrow> bh_rx \<Rightarrow> bool" where
  "fresh_rx kz rx \<longleftrightarrow> (\<forall>n. kz n \<noteq> None) \<and> rx_skb_cache rx = None"

lemma alloc_rx_skb_ok:
  assumes "fresh_rx kz rx" "unat len + 271 < 2 ^ 32"
  obtains skb where "alloc_rx_skb kz len (rx, hw) = Some (skb, rx\<lparr>rx_allocs := rx_allocs rx + 1\<rparr>, hw)"
    "skb_wf skb" "skb_len skb = 0" "skb_Tail skb = skb_data skb"
    "skb_Tail skb + int (unat len) + 33 \<le> int (length (skb_mem skb))"
proof -
  obtain p where "kz (rx_allocs rx) = Some p" using assms(1) by (auto simp: fresh_rx_def)
  then obtain skb where s: "dev_alloc_skb (kz (rx_allocs rx)) len = Some skb"
    by (simp add: dev_alloc_skb_def atbm_pbuf_alloc_def Let_def)
  from alloc_facts[OF s assms(2)] s show ?thesis by (intro that[of skb]) (auto simp: alloc_rx_skb_def)
qed

lemma get_skb_ok:
  assumes "fresh_rx kz rx" "unat len \<le> 32768"
  obtains skb where "atbm_get_skb kz len (rx, hw) = Some (skb, rx\<lparr>rx_allocs := rx_allocs rx + 1\<rparr>, hw)"
    "skb_wf skb" "skb_len skb = 0" "skb_Tail skb = skb_data skb"
    "skb_Tail skb + int (unat len) + 59 \<le> int (length (skb_mem skb))"
proof -
  define n where "n = (if len > SDIO_BLOCK_SIZE then len else SDIO_BLOCK_SIZE)"
  have n: "unat len \<le> unat n" "unat n \<le> 32768" using assms(2) by (auto simp: n_def word_less_nat_alt)
  have un: "uint len \<le> uint n" using n(1) by (simp add: word_le_nat_alt flip: word_le_def)
  have u: "unat (n + 50) = unat n + 50" using n by (simp add: unat_word_ariths)
  then have "unat (n + 50) + 271 < 2 ^ 32" using n by simp
  from alloc_rx_skb_ok[OF assms(1) this, of hw] obtain skb where s:
    "alloc_rx_skb kz (n + 50) (rx, hw) = Some (skb, rx\<lparr>rx_allocs := rx_allocs rx + 1\<rparr>, hw)"
    "skb_wf skb" "skb_len skb = 0" "skb_Tail skb = skb_data skb"
    "skb_Tail skb + int (unat n + 50) + 33 \<le> int (length (skb_mem skb))"
    unfolding u by metis
  have "atbm_get_skb kz len (rx, hw) = alloc_rx_skb kz (n + 50) (rx, hw) \<bind> (\<lambda>(skb, st). Some (skb_reserve skb 24, st))"
    using assms(1) by (cases "len > 256") (simp_all add: atbm_get_skb_def fresh_rx_def n_def add.commute)
  then have "atbm_get_skb kz len (rx, hw) = Some (skb_reserve skb 24, rx\<lparr>rx_allocs := rx_allocs rx + 1\<rparr>, hw)"
    using s(1) by simp
  moreover have "skb_wf (skb_reserve skb 24)" using s(5) uint_ge_0[of n] by (intro wf_reserve s) (simp; fail | linarith)
  ultimately show ?thesis
    using s un by (intro that[of "skb_reserve skb 24"]) (simp_all add: skb_reserve_def Let_def)
qed

lemma rd16_mid:
  assumes "length b = Suc (Suc K)"
  shows "rd16 (a @ b @ c) (int (length a) + int K) = Some (le16 (b ! K) (b ! Suc K))"
proof -
  have "nat (int (length a) + int K) = length a + K" "nat (int (length a) + int K + 1) = length a + Suc K" by simp_all
  then show ?thesis using assms by (simp only: rd16_def rd8_def) (simp add: nth_append)
qed

text \<open>A message of acceptable length: the buffer, what the data port gave and the register behind it.\<close>

lemma read_message_run:
  assumes "fresh_rx kz rx" "\<And>a buf h. length (fst (snd (read_data ops a buf h))) = length buf"
    and len: "len = next_read_len ctrl_reg" "4 \<le> len" "len \<le> EFFECTIVE_BUF_SIZE"
  obtains s1 s2 buf ret buf' h' c where
    "read_data ops (skb_data_addr s1) buf h = (ret, buf', h')" "length buf = unat (block_round (len + 2))"
    "read_message kz ops skb_rx ctrl_reg (rx, hw) h =
      Some (if ret \<noteq> 0 then Inl (Some s2) else Inr (s2\<lparr>skb_pkt_type := frame_type ops\<rparr>, c),
            (rx\<lparr>rx_allocs := rx_allocs rx + 1\<rparr>, hw), h')"
    "skb_wf s2" "unat (skb_len s2) = unat len + 2" "c = le16 (buf' ! (length buf - 2)) (buf' ! (length buf - 1))"
proof -
  have l: "4 \<le> unat len" "unat len \<le> 32758" using len by (simp_all add: word_le_nat_alt)
  define rl where "rl = len + 2"
  have rl: "unat rl = unat len + 2" using l by (simp add: rl_def unat_word_ariths)
  then have "unat rl \<le> 32760" using l by simp
  note b = block_round_ok[OF this]
  define N where "N = unat (block_round rl)"
  have N: "unat rl \<le> N" "N mod 256 = 0" "256 \<le> N" using b rl l by (auto simp: N_def)
  from get_skb_ok[OF assms(1) b(2), of hw] obtain s0 where s:
    "atbm_get_skb kz (block_round rl) (rx, hw) = Some (s0, rx\<lparr>rx_allocs := rx_allocs rx + 1\<rparr>, hw)"
    "skb_wf s0" "skb_len s0 = 0" "skb_Tail s0 = skb_data s0"
    "skb_data s0 + int N + 59 \<le> int (length (skb_mem s0))" unfolding N_def by metis
  define d where "d = nat (skb_data s0)"
  have d: "skb_data s0 = int d" "d + N \<le> length (skb_mem s0)" using s(2,5) by (auto simp: skb_wf_def d_def)
  define s1 where "s1 = skb_put (skb_trim s0 0) (unat rl)"
  have u: "unat (of_nat (unat rl) :: u16) = unat rl" using rl l by (subst unat_of_nat) simp
  have e1: "s1 = s0\<lparr>skb_len := of_nat (unat rl), skb_Tail := int d + int (unat rl)\<rparr>"
    using d(1) by (simp add: s1_def skb_put_def skb_trim_def skb_set_tail_pointer_def del: of_nat_unat)
  define buf where "buf = take N (drop d (skb_mem s0))"
  have buf: "skb_rdn s1 0 N = Some buf" "length buf = N" using d by (simp_all add: skb_rdn_def rdn_def e1 buf_def)
  obtain ret buf' h' where r: "read_data ops (skb_data_addr s1) buf h = (ret, buf', h')" by (metis surj_pair)
  have lb: "length buf' = N" using assms(2)[of "skb_data_addr s1" buf h] r buf by simp
  define m where "m = take d (skb_mem s0) @ buf' @ drop (d + N) (skb_mem s0)"
  define s2 where "s2 = s1\<lparr>skb_mem := m\<rparr>"
  have s2: "skb_wrn s1 0 buf' = Some s2" using d lb by (simp add: skb_wrn_def wrn_def e1 m_def s2_def)
  have lm: "length m = length (skb_mem s0)" using d lb by (simp add: m_def)
  have wf2: "skb_wf s2" "unat (skb_len s2) = unat len + 2"
    using s(2) d N(1) u lm unfolding s2_def e1 by (simp_all add: skb_wf_def rl del: of_nat_unat)
  define c where "c = le16 (buf' ! (N - 2)) (buf' ! (N - 1))"
  define K where "K = N - 2"
  have i: "2 * (int N div 2 - 1) = int K" unfolding K_def using N(2,3) by auto
  have K: "N = Suc (Suc K)" using N(3) by (simp add: K_def)
  have t: "length (take d (skb_mem s0)) = d" using d(2) by simp
  note x = rd16_mid[OF lb[unfolded K], of "take d (skb_mem s0)" "drop (d + N) (skb_mem s0)", unfolded t, folded m_def]
  have f: "skb_data s2 = int d" "skb_mem s2 = m" by (simp_all add: s2_def e1 d(1))
  have "c = le16 (buf' ! K) (buf' ! Suc K)" unfolding c_def K by simp
  with x have "skb_rd16 s2 (int K) = Some c" unfolding skb_rd16_def f by simp
  then have rd: "skb_rd16 s2 (2 * (uint (block_round rl) div 2 - 1)) = Some c"
    unfolding uint_nat N_def[symmetric] i .
  have "read_message kz ops skb_rx ctrl_reg (rx, hw) h =
      Some (if ret \<noteq> 0 then Inl (Some s2) else Inr (s2\<lparr>skb_pkt_type := frame_type ops\<rparr>, c),
            (rx\<lparr>rx_allocs := rx_allocs rx + 1\<rparr>, hw), h')"
    using len s(1) buf(1) r s2 rd
    unfolding read_message_def len(1)[symmetric] Let_def rl_def[symmetric] N_def by (auto simp: not_less[symmetric] simp flip: s1_def)
  then show ?thesis using that[OF r _ _ wf2] buf(2) by (simp add: c_def N_def rl_def)
qed

text \<open>C37. Whatever the chip puts into its control register, the message is read inside the buffer
  allocated for it: read_message is defined, and the buffer of the message is well formed and has the
  announced length plus the two bytes of the register that follows.\<close>
theorem read_buffer_fits:
  assumes "fresh_rx kz (fst st)" "\<And>a buf h. length (fst (snd (read_data ops a buf h))) = length buf"
  shows "\<exists>r st' h'. read_message kz ops skb_rx ctrl_reg st h = Some (r, st', h') \<and>
     (case r of Inl p \<Rightarrow> p = skb_rx \<or> (\<exists>skb. p = Some skb)
      | Inr (skb, _) \<Rightarrow> skb_wf skb \<and> unat (skb_len skb) = unat (next_read_len ctrl_reg) + 2 \<and>
          skb_pkt_type skb = frame_type ops)"
proof (cases "next_read_len ctrl_reg < 4 \<or> next_read_len ctrl_reg > EFFECTIVE_BUF_SIZE")
  case True
  then show ?thesis by (auto simp: read_message_def)
next
  case False
  then have l: "4 \<le> next_read_len ctrl_reg" "next_read_len ctrl_reg \<le> EFFECTIVE_BUF_SIZE" by auto
  obtain rx hw where st: "st = (rx, hw)" by (metis surj_pair)
  obtain s1 s2 buf ret buf' h' c where
    "read_data ops (skb_data_addr s1) buf h = (ret, buf', h')" "length buf = unat (block_round (next_read_len ctrl_reg + 2))" and
    e: "read_message kz ops skb_rx ctrl_reg (rx, hw) h =
      Some (if ret \<noteq> 0 then Inl (Some s2) else Inr (s2\<lparr>skb_pkt_type := frame_type ops\<rparr>, c),
            (rx\<lparr>rx_allocs := rx_allocs rx + 1\<rparr>, hw), h')"
    "skb_wf s2" "unat (skb_len s2) = unat (next_read_len ctrl_reg) + 2" and
    "c = le16 (buf' ! (length buf - 2)) (buf' ! (length buf - 1))"
    by (rule read_message_run[OF assms(1)[unfolded st fst_conv] assms(2) refl l, of h skb_rx hw])
  have "skb_wf (s2\<lparr>skb_pkt_type := t\<rparr>)" for t using e(2) by (simp add: skb_wf_def)
  then show ?thesis unfolding st e(1) using e(3) by auto
qed

subsection \<open>A message with several frames\<close>

definition frame_step :: "bytes \<Rightarrow> nat" where
  "frame_step f = (length f + 43) div 4 * 4"

text \<open>A frame of the chip and what stands behind it: the receive indication with its header of 4 bytes, 16
  bytes of status and the 802.11 frame, then bytes nobody reads.\<close>

definition rx_frame_ok :: "bytes \<times> bytes \<Rightarrow> bool" where
  "rx_frame_ok = (\<lambda>(f, pad). 22 \<le> length f \<and> length f < 2 ^ 16 \<and> take 2 f = bytes16 (of_nat (length f)) \<and>
     val16 (take 2 (drop 2 f)) AND 0xFFF = 0x0804 \<and> length f + length pad = frame_step f)"

definition multi_body :: "(bytes \<times> bytes) list \<Rightarrow> bytes" where
  "multi_body fs = concat (map (\<lambda>(f, pad). f @ pad) fs)"

lemma multi_body_simps [simp]:
  "multi_body [] = []" "multi_body ((f, pad) # fs) = f @ pad @ multi_body fs"
  by (simp_all add: multi_body_def)

definition records_frames :: "'m wsm_env \<Rightarrow> ('m \<Rightarrow> bytes option list) \<Rightarrow> bool" where
  "records_frames env seen \<longleftrightarrow> (\<forall>rx skb hw. \<exists>p hw'. env_rx_cb env rx skb hw = Some (p, hw') \<and>
     seen (mac hw') = seen (mac hw) @ [skb_payload skb] \<and> vif_type hw' = vif_type hw)"

lemma unat_ALIGN2_u32_4: "unat x + 3 < 2 ^ 32 \<Longrightarrow> unat (ALIGN2_u32 x 4) = (unat x + 3) div 4 * 4"
  using word_and_not_mask[of "x + 3" 2] unat_round_down[of 2 "x + 3"]
  by (simp add: ALIGN2_u32_def mask_eq_exp_minus_1 unat_word_ariths)

lemma unat_ALIGN2_u32_1024: "unat x + 1023 < 2 ^ 32 \<Longrightarrow> unat (ALIGN2_u32 x 1024) = (unat x + 1023) div 1024 * 1024"
  using word_and_not_mask[of "x + 1023" 10] unat_round_down[of 10 "x + 1023"]
  by (simp add: ALIGN2_u32_def mask_eq_exp_minus_1 unat_word_ariths)

lemma uint_step:
  "rx_frame_ok (f, pad) \<Longrightarrow> uint (ALIGN2_u32 (ucast (of_nat (length f) :: u16) + of_nat RX_ALLOC_BUFF_OFFLOAD) 4) = int (frame_step f)"
proof -
  assume "rx_frame_ok (f, pad)"
  then have l: "length f < 2 ^ 16" by (simp add: rx_frame_ok_def)
  then have "unat (ucast (of_nat (length f) :: u16) + 40 :: u32) = length f + 40"
    by (simp add: unat_word_ariths unat_ucast16 unat_of_nat)
  then show ?thesis using unat_ALIGN2_u32_4[of "ucast (of_nat (length f) :: u16) + 40"] l
    by (simp add: uint_nat frame_step_def)
qed

lemma split_drop: "drop k f = take n (drop k f) @ drop (k + n) f"
  by (metis append_take_drop_id drop_drop add.commute)

text \<open>One frame goes to the layer above.\<close>

lemma handle_frame:
  assumes "records_frames env seen" "rx_frame_ok (f, pad)" "skb_view copy pre f post" "vif_type hw \<noteq> None"
  obtains p hw' where "wsm_handle_rx env 0x0804 (f @ rest) (Some copy) hw = Some (0, p, hw')"
    "seen (mac hw') = seen (mac hw) @ [Some (drop 20 f)]" "vif_type hw' = vif_type hw"
proof -
  have l: "22 \<le> length f" "length f < 2 ^ 16" "take 2 f = bytes16 (of_nat (length f))" using assms(2) by (auto simp: rx_frame_ok_def)
  define bss where "bss = [take 4 (drop 4 f), take 2 (drop 8 f), take 1 (drop 10 f), take 1 (drop 11 f),
     take 4 (drop 12 f), take 4 (drop 16 f)]"
  have f: "f = take 4 f @ concat bss @ drop 20 f"
    using split_drop[of 0 f 4] split_drop[of 4 f 4] split_drop[of 8 f 2] split_drop[of 10 f 1] split_drop[of 11 f 1]
      split_drop[of 12 f 4] split_drop[of 16 f 4] by (simp add: bss_def del: append_take_drop_id)
  have bl: "map length bss = [4, 2, 1, 1, 4, 4]" using l(1) by (simp add: bss_def)
  then have "sum_list (map length bss) = 16" by simp
  then have bl2: "length (concat bss) = 16" by (simp add: length_concat)
  have u: "uint (of_nat (length f) :: u16) = int (length f)" using l(2) by (simp add: uint_nat unat_of_nat del: of_nat_unat)
  obtain x y r where xy: "f = x # y # r" using l(1) by (cases f; cases "tl f") auto
  have mb: "msg_buf (f @ rest) = Some \<lparr>wb_mem = Some (f @ rest), wb_data = 4, wb_end = int (length f)\<rparr>"
    using l(3) u by (simp add: xy msg_buf_def rd16_def rd8_def bytes16_def del: of_nat_Suc)
  have g: "wsm_gets [4, 2, 1, 1, 4, 4] \<lparr>wb_mem = Some (f @ rest), wb_data = 4, wb_end = int (length f)\<rparr>
      = Some (bss, True, \<lparr>wb_mem = Some (f @ rest), wb_data = 20, wb_end = int (length f)\<rparr>)"
    using gets_concat[of "\<lparr>wb_mem = Some (f @ rest), wb_data = 4, wb_end = int (length f)\<rparr>" "take 4 f" bss "drop 20 f @ rest"]
      f l(1) bl bl2 by simp
  obtain c where fc: "rd16 (f @ rest) 20 = Some c" using l(1) by (simp add: rd16_def rd8_def)
  obtain p hw' where cb: "env_rx_cb env (read_wsm_rx bss 0) (skb_pull copy 20) hw = Some (p, hw')"
    "seen (mac hw') = seen (mac hw) @ [skb_payload (skb_pull copy 20)]" "vif_type hw' = vif_type hw"
    using assms(1) unfolding records_frames_def by blast
  have pl: "skb_payload (skb_pull copy 20) = Some (drop 20 f)"
    using view_payload[OF view_pull[OF assms(3), of 20]] l(1) by simp
  obtain v where v: "ABwifi_hwpriv_to_vifpriv hw 0 = Some v"
    using assms(4) by (auto simp: ABwifi_hwpriv_to_vifpriv_def)
  have "wsm_handle_rx env 0x0804 (f @ rest) (Some copy) hw =
      Some (0, map_option (\<lambda>skb. skb_push skb 20) p, hw')"
    using mb g fc cb(1) v by (simp add: wsm_handle_rx_def wsm_receive_indication_def WSM_TX_LINK_ID_def)
  then show ?thesis using that cb(2,3) unfolding pl by blast
qed

lemma copy_rx_frame_ok:
  assumes "fresh_rx kz rx" "skb_view skb pre (a @ f @ c) post" "length f < 2 ^ 16"
  obtains copy p q where "copy_rx_frame kz skb (int (length a)) (of_nat (length f)) (rx, hw)
      = Some (copy, rx\<lparr>rx_allocs := rx_allocs rx + 1\<rparr>, hw)" "skb_view copy p f q"
proof -
  define n :: u32 where "n = ucast (of_nat (length f) :: u16) + 16"
  have lf: "unat (of_nat (length f) :: u16) = length f" using assms(3) by (subst unat_of_nat) simp
  have n: "unat n = length f + 16" using assms(3) lf by (simp add: n_def unat_word_ariths unat_ucast16)
  then have "unat n + 271 < 2 ^ 32" using assms(3) by simp
  from alloc_rx_skb_ok[OF assms(1) this, of hw] obtain s0 where s:
    "alloc_rx_skb kz n (rx, hw) = Some (s0, rx\<lparr>rx_allocs := rx_allocs rx + 1\<rparr>, hw)"
    "skb_wf s0" "skb_len s0 = 0" "skb_Tail s0 = skb_data s0"
    "skb_Tail s0 + int (unat n) + 33 \<le> int (length (skb_mem s0))" by metis
  define r where "r = 8 - skb_data_addr s0 mod 8"
  define s1 where "s1 = (skb_reserve s0 r)\<lparr>skb_pkt_type := skb_pkt_type skb\<rparr>"
  define d where "d = nat (skb_data s0) + r"
  have d: "skb_data s1 = int d" "skb_mem s1 = skb_mem s0" "skb_len s1 = 0" "d + length f \<le> length (skb_mem s0)"
    using s n by (auto simp: s1_def skb_reserve_def Let_def skb_wf_def d_def r_def)
  define m where "m = take d (skb_mem s0) @ f @ drop (d + length f) (skb_mem s0)"
  have w: "skb_wrn s1 0 f = Some (s1\<lparr>skb_mem := m\<rparr>)"
    using d by (simp add: skb_wrn_def wrn_def m_def)
  have "skb_rdn skb (int (length a)) (length f) = Some f" by (rule view_rdn_body[OF assms(2)]) simp_all
  then have e: "copy_rx_frame kz skb (int (length a)) (of_nat (length f)) (rx, hw)
      = Some (skb_put (s1\<lparr>skb_mem := m\<rparr>) (length f), rx\<lparr>rx_allocs := rx_allocs rx + 1\<rparr>, hw)"
    using s(1) w by (simp add: copy_rx_frame_def lf flip: n_def r_def s1_def)
  have "skb_view (skb_put (s1\<lparr>skb_mem := m\<rparr>) (length f)) (take d (skb_mem s0)) f (drop (d + length f) (skb_mem s0))"
    using d lf by (simp add: skb_view_def skb_put_def m_def)
  with e show ?thesis by (rule that)
qed

lemma frame_header:
  assumes "skb_view skb pre (a @ f @ c) post" "rx_frame_ok (f, pad)"
  shows "skb_rd16 skb (int (length a)) = Some (of_nat (length f))"
    "\<exists>w. skb_rd16 skb (int (length a) + 2) = Some w \<and> w AND 0xFFF = 0x0804"
    "skb_from skb (int (length a)) = f @ c @ post"
proof -
  have l: "22 \<le> length f" "take 2 f = bytes16 (of_nat (length f))" "val16 (take 2 (drop 2 f)) AND 0xFFF = 0x0804"
    using assms(2) by (auto simp: rx_frame_ok_def)
  have "a @ take 2 f @ (drop 2 f @ c) = a @ f @ c" by (metis append.assoc append_take_drop_id)
  with assms(1) have v: "skb_view skb pre (a @ take 2 f @ (drop 2 f @ c)) post" by (simp only:)
  have "take 2 f @ (drop 2 f @ c) = take 2 f @ take 2 (drop 2 f) @ drop 4 f @ c"
    using split_drop[of 2 f 2] by (metis append.assoc numeral_Bit0)
  with v have v2: "skb_view skb pre ((a @ take 2 f) @ take 2 (drop 2 f) @ (drop 4 f @ c)) post" by simp
  show "skb_rd16 skb (int (length a)) = Some (of_nat (length f))"
    using view_rd16[OF v refl] l(1) unfolding l(2) by (simp add: bytes16_def)
  show "\<exists>w. skb_rd16 skb (int (length a) + 2) = Some w \<and> w AND 0xFFF = 0x0804"
    using view_rd16[OF v2, of "int (length a) + 2"] l(1,3) by (simp add: val16_def)
  show "skb_from skb (int (length a)) = f @ c @ post"
    using assms(1) by (simp add: skb_from_def skb_view_def nat_add_distrib)
qed

text \<open>The header behind the last frame is read too, so four readable bytes must follow.\<close>

lemma header_readable:
  assumes "skb_view skb pre (a @ b) post" "fs \<noteq> [] \<longrightarrow> rx_frame_ok (hd fs)" "b = multi_body fs" "4 \<le> length post"
  shows "skb_rd16 skb (int (length a)) \<noteq> None" "skb_rd16 skb (int (length a) + 2) \<noteq> None"
  using assms by (auto simp: skb_view_def skb_rd16_def rd16_def rd8_def)

lemma multi_rx_loop_ok:
  assumes "records_frames env seen" "4 \<le> length post"
  shows "fs \<noteq> [] \<Longrightarrow> \<forall>x\<in>set fs. rx_frame_ok x \<Longrightarrow> fresh_rx kz rx \<Longrightarrow> vif_type hw \<noteq> None \<Longrightarrow>
    skb_view skb pre (a @ multi_body fs) post \<Longrightarrow>
    \<exists>rx' hw'. multi_rx_loop env kz skb (int (length fs)) (int (length (multi_body fs))) (int (length a)) (rx, hw)
        = Some (0, rx', hw') \<and>
      seen (mac hw') = seen (mac hw) @ map (\<lambda>(f, pad). Some (drop 20 f)) fs \<and>
      rx_allocs rx' = rx_allocs rx + length fs \<and> recv_cnt rx' = recv_cnt rx \<and> fresh_rx kz rx'"
proof (induction fs arbitrary: a rx hw)
  case (Cons x fs)
  obtain f pad where x: "x = (f, pad)" by (cases x)
  have ok: "rx_frame_ok (f, pad)" using Cons.prems(2) x by simp
  have l: "22 \<le> length f" "length f < 2 ^ 16" "length f + length pad = frame_step f" using ok by (auto simp: rx_frame_ok_def)
  have v: "skb_view skb pre (a @ f @ (pad @ multi_body fs)) post" using Cons.prems(5) x by simp
  note h = frame_header[OF v ok]
  obtain w where w: "skb_rd16 skb (int (length a) + 2) = Some w" "w AND 0xFFF = 0x0804" using h(2) by blast
  obtain copy p q where c: "copy_rx_frame kz skb (int (length a)) (of_nat (length f)) (rx, hw)
      = Some (copy, rx\<lparr>rx_allocs := rx_allocs rx + 1\<rparr>, hw)" "skb_view copy p f q"
    by (rule copy_rx_frame_ok[OF Cons.prems(3) v l(2)])
  obtain cp hw1 where hf: "wsm_handle_rx env 0x0804 (f @ (pad @ multi_body fs) @ post) (Some copy) hw = Some (0, cp, hw1)"
    "seen (mac hw1) = seen (mac hw) @ [Some (drop 20 f)]" "vif_type hw1 = vif_type hw"
    by (rule handle_frame[OF assms(1) ok c(2) Cons.prems(4)])
  define rx1 where "rx1 = rx\<lparr>rx_allocs := rx_allocs rx + 1\<rparr>"
  obtain hw2 where st: "free_rx_skb cp (rx1, hw1) = (rx1, hw2)" "mac hw2 = mac hw1" "vif_type hw2 = vif_type hw1"
    by (cases cp) (auto simp: free_rx_skb_def free_hw_skb_def)
  have step: "uint (ALIGN2_u32 (ucast (of_nat (length f) :: u16) + of_nat RX_ALLOC_BUFF_OFFLOAD) 4) = int (frame_step f)"
    by (rule uint_step[OF ok])
  define a2 where "a2 = a @ f @ pad"
  have a2: "int (length a) + int (frame_step f) = int (length a2)" using l(3) by (simp add: a2_def)
  have v2: "skb_view skb pre (a2 @ multi_body fs) post" using v by (simp add: a2_def)
  have rd: "skb_rd16 skb (int (length a2)) \<noteq> None" "skb_rd16 skb (int (length a2) + 2) \<noteq> None"
    using header_readable[OF v2 _ refl assms(2)] Cons.prems(2) by (cases fs; auto)+
  define D where "D = int (length (multi_body (x # fs)))"
  have D: "D = int (frame_step f) + int (length (multi_body fs))" using l(3) by (simp add: D_def x)
  have enough: "\<not> (of_int D :: u32) < ucast (of_nat (length f) :: u16)"
  proof -
    have "D = int (length (multi_body (x # fs)))" by (simp add: D_def)
    moreover have "length (multi_body (x # fs)) < 2 ^ 16"
      using Cons.prems(5) unat_lt2p[of "skb_len skb"] by (auto simp: skb_view_def)
    ultimately have "unat (of_int D :: u32) = length (multi_body (x # fs))" by (simp add: unat_of_nat)
    moreover have "unat (of_nat (length f) :: u16) = length f" using l(2) by (subst unat_of_nat) simp
    ultimately show ?thesis by (simp add: word_less_nat_alt unat_ucast16 x)
  qed
  have lfs: "length (multi_body fs) > 32 \<longleftrightarrow> fs \<noteq> []"
    using Cons.prems(2) by (cases fs) (auto simp: rx_frame_ok_def frame_step_def)
  have run: "multi_rx_loop env kz skb (int (length (x # fs))) D (int (length a)) (rx, hw) =
      (if fs \<noteq> [] then multi_rx_loop env kz skb (int (length fs)) (int (length (multi_body fs))) (int (length a2)) (rx1, hw2)
       else Some (0, rx1, hw2))"
    using h w c(1)[folded rx1_def] hf(1) enough step rd lfs st(1)
    by (subst multi_rx_loop.simps) (simp add: handle_rx_msg_def D a2 Let_def)
  show ?case
  proof (cases "fs = []")
    case True
    then have "multi_rx_loop env kz skb (int (length (x # fs))) D (int (length a)) (rx, hw) = Some (0, rx1, hw2)"
      using run by simp
    then show ?thesis unfolding D_def using True hf st Cons.prems(3)
      by (intro exI[of _ rx1] exI[of _ hw2]) (simp add: x rx1_def fresh_rx_def)
  next
    case False
    have "fresh_rx kz rx1" using Cons.prems(3) by (simp add: rx1_def fresh_rx_def)
    moreover have "vif_type hw2 \<noteq> None" using hf st Cons.prems(4) by simp
    ultimately obtain rx' hw' where "multi_rx_loop env kz skb (int (length fs)) (int (length (multi_body fs))) (int (length a2)) (rx1, hw2)
        = Some (0, rx', hw')" "seen (mac hw') = seen (mac hw2) @ map (\<lambda>(f, pad). Some (drop 20 f)) fs"
      "rx_allocs rx' = rx_allocs rx1 + length fs" "recv_cnt rx' = recv_cnt rx1" "fresh_rx kz rx'"
      using Cons.IH[OF False _ _ _ v2, of rx1 hw2] Cons.prems(2) by auto
    then show ?thesis using run False hf st unfolding D_def by (simp add: x rx1_def)
  qed
qed simp

text \<open>A message with frames as the chip sends it.\<close>

definition multi_rx_msg :: "u16 \<Rightarrow> (bytes \<times> bytes) list \<Rightarrow> bytes" where
  "multi_rx_msg idw fs = bytes16 (of_nat (8 + length (multi_body fs))) @ bytes16 idw @ [of_nat (length fs), 0, 0, 0] @ multi_body fs"

lemma stat_index_iff: "rx_stat_index wsm_len < 17 \<longleftrightarrow> unat wsm_len \<le> 16384"
proof -
  have "unat (ucast wsm_len :: u32) + 1023 < 2 ^ 32" using unat_lt2p[of wsm_len] by (simp add: unat_ucast16)
  from unat_ALIGN2_u32_1024[OF this] have "unat (rx_stat_index wsm_len) = (unat wsm_len + 1023) div 1024"
    by (simp add: rx_stat_index_def unat_div unat_ucast16)
  then show ?thesis by (auto simp: word_less_nat_alt)
qed

text \<open>C4. A message that carries several frames, fewer than 256 and with a body of at most 16376 bytes (so that
  the message has at most 16384), gives each frame to the layer above exactly once, in order,
  without the header of the indication and whatever stands between the frames; every copy is allocated
  once, and the message is given back to the caller, who frees it.  The bound is the one the statistics
  of the receiver can count; the driver does not check it, and a longer message is undefined
  (multi_rx_statistics_overflow).\<close>
theorem multi_rx_delivers_frames:
  assumes "records_frames env seen" "fs \<noteq> []" "\<forall>x\<in>set fs. rx_frame_ok x" "length fs < 256"
    "idw AND 0xFFF = 0x0811 \<or> idw AND 0xFFF = 0x0813" "length (multi_body fs) \<le> 16376"
    "skb_view skb pre (multi_rx_msg idw fs) post" "4 \<le> length post"
    "fresh_rx kz rx" "vif_type hw \<noteq> None"
  shows "\<exists>rx' hw'. atbm_rx_tasklet env kz id' skb (rx, hw) = Some (0, Some skb, rx', hw') \<and>
     seen (mac hw') = seen (mac hw) @ map (\<lambda>(f, pad). Some (drop 20 f)) fs \<and>
     rx_allocs rx' = rx_allocs rx + length fs"
proof -
  define L where "L = 8 + length (multi_body fs)"
  define hdr where "hdr = bytes16 (of_nat L) @ bytes16 idw @ [of_nat (length fs), 0, 0, 0]"
  have lh: "length hdr = 8" by (simp add: hdr_def bytes16_def)
  have v: "skb_view skb pre (hdr @ multi_body fs) post" using assms(7) by (simp add: multi_rx_msg_def hdr_def L_def)
  have L: "unat (of_nat L :: u16) = L" "L \<le> 16384" using assms(6) unat_of_nat[of L, where 'a=16] by (simp_all add: L_def del: of_nat_add)
  have r0: "skb_rd16 skb 0 = Some (of_nat L)"
    using view_rd16[of skb pre "[]" "bytes16 (of_nat L)"] v by (simp add: hdr_def bytes16_def)
  have r2: "skb_rd16 skb 2 = Some idw"
    using view_rd16[of skb pre "bytes16 (of_nat L)" "bytes16 idw"] v by (simp add: hdr_def bytes16_def)
  have r4: "skb_rd8 skb 4 = Some (of_nat (length fs))"
    using v by (simp add: skb_view_def skb_rd8_def rd8_def hdr_def bytes16_def nat_add_distrib nth_append)
  have n: "uint (of_nat (length fs) :: u8) = int (length fs)" using assms(4) by (simp add: uint_nat unat_of_nat)
  have st: "rx_stat_index (of_nat L) < 17" using L stat_index_iff by simp
  obtain rx' hw' where m: "multi_rx_loop env kz skb (int (length fs)) (int (length (multi_body fs))) (int (length hdr)) (rx, hw)
        = Some (0, rx', hw')" "seen (mac hw') = seen (mac hw) @ map (\<lambda>(f, pad). Some (drop 20 f)) fs"
      "rx_allocs rx' = rx_allocs rx + length fs"
    using multi_rx_loop_ok[OF assms(1,8,2,3,9,10) v] by blast
  have "uint (of_nat L :: u16) - 8 = int (length (multi_body fs))" using L by (simp add: uint_nat L_def)
  then have "atbm_rx_tasklet env kz id' skb (rx, hw) = Some (0, Some skb, rx', hw')"
    using r0 r2 r4 st n m(1) assms(5) lh by (auto simp: atbm_rx_tasklet_def)
  with m show ?thesis by blast
qed

text \<open>The statistics of the receiver bound the message: a message with several frames that is longer than
  16384 bytes, although atbm_sdio_process_read_data takes messages of up to 32758 bytes, makes
  atbm_rx_tasklet write behind the 17 entries of rxMutiCnt.\<close>
theorem multi_rx_statistics_overflow:
  assumes "skb_rd16 skb 0 = Some wsm_len" "skb_rd16 skb 2 = Some idw" "idw AND 0xFFF = 0x0811 \<or> idw AND 0xFFF = 0x0813"
    "unat wsm_len > 16384"
  shows "atbm_rx_tasklet env kz id' skb st = None \<and> rx_stat_index wsm_len \<ge> 17"
proof -
  have "\<not> rx_stat_index wsm_len < 17" using assms(4) stat_index_iff by simp
  then show ?thesis using assms by (cases "skb_rd8 skb 4") (auto simp: atbm_rx_tasklet_def)
qed

subsection \<open>Failures\<close>

text \<open>A read that fails behind a handled message frees that message twice.  When the first message has
  been handled, and freed by its handler, and the length that came with it is invalid, the reader goes to its error exit
  with the variable skb_rx still set.\<close>
theorem read_error_frees_twice:
  assumes "read_ctrl ops 0 h = (0, c, h1)" "next_read_len c \<noteq> 0"
    "read_message kz ops None c st h1 = Some (Inr (skb, c2), st2, h2)" "rx_handle ops skb st2 = Some (0, st3)"
    "freed_skbs (snd st3) = fr @ [skb]" "next_read_len c2 \<noteq> 0" "next_read_len c2 < 4 \<or> next_read_len c2 > EFFECTIVE_BUF_SIZE"
  shows "\<exists>st4. atbm_sdio_process_read_data kz ops st h = Some (-1, st4, h2) \<and> freed_skbs (snd st4) = fr @ [skb, skb]"
proof -
  have "read_message kz ops (Some skb) c2 st3 h2 = Some (Inl (Some skb), st3, h2)"
    using assms(7) by (auto simp: read_message_def)
  then have "read_loop kz ops False (Some skb) c2 1 st3 h2 = Some (-1, free_rx_skb (Some skb) st3, h2)"
    using assms(6) by (subst read_loop.simps) simp
  then have "atbm_sdio_process_read_data kz ops st h = Some (-1, free_rx_skb (Some skb) st3, h2)"
    unfolding atbm_sdio_process_read_data_def using assms(1-4,6) by (subst read_loop.simps) simp
  then show ?thesis using assms(5)
    by (intro exI[of _ "free_rx_skb (Some skb) st3"]) (simp add: free_rx_skb_def free_hw_skb_def split: prod.splits)
qed

text \<open>The messages of a burst, one after the other, as the reader hands them over.\<close>

primrec rx_all :: "'m wsm_env \<Rightarrow> (nat \<Rightarrow> nat option) \<Rightarrow> sk_buff list \<Rightarrow> 'm rx_state \<Rightarrow> 'm rx_state option" where
  "rx_all env kz [] st = Some st"
| "rx_all env kz (skb # skbs) st = do { (_, st) \<leftarrow> atbm_rx_directly env kz skb st; rx_all env kz skbs st }"

definition numbered_msg :: "nat \<Rightarrow> sk_buff \<Rightarrow> bool" where
  "numbered_msg n skb \<longleftrightarrow> (\<exists>len w. skb_rd16 skb 0 = Some len \<and> skb_rd16 skb 2 = Some w \<and> w AND 0xFFF \<noteq> 0x0800 \<and>
     unat (rx_seq_of w) = n mod 8)"

lemma rx_directly_drops:
  assumes "recv_cnt (fst st) \<ge> 4" "\<not> rx_resync (fst st)" "numbered_msg n skb" "n mod 8 \<noteq> unat (wsm_rx_seq (snd st))"
  obtains len where "atbm_rx_directly env kz skb st =
    Some (-2, fst st, (snd st)\<lparr>freed_skbs := freed_skbs (snd st) @ [skb_trim skb len]\<rparr>)"
proof -
  obtain len w where w: "skb_rd16 skb 0 = Some len" "skb_rd16 skb 2 = Some w" "w AND 0xFFF \<noteq> 0x0800"
    "unat (rx_seq_of w) = n mod 8" using assms(3) by (auto simp: numbered_msg_def)
  then have "rx_seq_of w \<noteq> wsm_rx_seq (snd st)" using assms(4) by metis
  then show ?thesis using assms w
    by (intro that[of "unat len"]) (simp add: atbm_rx_directly_def free_rx_skb_def free_hw_skb_def Let_def split: prod.splits)
qed

text \<open>One lost message loses the messages behind it.  When g messages are missing, 0 < g < 8, the next
  8 - g messages are freed unread, whatever they are, and nothing else changes: the receiver still
  waits for the number that is lost, so only the message whose number has come round again is taken.\<close>
theorem sequence_gap_loses_messages:
  assumes "recv_cnt (fst st) \<ge> 4" "\<not> rx_resync (fst st)" "unat (wsm_rx_seq (snd st)) = e" "e < 8" "0 < g"
    "g + length skbs \<le> 8" "\<forall>i<length skbs. numbered_msg (e + g + i) (skbs ! i)"
  shows "\<exists>freed. rx_all env kz skbs st = Some (fst st, (snd st)\<lparr>freed_skbs := freed_skbs (snd st) @ freed\<rparr>) \<and>
     map skb_addr freed = map skb_addr skbs"
  using assms
proof (induction skbs arbitrary: st g)
  case (Cons skb skbs)
  have "numbered_msg (e + g) skb" using Cons.prems(7) by (metis add.right_neutral length_Cons nth_Cons_0 zero_less_Suc)
  moreover have "(e + g) mod 8 \<noteq> e"
    using Cons.prems(4-6) by simp presburger
  ultimately obtain len where d: "atbm_rx_directly env kz skb st =
    Some (-2, fst st, (snd st)\<lparr>freed_skbs := freed_skbs (snd st) @ [skb_trim skb len]\<rparr>)"
    using rx_directly_drops[OF Cons.prems(1,2)] Cons.prems(3) by metis
  let ?st = "(fst st, (snd st)\<lparr>freed_skbs := freed_skbs (snd st) @ [skb_trim skb len]\<rparr>)"
  have "numbered_msg (e + (g + 1) + i) (skbs ! i)" if "i < length skbs" for i
    using Cons.prems(7) that by (metis Suc_less_eq add.assoc add.commute length_Cons nth_Cons_Suc plus_1_eq_Suc)
  then obtain freed where "rx_all env kz skbs ?st = Some (fst ?st, (snd ?st)\<lparr>freed_skbs := freed_skbs (snd ?st) @ freed\<rparr>)"
     "map skb_addr freed = map skb_addr skbs"
    using Cons.IH[of ?st "g + 1"] Cons.prems by auto
  then show ?case using d
    by (intro exI[of _ "skb_trim skb len # freed"]) (simp add: skb_trim_def skb_set_tail_pointer_def)
qed (auto intro: exI[of _ "[]"])

subsection \<open>Witnesses\<close>

definition demo_rx :: bh_rx where
  "demo_rx = \<lparr>rx_resync = False, recv_cnt = 4, rx_skb_cache = None, rx_allocs = 0\<rparr>"

definition demo_kz :: "nat \<Rightarrow> nat option" where
  "demo_kz n = Some (4096 + 65536 * n)"

lemma demo_fresh: "fresh_rx demo_kz demo_rx"
  by (simp add: fresh_rx_def demo_kz_def demo_rx_def)

text \<open>A chip whose control register always announces four bytes, with a register of 0x0001 behind them.\<close>

definition bad_chip :: "(unit, unit) rx_ops" where
  "bad_chip = \<lparr>read_ctrl = (\<lambda>c h. (0, 2, h)), read_data = (\<lambda>a buf h. (0, (replicate (length buf) 0)[length buf - 2 := 1], h)),
     rx_handle = atbm_rx_directly demo_env demo_kz, frame_type = ATBM_RX_DERICTLY_DATA_FRAME\<rparr>"

lemma next_read_len_demo: "next_read_len 2 = 4" "next_read_len 1 = 2"
  by (simp_all add: next_read_len_def)

lemma bad_chip_simps [simp]:
  "read_ctrl bad_chip c h = (0, 2, h)" "frame_type bad_chip = 2" "rx_handle bad_chip = atbm_rx_directly demo_env demo_kz"
  "read_data bad_chip a buf h = (0, (replicate (length buf) 0)[length buf - 2 := 1], h)"
  by (simp_all add: bad_chip_def)

theorem read_buffer_fits_witness:
  "\<exists>r st' h'. read_message demo_kz bad_chip None 2 (demo_rx, demo_hw) (demo_hif ()) = Some (r, st', h') \<and>
     (case r of Inl p \<Rightarrow> p = None \<or> (\<exists>skb. p = Some skb) | Inr (skb, _) \<Rightarrow> skb_wf skb \<and> unat (skb_len skb) = 6 \<and> skb_pkt_type skb = 2)"
proof -
  have f: "fresh_rx demo_kz (fst (demo_rx, demo_hw))" by (simp add: demo_fresh)
  have l: "length (fst (snd (read_data bad_chip a buf h))) = length buf" for a buf h by simp
  have u: "unat (4 :: u32) + 2 = 6" by simp
  show ?thesis using read_buffer_fits[OF f l, of None 2 "demo_hif ()"]
    by (simp only: next_read_len_demo bad_chip_simps u)
qed

lemma demo_read:
  obtains skb where "read_message demo_kz bad_chip None 2 (demo_rx\<lparr>recv_cnt := 0\<rparr>, demo_hw) (demo_hif ()) =
    Some (Inr (skb, 1), (demo_rx\<lparr>recv_cnt := 0, rx_allocs := 1\<rparr>, demo_hw), demo_hif ())"
proof -
  have "fresh_rx demo_kz (demo_rx\<lparr>recv_cnt := 0\<rparr>)" using demo_fresh by (simp add: fresh_rx_def)
  then obtain s2 :: sk_buff and buf :: bytes and ret buf' h' c where r:
    "(0, (replicate (length buf) 0)[length buf - 2 := 1], demo_hif ()) = (ret, buf', h')"
    "length buf = unat (block_round (4 + 2))"
    "read_message demo_kz bad_chip None 2 (demo_rx\<lparr>recv_cnt := 0\<rparr>, demo_hw) (demo_hif ()) =
      Some (if ret \<noteq> 0 then Inl (Some s2) else Inr (s2\<lparr>skb_pkt_type := frame_type bad_chip\<rparr>, c),
            (demo_rx\<lparr>recv_cnt := 0, rx_allocs := rx_allocs demo_rx + 1\<rparr>, demo_hw), h')"
    "c = le16 (buf' ! (length buf - 2)) (buf' ! (length buf - 1))"
    by (rule read_message_run[where ops = bad_chip and ctrl_reg = 2 and len = 4 and h = "demo_hif ()" and skb_rx = None and hw = demo_hw])
      (simp_all add: next_read_len_demo)
  have "length buf = 256" using r(2) by (simp add: block_round_def)
  then have "c = 1" using r(1,4) by (auto simp: le16_def)
  then show ?thesis using that r(1,3) by (simp add: demo_rx_def)
qed

theorem read_error_frees_twice_witness:
  "\<exists>st skb. atbm_sdio_process_read_data demo_kz bad_chip (demo_rx\<lparr>recv_cnt := 0\<rparr>, demo_hw) (demo_hif ())
     = Some (-1, st, demo_hif ()) \<and> freed_skbs (snd st) = [skb, skb]"
proof -
  obtain skb where m: "read_message demo_kz bad_chip None 2 (demo_rx\<lparr>recv_cnt := 0\<rparr>, demo_hw) (demo_hif ()) =
    Some (Inr (skb, 1), (demo_rx\<lparr>recv_cnt := 0, rx_allocs := 1\<rparr>, demo_hw), demo_hif ())" by (rule demo_read)
  obtain st3 where "atbm_rx_directly demo_env demo_kz skb (demo_rx\<lparr>recv_cnt := 0, rx_allocs := 1\<rparr>, demo_hw) = Some (0, st3)"
    "freed_skbs (snd st3) = [] @ [skb]"
    by (simp add: atbm_rx_directly_def set_rx_seq_def free_rx_skb_def free_hw_skb_def demo_hw_def)
  with read_error_frees_twice[OF _ _ m, of "demo_hif ()" st3 "[]"] show ?thesis by (auto simp: next_read_len_demo)
qed

text \<open>The layer above, which keeps what it gets.\<close>

definition recording_env :: "bytes option list wsm_env" where
  "recording_env = \<lparr>env_alloc = demo_alloc, env_kz = Some 4096,
     env_rx_cb = (\<lambda>_ skb hw. Some (Some skb, hw\<lparr>mac := mac hw @ [skb_payload skb]\<rparr>))\<rparr>"

lemma recording_records: "records_frames recording_env (\<lambda>l. l)"
  by (simp add: records_frames_def recording_env_def)

definition with_mac :: "'n \<Rightarrow> 'm atbm_common \<Rightarrow> 'n atbm_common" where
  "with_mac x hw = atbm_common.make (wsm_cmd_buf hw) (hw_wsm_cmd hw) (wsm_cmd_mux hw) (wsm_oper_lock_held hw)
     (tx_lock hw) (tx_frame_queue hw) (rx_frame_queue hw) (bh_running hw) (extra_tx_headroom hw) (wsm_tx_seq hw)
     (wsm_rx_seq hw) (hw_bufs_used hw) (hw_bufs_free hw) (hw_bufs_free_init hw) (n_xmits hw) (hw_xmits hw) (hw_caps hw)
     (xmit_buff hw) (xmit_buff_put hw) (wsm_txframe_num hw) (tx_num_queued hw) (tx_queue_overfull hw) (lwip_queue_enable hw) (lwip_enable hw)
     (event_queue hw) (event_works hw) (vif_type hw) (bh_error hw) (bh_wakeups hw) (cmd_wq_wakeups hw) (tx_burst_idx hw)
     (wifi_run_sta hw) (ret_buf hw) (freed_skbs hw) x"

definition demo_frame :: "u8 \<Rightarrow> bytes" where
  "demo_frame x = [24, 0, 4, 8] @ replicate 16 0 @ [8, 0, x, x]"

theorem multi_rx_delivers_frames_witness:
  "\<exists>st'. atbm_rx_tasklet recording_env demo_kz 0x0811
      (mk_skb 7 [] (multi_rx_msg 0x0811 [(demo_frame 1, replicate 40 0), (demo_frame 2, replicate 40 0)]) (replicate 16 0))
      (demo_rx, with_mac [] demo_hw) = Some (0, Some
      (mk_skb 7 [] (multi_rx_msg 0x0811 [(demo_frame 1, replicate 40 0), (demo_frame 2, replicate 40 0)]) (replicate 16 0)), st') \<and>
     mac (snd st') = [Some [8, 0, 1, 1], Some [8, 0, 2, 2]]"
proof -
  have ok: "rx_frame_ok (demo_frame x, replicate 40 0)" for x
    by (simp add: rx_frame_ok_def demo_frame_def bytes16_def lo8_def hi8_def frame_step_def val16_def le16_def)
  define fs where "fs = [(demo_frame 1, replicate 40 (0 :: u8)), (demo_frame 2, replicate 40 0)]"
  have l: "length (multi_body fs) = 128" by (simp add: fs_def demo_frame_def)
  have "length (multi_rx_msg 0x0811 fs) < 2 ^ 16" by (simp add: multi_rx_msg_def l bytes16_def)
  from mk_skb_ok(1)[OF this] have v: "skb_view (mk_skb 7 [] (multi_rx_msg 0x0811 fs) (replicate 16 0)) [] (multi_rx_msg 0x0811 fs) (replicate 16 0)" .
  have d: "drop 20 (demo_frame x) = [8, 0, x, x]" for x by (simp add: demo_frame_def)
  have h: "vif_type (with_mac [] demo_hw) \<noteq> None" "mac (with_mac [] demo_hw) = []"
    by (simp_all add: with_mac_def demo_hw_def atbm_common.make_def)
  show ?thesis
    using multi_rx_delivers_frames[OF recording_records _ _ _ _ _ v _ demo_fresh h(1), of "0x0811"] ok l h(2)
    by (auto simp: fs_def d)
qed

theorem multi_rx_statistics_overflow_witness:
  "atbm_rx_tasklet demo_env demo_kz 0x0811 (mk_skb 7 [] (bytes16 20000 @ bytes16 0x0811) []) (demo_rx, demo_hw) = None"
proof -
  have v: "skb_view (mk_skb 7 [] ([] @ bytes16 20000 @ bytes16 0x0811) []) [] ([] @ bytes16 20000 @ bytes16 0x0811) []"
    by (rule mk_skb_ok) (simp add: bytes16_def)
  then have v2: "skb_view (mk_skb 7 [] (bytes16 20000 @ bytes16 0x0811) []) [] (bytes16 20000 @ bytes16 0x0811 @ []) []" by simp
  have a: "skb_rd16 (mk_skb 7 [] (bytes16 20000 @ bytes16 0x0811) []) 0 = Some 20000"
    using view_rd16[OF v refl] by (simp add: bytes16_def)
  have b: "skb_rd16 (mk_skb 7 [] (bytes16 20000 @ bytes16 0x0811) []) 2 = Some 0x0811"
    using view_rd16[OF v2, of 2] by (simp add: bytes16_def)
  have "(0x0811 :: u16) AND 0xFFF = 0x0811 \<or> (0x0811 :: u16) AND 0xFFF = 0x0813" "unat (20000 :: u16) > 16384" by simp_all
  from multi_rx_statistics_overflow[OF a b this] show ?thesis by blast
qed

theorem sequence_gap_loses_messages_witness:
  "\<exists>freed. rx_all demo_env demo_kz [mk_skb 7 [] (bytes16 8 @ bytes16 0x2804) []] (demo_rx, demo_hw)
     = Some (demo_rx, demo_hw\<lparr>freed_skbs := freed\<rparr>) \<and> map skb_addr freed = [7]"
proof -
  have v: "skb_view (mk_skb 7 [] ([] @ bytes16 8 @ bytes16 0x2804) []) [] ([] @ bytes16 8 @ bytes16 0x2804) []"
    by (rule mk_skb_ok) (simp add: bytes16_def)
  then have v2: "skb_view (mk_skb 7 [] (bytes16 8 @ bytes16 0x2804) []) [] (bytes16 8 @ bytes16 0x2804 @ []) []" by simp
  have "skb_rd16 (mk_skb 7 [] (bytes16 8 @ bytes16 0x2804) []) 0 = Some 8"
    using view_rd16[OF v refl] by (simp add: bytes16_def)
  moreover have "skb_rd16 (mk_skb 7 [] (bytes16 8 @ bytes16 0x2804) []) 2 = Some 0x2804"
    using view_rd16[OF v2, of 2] by (simp add: bytes16_def)
  ultimately have "numbered_msg 1 (mk_skb 7 [] (bytes16 8 @ bytes16 0x2804) [])"
    by (simp add: numbered_msg_def rx_seq_of_def)
  then show ?thesis
    using sequence_gap_loses_messages[of "(demo_rx, demo_hw)" 0 1 "[mk_skb 7 [] (bytes16 8 @ bytes16 0x2804) []]" demo_env demo_kz]
    by (auto simp: demo_rx_def demo_hw_def mk_skb_ok)
qed

end
