(* ===== verification/Rx_Path.thy ===== *)
theory Rx_Path
  imports Sta_Info Agg_Rx Ieee80211_Data Wsm
begin

text \<open>The receive path of an 802.11 frame, hal_apollo/rx.c: the checks, the removal of what the
  encryption added, reordering, and the delivery to the network stack.

  struct ieee80211_rx_data is the record rx_data, passed from handler to handler.  rx_path is the
  state the handlers work on: the stations (Sta_State), the fields of struct atbm_vif they use, the
  frames given to the network stack, the addresses given to kfree_skb and the counters.  None is an access
  outside the storage of a buffer or through the NULL pointer rx->key.

  atbm_skb_linearize does nothing on this port and eth_type_trans is 0.  The memory, the tick
  counter and the start of a vtimer are arguments.\<close>

abbreviation (input) RX_FLAG_MMIC_ERROR :: u32 where "RX_FLAG_MMIC_ERROR \<equiv> 1"
abbreviation (input) RX_FLAG_DECRYPTED :: u32 where "RX_FLAG_DECRYPTED \<equiv> 2"
abbreviation (input) RX_FLAG_MMIC_STRIPPED :: u32 where "RX_FLAG_MMIC_STRIPPED \<equiv> 8"
abbreviation (input) RX_FLAG_IV_STRIPPED :: u32 where "RX_FLAG_IV_STRIPPED \<equiv> 0x10"
abbreviation (input) IEEE80211_RX_RA_MATCH :: u32 where "IEEE80211_RX_RA_MATCH \<equiv> 2"
abbreviation (input) IEEE80211_RX_AMSDU :: u32 where "IEEE80211_RX_AMSDU \<equiv> 8"
abbreviation (input) IEEE80211_RX_MALFORMED_ACTION_FRM :: u32 where "IEEE80211_RX_MALFORMED_ACTION_FRM \<equiv> 0x10"
abbreviation (input) IEEE80211_QOS_CTL_TID_MASK :: u8 where "IEEE80211_QOS_CTL_TID_MASK \<equiv> 0xf"
abbreviation (input) IEEE80211_QOS_CONTROL_A_MSDU_PRESENT :: u8 where "IEEE80211_QOS_CONTROL_A_MSDU_PRESENT \<equiv> 0x80"
abbreviation (input) WEP_IV_LEN :: nat where "WEP_IV_LEN \<equiv> 4"
abbreviation (input) WEP_ICV_LEN :: u32 where "WEP_ICV_LEN \<equiv> 4"
abbreviation (input) TKIP_IV_LEN :: nat where "TKIP_IV_LEN \<equiv> 8"
abbreviation (input) TKIP_ICV_LEN :: u32 where "TKIP_ICV_LEN \<equiv> 4"
abbreviation (input) CCMP_HDR_LEN :: nat where "CCMP_HDR_LEN \<equiv> 8"
abbreviation (input) CCMP_MIC_LEN :: u32 where "CCMP_MIC_LEN \<equiv> 8"
abbreviation (input) CCMP_PN_LEN :: nat where "CCMP_PN_LEN \<equiv> 6"
abbreviation (input) ATBM_MICHAEL_MIC_LEN :: u32 where "ATBM_MICHAEL_MIC_LEN \<equiv> 8"
abbreviation (input) sizeof_mmie :: u32 where "sizeof_mmie \<equiv> 18"
abbreviation (input) ATBM_WLAN_EID_MMIE :: u8 where "ATBM_WLAN_EID_MMIE \<equiv> 76"
abbreviation (input) WLAN_STA_AUTHORIZED :: u32 where "WLAN_STA_AUTHORIZED \<equiv> 3"
abbreviation (input) WLAN_ACTION_ADDBA_REQ :: u8 where "WLAN_ACTION_ADDBA_REQ \<equiv> 0"
abbreviation (input) WLAN_ACTION_ADDBA_RESP :: u8 where "WLAN_ACTION_ADDBA_RESP \<equiv> 1"
abbreviation (input) WLAN_ACTION_DELBA :: u8 where "WLAN_ACTION_DELBA \<equiv> 2"
abbreviation (input) IEEE80211_SDATA_QUEUE_TYPE_FRAME :: u8 where "IEEE80211_SDATA_QUEUE_TYPE_FRAME \<equiv> 0"
abbreviation (input) EACCES :: int where "EACCES \<equiv> 13"

datatype rx_result = RX_CONTINUE | RX_DROP_UNUSABLE | RX_DROP_MONITOR | RX_QUEUED

record rx_vif =
  vif_no :: nat
  vif_addr :: mac
  vif_iftype :: nl80211_iftype
  vif_enabled :: bool
  vif_connect_success :: bool
  vif_bssid :: mac
  vif_ssid :: bytes
  vif_ssid_len :: u8
  vif_ap_key :: ieee80211_key
  vif_group_key :: ieee80211_key
  vif_ap_enc :: bool
  ptk_pn :: bytes
  ptk_pn_init :: u8
  ptk_noqos_pn :: bytes
  ptk_noqos_pn_init :: u8
  gtk_pn :: bytes
  gtk_pn_init :: u8
  vif_skb_queue :: "sk_buff list"
  vif_works :: nat

record rx_path =
  rp_mac :: mac_state
  rp_vif :: rx_vif
  rp_delivered :: "bytes list"
  rp_freed :: "nat list"
  rp_allocs :: nat
  rp_packets :: u32
  rp_bytes :: u32
  rp_tx_packets :: u32
  rp_tx_bytes :: u32
  rp_timeout :: u32
  rp_short_tcp :: int

record rx_data =
  rx_skb :: sk_buff
  rx_sta :: "nat option"
  rx_key :: "ieee80211_key option"
  rx_seqno_idx :: nat

record rx_env =
  re_kz :: "nat \<Rightarrow> nat option"
  re_vstart :: vtimer_start
  re_jiffies :: u32

type_synonym rx_step = "(rx_result \<times> rx_data \<times> rx_path) option"

definition rx_status :: "rx_data \<Rightarrow> ieee80211_rx_status" where
  "rx_status rx = skb_cb (rx_skb rx)"

definition has_flag :: "u32 \<Rightarrow> u32 \<Rightarrow> bool" where
  "has_flag w f = (w AND f \<noteq> 0)"

definition upd_status :: "(ieee80211_rx_status \<Rightarrow> ieee80211_rx_status) \<Rightarrow> rx_data \<Rightarrow> rx_data" where
  "upd_status f rx = rx\<lparr>rx_skb := (rx_skb rx)\<lparr>skb_cb := f (rx_status rx)\<rparr>\<rparr>"

definition kfree_rx :: "sk_buff \<Rightarrow> rx_path \<Rightarrow> rx_path" where
  "kfree_rx skb s = s\<lparr>rp_freed := rp_freed s @ [skb_addr skb]\<rparr>"

definition upd_vif :: "(rx_vif \<Rightarrow> rx_vif) \<Rightarrow> rx_path \<Rightarrow> rx_path" where
  "upd_vif f s = s\<lparr>rp_vif := f (rp_vif s)\<rparr>"

text \<open>The destination, the transmitter and the receiver of a management header.\<close>

definition rx_addr1 :: "sk_buff \<Rightarrow> mac option" where "rx_addr1 skb = skb_rdn skb 4 ETH_ALEN"
definition rx_addr2 :: "sk_buff \<Rightarrow> mac option" where "rx_addr2 skb = skb_rdn skb 10 ETH_ALEN"

definition is_broadcast_ether_addr :: "mac \<Rightarrow> bool" where
  "is_broadcast_ether_addr addr =
     (addr ! 0 AND addr ! 1 AND addr ! 2 AND addr ! 3 AND addr ! 4 AND addr ! 5 = 0xff)"

subsection \<open>Preparation\<close>

definition ieee80211_parse_qos :: "rx_data \<Rightarrow> rx_data option" where
  "ieee80211_parse_qos rx = do {
     fc \<leftarrow> skb_fc (rx_skb rx);
     if ieee80211_is_data_qos fc then do {
       qc \<leftarrow> skb_rd8 (rx_skb rx) (ieee80211_get_qos_ctl fc);
       let tid = unat (qc AND IEEE80211_QOS_CTL_TID_MASK);
       let rx = (if qc AND IEEE80211_QOS_CONTROL_A_MSDU_PRESENT \<noteq> 0
         then upd_status (\<lambda>st. st\<lparr>rx_rx_flags := rx_rx_flags st OR IEEE80211_RX_AMSDU\<rparr>) rx else rx);
       Some (rx\<lparr>rx_seqno_idx := tid,
                rx_skb := (rx_skb rx)\<lparr>skb_priority := (if tid > 7 then 0 else of_nat tid)\<rparr>\<rparr>) }
     else Some (rx\<lparr>rx_seqno_idx := NUM_RX_DATA_QUEUES, rx_skb := (rx_skb rx)\<lparr>skb_priority := 0\<rparr>\<rparr>) }"

text \<open>The part behind the test for retransmissions.\<close>

definition rx_h_check_frame :: "rx_data \<Rightarrow> rx_path \<Rightarrow> rx_step" where
  "rx_h_check_frame rx s = do {
     fc \<leftarrow> skb_fc (rx_skb rx);
     if skb_len (rx_skb rx) < 16 then Some (RX_DROP_MONITOR, rx, s)
     else if ieee80211_is_data fc \<or> ieee80211_is_pspoll fc then
       (case rx_sta rx of
          None \<Rightarrow> Some (RX_DROP_MONITOR, rx, s)
        | Some sta \<Rightarrow> do {
            assoc \<leftarrow> test_sta_flag sta WLAN_STA_ASSOC (rp_mac s);
            Some (if assoc then RX_CONTINUE else RX_DROP_MONITOR, rx, s) })
     else Some (RX_CONTINUE, rx, s) }"

definition ieee80211_rx_h_check :: "rx_data \<Rightarrow> rx_path \<Rightarrow> rx_step" where
  "ieee80211_rx_h_check rx s =
     (case rx_sta rx of
        None \<Rightarrow> rx_h_check_frame rx s
      | Some sta \<Rightarrow> do {
          a1 \<leftarrow> rx_addr1 (rx_skb rx);
          if is_multicast_ether_addr a1 then rx_h_check_frame rx s
          else do {
            fc \<leftarrow> skb_fc (rx_skb rx);
            seq_ctrl \<leftarrow> skb_rd16 (rx_skb rx) 22;
            let last_seq = last_seq_ctrl (sta_heap (rp_mac s) sta);
            guard (rx_seqno_idx rx < length last_seq);
            if ieee80211_has_retry fc \<and> last_seq ! rx_seqno_idx rx = seq_ctrl
            then Some (RX_DROP_UNUSABLE, rx, s)
            else rx_h_check_frame rx
              (s\<lparr>rp_mac := upd_sta sta (\<lambda>x. x\<lparr>last_seq_ctrl := last_seq[rx_seqno_idx rx := seq_ctrl]\<rparr>)
                 (rp_mac s)\<rparr>) } })"

subsection \<open>Decryption\<close>

text \<open>The header moves n bytes up and data follows it; memmove then skb_pull.\<close>

definition move_header :: "sk_buff \<Rightarrow> nat \<Rightarrow> nat \<Rightarrow> sk_buff option" where
  "move_header skb hdrlen n = do {
     hdr \<leftarrow> skb_rdn skb 0 hdrlen;
     skb \<leftarrow> skb_wrn skb (int n) hdr;
     Some (skb_pull skb n) }"

text \<open>skb->len - n as the unsigned argument of atbm_skb_trim.\<close>

definition trim_tail :: "sk_buff \<Rightarrow> u32 \<Rightarrow> sk_buff" where
  "trim_tail skb n = skb_trim skb (unat (ucast (skb_len skb) - n))"

definition ieee80211_crypto_wep_decrypt :: "rx_data \<Rightarrow> (rx_result \<times> rx_data) option" where
  "ieee80211_crypto_wep_decrypt rx = do {
     fc \<leftarrow> skb_fc (rx_skb rx);
     if \<not> ieee80211_is_data fc \<and> \<not> ieee80211_is_auth fc then Some (RX_CONTINUE, rx)
     else if \<not> has_flag (rx_flag (rx_status rx)) RX_FLAG_DECRYPTED then Some (RX_DROP_UNUSABLE, rx)
     else if has_flag (rx_flag (rx_status rx)) RX_FLAG_IV_STRIPPED then Some (RX_CONTINUE, rx)
     else do {
       skb \<leftarrow> move_header (rx_skb rx) (unat (ieee80211_hdrlen fc)) WEP_IV_LEN;
       Some (RX_CONTINUE, rx\<lparr>rx_skb := trim_tail skb WEP_ICV_LEN\<rparr>) } }"

definition ieee80211_crypto_tkip_decrypt :: "rx_data \<Rightarrow> (rx_result \<times> rx_data) option" where
  "ieee80211_crypto_tkip_decrypt rx = do {
     fc \<leftarrow> skb_fc (rx_skb rx);
     let hdrlen = unat (ieee80211_hdrlen fc);
     if \<not> ieee80211_is_data fc then Some (RX_CONTINUE, rx)
     else if rx_sta rx = None \<or> int (unat (skb_len (rx_skb rx))) - int hdrlen < 12
     then Some (RX_DROP_UNUSABLE, rx)
     else do {
       skb \<leftarrow> move_header (trim_tail (rx_skb rx) TKIP_ICV_LEN) hdrlen TKIP_IV_LEN;
       Some (RX_CONTINUE, rx\<lparr>rx_skb := skb\<rparr>) } }"

definition ieee80211_crypto_ccmp_decrypt :: "rx_data \<Rightarrow> (rx_result \<times> rx_data) option" where
  "ieee80211_crypto_ccmp_decrypt rx = do {
     fc \<leftarrow> skb_fc (rx_skb rx);
     let hdrlen = unat (ieee80211_hdrlen fc);
     robust \<leftarrow> (if ieee80211_is_data fc then Some True
                else ieee80211_is_robust_mgmt_frame (skb_mem (rx_skb rx)) (skb_data (rx_skb rx)));
     if \<not> robust then Some (RX_CONTINUE, rx)
     else if rx_sta rx = None \<or> int (unat (skb_len (rx_skb rx))) - int hdrlen - 8 - 8 < 0
     then Some (RX_DROP_UNUSABLE, rx)
     else do {
       skb \<leftarrow> move_header (trim_tail (rx_skb rx) CCMP_MIC_LEN) hdrlen CCMP_HDR_LEN;
       Some (RX_CONTINUE, rx\<lparr>rx_skb := skb\<rparr>) } }"

definition ieee80211_crypto_aes_cmac_decrypt :: "rx_data \<Rightarrow> (rx_result \<times> rx_data) option" where
  "ieee80211_crypto_aes_cmac_decrypt rx = do {
     let skb = rx_skb rx;
     fc \<leftarrow> skb_fc skb;
     if \<not> ieee80211_is_mgmt fc then Some (RX_CONTINUE, rx)
     else if ucast (skb_len skb) < 24 + sizeof_mmie then Some (RX_DROP_UNUSABLE, rx)
     else do {
       let mmie = int (unat (skb_len skb)) - 18;
       element_id \<leftarrow> skb_rd8 skb mmie;
       len \<leftarrow> skb_rd8 skb (mmie + 1);
       if element_id \<noteq> ATBM_WLAN_EID_MMIE \<or> len \<noteq> 18 - 2 then Some (RX_DROP_UNUSABLE, rx)
       else Some (RX_CONTINUE, rx\<lparr>rx_skb := trim_tail skb sizeof_mmie\<rparr>) } }"

subsection \<open>Replay detection\<close>

definition ccmp_tkip_hdr2pn :: "bytes \<Rightarrow> bool \<Rightarrow> bytes" where
  "ccmp_tkip_hdr2pn hdr is_ccmp =
     [hdr ! 7, hdr ! 6, hdr ! 5, hdr ! 4] @ (if is_ccmp then [hdr ! 1, hdr ! 0] else [hdr ! 0, hdr ! 2])"

fun memcmp :: "bytes \<Rightarrow> bytes \<Rightarrow> int" where
  "memcmp (x # xs) (y # ys) = (if x < y then -1 else if y < x then 1 else memcmp xs ys)"
| "memcmp _ _ = 0"

text \<open>The loop over the bytes of a larger packet number: False when it returns without an update.\<close>

fun pn_step_loop :: "nat \<Rightarrow> nat \<Rightarrow> bytes \<Rightarrow> bytes \<Rightarrow> bool" where
  "pn_step_loop 0 i pn old = True"
| "pn_step_loop (Suc n) i pn old =
     (if pn ! i > old ! i then
        (if i \<ge> CCMP_PN_LEN - 2 then True
         else if uint (pn ! i) \<noteq> uint (old ! i) + 1 \<or> old ! (i + 1) \<noteq> 0xff \<or> pn ! (i + 1) \<noteq> 0 then False
         else pn_step_loop n (i + 1) pn old)
      else pn_step_loop n (i + 1) pn old)"

text \<open>The answer for a packet number: the result, the stored number and the flag of the first frame.\<close>

definition check_pn :: "bytes \<Rightarrow> bytes \<Rightarrow> u8 \<Rightarrow> int \<times> bytes \<times> u8" where
  "check_pn pn old first =
     (if first = 0 then
        (if memcmp pn old \<le> 0 then (-1, old, first)
         else if pn_step_loop CCMP_PN_LEN 0 pn old then (0, pn, first)
         else (0, old, first))
      else (0, pn, 0))"

definition ccmp_tkip_replaycnt :: "sk_buff \<Rightarrow> bool \<Rightarrow> rx_path \<Rightarrow> (int \<times> rx_path) option" where
  "ccmp_tkip_replaycnt skb is_ccmp s = do {
     fc \<leftarrow> skb_fc skb;
     let v = rp_vif s;
     if vif_iftype v \<noteq> NL80211_IFTYPE_STATION then Some (0, s)
     else do {
       hdr \<leftarrow> skb_rdn skb (int (unat (ieee80211_hdrlen fc))) 8;
       da \<leftarrow> rx_addr1 skb;
       let pn = ccmp_tkip_hdr2pn hdr is_ccmp;
       if \<not> is_multicast_ether_addr da then
         if ieee80211_is_data_qos fc then
           (case check_pn pn (ptk_pn v) (ptk_pn_init v) of (r, old, first) \<Rightarrow>
              Some (r, upd_vif (\<lambda>v. v\<lparr>ptk_pn := old, ptk_pn_init := first\<rparr>) s))
         else
           (case check_pn pn (ptk_noqos_pn v) (ptk_noqos_pn_init v) of (r, old, first) \<Rightarrow>
              Some (r, upd_vif (\<lambda>v. v\<lparr>ptk_noqos_pn := old, ptk_noqos_pn_init := first\<rparr>) s))
       else
         (case check_pn pn (gtk_pn v) (gtk_pn_init v) of (r, old, first) \<Rightarrow>
            Some (r, upd_vif (\<lambda>v. v\<lparr>gtk_pn := old, gtk_pn_init := first\<rparr>) s)) } }"

text \<open>The switch on the type of the key; behind it the frame counts as decrypted.\<close>

definition run_decrypt :: "(rx_data \<Rightarrow> (rx_result \<times> rx_data) option) \<Rightarrow> rx_data \<Rightarrow> rx_path \<Rightarrow> rx_step" where
  "run_decrypt f rx s = do {
     (res, rx) \<leftarrow> f rx;
     Some (res, upd_status (\<lambda>st. st\<lparr>rx_flag := rx_flag st OR RX_FLAG_DECRYPTED\<rparr>) rx, s) }"

definition replay_decrypt :: "bool \<Rightarrow> (rx_data \<Rightarrow> (rx_result \<times> rx_data) option) \<Rightarrow> rx_data \<Rightarrow> rx_path \<Rightarrow> rx_step" where
  "replay_decrypt is_ccmp f rx s = do {
     (r, s) \<leftarrow> ccmp_tkip_replaycnt (rx_skb rx) is_ccmp s;
     if r \<noteq> 0 then Some (RX_DROP_UNUSABLE, rx, s) else run_decrypt f rx s }"

definition rx_h_decrypt_key :: "rx_data \<Rightarrow> u32 \<Rightarrow> rx_path \<Rightarrow> rx_step" where
  "rx_h_decrypt_key rx enc s =
     (if enc = IEEE80211_ENC_WEP then run_decrypt ieee80211_crypto_wep_decrypt rx s
      else if enc = IEEE80211_ENC_TKIP then replay_decrypt False ieee80211_crypto_tkip_decrypt rx s
      else if enc = IEEE80211_ENC_AES then replay_decrypt True ieee80211_crypto_ccmp_decrypt rx s
      else if enc = IEEE80211_ENC_AES_CMAC then run_decrypt ieee80211_crypto_aes_cmac_decrypt rx s
      else Some (RX_DROP_UNUSABLE, rx, s))"

definition ieee80211_rx_h_decrypt :: "rx_data \<Rightarrow> rx_path \<Rightarrow> rx_step" where
  "ieee80211_rx_h_decrypt rx s = do {
     let rx = rx\<lparr>rx_key := None\<rparr>;
     if \<not> has_flag (rx_rx_flags (rx_status rx)) IEEE80211_RX_RA_MATCH then Some (RX_CONTINUE, rx, s)
     else (case rx_sta rx of
        None \<Rightarrow> Some (RX_CONTINUE, rx, s)
      | Some sta \<Rightarrow>
          (let x = sta_heap (rp_mac s) sta in
           if \<not> sta_enc x then Some (RX_CONTINUE, rx, s)
           else if \<not> has_flag (rx_flag (rx_status rx)) RX_FLAG_DECRYPTED then Some (RX_CONTINUE, rx, s)
           else if has_flag (rx_flag (rx_status rx)) RX_FLAG_IV_STRIPPED then Some (RX_CONTINUE, rx, s)
           else do {
             a1 \<leftarrow> rx_addr1 (rx_skb rx);
             let key = (if is_multicast_ether_addr a1 then vif_group_key (rp_vif s) else sta_cipher x);
             rx_h_decrypt_key (rx\<lparr>rx_key := Some key\<rparr>) (key_type key) s })) }"

subsection \<open>The other handlers\<close>

definition ieee80211_rx_h_sta_process :: "rx_data \<Rightarrow> rx_path \<Rightarrow> rx_step" where
  "ieee80211_rx_h_sta_process rx s =
     (if rx_sta rx = None then Some (RX_CONTINUE, rx, s)
      else if \<not> has_flag (rx_rx_flags (rx_status rx)) IEEE80211_RX_RA_MATCH then Some (RX_CONTINUE, rx, s)
      else do {
        fc \<leftarrow> skb_fc (rx_skb rx);
        if ieee80211_is_nullfunc fc \<or> ieee80211_is_qos_nullfunc fc
        then Some (RX_QUEUED, rx, kfree_rx (rx_skb rx) s)
        else Some (RX_CONTINUE, rx, s) })"

definition ieee80211_rx_h_michael_mic_verify :: "rx_data \<Rightarrow> rx_path \<Rightarrow> rx_step" where
  "ieee80211_rx_h_michael_mic_verify rx s =
     (let flag = rx_flag (rx_status rx) in
      case rx_key rx of
        None \<Rightarrow> Some (RX_CONTINUE, rx, s)
      | Some key \<Rightarrow>
          if rx_sta rx = None then Some (RX_CONTINUE, rx, s)
          else if \<not> has_flag flag RX_FLAG_DECRYPTED then Some (RX_CONTINUE, rx, s)
          else if key_type key \<noteq> IEEE80211_ENC_TKIP then Some (RX_CONTINUE, rx, s)
          else do {
            fc \<leftarrow> skb_fc (rx_skb rx);
            if \<not> ieee80211_is_data_present fc then Some (RX_CONTINUE, rx, s)
            else if has_flag flag (RX_FLAG_MMIC_STRIPPED OR RX_FLAG_IV_STRIPPED) then Some (RX_DROP_UNUSABLE, rx, s)
            else if has_flag flag RX_FLAG_MMIC_ERROR then Some (RX_DROP_UNUSABLE, rx, s)
            else if ucast (skb_len (rx_skb rx)) < ieee80211_hdrlen fc + ATBM_MICHAEL_MIC_LEN
            then Some (RX_DROP_UNUSABLE, rx, s)
            else Some (RX_CONTINUE, rx\<lparr>rx_skb := trim_tail (rx_skb rx) ATBM_MICHAEL_MIC_LEN\<rparr>, s) })"

definition ieee80211_rx_h_remove_qos_control :: "rx_data \<Rightarrow> rx_path \<Rightarrow> rx_step" where
  "ieee80211_rx_h_remove_qos_control rx s = do {
     fc \<leftarrow> skb_fc (rx_skb rx);
     if \<not> ieee80211_is_data_qos fc then Some (RX_CONTINUE, rx, s)
     else do {
       skb \<leftarrow> move_header (rx_skb rx) (unat (ieee80211_hdrlen fc - IEEE80211_QOS_CTL_LEN)) (unat IEEE80211_QOS_CTL_LEN);
       fc \<leftarrow> skb_fc skb;
       skb \<leftarrow> skb_wrn skb 0 (bytes16 (fc AND NOT IEEE80211_STYPE_QOS_DATA));
       Some (RX_CONTINUE, rx\<lparr>rx_skb := skb\<rparr>, s) } }"

definition ieee80211_802_1x_port_control :: "rx_data \<Rightarrow> rx_path \<Rightarrow> int option" where
  "ieee80211_802_1x_port_control rx s = (case rx_sta rx of
      None \<Rightarrow> Some (- EACCES)
    | Some sta \<Rightarrow> do {
        auth \<leftarrow> test_sta_flag sta WLAN_STA_AUTHORIZED (rp_mac s);
        Some (if auth then 0 else - EACCES) })"

definition ieee80211_drop_unencrypted :: "rx_data \<Rightarrow> u16 \<Rightarrow> rx_path \<Rightarrow> int option" where
  "ieee80211_drop_unencrypted rx fc s =
     (if has_flag (rx_flag (rx_status rx)) RX_FLAG_DECRYPTED then Some 0
      else if \<not> ieee80211_has_protected fc \<and> \<not> ieee80211_is_nullfunc fc \<and> ieee80211_is_data fc then do {
        sta \<leftarrow> rx_sta rx;
        Some (if sta_enc (sta_heap (rp_mac s) sta) then - EACCES else 0) }
      else Some 0)"

definition ieee80211_frame_allowed :: "rx_data \<Rightarrow> u16 \<Rightarrow> rx_path \<Rightarrow> bool option" where
  "ieee80211_frame_allowed rx fc s = do {
     r \<leftarrow> ieee80211_802_1x_port_control rx s;
     if r \<noteq> 0 then Some False
     else do { r \<leftarrow> ieee80211_drop_unencrypted rx fc s; Some (r = 0) } }"

text \<open>netif_rx gives the bytes of the frame to the network stack, which copies them, and frees the
  buffer.\<close>

definition netif_rx :: "sk_buff \<Rightarrow> rx_path \<Rightarrow> rx_path option" where
  "netif_rx skb s = do {
     bs \<leftarrow> skb_payload skb;
     Some (kfree_rx skb (s\<lparr>rp_delivered := rp_delivered s @ [bs]\<rparr>)) }"

text \<open>The test of the access point's encryption that both ways of delivery make.\<close>

definition ap_refuses :: "rx_data \<Rightarrow> rx_path \<Rightarrow> bool" where
  "ap_refuses rx s \<longleftrightarrow> vif_iftype (rp_vif s) = NL80211_IFTYPE_STATION \<and>
     \<not> has_flag (rx_flag (rx_status rx)) RX_FLAG_DECRYPTED \<and> vif_ap_enc (rp_vif s)"

definition ieee80211_deliver_skb :: "rx_data \<Rightarrow> rx_path \<Rightarrow> rx_path option" where
  "ieee80211_deliver_skb rx s =
     (if ap_refuses rx s then Some (kfree_rx (rx_skb rx) s)
      else netif_rx ((rx_skb rx)\<lparr>skb_protocol := 0, skb_cb := zero_cb\<rparr>) s)"

primrec deliver_frames :: "sk_buff list \<Rightarrow> rx_path \<Rightarrow> rx_path option" where
  "deliver_frames [] s = Some s"
| "deliver_frames (f # fs) s = do {
     s \<leftarrow> netif_rx (f\<lparr>skb_protocol := 0, skb_cb := zero_cb\<rparr>) s;
     deliver_frames fs s }"

text \<open>The result is the error; on success every subframe has been given to the network stack, the
  last of them in the buffer of the aggregate itself.\<close>

definition ieee80211_rx_h_amsdu :: "rx_env \<Rightarrow> rx_data \<Rightarrow> rx_path \<Rightarrow> (rx_result \<times> rx_data \<times> rx_path) option" where
  "ieee80211_rx_h_amsdu env rx s = do {
     fc \<leftarrow> skb_fc (rx_skb rx);
     if \<not> ieee80211_is_data_present fc then Some (RX_DROP_MONITOR, rx, s)
     else do {
       a1 \<leftarrow> rx_addr1 (rx_skb rx);
       if is_multicast_ether_addr a1 then Some (RX_DROP_UNUSABLE, rx, s)
       else do {
         refused \<leftarrow> (if has_flag (rx_flag (rx_status rx)) RX_FLAG_DECRYPTED then do {
             key \<leftarrow> rx_key rx;
             Some (key_type key = IEEE80211_ENC_WEP \<or> key_type key = IEEE80211_ENC_TKIP) } else Some False);
         if refused then Some (RX_DROP_UNUSABLE, rx, s)
         else if ap_refuses rx s then Some (RX_DROP_UNUSABLE, rx, s)
         else do {
           (err, fs, fr, skb, k) \<leftarrow> atbm_ieee80211_amsdu_to_8023s (\<lambda>k. re_kz env (rp_allocs s + k)) (rx_skb rx) []
              (vif_addr (rp_vif s)) (vif_iftype (rp_vif s)) 0 True;
           let s = s\<lparr>rp_allocs := rp_allocs s + k, rp_freed := rp_freed s @ fr\<rparr>;
           if err \<noteq> 0 then Some (RX_DROP_UNUSABLE, rx\<lparr>rx_skb := skb\<rparr>, s)
           else do {
             s \<leftarrow> deliver_frames fs s;
             Some (RX_CONTINUE, rx\<lparr>rx_skb := skb\<rparr>, s) } } } } }"

definition ieee80211_rx_h_data :: "rx_env \<Rightarrow> rx_data \<Rightarrow> rx_path \<Rightarrow> rx_step" where
  "ieee80211_rx_h_data env rx s = do {
     fc \<leftarrow> skb_fc (rx_skb rx);
     if \<not> ieee80211_is_data fc then Some (RX_CONTINUE, rx, s)
     else if \<not> ieee80211_is_data_present fc then Some (RX_DROP_MONITOR, rx, s)
     else if has_flag (rx_rx_flags (rx_status rx)) IEEE80211_RX_AMSDU then do {
       (err, rx', s) \<leftarrow> ieee80211_rx_h_amsdu env rx s;
       if err \<noteq> RX_CONTINUE then Some (RX_DROP_UNUSABLE, rx', s)
       else Some (RX_QUEUED, rx', kfree_rx (rx_skb rx) s) }
     else do {
       (err, skb) \<leftarrow> ieee80211_data_to_8023 (rx_skb rx) (vif_addr (rp_vif s)) (vif_iftype (rp_vif s));
       let rx = rx\<lparr>rx_skb := skb\<rparr>;
       if err < 0 then Some (RX_DROP_UNUSABLE, rx, s)
       else do {
         allowed \<leftarrow> ieee80211_frame_allowed rx fc s;
         if \<not> allowed then Some (RX_DROP_MONITOR, rx, s)
         else do {
           s \<leftarrow> ieee80211_deliver_skb rx
             (s\<lparr>rp_packets := rp_packets s + 1, rp_bytes := rp_bytes s + ucast (skb_len skb)\<rparr>);
           Some (RX_QUEUED, rx, s) } } } }"

text \<open>A management frame is queued for the work of the interface.\<close>

definition queue_frame :: "rx_data \<Rightarrow> rx_path \<Rightarrow> rx_result \<times> rx_data \<times> rx_path" where
  "queue_frame rx s =
     (let skb = (rx_skb rx)\<lparr>skb_pkt_type := IEEE80211_SDATA_QUEUE_TYPE_FRAME\<rparr> in
      (RX_QUEUED, rx\<lparr>rx_skb := skb\<rparr>,
       upd_vif (\<lambda>v. v\<lparr>vif_skb_queue := vif_skb_queue v @ [skb], vif_works := vif_works v + 1\<rparr>) s))"

text \<open>The length an action frame of the block-ack category needs for its action code; other codes are
  malformed.\<close>

definition back_action_size :: "u8 \<Rightarrow> u32 option" where
  "back_action_size code =
     (if code = WLAN_ACTION_ADDBA_REQ then Some (IEEE80211_MIN_ACTION_SIZE + 8)
      else if code = WLAN_ACTION_ADDBA_RESP then Some (IEEE80211_MIN_ACTION_SIZE + 8)
      else if code = WLAN_ACTION_DELBA then Some (IEEE80211_MIN_ACTION_SIZE + 5)
      else None)"

definition ieee80211_rx_h_action :: "rx_data \<Rightarrow> rx_path \<Rightarrow> rx_step" where
  "ieee80211_rx_h_action rx s = do {
     let len = (ucast (skb_len (rx_skb rx)) :: u32);
     let iftype = vif_iftype (rp_vif s);
     fc \<leftarrow> skb_fc (rx_skb rx);
     if \<not> ieee80211_is_action fc then Some (RX_CONTINUE, rx, s)
     else if len < IEEE80211_MIN_ACTION_SIZE then Some (RX_DROP_UNUSABLE, rx, s)
     else do {
       category \<leftarrow> skb_rd8 (rx_skb rx) MGMT_CATEGORY;
       if rx_sta rx = None \<and> category \<noteq> WLAN_CATEGORY_PUBLIC then Some (RX_DROP_UNUSABLE, rx, s)
       else if \<not> has_flag (rx_rx_flags (rx_status rx)) IEEE80211_RX_RA_MATCH then Some (RX_DROP_UNUSABLE, rx, s)
       else if category \<noteq> WLAN_CATEGORY_BACK then Some (RX_QUEUED, rx, kfree_rx (rx_skb rx) s)
       else if iftype \<noteq> NL80211_IFTYPE_STATION \<and> iftype \<noteq> NL80211_IFTYPE_AP_VLAN \<and> iftype \<noteq> NL80211_IFTYPE_AP
       then Some (RX_CONTINUE, rx, s)
       else if len < IEEE80211_MIN_ACTION_SIZE + 1 then Some (RX_CONTINUE, rx, s)
       else do {
         action_code \<leftarrow> skb_rd8 (rx_skb rx) MGMT_ACTION_CODE;
         let malformed = upd_status (\<lambda>st. st\<lparr>rx_rx_flags := rx_rx_flags st OR IEEE80211_RX_MALFORMED_ACTION_FRM\<rparr>) rx;
         (case back_action_size action_code of
            None \<Rightarrow> Some (RX_CONTINUE, malformed, s)
          | Some n \<Rightarrow> if len < n then Some (RX_CONTINUE, malformed, s) else Some (queue_frame rx s)) } } }"

definition ieee80211_rx_h_mgmt :: "rx_data \<Rightarrow> rx_path \<Rightarrow> rx_step" where
  "ieee80211_rx_h_mgmt rx s = do {
     fc \<leftarrow> skb_fc (rx_skb rx);
     let stype = fc AND IEEE80211_FCTL_STYPE;
     if stype = IEEE80211_STYPE_BEACON \<or> stype = IEEE80211_STYPE_PROBE_RESP then Some (queue_frame rx s)
     else if stype = IEEE80211_STYPE_DEAUTH \<or> stype = IEEE80211_STYPE_DISASSOC then do {
       da \<leftarrow> rx_addr1 (rx_skb rx);
       if is_multicast_ether_addr da \<and> \<not> is_broadcast_ether_addr da then Some (RX_DROP_MONITOR, rx, s)
       else if vif_iftype (rp_vif s) \<noteq> NL80211_IFTYPE_STATION then Some (RX_DROP_MONITOR, rx, s)
       else Some (queue_frame rx s) }
     else if stype = IEEE80211_STYPE_PROBE_REQ \<or> stype = IEEE80211_STYPE_AUTH \<or> stype = IEEE80211_STYPE_ASSOC_RESP
     then Some (queue_frame rx s)
     else Some (RX_DROP_MONITOR, rx, s) }"

subsection \<open>The chain of handlers\<close>

text \<open>CALL_RXH: the handlers run until one of them does not continue.\<close>

primrec call_rxh :: "(rx_data \<Rightarrow> rx_path \<Rightarrow> rx_step) list \<Rightarrow> rx_data \<Rightarrow> rx_path \<Rightarrow> rx_step" where
  "call_rxh [] rx s = Some (RX_CONTINUE, rx, s)"
| "call_rxh (h # hs) rx s = do {
     (res, rx, s) \<leftarrow> h rx s;
     if res \<noteq> RX_CONTINUE then Some (res, rx, s) else call_rxh hs rx s }"

definition ieee80211_rx_handlers_result :: "rx_data \<Rightarrow> rx_result \<Rightarrow> rx_path \<Rightarrow> rx_path option" where
  "ieee80211_rx_handlers_result rx res s =
     (if res = RX_QUEUED then Some s
      else do { fc \<leftarrow> skb_fc (rx_skb rx); Some (kfree_rx (rx_skb rx) s) })"

definition rx_handler_list :: "rx_env \<Rightarrow> (rx_data \<Rightarrow> rx_path \<Rightarrow> rx_step) list" where
  "rx_handler_list env = [ieee80211_rx_h_decrypt, ieee80211_rx_h_sta_process, ieee80211_rx_h_michael_mic_verify,
     ieee80211_rx_h_remove_qos_control, ieee80211_rx_h_data env, ieee80211_rx_h_action, ieee80211_rx_h_mgmt]"

text \<open>The loop over the released frames; rx keeps its other fields from frame to frame.\<close>

primrec ieee80211_rx_handlers :: "rx_env \<Rightarrow> rx_data \<Rightarrow> sk_buff list \<Rightarrow> rx_path \<Rightarrow> rx_path option" where
  "ieee80211_rx_handlers env rx [] s = Some s"
| "ieee80211_rx_handlers env rx (skb # skbs) s = do {
     (res, rx, s) \<leftarrow> call_rxh (rx_handler_list env) (rx\<lparr>rx_skb := skb\<rparr>) s;
     s \<leftarrow> ieee80211_rx_handlers_result rx res s;
     ieee80211_rx_handlers env rx skbs s }"

subsection \<open>Reordering\<close>

text \<open>The session of a station for a TID as the state of Reorder, and back: what the reorder buffer
  freed and the calls of its timers.\<close>

definition session_state :: "rx_path \<Rightarrow> nat \<Rightarrow> nat \<Rightarrow> reorder_state option" where
  "session_state s sta tid =
     (let m = mlme_tid_rx (sta_heap (rp_mac s) sta) in
      if tid < length m then
        map_option (\<lambda>a. \<lparr>tid_rx = agg_rx a, frames = [], freed = [], timers = [],
          HT_RX_REORDER_BUF_TIMEOUT = rp_timeout s, Sta_shortTcp_RxCnt = rp_short_tcp s\<rparr>) (m ! tid)
      else None)"

primrec apply_timer_calls :: "rx_env \<Rightarrow> rx_session \<Rightarrow> timer_call list \<Rightarrow> mac_state \<Rightarrow> mac_state option" where
  "apply_timer_calls env a [] m = Some m"
| "apply_timer_calls env a (c # cs) m = do {
     m \<leftarrow> apply_timer_call (re_vstart env) (re_jiffies env) (re_jiffies env) a c m;
     apply_timer_calls env a cs m }"

definition store_session :: "rx_env \<Rightarrow> nat \<Rightarrow> nat \<Rightarrow> reorder_state \<Rightarrow> rx_path \<Rightarrow> rx_path option" where
  "store_session env sta tid r s = do {
     a \<leftarrow> mlme_tid_rx (sta_heap (rp_mac s) sta) ! tid;
     let m = upd_sta sta (\<lambda>x. x\<lparr>mlme_tid_rx := (mlme_tid_rx x)[tid := Some (a\<lparr>agg_rx := tid_rx r\<rparr>)]\<rparr>) (rp_mac s);
     m \<leftarrow> apply_timer_calls env a (timers r) m;
     Some (s\<lparr>rp_mac := m, rp_freed := rp_freed s @ map skb_addr (reorder_state.freed r),
             rp_timeout := HT_RX_REORDER_BUF_TIMEOUT r, rp_short_tcp := Sta_shortTcp_RxCnt r\<rparr>) }"

definition rx_reorder :: "rx_env \<Rightarrow> rx_data \<Rightarrow> rx_path \<Rightarrow> (sk_buff list \<times> rx_path) option" where
  "rx_reorder env rx s = do {
     (sess, skbs) \<leftarrow> ieee80211_rx_reorder_ampdu (re_jiffies env) (rx_skb rx)
        (map_option (session_state s) (rx_sta rx)) [];
     s \<leftarrow> (case rx_sta rx of
        None \<Rightarrow> Some s
      | Some sta \<Rightarrow> (case (case sess of None \<Rightarrow> None | Some f \<Rightarrow> f (rx_seqno_idx rx)) of
            None \<Rightarrow> Some s
          | Some r \<Rightarrow> store_session env sta (rx_seqno_idx rx) r s));
     Some (skbs, s) }"

definition ieee80211_invoke_rx_handlers :: "rx_env \<Rightarrow> rx_data \<Rightarrow> rx_path \<Rightarrow> rx_path option" where
  "ieee80211_invoke_rx_handlers env rx s = do {
     (res, rx, s) \<leftarrow> ieee80211_rx_h_check rx s;
     if res \<noteq> RX_CONTINUE then ieee80211_rx_handlers_result rx res s
     else do {
       (skbs, s) \<leftarrow> rx_reorder env rx s;
       ieee80211_rx_handlers env rx skbs s } }"

text \<open>The reorder timer of a session: what it releases goes through the same handlers.\<close>

definition release_reorder_timeout :: "rx_env \<Rightarrow> sk_buff \<Rightarrow> nat \<Rightarrow> nat \<Rightarrow> rx_path \<Rightarrow> rx_path option" where
  "release_reorder_timeout env nullskb sta tid s = do {
     (released, m) \<leftarrow> ieee80211_release_reorder_timeout (re_vstart env) (re_jiffies env, re_jiffies env, re_jiffies env)
        (rp_timeout s) sta tid (rp_mac s);
     ieee80211_rx_handlers env \<lparr>rx_skb = nullskb, rx_sta = Some sta, rx_key = None, rx_seqno_idx = tid\<rparr>
       released (s\<lparr>rp_mac := m\<rparr>) }"

subsection \<open>Entry\<close>

text \<open>util.c: the position of the BSSID in the header.\<close>

definition ieee80211_get_bssid :: "sk_buff \<Rightarrow> nl80211_iftype \<Rightarrow> int option option" where
  "ieee80211_get_bssid skb iftype = do {
     fc \<leftarrow> skb_fc skb;
     let len = skb_len skb;
     Some (if len < 16 then None
       else if ieee80211_is_data fc then
         (if len < 24 then None
          else if ieee80211_has_a4 fc then None
          else if ieee80211_has_tods fc then Some 4
          else if ieee80211_has_fromds fc then Some 10
          else Some 16)
       else if ieee80211_is_mgmt fc then (if len < 24 then None else Some 16)
       else if ieee80211_is_ctl fc then
         (if ieee80211_is_pspoll fc then Some 4
          else if ieee80211_is_back_req fc then
            (if iftype = NL80211_IFTYPE_STATION then Some 10
             else if iftype = NL80211_IFTYPE_AP \<or> iftype = NL80211_IFTYPE_AP_VLAN then Some 4
             else None)
          else None)
       else None) }"

definition prepare_for_handlers :: "rx_data \<Rightarrow> rx_path \<Rightarrow> (bool \<times> rx_data) option" where
  "prepare_for_handlers rx s = do {
     let iftype = vif_iftype (rp_vif s);
     bssid \<leftarrow> ieee80211_get_bssid (rx_skb rx) iftype;
     a1 \<leftarrow> rx_addr1 (rx_skb rx);
     if iftype = NL80211_IFTYPE_STATION then
       if bssid = None then Some (False, rx)
       else if \<not> is_multicast_ether_addr a1 \<and> compare_ether_addr (vif_addr (rp_vif s)) a1 \<noteq> 0
       then Some (True, upd_status (\<lambda>st. st\<lparr>rx_rx_flags := rx_rx_flags st AND NOT IEEE80211_RX_RA_MATCH\<rparr>) rx)
       else Some (True, rx)
     else if iftype = NL80211_IFTYPE_AP_VLAN \<or> iftype = NL80211_IFTYPE_AP then Some (True, rx)
     else Some (False, rx) }"

definition ieee80211_prepare_and_rx_handle ::
    "rx_env \<Rightarrow> rx_data \<Rightarrow> sk_buff \<Rightarrow> bool \<Rightarrow> rx_path \<Rightarrow> (bool \<times> rx_data \<times> rx_path) option" where
  "ieee80211_prepare_and_rx_handle env rx skb consume s = do {
     let rx = upd_status (\<lambda>st. st\<lparr>rx_rx_flags := rx_rx_flags st OR IEEE80211_RX_RA_MATCH\<rparr>) (rx\<lparr>rx_skb := skb\<rparr>);
     (prepares, rx) \<leftarrow> prepare_for_handlers rx s;
     if \<not> prepares then Some (False, rx, s)
     else if consume then do { s \<leftarrow> ieee80211_invoke_rx_handlers env rx s; Some (True, rx, s) }
     else do {
       copy \<leftarrow> skb_copy (re_kz env (rp_allocs s)) (rx_skb rx);
       let s = s\<lparr>rp_allocs := rp_allocs s + 1\<rparr>;
       case copy of
         None \<Rightarrow> Some (True, rx, s)
       | Some skb \<Rightarrow> do {
           s \<leftarrow> ieee80211_invoke_rx_handlers env (rx\<lparr>rx_skb := skb\<rparr>) s;
           Some (True, rx, s) } } }"

definition ieee80211_rx_handle_packet :: "rx_env \<Rightarrow> sk_buff \<Rightarrow> rx_path \<Rightarrow> rx_path option" where
  "ieee80211_rx_handle_packet env skb s = do {
     fc \<leftarrow> skb_fc skb;
     if \<not> ieee80211_is_mgmt fc \<and> \<not> pskb_may_pull skb (ieee80211_hdrlen fc) then Some (kfree_rx skb s)
     else do {
       rx \<leftarrow> ieee80211_parse_qos \<lparr>rx_skb = skb, rx_sta = None, rx_key = None, rx_seqno_idx = 0\<rparr>;
       a2 \<leftarrow> rx_addr2 (rx_skb rx);
       sta \<leftarrow> sta_info_get_rx (vif_no (rp_vif s)) a2 (rp_mac s);
       (handled, rx, s) \<leftarrow> ieee80211_prepare_and_rx_handle env (rx\<lparr>rx_sta := sta\<rparr>) (rx_skb rx) True s;
       if handled then Some s else Some (kfree_rx (rx_skb rx) s) } }"

definition ieee80211_rx :: "rx_env \<Rightarrow> sk_buff \<Rightarrow> rx_path \<Rightarrow> rx_path option" where
  "ieee80211_rx env skb s = ieee80211_rx_handle_packet env
     (skb\<lparr>skb_cb := (skb_cb skb)\<lparr>rx_rx_flags := 0\<rparr>, skb_pkt_type := 0\<rparr>) s"

subsection \<open>The callback of the receive indication\<close>

abbreviation (input) WSM_STATUS_MICFAILURE :: u32 where "WSM_STATUS_MICFAILURE \<equiv> 5"
abbreviation (input) RX_FLAG_HT :: u32 where "RX_FLAG_HT \<equiv> 0x200"

text \<open>The receive status made from the header of the indication.\<close>

definition rx_cb_status :: "wsm_rx \<Rightarrow> u32 \<Rightarrow> bool \<Rightarrow> ieee80211_rx_status \<Rightarrow> ieee80211_rx_status" where
  "rx_cb_status arg flag protect st =
     (let band = (if wrx_channelNumber arg > 14 then IEEE80211_BAND_5GHZ else IEEE80211_BAND_2GHZ);
          rate = uint (wrx_rxedRate arg)
      in st\<lparr>rx_mactime := 0, rx_band := band,
           rx_freq := ieee80211_channel_to_frequency (uint (wrx_channelNumber arg)) band,
           rx_rate_idx := (if rate \<ge> 14 then rate - 14
             else if rate \<ge> 4 then (if band = IEEE80211_BAND_5GHZ then rate - 6 else rate - 2)
             else rate),
           rx_signal := sint (wrx_rcpiRssi arg), rx_antenna := 0,
           rx_flag := flag OR (if rate \<ge> 14 then RX_FLAG_HT else 0) OR (if protect then RX_FLAG_DECRYPTED else 0)
             OR (if wrx_status arg = WSM_STATUS_MICFAILURE then RX_FLAG_IV_STRIPPED else 0)\<rparr>)"

text \<open>The result is what is left in the caller's pointer: the buffer when the frame is dropped here.\<close>

definition atbm_rx_cb :: "rx_env \<Rightarrow> wsm_rx \<Rightarrow> sk_buff \<Rightarrow> rx_path \<Rightarrow> (sk_buff option \<times> rx_path) option" where
  "atbm_rx_cb env arg skb s = do {
     let flag = (if wrx_status arg = WSM_STATUS_MICFAILURE then RX_FLAG_MMIC_ERROR else 0);
     let dropped = skb\<lparr>skb_cb := (skb_cb skb)\<lparr>rx_flag := flag\<rparr>\<rparr>;
     if wrx_status arg \<noteq> 0 \<and> wrx_status arg \<noteq> WSM_STATUS_MICFAILURE then Some (Some dropped, s)
     else if skb_len skb < 16 then Some (Some dropped, s)
     else do {
       fc \<leftarrow> skb_fc skb;
       s \<leftarrow> ieee80211_rx env
         (skb\<lparr>skb_cb := rx_cb_status arg flag (ieee80211_has_protected fc) (skb_cb skb)\<rparr>) s;
       Some (None, s) } }"

text \<open>The same on the state of the adapter: what wsm.c calls for a receive indication.\<close>

definition rx_cb_of :: "rx_env \<Rightarrow> wsm_rx \<Rightarrow> sk_buff \<Rightarrow> rx_path atbm_common \<Rightarrow> (sk_buff option \<times> rx_path atbm_common) option" where
  "rx_cb_of env arg skb hw = do {
     (skb_p, s) \<leftarrow> atbm_rx_cb env arg skb (mac hw);
     Some (skb_p, hw\<lparr>mac := s\<rparr>) }"

end
