(* ===== verification/Rx_Path_Props.thy ===== *)
theory Rx_Path_Props
  imports Rx_Path Agg_Props Sta_Props "HOL-Library.Multiset"
begin

text \<open>Properties of the receive path.\<close>

subsection \<open>Who owns a frame\<close>

text \<open>The buffers the driver has given away: freed, or in the queue of the interface.\<close>

definition owned :: "rx_path \<Rightarrow> nat multiset" where
  "owned s = mset (rp_freed s) + mset (map skb_addr (vif_skb_queue (rp_vif s)))"

definition plain_frame :: "sk_buff \<Rightarrow> bool" where
  "plain_frame skb \<longleftrightarrow> \<not> has_flag (rx_rx_flags (skb_cb skb)) IEEE80211_RX_AMSDU"

definition authorised :: "nat option \<Rightarrow> mac_state \<Rightarrow> bool" where
  "authorised sta m \<longleftrightarrow> (case sta of None \<Rightarrow> False | Some x \<Rightarrow> test_sta_flag x WLAN_STA_AUTHORIZED m = Some True)"

text \<open>What every handler guarantees for a frame that is not an aggregate.\<close>

definition handler_result :: "rx_data \<Rightarrow> rx_path \<Rightarrow> rx_result \<Rightarrow> rx_data \<Rightarrow> rx_path \<Rightarrow> bool" where
  "handler_result rx s res rx' s' \<longleftrightarrow>
     skb_addr (rx_skb rx') = skb_addr (rx_skb rx) \<and> rx_sta rx' = rx_sta rx \<and> rp_mac s' = rp_mac s \<and>
     owned s' = owned s + (if res = RX_QUEUED then {#skb_addr (rx_skb rx)#} else {#}) \<and>
     (rp_delivered s' = rp_delivered s \<or> res = RX_QUEUED \<and> authorised (rx_sta rx) (rp_mac s))"

definition handler_ok :: "(rx_data \<Rightarrow> rx_path \<Rightarrow> rx_step) \<Rightarrow> bool" where
  "handler_ok h \<longleftrightarrow> (\<forall>rx s res rx' s'. plain_frame (rx_skb rx) \<longrightarrow> h rx s = Some (res, rx', s') \<longrightarrow>
     handler_result rx s res rx' s' \<and> (res = RX_CONTINUE \<longrightarrow> plain_frame (rx_skb rx')))"

lemma handler_okI:
  assumes "\<And>rx s res rx' s'. plain_frame (rx_skb rx) \<Longrightarrow> h rx s = Some (res, rx', s') \<Longrightarrow>
     handler_result rx s res rx' s' \<and> (res = RX_CONTINUE \<longrightarrow> plain_frame (rx_skb rx'))"
  shows "handler_ok h"
  using assms by (auto simp: handler_ok_def)

lemma owned_simps [simp]:
  "owned (kfree_rx skb s) = owned s + {#skb_addr skb#}"
  "rp_mac (kfree_rx skb s) = rp_mac s" "rp_delivered (kfree_rx skb s) = rp_delivered s"
  "rp_vif (kfree_rx skb s) = rp_vif s"
  by (simp_all add: owned_def kfree_rx_def)

lemma skb_op_simps [simp]:
  "skb_addr (skb_pull skb n) = skb_addr skb" "skb_cb (skb_pull skb n) = skb_cb skb"
  "skb_addr (trim_tail skb k) = skb_addr skb" "skb_cb (trim_tail skb k) = skb_cb skb"
  "skb_addr (skb_push skb n) = skb_addr skb" "skb_cb (skb_push skb n) = skb_cb skb"
  by (simp_all add: skb_defs trim_tail_def Let_def)

lemma wrn_keeps:
  "skb_wrn skb i bs = Some skb' \<Longrightarrow> skb_addr skb' = skb_addr skb \<and> skb_cb skb' = skb_cb skb"
  by (auto simp: skb_wrn_def split: bind_splits)

lemma move_header_keeps:
  "move_header skb h n = Some skb' \<Longrightarrow> skb_addr skb' = skb_addr skb \<and> skb_cb skb' = skb_cb skb"
  by (auto simp: move_header_def dest!: wrn_keeps split: bind_splits)

lemma push_ether_keeps:
  "push_ether_header skb d e = Some skb' \<Longrightarrow> skb_addr skb' = skb_addr skb \<and> skb_cb skb' = skb_cb skb"
  by (auto simp: push_ether_header_def dest!: wrn_keeps split: bind_splits)

lemma to_8023_keeps:
  assumes "ieee80211_data_to_8023 skb addr iftype = Some (r, skb')"
  shows "skb_addr skb' = skb_addr skb \<and> skb_cb skb' = skb_cb skb"
  using assms
  by (auto simp: ieee80211_data_to_8023_def Let_def dest!: wrn_keeps push_ether_keeps split: bind_splits if_splits)

definition decrypt_keeps :: "(rx_data \<Rightarrow> (rx_result \<times> rx_data) option) \<Rightarrow> bool" where
  "decrypt_keeps f \<longleftrightarrow> (\<forall>rx r rx'. f rx = Some (r, rx') \<longrightarrow> skb_addr (rx_skb rx') = skb_addr (rx_skb rx) \<and>
     skb_cb (rx_skb rx') = skb_cb (rx_skb rx) \<and> rx_sta rx' = rx_sta rx \<and> r \<noteq> RX_QUEUED)"

lemma crypto_keeps:
  "decrypt_keeps ieee80211_crypto_wep_decrypt" "decrypt_keeps ieee80211_crypto_tkip_decrypt"
  "decrypt_keeps ieee80211_crypto_ccmp_decrypt" "decrypt_keeps ieee80211_crypto_aes_cmac_decrypt"
  by (auto simp: decrypt_keeps_def ieee80211_crypto_wep_decrypt_def ieee80211_crypto_tkip_decrypt_def
      ieee80211_crypto_ccmp_decrypt_def ieee80211_crypto_aes_cmac_decrypt_def Let_def
      dest!: move_header_keeps split: bind_splits if_splits)

lemma replaycnt_keeps:
  assumes "ccmp_tkip_replaycnt skb c s = Some (r, s')"
  shows "owned s' = owned s \<and> rp_mac s' = rp_mac s \<and> rp_delivered s' = rp_delivered s"
  using assms
  by (auto simp: ccmp_tkip_replaycnt_def Let_def upd_vif_def owned_def split: bind_splits if_splits prod.splits)

lemma upd_status_simps [simp]:
  "skb_addr (rx_skb (upd_status f rx)) = skb_addr (rx_skb rx)" "rx_sta (upd_status f rx) = rx_sta rx"
  "skb_cb (rx_skb (upd_status f rx)) = f (skb_cb (rx_skb rx))"
  by (simp_all add: upd_status_def rx_status_def)

definition decrypt_result :: "rx_data \<Rightarrow> rx_path \<Rightarrow> rx_result \<Rightarrow> rx_data \<Rightarrow> rx_path \<Rightarrow> bool" where
  "decrypt_result rx s res rx' s' \<longleftrightarrow> skb_addr (rx_skb rx') = skb_addr (rx_skb rx) \<and>
     plain_frame (rx_skb rx') = plain_frame (rx_skb rx) \<and> rx_sta rx' = rx_sta rx \<and> owned s' = owned s \<and>
     rp_mac s' = rp_mac s \<and> rp_delivered s' = rp_delivered s \<and> res \<noteq> RX_QUEUED"

lemma run_decrypt_keeps:
  assumes "decrypt_keeps f" "run_decrypt f rx s = Some (res, rx', s')"
  shows "decrypt_result rx s res rx' s'"
  using assms by (auto simp: run_decrypt_def decrypt_keeps_def decrypt_result_def plain_frame_def split: bind_splits)

lemma replay_decrypt_keeps:
  assumes "decrypt_keeps f" "replay_decrypt c f rx s = Some (res, rx', s')"
  shows "decrypt_result rx s res rx' s'"
proof -
  obtain r t where r: "ccmp_tkip_replaycnt (rx_skb rx) c s = Some (r, t)"
    "(if r \<noteq> 0 then Some (RX_DROP_UNUSABLE, rx, t) else run_decrypt f rx t) = Some (res, rx', s')"
    using assms(2) by (auto simp: replay_decrypt_def split: bind_splits)
  show ?thesis
    using replaycnt_keeps[OF r(1)] r(2) run_decrypt_keeps[OF assms(1), of rx t res rx' s']
    by (auto simp: decrypt_result_def split: if_splits)
qed

lemma decrypt_key_keeps:
  assumes "rx_h_decrypt_key rx enc s = Some (res, rx', s')"
  shows "decrypt_result rx s res rx' s'"
proof (cases "enc \<in> {IEEE80211_ENC_WEP, IEEE80211_ENC_TKIP, IEEE80211_ENC_AES, IEEE80211_ENC_AES_CMAC}")
  case False
  then show ?thesis using assms by (auto simp: rx_h_decrypt_key_def decrypt_result_def)
qed (use assms run_decrypt_keeps replay_decrypt_keeps crypto_keeps in \<open>auto simp: rx_h_decrypt_key_def\<close>)

lemma decrypt_ok: "handler_ok ieee80211_rx_h_decrypt"
  by (rule handler_okI, unfold ieee80211_rx_h_decrypt_def Let_def handler_result_def)
    (auto simp: decrypt_result_def dest!: decrypt_key_keeps split: bind_splits if_splits option.splits)

lemma sta_process_ok: "handler_ok ieee80211_rx_h_sta_process"
  by (rule handler_okI, unfold ieee80211_rx_h_sta_process_def Let_def handler_result_def)
    (auto split: bind_splits if_splits option.splits)

lemma mic_verify_ok: "handler_ok ieee80211_rx_h_michael_mic_verify"
  by (rule handler_okI, unfold ieee80211_rx_h_michael_mic_verify_def Let_def handler_result_def)
    (auto simp: plain_frame_def split: bind_splits if_splits option.splits)

lemma remove_qos_ok: "handler_ok ieee80211_rx_h_remove_qos_control"
  by (rule handler_okI, unfold ieee80211_rx_h_remove_qos_control_def Let_def handler_result_def)
    (auto simp: plain_frame_def dest!: wrn_keeps move_header_keeps split: bind_splits if_splits option.splits)

lemma queue_frame_ok:
  "queue_frame rx s = (res, rx', s') \<Longrightarrow> res = RX_QUEUED \<and> skb_addr (rx_skb rx') = skb_addr (rx_skb rx) \<and>
     rx_sta rx' = rx_sta rx \<and> owned s' = owned s + {#skb_addr (rx_skb rx)#} \<and> rp_mac s' = rp_mac s \<and>
     rp_delivered s' = rp_delivered s"
  by (auto simp: queue_frame_def Let_def owned_def upd_vif_def)

lemma upd_simps [simp]:
  "owned (rp_packets_update f s) = owned s" "owned (rp_bytes_update g s) = owned s"
  "owned (rp_delivered_update h s) = owned s" "owned (rp_mac_update k s) = owned s"
  "owned (rp_allocs_update n s) = owned s"
  by (simp_all add: owned_def)

lemma netif_rx_ok:
  "netif_rx skb s = Some s' \<Longrightarrow> owned s' = owned s + {#skb_addr skb#} \<and> rp_mac s' = rp_mac s \<and>
     rp_vif s' = rp_vif s \<and> rp_freed s' = rp_freed s @ [skb_addr skb] \<and> rp_allocs s' = rp_allocs s"
  by (auto simp: netif_rx_def kfree_rx_def owned_def split: bind_splits)

lemma deliver_skb_ok:
  "ieee80211_deliver_skb rx s = Some s' \<Longrightarrow> owned s' = owned s + {#skb_addr (rx_skb rx)#} \<and> rp_mac s' = rp_mac s"
  by (auto simp: ieee80211_deliver_skb_def dest!: netif_rx_ok split: if_splits)

lemma frame_allowed_authorised:
  "ieee80211_frame_allowed rx fc s = Some True \<Longrightarrow> authorised (rx_sta rx) (rp_mac s)"
  by (auto simp: ieee80211_frame_allowed_def ieee80211_802_1x_port_control_def authorised_def
      split: bind_splits option.splits if_splits)

lemma data_ok: "handler_ok (ieee80211_rx_h_data env)"
proof (rule handler_okI)
  fix rx s res rx' s'
  assume p: "plain_frame (rx_skb rx)" "ieee80211_rx_h_data env rx s = Some (res, rx', s')"
  obtain fc where fc: "skb_fc (rx_skb rx) = Some fc"
    using p(2) by (auto simp: ieee80211_rx_h_data_def split: bind_splits)
  show "handler_result rx s res rx' s' \<and> (res = RX_CONTINUE \<longrightarrow> plain_frame (rx_skb rx'))"
  proof (cases "ieee80211_is_data fc \<and> ieee80211_is_data_present fc")
    case False
    then show ?thesis using p fc by (auto simp: ieee80211_rx_h_data_def handler_result_def split: if_splits)
  next
    case True
    have a: "\<not> has_flag (rx_rx_flags (rx_status rx)) IEEE80211_RX_AMSDU"
      using p(1) by (simp add: plain_frame_def rx_status_def)
    obtain err skb where e: "ieee80211_data_to_8023 (rx_skb rx) (vif_addr (rp_vif s)) (vif_iftype (rp_vif s)) = Some (err, skb)"
      using p(2) fc True a by (auto simp: ieee80211_rx_h_data_def split: bind_splits)
    show ?thesis
      using p(2) fc True a e to_8023_keeps[OF e]
      by (auto simp: ieee80211_rx_h_data_def Let_def handler_result_def split: bind_splits if_splits
          dest!: deliver_skb_ok frame_allowed_authorised)
  qed
qed

lemma action_ok: "handler_ok ieee80211_rx_h_action"
proof (rule handler_okI)
  fix rx s res rx' s'
  assume p: "plain_frame (rx_skb rx)" "ieee80211_rx_h_action rx s = Some (res, rx', s')"
  have m: "plain_frame (rx_skb (upd_status (\<lambda>st. st\<lparr>rx_rx_flags := rx_rx_flags st OR IEEE80211_RX_MALFORMED_ACTION_FRM\<rparr>) rx))"
    using p(1) by (simp add: plain_frame_def has_flag_def bit.conj_disj_distrib2)
  show "handler_result rx s res rx' s' \<and> (res = RX_CONTINUE \<longrightarrow> plain_frame (rx_skb rx'))"
    using p m unfolding ieee80211_rx_h_action_def Let_def handler_result_def
    by (auto dest!: queue_frame_ok split: bind_splits if_splits option.splits)
qed

lemma mgmt_ok: "handler_ok ieee80211_rx_h_mgmt"
  by (rule handler_okI, unfold ieee80211_rx_h_mgmt_def Let_def handler_result_def)
    (auto simp: plain_frame_def dest!: queue_frame_ok split: bind_splits if_splits option.splits)

lemma call_rxh_ok:
  assumes "\<And>h. h \<in> set hs \<Longrightarrow> handler_ok h"
  shows "handler_ok (call_rxh hs)"
  using assms
proof (induction hs)
  case Nil
  then show ?case by (auto simp: handler_ok_def handler_result_def)
next
  case (Cons h hs)
  show ?case
  proof (rule handler_okI)
    fix rx s res rx' s'
    assume p: "plain_frame (rx_skb rx)" "call_rxh (h # hs) rx s = Some (res, rx', s')"
    then obtain r x t where r: "h rx s = Some (r, x, t)"
      "(if r \<noteq> RX_CONTINUE then Some (r, x, t) else call_rxh hs x t) = Some (res, rx', s')"
      by (auto split: bind_splits)
    have 1: "handler_result rx s r x t" "r = RX_CONTINUE \<Longrightarrow> plain_frame (rx_skb x)"
      using Cons.prems[of h] p(1) r(1) by (auto simp: handler_ok_def)
    show "handler_result rx s res rx' s' \<and> (res = RX_CONTINUE \<longrightarrow> plain_frame (rx_skb rx'))"
    proof (cases "r = RX_CONTINUE")
      case True
      have "handler_ok (call_rxh hs)" by (rule Cons.IH) (simp add: Cons.prems)
      moreover have "call_rxh hs x t = Some (res, rx', s')" using r(2) True by simp
      ultimately have "handler_result x t res rx' s' \<and> (res = RX_CONTINUE \<longrightarrow> plain_frame (rx_skb rx'))"
        using 1(2)[OF True] unfolding handler_ok_def by blast
      with 1(1) True show ?thesis by (auto simp: handler_result_def)
    qed (use 1 r(2) in auto)
  qed
qed

lemma rx_handler_list_ok: "handler_ok (call_rxh (rx_handler_list env))"
proof (rule call_rxh_ok)
  fix h assume "h \<in> set (rx_handler_list env)"
  then consider "h = ieee80211_rx_h_decrypt" | "h = ieee80211_rx_h_sta_process" | "h = ieee80211_rx_h_michael_mic_verify"
    | "h = ieee80211_rx_h_remove_qos_control" | "h = ieee80211_rx_h_data env" | "h = ieee80211_rx_h_action"
    | "h = ieee80211_rx_h_mgmt"
    unfolding rx_handler_list_def by (simp only: list.set insert_iff empty_iff) blast
  then show "handler_ok h"
    by cases (simp_all only: decrypt_ok sta_process_ok mic_verify_ok remove_qos_ok data_ok action_ok mgmt_ok)
qed

lemma rx_handlers_ok:
  assumes "ieee80211_rx_handlers env rx skbs s = Some s'" "\<forall>skb\<in>set skbs. plain_frame skb"
  shows "owned s' = owned s + mset (map skb_addr skbs) \<and> rp_mac s' = rp_mac s \<and>
    (authorised (rx_sta rx) (rp_mac s) \<or> rp_delivered s' = rp_delivered s)"
  using assms
proof (induction skbs arbitrary: rx s)
  case (Cons skb skbs)
  then obtain res x t u where r: "call_rxh (rx_handler_list env) (rx\<lparr>rx_skb := skb\<rparr>) s = Some (res, x, t)"
    "ieee80211_rx_handlers_result x res t = Some u" "ieee80211_rx_handlers env x skbs u = Some s'"
    by (auto split: bind_splits)
  have 1: "handler_result (rx\<lparr>rx_skb := skb\<rparr>) s res x t"
    using rx_handler_list_ok[of env] r(1) Cons.prems(2) by (auto simp: handler_ok_def)
  have 2: "owned u = owned t + (if res = RX_QUEUED then {#} else {#skb_addr (rx_skb x)#})"
    "rp_mac u = rp_mac t" "rp_delivered u = rp_delivered t"
    using r(2) by (auto simp: ieee80211_rx_handlers_result_def split: bind_splits if_splits)
  have 3: "owned s' = owned u + mset (map skb_addr skbs) \<and> rp_mac s' = rp_mac u \<and>
      (authorised (rx_sta x) (rp_mac u) \<or> rp_delivered s' = rp_delivered u)"
    using Cons.IH[OF r(3)] Cons.prems(2) by simp
  show ?case using 1 2 3 by (auto simp: handler_result_def)
qed simp

subsection \<open>A data frame through the handlers\<close>

lemma trim_tail_view:
  assumes "skb_view skb pre (body @ t) post" "length t = unat k"
  shows "skb_view (trim_tail skb k) pre body (t @ post)"
proof -
  have l: "unat (skb_len skb) = length body + length t" using assms(1) by (simp add: skb_view_def)
  have u: "unat (ucast (skb_len skb) :: u32) = unat (skb_len skb)"
    by (rule unat_ucast16)
  have "k \<le> ucast (skb_len skb)" using l u assms(2) by (simp add: word_le_nat_alt)
  then have n: "unat (ucast (skb_len skb) - k) = length body" using l u assms(2) by (simp add: unat_sub)
  have "length body < 2 ^ 16" using l unat_lt2p[of "skb_len skb"] by simp
  then have "unat (of_nat (length body) :: u16) = length body" by (simp add: unat_of_nat)
  then show ?thesis using assms(1) n by (simp add: trim_tail_def skb_trim_def skb_set_tail_pointer_def skb_view_def)
qed

lemma move_header_view:
  assumes "skb_view skb pre (h @ g @ body) post" "length h = hl" "length g = n"
  obtains skb' pre' where "move_header skb hl n = Some skb'" "skb_view skb' pre' (h @ body) post"
    "skb_addr skb' = skb_addr skb" "skb_cb skb' = skb_cb skb"
proof -
  obtain A B where AB: "h @ g = A @ B" "length A = n" "length B = hl"
    using split_at[of n "h @ g"] assms(2,3) by auto
  have r: "skb_rdn skb 0 hl = Some h"
    using view_rdn_body[of skb pre "[]" h "g @ body" post 0 hl] assms by simp
  have v: "skb_view skb pre (A @ B @ body) post" using assms(1) AB(1) by (metis append.assoc)
  define m where "m = pre @ (A @ h @ body) @ post"
  have w: "skb_wrn skb (int n) h = Some (skb\<lparr>skb_mem := m\<rparr>)" "skb_view (skb\<lparr>skb_mem := m\<rparr>) pre (A @ h @ body) post"
    using view_wrn[OF v, of "int n" h] assms AB by (simp_all add: m_def)
  have "skb_view (skb_pull (skb\<lparr>skb_mem := m\<rparr>) n) (pre @ A) (h @ body) post"
    using view_pull[OF w(2), of n] AB(2) by simp
  then show ?thesis
    using that[of "skb_pull (skb\<lparr>skb_mem := m\<rparr>) n" "pre @ A"] r w(1) by (simp add: move_header_def skb_pull_def)
qed

text \<open>A QoS data frame of an access point for this station: the header, what it protects, and the parts
  of the payload.\<close>

definition ap_header :: "u16 \<Rightarrow> bytes \<Rightarrow> mac \<Rightarrow> mac \<Rightarrow> mac \<Rightarrow> bytes \<Rightarrow> bytes" where
  "ap_header fc dur a1 a2 a3 sq = bytes16 fc @ dur @ a1 @ a2 @ a3 @ sq"

lemma ap_header_length:
  assumes "length dur = 2" "length a1 = 6" "length a2 = 6" "length a3 = 6" "length sq = 2"
  shows "length (ap_header fc dur a1 a2 a3 sq) = 24"
  using assms by (simp add: ap_header_def bytes16_def)

abbreviation (input) QOS_FROMDS_PROTECTED :: u16 where "QOS_FROMDS_PROTECTED \<equiv> 0x4288"
abbreviation (input) FROMDS_PROTECTED :: u16 where "FROMDS_PROTECTED \<equiv> 0x4208"

lemma fc_facts [simp]:
  "ieee80211_is_data 0x4288" "ieee80211_is_data_qos 0x4288" "ieee80211_is_data_present 0x4288"
  "\<not> ieee80211_is_nullfunc 0x4288" "\<not> ieee80211_is_qos_nullfunc 0x4288" "\<not> ieee80211_has_a4 0x4288"
  "\<not> ieee80211_has_retry 0x4288" "ieee80211_hdrlen 0x4288 = 26" "ieee80211_has_protected 0x4288"
  "\<not> ieee80211_is_mgmt 0x4288" "ieee80211_get_qos_ctl 0x4288 = 24" "\<not> ieee80211_has_tods 0x4288" "ieee80211_has_fromds 0x4288"
  "ieee80211_is_data 0x4208" "ieee80211_is_data_present 0x4208" "\<not> ieee80211_has_a4 0x4208"
  "ieee80211_hdrlen 0x4208 = 24" "ieee80211_get_DA 0x4208 = 4" "ieee80211_get_SA 0x4208 = 16"
  by (simp_all add: fc_defs ieee80211_hdrlen_def ieee80211_get_qos_ctl_def ieee80211_get_DA_def ieee80211_get_SA_def)

lemma view_fc:
  assumes "skb_view skb pre (bytes16 fc @ rest) post"
  shows "skb_fc skb = Some fc"
  using view_rd16[of skb pre "[]" "bytes16 fc" rest post 0] assms by (simp add: skb_fc_def bytes16_def)

lemma remove_qos_view:
  assumes v: "skb_view (rx_skb rx) pre (ap_header QOS_FROMDS_PROTECTED dur a1 a2 a3 sq @ qc @ body) post"
    and l: "length dur = 2" "length a1 = 6" "length a2 = 6" "length a3 = 6" "length sq = 2" "length qc = 2"
  obtains skb' pre' where "ieee80211_rx_h_remove_qos_control rx s = Some (RX_CONTINUE, rx\<lparr>rx_skb := skb'\<rparr>, s)"
    "skb_view skb' pre' (ap_header FROMDS_PROTECTED dur a1 a2 a3 sq @ body) post"
    "skb_addr skb' = skb_addr (rx_skb rx)" "skb_cb skb' = skb_cb (rx_skb rx)"
proof -
  define r where "r = dur @ a1 @ a2 @ a3 @ sq"
  have h: "ap_header f dur a1 a2 a3 sq = bytes16 f @ r" for f by (simp add: ap_header_def r_def)
  have fc: "skb_fc (rx_skb rx) = Some QOS_FROMDS_PROTECTED" using view_fc v by (simp add: h)
  obtain skb1 pre1 where s1: "move_header (rx_skb rx) 24 2 = Some skb1"
    "skb_view skb1 pre1 (ap_header QOS_FROMDS_PROTECTED dur a1 a2 a3 sq @ body) post"
    "skb_addr skb1 = skb_addr (rx_skb rx)" "skb_cb skb1 = skb_cb (rx_skb rx)"
    using move_header_view[OF v, of 24 2] ap_header_length[of dur a1 a2 a3 sq] l by auto
  have v1: "skb_view skb1 pre1 ([] @ bytes16 QOS_FROMDS_PROTECTED @ (r @ body)) post"
    using s1(2) by (simp add: h)
  have fc1: "skb_fc skb1 = Some QOS_FROMDS_PROTECTED" using view_fc v1 by simp
  have w: "skb_wrn skb1 0 (bytes16 FROMDS_PROTECTED) = Some (skb1\<lparr>skb_mem := pre1 @ ([] @ bytes16 FROMDS_PROTECTED @ r @ body) @ post\<rparr>)"
    "skb_view (skb1\<lparr>skb_mem := pre1 @ ([] @ bytes16 FROMDS_PROTECTED @ r @ body) @ post\<rparr>) pre1 ([] @ bytes16 FROMDS_PROTECTED @ r @ body) post"
    using view_wrn[OF v1, of 0 "bytes16 FROMDS_PROTECTED"] by (simp_all add: bytes16_def)
  show ?thesis
  proof (rule that[of "skb1\<lparr>skb_mem := pre1 @ ([] @ bytes16 FROMDS_PROTECTED @ r @ body) @ post\<rparr>" pre1])
    show "ieee80211_rx_h_remove_qos_control rx s = Some (RX_CONTINUE, rx\<lparr>rx_skb :=
       skb1\<lparr>skb_mem := pre1 @ ([] @ bytes16 FROMDS_PROTECTED @ r @ body) @ post\<rparr>\<rparr>, s)"
      using fc s1(1) fc1 w(1) by (simp add: ieee80211_rx_h_remove_qos_control_def)
  qed (use w(2) s1 in \<open>simp_all add: h\<close>)
qed

lemma has_flag_or: "has_flag (a OR b) f \<longleftrightarrow> has_flag a f \<or> has_flag b f"
  by (simp add: has_flag_def bit.conj_disj_distrib2 or_eq_0_iff)

text \<open>What a handler chain behind the decryption does with such a frame of an authorised station.\<close>

lemma deliver_tail:
  assumes v: "skb_view (rx_skb rx) pre (ap_header QOS_FROMDS_PROTECTED dur a1 a2 a3 sq @ qc @ enc @ ty @ rest) post"
    and l: "length dur = 2" "length a1 = 6" "length a2 = 6" "length a3 = 6" "length sq = 2" "length qc = 2"
      "length enc = 6" "length ty = 2" "length rest + 14 < 2 ^ 16"
    and e: "snap_encap (enc @ ty) (be16 (ty ! 0) (ty ! 1))" "\<not> is_multicast_ether_addr a1"
    and f: "has_flag (rx_flag (rx_status rx)) RX_FLAG_DECRYPTED" "plain_frame (rx_skb rx)"
    and k: "rx_key rx = None \<or> (\<exists>key. rx_key rx = Some key \<and> key_type key \<noteq> IEEE80211_ENC_TKIP)"
    and sta: "rx_sta rx = Some sta" "test_sta_flag sta WLAN_STA_AUTHORIZED (rp_mac s) = Some True"
    and vif: "vif_iftype (rp_vif s) = NL80211_IFTYPE_STATION"
  shows "\<exists>rx' s'. call_rxh [ieee80211_rx_h_sta_process, ieee80211_rx_h_michael_mic_verify,
      ieee80211_rx_h_remove_qos_control, ieee80211_rx_h_data env, ieee80211_rx_h_action, ieee80211_rx_h_mgmt] rx s
      = Some (RX_QUEUED, rx', s') \<and> rp_delivered s' = rp_delivered s @ [a1 @ a3 @ ty @ rest] \<and>
     rp_freed s' = rp_freed s @ [skb_addr (rx_skb rx)] \<and> rp_vif s' = rp_vif s \<and> rp_mac s' = rp_mac s"
proof -
  have fc: "skb_fc (rx_skb rx) = Some QOS_FROMDS_PROTECTED"
    using v view_fc by (simp add: ap_header_def)
  have 1: "ieee80211_rx_h_sta_process rx s = Some (RX_CONTINUE, rx, s)"
    using fc sta by (simp add: ieee80211_rx_h_sta_process_def)
  have 2: "ieee80211_rx_h_michael_mic_verify rx s = Some (RX_CONTINUE, rx, s)"
    using k by (auto simp: ieee80211_rx_h_michael_mic_verify_def Let_def sta)
  obtain sk p1 where 3: "ieee80211_rx_h_remove_qos_control rx s = Some (RX_CONTINUE, rx\<lparr>rx_skb := sk\<rparr>, s)"
    "skb_view sk p1 (ap_header FROMDS_PROTECTED dur a1 a2 a3 sq @ enc @ ty @ rest) post"
    "skb_addr sk = skb_addr (rx_skb rx)" "skb_cb sk = skb_cb (rx_skb rx)"
    using remove_qos_view[OF v l(1-6)] by metis
  have fc': "skb_fc sk = Some FROMDS_PROTECTED" using 3(2) view_fc by (simp add: ap_header_def)
  obtain sk' p2 where 4: "ieee80211_data_to_8023 sk (vif_addr (rp_vif s)) NL80211_IFTYPE_STATION = Some (0, sk')"
    "skb_view sk' p2 (a1 @ a3 @ ty @ rest) post" "skb_addr sk' = skb_addr sk"
  proof -
    have "\<exists>sk' p2. ieee80211_data_to_8023 sk (vif_addr (rp_vif s)) NL80211_IFTYPE_STATION = Some (0, sk') \<and>
       skb_view sk' p2 (a1 @ a3 @ ty @ rest) post \<and> skb_addr sk' = skb_addr sk"
    proof (rule to_8023_ok[OF 3(2)])
      show "ap_header FROMDS_PROTECTED dur a1 a2 a3 sq = bytes16 FROMDS_PROTECTED @ dur @ a1 @ a2 @ a3 @ sq"
        by (simp add: ap_header_def)
      show "\<not> to_8023_refused FROMDS_PROTECTED NL80211_IFTYPE_STATION a1 a3 (vif_addr (rp_vif s))"
        using e(2) by (simp add: to_8023_refused_def)
    qed (use l e ap_header_length[of dur a1 a2 a3 sq] in \<open>simp_all add: ap_header_def bytes16_def\<close>)
    then show ?thesis using that by blast
  qed
  have cb: "skb_cb sk' = skb_cb (rx_skb rx)" using to_8023_keeps[OF 4(1)] 3(4) by simp
  have "ieee80211_frame_allowed (rx\<lparr>rx_skb := sk'\<rparr>) FROMDS_PROTECTED s = Some True"
    using sta f(1) cb by (simp add: ieee80211_frame_allowed_def ieee80211_802_1x_port_control_def
        ieee80211_drop_unencrypted_def rx_status_def)
  moreover have "skb_payload (sk'\<lparr>skb_protocol := 0, skb_cb := zero_cb\<rparr>) = Some (a1 @ a3 @ ty @ rest)"
    using view_payload[OF 4(2)] by (simp add: skb_payload_def)
  moreover have "\<not> has_flag (rx_rx_flags (skb_cb sk)) IEEE80211_RX_AMSDU" using f(2) 3(4) by (simp add: plain_frame_def)
  ultimately have 5: "\<exists>rx' s'. ieee80211_rx_h_data env (rx\<lparr>rx_skb := sk\<rparr>) s = Some (RX_QUEUED, rx', s') \<and>
      rp_delivered s' = rp_delivered s @ [a1 @ a3 @ ty @ rest] \<and>
      rp_freed s' = rp_freed s @ [skb_addr (rx_skb rx)] \<and> rp_vif s' = rp_vif s \<and> rp_mac s' = rp_mac s"
    using fc' 4(1,3) 3(3) f(1) cb vif
    by (simp add: ieee80211_rx_h_data_def ieee80211_deliver_skb_def ap_refuses_def rx_status_def netif_rx_def kfree_rx_def)
  then show ?thesis using 1 2 3(1) by auto
qed

lemma session_state_none:
  assumes "set (mlme_tid_rx (sta_heap (rp_mac s) sta)) \<subseteq> {None}"
  shows "session_state s sta tid = None"
proof (cases "tid < length (mlme_tid_rx (sta_heap (rp_mac s) sta))")
  case True
  then have "mlme_tid_rx (sta_heap (rp_mac s) sta) ! tid \<in> {None}" using nth_mem assms by blast
  then show ?thesis by (simp add: session_state_def Let_def)
qed (simp add: session_state_def)

lemma rx_reorder_none:
  assumes "skb_fc (rx_skb rx) = Some fc" "rx_sta rx = Some sta"
    "set (mlme_tid_rx (sta_heap (rp_mac s) sta)) \<subseteq> {None}"
    "\<exists>w. rd32 (skb_mem (rx_skb rx)) (skb_data (rx_skb rx) + ieee80211_get_qos_ctl fc) = Some w"
  shows "rx_reorder env rx s = Some ([rx_skb rx], s)"
  using assms session_state_none[OF assms(3)]
  by (auto simp: rx_reorder_def ieee80211_rx_reorder_ampdu_def Let_def)

definition station_ready :: "rx_path \<Rightarrow> nat \<Rightarrow> bool" where
  "station_ready s sta \<longleftrightarrow> (let x = sta_heap (rp_mac s) sta in
     test_sta_flag sta WLAN_STA_ASSOC (rp_mac s) = Some True \<and>
     length (last_seq_ctrl x) = NUM_RX_DATA_QUEUES + 1 \<and> set (mlme_tid_rx x) \<subseteq> {None})"

lemma upd_station_flags:
  "test_sta_flag sta fl (upd_sta sta (\<lambda>x. x\<lparr>last_seq_ctrl := w\<rparr>) m) = test_sta_flag sta fl m"
  "set (mlme_tid_rx (sta_heap (upd_sta sta (\<lambda>x. x\<lparr>last_seq_ctrl := w\<rparr>) m) sta)) = set (mlme_tid_rx (sta_heap m sta))"
  by (simp_all add: test_sta_flag_def)

lemma view_cb [simp]:
  "skb_view (skb\<lparr>skb_cb := c\<rparr>) pre body post = skb_view skb pre body post"
  "skb_view (skb\<lparr>skb_priority := p\<rparr>) pre body post = skb_view skb pre body post"
  "skb_view (skb\<lparr>skb_pkt_type := t\<rparr>) pre body post = skb_view skb pre body post"
  by (simp_all add: skb_view_def)

lemma header_reads:
  assumes "skb_view x pre (ap_header fc dur a1 a2 a3 sq @ body) post"
    and l: "length dur = 2" "length a1 = 6" "length a2 = 6" "length a3 = 6" "length sq = 2"
  shows "skb_fc x = Some fc" "rx_addr1 x = Some a1" "rx_addr2 x = Some a2"
    "skb_rd16 x 22 = Some (le16 (sq ! 0) (sq ! 1))"
proof -
  have b: "length (bytes16 fc) = 2" by (simp add: bytes16_def)
  have 1: "ap_header fc dur a1 a2 a3 sq @ body = (bytes16 fc @ dur) @ a1 @ (a2 @ a3 @ sq @ body)"
    "ap_header fc dur a1 a2 a3 sq @ body = (bytes16 fc @ dur @ a1) @ a2 @ (a3 @ sq @ body)"
    "ap_header fc dur a1 a2 a3 sq @ body = (bytes16 fc @ dur @ a1 @ a2 @ a3) @ sq @ body"
    by (simp_all add: ap_header_def)
  show "skb_fc x = Some fc" using assms(1) view_fc by (simp add: ap_header_def)
  show "rx_addr1 x = Some a1" unfolding rx_addr1_def
    by (rule view_rdn_body[OF assms(1)[unfolded 1(1)]]) (use l b in simp_all)
  show "rx_addr2 x = Some a2" unfolding rx_addr2_def
    by (rule view_rdn_body[OF assms(1)[unfolded 1(2)]]) (use l b in simp_all)
  show "skb_rd16 x 22 = Some (le16 (sq ! 0) (sq ! 1))"
    by (rule view_rd16[OF assms(1)[unfolded 1(3)]]) (use l b in simp_all)
qed

lemma rx_entry:
  assumes v: "skb_view skb pre (ap_header QOS_FROMDS_PROTECTED dur a1 a2 a3 sq @ [q0, q1] @ body) post"
    and l: "length dur = 2" "length a1 = 6" "length a2 = 6" "length a3 = 6" "length sq = 2" "length body \<ge> 2"
      "skb_data_len skb = 0"
    and vif: "vif_iftype (rp_vif s) = NL80211_IFTYPE_STATION" "vif_addr (rp_vif s) = a1" "\<not> is_multicast_ether_addr a1"
    and sta: "sta_info_get_rx (vif_no (rp_vif s)) a2 (rp_mac s) = Some (Some sta)" "station_ready s sta"
  obtains rx skb' w where "ieee80211_rx env skb s = ieee80211_rx_handlers env rx [skb']
      (s\<lparr>rp_mac := upd_sta sta (\<lambda>x. x\<lparr>last_seq_ctrl := w\<rparr>) (rp_mac s)\<rparr>)" "rx_sta rx = Some sta"
    "length w = NUM_RX_DATA_QUEUES + 1"
    "skb_view skb' pre (ap_header QOS_FROMDS_PROTECTED dur a1 a2 a3 sq @ [q0, q1] @ body) post"
    "skb_addr skb' = skb_addr skb" "plain_frame skb' = (q0 AND IEEE80211_QOS_CONTROL_A_MSDU_PRESENT = 0)" "rx_flag (skb_cb skb') = rx_flag (skb_cb skb)"
    "has_flag (rx_rx_flags (skb_cb skb')) IEEE80211_RX_RA_MATCH"
proof -
  let ?m = "ap_header QOS_FROMDS_PROTECTED dur a1 a2 a3 sq @ [q0, q1] @ body"
  define k where "k = skb\<lparr>skb_cb := (skb_cb skb)\<lparr>rx_rx_flags := 0\<rparr>, skb_pkt_type := 0\<rparr>"
  define tid where "tid = unat (q0 AND IEEE80211_QOS_CTL_TID_MASK)"
  define k0 where "k0 = (if q0 AND IEEE80211_QOS_CONTROL_A_MSDU_PRESENT \<noteq> 0 then k\<lparr>skb_cb := (skb_cb k)\<lparr>rx_rx_flags := rx_rx_flags (skb_cb k) OR IEEE80211_RX_AMSDU\<rparr>\<rparr> else k)"
  define k1 where "k1 = k0\<lparr>skb_priority := (if tid > 7 then 0 else of_nat tid)\<rparr>"
  define k2 where "k2 = k1\<lparr>skb_cb := (skb_cb k1)\<lparr>rx_rx_flags := rx_rx_flags (skb_cb k1) OR IEEE80211_RX_RA_MATCH\<rparr>\<rparr>"
  have vk: "skb_view k pre ?m post" "skb_view k1 pre ?m post" "skb_view k2 pre ?m post"
    using v by (simp_all add: k_def k0_def k1_def k2_def)
  have hl: "length (ap_header QOS_FROMDS_PROTECTED dur a1 a2 a3 sq) = 24" using ap_header_length l by simp
  have fc: "skb_fc x = Some QOS_FROMDS_PROTECTED" and A1: "rx_addr1 x = Some a1" and A2: "rx_addr2 x = Some a2"
    and SQ: "skb_rd16 x 22 = Some (le16 (sq ! 0) (sq ! 1))" if "skb_view x pre ?m post" for x
    using header_reads[OF that l(1-5)] by simp_all
  have Q: "skb_rd8 k 24 = Some q0"
    using vk(1) hl by (simp add: skb_view_def skb_rd8_def rd8_def nth_append nat_add_distrib)
  have R: "\<exists>w. rd32 (skb_mem k2) (skb_data k2 + 24) = Some w"
    using vk(3) hl l by (simp add: skb_view_def rd32_def rd8_def nat_add_distrib)
  have len: "unat (skb_len k2) \<ge> 28" "skb_len k2 = skb_len k" "skb_data_len k = 0"
    using vk(3) hl l by (simp_all add: skb_view_def k_def k0_def k1_def k2_def)
  have len2: "\<not> skb_len k2 < 24" "\<not> skb_len k2 < 16" using len(1) by (simp_all add: word_less_nat_alt)
  have pull: "pskb_may_pull k 26"
    using len by (simp add: pskb_may_pull_def skb_headlen_def word_le_nat_alt unat_ucast16)
  have parse: "ieee80211_parse_qos \<lparr>rx_skb = k, rx_sta = None, rx_key = None, rx_seqno_idx = 0\<rparr>
      = Some \<lparr>rx_skb = k1, rx_sta = None, rx_key = None, rx_seqno_idx = tid\<rparr>"
    using fc[OF vk(1)] Q by (simp add: ieee80211_parse_qos_def k1_def k0_def tid_def upd_status_def rx_status_def)
  define rx where "rx = \<lparr>rx_skb = k2, rx_sta = Some sta, rx_key = None, rx_seqno_idx = tid\<rparr>"
  have prep: "prepare_for_handlers rx s = Some (True, rx)"
    using fc[OF vk(3)] A1[OF vk(3)] vif len2
    by (simp add: prepare_for_handlers_def ieee80211_get_bssid_def rx_def compare_ether_addr_def)
  have t: "tid < 17"
  proof -
    have "q0 AND 0xf \<le> 0xf" by (rule word_and_le1)
    then show ?thesis by (simp add: tid_def word_le_nat_alt)
  qed
  obtain c where c: "skb_rd16 k2 22 = Some c" using SQ[OF vk(3)] by simp
  define w where "w = (last_seq_ctrl (sta_heap (rp_mac s) sta))[tid := c]"
  define s1 where "s1 = s\<lparr>rp_mac := upd_sta sta (\<lambda>x. x\<lparr>last_seq_ctrl := w\<rparr>) (rp_mac s)\<rparr>"
  have check: "ieee80211_rx_h_check rx s = Some (RX_CONTINUE, rx, s1)"
    using fc[OF vk(3)] A1[OF vk(3)] c vif(3) sta(2) t len2
    by (simp add: ieee80211_rx_h_check_def rx_h_check_frame_def rx_def station_ready_def Let_def guard_def
        upd_station_flags s1_def w_def)
  have "rx_reorder env rx s1 = Some ([rx_skb rx], s1)"
    by (rule rx_reorder_none[of rx QOS_FROMDS_PROTECTED sta])
      (use fc[OF vk(3)] R sta(2) in \<open>simp_all add: rx_def s1_def station_ready_def Let_def\<close>)
  then have inv: "ieee80211_invoke_rx_handlers env rx s = ieee80211_rx_handlers env rx [k2] s1"
    using check by (simp add: ieee80211_invoke_rx_handlers_def rx_def)
  have "ieee80211_prepare_and_rx_handle env \<lparr>rx_skb = k1, rx_sta = Some sta, rx_key = None, rx_seqno_idx = tid\<rparr> k1 True s
      = map_option (\<lambda>s. (True, rx, s)) (ieee80211_rx_handlers env rx [k2] s1)"
    using prep inv unfolding ieee80211_prepare_and_rx_handle_def
    by (simp add: rx_def k2_def upd_status_def rx_status_def map_option_bind Let_def split: bind_splits)
  then have "ieee80211_rx env skb s = ieee80211_rx_handlers env rx [k2] s1"
    using fc[OF vk(1)] pull parse A2[OF vk(2)] sta(1)
    by (simp add: ieee80211_rx_def ieee80211_rx_handle_packet_def k_def[symmetric] split: bind_splits)
  then show ?thesis
    by (rule that[of rx k2 w, unfolded s1_def[symmetric]])
      (use vk(3) sta(2) in \<open>simp_all add: rx_def k2_def k1_def k0_def k_def plain_frame_def has_flag_def w_def station_ready_def Let_def\<close>)
qed

text \<open>With the CCMP header and the MIC around the payload, as an encrypting access point sends it.\<close>

lemma decrypt_ccmp_view:
  assumes v: "skb_view (rx_skb rx) pre (ap_header QOS_FROMDS_PROTECTED dur a1 a2 a3 sq @ qc @ iv @ body @ mic) post"
    and l: "length dur = 2" "length a1 = 6" "length a2 = 6" "length a3 = 6" "length sq = 2" "length qc = 2"
      "length iv = 8" "length mic = 8"
    and vif: "vif_iftype (rp_vif s) = NL80211_IFTYPE_STATION" "\<not> is_multicast_ether_addr a1"
    and sta: "rx_sta rx = Some sta" "sta_enc (sta_heap (rp_mac s) sta)"
      "key_type (sta_cipher (sta_heap (rp_mac s) sta)) = IEEE80211_ENC_AES"
    and f: "has_flag (rx_rx_flags (rx_status rx)) IEEE80211_RX_RA_MATCH"
      "has_flag (rx_flag (rx_status rx)) RX_FLAG_DECRYPTED" "\<not> has_flag (rx_flag (rx_status rx)) RX_FLAG_IV_STRIPPED"
    and pn: "check_pn (ccmp_tkip_hdr2pn iv True) (ptk_pn (rp_vif s)) (ptk_pn_init (rp_vif s)) = (0, pn', first')"
  obtains rx' pre' where "ieee80211_rx_h_decrypt rx s = Some (RX_CONTINUE, rx',
       upd_vif (\<lambda>v. v\<lparr>ptk_pn := pn', ptk_pn_init := first'\<rparr>) s)"
    "skb_view (rx_skb rx') pre' (ap_header QOS_FROMDS_PROTECTED dur a1 a2 a3 sq @ qc @ body) (mic @ post)"
    "skb_addr (rx_skb rx') = skb_addr (rx_skb rx)" "rx_sta rx' = Some sta"
    "rx_key rx' = Some (sta_cipher (sta_heap (rp_mac s) sta))" "has_flag (rx_flag (rx_status rx')) RX_FLAG_DECRYPTED"
    "plain_frame (rx_skb rx') = plain_frame (rx_skb rx)"
proof -
  let ?h = "ap_header QOS_FROMDS_PROTECTED dur a1 a2 a3 sq"
  define x where "x = rx\<lparr>rx_key := Some (sta_cipher (sta_heap (rp_mac s) sta))\<rparr>"
  have sk: "rx_skb x = rx_skb rx" by (simp add: x_def)
  have hl: "length (?h @ qc) = 26" using ap_header_length l by simp
  have fc: "skb_fc (rx_skb rx) = Some QOS_FROMDS_PROTECTED" and A1: "rx_addr1 (rx_skb rx) = Some a1"
    using header_reads[OF v l(1-5)] by simp_all
  have v2: "skb_view (rx_skb rx) pre ((?h @ qc @ iv @ body) @ mic) post" using v by simp
  have v3: "skb_view (rx_skb rx) pre ((?h @ qc) @ iv @ (body @ mic)) post" using v by simp
  have IV: "skb_rdn (rx_skb rx) 26 8 = Some iv"
    by (rule view_rdn_body[OF v3]) (use hl l in simp_all)
  have "skb_view (trim_tail (rx_skb rx) 8) pre ((?h @ qc) @ iv @ body) (mic @ post)"
    using trim_tail_view[OF v2, of 8] l by simp
  then obtain sk' pre' where m: "move_header (trim_tail (rx_skb rx) 8) 26 8 = Some sk'"
    "skb_view sk' pre' ((?h @ qc) @ body) (mic @ post)" "skb_addr sk' = skb_addr (rx_skb rx)" "skb_cb sk' = skb_cb (rx_skb rx)"
    using move_header_view[of "trim_tail (rx_skb rx) 8" pre "?h @ qc" iv body "mic @ post" 26 8] hl l by auto
  have len: "int (unat (skb_len (rx_skb rx))) \<ge> 42" using v hl l by (simp add: skb_view_def)
  have ccmp: "ieee80211_crypto_ccmp_decrypt x = Some (RX_CONTINUE, x\<lparr>rx_skb := sk'\<rparr>)"
    using fc m(1) len sta(1) unfolding ieee80211_crypto_ccmp_decrypt_def sk Let_def by (simp add: x_def)
  have rep: "ccmp_tkip_replaycnt (rx_skb x) True s = Some (0, upd_vif (\<lambda>v. v\<lparr>ptk_pn := pn', ptk_pn_init := first'\<rparr>) s)"
    using fc IV A1 vif pn unfolding ccmp_tkip_replaycnt_def sk Let_def by simp
  define x' where "x' = upd_status (\<lambda>st. st\<lparr>rx_flag := rx_flag st OR RX_FLAG_DECRYPTED\<rparr>) (x\<lparr>rx_skb := sk'\<rparr>)"
  have "rx_h_decrypt_key x IEEE80211_ENC_AES s = Some (RX_CONTINUE, x', upd_vif (\<lambda>v. v\<lparr>ptk_pn := pn', ptk_pn_init := first'\<rparr>) s)"
    using rep ccmp by (simp add: rx_h_decrypt_key_def replay_decrypt_def run_decrypt_def x'_def)
  moreover have "ieee80211_rx_h_decrypt rx s = rx_h_decrypt_key x IEEE80211_ENC_AES s"
    using f sta A1 vif by (simp add: ieee80211_rx_h_decrypt_def x_def rx_status_def)
  ultimately have run: "ieee80211_rx_h_decrypt rx s = Some (RX_CONTINUE, x', upd_vif (\<lambda>v. v\<lparr>ptk_pn := pn', ptk_pn_init := first'\<rparr>) s)"
    by simp
  have "skb_view (rx_skb x') pre' (?h @ qc @ body) (mic @ post)"
    using m(2) by (simp add: x'_def upd_status_def)
  then show ?thesis
    by (rule that[OF run])
      (use m sta(1) in \<open>simp_all add: x'_def x_def rx_status_def plain_frame_def has_flag_or\<close>, simp_all add: upd_status_def has_flag_def)
qed

lemma ccmp_frame_delivered_ok:
  fixes s :: rx_path
  assumes v: "skb_view skb pre (ap_header QOS_FROMDS_PROTECTED dur a1 a2 a3 sq @ [q0, q1] @ iv @ enc @ ty @ rest @ mic) post"
    and l: "length dur = 2" "length a1 = 6" "length a2 = 6" "length a3 = 6" "length sq = 2"
      "length iv = 8" "length mic = 8" "length enc = 6" "length ty = 2" "skb_data_len skb = 0"
    and q: "q0 AND IEEE80211_QOS_CONTROL_A_MSDU_PRESENT = 0"
    and e: "snap_encap (enc @ ty) (be16 (ty ! 0) (ty ! 1))"
    and vif: "vif_iftype (rp_vif s) = NL80211_IFTYPE_STATION" "vif_addr (rp_vif s) = a1" "\<not> is_multicast_ether_addr a1"
    and sta: "sta_info_get_rx (vif_no (rp_vif s)) a2 (rp_mac s) = Some (Some sta)" "station_ready s sta"
      "test_sta_flag sta WLAN_STA_AUTHORIZED (rp_mac s) = Some True"
      "sta_enc (sta_heap (rp_mac s) sta)" "key_type (sta_cipher (sta_heap (rp_mac s) sta)) = IEEE80211_ENC_AES"
    and pn: "check_pn (ccmp_tkip_hdr2pn iv True) (ptk_pn (rp_vif s)) (ptk_pn_init (rp_vif s)) = (0, pn', first')"
    and arg: "wrx_status arg = 0"
  shows "\<exists>s'. atbm_rx_cb env arg skb s = Some (None, s') \<and>
     rp_delivered s' = rp_delivered s @ [a1 @ a3 @ ty @ rest] \<and> rp_freed s' = rp_freed s @ [skb_addr skb] \<and>
     rp_vif s' = (rp_vif s)\<lparr>ptk_pn := pn', ptk_pn_init := first'\<rparr> \<and>
     (\<exists>w. rp_mac s' = upd_sta sta (\<lambda>x. x\<lparr>last_seq_ctrl := w\<rparr>) (rp_mac s) \<and> length w = NUM_RX_DATA_QUEUES + 1)"
proof -
  let ?h = "ap_header QOS_FROMDS_PROTECTED dur a1 a2 a3 sq"
  have hl: "length ?h = 24" using ap_header_length l by simp
  have fc: "skb_fc skb = Some QOS_FROMDS_PROTECTED" using header_reads(1)[OF v l(1-5)] .
  have len: "unat (skb_len skb) = 50 + length rest" using v hl l by (simp add: skb_view_def)
  then have rl: "length rest + 14 < 2 ^ 16" using unat_lt2p[of "skb_len skb"] by simp
  define k where "k = skb\<lparr>skb_cb := rx_cb_status arg 0 True (skb_cb skb)\<rparr>"
  have fl: "has_flag (rx_flag (skb_cb k)) RX_FLAG_DECRYPTED" "\<not> has_flag (rx_flag (skb_cb k)) RX_FLAG_IV_STRIPPED"
    using arg by (simp_all add: k_def rx_cb_status_def Let_def has_flag_def)
  have cb: "atbm_rx_cb env arg skb s = map_option (\<lambda>s. (None, s)) (ieee80211_rx env k s)"
    using fc len arg by (simp add: atbm_rx_cb_def k_def word_less_nat_alt split: bind_splits)
  have vk: "skb_view k pre (?h @ [q0, q1] @ iv @ enc @ ty @ rest @ mic) post" "skb_data_len k = 0"
    "length (iv @ enc @ ty @ rest @ mic) \<ge> 2"
    using v l by (simp_all add: k_def)
  obtain rx sk w where w: "length w = NUM_RX_DATA_QUEUES + 1" and r: "ieee80211_rx env k s = ieee80211_rx_handlers env rx [sk]
      (s\<lparr>rp_mac := upd_sta sta (\<lambda>x. x\<lparr>last_seq_ctrl := w\<rparr>) (rp_mac s)\<rparr>)" "rx_sta rx = Some sta"
    "skb_view sk pre (?h @ [q0, q1] @ iv @ enc @ ty @ rest @ mic) post"
    "skb_addr sk = skb_addr k" "plain_frame sk = (q0 AND IEEE80211_QOS_CONTROL_A_MSDU_PRESENT = 0)" "rx_flag (skb_cb sk) = rx_flag (skb_cb k)"
    "has_flag (rx_rx_flags (skb_cb sk)) IEEE80211_RX_RA_MATCH"
    by (rule rx_entry[OF vk(1) l(1-5) vk(3,2) vif sta(1,2)])
  define s1 where "s1 = s\<lparr>rp_mac := upd_sta sta (\<lambda>x. x\<lparr>last_seq_ctrl := w\<rparr>) (rp_mac s)\<rparr>"
  define y where "y = rx\<lparr>rx_skb := sk\<rparr>"
  have st1: "sta_enc (sta_heap (rp_mac s1) sta)" "key_type (sta_cipher (sta_heap (rp_mac s1) sta)) = IEEE80211_ENC_AES"
    "test_sta_flag sta WLAN_STA_AUTHORIZED (rp_mac s1) = Some True" "rp_vif s1 = rp_vif s"
    using sta by (simp_all add: s1_def upd_station_flags)
  have vy: "skb_view (rx_skb y) pre (?h @ [q0, q1] @ iv @ (enc @ ty @ rest) @ mic) post" using r(3) by (simp add: y_def)
  define s2 where "s2 = upd_vif (\<lambda>v. v\<lparr>ptk_pn := pn', ptk_pn_init := first'\<rparr>) s1"
  obtain rx' pre' where d: "ieee80211_rx_h_decrypt y s1 = Some (RX_CONTINUE, rx', s2)"
    "skb_view (rx_skb rx') pre' (?h @ [q0, q1] @ enc @ ty @ rest) (mic @ post)"
    "skb_addr (rx_skb rx') = skb_addr (rx_skb y)" "rx_sta rx' = Some sta"
    "rx_key rx' = Some (sta_cipher (sta_heap (rp_mac s1) sta))" "has_flag (rx_flag (rx_status rx')) RX_FLAG_DECRYPTED"
    "plain_frame (rx_skb rx') = plain_frame (rx_skb y)"
    unfolding s2_def
    by (rule decrypt_ccmp_view[OF vy l(1-5) _ l(6,7) _ vif(3) _ st1(1,2), where pn' = pn' and first' = first'])
      (use r st1 fl vif pn in \<open>simp_all add: y_def rx_status_def\<close>)
  have "\<exists>rx'' s'. call_rxh [ieee80211_rx_h_sta_process, ieee80211_rx_h_michael_mic_verify,
      ieee80211_rx_h_remove_qos_control, ieee80211_rx_h_data env, ieee80211_rx_h_action, ieee80211_rx_h_mgmt] rx' s2
      = Some (RX_QUEUED, rx'', s') \<and> rp_delivered s' = rp_delivered s2 @ [a1 @ a3 @ ty @ rest] \<and>
     rp_freed s' = rp_freed s2 @ [skb_addr (rx_skb rx')] \<and> rp_vif s' = rp_vif s2 \<and> rp_mac s' = rp_mac s2"
    by (rule deliver_tail[OF d(2) l(1-5) _ l(8,9) rl e vif(3) d(6) _ _ d(4)])
      (use d r st1 vif q in \<open>simp_all add: y_def s2_def upd_vif_def\<close>)
  then obtain rx'' s' where t: "call_rxh [ieee80211_rx_h_sta_process, ieee80211_rx_h_michael_mic_verify,
      ieee80211_rx_h_remove_qos_control, ieee80211_rx_h_data env, ieee80211_rx_h_action, ieee80211_rx_h_mgmt] rx' s2
      = Some (RX_QUEUED, rx'', s')" "rp_delivered s' = rp_delivered s2 @ [a1 @ a3 @ ty @ rest]"
     "rp_freed s' = rp_freed s2 @ [skb_addr (rx_skb rx')]" "rp_vif s' = rp_vif s2" "rp_mac s' = rp_mac s2" by blast
  have "call_rxh (rx_handler_list env) y s1 = Some (RX_QUEUED, rx'', s')"
    unfolding rx_handler_list_def by (subst call_rxh.simps(2)) (simp only: d(1) bind.bind_lunit prod.case t(1) simp_thms if_False)
  then have "ieee80211_rx_handlers env rx [sk] s1 = Some s'"
    by (simp add: y_def ieee80211_rx_handlers_result_def)
  then show ?thesis
    using cb r(1) t d(3) r(4) w by (auto simp: s1_def s2_def upd_vif_def y_def k_def)
qed

subsection \<open>Replays\<close>

definition pn_num :: "bytes \<Rightarrow> nat" where
  "pn_num pn = foldl (\<lambda>a b. 256 * a + unat b) 0 pn"

lemma foldl_pn: "foldl (\<lambda>a b. 256 * a + unat (b :: u8)) a xs = a * 256 ^ length xs + foldl (\<lambda>a b. 256 * a + unat b) 0 xs"
proof (induction xs arbitrary: a)
  case (Cons x xs)
  show ?case using Cons[of "256 * a + unat x"] Cons[of "unat x"] by (simp add: algebra_simps)
qed simp

lemma pn_num_Cons: "pn_num (x # xs) = unat x * 256 ^ length xs + pn_num xs"
  using foldl_pn[of "unat x" xs] by (simp add: pn_num_def)

lemma pn_num_less: "pn_num xs < 256 ^ length xs"
proof (induction xs)
  case (Cons x xs)
  have "unat x \<le> 255" using unat_lt2p[of x] by simp
  then have "unat x * 256 ^ length xs \<le> 255 * 256 ^ length xs" by (rule mult_right_mono) simp
  moreover have "256 ^ length (x # xs) = 255 * 256 ^ length xs + (256 ^ length xs :: nat)" by simp
  ultimately show ?case using Cons unfolding pn_num_Cons by linarith
qed (simp add: pn_num_def)

lemma memcmp_le_num:
  assumes "length xs = length ys"
  shows "memcmp xs ys \<le> 0 \<longleftrightarrow> pn_num xs \<le> pn_num ys"
  using assms
proof (induction xs ys rule: list_induct2)
  case (Cons x xs y ys)
  have step: "pn_num (a # as) < pn_num (b # bs)" if "a < b" "length as = length bs" for a b as bs
  proof -
    have "(unat a + 1) * 256 ^ length bs \<le> unat b * 256 ^ length bs"
      using that(1) by (intro mult_right_mono) (simp_all add: word_less_nat_alt)
    then show ?thesis using pn_num_less[of as] that(2) by (simp add: pn_num_Cons)
  qed
  consider "x < y" | "y < x" | "x = y" by force
  then show ?case
  proof cases
    case 1 then show ?thesis using step[of x y xs ys] Cons(1) by simp
  next
    case 2 then show ?thesis using step[of y x ys xs] Cons(1) by simp
  next
    case 3 then show ?thesis using Cons by (simp add: pn_num_Cons)
  qed
qed (simp add: pn_num_def)

text \<open>C36. The test for replays compares packet numbers as 48-bit numbers: once a number is stored, exactly
  the larger ones are accepted, and a refused frame changes nothing.\<close>
theorem replay_test_compares_numbers:
  assumes "length pn = 6" "length old = 6"
  shows "fst (check_pn pn old 0) = (if pn_num pn \<le> pn_num old then -1 else 0) \<and>
    (pn_num pn \<le> pn_num old \<longrightarrow> snd (check_pn pn old 0) = (old, 0))"
  using memcmp_le_num[of pn old] assms by (simp_all add: check_pn_def)

lemma check_pn_stuck:
  assumes "o4 \<noteq> (0xff :: u8)" "o3 < (p3 :: u8)"
  shows "check_pn [o0, o1, o2, p3, p4, p5] [o0, o1, o2, o3, o4, o5] 0 = (0, [o0, o1, o2, o3, o4, o5], 0)"
proof -
  have "\<not> p3 < o3" using assms(2) by simp
  then show ?thesis using assms by (simp add: check_pn_def numeral_eq_Suc)
qed

lemma get_rx_upd_seq:
  "sta_info_get_rx v a (upd_sta sta (\<lambda>x. x\<lparr>last_seq_ctrl := w\<rparr>) m) = sta_info_get_rx v a m"
proof -
  let ?m = "upd_sta sta (\<lambda>x. x\<lparr>last_seq_ctrl := w\<rparr>) m"
  have "sta_vif (sta_heap ?m x) = sta_vif (sta_heap m x)" "sta_addr (sta_heap ?m x) = sta_addr (sta_heap m x)"
    "sta_hnext (sta_heap ?m x) = sta_hnext (sta_heap m x)" for x by simp_all
  then show ?thesis by (simp add: sta_info_get_rx_def)
qed

subsection \<open>Aggregates\<close>

lemma amsdu_frame_addr: "amsdu_frame f d e n = Some g \<Longrightarrow> skb_addr g = skb_addr f"
  by (auto simp: amsdu_frame_def Let_def push_ether_header_def skb_wrn_def skb_push_def skb_pull_def split: bind_splits if_splits)

lemma amsdu_loop_last:
  "amsdu_loop c h p kz k skb lst fr = Some (err, fs, fr', skb', k') \<Longrightarrow> err = 0 \<Longrightarrow>
     fr' = fr \<and> fs \<noteq> [] \<and> skb_addr (last fs) = skb_addr skb"
proof (induction "unat (skb_len skb)" arbitrary: c p k skb lst rule: less_induct)
  case less
  obtain eth where eth: "skb_rdn skb 0 14 = Some eth"
    using less.prems(1) by (subst (asm) amsdu_loop.simps) (auto split: bind_splits)
  define len where "len = le16 (eth ! 12) (eth ! 13)"
  define n where "n = unat (ntohs len)"
  define pad where "pad = unat ((4 - of_nat (14 + n) :: u32) AND 3)"
  note run = less.prems(1)[unfolded amsdu_loop.simps[of c h p kz k skb lst fr] eth bind.bind_lunit Let_def, folded len_def, folded n_def, folded pad_def]
  have a: "skb_addr (skb_pull x m) = skb_addr x" for x m by (simp add: skb_pull_def)
  have IH: "fr' = fr \<and> fs \<noteq> [] \<and> skb_addr (last fs) = skb_addr skb"
    if "\<not> unat (skb_len skb) \<le> 14 + n + pad"
      "amsdu_loop c' h p' kz (Suc k) (skb_pull (skb_pull skb 14) (n + pad)) l fr = Some (err, fs, fr', skb', k')" for c' p' l
    using less.hyps[OF _ that(2)] pull_pull_len[of 14 "n + pad" skb] that(1) less.prems(2) a by simp
  show ?case
    using run less.prems(2)
    by (auto simp: amsdu_purge_def a dest!: amsdu_frame_addr dest: IH split: if_splits bind_splits option.splits
       simp del: amsdu_loop.simps of_nat_add)
qed
lemma deliver_frames_freed:
  "deliver_frames fs s = Some s' \<Longrightarrow> rp_freed s' = rp_freed s @ map skb_addr fs"
proof (induction fs arbitrary: s)
  case (Cons f fs)
  then obtain u where "netif_rx (f\<lparr>skb_protocol := 0, skb_cb := zero_cb\<rparr>) s = Some u" "deliver_frames fs u = Some s'"
    by (auto split: bind_splits)
  then show ?case using Cons.IH[of u] netif_rx_ok by fastforce
qed simp

text \<open>C17. Every aggregate that is delivered is freed twice: its last subframe is in the buffer of the
  aggregate, which netif_rx frees, and ieee80211_rx_h_data frees it again.\<close>
theorem delivered_amsdu_is_freed_twice:
  assumes "ieee80211_rx_h_data env rx s = Some (RX_QUEUED, rx', s')"
    "has_flag (rx_rx_flags (rx_status rx)) IEEE80211_RX_AMSDU"
  shows "\<exists>subframes. rp_freed s' = rp_freed s @ subframes @ [skb_addr (rx_skb rx), skb_addr (rx_skb rx)]"
proof -
  obtain x t where h: "ieee80211_rx_h_amsdu env rx s = Some (RX_CONTINUE, x, t)" "s' = kfree_rx (rx_skb rx) t"
    using assms by (auto simp: ieee80211_rx_h_data_def Let_def split: bind_splits if_splits)
  obtain fs fr skb k where a: "atbm_ieee80211_amsdu_to_8023s (\<lambda>k. re_kz env (rp_allocs s + k)) (rx_skb rx) []
      (vif_addr (rp_vif s)) (vif_iftype (rp_vif s)) 0 True = Some (0, fs, fr, skb, k)"
    "deliver_frames fs (s\<lparr>rp_allocs := rp_allocs s + k, rp_freed := rp_freed s @ fr\<rparr>) = Some t"
    using h(1) by (auto simp: ieee80211_rx_h_amsdu_def Let_def split: bind_splits if_splits)
  obtain e where e: "ieee80211_data_to_8023 (rx_skb rx) (vif_addr (rp_vif s)) (vif_iftype (rp_vif s)) = Some (0, e)"
    "amsdu_loop True (ALIGN2 0 4) True (\<lambda>k. re_kz env (rp_allocs s + k)) 0 (skb_pull e 14) [] [] = Some (0, fs, fr, skb, k)"
    using a(1) by (auto simp: atbm_ieee80211_amsdu_to_8023s_def split: bind_splits if_splits)
  have f: "fr = []" "fs \<noteq> []" "skb_addr (last fs) = skb_addr (rx_skb rx)"
    using amsdu_loop_last[OF e(2)] to_8023_keeps[OF e(1)] by auto
  then have "map skb_addr fs = map skb_addr (butlast fs) @ [skb_addr (rx_skb rx)]"
    using append_butlast_last_id[OF f(2)] f(3) map_append[of skb_addr "butlast fs" "[last fs]"] by (simp del: map_append)
  then show ?thesis
    using deliver_frames_freed[OF a(2)] h(2) f(1) by (intro exI[of _ "map skb_addr (butlast fs)"]) (simp add: kfree_rx_def)
qed

text \<open>A frame that the decryption leaves alone: of a station without encryption, or one whose IV is gone.\<close>

lemma undecrypted_run:
  assumes v: "skb_view skb pre (ap_header QOS_FROMDS_PROTECTED dur a1 a2 a3 sq @ [q0, q1] @ body) post"
    and l: "length dur = 2" "length a1 = 6" "length a2 = 6" "length a3 = 6" "length sq = 2" "length body \<ge> 2"
      "skb_data_len skb = 0"
    and vif: "vif_iftype (rp_vif s) = NL80211_IFTYPE_STATION" "vif_addr (rp_vif s) = a1" "\<not> is_multicast_ether_addr a1"
    and sta: "sta_info_get_rx (vif_no (rp_vif s)) a2 (rp_mac s) = Some (Some sta)" "station_ready s sta"
    and enc: "wrx_status arg = 0 \<and> \<not> sta_enc (sta_heap (rp_mac s) sta) \<or> wrx_status arg = WSM_STATUS_MICFAILURE"
  obtains rx w where "atbm_rx_cb env arg skb s = map_option (Pair None)
       (do { (res, rx, s) \<leftarrow> call_rxh (tl (rx_handler_list env)) rx (s\<lparr>rp_mac := upd_sta sta (\<lambda>x. x\<lparr>last_seq_ctrl := w\<rparr>) (rp_mac s)\<rparr>);
             ieee80211_rx_handlers_result rx res s })"
    "skb_view (rx_skb rx) pre (ap_header QOS_FROMDS_PROTECTED dur a1 a2 a3 sq @ [q0, q1] @ body) post"
    "skb_addr (rx_skb rx) = skb_addr skb" "plain_frame (rx_skb rx) = (q0 AND IEEE80211_QOS_CONTROL_A_MSDU_PRESENT = 0)"
    "has_flag (rx_flag (rx_status rx)) RX_FLAG_DECRYPTED" "rx_key rx = None" "rx_sta rx = Some sta"
proof -
  let ?h = "ap_header QOS_FROMDS_PROTECTED dur a1 a2 a3 sq"
  have hl: "length ?h = 24" using ap_header_length l by simp
  have fc: "skb_fc skb = Some QOS_FROMDS_PROTECTED" using header_reads(1)[OF v l(1-5)] .
  have len: "unat (skb_len skb) \<ge> 28" using v hl l by (simp add: skb_view_def)
  define fl where "fl = (if wrx_status arg = WSM_STATUS_MICFAILURE then RX_FLAG_MMIC_ERROR else 0)"
  define k where "k = skb\<lparr>skb_cb := rx_cb_status arg fl True (skb_cb skb)\<rparr>"
  have dec: "has_flag (rx_flag (skb_cb k)) RX_FLAG_DECRYPTED" "wrx_status arg = WSM_STATUS_MICFAILURE \<Longrightarrow> has_flag (rx_flag (skb_cb k)) RX_FLAG_IV_STRIPPED"
    by (simp_all add: k_def rx_cb_status_def Let_def has_flag_or) (simp_all add: has_flag_def)
  have cb: "atbm_rx_cb env arg skb s = map_option (Pair None) (ieee80211_rx env k s)"
    using fc len enc by (auto simp: atbm_rx_cb_def k_def fl_def word_less_nat_alt map_option_case split: bind_splits option.splits)
  have vk: "skb_view k pre (?h @ [q0, q1] @ body) post" "skb_data_len k = 0" using v l by (simp_all add: k_def)
  obtain rx sk w where r: "ieee80211_rx env k s = ieee80211_rx_handlers env rx [sk]
      (s\<lparr>rp_mac := upd_sta sta (\<lambda>x. x\<lparr>last_seq_ctrl := w\<rparr>) (rp_mac s)\<rparr>)" "rx_sta rx = Some sta"
    "skb_view sk pre (?h @ [q0, q1] @ body) post"
    "skb_addr sk = skb_addr k" "plain_frame sk = (q0 AND IEEE80211_QOS_CONTROL_A_MSDU_PRESENT = 0)" "rx_flag (skb_cb sk) = rx_flag (skb_cb k)"
    by (rule rx_entry[OF vk(1) l(1-6) vk(2) vif sta])
  define s1 where "s1 = s\<lparr>rp_mac := upd_sta sta (\<lambda>x. x\<lparr>last_seq_ctrl := w\<rparr>) (rp_mac s)\<rparr>"
  define y where "y = rx\<lparr>rx_skb := sk, rx_key := None\<rparr>"
  have "ieee80211_rx_h_decrypt (rx\<lparr>rx_skb := sk\<rparr>) s1 = Some (RX_CONTINUE, y, s1)"
    using r(2,6) dec enc by (auto simp: ieee80211_rx_h_decrypt_def Let_def y_def rx_status_def s1_def)
  then have "call_rxh (rx_handler_list env) (rx\<lparr>rx_skb := sk\<rparr>) s1 = call_rxh (tl (rx_handler_list env)) y s1"
    by (simp add: rx_handler_list_def)
  then have "ieee80211_rx_handlers env rx [sk] s1 = do { (res, rx, s) \<leftarrow> call_rxh (tl (rx_handler_list env)) y s1;
      ieee80211_rx_handlers_result rx res s }" by (simp add: case_prod_beta)
  then show ?thesis
    using that[of y w] cb r dec by (simp add: s1_def[symmetric]) (simp add: y_def rx_status_def k_def)
qed

text \<open>C16. A protected aggregate from an associated station without encryption (an open network) makes the
  driver read the type of a key through a NULL pointer: the frame has the protected bit, so it counts as
  decrypted, but no key was chosen.\<close>
theorem protected_amsdu_dereferences_null:
  assumes v: "skb_view skb pre (ap_header QOS_FROMDS_PROTECTED dur a1 a2 a3 sq @ [q0, q1] @ body) post"
    and l: "length dur = 2" "length a1 = 6" "length a2 = 6" "length a3 = 6" "length sq = 2" "length body \<ge> 2"
      "skb_data_len skb = 0"
    and q: "q0 AND IEEE80211_QOS_CONTROL_A_MSDU_PRESENT \<noteq> 0"
    and vif: "vif_iftype (rp_vif s) = NL80211_IFTYPE_STATION" "vif_addr (rp_vif s) = a1" "\<not> is_multicast_ether_addr a1"
    and sta: "sta_info_get_rx (vif_no (rp_vif s)) a2 (rp_mac s) = Some (Some sta)" "station_ready s sta"
      "\<not> sta_enc (sta_heap (rp_mac s) sta)" "wrx_status arg = 0"
  shows "atbm_rx_cb env arg skb s = None"
proof -
  have "wrx_status arg = 0 \<and> \<not> sta_enc (sta_heap (rp_mac s) sta) \<or> wrx_status arg = WSM_STATUS_MICFAILURE"
    using sta(3,4) by simp
  from undecrypted_run[OF v l vif sta(1,2) this]
  obtain rx w where r: "atbm_rx_cb env arg skb s = map_option (Pair None)
       (do { (res, rx, s) \<leftarrow> call_rxh (tl (rx_handler_list env)) rx (s\<lparr>rp_mac := upd_sta sta (\<lambda>x. x\<lparr>last_seq_ctrl := w\<rparr>) (rp_mac s)\<rparr>);
             ieee80211_rx_handlers_result rx res s })"
    "skb_view (rx_skb rx) pre (ap_header QOS_FROMDS_PROTECTED dur a1 a2 a3 sq @ [q0, q1] @ body) post"
    "plain_frame (rx_skb rx) = (q0 AND IEEE80211_QOS_CONTROL_A_MSDU_PRESENT = 0)"
    "has_flag (rx_flag (rx_status rx)) RX_FLAG_DECRYPTED" "rx_key rx = None" "rx_sta rx = Some sta" by blast
  define t where "t = s\<lparr>rp_mac := upd_sta sta (\<lambda>x. x\<lparr>last_seq_ctrl := w\<rparr>) (rp_mac s)\<rparr>"
  obtain sk p1 where q: "ieee80211_rx_h_remove_qos_control rx t = Some (RX_CONTINUE, rx\<lparr>rx_skb := sk\<rparr>, t)"
    "skb_view sk p1 (ap_header FROMDS_PROTECTED dur a1 a2 a3 sq @ body) post" "skb_cb sk = skb_cb (rx_skb rx)"
  proof -
    have "length [q0, q1] = 2" by simp
    from remove_qos_view[OF r(2) l(1-5) this, of t] show ?thesis using that by metis
  qed
  have "ieee80211_rx_h_data env (rx\<lparr>rx_skb := sk\<rparr>) t = None"
    using header_reads[OF q(2) l(1-5)] r(3-5) q(3) assms(9) vif(3)
    by (simp add: ieee80211_rx_h_data_def ieee80211_rx_h_amsdu_def plain_frame_def rx_status_def)
  moreover have "ieee80211_rx_h_sta_process rx t = Some (RX_CONTINUE, rx, t)"
    using header_reads(1)[OF r(2) l(1-5)] r(6) by (simp add: ieee80211_rx_h_sta_process_def)
  moreover have "ieee80211_rx_h_michael_mic_verify rx t = Some (RX_CONTINUE, rx, t)"
    using r(5) by (simp add: ieee80211_rx_h_michael_mic_verify_def)
  ultimately show ?thesis using r(1) q(1) by (simp add: rx_handler_list_def t_def[symmetric])
qed

text \<open>C15. A data frame with a failed Michael MIC is delivered: atbm_rx_cb marks it as one whose IV is gone, so
  no key is chosen, and without a key the test of the MIC continues.  The firmware's report is lost.\<close>
theorem mic_failure_is_delivered:
  assumes v: "skb_view skb pre (ap_header QOS_FROMDS_PROTECTED dur a1 a2 a3 sq @ [q0, q1] @ enc @ ty @ rest) post"
    and l: "length dur = 2" "length a1 = 6" "length a2 = 6" "length a3 = 6" "length sq = 2"
      "length enc = 6" "length ty = 2" "skb_data_len skb = 0"
    and q: "q0 AND IEEE80211_QOS_CONTROL_A_MSDU_PRESENT = 0"
    and e: "snap_encap (enc @ ty) (be16 (ty ! 0) (ty ! 1))"
    and vif: "vif_iftype (rp_vif s) = NL80211_IFTYPE_STATION" "vif_addr (rp_vif s) = a1" "\<not> is_multicast_ether_addr a1"
    and sta: "sta_info_get_rx (vif_no (rp_vif s)) a2 (rp_mac s) = Some (Some sta)" "station_ready s sta"
      "test_sta_flag sta WLAN_STA_AUTHORIZED (rp_mac s) = Some True"
    and arg: "wrx_status arg = WSM_STATUS_MICFAILURE"
  shows "\<exists>s'. atbm_rx_cb env arg skb s = Some (None, s') \<and> rp_delivered s' = rp_delivered s @ [a1 @ a3 @ ty @ rest]"
proof -
  have b: "length (enc @ ty @ rest) \<ge> 2" using l by simp
  have "unat (skb_len skb) = 34 + length rest" using v ap_header_length l by (simp add: skb_view_def)
  then have rl: "length rest + 14 < 2 ^ 16" using unat_lt2p[of "skb_len skb"] by simp
  obtain rx w where r: "atbm_rx_cb env arg skb s = map_option (Pair None)
       (do { (res, rx, s) \<leftarrow> call_rxh (tl (rx_handler_list env)) rx (s\<lparr>rp_mac := upd_sta sta (\<lambda>x. x\<lparr>last_seq_ctrl := w\<rparr>) (rp_mac s)\<rparr>);
             ieee80211_rx_handlers_result rx res s })"
    "skb_view (rx_skb rx) pre (ap_header QOS_FROMDS_PROTECTED dur a1 a2 a3 sq @ [q0, q1] @ enc @ ty @ rest) post"
    "skb_addr (rx_skb rx) = skb_addr skb" "plain_frame (rx_skb rx) = (q0 AND IEEE80211_QOS_CONTROL_A_MSDU_PRESENT = 0)"
    "has_flag (rx_flag (rx_status rx)) RX_FLAG_DECRYPTED" "rx_key rx = None" "rx_sta rx = Some sta"
    by (rule undecrypted_run[OF v l(1-5) b l(8) vif sta(1,2) disjI2[OF arg]])
  define t where "t = s\<lparr>rp_mac := upd_sta sta (\<lambda>x. x\<lparr>last_seq_ctrl := w\<rparr>) (rp_mac s)\<rparr>"
  have "\<exists>rx' s'. call_rxh (tl (rx_handler_list env)) rx t = Some (RX_QUEUED, rx', s') \<and>
      rp_delivered s' = rp_delivered t @ [a1 @ a3 @ ty @ rest] \<and>
      rp_freed s' = rp_freed t @ [skb_addr (rx_skb rx)] \<and> rp_vif s' = rp_vif t \<and> rp_mac s' = rp_mac t"
    unfolding rx_handler_list_def list.sel
    by (rule deliver_tail[OF r(2) l(1-5) _ l(6,7) rl e vif(3) r(5) _ _ r(7)])
      (use r sta vif q in \<open>simp_all add: t_def upd_station_flags\<close>)
  then obtain rx' s' where "call_rxh (tl (rx_handler_list env)) rx t = Some (RX_QUEUED, rx', s')"
    "rp_delivered s' = rp_delivered t @ [a1 @ a3 @ ty @ rest]" by blast
  then show ?thesis using r(1) by (simp add: t_def[symmetric] ieee80211_rx_handlers_result_def) (simp add: t_def)
qed

text \<open>C5. A frame encrypted with CCMP from the access point reaches the network stack: atbm_rx_cb gives
  the stack the Ethernet frame made from its addresses and payload, without the CCMP header and the MIC, once, frees the buffer
  once, and remembers the packet number.\<close>
theorem ccmp_frame_delivered:
  fixes s :: rx_path
  assumes v: "skb_view skb pre (ap_header QOS_FROMDS_PROTECTED dur a1 a2 a3 sq @ [q0, q1] @ iv @ enc @ ty @ rest @ mic) post"
    and l: "length dur = 2" "length a1 = 6" "length a2 = 6" "length a3 = 6" "length sq = 2"
      "length iv = 8" "length mic = 8" "length enc = 6" "length ty = 2" "skb_data_len skb = 0"
    and q: "q0 AND IEEE80211_QOS_CONTROL_A_MSDU_PRESENT = 0"
    and e: "snap_encap (enc @ ty) (be16 (ty ! 0) (ty ! 1))"
    and vif: "vif_iftype (rp_vif s) = NL80211_IFTYPE_STATION" "vif_addr (rp_vif s) = a1" "\<not> is_multicast_ether_addr a1"
    and sta: "sta_info_get_rx (vif_no (rp_vif s)) a2 (rp_mac s) = Some (Some sta)" "station_ready s sta"
      "test_sta_flag sta WLAN_STA_AUTHORIZED (rp_mac s) = Some True"
      "sta_enc (sta_heap (rp_mac s) sta)" "key_type (sta_cipher (sta_heap (rp_mac s) sta)) = IEEE80211_ENC_AES"
    and pn: "check_pn (ccmp_tkip_hdr2pn iv True) (ptk_pn (rp_vif s)) (ptk_pn_init (rp_vif s)) = (0, pn', first')"
    and arg: "wrx_status arg = 0"
  shows "\<exists>s'. atbm_rx_cb env arg skb s = Some (None, s') \<and>
     rp_delivered s' = rp_delivered s @ [a1 @ a3 @ ty @ rest] \<and> rp_freed s' = rp_freed s @ [skb_addr skb] \<and>
     rp_vif s' = (rp_vif s)\<lparr>ptk_pn := pn', ptk_pn_init := first'\<rparr>"
  using ccmp_frame_delivered_ok[OF assms] by blast

text \<open>C14. Protection against replays can be lost for good: when the packet number grows in its fourth byte
  while the fifth byte of the stored number is not 0xff (256 or more frames were lost around the carry), the
  frame is accepted but its number is not stored.  The same frame, received again, is delivered again.\<close>
theorem replayed_frame_is_delivered_again:
  fixes s :: rx_path
  assumes v: "skb_view skb pre (ap_header QOS_FROMDS_PROTECTED dur a1 a2 a3 sq @ [q0, q1] @ iv @ enc @ ty @ rest @ mic) post"
    and l: "length dur = 2" "length a1 = 6" "length a2 = 6" "length a3 = 6" "length sq = 2"
      "length iv = 8" "length mic = 8" "length enc = 6" "length ty = 2" "skb_data_len skb = 0"
    and q: "q0 AND IEEE80211_QOS_CONTROL_A_MSDU_PRESENT = 0"
    and e: "snap_encap (enc @ ty) (be16 (ty ! 0) (ty ! 1))"
    and vif: "vif_iftype (rp_vif s) = NL80211_IFTYPE_STATION" "vif_addr (rp_vif s) = a1" "\<not> is_multicast_ether_addr a1"
    and sta: "sta_info_get_rx (vif_no (rp_vif s)) a2 (rp_mac s) = Some (Some sta)" "station_ready s sta"
      "test_sta_flag sta WLAN_STA_AUTHORIZED (rp_mac s) = Some True"
      "sta_enc (sta_heap (rp_mac s) sta)" "key_type (sta_cipher (sta_heap (rp_mac s) sta)) = IEEE80211_ENC_AES"
    and pn: "ccmp_tkip_hdr2pn iv True = [o0, o1, o2, p3, p4, p5]" "ptk_pn (rp_vif s) = [o0, o1, o2, o3, o4, o5]"
      "ptk_pn_init (rp_vif s) = 0" "o4 \<noteq> 0xff" "o3 < p3"
    and arg: "wrx_status arg = 0"
  shows "\<exists>s' s''. atbm_rx_cb env arg skb s = Some (None, s') \<and> atbm_rx_cb env arg skb s' = Some (None, s'') \<and>
     rp_delivered s'' = rp_delivered s @ [a1 @ a3 @ ty @ rest, a1 @ a3 @ ty @ rest] \<and> rp_vif s'' = rp_vif s"
proof -
  have c: "check_pn (ccmp_tkip_hdr2pn iv True) (ptk_pn (rp_vif s)) (ptk_pn_init (rp_vif s)) = (0, ptk_pn (rp_vif s), ptk_pn_init (rp_vif s))"
    using check_pn_stuck[OF pn(4,5)] pn(1-3) by simp
  from ccmp_frame_delivered_ok[OF v l q e vif sta c arg, of env]
  obtain s' w where s': "atbm_rx_cb env arg skb s = Some (None, s')" "rp_delivered s' = rp_delivered s @ [a1 @ a3 @ ty @ rest]"
    "rp_vif s' = (rp_vif s)\<lparr>ptk_pn := ptk_pn (rp_vif s), ptk_pn_init := ptk_pn_init (rp_vif s)\<rparr>"
    "rp_mac s' = upd_sta sta (\<lambda>x. x\<lparr>last_seq_ctrl := w\<rparr>) (rp_mac s)" "length w = NUM_RX_DATA_QUEUES + 1" by blast
  have same: "rp_vif s' = rp_vif s" using s'(3) by simp
  have sta': "sta_info_get_rx (vif_no (rp_vif s')) a2 (rp_mac s') = Some (Some sta)" "station_ready s' sta"
      "test_sta_flag sta WLAN_STA_AUTHORIZED (rp_mac s') = Some True"
      "sta_enc (sta_heap (rp_mac s') sta)" "key_type (sta_cipher (sta_heap (rp_mac s') sta)) = IEEE80211_ENC_AES"
    using sta s'(5) by (simp_all add: same s'(4) get_rx_upd_seq upd_station_flags station_ready_def Let_def)
  from ccmp_frame_delivered_ok[OF v l q e _ _ vif(3) sta' _ arg, of "ptk_pn (rp_vif s)" "ptk_pn_init (rp_vif s)" env]
  obtain s'' where "atbm_rx_cb env arg skb s' = Some (None, s'')" "rp_delivered s'' = rp_delivered s' @ [a1 @ a3 @ ty @ rest]"
    "rp_vif s'' = (rp_vif s')\<lparr>ptk_pn := ptk_pn (rp_vif s), ptk_pn_init := ptk_pn_init (rp_vif s)\<rparr>"
    using c vif by (auto simp: same)
  then show ?thesis using s' same by auto
qed

text \<open>C8. No frame that is not an aggregate reaches the network stack from a station that is not authorised,
  whatever the frames of the queue contain.\<close>
theorem unauthorised_frames_not_delivered:
  assumes "ieee80211_rx_handlers env rx skbs s = Some s'" "\<forall>skb\<in>set skbs. plain_frame skb"
    "\<not> authorised (rx_sta rx) (rp_mac s)"
  shows "rp_delivered s' = rp_delivered s"
  using rx_handlers_ok[OF assms(1,2)] assms(3) by simp

text \<open>C9. The handlers give away every frame of the queue that is not an aggregate exactly once: it is
  freed, or it is in the queue of the interface.\<close>
theorem frames_consumed_once:
  assumes "ieee80211_rx_handlers env rx skbs s = Some s'" "\<forall>skb\<in>set skbs. plain_frame skb"
  shows "owned s' = owned s + mset (map skb_addr skbs)"
  using rx_handlers_ok[OF assms] by simp

subsection \<open>Witnesses\<close>

text \<open>A station of an access point, with and without encryption, and a frame from it.\<close>

definition demo_ap :: "bool \<Rightarrow> sta_info" where
  "demo_ap enc = demo_sta\<lparr>sta_flags := [10], sta_enc := enc, sta_cipher := \<lparr>key_type = IEEE80211_ENC_AES, key_iv_len = 8, key_icv_len = 8\<rparr>\<rparr>"

definition demo_rx_vif :: rx_vif where
  "demo_rx_vif = \<lparr>vif_no = 0, vif_addr = [2,0,0,0,0,9], vif_iftype = NL80211_IFTYPE_STATION,
     vif_enabled = True, vif_connect_success = True, vif_bssid = [2,0,0,0,0,7], vif_ssid = replicate 32 0, vif_ssid_len = 0,
     vif_ap_key = no_key, vif_group_key = no_key,
     vif_ap_enc = True, ptk_pn = [0,0,0,1,0,5], ptk_pn_init = 0, ptk_noqos_pn = replicate 6 0, ptk_noqos_pn_init = 1,
     gtk_pn = replicate 6 0, gtk_pn_init = 1, vif_skb_queue = [], vif_works = 0\<rparr>"

definition demo_rx_path :: "bool \<Rightarrow> rx_path" where
  "demo_rx_path enc = \<lparr>rp_mac = demo_mac\<lparr>sta_heap := (\<lambda>_. demo_ap enc), sta_hash := (\<lambda>i. if i = 7 then Some 3 else None)\<rparr>,
     rp_vif = demo_rx_vif, rp_delivered = [], rp_freed = [], rp_allocs = 0, rp_packets = 0, rp_bytes = 0, rp_tx_packets = 0, rp_tx_bytes = 0,
     rp_timeout = 100, rp_short_tcp = 0\<rparr>"

definition demo_rx_env :: rx_env where
  "demo_rx_env = \<lparr>re_kz = (\<lambda>_. Some 4096), re_vstart = (\<lambda>_. (9, [])), re_jiffies = 0\<rparr>"

definition demo_arg :: "u32 \<Rightarrow> wsm_rx" where
  "demo_arg st = \<lparr>wrx_status = st, wrx_channelNumber = 1, wrx_rxedRate = 14, wrx_rcpiRssi = 0xC0, wrx_flags = 0,
     wrx_channel_type = 0, wrx_link_id = 0, wrx_if_id = 0\<rparr>"

abbreviation demo_header :: bytes where
  "demo_header \<equiv> ap_header QOS_FROMDS_PROTECTED [0,0] [2,0,0,0,0,9] [2,0,0,0,0,7] [2,0,0,0,0,8] [0x10,0]"

lemma demo_path_ok:
  "vif_iftype (rp_vif (demo_rx_path b)) = NL80211_IFTYPE_STATION" "vif_addr (rp_vif (demo_rx_path b)) = [2,0,0,0,0,9]"
  "\<not> is_multicast_ether_addr [2,0,0,0,0,9]"
  "sta_info_get_rx (vif_no (rp_vif (demo_rx_path b))) [2,0,0,0,0,7] (rp_mac (demo_rx_path b)) = Some (Some 3)"
  "station_ready (demo_rx_path b) 3" "test_sta_flag 3 WLAN_STA_AUTHORIZED (rp_mac (demo_rx_path b)) = Some True"
  "sta_enc (sta_heap (rp_mac (demo_rx_path b)) 3) = b"
  "key_type (sta_cipher (sta_heap (rp_mac (demo_rx_path b)) 3)) = IEEE80211_ENC_AES"
  by (simp_all add: demo_rx_path_def demo_rx_vif_def is_multicast_ether_addr_def sta_info_get_rx_def STA_HASH_def
      chain_find.simps demo_ap_def demo_sta_def station_ready_def Let_def test_sta_flag_def test_bit_at_def bit_word_def)

lemma demo_snap: "snap_encap (rfc1042_header @ [8, 0]) (be16 ([8, 0] ! 0) ([8, 0] ! 1))"
  by (simp add: snap_encap_def compare_ether_addr_def rfc1042_header_def be16_def)

definition demo_ap_frame :: "bytes \<Rightarrow> sk_buff" where
  "demo_ap_frame b = mk_skb 7 [] (demo_header @ b) []"

lemma demo_ap_frame_ok:
  "length b < 60000 \<Longrightarrow> skb_view (demo_ap_frame b) [] (demo_header @ b) []"
  "skb_data_len (demo_ap_frame b) = 0" "skb_addr (demo_ap_frame b) = 7" "skb_cb (demo_ap_frame b) = zero_cb"
  unfolding demo_ap_frame_def by (rule mk_skb_ok(1)) (simp_all add: ap_header_def bytes16_def mk_skb_def)

definition ccmp_body :: "u8 \<Rightarrow> u8 \<Rightarrow> bytes" where
  "ccmp_body p2 p5 = [0, 0] @ [p5,0,0,0x20,p2,0,0,0] @ rfc1042_header @ [8, 0] @ [0x45] @ replicate 8 0"

lemma demo_ccmp_frame:
  "skb_view (demo_ap_frame (ccmp_body p2 p5)) [] (demo_header @ [0, 0] @ [p5,0,0,0x20,p2,0,0,0] @ rfc1042_header @ [8, 0] @ [0x45] @ replicate 8 0) []"
  using demo_ap_frame_ok(1)[of "ccmp_body p2 p5"] by (simp add: ccmp_body_def rfc1042_header_def)

lemma demo_path_empty: "rp_delivered (demo_rx_path b) = []" "rp_freed (demo_rx_path b) = []"
  by (simp_all add: demo_rx_path_def)

text \<open>The packet number 00 00 00 01 00 06 is the next one, 00 00 00 02 00 00 comes after a loss.\<close>
theorem ccmp_frame_delivered_witness:
  "\<exists>s'. atbm_rx_cb demo_rx_env (demo_arg 0) (demo_ap_frame (ccmp_body 1 6)) (demo_rx_path True) = Some (None, s') \<and>
     rp_delivered s' = [[2,0,0,0,0,9] @ [2,0,0,0,0,8] @ [8, 0] @ [0x45]] \<and> rp_freed s' = [7] \<and>
     ptk_pn (rp_vif s') = [0,0,0,1,0,6]"
proof -
  have "check_pn (ccmp_tkip_hdr2pn [6,0,0,0x20,1,0,0,0] True) [0,0,0,1,0,5] 0 = (0, [0,0,0,1,0,6], 0)"
    by code_simp
  then have p: "check_pn (ccmp_tkip_hdr2pn [6,0,0,0x20,1,0,0,0] True) (ptk_pn (rp_vif (demo_rx_path True))) (ptk_pn_init (rp_vif (demo_rx_path True)))
      = (0, [0,0,0,1,0,6], 0)"
    by (simp add: demo_rx_path_def demo_rx_vif_def)
  show ?thesis
    using ccmp_frame_delivered[OF demo_ccmp_frame _ _ _ _ _ _ _ _ _ demo_ap_frame_ok(2) _ demo_snap demo_path_ok(1-6) _ demo_path_ok(8) p, of "demo_arg 0" demo_rx_env]
      demo_path_ok(7)[of True]
    by (auto simp: demo_path_empty demo_arg_def rfc1042_header_def demo_ap_frame_ok(3))
qed

theorem replayed_frame_is_delivered_again_witness:
  "\<exists>s' s''. atbm_rx_cb demo_rx_env (demo_arg 0) (demo_ap_frame (ccmp_body 2 0)) (demo_rx_path True) = Some (None, s') \<and>
     atbm_rx_cb demo_rx_env (demo_arg 0) (demo_ap_frame (ccmp_body 2 0)) s' = Some (None, s'') \<and>
     rp_delivered s'' = replicate 2 ([2,0,0,0,0,9] @ [2,0,0,0,0,8] @ [8, 0] @ [0x45])"
proof -
  have p: "ccmp_tkip_hdr2pn [0,0,0,0x20,2,0,0,0] True = [0,0,0,2,0,0]" by (simp add: ccmp_tkip_hdr2pn_def)
  have o: "ptk_pn (rp_vif (demo_rx_path True)) = [0,0,0,1,0,5]" "ptk_pn_init (rp_vif (demo_rx_path True)) = 0"
    by (simp_all add: demo_rx_path_def demo_rx_vif_def)
  have "\<exists>s' s''. atbm_rx_cb demo_rx_env (demo_arg 0) (demo_ap_frame (ccmp_body 2 0)) (demo_rx_path True) = Some (None, s') \<and>
     atbm_rx_cb demo_rx_env (demo_arg 0) (demo_ap_frame (ccmp_body 2 0)) s' = Some (None, s'') \<and>
     rp_delivered s'' = rp_delivered (demo_rx_path True) @ [[2,0,0,0,0,9] @ [2,0,0,0,0,8] @ [8, 0] @ [0x45], [2,0,0,0,0,9] @ [2,0,0,0,0,8] @ [8, 0] @ [0x45]] \<and>
     rp_vif s'' = rp_vif (demo_rx_path True)"
    by (rule replayed_frame_is_delivered_again[OF demo_ccmp_frame _ _ _ _ _ _ _ _ _ demo_ap_frame_ok(2) _ demo_snap demo_path_ok(1-6) _ demo_path_ok(8) p o])
      (simp_all add: demo_path_ok(7) rfc1042_header_def demo_arg_def)
  then show ?thesis by (simp add: demo_path_empty numeral_2_eq_2) blast
qed

theorem mic_failure_is_delivered_witness:
  "\<exists>s'. atbm_rx_cb demo_rx_env (demo_arg 5) (demo_ap_frame ([0, 0] @ rfc1042_header @ [8, 0] @ [0x45])) (demo_rx_path True) = Some (None, s') \<and>
     rp_delivered s' = [[2,0,0,0,0,9] @ [2,0,0,0,0,8] @ [8, 0] @ [0x45]]"
proof -
  have v: "skb_view (demo_ap_frame ([0, 0] @ rfc1042_header @ [8, 0] @ [0x45])) [] (demo_header @ [0, 0] @ rfc1042_header @ [8, 0] @ [0x45]) []"
    using demo_ap_frame_ok(1)[of "[0, 0] @ rfc1042_header @ [8, 0] @ [0x45]"] by (simp add: rfc1042_header_def)
  show ?thesis
    using mic_failure_is_delivered[OF v _ _ _ _ _ _ _ demo_ap_frame_ok(2) _ demo_snap demo_path_ok(1-6), of "demo_arg 5" demo_rx_env]
    by (simp add: demo_path_empty demo_arg_def rfc1042_header_def)
qed

theorem protected_amsdu_dereferences_null_witness:
  "atbm_rx_cb demo_rx_env (demo_arg 0) (demo_ap_frame ([0x80, 0] @ [1, 2])) (demo_rx_path False) = None"
proof -
  have v: "skb_view (demo_ap_frame ([0x80, 0] @ [1, 2])) [] (demo_header @ [0x80, 0] @ [1, 2]) []"
    by (rule demo_ap_frame_ok(1)) simp
  show ?thesis
    by (rule protected_amsdu_dereferences_null[OF v _ _ _ _ _ _ demo_ap_frame_ok(2) _ demo_path_ok(1-5)])
      (simp_all add: demo_path_ok(7) demo_arg_def)
qed

theorem replay_test_compares_numbers_witness:
  "check_pn [0,0,0,0,1,0] [0,0,0,0,1,0] 0 = (-1, [0,0,0,0,1,0], 0) \<and> fst (check_pn [0,0,0,0,1,1] [0,0,0,0,1,0] 0) = 0"
  using replay_test_compares_numbers[of "[0,0,0,0,1,0]" "[0,0,0,0,1,0]"] replay_test_compares_numbers[of "[0,0,0,0,1,1]" "[0,0,0,0,1,0]"]
  by (auto simp: pn_num_def prod_eq_iff)

text \<open>Two beacons are queued for the work of the interface.\<close>

definition demo_mgmt :: "nat \<Rightarrow> sk_buff" where
  "demo_mgmt a = mk_skb a [] ([0x80, 0] @ replicate 34 0) []"

definition demo_rx_data :: rx_data where
  "demo_rx_data = \<lparr>rx_skb = demo_mgmt 1, rx_sta = None, rx_key = None, rx_seqno_idx = 16\<rparr>"

lemma demo_mgmt_ok: "skb_fc (demo_mgmt a) = Some 0x80" "plain_frame (demo_mgmt a)" "skb_addr (demo_mgmt a) = a"
  "skb_cb (demo_mgmt a) = zero_cb"
  by (simp_all add: demo_mgmt_def mk_skb_def skb_fc_def skb_rd16_def rd16_def rd8_def le16_def plain_frame_def zero_cb_def has_flag_def)

lemma beacon_queued:
  assumes "skb_fc (rx_skb rx) = Some 0x80" "rx_sta rx = None"
  shows "call_rxh (rx_handler_list env) rx s = Some (queue_frame (rx\<lparr>rx_key := None\<rparr>) s)"
  using assms
  by (simp add: rx_handler_list_def ieee80211_rx_h_decrypt_def ieee80211_rx_h_sta_process_def
      ieee80211_rx_h_michael_mic_verify_def ieee80211_rx_h_remove_qos_control_def ieee80211_rx_h_data_def
      ieee80211_rx_h_action_def ieee80211_rx_h_mgmt_def fc_defs queue_frame_def Let_def)

lemma demo_mgmt_run:
  obtains s' where "ieee80211_rx_handlers demo_rx_env demo_rx_data [demo_mgmt 1, demo_mgmt 2] (demo_rx_path True) = Some s'"
  using that
  by (simp add: beacon_queued demo_rx_data_def demo_mgmt_ok queue_frame_def Let_def ieee80211_rx_handlers_result_def)

lemma demo_path_owned: "owned (demo_rx_path b) = {#}" by (simp add: owned_def demo_rx_path_def demo_rx_vif_def)

theorem frames_consumed_once_witness:
  "\<exists>s'. ieee80211_rx_handlers demo_rx_env demo_rx_data [demo_mgmt 1, demo_mgmt 2] (demo_rx_path True) = Some s' \<and>
     owned s' = {#1, 2#}"
proof -
  obtain s' where s': "ieee80211_rx_handlers demo_rx_env demo_rx_data [demo_mgmt 1, demo_mgmt 2] (demo_rx_path True) = Some s'"
    by (rule demo_mgmt_run)
  then show ?thesis using frames_consumed_once[OF s'] by (simp add: demo_mgmt_ok demo_path_owned)
qed

theorem unauthorised_frames_not_delivered_witness:
  "\<exists>s'. ieee80211_rx_handlers demo_rx_env demo_rx_data [demo_mgmt 1, demo_mgmt 2] (demo_rx_path True) = Some s' \<and>
     rp_delivered s' = []"
proof -
  obtain s' where s': "ieee80211_rx_handlers demo_rx_env demo_rx_data [demo_mgmt 1, demo_mgmt 2] (demo_rx_path True) = Some s'"
    by (rule demo_mgmt_run)
  then show ?thesis using unauthorised_frames_not_delivered[OF s']
    by (simp add: demo_mgmt_ok demo_path_empty authorised_def demo_rx_data_def)
qed

text \<open>An aggregate of one subframe to the address aa:aa:03:00:00:00.\<close>

definition demo_amsdu :: rx_data where
  "demo_amsdu = \<lparr>rx_skb = (mk_skb 7 (replicate 8 0) ([8, 2, 0, 0] @ [2,0,0,0,0,9] @ [2,0,0,0,0,8] @ [2,0,0,0,0,7] @ [0, 0]
       @ rfc1042_header @ [0x81,0x37,0,0,0,2] @ [0, 8] @ [1,2,3,4,5,6,7,8]) [])\<lparr>skb_cb := zero_cb\<lparr>rx_rx_flags := 8\<rparr>\<rparr>,
     rx_sta = None, rx_key = None, rx_seqno_idx = 0\<rparr>"

definition open_path :: rx_path where
  "open_path = (demo_rx_path False)\<lparr>rp_vif := demo_rx_vif\<lparr>vif_ap_enc := False\<rparr>\<rparr>"

lemma demo_amsdu_run:
  "map_option (\<lambda>(r, x, s). (r, rp_freed s)) (ieee80211_rx_h_data demo_rx_env demo_amsdu open_path) = Some (RX_QUEUED, [7, 7])"
  by code_simp

theorem delivered_amsdu_is_freed_twice_witness:
  "\<exists>rx' s' subframes. ieee80211_rx_h_data demo_rx_env demo_amsdu open_path = Some (RX_QUEUED, rx', s') \<and>
     rp_freed s' = subframes @ [7, 7]"
proof -
  obtain rx' s' where r: "ieee80211_rx_h_data demo_rx_env demo_amsdu open_path = Some (RX_QUEUED, rx', s')"
    using demo_amsdu_run by auto
  have "has_flag (rx_rx_flags (rx_status demo_amsdu)) IEEE80211_RX_AMSDU" "skb_addr (rx_skb demo_amsdu) = 7"
    by (simp_all add: demo_amsdu_def rx_status_def has_flag_def mk_skb_def)
  then show ?thesis using delivered_amsdu_is_freed_twice[OF r] r by (auto simp: open_path_def demo_path_empty)
qed

end
