(* ===== verification/Tx_Path.thy ===== *)
theory Tx_Path
  imports Rx_Path Bh_Tx
begin

text \<open>The transmit path of a data frame: the entry the network stack calls (atbm_wifi_tx_pkt,
  atbm_wifi_tx_pkt_dir of os/ankai_V330/atbm_os_skbuf.c), the conversion of the Ethernet frame
  (atbm_subif_start_xmit of hal_apollo/iface.c) and the message for the firmware (atbm_tx of
  hal_apollo/txrx.c).

  The state is the adapter whose extra part is the state of the interface (rx_path): the queue of
  messages is in the first, stations and keys are in the second.  On this port a buffer is never shared
  or cloned, pskb_expand_head always fails, and the queue of a frame is 0.\<close>

abbreviation (input) TX_EXTRA_HEADROOM :: u32 where "TX_EXTRA_HEADROOM \<equiv> 32"
abbreviation (input) sizeof_wsm_tx :: nat where "sizeof_wsm_tx \<equiv> 28"
abbreviation (input) WSM_TX_LINUX_HOST :: u32 where "WSM_TX_LINUX_HOST \<equiv> 0x200"
abbreviation (input) WSM_NEED_TX_CONFIRM :: u32 where "WSM_NEED_TX_CONFIRM \<equiv> 0x100"
abbreviation (input) WSM_TX_2BYTES_SHIFT :: u8 where "WSM_TX_2BYTES_SHIFT \<equiv> 0x80"
abbreviation (input) WSM_HT_TX_MIXED :: u32 where "WSM_HT_TX_MIXED \<equiv> 1"
abbreviation (input) WSM_HT_TX_SGI :: u32 where "WSM_HT_TX_SGI \<equiv> 4"
abbreviation (input) RATE_INDEX_B_11M :: u8 where "RATE_INDEX_B_11M \<equiv> 3"
abbreviation (input) RATE_INDEX_A_36M :: u8 where "RATE_INDEX_A_36M \<equiv> 11"
abbreviation (input) RATE_INDEX_N_39M :: u8 where "RATE_INDEX_N_39M \<equiv> 18"
abbreviation (input) STA_11G_MODE :: u8 where "STA_11G_MODE \<equiv> 2"
abbreviation (input) STA_11N_MODE :: u8 where "STA_11N_MODE \<equiv> 4"
abbreviation (input) IEEE80211_ENCRYPT_HEADROOM :: int where "IEEE80211_ENCRYPT_HEADROOM \<equiv> 20"
abbreviation (input) IEEE80211_QOS_CTL_TAG1D_MASK :: u8 where "IEEE80211_QOS_CTL_TAG1D_MASK \<equiv> 7"
abbreviation (input) IEEE80211_QOS_CTL_EOSP :: u8 where "IEEE80211_QOS_CTL_EOSP \<equiv> 0x10"
abbreviation (input) NETDEV_TX_OK :: int where "NETDEV_TX_OK \<equiv> 0"
abbreviation (input) NETDEV_TX_BUSY :: int where "NETDEV_TX_BUSY \<equiv> -1"
abbreviation (input) ENOMEM :: int where "ENOMEM \<equiv> 12"

type_synonym adapter = "rx_path atbm_common"

subsection \<open>The queue of messages\<close>

definition netif_tx_stop_all_queues :: "'m atbm_common \<Rightarrow> 'm atbm_common" where
  "netif_tx_stop_all_queues hw =
     (if lwip_queue_enable hw \<and> lwip_enable hw then hw\<lparr>lwip_queue_enable := False\<rparr> else hw)"

definition atbm_submit_package :: "sk_buff \<Rightarrow> 'm atbm_common \<Rightarrow> 'm atbm_common option" where
  "atbm_submit_package skb hw = do {
     let hw = hw\<lparr>tx_frame_queue := tx_frame_queue hw @ [skb], tx_num_queued := tx_num_queued hw + 1\<rparr>;
     hw \<leftarrow> (if \<not> tx_queue_overfull hw \<and> tx_num_queued hw \<ge> ATBM_WIFI_MAX_QUEUE_SZ then do {
              guard (vif_type hw \<noteq> None);
              Some (netif_tx_stop_all_queues (hw\<lparr>tx_queue_overfull := True\<rparr>)) }
            else Some hw);
     Some (atbm_bh_wakeup hw) }"

subsection \<open>The message of a frame\<close>

text \<open>The key of a station, or of the group for a frame without one.\<close>

definition tx_key :: "nat option \<Rightarrow> rx_path \<Rightarrow> ieee80211_key" where
  "tx_key sta s = (case sta of None \<Rightarrow> vif_group_key (rp_vif s) | Some x \<Rightarrow> sta_cipher (sta_heap (rp_mac s) x))"

text \<open>Room for the IV behind the header.  The headroom is unsigned.\<close>

definition atbm_tx_h_crypt :: "nat option \<Rightarrow> sk_buff \<Rightarrow> rx_path \<Rightarrow> (int \<times> sk_buff) option" where
  "atbm_tx_h_crypt sta skb s = do {
     let key = tx_key sta s;
     let iv_len = key_iv_len key;
     if key_type key \<le> IEEE80211_ENC_TYPE then Some (0, skb)
     else if (of_int (skb_headroom skb) :: u32) < TX_EXTRA_HEADROOM + ucast iv_len then Some (-2, skb)
     else do {
       fc \<leftarrow> skb_fc skb;
       let fc = fc OR IEEE80211_FCTL_PROTECTED;
       skb \<leftarrow> skb_wrn skb 0 (bytes16 fc);
       let skb = skb_push skb (unat iv_len);
       hdr \<leftarrow> skb_rdn skb (int (unat iv_len)) (unat (ieee80211_hdrlen fc));
       skb \<leftarrow> skb_wrn skb 0 hdr;
       Some (0, skb) } }"

definition ieee802_1d_to_ac :: "nat list" where
  "ieee802_1d_to_ac = [2, 3, 3, 2, 1, 1, 0, 0]"

definition wsm_queue_id_to_wsm :: "nat \<Rightarrow> u8" where
  "wsm_queue_id_to_wsm queueId = [3, 2, 0, 1] ! queueId"

text \<open>struct wsm_tx.\<close>

record wsm_tx =
  wt_flag :: u32
  wt_len :: u16
  wt_id :: u16
  wt_packetID :: u32
  wt_maxTxRate :: u8
  wt_queueId :: u8
  wt_more :: u8
  wt_flags :: u8
  wt_reserved :: u32
  wt_expireTime :: u32
  wt_htTxParameters :: u32

definition wsm_tx_bytes :: "wsm_tx \<Rightarrow> bytes" where
  "wsm_tx_bytes w = bytes32 (wt_flag w) @ bytes16 (wt_len w) @ bytes16 (wt_id w) @ bytes32 (wt_packetID w) @
     [wt_maxTxRate w, wt_queueId w, wt_more w, wt_flags w] @ bytes32 (wt_reserved w) @ bytes32 (wt_expireTime w) @
     bytes32 (wt_htTxParameters w)"

definition WSM_TX_IF_ID :: "u16 \<Rightarrow> u16" where
  "WSM_TX_IF_ID if_id = push_bit 6 (if_id AND 0xf)"

definition tx_icv_len :: "ieee80211_key \<Rightarrow> u8" where
  "tx_icv_len key =
     (let icv_len = (if key_type key \<le> IEEE80211_ENC_TYPE then 0 else key_icv_len key)
      in if key_type key = IEEE80211_ENC_TKIP then icv_len + 8 else icv_len)"

definition atbm_tx_h_wsm :: "nat option \<Rightarrow> sk_buff \<Rightarrow> rx_path \<Rightarrow> wsm_tx \<times> sk_buff" where
  "atbm_tx_h_wsm sta skb s =
     (let queueid = ieee802_1d_to_ac ! unat (skb_priority skb AND 7);
          aid = (case sta of None \<Rightarrow> 0 | Some x \<Rightarrow> ucast (sta_aid (sta_heap (rp_mac s) x))) :: u32;
          skb = skb_push skb sizeof_wsm_tx
      in (\<lparr>wt_flag = 0, wt_len = skb_len skb + ucast (tx_icv_len (tx_key sta s)),
           wt_id = WSM_TRANSMIT_REQ_MSG_ID OR WSM_TX_IF_ID (of_nat (vif_no (rp_vif s))),
           wt_packetID = 0, wt_maxTxRate = 0, wt_queueId = ucast (push_bit 2 aid) OR wsm_queue_id_to_wsm queueid,
           wt_more = 0, wt_flags = 0, wt_reserved = 0, wt_expireTime = 0, wt_htTxParameters = WSM_TX_LINUX_HOST\<rparr>,
          skb))"

definition atbm_tx_h_align :: "sk_buff \<Rightarrow> u8 \<Rightarrow> int \<times> sk_buff \<times> u8" where
  "atbm_tx_h_align skb flags =
     (let offset = (int (skb_addr skb + sizeof_sk_buff) + skb_data skb) mod 4 in
      if offset = 0 then (0, skb, flags)
      else if odd offset then (- EINVAL, skb, flags)
      else if (of_int (skb_headroom skb) :: u32) < of_int offset then (- ENOMEM, skb, flags)
      else (0, skb_push skb (nat offset), flags OR WSM_TX_2BYTES_SHIFT))"

definition atbm_tx_h_rate_policy :: "nat option \<Rightarrow> wsm_tx \<Rightarrow> rx_path \<Rightarrow> wsm_tx" where
  "atbm_tx_h_rate_policy sta w s = (case sta of
      None \<Rightarrow> w\<lparr>wt_maxTxRate := RATE_INDEX_B_11M\<rparr>
    | Some x \<Rightarrow>
        (let mode = sta_bgnMode (sta_heap (rp_mac s) x);
             w = (if mode AND STA_11N_MODE \<noteq> 0 then w\<lparr>wt_maxTxRate := RATE_INDEX_N_39M, wt_flags := wt_flags w OR push_bit 4 1\<rparr>
                  else if mode AND STA_11G_MODE \<noteq> 0 then w\<lparr>wt_maxTxRate := RATE_INDEX_A_36M\<rparr>
                  else w\<lparr>wt_maxTxRate := RATE_INDEX_B_11M\<rparr>);
             w = (if mode AND STA_11N_MODE \<noteq> 0 then w\<lparr>wt_htTxParameters := wt_htTxParameters w OR WSM_HT_TX_MIXED\<rparr> else w)
         in if sta_shortGI (sta_heap (rp_mac s) x) then w\<lparr>wt_htTxParameters := wt_htTxParameters w OR WSM_HT_TX_SGI\<rparr> else w))"

text \<open>The padded length is computed by the bus; atbm_skb_padto does nothing and returns 0.\<close>

definition atbm_tx_h_skb_pad :: "(u32 \<Rightarrow> u32) \<Rightarrow> wsm_tx \<Rightarrow> sk_buff \<Rightarrow> int" where
  "atbm_tx_h_skb_pad align_size w skb =
     (if skb_padto skb (align_size (ucast (wt_len w))) \<noteq> 0 then - EINVAL else 0)"

text \<open>Without a station only a group frame of an access point goes out.\<close>

definition tx_without_station :: "mac \<Rightarrow> rx_path \<Rightarrow> bool" where
  "tx_without_station a1 s \<longleftrightarrow> vif_iftype (rp_vif s) \<noteq> NL80211_IFTYPE_STATION \<and>
     (vif_iftype (rp_vif s) = NL80211_IFTYPE_AP \<longrightarrow> is_multicast_ether_addr a1)"

definition atbm_tx :: "(u32 \<Rightarrow> u32) \<Rightarrow> sk_buff \<Rightarrow> adapter \<Rightarrow> adapter option" where
  "atbm_tx align_size skb hw = do {
     let s = mac hw;
     if \<not> vif_enabled (rp_vif s) then Some (free_hw_skb skb hw)
     else do {
       a1 \<leftarrow> rx_addr1 skb;
       sta \<leftarrow> sta_info_get (vif_no (rp_vif s)) a1 (rp_mac s);
       if sta = None \<and> \<not> tx_without_station a1 s then Some (free_hw_skb skb hw)
       else do {
         (ret, skb) \<leftarrow> atbm_tx_h_crypt sta skb s;
         if ret \<noteq> 0 then Some (free_hw_skb skb hw)
         else (case atbm_tx_h_align skb 0 of (ret, skb, flags) \<Rightarrow>
           if ret \<noteq> 0 then Some (free_hw_skb skb hw)
           else (case atbm_tx_h_wsm sta skb s of (w, skb) \<Rightarrow> do {
             let w = atbm_tx_h_rate_policy sta (w\<lparr>wt_flags := wt_flags w OR flags\<rparr>) s;
             let w = w\<lparr>wt_htTxParameters := wt_htTxParameters w AND NOT WSM_NEED_TX_CONFIRM\<rparr>;
             skb \<leftarrow> skb_wrn skb 0 (wsm_tx_bytes w);
             if atbm_tx_h_skb_pad align_size w skb \<noteq> 0 then Some (free_hw_skb skb hw)
             else atbm_submit_package skb hw })) } } }"

subsection \<open>The entry of the network device\<close>

definition ieee80211_skb_resize :: "int \<Rightarrow> int" where
  "ieee80211_skb_resize head_need = (if head_need = 0 then 0 else - ENOMEM)"

definition atbm_set_qos_hdr :: "sk_buff \<Rightarrow> sk_buff option" where
  "atbm_set_qos_hdr skb = do {
     fc \<leftarrow> skb_fc skb;
     if ieee80211_is_data_qos fc then do {
       let tid = skb_priority skb AND IEEE80211_QOS_CTL_TAG1D_MASK;
       p \<leftarrow> skb_rd8 skb (ieee80211_get_qos_ctl fc);
       skb_wrn skb (ieee80211_get_qos_ctl fc) [(p AND IEEE80211_QOS_CTL_EOSP) OR tid, 0] }
     else Some skb }"

text \<open>The addresses of the 802.11 header and the bits of the distribution system, for the two types of
  interface that send.\<close>

definition tx_addresses :: "rx_vif \<Rightarrow> mac \<Rightarrow> mac \<Rightarrow> (u16 \<times> mac \<times> mac \<times> mac) option" where
  "tx_addresses v dst src =
     (if vif_iftype v = NL80211_IFTYPE_STATION then Some (IEEE80211_FCTL_TODS, vif_bssid v, src, dst)
      else if vif_iftype v = NL80211_IFTYPE_AP then Some (IEEE80211_FCTL_FROMDS, dst, vif_addr v, src)
      else None)"

definition tx_encaps :: "u16 \<Rightarrow> bytes \<times> nat" where
  "tx_encaps ethertype =
     (if ethertype = ETH_P_AARP \<or> ethertype = ETH_P_IPX then (bridge_tunnel_header, ETH_HLEN - 2)
      else if ethertype \<ge> 0x600 then (rfc1042_header, ETH_HLEN - 2)
      else ([], ETH_HLEN))"

definition push_header :: "u16 \<Rightarrow> bytes \<Rightarrow> sk_buff \<Rightarrow> sk_buff option" where
  "push_header fc hdr skb =
     (if ieee80211_is_data_qos fc then do {
        let skb = skb_push skb 2;
        skb \<leftarrow> skb_wrn (skb_push skb 24) 0 hdr;
        skb_wrn skb 24 [0, 0] }
      else skb_wrn (skb_push skb 24) 0 hdr)"

text \<open>Pushing the headers and handing the frame to atbm_tx.\<close>

definition xmit_frame ::
    "(u32 \<Rightarrow> u32) \<Rightarrow> bytes \<Rightarrow> u16 \<Rightarrow> mac \<Rightarrow> mac \<Rightarrow> mac \<Rightarrow> sk_buff \<Rightarrow> adapter \<Rightarrow> (int \<times> adapter) option" where
  "xmit_frame align_size encaps fc a1 a2 a3 skb hw = do {
     skb \<leftarrow> skb_wrn (skb_push skb (length encaps)) 0 encaps;
     let hdr = bytes16 fc @ [0, 0] @ a1 @ a2 @ a3 @ [0, 0];
     skb \<leftarrow> push_header fc hdr skb;
     let s = mac hw;
     let hw = hw\<lparr>mac := s\<lparr>rp_tx_packets := rp_tx_packets s + 1, rp_tx_bytes := rp_tx_bytes s + ucast (skb_len skb)\<rparr>\<rparr>;
     skb \<leftarrow> atbm_set_qos_hdr skb;
     hw \<leftarrow> atbm_tx align_size skb hw;
     Some (NETDEV_TX_OK, hw) }"

definition atbm_subif_start_xmit :: "(u32 \<Rightarrow> u32) \<Rightarrow> bool \<Rightarrow> sk_buff \<Rightarrow> adapter \<Rightarrow> (int \<times> adapter) option" where
  "atbm_subif_start_xmit align_size is_pre_rmmod skb hw = (
     let s = mac hw; drop_frame = Some (NETDEV_TX_OK, free_hw_skb skb hw) in
     if is_pre_rmmod then drop_frame
     else if skb_len skb < of_nat ETH_HLEN then drop_frame
     else do {
       eth \<leftarrow> skb_rdn skb 0 ETH_HLEN;
       let ethertype = be16 (eth ! 12) (eth ! 13);
       (case tx_addresses (rp_vif s) (take 6 eth) (take 6 (drop 6 eth)) of
          None \<Rightarrow> drop_frame
        | Some (ds, a1, a2, a3) \<Rightarrow> do {
            sta \<leftarrow> (if is_multicast_ether_addr a1 then Some None else sta_info_get (vif_no (rp_vif s)) a1 (rp_mac s));
            let qos = (case sta of None \<Rightarrow> False | Some x \<Rightarrow> sta_wmm (sta_heap (rp_mac s) x));
            let fc = IEEE80211_FTYPE_DATA OR ds OR (if qos then IEEE80211_STYPE_QOS_DATA else 0);
            let hdrlen = (if qos then 26 else 24);
            (case tx_encaps ethertype of (encaps, skip_header_bytes) \<Rightarrow> do {
               let skb = skb_pull skb skip_header_bytes;
               let head_need = hdrlen + int (length encaps) - skb_headroom skb;
               let need = max 0 (head_need + IEEE80211_ENCRYPT_HEADROOM + int (extra_tx_headroom hw));
               if head_need > 0 \<and> ieee80211_skb_resize need \<noteq> 0 then Some (NETDEV_TX_BUSY, hw)
               else xmit_frame align_size encaps fc a1 a2 a3 skb hw }) }) })"

text \<open>atbm_wifi_tx_pkt: what the function returns is ignored.\<close>

definition atbm_wifi_tx_pkt :: "(u32 \<Rightarrow> u32) \<Rightarrow> bool \<Rightarrow> sk_buff \<Rightarrow> adapter \<Rightarrow> adapter option" where
  "atbm_wifi_tx_pkt align_size is_pre_rmmod skb hw =
     (if \<not> lwip_queue_enable hw then Some hw
      else if vif_type hw = None then Some hw
      else map_option snd (atbm_subif_start_xmit align_size is_pre_rmmod skb hw))"

text \<open>atbm_wifi_tx_pkt_dir copies the bytes into a buffer of its own.\<close>

definition atbm_wifi_tx_pkt_dir ::
    "(u32 \<Rightarrow> u32) \<Rightarrow> nat option \<Rightarrow> bool \<Rightarrow> bytes \<Rightarrow> adapter \<Rightarrow> adapter option" where
  "atbm_wifi_tx_pkt_dir align_size kz is_pre_rmmod buff hw = (
     let v = rp_vif (mac hw) in
     if vif_type hw = None then Some hw
     else (case dev_alloc_skb kz (of_nat (length buff)) of
        None \<Rightarrow> Some hw
      | Some skb \<Rightarrow> do {
          skb \<leftarrow> skb_wrn (skb_put skb (length buff)) 0 buff;
          refused \<leftarrow>
            (if vif_iftype v = NL80211_IFTYPE_STATION then Some (\<not> vif_connect_success v)
             else if vif_iftype v = NL80211_IFTYPE_AP then do {
               dst \<leftarrow> skb_rdn skb 0 ETH_ALEN;
               if is_multicast_ether_addr dst then Some False
               else map_option (\<lambda>sta. sta = None) (sta_info_get (vif_no v) dst (rp_mac (mac hw))) }
             else Some False);
          if refused then Some (free_hw_skb skb hw)
          else map_option snd (atbm_subif_start_xmit align_size is_pre_rmmod skb hw) }))"

end
