(* ===== verification/Tx_Path_Props.thy ===== *)
theory Tx_Path_Props
  imports Tx_Path Rx_Path_Props Bh_Tx_Burst Bh_Rx_Props
begin

text \<open>The transmit path: an Ethernet frame becomes one message in the queue, with its bytes given, and the
  bus thread carries it to the chip.\<close>

subsection \<open>Pushing\<close>

definition same_skb :: "sk_buff \<Rightarrow> sk_buff \<Rightarrow> bool" where
  "same_skb a b \<longleftrightarrow> skb_addr b = skb_addr a \<and> skb_data_len b = skb_data_len a \<and> skb_priority b = skb_priority a \<and>
     skb_Head b = skb_Head a \<and> length (skb_mem b) = length (skb_mem a)"

lemma same_skb_refl [simp]: "same_skb a a" by (simp add: same_skb_def)

lemma same_skb_trans: "same_skb a b \<Longrightarrow> same_skb b c \<Longrightarrow> same_skb a c" by (simp add: same_skb_def)

text \<open>A push of n bytes uncovers the end of what lies before the data; writing them all leaves the rest.\<close>

lemma view_push_room:
  assumes "skb_view skb pre body post" "n \<le> length pre" "length body + n < 2 ^ 16"
  shows "skb_view (skb_push skb n) (take (length pre - n) pre) (drop (length pre - n) pre @ body) post"
    "same_skb skb (skb_push skb n)"
  using view_push[of skb "take (length pre - n) pre" "drop (length pre - n) pre" body post n] assms
  by (simp_all add: same_skb_def skb_push_def)

lemma view_push_wrn:
  assumes "skb_view skb pre body post" "length h \<le> length pre" "length body + length h < 2 ^ 16"
  obtains skb' where "skb_wrn (skb_push skb (length h)) 0 h = Some skb'"
    "skb_view skb' (take (length pre - length h) pre) (h @ body) post" "same_skb skb skb'"
proof -
  note v = view_push_room(1)[OF assms(1,2,3)]
  let ?p = "take (length pre - length h) pre" and ?o = "drop (length pre - length h) pre"
  have v': "skb_view (skb_push skb (length h)) ?p ([] @ ?o @ body) post" using v by simp
  note w = view_wrn[OF v', of 0 h]
  show ?thesis
    by (rule that[OF w(1)]) (use w(2) view_push_room(2)[OF assms] assms in
      \<open>auto simp: same_skb_def skb_push_def skb_view_def\<close>)
qed

lemma take_room:
  "take (length (take (length pre - m) pre) - n) (take (length pre - m) pre) = take (length pre - (n + m)) pre"
proof -
  have l: "length (take (length pre - m) pre) = length pre - m" by simp
  have "min (length pre - m - n) (length pre - m) = length pre - (n + m)" by (simp add: min_def add.commute)
  then show ?thesis unfolding l take_take by (simp only:)
qed

lemma view_headroom: "skb_view skb pre body post \<Longrightarrow> skb_headroom skb = int (length pre) - skb_Head skb"
  by (simp add: skb_view_def skb_headroom_def)

subsection \<open>The 802.11 frame\<close>

definition tx_header :: "u16 \<Rightarrow> mac \<Rightarrow> mac \<Rightarrow> mac \<Rightarrow> bytes" where
  "tx_header fc a1 a2 a3 = bytes16 fc @ [0, 0] @ a1 @ a2 @ a3 @ [0, 0]"

definition tx_qos :: "u16 \<Rightarrow> u8 \<Rightarrow> bytes" where
  "tx_qos fc prio = (if ieee80211_is_data_qos fc then [prio AND 7, 0] else [])"

definition data_fc :: "u16 \<Rightarrow> bool" where
  "data_fc fc \<longleftrightarrow> fc \<in> {0x0108, 0x0188, 0x0208, 0x0288}"

lemma data_fc_facts:
  assumes "data_fc fc"
  shows "ieee80211_is_data_qos fc \<longleftrightarrow> fc = 0x0188 \<or> fc = 0x0288"
    "unat (ieee80211_hdrlen fc) = (if ieee80211_is_data_qos fc then 26 else 24)"
    "unat (ieee80211_hdrlen (fc OR IEEE80211_FCTL_PROTECTED)) = (if ieee80211_is_data_qos fc then 26 else 24)"
    "ieee80211_get_qos_ctl fc = 24"
  using assms by (auto simp: data_fc_def fc_defs ieee80211_hdrlen_def ieee80211_get_qos_ctl_def)

lemma tx_header_length [simp]:
  "length a1 = 6 \<Longrightarrow> length a2 = 6 \<Longrightarrow> length a3 = 6 \<Longrightarrow> length (tx_header fc a1 a2 a3) = 24"
  by (simp add: tx_header_def)

lemma tx_qos_length [simp]: "length (tx_qos fc prio) = (if ieee80211_is_data_qos fc then 2 else 0)"
  by (simp add: tx_qos_def)

lemma header_fc: "skb_view skb pre (tx_header fc a1 a2 a3 @ b) post \<Longrightarrow> skb_fc skb = Some fc"
  using view_fc[of skb pre fc "[0, 0] @ a1 @ a2 @ a3 @ [0, 0] @ b" post] by (simp add: tx_header_def)

lemma header_addr1:
  assumes "skb_view skb pre (tx_header fc a1 a2 a3 @ b) post" "length a1 = 6"
  shows "rx_addr1 skb = Some a1"
proof -
  have "skb_view skb pre ((bytes16 fc @ [0, 0]) @ a1 @ (a2 @ a3 @ [0, 0] @ b)) post"
    using assms(1) by (simp add: tx_header_def)
  from view_rdn_body[OF this, of 4 6] show ?thesis using assms(2) by (simp add: rx_addr1_def)
qed

lemma set_qos_ok:
  assumes v: "skb_view skb pre (tx_header fc a1 a2 a3 @ q @ b) post" and f: "data_fc fc"
    and l: "length a1 = 6" "length a2 = 6" "length a3 = 6"
    and q: "q = (if ieee80211_is_data_qos fc then [0, 0] else [])"
  obtains skb' where "atbm_set_qos_hdr skb = Some skb'" "same_skb skb skb'"
    "skb_view skb' pre (tx_header fc a1 a2 a3 @ tx_qos fc (skb_priority skb) @ b) post"
proof (cases "ieee80211_is_data_qos fc")
  case False
  then show ?thesis
    by (intro that[of skb]) (use header_fc[OF v] v q in \<open>simp_all add: atbm_set_qos_hdr_def tx_qos_def\<close>)
next
  case True
  have v': "skb_view skb pre (tx_header fc a1 a2 a3 @ [0, 0] @ b) post" using v q True by simp
  have r: "skb_rd8 skb 24 = Some 0"
  proof -
    have "skb_rdn skb 24 1 = Some [0]"
      using view_rdn_body[of skb pre "tx_header fc a1 a2 a3" "[0]" "0 # b" post 24 1] v' l by simp
    then show ?thesis by (auto simp: skb_rd8_def skb_rdn_def rd8_def rdn_Some take_Suc_conv_app_nth)
  qed
  note w = view_wrn[OF v', of 24 "[skb_priority skb AND 7, 0]"]
  show ?thesis
    by (rule that[of "skb\<lparr>skb_mem := pre @ (tx_header fc a1 a2 a3 @ [skb_priority skb AND 7, 0] @ b) @ post\<rparr>"])
      (use w header_fc[OF v'] True r data_fc_facts[OF f] l v' in \<open>auto simp: atbm_set_qos_hdr_def same_skb_def skb_view_def tx_qos_def\<close>)
qed

definition count_tx :: "u16 \<Rightarrow> adapter \<Rightarrow> adapter" where
  "count_tx n hw = hw\<lparr>mac := (mac hw)\<lparr>rp_tx_packets := rp_tx_packets (mac hw) + 1,
     rp_tx_bytes := rp_tx_bytes (mac hw) + ucast n\<rparr>\<rparr>"

lemma xmit_frame_ok:
  assumes v: "skb_view skb pre b post" and f: "data_fc fc"
    and l: "length a1 = 6" "length a2 = 6" "length a3 = 6"
    and room: "26 + length e \<le> length pre" "length b + 26 + length e < 2 ^ 16"
  obtains sk where
    "xmit_frame align_size e fc a1 a2 a3 skb hw =
       map_option (\<lambda>h. (0, h)) (atbm_tx align_size sk (count_tx (skb_len sk) hw))"
    "skb_view sk (take (length pre - (24 + length (tx_qos fc 0) + length e)) pre)
       (tx_header fc a1 a2 a3 @ tx_qos fc (skb_priority skb) @ e @ b) post"
    "same_skb skb sk"
proof -
  let ?h = "tx_header fc a1 a2 a3" and ?Q = "ieee80211_is_data_qos fc"
  obtain s1 where s1: "skb_wrn (skb_push skb (length e)) 0 e = Some s1" "same_skb skb s1"
    "skb_view s1 (take (length pre - length e) pre) (e @ b) post"
    by (rule view_push_wrn[OF v, of e]) (use room in auto)
  let ?p1 = "take (length pre - length e) pre"
  obtain s2 where s2: "push_header fc ?h s1 = Some s2" "same_skb s1 s2"
    "skb_view s2 (take (length pre - (24 + length (tx_qos fc 0) + length e)) pre)
      (?h @ (if ?Q then [0, 0] else []) @ e @ b) post"
  proof (cases ?Q)
    case False
    obtain s where "skb_wrn (skb_push s1 (length ?h)) 0 ?h = Some s" "same_skb s1 s"
      "skb_view s (take (length ?p1 - length ?h) ?p1) (?h @ e @ b) post"
      by (rule view_push_wrn[OF s1(3), of ?h]) (use room l in auto)
    then show ?thesis using False l room unfolding take_room by (intro that[of s]) (simp_all add: push_header_def)
  next
    case True
    let ?o = "drop (length ?p1 - 2) ?p1" and ?p2 = "take (length ?p1 - 2) ?p1"
    have p: "skb_view (skb_push s1 2) ?p2 (?o @ e @ b) post" "same_skb s1 (skb_push s1 2)" "length ?o = 2"
      using view_push_room[OF s1(3), of 2] room by simp_all
    obtain s where s: "skb_wrn (skb_push (skb_push s1 2) (length ?h)) 0 ?h = Some s" "same_skb (skb_push s1 2) s"
      "skb_view s (take (length ?p2 - length ?h) ?p2) (?h @ ?o @ e @ b) post"
      by (rule view_push_wrn[OF p(1), of ?h]) (use room l p(3) in auto)
    note w = view_wrn[OF s(3), of 24 "[0, 0]"]
    have "take (length ?p2 - length ?h) ?p2 = take (length pre - (24 + length (tx_qos fc 0) + length e)) pre"
      using True l by (simp only: take_room tx_qos_length tx_header_length) (simp add: add.assoc add.commute)
    then show ?thesis
      using True l w s p
      by (intro that[of "s\<lparr>skb_mem := take (length ?p2 - length ?h) ?p2 @ (?h @ [0, 0] @ e @ b) @ post\<rparr>"])
        (auto simp: same_skb_def skb_view_def push_header_def simp del: take_take)
  qed
  obtain s3 where s3: "atbm_set_qos_hdr s2 = Some s3" "same_skb s2 s3"
    "skb_view s3 (take (length pre - (24 + length (tx_qos fc 0) + length e)) pre)
      (?h @ tx_qos fc (skb_priority s2) @ e @ b) post"
    by (rule set_qos_ok[OF s2(3) f l refl])
  have n: "skb_len s3 = skb_len s2"
  proof -
    have "unat (skb_len s3) = unat (skb_len s2)" using s2(3) s3(3) by (simp add: skb_view_def)
    then show ?thesis by (simp only: word_unat_eq_iff)
  qed
  have pr: "skb_priority s2 = skb_priority skb" using s1(2) s2(2) by (simp add: same_skb_def)
  have "xmit_frame align_size e fc a1 a2 a3 skb hw =
      map_option (\<lambda>h. (0, h)) (atbm_tx align_size s3 (count_tx (skb_len s3) hw))"
    using s1(1) s2(1) s3(1) n
    by (cases "atbm_tx align_size s3 (count_tx (skb_len s3) hw)")
      (simp_all add: xmit_frame_def Let_def count_tx_def tx_header_def)
  then show ?thesis
    using s3(3) same_skb_trans[OF same_skb_trans[OF s1(2) s2(2)] s3(2)] pr by (intro that[of s3]) simp_all
qed

subsection \<open>The message\<close>

definition encrypts :: "ieee80211_key \<Rightarrow> bool" where
  "encrypts key \<longleftrightarrow> key_type key > IEEE80211_ENC_TYPE"

definition iv_room :: "ieee80211_key \<Rightarrow> nat" where
  "iv_room key = (if encrypts key then unat (key_iv_len key) else 0)"

definition tx_fc :: "ieee80211_key \<Rightarrow> u16 \<Rightarrow> u16" where
  "tx_fc key fc = (if encrypts key then fc OR IEEE80211_FCTL_PROTECTED else fc)"

definition head_ok :: "nat \<Rightarrow> sk_buff \<Rightarrow> bool" where
  "head_ok n skb \<longleftrightarrow> 0 \<le> skb_Head skb \<and> skb_Head skb + int n \<le> skb_data skb \<and> skb_data skb < 2 ^ 16"

lemma head_ok_room:
  assumes "head_ok n skb" "n < 2 ^ 32"
  shows "(of_int (skb_headroom skb) :: u32) < of_nat n \<longleftrightarrow> False"
proof -
  define h where "h = nat (skb_headroom skb)"
  have h: "skb_headroom skb = int h" "n \<le> h" "h < 2 ^ 32"
    using assms(1) by (auto simp: head_ok_def skb_headroom_def h_def)
  then show ?thesis using assms(2) by (simp add: word_less_nat_alt unat_of_nat)
qed

lemma crypt_ok:
  assumes v: "skb_view skb pre (tx_header fc a1 a2 a3 @ q @ b) post" and f: "data_fc fc"
    and l: "length a1 = 6" "length a2 = 6" "length a3 = 6" "length q = (if ieee80211_is_data_qos fc then 2 else 0)"
    and key: "key = tx_key sta s"
    and room: "head_ok (32 + iv_room key) skb" "length b + 26 + iv_room key < 2 ^ 16"
  obtains skb' iv where "atbm_tx_h_crypt sta skb s = Some (0, skb')" "same_skb skb skb'" "length iv = iv_room key"
    "skb_view skb' (take (length pre - iv_room key) pre) (tx_header (tx_fc key fc) a1 a2 a3 @ q @ iv @ b) post"
proof (cases "encrypts key")
  case False
  then show ?thesis
    by (intro that[of skb "[]"]) (use v key in \<open>auto simp: atbm_tx_h_crypt_def encrypts_def iv_room_def tx_fc_def Let_def\<close>)
next
  case True
  define n where "n = unat (key_iv_len key)"
  have n: "iv_room key = n" "n \<le> length pre"
    using True room v by (auto simp: iv_room_def n_def head_ok_def skb_view_def simp del: of_nat_unat)
  have fcs: "skb_fc skb = Some fc" by (rule header_fc[OF v])
  let ?fc = "fc OR IEEE80211_FCTL_PROTECTED"
  let ?h = "tx_header ?fc a1 a2 a3 @ q"
  have v0: "skb_view skb pre ([] @ bytes16 fc @ ([0, 0] @ a1 @ a2 @ a3 @ [0, 0] @ q @ b)) post"
    using v by (simp add: tx_header_def)
  note w0 = view_wrn[OF v0, of 0 "bytes16 ?fc"]
  define s1 where "s1 = skb\<lparr>skb_mem := pre @ ([] @ bytes16 ?fc @ ([0, 0] @ a1 @ a2 @ a3 @ [0, 0] @ q @ b)) @ post\<rparr>"
  have s1: "skb_wrn skb 0 (bytes16 ?fc) = Some s1" "skb_view s1 pre (?h @ b) post" "same_skb skb s1"
    using w0 v0 by (auto simp: s1_def tx_header_def same_skb_def skb_view_def)
  have lh: "length ?h = unat (ieee80211_hdrlen ?fc)" "length ?h \<le> 26"
    using data_fc_facts(3)[OF f] l by simp_all
  let ?p = "take (length pre - n) pre" and ?o = "drop (length pre - n) pre"
  have lo: "length ?o = n" using n by simp
  have v2: "skb_view (skb_push s1 n) ?p (?o @ ?h @ b) post" "same_skb s1 (skb_push s1 n)"
    using view_push_room[OF s1(2), of n] n room(2) lh by simp_all
  have r: "skb_rdn (skb_push s1 n) (int n) (length ?h) = Some ?h"
    by (rule view_rdn_body[OF v2(1)]) (use lo in simp_all)
  define iv where "iv = drop (length ?h) (?o @ ?h)"
  have "skb_view (skb_push s1 n) ?p ([] @ take (length ?h) (?o @ ?h) @ iv @ b) post"
    using v2(1) unfolding iv_def by (simp only: append_take_drop_id append_assoc[symmetric] append_Nil)
  note w = view_wrn[OF this, of 0 ?h]
  define s3 where "s3 = (skb_push s1 n)\<lparr>skb_mem := ?p @ ([] @ ?h @ iv @ b) @ post\<rparr>"
  have s3: "skb_wrn (skb_push s1 n) 0 ?h = Some s3" "skb_view s3 ?p (?h @ iv @ b) post"
    using w lo by (simp_all add: s3_def)
  have "length (skb_mem s3) = length (skb_mem (skb_push s1 n))"
    using v2(1) lo by (simp add: s3_def skb_view_def iv_def)
  then have same: "same_skb skb s3"
    using s1(3) v2(2) by (simp add: same_skb_def s3_def)
  have hr: "\<not> (of_int (skb_headroom skb) :: u32) < TX_EXTRA_HEADROOM + ucast (key_iv_len key)"
  proof -
    have "(of_nat (32 + n) :: u32) = TX_EXTRA_HEADROOM + ucast (key_iv_len key)"
      by (simp add: n_def unsigned_of_nat)
    moreover have "32 + n < 2 ^ 32" using n(1) room(2) by simp
    ultimately show ?thesis using head_ok_room[of "32 + n" skb] room(1) n(1) by metis
  qed
  have "length iv = n" using lo by (simp add: iv_def)
  moreover have "atbm_tx_h_crypt sta skb s = Some (0, s3)"
    using True hr fcs s1(1) r s3(1) lh(1)
    by (simp add: atbm_tx_h_crypt_def encrypts_def Let_def n_def flip: key)
  ultimately show ?thesis
    using s3(2) same n(1) True by (intro that[of s3 iv]) (simp_all add: tx_fc_def)
qed

definition tx_pad :: "sk_buff \<Rightarrow> nat" where
  "tx_pad skb = nat ((int (skb_addr skb + sizeof_sk_buff) + skb_data skb) mod 4)"

lemma align_ok:
  assumes v: "skb_view skb pre body post" and e: "even (int (skb_addr skb + sizeof_sk_buff) + skb_data skb)"
    and room: "head_ok 2 skb" "length body + 2 < 2 ^ 16"
  obtains skb' pad where "atbm_tx_h_align skb 0 = (0, skb', if pad = [] then 0 else WSM_TX_2BYTES_SHIFT)"
    "same_skb skb skb'" "length pad = tx_pad skb" "tx_pad skb \<le> 2"
    "skb_view skb' (take (length pre - length pad) pre) (pad @ body) post"
proof -
  define off where "off = (int (skb_addr skb + sizeof_sk_buff) + skb_data skb) mod 4"
  have a: "atbm_tx_h_align skb 0 = (if off = 0 then (0, skb, 0) else if odd off then (- EINVAL, skb, 0)
      else if (of_int (skb_headroom skb) :: u32) < of_int off then (- ENOMEM, skb, 0)
      else (0, skb_push skb (nat off), 0 OR WSM_TX_2BYTES_SHIFT))" and p: "tx_pad skb = nat off"
    by (simp_all add: atbm_tx_h_align_def tx_pad_def off_def Let_def)
  have "even off" using e unfolding off_def by presburger
  moreover have "0 \<le> off" "off < 4" by (simp_all add: off_def)
  ultimately have "off = 0 \<or> off = 2" by presburger
  then show ?thesis
  proof
    assume o: "off = 0"
    then show ?thesis
      by (intro that[of skb "[]"]) (use v o in \<open>simp_all add: a p\<close>)
  next
    assume o: "off = 2"
    have l: "2 \<le> length pre" using room v by (simp add: head_ok_def skb_view_def)
    have nl: "\<not> (of_int (skb_headroom skb) :: u32) < 2" using head_ok_room[OF room(1)] by simp
    show ?thesis
      by (rule that[of "skb_push skb 2" "drop (length pre - 2) pre"])
        (use o l nl view_push_room[OF v, of 2] room(2) in \<open>auto simp: a p\<close>)
  qed
qed

text \<open>The header of the message: its length counts the integrity check value the firmware appends, the rate
  and the flags are those of the mode of the station.\<close>

definition tx_mode :: "nat option \<Rightarrow> rx_path \<Rightarrow> u8 \<times> u8 \<times> u32" where
  "tx_mode sta s = (case sta of None \<Rightarrow> (3, 0, 0x200) | Some x \<Rightarrow>
     let st = sta_heap (rp_mac s) x; n = (sta_bgnMode st AND 4 \<noteq> 0) in
     (if n then 18 else if sta_bgnMode st AND 2 \<noteq> 0 then 11 else 3, if n then 0x10 else 0,
      0x200 OR (if n then 1 else 0) OR (if sta_shortGI st then 4 else 0)))"

definition tx_aid :: "nat option \<Rightarrow> rx_path \<Rightarrow> u32" where
  "tx_aid sta s = (case sta of None \<Rightarrow> 0 | Some x \<Rightarrow> ucast (sta_aid (sta_heap (rp_mac s) x)))"

definition tx_queue_of :: "u8 \<Rightarrow> u8" where
  "tx_queue_of prio = [0, 1, 1, 0, 2, 2, 3, 3] ! unat (prio AND 7)"

definition tx_hdr :: "nat option \<Rightarrow> rx_path \<Rightarrow> u8 \<Rightarrow> bool \<Rightarrow> u16 \<Rightarrow> bytes" where
  "tx_hdr sta s prio pad len = (case tx_mode sta s of (rate, flags, ht) \<Rightarrow>
     [0, 0, 0, 0] @ bytes16 len @ bytes16 (4 OR WSM_TX_IF_ID (of_nat (vif_no (rp_vif s)))) @ [0, 0, 0, 0] @
     [rate, ucast (push_bit 2 (tx_aid sta s)) OR tx_queue_of prio, 0, (if pad then 0x80 else 0) OR flags] @
     replicate 8 0 @ bytes32 ht)"

lemma tx_hdr_length [simp]: "length (tx_hdr sta s prio pad len) = 28"
  by (simp add: tx_hdr_def split: prod.split)

lemma queue_of: "wsm_queue_id_to_wsm (ieee802_1d_to_ac ! unat (prio AND 7)) = tx_queue_of prio"
proof -
  have "prio AND 7 = take_bit 3 prio" by (simp add: take_bit_eq_mask mask_eq_exp_minus_1)
  then have "unat (prio AND 7) < 8" by (simp add: unsigned_take_bit_eq take_bit_nat_less_exp[of 3, simplified])
  then have "unat (prio AND 7) \<in> {0, 1, 2, 3, 4, 5, 6, 7}" by auto
  then show ?thesis by (auto simp: wsm_queue_id_to_wsm_def ieee802_1d_to_ac_def tx_queue_of_def)
qed

lemma wsm_bytes_ok:
  assumes "atbm_tx_h_wsm sta skb s = (w, skb')"
  shows "skb' = skb_push skb 28"
    "wsm_tx_bytes ((atbm_tx_h_rate_policy sta (w\<lparr>wt_flags := wt_flags w OR (if pad then 0x80 else 0)\<rparr>) s)
        \<lparr>wt_htTxParameters := wt_htTxParameters (atbm_tx_h_rate_policy sta
           (w\<lparr>wt_flags := wt_flags w OR (if pad then 0x80 else 0)\<rparr>) s) AND NOT WSM_NEED_TX_CONFIRM\<rparr>)
      = tx_hdr sta s (skb_priority skb) pad (skb_len (skb_push skb 28) + ucast (tx_icv_len (tx_key sta s)))"
proof -
  show "skb' = skb_push skb 28" using assms by (auto simp: atbm_tx_h_wsm_def Let_def)
  have pr: "skb_priority (skb_push skb 28) = skb_priority skb" by (simp add: skb_push_def)
  have b0: "bytes32 0 = [0, 0, 0, 0]" by (simp add: bytes32_def bytes16_def lo8_def hi8_def)
  show "wsm_tx_bytes ((atbm_tx_h_rate_policy sta (w\<lparr>wt_flags := wt_flags w OR (if pad then 0x80 else 0)\<rparr>) s)
        \<lparr>wt_htTxParameters := wt_htTxParameters (atbm_tx_h_rate_policy sta
           (w\<lparr>wt_flags := wt_flags w OR (if pad then 0x80 else 0)\<rparr>) s) AND NOT WSM_NEED_TX_CONFIRM\<rparr>)
      = tx_hdr sta s (skb_priority skb) pad (skb_len (skb_push skb 28) + ucast (tx_icv_len (tx_key sta s)))"
    using assms
    by (cases sta)
      (auto simp: atbm_tx_h_wsm_def Let_def wsm_tx_bytes_def tx_hdr_def tx_mode_def tx_aid_def atbm_tx_h_rate_policy_def
        b0 queue_of replicate_eq_replicate numeral_eq_Suc)
qed

text \<open>The bytes of a frame in the message, up to the integrity check value.\<close>

definition tx_body :: "nat option \<Rightarrow> rx_path \<Rightarrow> u8 \<Rightarrow> u16 \<Rightarrow> mac \<Rightarrow> mac \<Rightarrow> mac \<Rightarrow> bytes \<Rightarrow> bytes \<Rightarrow> bytes \<Rightarrow> bytes \<Rightarrow> nat \<Rightarrow> bytes" where
  "tx_body sta s prio fc a1 a2 a3 pad q iv b icv =
     (let f = pad @ tx_header (tx_fc (tx_key sta s) fc) a1 a2 a3 @ q @ iv @ b
      in tx_hdr sta s prio (pad \<noteq> []) (of_nat (28 + length f + icv)) @ f)"

lemma atbm_tx_ok:
  assumes v: "skb_view skb pre (tx_header fc a1 a2 a3 @ q @ b) post" and f: "data_fc fc"
    and l: "length a1 = 6" "length a2 = 6" "length a3 = 6" "length q = (if ieee80211_is_data_qos fc then 2 else 0)"
    and on: "vif_enabled (rp_vif s)" "mac hw = s"
    and sta: "sta_info_get (vif_no (rp_vif s)) a1 (rp_mac s) = Some sta" "sta = None \<Longrightarrow> tx_without_station a1 s"
    and al: "even (int (skb_addr skb + sizeof_sk_buff) + skb_data skb)" "even (iv_room key)"
    and room: "head_ok (32 + iv_room key) skb" "length b + 56 + iv_room key < 2 ^ 16"
    and key: "key = tx_key sta s"
  obtains skb' p pad iv where "atbm_tx align_size skb hw = atbm_submit_package skb' hw" "same_skb skb skb'"
    "length pad \<le> 2" "length iv = iv_room key"
    "skb_view skb' p (tx_body sta s (skb_priority skb) fc a1 a2 a3 pad q iv b (unat (tx_icv_len key))) post"
proof -
  obtain s1 iv where s1: "atbm_tx_h_crypt sta skb s = Some (0, s1)" "same_skb skb s1" "length iv = iv_room key"
    "skb_view s1 (take (length pre - iv_room key) pre) (tx_header (tx_fc key fc) a1 a2 a3 @ q @ iv @ b) post"
    by (rule crypt_ok[OF v f l key room(1)]) (use room(2) in auto)
  let ?f = "tx_header (tx_fc key fc) a1 a2 a3 @ q @ iv @ b"
  have lf: "length ?f \<le> 26 + iv_room key + length b" using l s1(3) by simp
  have d: "skb_data s1 = skb_data skb - int (iv_room key)"
    using s1(4) v room(1) by (simp add: skb_view_def head_ok_def)
  have h1: "head_ok 30 s1" using room(1) s1(2) d by (auto simp: head_ok_def same_skb_def)
  have e1: "even (int (skb_addr s1 + sizeof_sk_buff) + skb_data s1)"
    using al s1(2) by (simp add: d same_skb_def)
  define p1 where "p1 = take (length pre - iv_room key) pre"
  have "head_ok 2 s1" "length ?f + 2 < 2 ^ 16" using h1 lf room(2) by (auto simp: head_ok_def)
  then obtain s2 pad where s2: "atbm_tx_h_align s1 0 = (0, s2, if pad = [] then 0 else WSM_TX_2BYTES_SHIFT)"
    "same_skb s1 s2" "length pad = tx_pad s1" "tx_pad s1 \<le> 2"
    and v2': "skb_view s2 (take (length p1 - length pad) p1) (pad @ ?f) post"
    by (rule align_ok[OF s1(4)[folded p1_def] e1])
  define p2 where "p2 = take (length p1 - length pad) p1"
  have v2: "skb_view s2 p2 (pad @ ?f) post" using v2' by (simp only: p2_def)
  have l2: "28 \<le> length p2"
    using h1 s1(4) s2(3,4) by (auto simp: p2_def p1_def head_ok_def skb_view_def)
  obtain w where w: "atbm_tx_h_wsm sta s2 s = (w, skb_push s2 28)"
    using wsm_bytes_ok(1) by (metis surj_pair)
  let ?len = "skb_len (skb_push s2 28) + ucast (tx_icv_len key)"
  let ?W = "tx_hdr sta s (skb_priority s2) (pad \<noteq> []) ?len"
  obtain s3 where s3: "skb_wrn (skb_push s2 (length ?W)) 0 ?W = Some s3"
    "skb_view s3 (take (length p2 - length ?W) p2) (?W @ pad @ ?f) post" "same_skb s2 s3"
    by (rule view_push_wrn[OF v2, of ?W]) (use l2 lf room(2) s2(3,4) in auto)
  have pr: "skb_priority s2 = skb_priority skb" using s1(2) s2(2) by (simp add: same_skb_def)
  have ln: "?len = of_nat (28 + length (pad @ ?f) + unat (tx_icv_len key))"
  proof -
    have "unat (skb_len s2) = length (pad @ ?f)" using v2 by (simp add: skb_view_def)
    then have "(of_nat (unat (skb_len s2)) :: u16) = of_nat (length (pad @ ?f))" by (simp only:)
    then have "skb_len s2 = of_nat (length (pad @ ?f))" by simp
    then show ?thesis by (simp add: skb_push_def unsigned_of_nat)
  qed
  have B: "?W @ pad @ ?f = tx_body sta s (skb_priority skb) fc a1 a2 a3 pad q iv b (unat (tx_icv_len key))"
    using ln by (simp add: tx_body_def pr Let_def flip: key)
  have ad: "rx_addr1 skb = Some a1" by (rule header_addr1[OF v l(1)])
  define F :: u8 where "F = (if pad = [] then 0 else WSM_TX_2BYTES_SHIFT)"
  have F: "F = (if pad \<noteq> [] then 0x80 else 0)" by (simp add: F_def)
  have W: "wsm_tx_bytes ((atbm_tx_h_rate_policy sta (w\<lparr>wt_flags := wt_flags w OR F\<rparr>) s)
        \<lparr>wt_htTxParameters := wt_htTxParameters (atbm_tx_h_rate_policy sta
           (w\<lparr>wt_flags := wt_flags w OR F\<rparr>) s) AND NOT WSM_NEED_TX_CONFIRM\<rparr>) = ?W"
    unfolding F key by (rule wsm_bytes_ok(2)[OF w])
  have S: "skb_wrn (skb_push s2 28) 0 (wsm_tx_bytes ((atbm_tx_h_rate_policy sta (w\<lparr>wt_flags := wt_flags w OR F\<rparr>) s)
        \<lparr>wt_htTxParameters := wt_htTxParameters (atbm_tx_h_rate_policy sta
           (w\<lparr>wt_flags := wt_flags w OR F\<rparr>) s) AND NOT WSM_NEED_TX_CONFIRM\<rparr>)) = Some s3"
    unfolding W using s3(1) by simp
  have st: "\<not> (sta = None \<and> \<not> tx_without_station a1 s)" using sta(2) by blast
  have "atbm_tx align_size skb hw = atbm_submit_package s3 hw"
    using on ad sta(1) st s1(1) s2(1)[folded F_def] w S
    by (cases sta) (simp_all add: atbm_tx_def Let_def atbm_tx_h_skb_pad_def skb_padto_def)
  then show ?thesis
    using s3(2) same_skb_trans[OF same_skb_trans[OF s1(2) s2(2)] s3(3)] s2(3,4) s1(3)
    unfolding B by (intro that[of s3 pad iv]) simp_all
qed

subsection \<open>From the network stack to the queue\<close>

definition tx_data_fc :: "u16 \<Rightarrow> mac \<Rightarrow> nat option \<Rightarrow> rx_path \<Rightarrow> u16" where
  "tx_data_fc ds a1 sta s = IEEE80211_FTYPE_DATA OR ds OR
     (if \<not> is_multicast_ether_addr a1 \<and> (\<exists>x. sta = Some x \<and> sta_wmm (sta_heap (rp_mac s) x)) then IEEE80211_STYPE_QOS_DATA else 0)"

lemma tx_data_fc_ok: "ds = IEEE80211_FCTL_TODS \<or> ds = IEEE80211_FCTL_FROMDS \<Longrightarrow> data_fc (tx_data_fc ds a1 sta s)"
  by (auto simp: tx_data_fc_def data_fc_def)

text \<open>The message of an Ethernet frame: what is given as dst, src, ty and payload.\<close>

definition tx_message :: "nat option \<Rightarrow> rx_path \<Rightarrow> u8 \<Rightarrow> u16 \<Rightarrow> mac \<Rightarrow> mac \<Rightarrow> mac \<Rightarrow> bytes \<Rightarrow> bytes \<Rightarrow> bytes \<Rightarrow> bytes \<Rightarrow> bytes" where
  "tx_message sta s prio ds a1 a2 a3 snap pad iv icv =
     (let fc = tx_data_fc ds a1 sta s
      in tx_body sta s prio fc a1 a2 a3 pad (tx_qos fc prio) iv snap (length icv) @ icv)"

lemma tx_encaps_length: "tx_encaps et = (e, 12) \<Longrightarrow> length e = 6"
  by (auto simp: tx_encaps_def rfc1042_header_def bridge_tunnel_header_def split: if_splits)

lemma count_tx_state [simp]:
  "rp_vif (mac (count_tx n hw)) = rp_vif (mac hw)" "rp_mac (mac (count_tx n hw)) = rp_mac (mac hw)"
  by (simp_all add: count_tx_def)

lemma count_tx_same [simp]:
  "tx_key sta (mac (count_tx n hw)) = tx_key sta (mac hw)"
  "tx_mode sta (mac (count_tx n hw)) = tx_mode sta (mac hw)"
  "tx_aid sta (mac (count_tx n hw)) = tx_aid sta (mac hw)"
  "tx_data_fc ds a1 sta (mac (count_tx n hw)) = tx_data_fc ds a1 sta (mac hw)"
  "tx_without_station a1 (mac (count_tx n hw)) = tx_without_station a1 (mac hw)"
  by (cases sta; simp add: tx_key_def tx_mode_def tx_aid_def tx_data_fc_def tx_without_station_def)+

lemma count_tx_body [simp]:
  "tx_hdr sta (mac (count_tx n hw)) prio pd len = tx_hdr sta (mac hw) prio pd len"
  "tx_body sta (mac (count_tx n hw)) prio fc a1 a2 a3 pad q iv b icv = tx_body sta (mac hw) prio fc a1 a2 a3 pad q iv b icv"
  by (simp_all add: tx_hdr_def tx_body_def)

lemma start_xmit_ok:
  assumes v: "skb_view skb pre (dst @ src @ ty @ payload) post"
    and l: "length dst = 6" "length src = 6" "length ty = 2" "length (vif_bssid (rp_vif s)) = 6" "length (vif_addr (rp_vif s)) = 6"
    and e: "tx_encaps (be16 (ty ! 0) (ty ! 1)) = (e, 12)"
    and on: "mac hw = s" "vif_enabled (rp_vif s)" "tx_addresses (rp_vif s) dst src = Some (ds, a1, a2, a3)"
    and sta: "sta_info_get (vif_no (rp_vif s)) a1 (rp_mac s) = Some sta" "sta = None \<Longrightarrow> tx_without_station a1 s"
    and key: "key = tx_key sta s"
    and al: "even (int (skb_addr skb + sizeof_sk_buff) + skb_data skb)" "even (iv_room key)"
    and room: "head_ok (52 + iv_room key) skb" "skb_data skb < 2 ^ 15" "length payload + 64 + iv_room key < 2 ^ 16"
  obtains sk p pad iv n where
    "atbm_subif_start_xmit align_size False skb hw = map_option (\<lambda>h. (0, h)) (atbm_submit_package sk (count_tx n hw))"
    "same_skb skb sk" "length pad \<le> 2" "length iv = iv_room key"
    "skb_view sk p (tx_body sta s (skb_priority skb) (tx_data_fc ds a1 sta s) a1 a2 a3 pad
       (tx_qos (tx_data_fc ds a1 sta s) (skb_priority skb)) iv (e @ ty @ payload) (unat (tx_icv_len key))) post"
proof -
  define fc where "fc = tx_data_fc ds a1 sta s"
  have a: "length a1 = 6" "length a2 = 6" "length a3 = 6" "ds = IEEE80211_FCTL_TODS \<or> ds = IEEE80211_FCTL_FROMDS"
    using on(3) l by (auto simp: tx_addresses_def split: if_splits)
  have f: "data_fc fc" unfolding fc_def by (rule tx_data_fc_ok[OF a(4)])
  have le: "length e = 6" by (rule tx_encaps_length[OF e])
  define hl :: int where "hl = (if ieee80211_is_data_qos fc then 26 else 24)"
  have "unat (skb_len skb) = 14 + length payload" using v l by (simp add: skb_view_def)
  then have g1: "\<not> skb_len skb < of_nat ETH_HLEN" by (simp add: word_less_nat_alt)
  have r: "skb_rdn skb 0 ETH_HLEN = Some (dst @ src @ ty)"
    using view_rdn_body[of skb pre "[]" "dst @ src @ ty" payload post 0 14] v l by simp
  have v1: "skb_view (skb_pull skb 12) (pre @ dst @ src) (ty @ payload) post"
    using view_pull[OF v, of 12] l by simp
  let ?s1 = "skb_pull skb 12"
  have same1: "same_skb skb ?s1" by (simp add: same_skb_def skb_pull_def)
  have d: "skb_data skb = int (length pre)" using v by (simp add: skb_view_def)
  have hd: "hl + int (length e) - skb_headroom ?s1 \<le> 0"
    using room(1) d l le view_headroom[OF v1] same1 by (auto simp: head_ok_def same_skb_def hl_def)
  obtain sk where sk: "xmit_frame align_size e fc a1 a2 a3 ?s1 hw =
       map_option (\<lambda>h. (0, h)) (atbm_tx align_size sk (count_tx (skb_len sk) hw))"
    "skb_view sk (take (length (pre @ dst @ src) - (24 + length (tx_qos fc 0) + length e)) (pre @ dst @ src))
       (tx_header fc a1 a2 a3 @ tx_qos fc (skb_priority ?s1) @ e @ ty @ payload) post"
    "same_skb ?s1 sk"
    by (rule xmit_frame_ok[OF v1 f a(1-3), of e]) (use l le room d in \<open>auto simp: head_ok_def\<close>)
  have same2: "same_skb skb sk" by (rule same_skb_trans[OF same1 sk(3)])
  have dk: "skb_data sk = skb_data skb + 12 - (30 + int (length (tx_qos fc 0)))"
    using sk(2) d l le room(1) by (simp add: skb_view_def head_ok_def)
  have ev: "even (int (skb_addr sk + sizeof_sk_buff) + skb_data sk)"
    using al(1) same2 by (auto simp: dk same_skb_def)
  have hk: "head_ok (32 + iv_room key) sk"
    using room(1,2) same2 by (auto simp: head_ok_def dk same_skb_def)
  let ?h = "count_tx (skb_len sk) hw"
  obtain s3 p pad iv where s3: "atbm_tx align_size sk ?h = atbm_submit_package s3 ?h" "same_skb sk s3"
    "length pad \<le> 2" "length iv = iv_room key"
    "skb_view s3 p (tx_body sta (mac ?h) (skb_priority sk) fc a1 a2 a3 pad (tx_qos fc (skb_priority ?s1)) iv
       (e @ ty @ payload) (unat (tx_icv_len key))) post"
    by (rule atbm_tx_ok[OF sk(2) f a(1-3) _ _ refl _ _ ev al(2) hk, of ?h sta])
      (use on sta key l le room(3) in auto)
  have pr: "skb_priority ?s1 = skb_priority skb" "skb_priority sk = skb_priority skb"
    using same1 same2 by (simp_all add: same_skb_def)
  have fcx: "fc = IEEE80211_FTYPE_DATA OR ds OR (if (case (if is_multicast_ether_addr a1 then None else sta) of
      None \<Rightarrow> False | Some x \<Rightarrow> sta_wmm (sta_heap (rp_mac s) x)) then IEEE80211_STYPE_QOS_DATA else 0)"
    by (auto simp: fc_def tx_data_fc_def split: option.splits)
  define qos where "qos = (case (if is_multicast_ether_addr a1 then None else sta) of
      None \<Rightarrow> False | Some x \<Rightarrow> sta_wmm (sta_heap (rp_mac s) x))"
  have q: "ieee80211_is_data_qos fc = qos"
    using a(4) fcx unfolding qos_def[symmetric] by (auto simp: fc_defs)
  have look: "(if is_multicast_ether_addr a1 then Some None else sta_info_get (vif_no (rp_vif s)) a1 (rp_mac s)) =
      Some (if is_multicast_ether_addr a1 then None else sta)"
    using sta(1) by simp
  have hd': "(if qos then 26 else 24) + int (length e) - skb_headroom ?s1 \<le> 0" using hd by (simp add: hl_def q)
  have tyn: "(dst @ src @ ty) ! 12 = ty ! 0" "(dst @ src @ ty) ! 13 = ty ! 1" using l by (simp_all add: nth_append)
  have "atbm_subif_start_xmit align_size False skb hw = xmit_frame align_size e fc a1 a2 a3 ?s1 hw"
    using g1 r on(1,3) e l hd' look tyn
    by (cases qos) (simp_all add: atbm_subif_start_xmit_def Let_def fcx flip: qos_def)
  then show ?thesis
    using sk(1) s3 same_skb_trans[OF same2 s3(2)] on(1) pr unfolding fc_def by (intro that[of s3 "skb_len sk" pad iv]) simp_all
qed

lemma submit_ok:
  assumes "vif_type hw \<noteq> None"
  obtains hw' where "atbm_submit_package skb hw = Some hw'" "tx_frame_queue hw' = tx_frame_queue hw @ [skb]"
    "tx_inv hw' = tx_inv hw" "tx_credit hw' = tx_credit hw" "hw_caps hw' = hw_caps hw" "wsm_tx_seq hw' = wsm_tx_seq hw"
    "freed_skbs hw' = freed_skbs hw" "mac hw' = mac hw" "bh_wakeups hw' = bh_wakeups hw + 1" "vif_type hw' = vif_type hw"
proof -
  define h1 where "h1 = hw\<lparr>tx_frame_queue := tx_frame_queue hw @ [skb], tx_num_queued := tx_num_queued hw + 1\<rparr>"
  define h2 where "h2 = (if \<not> tx_queue_overfull h1 \<and> tx_num_queued h1 \<ge> ATBM_WIFI_MAX_QUEUE_SZ
    then netif_tx_stop_all_queues (h1\<lparr>tx_queue_overfull := True\<rparr>) else h1)"
  have "vif_type h1 \<noteq> None" using assms by (simp add: h1_def)
  then have "atbm_submit_package skb hw = Some (atbm_bh_wakeup h2)"
    by (simp add: atbm_submit_package_def h2_def Let_def flip: h1_def)
  then show ?thesis
    by (rule that) (auto simp: h2_def h1_def netif_tx_stop_all_queues_def tx_inv_def tx_credit_def atbm_bh_wakeup_def)
qed

lemma count_tx_hw [simp]:
  "vif_type (count_tx n hw) = vif_type hw" "tx_frame_queue (count_tx n hw) = tx_frame_queue hw"
  "tx_inv (count_tx n hw) = tx_inv hw" "tx_credit (count_tx n hw) = tx_credit hw" "hw_caps (count_tx n hw) = hw_caps hw"
  "wsm_tx_seq (count_tx n hw) = wsm_tx_seq hw" "freed_skbs (count_tx n hw) = freed_skbs hw"
  "bh_wakeups (count_tx n hw) = bh_wakeups hw"
  by (simp_all add: count_tx_def tx_inv_def tx_credit_def)

lemma tx_body_length:
  "length (tx_body sta s prio fc a1 a2 a3 pad q iv b icv) = 32 + length pad + length a1 + length a2 + length a3 + 6 - 4 + length q + length iv + length b"
  by (simp add: tx_body_def tx_header_def Let_def)

lemma tx_message_header:
  fixes sta s prio ds a1 a2 a3 snap pad iv icv
  defines "m \<equiv> tx_message sta s prio ds a1 a2 a3 snap pad iv icv"
  shows "val16 (take 2 (drop 4 m)) = of_nat (length m)" "8 \<le> length m"
  by (auto simp: m_def tx_message_def tx_body_def tx_hdr_def val16_def le16_bytes bytes16_def Let_def add.assoc split: prod.split)

text \<open>What the property assumes of the station, the key, the buffer and the room of a message.\<close>

definition tx_ready :: "nat \<Rightarrow> sk_buff \<Rightarrow> bytes \<Rightarrow> mac \<Rightarrow> mac \<Rightarrow> bytes \<Rightarrow> bytes \<Rightarrow> nat option \<Rightarrow> u16 \<times> mac \<times> mac \<times> mac \<Rightarrow> bytes \<Rightarrow> adapter \<Rightarrow> bool" where
  "tx_ready room skb post dst src ty payload sta addrs e hw \<longleftrightarrow>
     (let s = mac hw; v = rp_vif s; key = tx_key sta s; a1 = fst (snd addrs) in
      length dst = 6 \<and> length src = 6 \<and> length ty = 2 \<and> length (vif_bssid v) = 6 \<and> length (vif_addr v) = 6 \<and>
      (\<exists>pre. skb_view skb pre (dst @ src @ ty @ payload) post) \<and> skb_data_len skb = 0 \<and>
      tx_encaps (be16 (ty ! 0) (ty ! 1)) = (e, 12) \<and>
      vif_enabled v \<and> vif_type hw \<noteq> None \<and> tx_addresses v dst src = Some addrs \<and>
      sta_info_get (vif_no v) a1 (rp_mac s) = Some sta \<and> (sta \<noteq> None \<or> tx_without_station a1 s) \<and>
      even (int (skb_addr skb + sizeof_sk_buff) + skb_data skb) \<and> even (iv_room key) \<and>
      head_ok (52 + iv_room key) skb \<and> skb_data skb < 2 ^ 15 \<and>
      unat (tx_icv_len key) \<le> length post \<and>
      length payload + iv_room key + unat (tx_icv_len key) + 324 \<le> room \<and> room < 2 ^ 16)"

lemma xmit_queues_message_ok:
  assumes r: "tx_ready room skb post dst src ty payload sta (ds, a1, a2, a3) e hw"
  obtains hw' sk pad iv icv where
    "atbm_subif_start_xmit align_size False skb hw = Some (0, hw')" "tx_frame_queue hw' = tx_frame_queue hw @ [sk]"
    "tx_inv hw' = tx_inv hw" "tx_credit hw' = tx_credit hw" "hw_caps hw' = hw_caps hw" "wsm_tx_seq hw' = wsm_tx_seq hw"
    "freed_skbs hw' = freed_skbs hw" "bh_wakeups hw' = bh_wakeups hw + 1" "skb_addr sk = skb_addr skb"
    "length pad \<le> 2" "length iv = iv_room (tx_key sta (mac hw))" "icv = take (unat (tx_icv_len (tx_key sta (mac hw)))) post"
    "tx_msg_ok room (sk, tx_message sta (mac hw) (skb_priority skb) ds a1 a2 a3 (e @ ty @ payload) pad iv icv)"
proof -
  define s where "s = mac hw"
  define key where "key = tx_key sta s"
  note R = r[unfolded tx_ready_def Let_def fst_conv snd_conv, folded s_def, folded key_def]
  obtain pre where v: "skb_view skb pre (dst @ src @ ty @ payload) post" using R by blast
  obtain sk p pad iv n where x: "atbm_subif_start_xmit align_size False skb hw =
      map_option (\<lambda>h. (0, h)) (atbm_submit_package sk (count_tx n hw))"
    "same_skb skb sk" "length pad \<le> 2" "length iv = iv_room key"
    "skb_view sk p (tx_body sta s (skb_priority skb) (tx_data_fc ds a1 sta s) a1 a2 a3 pad
       (tx_qos (tx_data_fc ds a1 sta s) (skb_priority skb)) iv (e @ ty @ payload) (unat (tx_icv_len key))) post"
    by (rule start_xmit_ok[OF v, of s e hw ds a1 a2 a3 sta key]) (use R in \<open>auto simp: s_def key_def\<close>)
  obtain hw' where h: "atbm_submit_package sk (count_tx n hw) = Some hw'" "tx_frame_queue hw' = tx_frame_queue hw @ [sk]"
    "tx_inv hw' = tx_inv hw" "tx_credit hw' = tx_credit hw" "hw_caps hw' = hw_caps hw" "wsm_tx_seq hw' = wsm_tx_seq hw"
    "freed_skbs hw' = freed_skbs hw" "bh_wakeups hw' = bh_wakeups hw + 1"
    by (rule submit_ok[of "count_tx n hw" sk]) (use R in auto)
  define icv where "icv = take (unat (tx_icv_len key)) post"
  have li: "length icv = unat (tx_icv_len key)" using R by (simp add: icv_def)
  let ?m = "tx_message sta s (skb_priority skb) ds a1 a2 a3 (e @ ty @ payload) pad iv icv"
  have a: "length a1 = 6" "length a2 = 6" "length a3 = 6" "length e = 6"
    using R tx_encaps_length by (auto simp: tx_addresses_def split: if_splits)
  have lm: "length ?m \<le> length payload + iv_room key + unat (tx_icv_len key) + 68"
    using a R x(3,4) by (simp add: tx_message_def tx_body_length li Let_def)
  have m: "skb_mem sk = p @ ?m @ drop (unat (tx_icv_len key)) post" "skb_data sk = int (length p)"
    using x(5) append_take_drop_id[of "unat (tx_icv_len key)" post]
    by (simp_all add: skb_view_def tx_message_def Let_def li flip: icv_def)
  then have "skb_holds sk p ?m (drop (unat (tx_icv_len key)) post)"
    using lm R by (simp add: skb_holds_def)
  then have "tx_msg_ok room (sk, ?m)"
    using tx_message_header lm R x(2) pad_len_bounds(3)[of "length ?m"] by (auto simp: tx_msg_ok_def same_skb_def)
  then show ?thesis
    using x(1,2,3,4) h
    by (intro that[of hw' sk pad iv icv]) (simp_all add: same_skb_def s_def key_def icv_def)
qed

subsection \<open>From the network stack to the bus\<close>

text \<open>C3. An Ethernet frame reaches the chip.  Given to the network device behind messages already queued, a
  frame to a known station (or of a group of an access point) in a buffer with room for the headers is
  accepted; the bus thread then sends everything queued, and the last message the chip reads is the
  frame: the header with length, interface, rate, queue and station; at most two bytes to align; the
  802.11 header with the addresses of the interface type, QoS control for a station that uses it and
  the protected bit for one with a key; room for the IV; the SNAP header; the payload; and as many
  bytes behind it as the integrity check value takes.  The buffer is freed once, when it is sent.\<close>
theorem ethernet_frame_reaches_bus:
  assumes "takes_messages ops sent" "tx_inv hw" "tx_frame_queue hw = map fst ms"
    "\<forall>m\<in>set ms. tx_msg_ok room m" "room = unat (sizeInpChBuf (hw_caps hw))" "room \<le> SDIO_TX_MAXLEN"
    "int (length ms) + 1 < tx_credit hw"
    "tx_ready room skb post dst src ty payload sta (ds, a1, a2, a3) e hw"
  shows "\<exists>hw1 hw' h' bursts pad iv icv. atbm_subif_start_xmit align_size False skb hw = Some (NETDEV_TX_OK, hw1) \<and>
    atbm_sdio_tx_bh ops others hw1 h = Some (others, hw', h') \<and> tx_frame_queue hw' = [] \<and>
    map skb_addr (freed_skbs hw') = map skb_addr (freed_skbs hw @ map fst ms @ [skb]) \<and>
    sent (hif_bus h') = sent (hif_bus h) @ bursts \<and>
    length pad \<le> 2 \<and> length iv = iv_room (tx_key sta (mac hw)) \<and> length icv = unat (tx_icv_len (tx_key sta (mac hw))) \<and>
    concat (map parse_burst bursts) = stamped_all (wsm_tx_seq hw)
      (map snd ms @ [tx_message sta (mac hw) (skb_priority skb) ds a1 a2 a3 (e @ ty @ payload) pad iv icv])"
proof -
  obtain hw1 sk pad iv icv where
    x: "atbm_subif_start_xmit align_size False skb hw = Some (0, hw1)" "tx_frame_queue hw1 = tx_frame_queue hw @ [sk]"
    "tx_inv hw1 = tx_inv hw" "tx_credit hw1 = tx_credit hw" "hw_caps hw1 = hw_caps hw" "wsm_tx_seq hw1 = wsm_tx_seq hw"
    "freed_skbs hw1 = freed_skbs hw" "skb_addr sk = skb_addr skb"
    "length pad \<le> 2" "length iv = iv_room (tx_key sta (mac hw))" "icv = take (unat (tx_icv_len (tx_key sta (mac hw)))) post"
    "tx_msg_ok room (sk, tx_message sta (mac hw) (skb_priority skb) ds a1 a2 a3 (e @ ty @ payload) pad iv icv)"
    using xmit_queues_message_ok[OF assms(8)] by metis
  define m where "m = (sk, tx_message sta (mac hw) (skb_priority skb) ds a1 a2 a3 (e @ ty @ payload) pad iv icv)"
  have "\<forall>m\<in>set (ms @ [m]). tx_msg_ok room m" using assms(4) x(12) by (simp add: m_def)
  from tx_bh_ok[OF assms(1) _ _ this, of hw1 others h]
  obtain hw' h' bursts where "atbm_sdio_tx_bh ops others hw1 h = Some (others, hw', h')" "tx_frame_queue hw' = []"
    "map skb_addr (freed_skbs hw') = map skb_addr (freed_skbs hw1 @ map fst (ms @ [m]))"
    "sent (hif_bus h') = sent (hif_bus h) @ bursts"
    "concat (map parse_burst bursts) = stamped_all (wsm_tx_seq hw1) (map snd (ms @ [m]))"
    using assms(2,3,5,6,7) x by (auto simp: m_def)
  moreover have "length icv = unat (tx_icv_len (tx_key sta (mac hw)))"
    using assms(8) x(11) by (simp add: tx_ready_def Let_def)
  ultimately show ?thesis using x by (intro exI conjI) (auto simp: m_def)
qed

text \<open>A buffer with too little room in front leaks: atbm_subif_start_xmit wants it reallocated, which this
  port cannot do, and answers busy without freeing it, and atbm_wifi_tx_pkt, the entry of the network
  stack, drops the answer.  The frame is neither queued nor freed and nothing is counted.\<close>
theorem xmit_without_room_leaks:
  assumes "skb_view skb pre (dst @ src @ ty @ payload) post" "length dst = 6" "length src = 6" "length ty = 2"
    "vif_iftype (rp_vif (mac hw)) = NL80211_IFTYPE_STATION"
    "is_multicast_ether_addr (vif_bssid (rp_vif (mac hw))) \<or>
      sta_info_get (vif_no (rp_vif (mac hw))) (vif_bssid (rp_vif (mac hw))) (rp_mac (mac hw)) \<noteq> None"
    "skb_headroom skb < 10"
  shows "atbm_wifi_tx_pkt align_size False skb hw = Some hw"
proof -
  have g1: "\<not> skb_len skb < of_nat ETH_HLEN"
    using assms(1-4) by (simp add: skb_view_def word_less_nat_alt)
  have r: "skb_rdn skb 0 ETH_HLEN = Some (dst @ src @ ty)"
    using view_rdn_body[of skb pre "[]" "dst @ src @ ty" payload post 0 14] assms(1-4) by simp
  have hr: "skb_headroom (skb_pull skb n) = skb_headroom skb + int n" for n
    by (simp add: skb_headroom_def skb_pull_def)
  obtain e n where en: "tx_encaps (be16 ((dst @ src @ ty) ! 12) ((dst @ src @ ty) ! 13)) = (e, n)"
    "n = 14 \<and> e = [] \<or> n = 12 \<and> length e = 6"
    by (cases "tx_encaps (be16 ((dst @ src @ ty) ! 12) ((dst @ src @ ty) ! 13))")
      (auto simp: tx_encaps_def rfc1042_header_def bridge_tunnel_header_def split: if_splits)
  have need: "24 + int (length e) - skb_headroom (skb_pull skb n) > 0"
    "26 + int (length e) - skb_headroom (skb_pull skb n) > 0" using en(2) assms(7) hr by auto
  have ad: "tx_addresses (rp_vif (mac hw)) dst src = Some (IEEE80211_FCTL_TODS, vif_bssid (rp_vif (mac hw)), src, dst)"
    using assms(5) by (simp add: tx_addresses_def)
  obtain sta where look: "(if is_multicast_ether_addr (vif_bssid (rp_vif (mac hw))) then Some None
      else sta_info_get (vif_no (rp_vif (mac hw))) (vif_bssid (rp_vif (mac hw))) (rp_mac (mac hw))) = Some sta"
    using assms(6) by (cases "is_multicast_ether_addr (vif_bssid (rp_vif (mac hw)))") auto
  have "atbm_subif_start_xmit align_size False skb hw = Some (NETDEV_TX_BUSY, hw)"
    using g1 r ad look en(1) need assms(2,3)
    by (auto simp: atbm_subif_start_xmit_def Let_def ieee80211_skb_resize_def)
  then show ?thesis by (simp add: atbm_wifi_tx_pkt_def)
qed

subsection \<open>Back to the Ethernet frame\<close>

lemma snap_of_tx_encaps:
  assumes "tx_encaps et = (e, 12)" "length ty = 2" "et = be16 (ty ! 0) (ty ! 1)"
  shows "snap_encap (e @ ty) et" "length e = 6"
  using assms
  by (auto simp: tx_encaps_def snap_encap_def compare_ether_addr_def rfc1042_header_def bridge_tunnel_header_def
      split: if_splits)

text \<open>The type of interface at the other end, and its address that matters.\<close>

definition peer_type :: "u16 \<Rightarrow> nl80211_iftype" where
  "peer_type ds = (if ds = IEEE80211_FCTL_TODS then NL80211_IFTYPE_AP else NL80211_IFTYPE_STATION)"

lemma sent_fc_facts:
  assumes "fc \<in> {0x0108, 0x0188, 0x4108, 0x4188, 0x0208, 0x0288, 0x4208, 0x4288}"
  shows "ieee80211_is_data_present fc" "unat (ieee80211_hdrlen fc) = (if ieee80211_is_data_qos fc then 26 else 24)"
    "ieee80211_get_DA fc = (if fc AND IEEE80211_FCTL_TODS \<noteq> 0 then 16 else 4)"
    "ieee80211_get_SA fc = (if fc AND IEEE80211_FCTL_TODS \<noteq> 0 then 10 else 16)"
  using assms by (auto simp: fc_defs ieee80211_hdrlen_def ieee80211_get_DA_def ieee80211_get_SA_def)

lemma read_back_ok:
  assumes v: "skb_view r rpre (tx_header (tx_fc key (tx_data_fc ds a1 sta s)) a1 a2 a3 @ tx_qos (tx_data_fc ds a1 sta s) prio @ e @ ty @ payload) rpost"
    and ad: "tx_addresses (rp_vif s) dst src = Some (ds, a1, a2, a3)"
    and l: "length dst = 6" "length src = 6" "length ty = 2" "length (vif_bssid (rp_vif s)) = 6" "length (vif_addr (rp_vif s)) = 6"
      "length payload + 14 < 2 ^ 16"
    and e: "tx_encaps (be16 (ty ! 0) (ty ! 1)) = (e, 12)"
    and own: "\<not> (is_multicast_ether_addr dst \<and> compare_ether_addr src raddr = 0)"
  shows "\<exists>r'. ieee80211_data_to_8023 r raddr (peer_type ds) = Some (0, r') \<and> skb_payload r' = Some (dst @ src @ ty @ payload)"
proof -
  define fc where "fc = tx_fc key (tx_data_fc ds a1 sta s)"
  define q where "q = tx_qos (tx_data_fc ds a1 sta s) prio"
  have ds: "ds = IEEE80211_FCTL_TODS \<and> a2 = src \<and> a3 = dst \<and> length a1 = 6 \<or>
      ds = IEEE80211_FCTL_FROMDS \<and> a1 = dst \<and> a3 = src \<and> length a2 = 6"
    using ad l by (auto simp: tx_addresses_def split: if_splits)
  have f: "fc \<in> {0x0108, 0x0188, 0x4108, 0x4188} \<and> ds = IEEE80211_FCTL_TODS \<or> fc \<in> {0x0208, 0x0288, 0x4208, 0x4288} \<and> ds = IEEE80211_FCTL_FROMDS"
    using ds by (auto simp: fc_def tx_fc_def tx_data_fc_def)
  then have fx: "fc \<in> {0x0108, 0x0188, 0x4108, 0x4188, 0x0208, 0x0288, 0x4208, 0x4288}"
    and tods: "fc AND IEEE80211_FCTL_TODS \<noteq> 0 \<longleftrightarrow> ds = IEEE80211_FCTL_TODS" by auto
  note F = sent_fc_facts[OF fx, unfolded tods]
  have "ieee80211_is_data_qos fc = ieee80211_is_data_qos (tx_data_fc ds a1 sta s)"
    using ds by (auto simp: fc_def tx_fc_def tx_data_fc_def fc_defs)
  then have lq: "length q = (if ieee80211_is_data_qos fc then 2 else 0)" by (simp add: q_def)
  define hdr where "hdr = tx_header fc a1 a2 a3 @ q"
  have la: "length a1 = 6" "length a2 = 6" "length a3 = 6" using ds l by auto
  have h: "hdr = bytes16 fc @ drop 2 hdr" "length hdr = unat (ieee80211_hdrlen fc)" "24 \<le> length hdr"
    unfolding F(2) using la lq by (simp_all add: hdr_def tx_header_def bytes16_def)
  have a: "dst = take 6 (drop (nat (ieee80211_get_DA fc)) hdr)" "src = take 6 (drop (nat (ieee80211_get_SA fc)) hdr)"
    unfolding F(3,4) using ds la by (auto simp: hdr_def tx_header_def bytes16_def)
  have ok: "\<not> to_8023_refused fc (peer_type ds) dst src raddr"
    using f own by (auto simp: to_8023_refused_def peer_type_def Let_def)
  have v': "skb_view r rpre (hdr @ e @ ty @ payload) rpost" using v by (simp add: hdr_def fc_def q_def)
  have "length (ty @ payload) + 12 < 2 ^ 16" using l by simp
  from to_8023_ok[OF v' h(1,2) snap_of_tx_encaps(2)[OF e l(3) refl] l(3) F(1) snap_of_tx_encaps(1)[OF e l(3) refl] a ok h(3) this]
  show ?thesis using view_payload by blast
qed

text \<open>The 802.11 header of a frame that is sent, with its QoS control.\<close>

definition sent_header :: "nat option \<Rightarrow> rx_path \<Rightarrow> u8 \<Rightarrow> u16 \<times> mac \<times> mac \<times> mac \<Rightarrow> bytes" where
  "sent_header sta s prio = (\<lambda>(ds, a1, a2, a3). let fc = tx_data_fc ds a1 sta s
     in tx_header (tx_fc (tx_key sta s) fc) a1 a2 a3 @ tx_qos fc prio)"

text \<open>C23. What is sent reads back as it was.  The Ethernet frame the stack gives to atbm_subif_start_xmit is queued
  as a message whose 802.11 part, the header with its QoS control and the bytes behind the room for the
  IV, ieee80211_data_to_8023 of a receiver turns into the same Ethernet frame, byte for byte: at an
  access point for the frames of a station, at a station for those of an access point, with and
  without key and QoS.  Frames with a length instead of a type are excluded (tx_ready), and so is a
  multicast frame that comes back to the station it is from, which the receiver refuses.\<close>
theorem sent_frame_reads_back:
  assumes "tx_ready room skb post dst src ty payload sta addrs e hw"
    "\<not> (is_multicast_ether_addr dst \<and> compare_ether_addr src raddr = 0)"
    "skb_view r rpre (sent_header sta (mac hw) (skb_priority skb) addrs @ e @ ty @ payload) rpost"
  shows "\<exists>hw' sk pre h iv icv rest. atbm_subif_start_xmit align_size False skb hw = Some (NETDEV_TX_OK, hw') \<and>
    tx_frame_queue hw' = tx_frame_queue hw @ [sk] \<and>
    skb_holds sk pre (h @ sent_header sta (mac hw) (skb_priority skb) addrs @ iv @ (e @ ty @ payload) @ icv) rest \<and>
    28 \<le> length h \<and> length h \<le> 30 \<and> length iv = iv_room (tx_key sta (mac hw)) \<and>
    length icv = unat (tx_icv_len (tx_key sta (mac hw))) \<and>
    (\<exists>r'. ieee80211_data_to_8023 r raddr (peer_type (fst addrs)) = Some (0, r') \<and> skb_payload r' = Some (dst @ src @ ty @ payload))"
proof -
  obtain ds a1 a2 a3 where ad: "addrs = (ds, a1, a2, a3)" by (cases addrs)
  note R = assms(1)[unfolded ad tx_ready_def Let_def fst_conv snd_conv]
  obtain hw' sk pad iv icv where x: "atbm_subif_start_xmit align_size False skb hw = Some (0, hw')"
    "tx_frame_queue hw' = tx_frame_queue hw @ [sk]" "length pad \<le> 2" "length iv = iv_room (tx_key sta (mac hw))"
    "icv = take (unat (tx_icv_len (tx_key sta (mac hw)))) post"
    "tx_msg_ok room (sk, tx_message sta (mac hw) (skb_priority skb) ds a1 a2 a3 (e @ ty @ payload) pad iv icv)"
    using xmit_queues_message_ok[OF assms(1)[unfolded ad]] by metis
  let ?h = "tx_hdr sta (mac hw) (skb_priority skb) (pad \<noteq> []) (of_nat (28 + length (pad @ sent_header sta (mac hw) (skb_priority skb) addrs
      @ iv @ e @ ty @ payload) + length icv)) @ pad"
  have m: "tx_message sta (mac hw) (skb_priority skb) ds a1 a2 a3 (e @ ty @ payload) pad iv icv
      = ?h @ sent_header sta (mac hw) (skb_priority skb) addrs @ iv @ (e @ ty @ payload) @ icv"
    by (simp add: tx_message_def tx_body_def sent_header_def ad Let_def)
  have "length icv = unat (tx_icv_len (tx_key sta (mac hw)))" using R x(5) by simp
  moreover have "\<exists>r'. ieee80211_data_to_8023 r raddr (peer_type ds) = Some (0, r') \<and> skb_payload r' = Some (dst @ src @ ty @ payload)"
    by (rule read_back_ok[of r rpre _ ds a1 sta "mac hw" a2 a3 "skb_priority skb" e ty payload rpost])
      (use assms(2,3) R in \<open>auto simp: sent_header_def ad Let_def\<close>)
  moreover obtain pre rest where
    "skb_holds sk pre (?h @ sent_header sta (mac hw) (skb_priority skb) addrs @ iv @ (e @ ty @ payload) @ icv) rest"
    using x(6) unfolding m by (auto simp: tx_msg_ok_def)
  moreover have "28 \<le> length ?h" "length ?h \<le> 30" using x(3) by simp_all
  ultimately show ?thesis using x(1,2,4) unfolding ad fst_conv by blast
qed

subsection \<open>A frame to an access point with CCMP\<close>

definition demo_adapter :: "bool \<Rightarrow> adapter" where
  "demo_adapter enc = with_mac (demo_rx_path enc) demo_hw"

definition demo_eth :: "nat \<Rightarrow> sk_buff" where
  "demo_eth room = mk_skb 8 (replicate room 0) ([2,0,0,0,0,5] @ [2,0,0,0,0,9] @ [8, 0] @ [0x45, 0, 0, 0]) (replicate 16 0)"

lemma demo_eth_ok: "skb_view (demo_eth room) (replicate room 0) ([2,0,0,0,0,5] @ [2,0,0,0,0,9] @ [8, 0] @ [0x45, 0, 0, 0]) (replicate 16 0)"
  "skb_addr (demo_eth room) = 8" "skb_priority (demo_eth room) = 0" "skb_data_len (demo_eth room) = 0"
  "skb_data (demo_eth room) = int room" "skb_Head (demo_eth room) = 0"
  unfolding demo_eth_def by (rule mk_skb_ok(1), simp) (simp_all add: mk_skb_def)

lemma demo_adapter_ok:
  "mac (demo_adapter enc) = demo_rx_path enc" "tx_inv (demo_adapter enc)" "tx_frame_queue (demo_adapter enc) = []"
  "tx_credit (demo_adapter enc) = 8" "sizeInpChBuf (hw_caps (demo_adapter enc)) = 1632" "wsm_tx_seq (demo_adapter enc) = 0"
  "freed_skbs (demo_adapter enc) = []" "vif_type (demo_adapter enc) = Some NL80211_IFTYPE_STATION"
  by (simp_all add: demo_adapter_def with_mac_def atbm_common.defs demo_hw_def demo_caps_def tx_inv_def tx_credit_def)

lemma demo_tx_key: "tx_key (Some 3) (demo_rx_path enc) = \<lparr>key_type = IEEE80211_ENC_AES, key_iv_len = 8, key_icv_len = 8\<rparr>"
  by (simp add: tx_key_def demo_rx_path_def demo_ap_def)

lemma demo_tx_lengths:
  "iv_room (tx_key (Some 3) (demo_rx_path enc)) = 8" "unat (tx_icv_len (tx_key (Some 3) (demo_rx_path enc))) = 8"
  by (simp_all add: demo_tx_key iv_room_def encrypts_def tx_icv_len_def word_less_nat_alt word_le_nat_alt)

lemma demo_tx_ready:
  "tx_ready 1632 (demo_eth 100) (replicate 16 0) [2,0,0,0,0,5] [2,0,0,0,0,9] [8, 0] [0x45, 0, 0, 0] (Some 3)
     (IEEE80211_FCTL_TODS, [2,0,0,0,0,7], [2,0,0,0,0,9], [2,0,0,0,0,5]) rfc1042_header (demo_adapter True)"
proof -
  have v: "\<exists>pre. skb_view (demo_eth 100) pre ([2,0,0,0,0,5] @ [2,0,0,0,0,9] @ [8, 0] @ [0x45, 0, 0, 0]) (replicate 16 0)"
    using demo_eth_ok(1) by blast
  have g: "sta_info_get (vif_no (rp_vif (demo_rx_path True))) [2,0,0,0,0,7] (rp_mac (demo_rx_path True)) = Some (Some 3)"
    using demo_path_ok(4)[of True] by (simp add: sta_info_get_def sta_info_get_rx_def)
  have vf: "vif_enabled (rp_vif (demo_rx_path True))" "length (vif_bssid (rp_vif (demo_rx_path True))) = 6"
    "tx_addresses (rp_vif (demo_rx_path True)) [2,0,0,0,0,5] [2,0,0,0,0,9] =
      Some (IEEE80211_FCTL_TODS, [2,0,0,0,0,7], [2,0,0,0,0,9], [2,0,0,0,0,5])"
    by (simp_all add: demo_rx_path_def demo_rx_vif_def tx_addresses_def)
  have e: "tx_encaps (be16 ([8, 0] ! 0) ([8, 0] ! 1)) = (rfc1042_header, 12)" by code_simp
  show ?thesis
    unfolding tx_ready_def Let_def
    by (intro conjI; (rule v e)?)
      (simp_all add: demo_adapter_ok demo_eth_ok head_ok_def demo_path_ok(2) g vf demo_tx_lengths)
qed

theorem ethernet_frame_reaches_bus_witness:
  "\<exists>hw1 hw' h' pad iv icv. atbm_subif_start_xmit (\<lambda>x. x) False (demo_eth 100) (demo_adapter True) = Some (0, hw1) \<and>
    atbm_sdio_tx_bh recording_ops [] hw1 (demo_hif []) = Some ([], hw', h') \<and>
    map skb_addr (freed_skbs hw') = [8] \<and> length iv = 8 \<and> length icv = 8 \<and>
    concat (map parse_burst (hif_bus h')) = stamped_all 0 [tx_message (Some 3) (demo_rx_path True) 0 IEEE80211_FCTL_TODS
      [2,0,0,0,0,7] [2,0,0,0,0,9] [2,0,0,0,0,5] (rfc1042_header @ [8, 0] @ [0x45, 0, 0, 0]) pad iv icv]"
proof -
  have c: "int (length ([] :: (sk_buff \<times> bytes) list)) + 1 < tx_credit (demo_adapter True)" "tx_frame_queue (demo_adapter True) = map fst []"
    "1632 = unat (sizeInpChBuf (hw_caps (demo_adapter True)))" "(1632 :: nat) \<le> SDIO_TX_MAXLEN"
    by (simp_all add: demo_adapter_ok)
  note x = ethernet_frame_reaches_bus[OF recording_takes demo_adapter_ok(2) c(2) _ c(3,4,1) demo_tx_ready,
      where others = "[]" and h = "demo_hif []" and align_size = "\<lambda>x. x", unfolded demo_adapter_ok demo_tx_lengths demo_eth_ok]
  have y: "hif_bus (demo_hif []) = []" by (simp add: demo_hif_def)
  show ?thesis using x by (simp add: y demo_eth_ok) (elim exE conjE, intro exI conjI, assumption+)
qed

theorem xmit_without_room_leaks_witness:
  "atbm_wifi_tx_pkt (\<lambda>x. x) False (demo_eth 4) (demo_adapter True) = Some (demo_adapter True)"
proof -
  have g: "sta_info_get (vif_no (rp_vif (demo_rx_path True))) [2,0,0,0,0,7] (rp_mac (demo_rx_path True)) = Some (Some 3)"
    using demo_path_ok(4)[of True] by (simp add: sta_info_get_def sta_info_get_rx_def)
  have b: "vif_bssid (rp_vif (demo_rx_path True)) = [2,0,0,0,0,7]" by (simp add: demo_rx_path_def demo_rx_vif_def)
  show ?thesis
    by (rule xmit_without_room_leaks[OF demo_eth_ok(1)])
      (simp_all add: demo_adapter_ok demo_path_ok g b skb_headroom_def demo_eth_ok)
qed

theorem sent_frame_reads_back_witness:
  "\<exists>r'. ieee80211_data_to_8023 (mk_skb 9 [] (sent_header (Some 3) (demo_rx_path True) 0 (IEEE80211_FCTL_TODS, [2,0,0,0,0,7], [2,0,0,0,0,9], [2,0,0,0,0,5])
       @ rfc1042_header @ [8, 0] @ [0x45, 0, 0, 0]) []) [2,0,0,0,0,7] NL80211_IFTYPE_AP = Some (0, r') \<and>
     skb_payload r' = Some ([2,0,0,0,0,5] @ [2,0,0,0,0,9] @ [8, 0] @ [0x45, 0, 0, 0])"
proof -
  let ?f = "sent_header (Some 3) (demo_rx_path True) 0 (IEEE80211_FCTL_TODS, [2,0,0,0,0,7], [2,0,0,0,0,9], [2,0,0,0,0,5])
       @ rfc1042_header @ [8, 0] @ [0x45, 0, 0, 0]"
  have "length ?f < 2 ^ 16" by (simp add: sent_header_def rfc1042_header_def Let_def)
  then have v: "skb_view (mk_skb 9 [] ?f []) [] ?f []" by (rule mk_skb_ok)
  have own: "\<not> (is_multicast_ether_addr [2,0,0,0,0,5] \<and> compare_ether_addr [2,0,0,0,0,9] [2,0,0,0,0,7] = 0)"
    by (simp add: is_multicast_ether_addr_def)
  show ?thesis
    using sent_frame_reads_back[OF demo_tx_ready own, of "mk_skb 9 [] ?f []" "[]" "[]"] v
    by (auto simp: demo_adapter_ok demo_eth_ok peer_type_def)
qed

end
