(* ===== verification/Iface.thy ===== *)
theory Iface
  imports Tx_Path
begin

text \<open>The network interface (hal_apollo/iface.c, from main.c what handles the events of the firmware, from
  os/ankai_V330/atbm_os_skbuf.c the link): the management frames the driver builds, the events that add
  and remove stations, the work that handles queued management frames, opening and stopping.

  The state is the adapter of Tx_Path.  Its vif_type and vif_iftype are the same field of the C program.
  What the firmware answers comes in as the rounds of the requests (Wsm).  lwIP calls (netif_set_up, the
  address of the interface) change nothing here; the async notifications of atbm_ioctl.c are empty on
  this port.\<close>

abbreviation (input) WSM_EVENT_BSS_CONNECT :: u32 where "WSM_EVENT_BSS_CONNECT \<equiv> 1"
abbreviation (input) WSM_EVENT_BSS_LOST :: u32 where "WSM_EVENT_BSS_LOST \<equiv> 2"
abbreviation (input) WSM_EVENT_STA_ADD :: u32 where "WSM_EVENT_STA_ADD \<equiv> 4"
abbreviation (input) WSM_EVENT_STA_LOSS :: u32 where "WSM_EVENT_STA_LOSS \<equiv> 5"
abbreviation (input) WSM_EVENT_ETF_RX_MSG :: u32 where "WSM_EVENT_ETF_RX_MSG \<equiv> 8"
abbreviation (input) WSM_EVENT_FW_UART_MSG :: u32 where "WSM_EVENT_FW_UART_MSG \<equiv> 9"
abbreviation (input) WSM_EVENT_HOST_WAKEUP_REASON :: u32 where "WSM_EVENT_HOST_WAKEUP_REASON \<equiv> 12"
abbreviation (input) WSM_EVENT_HOST_DISCONN_REASON :: u32 where "WSM_EVENT_HOST_DISCONN_REASON \<equiv> 13"
abbreviation (input) WSM_EVENT_HOST_CONN_ERR_REASON :: u32 where "WSM_EVENT_HOST_CONN_ERR_REASON \<equiv> 14"
abbreviation (input) WSM_EVENT_HOST_CUSTOMER_CMD_REQ :: u32 where "WSM_EVENT_HOST_CUSTOMER_CMD_REQ \<equiv> 15"
abbreviation (input) CONNECT_FLAG_WMM :: u8 where "CONNECT_FLAG_WMM \<equiv> 1"
abbreviation (input) ATBM_WLAN_CIPHER_SUITE_WEP40 :: u8 where "ATBM_WLAN_CIPHER_SUITE_WEP40 \<equiv> 1"
abbreviation (input) ATBM_WLAN_CIPHER_SUITE_TKIP :: u8 where "ATBM_WLAN_CIPHER_SUITE_TKIP \<equiv> 2"
abbreviation (input) ATBM_WLAN_CIPHER_SUITE_CCMP :: u8 where "ATBM_WLAN_CIPHER_SUITE_CCMP \<equiv> 4"
abbreviation (input) ATBM_WLAN_CIPHER_SUITE_WEP104 :: u8 where "ATBM_WLAN_CIPHER_SUITE_WEP104 \<equiv> 5"
abbreviation (input) ATBM_WLAN_CIPHER_SUITE_AES_CMAC :: u8 where "ATBM_WLAN_CIPHER_SUITE_AES_CMAC \<equiv> 6"
abbreviation (input) sizeof_mgmt :: nat where "sizeof_mgmt \<equiv> 36"
abbreviation (input) sizeof_sta_list_req :: nat where "sizeof_sta_list_req \<equiv> 32"
abbreviation (input) sizeof_getconfig_cnf :: nat where "sizeof_getconfig_cnf \<equiv> 164"
abbreviation (input) sizeof_ap_cfg_get_req :: nat where "sizeof_ap_cfg_get_req \<equiv> 112"

definition upd_mac :: "(mac_state \<Rightarrow> mac_state) \<Rightarrow> adapter \<Rightarrow> adapter" where
  "upd_mac f hw = hw\<lparr>mac := (mac hw)\<lparr>rp_mac := f (rp_mac (mac hw))\<rparr>\<rparr>"

definition upd_hw_vif :: "(rx_vif \<Rightarrow> rx_vif) \<Rightarrow> adapter \<Rightarrow> adapter" where
  "upd_hw_vif f hw = hw\<lparr>mac := upd_vif f (mac hw)\<rparr>"

definition set_mac :: "mac_state \<Rightarrow> adapter \<Rightarrow> adapter" where
  "set_mac m hw = upd_mac (\<lambda>_. m) hw"

subsection \<open>The link\<close>

definition netif_carrier_on :: "adapter \<Rightarrow> adapter" where
  "netif_carrier_on hw = upd_hw_vif (\<lambda>v. v\<lparr>vif_enabled := True\<rparr>) (hw\<lparr>lwip_queue_enable := True, lwip_enable := True\<rparr>)"

definition netif_carrier_off :: "adapter \<Rightarrow> adapter" where
  "netif_carrier_off hw =
     (if lwip_queue_enable hw \<or> lwip_enable hw then hw\<lparr>lwip_queue_enable := False, lwip_enable := False\<rparr> else hw)"

definition netif_tx_start_all_queues :: "adapter \<Rightarrow> adapter" where
  "netif_tx_start_all_queues hw =
     (if \<not> lwip_queue_enable hw \<and> lwip_enable hw then hw\<lparr>lwip_queue_enable := True\<rparr> else hw)"

subsection \<open>Management frames the driver sends\<close>

text \<open>atbm_skb_put and the writes to the bytes it gives.\<close>

definition put_bytes :: "bytes \<Rightarrow> sk_buff \<Rightarrow> sk_buff option" where
  "put_bytes bs skb = skb_wrn (skb_put skb (length bs)) (skb_Tail skb - skb_data skb) bs"

text \<open>The header of a management frame to the access point bssid; kz is where the allocator finds memory.\<close>

definition mgmt_header :: "u16 \<Rightarrow> mac \<Rightarrow> mac \<Rightarrow> bytes" where
  "mgmt_header stype bssid sa = bytes16 (IEEE80211_FTYPE_MGMT OR stype) @ [0, 0] @ bssid @ sa @ bssid @ [0, 0]"

definition ieee80211_send_auth ::
    "(u32 \<Rightarrow> u32) \<Rightarrow> nat option \<Rightarrow> u16 \<Rightarrow> u16 \<Rightarrow> nat \<Rightarrow> mac \<Rightarrow> adapter \<Rightarrow> adapter option" where
  "ieee80211_send_auth align_size kz transaction auth_alg extra_len bssid hw =
     (case dev_alloc_skb kz (of_nat (extra_tx_headroom hw + sizeof_mgmt + 6 + extra_len)) of
        None \<Rightarrow> Some hw
      | Some skb \<Rightarrow> do {
          let skb = skb_reserve skb (extra_tx_headroom hw);
          skb \<leftarrow> put_bytes (mgmt_header IEEE80211_STYPE_AUTH bssid (vif_addr (rp_vif (mac hw))) @
            bytes16 auth_alg @ bytes16 transaction @ bytes16 0) skb;
          atbm_tx align_size skb hw })"

definition atbm_rates :: "nat list" where
  "atbm_rates = [10, 20, 55, 110, 60, 90, 120, 180, 240, 360, 480, 540]"

definition rate_byte :: "nat \<Rightarrow> u8" where
  "rate_byte i = of_nat (atbm_rates ! i div 5) OR (if i < 4 then 0x80 else 0)"

definition supp_rates_ie :: bytes where
  "supp_rates_ie = [1, 8] @ map rate_byte [0..<8]"

definition ext_rates_ie :: bytes where
  "ext_rates_ie = [50, 4] @ map rate_byte [8..<12]"

definition ht_cap_ie :: bytes where
  "ht_cap_ie = [45, 26] @ bytes16 (0x0010 OR 0x0002 OR 0x1000 OR push_bit 8 1) @ [2] @
     [0xFF] @ replicate 9 0 @ [0, 0] @ [1] @ [0, 0, 0] @ replicate 7 0"

definition wmm_ie :: bytes where
  "wmm_ie = [221, 7, 0x00, 0x50, 0xf2, 2, 0, 1, 0]"

text \<open>The HT element is written behind the frame: nothing puts it, and the element after it goes to the same
  place.\<close>

definition ieee80211_send_assoc ::
    "(u32 \<Rightarrow> u32) \<Rightarrow> nat option \<Rightarrow> mac \<Rightarrow> adapter \<Rightarrow> adapter option" where
  "ieee80211_send_assoc align_size kz bssid hw = do {
     let v = rp_vif (mac hw);
     sta \<leftarrow> sta_info_get (vif_no v) bssid (rp_mac (mac hw));
     if sta = None then Some hw
     else (case alloc_skb kz (of_nat (extra_tx_headroom hw + sizeof_mgmt + 1000)) of
        None \<Rightarrow> Some hw
      | Some skb \<Rightarrow> do {
          let skb = skb_reserve skb (extra_tx_headroom hw);
          skb \<leftarrow> put_bytes (mgmt_header IEEE80211_STYPE_ASSOC_REQ bssid (vif_addr v)) skb;
          skb \<leftarrow> put_bytes (bytes16 (1 OR 0x400 OR 0x20) @ bytes16 0) skb;
          ssid \<leftarrow> rdn (vif_ssid v) 0 (unat (vif_ssid_len v));
          skb \<leftarrow> put_bytes ([0, vif_ssid_len v] @ ssid) skb;
          skb \<leftarrow> put_bytes supp_rates_ie skb;
          skb \<leftarrow> put_bytes ext_rates_ie skb;
          skb \<leftarrow> skb_wrn skb (skb_Tail skb - skb_data skb) ht_cap_ie;
          skb \<leftarrow> put_bytes wmm_ie skb;
          atbm_tx align_size skb hw }) }"

subsection \<open>Management frames that come in\<close>

datatype work_action = WORK_ACT_MISMATCH | WORK_ACT_NONE | WORK_ACT_TIMEOUT | WORK_ACT_DONE
  | WORK_ACT_ASSOCIAT | WORK_ACT_DEAUTHEN

definition ieee80211_rx_mgmt_auth :: "sk_buff \<Rightarrow> work_action option" where
  "ieee80211_rx_mgmt_auth skb = do {
     _ \<leftarrow> skb_rd16 skb 24;
     _ \<leftarrow> skb_rd16 skb 26;
     status_code \<leftarrow> skb_rd16 skb 28;
     Some (if status_code \<noteq> 0 then WORK_ACT_DONE else WORK_ACT_ASSOCIAT) }"

definition ieee80211_rx_mgmt_assoc_resp :: "sk_buff \<Rightarrow> adapter \<Rightarrow> (work_action \<times> adapter) option" where
  "ieee80211_rx_mgmt_assoc_resp skb hw =
     (if skb_len skb < 24 + 6 then Some (WORK_ACT_NONE, hw)
      else do {
        _ \<leftarrow> skb_rd16 skb 24;
        status_code \<leftarrow> skb_rd16 skb 26;
        _ \<leftarrow> skb_rd16 skb 28;
        if status_code \<noteq> 0 then Some (WORK_ACT_DONE, hw)
        else do {
          bssid \<leftarrow> skb_rdn skb 16 ETH_ALEN;
          sta \<leftarrow> sta_info_get (vif_no (rp_vif (mac hw))) bssid (rp_mac (mac hw));
          (case sta of
             None \<Rightarrow> Some (WORK_ACT_DONE, hw)
           | Some x \<Rightarrow> do {
               m \<leftarrow> set_sta_flag x WLAN_STA_ASSOC (rp_mac (mac hw));
               m \<leftarrow> set_sta_flag x WLAN_STA_AUTHORIZED m;
               Some (WORK_ACT_DONE, netif_carrier_on (set_mac m hw)) }) } })"

definition ieee80211_sta_rx_queued_mgmt ::
    "(u32 \<Rightarrow> u32) \<Rightarrow> nat option \<Rightarrow> sk_buff \<Rightarrow> adapter \<Rightarrow> adapter option" where
  "ieee80211_sta_rx_queued_mgmt align_size kz skb hw = do {
     fc \<leftarrow> skb_fc skb;
     let stype = fc AND IEEE80211_FCTL_STYPE;
     (rma, hw) \<leftarrow>
       (if stype = IEEE80211_STYPE_AUTH then map_option (\<lambda>r. (r, hw)) (ieee80211_rx_mgmt_auth skb)
        else if stype = IEEE80211_STYPE_ASSOC_RESP then ieee80211_rx_mgmt_assoc_resp skb hw
        else if stype = IEEE80211_STYPE_DEAUTH \<or> stype = IEEE80211_STYPE_DISASSOC then Some (WORK_ACT_DEAUTHEN, hw)
        else Some (WORK_ACT_NONE, hw));
     if rma = WORK_ACT_ASSOCIAT then ieee80211_send_assoc align_size kz (vif_bssid (rp_vif (mac hw))) hw
     else Some hw }"

text \<open>What the outside gives to the work for one frame: memory and ticks for a block-ack session, memory for
  a frame to send.\<close>

record work_env =
  we_addba :: addba_alloc
  we_vstart :: vtimer_start
  we_jiffies :: "u32 \<times> u32 \<times> u32"
  we_kz :: "nat option"

definition skb_from_data :: "sk_buff \<Rightarrow> bytes option" where
  "skb_from_data skb = (if skb_data skb < 0 then None else Some (drop (nat (skb_data skb)) (skb_mem skb)))"

definition work_back_action :: "work_env \<Rightarrow> sk_buff \<Rightarrow> adapter \<Rightarrow> adapter option" where
  "work_back_action env skb hw = do {
     sa \<leftarrow> skb_rdn skb 10 ETH_ALEN;
     sta \<leftarrow> sta_info_get (vif_no (rp_vif (mac hw))) sa (rp_mac (mac hw));
     (case sta of
        None \<Rightarrow> Some hw
      | Some x \<Rightarrow> do {
          mgmt \<leftarrow> skb_from_data skb;
          code \<leftarrow> skb_rd8 skb 25;
          if code = 0 then do {
            m \<leftarrow> ieee80211_process_addba_request (we_addba env) (we_vstart env) (we_jiffies env) x mgmt (rp_mac (mac hw));
            Some (set_mac m hw) }
          else if code = 2 then do {
            m \<leftarrow> ieee80211_process_delba x mgmt (rp_mac (mac hw));
            Some (set_mac m hw) }
          else Some hw }) }"

definition work_frame :: "(u32 \<Rightarrow> u32) \<Rightarrow> work_env \<Rightarrow> sk_buff \<Rightarrow> adapter \<Rightarrow> adapter option" where
  "work_frame align_size env skb hw = do {
     fc \<leftarrow> skb_fc skb;
     back \<leftarrow> (if ieee80211_is_action fc then map_option (\<lambda>c. c = 3) (skb_rd8 skb 24) else Some False);
     hw \<leftarrow> (if back then work_back_action env skb hw
           else if ieee80211_is_data_qos fc then Some hw
           else if ieee80211_is_mgmt fc \<and> vif_iftype (rp_vif (mac hw)) = NL80211_IFTYPE_STATION
           then ieee80211_sta_rx_queued_mgmt align_size (we_kz env) skb hw
           else Some hw);
     Some (hw\<lparr>mac := (mac hw)\<lparr>rp_freed := rp_freed (mac hw) @ [skb_addr skb]\<rparr>\<rparr>) }"

text \<open>The loop takes frames from the queue until it is empty; no frame handled here puts one back.\<close>

fun work_loop :: "(u32 \<Rightarrow> u32) \<Rightarrow> (nat \<Rightarrow> work_env) \<Rightarrow> sk_buff list \<Rightarrow> adapter \<Rightarrow> adapter option" where
  "work_loop align_size env [] hw = Some hw"
| "work_loop align_size env (skb # q) hw = do {
     hw \<leftarrow> work_frame align_size (env (length q)) skb (upd_hw_vif (\<lambda>v. v\<lparr>vif_skb_queue := q\<rparr>) hw);
     work_loop align_size env q hw }"

definition ieee80211_iface_work :: "(u32 \<Rightarrow> u32) \<Rightarrow> (nat \<Rightarrow> work_env) \<Rightarrow> adapter \<Rightarrow> adapter option" where
  "ieee80211_iface_work align_size env hw =
     (if \<not> vif_enabled (rp_vif (mac hw)) then Some hw
      else work_loop align_size env (vif_skb_queue (rp_vif (mac hw))) hw)"

end
