(* ===== verification/Sta_Events.thy ===== *)
theory Sta_Events
  imports Iface Wsm_Api
begin

text \<open>The events of the firmware (hal_apollo/iface.c and main.c): stations come and go, the mode of the
  interface is read, the interface is opened and stopped.

  ap_info.key and ap_info.group_key are only written together and with the same values, vif_ap_key stands
  for both.  ht_cap.ht_supported, which no function reads, is left out, and so are the locks, which each operation takes
  and gives back.  The static sta_list_old of atbm_get_checked_sta is an argument and a result.  A local
  structure the firmware should fill has what the stack held before as its first contents.\<close>

subsection \<open>A connection\<close>

record connect_event =
  he_bssid :: mac
  he_crypto_pairwise :: u8
  he_crypto_group :: u8
  he_bgnMode :: u8
  he_connect_flag :: u8

text \<open>The packed structure HostConnectEvent at an offset.\<close>

definition read_connect_event :: "bytes \<Rightarrow> int \<Rightarrow> connect_event option" where
  "read_connect_event b base = do {
     bssid \<leftarrow> rdn b (base + 33) ETH_ALEN;
     pairwise \<leftarrow> rd8 b (base + 39);
     group \<leftarrow> rd8 b (base + 40);
     bgn \<leftarrow> rd8 b (base + 42);
     flags \<leftarrow> rd8 b (base + 43);
     Some \<lparr>he_bssid = bssid, he_crypto_pairwise = pairwise, he_crypto_group = group, he_bgnMode = bgn,
           he_connect_flag = flags\<rparr> }"

definition atbm_sta_key_config :: "ieee80211_key \<Rightarrow> u8 \<Rightarrow> ieee80211_key" where
  "atbm_sta_key_config key t =
     (if t = ATBM_WLAN_CIPHER_SUITE_WEP40 \<or> t = ATBM_WLAN_CIPHER_SUITE_WEP104
      then key\<lparr>key_type := IEEE80211_ENC_WEP, key_iv_len := 4, key_icv_len := 4\<rparr>
      else if t = ATBM_WLAN_CIPHER_SUITE_TKIP
      then key\<lparr>key_type := IEEE80211_ENC_TKIP, key_iv_len := 8, key_icv_len := 4\<rparr>
      else if t = ATBM_WLAN_CIPHER_SUITE_CCMP
      then key\<lparr>key_type := IEEE80211_ENC_AES, key_iv_len := 8, key_icv_len := 8\<rparr>
      else if t = ATBM_WLAN_CIPHER_SUITE_AES_CMAC
      then key\<lparr>key_type := IEEE80211_ENC_AES_CMAC, key_iv_len := 0, key_icv_len := 18\<rparr>
      else key)"

text \<open>A new station: memory for it, then its place in the table.  None is a result other than 0.\<close>

definition add_station :: "nat option \<Rightarrow> mac \<Rightarrow> adapter \<Rightarrow> (nat option \<times> adapter) option" where
  "add_station mem addr hw = (case sta_info_alloc mem (vif_no (rp_vif (mac hw))) addr (rp_mac (mac hw)) of
      (None, m) \<Rightarrow> Some (None, set_mac m hw)
    | (Some sta, m) \<Rightarrow> do {
        (ret, m) \<leftarrow> sta_info_insert_rcu sta m;
        Some (if ret \<noteq> 0 then None else Some sta, set_mac m hw) })"

definition authorize :: "nat \<Rightarrow> adapter \<Rightarrow> adapter option" where
  "authorize sta hw = do {
     m \<leftarrow> set_sta_flag sta WLAN_STA_ASSOC (rp_mac (mac hw));
     m \<leftarrow> set_sta_flag sta WLAN_STA_AUTHORIZED m;
     Some (set_mac m hw) }"

definition reset_pn :: "rx_vif \<Rightarrow> rx_vif" where
  "reset_pn v = v\<lparr>ptk_pn := replicate 6 0, ptk_pn_init := 1, ptk_noqos_pn := replicate 6 0, ptk_noqos_pn_init := 1,
     gtk_pn := replicate 6 0, gtk_pn_init := 1\<rparr>"

definition atbm_sta_connect_event :: "nat option \<Rightarrow> connect_event \<Rightarrow> adapter \<Rightarrow> adapter option" where
  "atbm_sta_connect_event mem ev hw = do {
     (sta, hw) \<leftarrow> add_station mem (he_bssid ev) hw;
     (case sta of
        None \<Rightarrow> Some hw
      | Some x \<Rightarrow> do {
          let hw = upd_mac (upd_sta x (\<lambda>st. st\<lparr>sta_bgnMode := he_bgnMode ev,
            sta_wmm := (he_connect_flag ev AND CONNECT_FLAG_WMM \<noteq> 0)\<rparr>)) hw;
          hw \<leftarrow> authorize x hw;
          let enc = (he_crypto_pairwise ev \<noteq> 0);
          let hw = upd_mac (upd_sta x (\<lambda>st. st\<lparr>sta_enc := enc\<rparr>)) hw;
          let hw = upd_hw_vif (\<lambda>v. v\<lparr>vif_ap_enc := enc\<rparr>) hw;
          let hw = (if enc then
              upd_hw_vif (\<lambda>v. v\<lparr>vif_group_key := atbm_sta_key_config (vif_group_key v) (he_crypto_group ev)\<rparr>)
               (upd_mac (upd_sta x (\<lambda>st. st\<lparr>sta_cipher := atbm_sta_key_config (sta_cipher st) (he_crypto_pairwise ev)\<rparr>)) hw)
            else hw);
          let hw = netif_carrier_on hw;
          Some (upd_hw_vif (\<lambda>v. reset_pn (v\<lparr>vif_connect_success := True, vif_bssid := he_bssid ev\<rparr>)) hw) }) }"

text \<open>What follows for a station that is gone.\<close>

definition drop_station :: "nat \<Rightarrow> adapter \<Rightarrow> adapter option" where
  "drop_station sta hw = do {
     m \<leftarrow> clear_sta_flag sta WLAN_STA_ASSOC (rp_mac (mac hw));
     m \<leftarrow> clear_sta_flag sta WLAN_STA_AUTHORIZED m;
     (_, m) \<leftarrow> sta_info_destroy (Some sta) m;
     Some (set_mac m hw) }"

definition link_lost :: "adapter \<Rightarrow> adapter" where
  "link_lost hw = upd_hw_vif (\<lambda>v. v\<lparr>vif_connect_success := False\<rparr>) (netif_carrier_off hw)"

definition atbm_sta_disconnect_event :: "mac \<Rightarrow> adapter \<Rightarrow> adapter option" where
  "atbm_sta_disconnect_event bssid hw = do {
     sta \<leftarrow> sta_info_get (vif_no (rp_vif (mac hw))) bssid (rp_mac (mac hw));
     (case sta of
        None \<Rightarrow> Some hw
      | Some x \<Rightarrow> map_option link_lost (drop_station x hw)) }"

subsection \<open>The stations of an access point\<close>

text \<open>struct wsm_sta_list_req: status, sta_cnt, three bytes, and four addresses.\<close>

definition sta_cnt :: "bytes \<Rightarrow> nat" where
  "sta_cnt l = unat (l ! 4)"

definition sta_addr_at :: "bytes \<Rightarrow> nat \<Rightarrow> mac option" where
  "sta_addr_at l i = (if i < 4 then rdn l (8 + 6 * int i) 6 else None)"

fun sta_listed :: "mac \<Rightarrow> bytes \<Rightarrow> nat \<Rightarrow> nat \<Rightarrow> bool option" where
  "sta_listed a l 0 j = Some False"
| "sta_listed a l (Suc n) j = do {
     x \<leftarrow> sta_addr_at l j;
     if x = a then Some True else sta_listed a l n (j + 1) }"

text \<open>The first of the n stations from i on in l that is not in l'.\<close>

fun first_not_listed :: "bytes \<Rightarrow> bytes \<Rightarrow> nat \<Rightarrow> nat \<Rightarrow> mac option option" where
  "first_not_listed l l' 0 i = Some None"
| "first_not_listed l l' (Suc n) i = do {
     a \<leftarrow> sta_addr_at l i;
     found \<leftarrow> sta_listed a l' (sta_cnt l') 0;
     if found then first_not_listed l l' n (i + 1) else Some (Some a) }"

definition atbm_get_checked_sta ::
    "rx_path wsm_env \<Rightarrow> rx_path rounds \<Rightarrow> bool \<Rightarrow> bytes \<Rightarrow> adapter \<Rightarrow> ((mac \<times> nat) option \<times> bytes \<times> adapter) option" where
  "atbm_get_checked_sta env rounds b_add old hw = do {
     (ret, hw) \<leftarrow> wsm_get_stalist env rounds (replicate sizeof_sta_list_req 0) hw;
     if ret \<noteq> 0 then Some (None, old, hw)
     else do {
       let l = ret_buf hw;
       a \<leftarrow> (if b_add then first_not_listed l old (sta_cnt l) 0 else first_not_listed old l (sta_cnt old) 0);
       Some (map_option (\<lambda>x. (x, sta_cnt l)) a, l, hw) } }"

definition atbm_sta_add_event ::
    "nat option \<Rightarrow> rx_path wsm_env \<Rightarrow> rx_path rounds \<Rightarrow> u32 \<Rightarrow> bytes \<times> adapter \<Rightarrow> (bytes \<times> adapter) option" where
  "atbm_sta_add_event mem env rounds linkid st = (case st of (old, hw) \<Rightarrow> do {
     (found, old, hw) \<leftarrow> atbm_get_checked_sta env rounds True old hw;
     (case found of
        None \<Rightarrow> Some (old, hw)
      | Some (addr, cnt) \<Rightarrow> do {
          (sta, hw) \<leftarrow> add_station mem addr hw;
          (case sta of
             None \<Rightarrow> Some (old, hw)
           | Some x \<Rightarrow> do {
               let hw = upd_mac (upd_sta x (\<lambda>s. s\<lparr>sta_aid := ucast linkid, sta_wmm := True\<rparr>)) hw;
               hw \<leftarrow> authorize x hw;
               let key = vif_ap_key (rp_vif (mac hw));
               let hw = upd_mac (upd_sta x (\<lambda>s. s\<lparr>sta_cipher := key,
                 sta_enc := (if key_type key > IEEE80211_ENC_TYPE then True else sta_enc s)\<rparr>)) hw;
               Some (old, if cnt = 1 then upd_hw_vif (\<lambda>v. v\<lparr>vif_connect_success := True\<rparr>) (netif_carrier_on hw) else hw) }) }) })"

definition atbm_sta_loss_event ::
    "rx_path wsm_env \<Rightarrow> rx_path rounds \<Rightarrow> bytes \<times> adapter \<Rightarrow> (bytes \<times> adapter) option" where
  "atbm_sta_loss_event env rounds st = (case st of (old, hw) \<Rightarrow> do {
     (found, old, hw) \<leftarrow> atbm_get_checked_sta env rounds False old hw;
     (case found of
        None \<Rightarrow> Some (old, hw)
      | Some (addr, cnt) \<Rightarrow> do {
          sta \<leftarrow> sta_info_get (vif_no (rp_vif (mac hw))) addr (rp_mac (mac hw));
          (case sta of
             None \<Rightarrow> Some (old, hw)
           | Some x \<Rightarrow> do {
               hw \<leftarrow> drop_station x hw;
               Some (old, if cnt = 0 then link_lost hw else hw) }) }) })"

subsection \<open>The configuration kept by the firmware\<close>

definition set_iftype :: "nl80211_iftype \<Rightarrow> adapter \<Rightarrow> adapter" where
  "set_iftype t hw = upd_hw_vif (\<lambda>v. v\<lparr>vif_iftype := t\<rparr>) (hw\<lparr>vif_type := Some t\<rparr>)"

definition key_of_mgmt :: "ieee80211_key \<Rightarrow> u8 \<Rightarrow> ieee80211_key" where
  "key_of_mgmt key t =
     (if t = 0 then key\<lparr>key_type := IEEE80211_ENC_TYPE\<rparr>
      else if t = 1 \<or> t = 2 then key\<lparr>key_type := IEEE80211_ENC_WEP, key_iv_len := 4, key_icv_len := 4\<rparr>
      else if t = 3 then key\<lparr>key_type := IEEE80211_ENC_TKIP, key_iv_len := 8, key_icv_len := 4\<rparr>
      else if t = 4 then key\<lparr>key_type := IEEE80211_ENC_AES, key_iv_len := 8, key_icv_len := 8\<rparr>
      else key)"

record cfg_env =
  ce_wsm :: "rx_path wsm_env"
  ce_config_rounds :: "rx_path rounds"
  ce_config_stack :: bytes
  ce_more_rounds :: "rx_path rounds"
  ce_more_stack :: bytes
  ce_mem :: "nat option"

text \<open>The result of wsm_get_config is ignored.\<close>

definition atbm_configure_wifi_mode :: "cfg_env \<Rightarrow> adapter \<Rightarrow> adapter option" where
  "atbm_configure_wifi_mode env hw = do {
     (_, hw) \<leftarrow> wsm_get_config (ce_wsm env) (ce_config_rounds env) (ce_config_stack env) hw;
     WifiMode \<leftarrow> rd8 (ret_buf hw) 17;
     if vif_type hw = None then Some hw
     else do {
       let hw = set_iftype (if WifiMode \<noteq> 0 then NL80211_IFTYPE_AP else NL80211_IFTYPE_STATION) hw;
       if WifiMode = 0 then Some hw
       else do {
         (ret, hw) \<leftarrow> wsm_get_ap_cfg (ce_wsm env) (ce_more_rounds env) (ce_more_stack env) hw;
         if ret \<noteq> 0 then Some hw
         else do {
           key_mgmt \<leftarrow> rd8 (ret_buf hw) 108;
           Some (upd_hw_vif (\<lambda>v. let k = key_of_mgmt (vif_ap_key v) key_mgmt
             in v\<lparr>vif_ap_key := k, vif_group_key := k\<rparr>) hw) } } } }"

definition atbm_get_connectconfig :: "cfg_env \<Rightarrow> adapter \<Rightarrow> adapter option" where
  "atbm_get_connectconfig env hw = do {
     (_, hw) \<leftarrow> wsm_get_config (ce_wsm env) (ce_config_rounds env) (ce_config_stack env) hw;
     guard (vif_type hw \<noteq> None);
     bconnect \<leftarrow> rd8 (ret_buf hw) 10;
     let hw = upd_hw_vif (\<lambda>v. v\<lparr>vif_connect_success := (bconnect \<noteq> 0)\<rparr>) hw;
     if bconnect \<noteq> 0 then do {
       ev \<leftarrow> read_connect_event (ret_buf hw) 32;
       atbm_sta_connect_event (ce_mem env) ev hw }
     else Some hw }"

definition atbm_set_tcp_port_filter :: "cfg_env \<Rightarrow> bytes \<Rightarrow> adapter \<Rightarrow> adapter option" where
  "atbm_set_tcp_port_filter env tcp_filter_req hw =
     map_option snd (wsm_set_tcp_filter (ce_wsm env) (ce_more_rounds env) tcp_filter_req hw)"

subsection \<open>Opening and stopping\<close>

definition atbm_open :: "cfg_env \<Rightarrow> bytes \<Rightarrow> adapter \<Rightarrow> (int \<times> adapter) option" where
  "atbm_open env tcp_filter_req hw = do {
     let hw = upd_hw_vif (\<lambda>v. v\<lparr>vif_enabled := True\<rparr>) hw;
     hw \<leftarrow> atbm_get_connectconfig env hw;
     hw \<leftarrow> atbm_set_tcp_port_filter env tcp_filter_req hw;
     let hw = (if vif_connect_success (rp_vif (mac hw)) then netif_carrier_on hw else netif_carrier_off hw);
     let hw = netif_tx_start_all_queues hw;
     Some (0, hw\<lparr>tx_queue_overfull := False\<rparr>) }"

definition vif_flush :: "adapter \<Rightarrow> adapter option" where
  "vif_flush hw = do {
     (_, m) \<leftarrow> sta_info_flush (Some (vif_no (rp_vif (mac hw)))) (rp_mac (mac hw));
     Some (set_mac m hw) }"

text \<open>flush_work does nothing on this port.\<close>

definition atbm_stop :: "adapter \<Rightarrow> (int \<times> adapter) option" where
  "atbm_stop hw = do {
     let hw = upd_hw_vif (\<lambda>v. v\<lparr>vif_enabled := False\<rparr>) hw;
     hw \<leftarrow> vif_flush (netif_tx_stop_all_queues hw);
     let s = mac hw;
     Some (0, upd_hw_vif (\<lambda>v. v\<lparr>vif_skb_queue := []\<rparr>)
       (hw\<lparr>mac := s\<lparr>rp_freed := rp_freed s @ map skb_addr (vif_skb_queue (rp_vif s))\<rparr>\<rparr>)) }"

definition atbm_sdata_uninit :: "adapter \<Rightarrow> adapter option" where
  "atbm_sdata_uninit hw = vif_flush hw"

definition atbm_change_mtu :: "int \<Rightarrow> int \<Rightarrow> int \<times> int" where
  "atbm_change_mtu new_mtu mtu = (if new_mtu < 256 \<or> new_mtu > 1500 then (- EINVAL, mtu) else (0, new_mtu))"

subsection \<open>The handler of the events\<close>

text \<open>printk("%s") of a text at an offset of an event: it reads up to the first 0 byte.  None is a text that
  does not end in the buffer.\<close>

definition print_text :: "bytes \<Rightarrow> nat \<Rightarrow> unit option" where
  "print_text b k = guard (0 \<in> set (drop k b))"

text \<open>One event of the list.  Texts of the firmware are printed; the addresses of a new connection are
  printed and handed to the IP stack; the reasons go to notifications that are empty on this port, and
  sdio_wakeup_reason is not read.  The other events change nothing.\<close>

definition handle_event :: "cfg_env \<Rightarrow> atbm_wsm_event \<Rightarrow> bytes \<times> adapter \<Rightarrow> (bytes \<times> adapter) option" where
  "handle_event env ev st = (case st of (old, hw) \<Rightarrow>
     let i = ev_eventId ev; t = ABwifi_hwpriv_to_vifpriv hw (unat (ev_if_id ev)) in
     if i \<notin> set host_events \<and> t = None then Some (old, hw)
     else if i = WSM_EVENT_BSS_LOST then
       (if t = Some NL80211_IFTYPE_STATION then do {
          bssid \<leftarrow> rdn (ev_buffer ev) 0 ETH_ALEN;
          map_option (\<lambda>hw. (old, hw)) (atbm_sta_disconnect_event bssid hw) }
        else Some (old, hw))
     else if i = WSM_EVENT_BSS_CONNECT then do {
       addresses \<leftarrow> rdn (ev_buffer ev) 44 12;
       (if t = Some NL80211_IFTYPE_STATION then do {
          e \<leftarrow> read_connect_event (ev_buffer ev) 0;
          map_option (\<lambda>hw. (old, hw)) (atbm_sta_connect_event (ce_mem env) e hw) }
        else map_option (\<lambda>hw. (old, hw)) (atbm_configure_wifi_mode env hw)) }
     else if i = WSM_EVENT_STA_ADD then do {
       linkid \<leftarrow> rdn (ev_buffer ev) 0 4;
       atbm_sta_add_event (ce_mem env) (ce_wsm env) (ce_more_rounds env) (val32 linkid) (old, hw) }
     else if i = WSM_EVENT_STA_LOSS then atbm_sta_loss_event (ce_wsm env) (ce_more_rounds env) (old, hw)
     else if i = WSM_EVENT_ETF_RX_MSG \<or> i = WSM_EVENT_FW_UART_MSG then do {
       print_text (ev_buffer ev) 0;
       Some (old, hw) }
     else if i = WSM_EVENT_HOST_WAKEUP_REASON \<or> i = WSM_EVENT_HOST_DISCONN_REASON \<or> i = WSM_EVENT_HOST_CONN_ERR_REASON then do {
       reason \<leftarrow> rd8 (ev_buffer ev) 0;
       Some (old, hw) }
     else if i = WSM_EVENT_HOST_CUSTOMER_CMD_REQ then do {
       cmd_id \<leftarrow> rdn (ev_buffer ev) 0 4;
       print_text (ev_buffer ev) 4;
       Some (old, hw) }
     else Some (old, hw))"

fun handle_events :: "(nat \<Rightarrow> cfg_env) \<Rightarrow> atbm_wsm_event list \<Rightarrow> bytes \<times> adapter \<Rightarrow> (bytes \<times> adapter) option" where
  "handle_events env [] st = Some st"
| "handle_events env (ev # evs) st = do {
     st \<leftarrow> handle_event (env (length evs)) ev st;
     handle_events env evs st }"

definition atbm_event_handler :: "(nat \<Rightarrow> cfg_env) \<Rightarrow> bytes \<times> adapter \<Rightarrow> (bytes \<times> adapter) option" where
  "atbm_event_handler env st = (case st of (old, hw) \<Rightarrow>
     handle_events env (event_queue hw) (old, hw\<lparr>event_queue := []\<rparr>))"

end
