(* ===== verification/Sta_Events_Props.thy ===== *)
theory Sta_Events_Props
  imports Sta_Events Tx_Path_Props Sta_Props Wsm_Props
begin

text \<open>The events of the firmware: the table of stations stays well formed, and what an event makes of the
  station, of the link and of the traffic after it.\<close>

subsection \<open>Updates\<close>

lemma upd_hw_simps [simp]:
  "rp_mac (mac (upd_mac f hw)) = f (rp_mac (mac hw))" "rp_vif (mac (upd_mac f hw)) = rp_vif (mac hw)"
  "rp_mac (mac (upd_hw_vif g hw)) = rp_mac (mac hw)" "rp_vif (mac (upd_hw_vif g hw)) = g (rp_vif (mac hw))"
  "vif_type (upd_mac f hw) = vif_type hw" "vif_type (upd_hw_vif g hw) = vif_type hw"
  "lwip_enable (upd_mac f hw) = lwip_enable hw" "lwip_queue_enable (upd_mac f hw) = lwip_queue_enable hw"
  "lwip_enable (upd_hw_vif g hw) = lwip_enable hw" "lwip_queue_enable (upd_hw_vif g hw) = lwip_queue_enable hw"
  by (simp_all add: upd_mac_def upd_hw_vif_def upd_vif_def)

lemma set_mac_simps [simp]:
  "rp_mac (mac (set_mac m hw)) = m" "rp_vif (mac (set_mac m hw)) = rp_vif (mac hw)" "vif_type (set_mac m hw) = vif_type hw"
  "lwip_enable (set_mac m hw) = lwip_enable hw" "lwip_queue_enable (set_mac m hw) = lwip_queue_enable hw"
  by (simp_all add: set_mac_def)

lemma carrier_simps [simp]:
  "rp_mac (mac (netif_carrier_on hw)) = rp_mac (mac hw)" "rp_mac (mac (netif_carrier_off hw)) = rp_mac (mac hw)"
  "rp_vif (mac (netif_carrier_on hw)) = (rp_vif (mac hw))\<lparr>vif_enabled := True\<rparr>" "rp_vif (mac (netif_carrier_off hw)) = rp_vif (mac hw)"
  "lwip_enable (netif_carrier_on hw)" "lwip_queue_enable (netif_carrier_on hw)"
  "\<not> lwip_enable (netif_carrier_off hw)" "\<not> lwip_queue_enable (netif_carrier_off hw)"
  "vif_type (netif_carrier_on hw) = vif_type hw" "vif_type (netif_carrier_off hw) = vif_type hw"
  by (auto simp: netif_carrier_on_def netif_carrier_off_def upd_hw_vif_def upd_vif_def)

text \<open>A station without its links and the flags of the insertion.\<close>

definition core :: "sta_info \<Rightarrow> sta_info" where
  "core x = x\<lparr>sta_hnext := None, sta_uploaded := False, sta_dummy := False\<rparr>"

lemma core_eq:
  assumes "core x = core y"
  shows "sta_vif x = sta_vif y" "sta_addr x = sta_addr y" "sta_flags x = sta_flags y" "sta_enc x = sta_enc y"
    "sta_wmm x = sta_wmm y" "sta_bgnMode x = sta_bgnMode y" "sta_cipher x = sta_cipher y" "sta_aid x = sta_aid y"
    "sta_wf x = sta_wf y" "mlme_tid_rx x = mlme_tid_rx y" "last_seq_ctrl x = last_seq_ctrl y" "sta_dead x = sta_dead y"
  using assms by (cases x; cases y; simp add: core_def sta_wf_def)+

lemma mac_ok_upd:
  assumes "mac_ok s m" and "\<And>x. sta_vif (f x) = sta_vif x" "\<And>x. sta_addr (f x) = sta_addr x"
    "\<And>x. sta_hnext (f x) = sta_hnext x" "\<And>x. sta_wf x \<Longrightarrow> sta_wf (f x)"
  shows "mac_ok (upd_sta p f s) m"
proof -
  have "sta_rep (upd_sta p f s) m = sta_rep s m"
    by (rule sta_rep_cong) (simp_all add: upd_sta_def assms(2-4))
  then show ?thesis using assms(1,5) by (auto simp: mac_ok_def upd_sta_def)
qed

lemma insert_core:
  assumes "sta_info_insert_rcu x s = Some (0, s')" "sta_info_get (sta_vif (sta_heap s x)) (sta_addr (sta_heap s x)) s = Some None"
  shows "core (sta_heap s' y) = core (sta_heap s y)"
  using assms
  by (auto simp: sta_info_insert_rcu_def sta_info_insert_non_ibss_def sta_info_finish_insert_def Let_def
      sta_info_hash_add_def set_sta_hash_def upd_sta_def core_def)

lemma add_station_ok:
  assumes ok: "mac_ok (rp_mac (mac hw)) m" and p: "p \<notin> ran m" and v: "v = vif_no (rp_vif (mac hw))"
  shows "case m (v, a) of
      None \<Rightarrow> \<exists>s'. add_station (Some p) a hw = Some (Some p, set_mac s' hw) \<and> mac_ok s' (m((v, a) \<mapsto> p)) \<and>
        (\<forall>y. core (sta_heap s' y) = core (if y = p then new_sta v a else sta_heap (rp_mac (mac hw)) y)) \<and>
        sta_freed s' = sta_freed (rp_mac (mac hw))
    | Some x \<Rightarrow> \<exists>s'. add_station (Some p) a hw = Some (None, set_mac s' hw) \<and> mac_ok s' m \<and>
        (\<forall>y. y \<noteq> p \<longrightarrow> sta_heap s' y = sta_heap (rp_mac (mac hw)) y) \<and> sta_freed s' = sta_freed (rp_mac (mac hw)) @ [p]"
proof -
  let ?s = "rp_mac (mac hw)"
  have al: "sta_info_alloc (Some p) v a ?s = (Some p, upd_sta p (\<lambda>_. new_sta v a) ?s)" by (simp add: sta_info_alloc_def)
  let ?s1 = "upd_sta p (\<lambda>_. new_sta v a) ?s"
  note A = alloc_ok[OF ok p al]
  have r1: "sta_rep ?s1 m" using A(1) by (simp add: mac_ok_def)
  have k1: "sta_vif (sta_heap ?s1 p) = v" "sta_addr (sta_heap ?s1 p) = a" by (simp_all add: upd_sta_def new_sta_def)
  have g: "sta_info_get v a ?s1 = Some (m (v, a))" by (rule sta_get_rep[OF r1])
  show ?thesis
  proof (cases "m (v, a)")
    case None
    have "m (sta_key ?s1 p) = None" unfolding A(2) by (rule None)
    from insert_new_ok[OF A(1) this A(3) p]
    obtain s' where s': "sta_info_insert p ?s1 = Some (0, s')" "mac_ok s' (m(sta_key ?s1 p \<mapsto> p))" "sta_freed s' = sta_freed ?s1"
      by blast
    have i: "sta_info_insert_rcu p ?s1 = Some (0, s')" using s'(1) by (simp add: sta_info_insert_def)
    have "core (sta_heap s' y) = core (sta_heap ?s1 y)" for y
      by (rule insert_core[OF i]) (simp only: k1 g None)
    moreover have "add_station (Some p) a hw = Some (Some p, set_mac s' hw)"
      using al i v by (simp add: add_station_def)
    ultimately show ?thesis using None s'(2,3) A(2,6) by (auto simp: upd_sta_def)
  next
    case (Some x)
    have x: "x \<noteq> p" using Some p by (auto simp: ran_def)
    let ?s' = "sta_info_free p ?s1"
    have "sta_info_insert_rcu p ?s1 = Some (- EEXIST, ?s')"
      using Some x g k1 by (simp add: sta_info_insert_rcu_def sta_info_insert_non_ibss_def)
    then have "add_station (Some p) a hw = Some (None, set_mac ?s' hw)" using al v by (simp add: add_station_def)
    moreover have "mac_ok ?s' m"
    proof -
      have "sta_rep ?s' m = sta_rep ?s1 m" by (rule sta_rep_cong) (simp_all add: sta_info_free_def)
      then show ?thesis using A(1) by (auto simp: mac_ok_def sta_info_free_def)
    qed
    ultimately show ?thesis using Some by (auto simp: sta_info_free_def upd_sta_def)
  qed
qed

lemma authorize_ok:
  assumes "sta_wf (sta_heap (rp_mac (mac hw)) x)"
  obtains w where "authorize x hw = Some (upd_mac (upd_sta x (\<lambda>st. st\<lparr>sta_flags := w\<rparr>)) hw)" "length w = 1"
    "bit_of w WLAN_STA_ASSOC" "bit_of w WLAN_STA_AUTHORIZED"
proof -
  let ?m = "rp_mac (mac hw)"
  have b: "bit_word WLAN_STA_ASSOC = 0" "bit_word WLAN_STA_AUTHORIZED = 0" by (simp_all add: bit_word_def)
  have l: "length (sta_flags (sta_heap ?m x)) = 1" using assms by (simp add: sta_wf_def)
  obtain w1 where w1: "set_bit_at WLAN_STA_ASSOC (sta_flags (sta_heap ?m x)) = Some w1" "length w1 = 1" "bit_of w1 WLAN_STA_ASSOC"
    using set_bit_ok[of WLAN_STA_ASSOC "sta_flags (sta_heap ?m x)"] b l by auto
  obtain w where w: "set_bit_at WLAN_STA_AUTHORIZED w1 = Some w" "length w = 1" "bit_of w WLAN_STA_AUTHORIZED" "bit_of w WLAN_STA_ASSOC"
    using set_bit_ok[of WLAN_STA_AUTHORIZED w1] b w1 by auto
  have "authorize x hw = Some (upd_mac (upd_sta x (\<lambda>st. st\<lparr>sta_flags := w\<rparr>)) hw)"
    using w1(1) w(1) by (simp add: authorize_def set_sta_flag_def set_mac_def upd_mac_def upd_sta_def)
  then show ?thesis using w by (intro that)
qed

lemma flag_of_bits:
  assumes "sta_flags (sta_heap m x) = w" "length w = 1" "n < 32"
  shows "test_sta_flag x n m = Some (bit_of w n)"
proof -
  have "bit_word n = 0" using assms(3) by (simp add: bit_word_def word_less_nat_alt drop_bit_eq_div unat_div)
  then show ?thesis using test_bit_ok[of n w] assms by (simp add: test_sta_flag_def)
qed

definition event_key :: "ieee80211_key \<Rightarrow> connect_event \<Rightarrow> ieee80211_key" where
  "event_key key ev = (if he_crypto_pairwise ev \<noteq> 0 then atbm_sta_key_config key (he_crypto_pairwise ev) else key)"

text \<open>What a connection makes of a new station and of the interface.\<close>

lemma connect_new_ok:
  assumes ok: "mac_ok (rp_mac (mac hw)) m" and p: "p \<notin> ran m" and new: "m (vif_no (rp_vif (mac hw)), he_bssid ev) = None"
  obtains hw' where "atbm_sta_connect_event (Some p) ev hw = Some hw'"
    "mac_ok (rp_mac (mac hw')) (m((vif_no (rp_vif (mac hw)), he_bssid ev) \<mapsto> p))"
    "test_sta_flag p WLAN_STA_ASSOC (rp_mac (mac hw')) = Some True" "test_sta_flag p WLAN_STA_AUTHORIZED (rp_mac (mac hw')) = Some True"
    "sta_enc (sta_heap (rp_mac (mac hw')) p) = (he_crypto_pairwise ev \<noteq> 0)"
    "sta_wmm (sta_heap (rp_mac (mac hw')) p) = (he_connect_flag ev AND 1 \<noteq> 0)"
    "sta_bgnMode (sta_heap (rp_mac (mac hw')) p) = he_bgnMode ev"
    "sta_cipher (sta_heap (rp_mac (mac hw')) p) = event_key no_key ev"
    "mlme_tid_rx (sta_heap (rp_mac (mac hw')) p) = replicate 16 None"
    "rp_vif (mac hw') = reset_pn ((rp_vif (mac hw))\<lparr>vif_enabled := True, vif_connect_success := True, vif_bssid := he_bssid ev,
       vif_ap_enc := he_crypto_pairwise ev \<noteq> 0,
       vif_group_key := if he_crypto_pairwise ev \<noteq> 0 then atbm_sta_key_config (vif_group_key (rp_vif (mac hw))) (he_crypto_group ev)
         else vif_group_key (rp_vif (mac hw))\<rparr>)"
    "lwip_enable hw'" "lwip_queue_enable hw'" "vif_type hw' = vif_type hw" "rp_delivered (mac hw') = rp_delivered (mac hw)"
    "sta_freed (rp_mac (mac hw')) = sta_freed (rp_mac (mac hw))"
    "wsm_idle hw' = wsm_idle hw" "wsm_cmd_buf hw' = wsm_cmd_buf hw"
proof -
  let ?v = "vif_no (rp_vif (mac hw))"
  obtain s' where s': "add_station (Some p) (he_bssid ev) hw = Some (Some p, set_mac s' hw)"
    "mac_ok s' (m((?v, he_bssid ev) \<mapsto> p))"
    "core (sta_heap s' p) = core (new_sta ?v (he_bssid ev))" "sta_freed s' = sta_freed (rp_mac (mac hw))"
    using add_station_ok[OF ok p refl, of "he_bssid ev"] new by auto
  note C = core_eq[OF s'(3)]
  let ?f1 = "\<lambda>st. st\<lparr>sta_bgnMode := he_bgnMode ev, sta_wmm := (he_connect_flag ev AND CONNECT_FLAG_WMM \<noteq> 0)\<rparr>"
  define h1 where "h1 = upd_mac (upd_sta p ?f1) (set_mac s' hw)"
  have wf1: "sta_wf (sta_heap (rp_mac (mac h1)) p)" using C(9) by (simp add: h1_def sta_wf_def new_sta_def)
  obtain w where w: "authorize p h1 = Some (upd_mac (upd_sta p (\<lambda>st. st\<lparr>sta_flags := w\<rparr>)) h1)" "length w = 1"
    "bit_of w WLAN_STA_ASSOC" "bit_of w WLAN_STA_AUTHORIZED" by (rule authorize_ok[OF wf1])
  let ?e = "he_crypto_pairwise ev \<noteq> 0"
  define h2 where "h2 = upd_mac (upd_sta p (\<lambda>st. st\<lparr>sta_enc := ?e\<rparr>))
    (upd_mac (upd_sta p (\<lambda>st. st\<lparr>sta_flags := w\<rparr>)) h1)"
  define h3 where "h3 = upd_hw_vif (\<lambda>v. v\<lparr>vif_ap_enc := ?e\<rparr>) h2"
  define h4 where "h4 = (if ?e then
      upd_hw_vif (\<lambda>v. v\<lparr>vif_group_key := atbm_sta_key_config (vif_group_key v) (he_crypto_group ev)\<rparr>)
       (upd_mac (upd_sta p (\<lambda>st. st\<lparr>sta_cipher := atbm_sta_key_config (sta_cipher st) (he_crypto_pairwise ev)\<rparr>)) h3) else h3)"
  define h5 where "h5 = upd_hw_vif (\<lambda>v. reset_pn (v\<lparr>vif_connect_success := True, vif_bssid := he_bssid ev\<rparr>)) (netif_carrier_on h4)"
  have run: "atbm_sta_connect_event (Some p) ev hw = Some h5"
    using s'(1) w(1)
    by (simp add: atbm_sta_connect_event_def Let_def h5_def h4_def h3_def h2_def flip: h1_def)
  have m: "mac_ok (rp_mac (mac h5)) (m((?v, he_bssid ev) \<mapsto> p))"
    using s'(2) w(2)
    by (auto simp: h5_def h4_def h3_def h2_def h1_def sta_wf_def intro!: mac_ok_upd)
  have fl: "sta_flags (sta_heap (rp_mac (mac h5)) p) = w"
    by (simp add: h5_def h4_def h3_def h2_def)
  have "test_sta_flag p WLAN_STA_ASSOC (rp_mac (mac h5)) = Some True"
    "test_sta_flag p WLAN_STA_AUTHORIZED (rp_mac (mac h5)) = Some True"
    using flag_of_bits[OF fl w(2)] w(3,4) by (simp_all add: word_less_nat_alt)
  then show ?thesis
    by (rule that[OF run m])
      (use C s'(4) w(3,4) in \<open>simp_all add: h5_def h4_def h3_def h2_def h1_def event_key_def new_sta_def upd_hw_vif_def
        upd_mac_def upd_vif_def netif_carrier_on_def set_mac_def reset_pn_def wsm_idle_def\<close>)
qed

subsection \<open>A new connection\<close>

text \<open>C7. A connection opens the path.  After the event of a connection with CCMP to an access point without
  station, the station is in the table under its address, associated and authorised, the link is up
  and the key of both directions is the one of CCMP; the first encrypted frame of the access point,
  whatever packet number it has, is delivered to the network stack, and its number is the one later
  frames are compared with.\<close>
theorem connect_opens_path:
  assumes ok: "mac_ok (rp_mac (mac hw)) m" and p: "p \<notin> ran m" and new: "m (vif_no (rp_vif (mac hw)), he_bssid ev) = None"
    and ev: "he_crypto_pairwise ev = ATBM_WLAN_CIPHER_SUITE_CCMP"
    and v: "skb_view skb pre (ap_header QOS_FROMDS_PROTECTED dur a1 (he_bssid ev) a3 sq @ [q0, q1] @ iv @ enc @ ty @ rest @ mic) post"
    and l: "length dur = 2" "length a1 = 6" "length (he_bssid ev) = 6" "length a3 = 6" "length sq = 2"
      "length iv = 8" "length mic = 8" "length enc = 6" "length ty = 2" "skb_data_len skb = 0"
    and q: "q0 AND IEEE80211_QOS_CONTROL_A_MSDU_PRESENT = 0"
    and e: "snap_encap (enc @ ty) (be16 (ty ! 0) (ty ! 1))"
    and vif: "vif_iftype (rp_vif (mac hw)) = NL80211_IFTYPE_STATION" "vif_addr (rp_vif (mac hw)) = a1" "\<not> is_multicast_ether_addr a1"
    and arg: "wrx_status arg = 0"
  shows "\<exists>hw' s'. atbm_sta_connect_event (Some p) ev hw = Some hw' \<and>
    mac_ok (rp_mac (mac hw')) (m((vif_no (rp_vif (mac hw)), he_bssid ev) \<mapsto> p)) \<and>
    lwip_enable hw' \<and> lwip_queue_enable hw' \<and> vif_connect_success (rp_vif (mac hw')) \<and>
    tx_key (Some p) (mac hw') = \<lparr>key_type = IEEE80211_ENC_AES, key_iv_len = 8, key_icv_len = 8\<rparr> \<and>
    atbm_rx_cb env arg skb (mac hw') = Some (None, s') \<and> rp_delivered s' = rp_delivered (mac hw) @ [a1 @ a3 @ ty @ rest] \<and>
    ptk_pn (rp_vif s') = ccmp_tkip_hdr2pn iv True \<and> ptk_pn_init (rp_vif s') = 0"
proof -
  let ?v = "vif_no (rp_vif (mac hw))"
  obtain hw' where h: "atbm_sta_connect_event (Some p) ev hw = Some hw'"
    "mac_ok (rp_mac (mac hw')) (m((?v, he_bssid ev) \<mapsto> p))"
    "test_sta_flag p WLAN_STA_ASSOC (rp_mac (mac hw')) = Some True" "test_sta_flag p WLAN_STA_AUTHORIZED (rp_mac (mac hw')) = Some True"
    "sta_enc (sta_heap (rp_mac (mac hw')) p) = (he_crypto_pairwise ev \<noteq> 0)"
    "sta_cipher (sta_heap (rp_mac (mac hw')) p) = event_key no_key ev"
    "mlme_tid_rx (sta_heap (rp_mac (mac hw')) p) = replicate 16 None"
    "rp_vif (mac hw') = reset_pn ((rp_vif (mac hw))\<lparr>vif_enabled := True, vif_connect_success := True, vif_bssid := he_bssid ev,
       vif_ap_enc := he_crypto_pairwise ev \<noteq> 0,
       vif_group_key := if he_crypto_pairwise ev \<noteq> 0 then atbm_sta_key_config (vif_group_key (rp_vif (mac hw))) (he_crypto_group ev)
         else vif_group_key (rp_vif (mac hw))\<rparr>)"
    "lwip_enable hw'" "lwip_queue_enable hw'" "rp_delivered (mac hw') = rp_delivered (mac hw)"
    by (rule connect_new_ok[OF ok p new])
  have k: "event_key no_key ev = \<lparr>key_type = IEEE80211_ENC_AES, key_iv_len = 8, key_icv_len = 8\<rparr>"
    using ev by (simp add: event_key_def atbm_sta_key_config_def no_key_def)
  have vf: "vif_iftype (rp_vif (mac hw')) = NL80211_IFTYPE_STATION" "vif_addr (rp_vif (mac hw')) = a1" "vif_no (rp_vif (mac hw')) = ?v"
    "ptk_pn_init (rp_vif (mac hw')) = 1"
    using vif by (simp_all add: h(8) reset_pn_def)
  have r: "sta_rep (rp_mac (mac hw')) (m((?v, he_bssid ev) \<mapsto> p))" using h(2) by (simp add: mac_ok_def)
  have g: "sta_info_get_rx (vif_no (rp_vif (mac hw'))) (he_bssid ev) (rp_mac (mac hw')) = Some (Some p)"
    using sta_get_rep[OF r] by (simp add: sta_get_rx_same vf(3))
  have "p \<in> ran (m((?v, he_bssid ev) \<mapsto> p))" by (rule ranI[of _ "(?v, he_bssid ev)"]) simp
  then have "sta_wf (sta_heap (rp_mac (mac hw')) p)" using h(2) unfolding mac_ok_def by blast
  then have ready: "station_ready (mac hw') p"
    using h(3,7) by (simp add: station_ready_def Let_def sta_wf_def)
  have pn: "check_pn (ccmp_tkip_hdr2pn iv True) (ptk_pn (rp_vif (mac hw'))) (ptk_pn_init (rp_vif (mac hw')))
      = (0, ccmp_tkip_hdr2pn iv True, 0)" using vf(4) by (simp add: check_pn_def)
  have "sta_enc (sta_heap (rp_mac (mac hw')) p)" "key_type (sta_cipher (sta_heap (rp_mac (mac hw')) p)) = IEEE80211_ENC_AES"
    using h(5,6) ev k by simp_all
  from ccmp_frame_delivered_ok[OF v l q e vf(1,2) vif(3) g ready h(4) this pn arg]
  obtain s' where "atbm_rx_cb env arg skb (mac hw') = Some (None, s')" "rp_delivered s' = rp_delivered (mac hw') @ [a1 @ a3 @ ty @ rest]"
    "rp_vif s' = (rp_vif (mac hw'))\<lparr>ptk_pn := ccmp_tkip_hdr2pn iv True, ptk_pn_init := 0\<rparr>" by blast
  moreover have "tx_key (Some p) (mac hw') = \<lparr>key_type = IEEE80211_ENC_AES, key_iv_len = 8, key_icv_len = 8\<rparr>"
    using h(6) k by (simp add: tx_key_def)
  moreover have "vif_connect_success (rp_vif (mac hw'))" by (simp add: h(8) reset_pn_def)
  ultimately show ?thesis using h(1,2,9-11) by (intro exI[of _ hw'] exI[of _ s']) simp
qed

text \<open>A connection to an access point that still has a station is lost: the event changes nothing but the
  memory of the new station, which is freed.  The old key stays, the packet numbers are not reset, so frames
  of the new connection count as replays until they pass the old number, and a link that was down
  stays down.\<close>
theorem repeated_connect_changes_nothing:
  assumes "mac_ok (rp_mac (mac hw)) m" "p \<notin> ran m" "m (vif_no (rp_vif (mac hw)), he_bssid ev) = Some x"
  shows "\<exists>hw'. atbm_sta_connect_event (Some p) ev hw = Some hw' \<and> mac_ok (rp_mac (mac hw')) m \<and>
    rp_vif (mac hw') = rp_vif (mac hw) \<and> lwip_enable hw' = lwip_enable hw \<and> lwip_queue_enable hw' = lwip_queue_enable hw \<and>
    sta_heap (rp_mac (mac hw')) x = sta_heap (rp_mac (mac hw)) x \<and>
    sta_freed (rp_mac (mac hw')) = sta_freed (rp_mac (mac hw)) @ [p]"
proof -
  have x: "x \<noteq> p" using assms(2,3) by (auto simp: ran_def)
  obtain s' where "add_station (Some p) (he_bssid ev) hw = Some (None, set_mac s' hw)" "mac_ok s' m"
    "\<forall>y. y \<noteq> p \<longrightarrow> sta_heap s' y = sta_heap (rp_mac (mac hw)) y" "sta_freed s' = sta_freed (rp_mac (mac hw)) @ [p]"
    using add_station_ok[OF assms(1,2) refl, of "he_bssid ev"] assms(3) by auto
  then show ?thesis using x by (simp add: atbm_sta_connect_event_def)
qed

subsection \<open>The list of stations\<close>

definition sta_at :: "bytes \<Rightarrow> nat \<Rightarrow> mac" where
  "sta_at l i = take 6 (drop (8 + 6 * i) l)"

definition listed :: "bytes \<Rightarrow> mac list" where
  "listed l = map (sta_at l) [0..<sta_cnt l]"

lemma sta_addr_at_ok: "length l = 32 \<Longrightarrow> i < 4 \<Longrightarrow> sta_addr_at l i = Some (sta_at l i)"
  by (simp add: sta_addr_at_def sta_at_def rdn_def nat_add_distrib nat_mult_distrib)

lemma sta_listed_ok:
  "length l = 32 \<Longrightarrow> j + n \<le> 4 \<Longrightarrow> sta_listed a l n j = Some (a \<in> set (map (sta_at l) [j..<j + n]))"
proof (induction n arbitrary: j)
  case (Suc n)
  have "[j..<j + Suc n] = j # [Suc j..<Suc j + n]" by (simp add: upt_rec)
  then show ?case using Suc.IH[of "Suc j"] Suc.prems by (auto simp: sta_addr_at_ok)
qed simp

lemma first_not_listed_ok:
  assumes "length l = 32" "length l' = 32" "sta_cnt l' \<le> 4"
  shows "i + n \<le> 4 \<Longrightarrow> first_not_listed l l' n i = Some (find (\<lambda>a. a \<notin> set (listed l')) (map (sta_at l) [i..<i + n]))"
proof (induction n arbitrary: i)
  case (Suc n)
  have s: "sta_listed a l' (sta_cnt l') 0 = Some (a \<in> set (listed l'))" for a
    using sta_listed_ok[OF assms(2), of 0 "sta_cnt l'"] assms(3) by (simp add: listed_def)
  have u: "[i..<i + Suc n] = i # [Suc i..<Suc i + n]" by (simp add: upt_rec)
  show ?case unfolding u using Suc.IH[of "Suc i"] Suc.prems assms(1) by (auto simp: sta_addr_at_ok s)
qed simp

text \<open>The firmware answers the request for the list with l.\<close>

definition answers_list :: "(bytes \<Rightarrow> u16 \<times> bytes) \<Rightarrow> bytes \<Rightarrow> bool" where
  "answers_list fw l \<longleftrightarrow> length l = 32 \<and>
     (\<exists>rest. fw (wsm_message 0x12 0 (bytes16 32)) = (cnf_id 0x12, wsm_answer (cnf_id 0x12) l rest))"

definition hw_idle :: "adapter \<Rightarrow> bool" where
  "hw_idle hw \<longleftrightarrow> wsm_idle hw \<and> 10 \<le> wb_end (wsm_cmd_buf hw)"

lemma stalist_ok:
  assumes "hw_idle hw" "answers_list fw l"
  obtains hw' where "wsm_get_stalist env ((t, bus_exchange env fw) # rs) (replicate 32 0) hw = Some (0, hw')"
    "hw_idle hw'" "ret_buf hw' = l" "request_only hw hw'"
proof -
  obtain rest where l: "length l = 32" "fw (wsm_message 0x12 0 (bytes16 32)) = (cnf_id 0x12, wsm_answer (cnf_id 0x12) l rest)"
    using assms(2) by (auto simp: answers_list_def)
  have i: "wsm_idle hw" and r: "2 \<le> wb_room (wsm_cmd_buf hw)"
    using assms(1) by (auto simp: hw_idle_def wb_room_def wsm_idle_def)
  have g: "(wsm_get_stalist :: rx_path request, 0x12) \<in> set get_requests" by (simp add: get_requests_def)
  have "\<exists>hw'. wsm_get_stalist env ((t, bus_exchange env fw) # rs) (replicate 32 0) hw
       = Some (if length (replicate 32 (0 :: u8)) \<le> length l then 0 else - EINVAL, hw') \<and> wsm_idle hw' \<and>
     ret_buf hw' = (if length (replicate 32 (0 :: u8)) \<le> length l then take (length (replicate 32 (0 :: u8))) l else replicate 32 0) \<and>
     wb_end (wsm_cmd_buf hw') = wb_end (wsm_cmd_buf hw) \<and> request_only hw hw'"
    by (rule get_request_ok[OF g i r]) (use l in simp_all)
  then obtain hw' where "wsm_get_stalist env ((t, bus_exchange env fw) # rs) (replicate 32 0) hw = Some (0, hw')"
    "wsm_idle hw'" "ret_buf hw' = l" "wb_end (wsm_cmd_buf hw') = wb_end (wsm_cmd_buf hw)" "request_only hw hw'"
    using l(1) by auto
  then show ?thesis using assms(1) by (intro that) (simp_all add: hw_idle_def)
qed

lemma checked_sta_ok:
  assumes "hw_idle hw" "answers_list fw l" "length old = 32" "sta_cnt l \<le> 4" "sta_cnt old \<le> 4"
  obtains hw' where "atbm_get_checked_sta env ((t, bus_exchange env fw) # rs) b_add old hw =
      Some (map_option (\<lambda>a. (a, sta_cnt l)) (if b_add then find (\<lambda>a. a \<notin> set (listed old)) (listed l)
         else find (\<lambda>a. a \<notin> set (listed l)) (listed old)), l, hw')"
    "hw_idle hw'" "request_only hw hw'"
proof -
  have l: "length l = 32" using assms(2) by (simp add: answers_list_def)
  obtain hw' where h: "wsm_get_stalist env ((t, bus_exchange env fw) # rs) (replicate 32 0) hw = Some (0, hw')"
    "hw_idle hw'" "ret_buf hw' = l" "request_only hw hw'" by (rule stalist_ok[OF assms(1,2)])
  have "first_not_listed l old (sta_cnt l) 0 = Some (find (\<lambda>a. a \<notin> set (listed old)) (listed l))"
    "first_not_listed old l (sta_cnt old) 0 = Some (find (\<lambda>a. a \<notin> set (listed l)) (listed old))"
    using first_not_listed_ok[OF l assms(3,5), of 0 "sta_cnt l"] first_not_listed_ok[OF assms(3) l assms(4), of 0 "sta_cnt old"] assms(4,5)
    by (simp_all add: listed_def)
  then show ?thesis using h by (intro that) (auto simp: atbm_get_checked_sta_def Let_def)
qed

lemma hw_idle_simps [simp]:
  "hw_idle (upd_mac f hw) = hw_idle hw" "hw_idle (upd_hw_vif g hw) = hw_idle hw" "hw_idle (set_mac s hw) = hw_idle hw"
  "hw_idle (netif_carrier_on hw) = hw_idle hw" "hw_idle (netif_carrier_off hw) = hw_idle hw"
  by (simp_all add: hw_idle_def wsm_idle_def upd_mac_def upd_hw_vif_def set_mac_def netif_carrier_on_def netif_carrier_off_def)

lemma add_event_none:
  assumes "hw_idle hw" "answers_list fw l" "length old = 32" "sta_cnt l \<le> 4" "sta_cnt old \<le> 4"
    "set (listed l) \<subseteq> set (listed old)"
  obtains hw' where "atbm_sta_add_event mem env ((t, bus_exchange env fw) # rs) lid (old, hw) = Some (l, hw')"
    "hw_idle hw'" "request_only hw hw'"
proof -
  obtain hw' where c: "atbm_get_checked_sta env ((t, bus_exchange env fw) # rs) True old hw =
      Some (map_option (\<lambda>a. (a, sta_cnt l)) (if True then find (\<lambda>a. a \<notin> set (listed old)) (listed l)
         else find (\<lambda>a. a \<notin> set (listed l)) (listed old)), l, hw')"
    "hw_idle hw'" "request_only hw hw'" by (rule checked_sta_ok[OF assms(1-5)])
  have "find (\<lambda>a. a \<notin> set (listed old)) (listed l) = None" using assms(6) by (auto simp: find_None_iff)
  then show ?thesis using c by (intro that[of hw']) (simp_all add: atbm_sta_add_event_def)
qed

lemma add_event_new:
  assumes idle: "hw_idle hw" "answers_list fw l" "length old = 32" "sta_cnt l \<le> 4" "sta_cnt old \<le> 4"
    and a: "find (\<lambda>a. a \<notin> set (listed old)) (listed l) = Some a"
    and ok: "mac_ok (rp_mac (mac hw)) m" and p: "p \<notin> ran m" and new: "m (vif_no (rp_vif (mac hw)), a) = None"
  obtains hw' where "atbm_sta_add_event (Some p) env ((t, bus_exchange env fw) # rs) lid (old, hw) = Some (l, hw')"
    "hw_idle hw'" "mac_ok (rp_mac (mac hw')) (m((vif_no (rp_vif (mac hw)), a) \<mapsto> p))"
    "vif_no (rp_vif (mac hw')) = vif_no (rp_vif (mac hw))"
    "test_sta_flag p WLAN_STA_AUTHORIZED (rp_mac (mac hw')) = Some True"
    "sta_cipher (sta_heap (rp_mac (mac hw')) p) = vif_ap_key (rp_vif (mac hw))"
    "sta_aid (sta_heap (rp_mac (mac hw')) p) = ucast lid"
    "sta_cnt l = 1 \<Longrightarrow> lwip_enable hw' \<and> lwip_queue_enable hw' \<and> vif_connect_success (rp_vif (mac hw'))"
proof -
  let ?v = "vif_no (rp_vif (mac hw))"
  obtain hc where c: "atbm_get_checked_sta env ((t, bus_exchange env fw) # rs) True old hw =
      Some (map_option (\<lambda>a. (a, sta_cnt l)) (if True then find (\<lambda>a. a \<notin> set (listed old)) (listed l)
         else find (\<lambda>a. a \<notin> set (listed l)) (listed old)), l, hc)"
    "hw_idle hc" "request_only hw hc" by (rule checked_sta_ok[OF idle])
  have hc: "mac hc = mac hw" using c(3) by (simp add: request_only_def)
  have okc: "mac_ok (rp_mac (mac hc)) m" using ok by (simp add: hc)
  obtain s' where s': "add_station (Some p) a hc = Some (Some p, set_mac s' hc)" "mac_ok s' (m((?v, a) \<mapsto> p))"
    "core (sta_heap s' p) = core (new_sta ?v a)"
    using add_station_ok[OF okc p refl, of a] new by (auto simp: hc)
  note C = core_eq[OF s'(3)]
  define h1 where "h1 = upd_mac (upd_sta p (\<lambda>s. s\<lparr>sta_aid := ucast lid, sta_wmm := True\<rparr>)) (set_mac s' hc)"
  have wf1: "sta_wf (sta_heap (rp_mac (mac h1)) p)" using C(9) by (simp add: h1_def sta_wf_def new_sta_def)
  obtain w where w: "authorize p h1 = Some (upd_mac (upd_sta p (\<lambda>st. st\<lparr>sta_flags := w\<rparr>)) h1)" "length w = 1"
    "bit_of w WLAN_STA_ASSOC" "bit_of w WLAN_STA_AUTHORIZED" by (rule authorize_ok[OF wf1])
  define h2 where "h2 = upd_mac (upd_sta p (\<lambda>st. st\<lparr>sta_flags := w\<rparr>)) h1"
  let ?key = "vif_ap_key (rp_vif (mac h2))"
  define h3 where "h3 = upd_mac (upd_sta p (\<lambda>s. s\<lparr>sta_cipher := ?key,
      sta_enc := (if key_type ?key > IEEE80211_ENC_TYPE then True else sta_enc s)\<rparr>)) h2"
  define h4 where "h4 = (if sta_cnt l = 1 then upd_hw_vif (\<lambda>v. v\<lparr>vif_connect_success := True\<rparr>) (netif_carrier_on h3) else h3)"
  have run: "atbm_sta_add_event (Some p) env ((t, bus_exchange env fw) # rs) lid (old, hw) = Some (l, h4)"
    using c(1) s'(1) w(1) a
    by (simp add: atbm_sta_add_event_def Let_def h4_def h3_def flip: h1_def h2_def)
  have m: "mac_ok (rp_mac (mac h4)) (m((?v, a) \<mapsto> p))"
    using s'(2) w(2) by (auto simp: h4_def h3_def h2_def h1_def sta_wf_def intro!: mac_ok_upd)
  have fl: "sta_flags (sta_heap (rp_mac (mac h4)) p) = w" by (simp add: h4_def h3_def h2_def)
  have "test_sta_flag p WLAN_STA_AUTHORIZED (rp_mac (mac h4)) = Some True"
    using flag_of_bits[OF fl w(2)] w(4) by (simp add: word_less_nat_alt)
  then show ?thesis
    by (intro that[OF run _ m]) (use c(2) hc in \<open>simp_all add: h4_def h3_def h2_def h1_def\<close>)
qed

text \<open>C21. An access point loses a station when two join at about the same time.  The event of a join carries no
  address: the driver asks for the list and takes the first station the list of the last event does not
  have.  When both stations are in the list the first event is answered with, only one of them is added; the second
  event finds nothing new, and the other station stays unknown, so frames for it are dropped.\<close>
theorem second_join_is_lost:
  assumes "hw_idle hw" "answers_list fw l" "length old = 32" "sta_cnt l \<le> 4" "sta_cnt old \<le> 4"
    "find (\<lambda>a. a \<notin> set (listed old)) (listed l) = Some a" "b \<in> set (listed l)" "b \<noteq> a"
    "mac_ok (rp_mac (mac hw)) m" "p \<notin> ran m" "m (vif_no (rp_vif (mac hw)), a) = None" "m (vif_no (rp_vif (mac hw)), b) = None"
  shows "\<exists>hw1 hw2. atbm_sta_add_event (Some p) env ((t, bus_exchange env fw) # rs) lid (old, hw) = Some (l, hw1) \<and>
    atbm_sta_add_event mem2 env ((t2, bus_exchange env fw) # rs2) lid2 (l, hw1) = Some (l, hw2) \<and>
    sta_info_get (vif_no (rp_vif (mac hw))) a (rp_mac (mac hw2)) = Some (Some p) \<and>
    sta_info_get (vif_no (rp_vif (mac hw))) b (rp_mac (mac hw2)) = Some None"
proof -
  let ?v = "vif_no (rp_vif (mac hw))"
  obtain h1 where h1: "atbm_sta_add_event (Some p) env ((t, bus_exchange env fw) # rs) lid (old, hw) = Some (l, h1)"
    "hw_idle h1" "mac_ok (rp_mac (mac h1)) (m((?v, a) \<mapsto> p))" "vif_no (rp_vif (mac h1)) = ?v"
    by (rule add_event_new[OF assms(1-6,9-11)])
  have l: "length l = 32" using assms(2) by (simp add: answers_list_def)
  obtain h2 where h2: "atbm_sta_add_event mem2 env ((t2, bus_exchange env fw) # rs2) lid2 (l, h1) = Some (l, h2)" "request_only h1 h2"
    by (rule add_event_none[OF h1(2) assms(2) l assms(4,4)]) simp_all
  have r: "sta_rep (rp_mac (mac h1)) (m((?v, a) \<mapsto> p))" using h1(3) by (simp add: mac_ok_def)
  have "mac h2 = mac h1" using h2(2) by (simp add: request_only_def)
  then show ?thesis using h1(1,4) h2(1) sta_get_rep[OF r] assms(8,12) by (intro exI[of _ h1] exI[of _ h2]) simp
qed

subsection \<open>Queued management frames\<close>

definition mgmt_frame :: "u16 \<Rightarrow> bytes \<Rightarrow> mac \<Rightarrow> mac \<Rightarrow> mac \<Rightarrow> bytes \<Rightarrow> bytes" where
  "mgmt_frame fc dur da sa bssid sq = bytes16 fc @ dur @ da @ sa @ bssid @ sq"

lemma mgmt_fields:
  assumes v: "skb_view skb pre (mgmt_frame fc dur da sa bssid sq @ b) post"
    and l: "length dur = 2" "length da = 6" "length sa = 6" "length bssid = 6" "length sq = 2"
  shows "skb_fc skb = Some fc" "skb_rdn skb 10 6 = Some sa" "skb_rdn skb 16 6 = Some bssid"
    "skb_view skb pre ((mgmt_frame fc dur da sa bssid sq) @ b) post" "length (mgmt_frame fc dur da sa bssid sq) = 24"
proof -
  show "skb_fc skb = Some fc" using view_fc[of skb pre fc "dur @ da @ sa @ bssid @ sq @ b" post] v by (simp add: mgmt_frame_def)
  have "skb_view skb pre ((bytes16 fc @ dur @ da) @ sa @ (bssid @ sq @ b)) post" using v by (simp add: mgmt_frame_def)
  then show "skb_rdn skb 10 6 = Some sa" by (rule view_rdn_body) (use l in simp_all)
  have "skb_view skb pre ((bytes16 fc @ dur @ da @ sa) @ bssid @ (sq @ b)) post" using v by (simp add: mgmt_frame_def)
  then show "skb_rdn skb 16 6 = Some bssid" by (rule view_rdn_body) (use l in simp_all)
  show "length (mgmt_frame fc dur da sa bssid sq) = 24" using l by (simp add: mgmt_frame_def)
qed (rule v)

lemma work_one:
  assumes "vif_enabled (rp_vif (mac hw))" "vif_skb_queue (rp_vif (mac hw)) = [skb]"
  shows "ieee80211_iface_work align_size env hw = work_frame align_size (env 0) skb (upd_hw_vif (\<lambda>v. v\<lparr>vif_skb_queue := []\<rparr>) hw)"
proof -
  have "work_loop align_size env [] = Some" by (rule ext) simp
  then show ?thesis using assms by (simp add: ieee80211_iface_work_def)
qed

text \<open>C20. Any association response authorises.  When the work of a station interface finds a queued association
  response with status 0, the station of the BSSID in the frame becomes associated and authorised and
  the link goes up, whoever sent the frame: neither the address of the sender nor a request before it
  is looked at.\<close>
theorem forged_response_authorises:
  assumes v: "skb_view skb pre (mgmt_frame 0x10 dur da sa bssid sq @ [c0, c1] @ [0, 0] @ [i0, i1] @ rest) post"
    and l: "length dur = 2" "length da = 6" "length sa = 6" "length bssid = 6" "length sq = 2"
    and q: "vif_enabled (rp_vif (mac hw))" "vif_skb_queue (rp_vif (mac hw)) = [skb]"
      "vif_iftype (rp_vif (mac hw)) = NL80211_IFTYPE_STATION"
    and sta: "mac_ok (rp_mac (mac hw)) m" "m (vif_no (rp_vif (mac hw)), bssid) = Some x"
  shows "\<exists>hw'. ieee80211_iface_work align_size env hw = Some hw' \<and>
    test_sta_flag x WLAN_STA_ASSOC (rp_mac (mac hw')) = Some True \<and>
    test_sta_flag x WLAN_STA_AUTHORIZED (rp_mac (mac hw')) = Some True \<and>
    lwip_enable hw' \<and> lwip_queue_enable hw' \<and> vif_skb_queue (rp_vif (mac hw')) = [] \<and>
    rp_freed (mac hw') = rp_freed (mac hw) @ [skb_addr skb]"
proof -
  define h0 where "h0 = upd_hw_vif (\<lambda>v. v\<lparr>vif_skb_queue := []\<rparr>) hw"
  let ?f = "mgmt_frame 0x10 dur da sa bssid sq"
  note F = mgmt_fields[OF v l]
  have r24: "skb_rd16 skb 24 = Some (le16 c0 c1)" "skb_rd16 skb 26 = Some 0" "skb_rd16 skb 28 = Some (le16 i0 i1)"
    using view_rd16[of skb pre ?f "[c0, c1]" "[0, 0] @ [i0, i1] @ rest" post 24]
      view_rd16[of skb pre "?f @ [c0, c1]" "[0, 0]" "[i0, i1] @ rest" post 26]
      view_rd16[of skb pre "?f @ [c0, c1] @ [0, 0]" "[i0, i1]" rest post 28] v F(5)
    by (simp_all add: le16_def)
  have len: "\<not> skb_len skb < 24 + 6"
    using v F(5) by (simp add: skb_view_def word_less_nat_alt)
  have ok0: "mac_ok (rp_mac (mac h0)) m" using sta(1) by (simp add: h0_def)
  have r: "sta_rep (rp_mac (mac h0)) m" using ok0 by (simp add: mac_ok_def)
  have g: "sta_info_get (vif_no (rp_vif (mac h0))) bssid (rp_mac (mac h0)) = Some (Some x)"
    using sta_get_rep[OF r] sta(2) by (simp add: h0_def)
  have "x \<in> ran m" using sta(2) by (rule ranI)
  then have "sta_wf (sta_heap (rp_mac (mac h0)) x)" using ok0 unfolding mac_ok_def by blast
  then obtain w where w: "authorize x h0 = Some (upd_mac (upd_sta x (\<lambda>st. st\<lparr>sta_flags := w\<rparr>)) h0)" "length w = 1"
    "bit_of w WLAN_STA_ASSOC" "bit_of w WLAN_STA_AUTHORIZED" by (rule authorize_ok)
  define h1 where "h1 = netif_carrier_on (upd_mac (upd_sta x (\<lambda>st. st\<lparr>sta_flags := w\<rparr>)) h0)"
  have resp: "ieee80211_rx_mgmt_assoc_resp skb h0 = Some (WORK_ACT_DONE, h1)"
    using w(1) len r24 F(3) g
    by (auto simp: ieee80211_rx_mgmt_assoc_resp_def authorize_def h1_def split: Option.bind_splits)
  have st: "vif_iftype (rp_vif (mac h0)) = NL80211_IFTYPE_STATION" using q(3) by (simp add: h0_def)
  have run: "ieee80211_iface_work align_size env hw = Some (h1\<lparr>mac := (mac h1)\<lparr>rp_freed := rp_freed (mac h1) @ [skb_addr skb]\<rparr>\<rparr>)"
    using resp F(1) st
    by (simp add: work_one[OF q(1,2)] work_frame_def ieee80211_sta_rx_queued_mgmt_def fc_defs flip: h0_def)
  have fl: "sta_flags (sta_heap (rp_mac (mac h1)) x) = w" by (simp add: h1_def)
  have "test_sta_flag x WLAN_STA_ASSOC (rp_mac (mac h1)) = Some True" "test_sta_flag x WLAN_STA_AUTHORIZED (rp_mac (mac h1)) = Some True"
    using flag_of_bits[OF fl w(2)] w(3,4) by (simp_all add: word_less_nat_alt)
  then show ?thesis using run
    by (auto simp: h1_def h0_def netif_carrier_on_def upd_hw_vif_def upd_vif_def upd_mac_def test_sta_flag_def)
qed

text \<open>C19. A queued ADDBA request opens the session.  The work of the interface takes the frame from the queue,
  finds the station by the address of the sender, and gives the frame to the block-ack code: the TID of
  the request has a new session with the requested size and start, nothing else of the station or of
  another station changes, and the frame is freed once.\<close>
theorem queued_addba_opens_session:
  assumes v: "skb_view skb pre (mgmt_frame 0xd0 dur da sa bssid sq @ [3, 0] @ rest) post"
    and l: "length dur = 2" "length da = 6" "length sa = 6" "length bssid = 6" "length sq = 2"
    and fr: "addba_frame ((mgmt_frame 0xd0 dur da sa bssid sq @ [3, 0] @ rest) @ post) token capab tmo start"
    and q: "vif_enabled (rp_vif (mac hw))" "vif_skb_queue (rp_vif (mac hw)) = [skb]"
    and sta: "mac_ok (rp_mac (mac hw)) m" "m (vif_no (rp_vif (mac hw)), sa) = Some x"
    and tm: "timer_inv (mac_timers (rp_mac (mac hw))) tm"
    and al: "alloc_session (we_addba (env 0)) = Some (st, rt)" "alloc_buf (we_addba (env 0))" "alloc_time (we_addba (env 0))"
      "st \<noteq> rt" "st \<notin> ran tm" "rt \<notin> ran tm" "calm (we_vstart (env 0)) tm"
    and acc: "addba_check (sta_blocked (rp_mac (mac hw)) x) (ht_cap (sta_heap (rp_mac (mac hw)) x)) capab = Addba_accept bs"
  shows "\<exists>hw' a. ieee80211_iface_work align_size env hw = Some hw' \<and>
    only_slot x (unat (addba_tid capab)) (Some a) (rp_mac (mac hw)) (rp_mac (mac hw')) \<and>
    session_of (rp_mac (mac hw')) x (unat (addba_tid capab)) = Some a \<and>
    buf_size (agg_rx a) = bs \<and> head_seq_num (agg_rx a) = drop_bit 4 start \<and> stored_mpdu_num (agg_rx a) = 0 \<and>
    vif_skb_queue (rp_vif (mac hw')) = [] \<and> rp_freed (mac hw') = rp_freed (mac hw) @ [skb_addr skb]"
proof -
  define h0 where "h0 = upd_hw_vif (\<lambda>v. v\<lparr>vif_skb_queue := []\<rparr>) hw"
  have m0: "rp_mac (mac h0) = rp_mac (mac hw)" "vif_no (rp_vif (mac h0)) = vif_no (rp_vif (mac hw))" by (simp_all add: h0_def)
  let ?f = "mgmt_frame 0xd0 dur da sa bssid sq"
  let ?a = "\<lparr>agg_rx = new_tid_rx token (drop_bit 4 start) bs tmo, session_timer = st, reorder_timer = rt\<rparr>"
  note F = mgmt_fields[OF v l]
  have rd: "skb_rdn skb 24 1 = Some [3]" "skb_rdn skb 25 1 = Some [0]"
    using view_rdn_body[of skb pre ?f "[3]" "0 # rest" post 24 1] view_rdn_body[of skb pre "?f @ [3]" "[0]" rest post 25 1] v F(5)
    by simp_all
  have r8: "skb_rd8 skb 24 = Some 3" "skb_rd8 skb 25 = Some 0"
    using rd by (auto simp: skb_rd8_def skb_rdn_def rd8_def rdn_Some take_Suc_conv_app_nth)
  have dat: "skb_from_data skb = Some ((?f @ [3, 0] @ rest) @ post)"
    using v by (simp add: skb_from_data_def skb_view_def)
  have r: "sta_rep (rp_mac (mac h0)) m" using sta(1) by (simp add: m0 mac_ok_def)
  have g: "sta_info_get (vif_no (rp_vif (mac h0))) sa (rp_mac (mac h0)) = Some (Some x)"
    using sta_get_rep[OF r] sta(2) by (simp add: m0)
  have "x \<in> ran m" using sta(2) by (rule ranI)
  then have wf: "sta_wf (sta_heap (rp_mac (mac hw)) x)" using sta(1) unfolding mac_ok_def by blast
  obtain s' where s': "ieee80211_process_addba_request (we_addba (env 0)) (we_vstart (env 0)) (we_jiffies (env 0)) x
      ((?f @ [3, 0] @ rest) @ post) (rp_mac (mac hw)) = Some s'"
    "only_slot x (unat (addba_tid capab)) (Some ?a) (rp_mac (mac hw)) s'"
    using addba_run[OF fr wf tm al acc] by blast
  have bka: "work_back_action (env 0) skb h0 = Some (set_mac s' h0)"
    using F(2) g dat r8 s'(1) by (simp add: work_back_action_def m0)
  have run: "ieee80211_iface_work align_size env hw =
      Some ((set_mac s' h0)\<lparr>mac := (mac (set_mac s' h0))\<lparr>rp_freed := rp_freed (mac (set_mac s' h0)) @ [skb_addr skb]\<rparr>\<rparr>)"
    using bka F(1) r8(1) by (simp add: work_one[OF q] work_frame_def fc_defs flip: h0_def)
  have len: "unat (addba_tid capab) < length (mlme_tid_rx (sta_heap (rp_mac (mac hw)) x))"
    using wf addba_tid_less by (simp add: sta_wf_def)
  show ?thesis
    by (intro exI[of _ "(set_mac s' h0)\<lparr>mac := (mac (set_mac s' h0))\<lparr>rp_freed := rp_freed (mac (set_mac s' h0)) @ [skb_addr skb]\<rparr>\<rparr>"]
        exI[of _ ?a] conjI run)
      (use s'(2) only_slot_get[OF s'(2) len] in \<open>simp_all add: new_tid_rx_def h0_def set_mac_def upd_mac_def upd_hw_vif_def upd_vif_def\<close>)
qed

subsection \<open>Every event\<close>

lemma event_queue_simps [simp]:
  "event_queue (upd_mac f hw) = event_queue hw" "event_queue (upd_hw_vif g hw) = event_queue hw"
  "event_queue (set_mac s hw) = event_queue hw" "event_queue (netif_carrier_on hw) = event_queue hw"
  "event_queue (netif_carrier_off hw) = event_queue hw"
  by (simp_all add: upd_mac_def upd_hw_vif_def set_mac_def netif_carrier_on_def netif_carrier_off_def)

definition events_inv :: "adapter \<Rightarrow> (nat \<times> mac \<Rightarrow> nat option) \<Rightarrow> bool" where
  "events_inv hw m \<longleftrightarrow> mac_ok (rp_mac (mac hw)) m \<and> hw_idle hw \<and> event_queue hw = []"

definition list_ok :: "bytes \<Rightarrow> bool" where
  "list_ok l \<longleftrightarrow> length l = 32 \<and> sta_cnt l \<le> 4"

lemma inv_simps [simp]:
  "events_inv (netif_carrier_on hw) m = events_inv hw m" "events_inv (netif_carrier_off hw) m = events_inv hw m"
  "events_inv (upd_hw_vif g hw) m = events_inv hw m" "events_inv (set_mac s hw) m \<longleftrightarrow> mac_ok s m \<and> hw_idle hw \<and> event_queue hw = []"
  by (auto simp: events_inv_def)

lemma inv_request: "events_inv hw m \<Longrightarrow> request_only hw hw' \<Longrightarrow> hw_idle hw' \<Longrightarrow> events_inv hw' m"
  by (simp add: events_inv_def request_only_def)

lemma inv_upd:
  assumes "events_inv hw m" "\<And>x. sta_vif (f x) = sta_vif x" "\<And>x. sta_addr (f x) = sta_addr x"
    "\<And>x. sta_hnext (f x) = sta_hnext x" "\<And>x. sta_wf x \<Longrightarrow> sta_wf (f x)"
  shows "events_inv (upd_mac (upd_sta p f) hw) m"
  using assms mac_ok_upd[of "rp_mac (mac hw)" m f p] by (simp add: events_inv_def)

lemma add_station_inv:
  assumes i: "events_inv hw m" and p: "mem = None \<or> mem = Some P" "P \<notin> ran m"
  obtains r hw' m' where "add_station mem a hw = Some (r, hw')" "events_inv hw' m'" "ran m' \<subseteq> insert P (ran m)"
    "r = None \<or> (\<exists>x. r = Some x \<and> x \<in> ran m' \<and> sta_wf (sta_heap (rp_mac (mac hw')) x))"
proof (cases mem)
  case None
  then show ?thesis
    by (intro that[of None "set_mac (rp_mac (mac hw)) hw" m]) (use i in \<open>auto simp: add_station_def sta_info_alloc_def events_inv_def\<close>)
next
  case (Some q)
  then have q: "mem = Some P" using p(1) by simp
  let ?v = "vif_no (rp_vif (mac hw))"
  have ok: "mac_ok (rp_mac (mac hw)) m" using i by (simp add: events_inv_def)
  show ?thesis
  proof (cases "m (?v, a)")
    case None
    then obtain s' where s': "add_station (Some P) a hw = Some (Some P, set_mac s' hw)" "mac_ok s' (m((?v, a) \<mapsto> P))"
      using add_station_ok[OF ok p(2) refl, of a] by auto
    have R: "P \<in> ran (m((?v, a) \<mapsto> P))" by (rule ranI[of _ "(?v, a)"]) simp
    moreover have "sta_wf (sta_heap s' P)" using s'(2) R unfolding mac_ok_def by blast
    moreover have "ran (m((?v, a) \<mapsto> P)) \<subseteq> insert P (ran m)" using ran_add[of m "(?v, a)" P, OF None] by simp
    ultimately show ?thesis using s' i q by (intro that[of "Some P" "set_mac s' hw" "m((?v, a) \<mapsto> P)"]) (auto simp: events_inv_def)
  next
    case (Some x)
    then obtain s' where "add_station (Some P) a hw = Some (None, set_mac s' hw)" "mac_ok s' m"
      using add_station_ok[OF ok p(2) refl, of a] by auto
    then show ?thesis using i q by (intro that[of None "set_mac s' hw" m]) (auto simp: events_inv_def)
  qed
qed

lemma authorize_inv:
  assumes "events_inv hw m" "sta_wf (sta_heap (rp_mac (mac hw)) x)"
  obtains hw' where "authorize x hw = Some hw'" "events_inv hw' m"
proof -
  obtain w where "authorize x hw = Some (upd_mac (upd_sta x (\<lambda>st. st\<lparr>sta_flags := w\<rparr>)) hw)" "length w = 1"
    by (rule authorize_ok[OF assms(2)])
  then show ?thesis using assms(1)
    by (intro that[of "upd_mac (upd_sta x (\<lambda>st. st\<lparr>sta_flags := w\<rparr>)) hw"]) (auto simp: sta_wf_def intro!: inv_upd)
qed

lemma connect_inv:
  assumes i: "events_inv hw m" and p: "mem = None \<or> mem = Some P" "P \<notin> ran m"
  obtains hw' m' where "atbm_sta_connect_event mem ev hw = Some hw'" "events_inv hw' m'" "ran m' \<subseteq> insert P (ran m)"
proof -
  obtain r h m' where a: "add_station mem (he_bssid ev) hw = Some (r, h)" "events_inv h m'" "ran m' \<subseteq> insert P (ran m)"
    "r = None \<or> (\<exists>x. r = Some x \<and> x \<in> ran m' \<and> sta_wf (sta_heap (rp_mac (mac h)) x))"
    by (rule add_station_inv[OF i p])
  show ?thesis
  proof (cases r)
    case None
    then show ?thesis using a by (intro that[of h m']) (simp_all add: atbm_sta_connect_event_def)
  next
    case (Some x)
    define h1 where "h1 = upd_mac (upd_sta x (\<lambda>st. st\<lparr>sta_bgnMode := he_bgnMode ev,
       sta_wmm := (he_connect_flag ev AND CONNECT_FLAG_WMM \<noteq> 0)\<rparr>)) h"
    have i1: "events_inv h1 m'" using a(2) by (auto simp: h1_def sta_wf_def intro!: inv_upd)
    have "sta_wf (sta_heap (rp_mac (mac h1)) x)" using a(4) Some by (simp add: h1_def sta_wf_def)
    then obtain h2 where h2: "authorize x h1 = Some h2" "events_inv h2 m'" using authorize_inv[OF i1] by blast
    let ?e = "he_crypto_pairwise ev \<noteq> 0"
    define h3 where "h3 = upd_hw_vif (\<lambda>v. v\<lparr>vif_ap_enc := ?e\<rparr>) (upd_mac (upd_sta x (\<lambda>st. st\<lparr>sta_enc := ?e\<rparr>)) h2)"
    define h4 where "h4 = (if ?e then
        upd_hw_vif (\<lambda>v. v\<lparr>vif_group_key := atbm_sta_key_config (vif_group_key v) (he_crypto_group ev)\<rparr>)
         (upd_mac (upd_sta x (\<lambda>st. st\<lparr>sta_cipher := atbm_sta_key_config (sta_cipher st) (he_crypto_pairwise ev)\<rparr>)) h3) else h3)"
    have "events_inv h3 m'" using h2(2) by (auto simp: h3_def sta_wf_def intro!: inv_upd)
    then have i4: "events_inv h4 m'" by (auto simp: h4_def sta_wf_def intro!: inv_upd)
    show ?thesis
      by (rule that[of "upd_hw_vif (\<lambda>v. reset_pn (v\<lparr>vif_connect_success := True, vif_bssid := he_bssid ev\<rparr>)) (netif_carrier_on h4)" m'])
        (use a(1,3) Some h2(1) i4 in \<open>simp_all add: atbm_sta_connect_event_def Let_def h3_def h4_def flip: h1_def\<close>)
  qed
qed

lemma drop_inv:
  assumes i: "events_inv hw m" and x: "m k = Some x"
  obtains hw' where "drop_station x hw = Some hw'" "events_inv hw' (m(k := None))"
proof -
  let ?s = "rp_mac (mac hw)"
  have ok: "mac_ok ?s m" using i by (simp add: events_inv_def)
  have R: "x \<in> ran m" using x by (rule ranI)
  then have wf: "sta_wf (sta_heap ?s x)" using ok unfolding mac_ok_def by blast
  then have l: "length (sta_flags (sta_heap ?s x)) = 1" by (simp add: sta_wf_def)
  have b: "bit_word WLAN_STA_ASSOC = 0" "bit_word WLAN_STA_AUTHORIZED = 0" by (simp_all add: bit_word_def)
  obtain w1 where w1: "clear_bit_at WLAN_STA_ASSOC (sta_flags (sta_heap ?s x)) = Some w1" "length w1 = 1"
    using clear_bit_ok[of WLAN_STA_ASSOC "sta_flags (sta_heap ?s x)"] b l by auto
  obtain w where w: "clear_bit_at WLAN_STA_AUTHORIZED w1 = Some w" "length w = 1"
    using clear_bit_ok[of WLAN_STA_AUTHORIZED w1] b w1 by auto
  define s2 where "s2 = upd_sta x (\<lambda>y. y\<lparr>sta_flags := w\<rparr>) (upd_sta x (\<lambda>y. y\<lparr>sta_flags := w1\<rparr>) ?s)"
  have ok2: "mac_ok s2 m" using ok w(2) w1(2) unfolding s2_def by (auto simp: sta_wf_def intro!: mac_ok_upd)
  have "sta_rep s2 m" using ok2 by (simp add: mac_ok_def)
  then have key: "sta_key s2 x = k" using sta_rep_key x by blast
  then have "m (sta_key s2 x) = Some x" using x by simp
  from destroy_ok[OF ok2 this] obtain s3 where s3: "sta_info_destroy (Some x) s2 = Some (0, s3)" "mac_ok s3 (m(sta_key s2 x := None))"
    by blast
  have "drop_station x hw = Some (set_mac s3 hw)"
    using w1(1) w(1) s3(1) by (simp add: drop_station_def clear_sta_flag_def s2_def)
  then show ?thesis using s3(2) i unfolding key by (intro that[of "set_mac s3 hw"]) (auto simp: events_inv_def)
qed

lemma ran_del_subset: "ran (m(k := None)) \<subseteq> ran m" by (auto simp: ran_def)

lemma link_lost_inv [simp]: "events_inv (link_lost hw) m = events_inv hw m" by (simp add: link_lost_def)

lemma disconnect_inv:
  assumes i: "events_inv hw m"
  obtains hw' m' where "atbm_sta_disconnect_event bssid hw = Some hw'" "events_inv hw' m'" "ran m' \<subseteq> ran m"
proof -
  let ?k = "(vif_no (rp_vif (mac hw)), bssid)"
  have "sta_rep (rp_mac (mac hw)) m" using i by (simp add: events_inv_def mac_ok_def)
  then have g: "sta_info_get (fst ?k) bssid (rp_mac (mac hw)) = Some (m ?k)" using sta_get_rep by simp
  show ?thesis
  proof (cases "m ?k")
    case None
    then show ?thesis using g i by (intro that[of hw m]) (simp_all add: atbm_sta_disconnect_event_def)
  next
    case (Some x)
    obtain h where h: "drop_station x hw = Some h" "events_inv h (m(?k := None))" by (rule drop_inv[OF i Some])
    then show ?thesis using g Some ran_del_subset
      by (intro that[of "link_lost h" "m(?k := None)"]) (simp_all add: atbm_sta_disconnect_event_def)
  qed
qed


text \<open>The firmware answers a request for n bytes with data.\<close>

definition answers :: "(bytes \<Rightarrow> u16 \<times> bytes) \<Rightarrow> u16 \<Rightarrow> nat \<Rightarrow> bytes \<Rightarrow> bool" where
  "answers fw cmd n data \<longleftrightarrow> length data + 4 < 2 ^ 16 \<and>
     (\<exists>rest. fw (wsm_message cmd 0 (bytes16 (of_nat n))) = (cnf_id cmd, wsm_answer (cnf_id cmd) data rest))"

lemma get_answered:
  assumes "(f :: rx_path request, cmd) \<in> set get_requests" "hw_idle hw" "answers fw cmd (length buffer) data"
  obtains hw' where "f env ((t, bus_exchange env fw) # rs) buffer hw
       = Some (if length buffer \<le> length data then 0 else - EINVAL, hw')" "hw_idle hw'"
     "ret_buf hw' = (if length buffer \<le> length data then take (length buffer) data else buffer)" "request_only hw hw'"
     "wb_end (wsm_cmd_buf hw') = wb_end (wsm_cmd_buf hw)"
proof -
  obtain rest where d: "length data + 4 < 2 ^ 16"
    "fw (wsm_message cmd 0 (bytes16 (of_nat (length buffer)))) = (cnf_id cmd, wsm_answer (cnf_id cmd) data rest)"
    using assms(3) by (auto simp: answers_def)
  have i: "wsm_idle hw" and r: "2 \<le> wb_room (wsm_cmd_buf hw)"
    using assms(2) by (auto simp: hw_idle_def wb_room_def wsm_idle_def)
  from get_request_ok[where f = f and cmd = cmd and fw = fw and buffer = buffer and cid = "cnf_id cmd" and data = data and rest = rest
      and env = env and t = t and rs = rs, OF assms(1) i r d(2,1)]
  obtain hw' where "f env ((t, bus_exchange env fw) # rs) buffer hw
       = Some (if length buffer \<le> length data then 0 else - EINVAL, hw')" "wsm_idle hw'"
    "ret_buf hw' = (if length buffer \<le> length data then take (length buffer) data else buffer)"
    "wb_end (wsm_cmd_buf hw') = wb_end (wsm_cmd_buf hw)" "request_only hw hw'" by blast
  then show ?thesis using assms(2) by (intro that[of hw']) (simp_all add: hw_idle_def)
qed

text \<open>The outside of one event: the memory P for a station is fresh, and the firmware answers each request.\<close>

definition env_ok :: "cfg_env \<Rightarrow> nat \<Rightarrow> bytes \<Rightarrow> bool" where
  "env_ok env P l \<longleftrightarrow> (ce_mem env = None \<or> ce_mem env = Some P) \<and> list_ok l \<and>
     length (ce_config_stack env) = sizeof_getconfig_cnf \<and> length (ce_more_stack env) = sizeof_ap_cfg_get_req \<and>
     (\<exists>fw t1 rs1 t2 rs2 cfg ap. ce_config_rounds env = (t1, bus_exchange (ce_wsm env) fw) # rs1 \<and>
       ce_more_rounds env = (t2, bus_exchange (ce_wsm env) fw) # rs2 \<and> answers_list fw l \<and>
       answers fw 0x0002 sizeof_getconfig_cnf cfg \<and> answers fw 0x0021 sizeof_ap_cfg_get_req ap)"

lemma add_event_inv:
  assumes i: "events_inv hw m" and p: "mem = None \<or> mem = Some P" "P \<notin> ran m"
    and l: "answers_list fw l" "list_ok l" "list_ok old"
  obtains hw' m' where "atbm_sta_add_event mem env ((t, bus_exchange env fw) # rs) lid (old, hw) = Some (l, hw')"
    "events_inv hw' m'" "ran m' \<subseteq> insert P (ran m)"
proof -
  have idle: "hw_idle hw" "length old = 32" "sta_cnt l \<le> 4" "sta_cnt old \<le> 4"
    using i l(2,3) by (simp_all add: events_inv_def list_ok_def)
  let ?a = "find (\<lambda>a. a \<notin> set (listed old)) (listed l)"
  obtain hc where c: "atbm_get_checked_sta env ((t, bus_exchange env fw) # rs) True old hw =
      Some (map_option (\<lambda>a. (a, sta_cnt l)) (if True then ?a else find (\<lambda>a. a \<notin> set (listed l)) (listed old)), l, hc)"
    "hw_idle hc" "request_only hw hc"
    by (rule checked_sta_ok[OF idle(1) l(1) idle(2-4)])
  have ic: "events_inv hc m" by (rule inv_request[OF i c(3,2)])
  show ?thesis
  proof (cases ?a)
    case None
    then show ?thesis using c(1) ic by (intro that[of hc m]) (auto simp: atbm_sta_add_event_def)
  next
    case (Some a)
    obtain r h m' where a: "add_station mem a hc = Some (r, h)" "events_inv h m'" "ran m' \<subseteq> insert P (ran m)"
      "r = None \<or> (\<exists>x. r = Some x \<and> x \<in> ran m' \<and> sta_wf (sta_heap (rp_mac (mac h)) x))"
      by (rule add_station_inv[OF ic p])
    show ?thesis
    proof (cases r)
      case None
      then show ?thesis using a c(1) Some by (intro that[of h m']) (simp_all add: atbm_sta_add_event_def)
    next
      case (Some x)
      define h1 where "h1 = upd_mac (upd_sta x (\<lambda>s. s\<lparr>sta_aid := ucast lid, sta_wmm := True\<rparr>)) h"
      have i1: "events_inv h1 m'" using a(2) by (auto simp: h1_def sta_wf_def intro!: inv_upd)
      have "sta_wf (sta_heap (rp_mac (mac h1)) x)" using a(4) Some by (simp add: h1_def sta_wf_def)
      then obtain h2 where h2: "authorize x h1 = Some h2" "events_inv h2 m'" using authorize_inv[OF i1] by blast
      let ?key = "vif_ap_key (rp_vif (mac h2))"
      define h3 where "h3 = upd_mac (upd_sta x (\<lambda>s. s\<lparr>sta_cipher := ?key,
          sta_enc := (if key_type ?key > IEEE80211_ENC_TYPE then True else sta_enc s)\<rparr>)) h2"
      have i3: "events_inv h3 m'" using h2(2) by (auto simp: h3_def sta_wf_def intro!: inv_upd)
      show ?thesis
        by (rule that[of "if sta_cnt l = 1 then upd_hw_vif (\<lambda>v. v\<lparr>vif_connect_success := True\<rparr>) (netif_carrier_on h3) else h3" m'])
          (use a(1,3) \<open>?a = Some a\<close> Some c(1) h2(1) i3 in \<open>simp_all add: atbm_sta_add_event_def Let_def flip: h1_def h3_def\<close>)
    qed
  qed
qed

lemma loss_event_inv:
  assumes i: "events_inv hw m" and l: "answers_list fw l" "list_ok l" "list_ok old"
  obtains hw' m' where "atbm_sta_loss_event env ((t, bus_exchange env fw) # rs) (old, hw) = Some (l, hw')"
    "events_inv hw' m'" "ran m' \<subseteq> ran m"
proof -
  have idle: "hw_idle hw" "length old = 32" "sta_cnt l \<le> 4" "sta_cnt old \<le> 4"
    using i l(2,3) by (simp_all add: events_inv_def list_ok_def)
  let ?a = "find (\<lambda>a. a \<notin> set (listed l)) (listed old)"
  obtain hc where c: "atbm_get_checked_sta env ((t, bus_exchange env fw) # rs) False old hw =
      Some (map_option (\<lambda>a. (a, sta_cnt l)) (if False then find (\<lambda>a. a \<notin> set (listed old)) (listed l) else ?a), l, hc)"
    "hw_idle hc" "request_only hw hc"
    by (rule checked_sta_ok[OF idle(1) l(1) idle(2-4)])
  have ic: "events_inv hc m" by (rule inv_request[OF i c(3,2)])
  show ?thesis
  proof (cases ?a)
    case None
    then show ?thesis using c(1) ic by (intro that[of hc m]) (auto simp: atbm_sta_loss_event_def)
  next
    case (Some a)
    let ?k = "(vif_no (rp_vif (mac hc)), a)"
    have "sta_rep (rp_mac (mac hc)) m" using ic by (simp add: events_inv_def mac_ok_def)
    then have g: "sta_info_get (vif_no (rp_vif (mac hc))) a (rp_mac (mac hc)) = Some (m ?k)" using sta_get_rep by simp
    show ?thesis
    proof (cases "m ?k")
      case None
      then show ?thesis using c(1) ic Some g by (intro that[of hc m]) (auto simp: atbm_sta_loss_event_def)
    next
      case (Some x)
      obtain h where h: "drop_station x hc = Some h" "events_inv h (m(?k := None))" by (rule drop_inv[OF ic Some])
      then show ?thesis using c(1) \<open>?a = Some a\<close> Some g ran_del_subset[of m ?k]
        by (intro that[of "if sta_cnt l = 0 then link_lost h else h" "m(?k := None)"]) (auto simp: atbm_sta_loss_event_def)
    qed
  qed
qed


lemma get_run_inv:
  assumes i: "events_inv hw m" and f: "(f :: rx_path request, cmd) \<in> set get_requests" "answers fw cmd (length buffer) data"
  obtains r hw' where "f env ((t, bus_exchange env fw) # rs) buffer hw = Some (r, hw')" "events_inv hw' m"
    "length (ret_buf hw') = length buffer"
proof -
  have idle: "hw_idle hw" using i by (simp add: events_inv_def)
  obtain hw' where h: "f env ((t, bus_exchange env fw) # rs) buffer hw = Some (if length buffer \<le> length data then 0 else - EINVAL, hw')"
    "hw_idle hw'" "ret_buf hw' = (if length buffer \<le> length data then take (length buffer) data else buffer)" "request_only hw hw'"
    by (rule get_answered[OF f(1) idle f(2)])
  show ?thesis by (rule that[OF h(1) inv_request[OF i h(4,2)]]) (simp add: h(3))
qed

lemma set_iftype_inv [simp]: "events_inv (set_iftype t hw) m = events_inv hw m"
  by (simp add: events_inv_def set_iftype_def upd_hw_vif_def upd_vif_def hw_idle_def wsm_idle_def)

lemma mode_inv:
  assumes i: "events_inv hw m" and e: "env_ok env P l"
  obtains hw' where "atbm_configure_wifi_mode env hw = Some hw'" "events_inv hw' m"
proof -
  obtain fw t1 rs1 t2 rs2 cfg ap where r: "ce_config_rounds env = (t1, bus_exchange (ce_wsm env) fw) # rs1"
      "ce_more_rounds env = (t2, bus_exchange (ce_wsm env) fw) # rs2"
      "answers fw 0x0002 (length (ce_config_stack env)) cfg" "answers fw 0x0021 (length (ce_more_stack env)) ap"
    and len: "length (ce_config_stack env) = 164" "length (ce_more_stack env) = 112"
    using e by (auto simp: env_ok_def)
  have g: "(wsm_get_config :: rx_path request, 0x0002) \<in> set get_requests" "(wsm_get_ap_cfg :: rx_path request, 0x0021) \<in> set get_requests"
    by (simp_all add: get_requests_def)
  obtain q hc where c: "wsm_get_config (ce_wsm env) (ce_config_rounds env) (ce_config_stack env) hw = Some (q, hc)" "events_inv hc m"
    "length (ret_buf hc) = length (ce_config_stack env)"
    unfolding r(1) by (rule get_run_inv[OF i g(1) r(3)])
  obtain b where b: "rd8 (ret_buf hc) 17 = Some b" using c(3) len by (simp add: rd8_def)
  have it: "events_inv (set_iftype NL80211_IFTYPE_AP hc) m" using c(2) by simp
  obtain q' ha where a: "wsm_get_ap_cfg (ce_wsm env) (ce_more_rounds env) (ce_more_stack env) (set_iftype NL80211_IFTYPE_AP hc) = Some (q', ha)"
    "events_inv ha m" "length (ret_buf ha) = length (ce_more_stack env)"
    unfolding r(2) by (rule get_run_inv[OF it g(2) r(4)])
  obtain k where k: "rd8 (ret_buf ha) 108 = Some k" using a(3) len by (simp add: rd8_def)
  show ?thesis
    by (rule that[of "if vif_type hc = None then hc else if b = 0 then set_iftype NL80211_IFTYPE_STATION hc
        else if q' \<noteq> 0 then ha else upd_hw_vif (\<lambda>v. let k = key_of_mgmt (vif_ap_key v) k
             in v\<lparr>vif_ap_key := k, vif_group_key := k\<rparr>) ha"])
      (use c a b k in \<open>auto simp: atbm_configure_wifi_mode_def Let_def\<close>)
qed

text \<open>An event as wsm_event_indication queues it, whose text, if it is printed, ends in the buffer.\<close>

definition event_ok :: "atbm_wsm_event \<Rightarrow> bool" where
  "event_ok ev \<longleftrightarrow> length (ev_buffer ev) = 504 \<and> (ev_eventId ev \<in> {8, 9} \<longrightarrow> 0 \<in> set (ev_buffer ev)) \<and>
     (ev_eventId ev = 15 \<longrightarrow> 0 \<in> set (drop 4 (ev_buffer ev)))"

lemma read_event_ok:
  assumes "length b = 504"
  shows "\<exists>e. read_connect_event b 0 = Some e" "\<exists>a. rdn b 0 6 = Some a" "\<exists>a. rdn b 0 4 = Some a"
    "\<exists>a. rdn b 44 12 = Some a" "\<exists>a. rd8 b 0 = Some a"
  using assms by (simp_all add: read_connect_event_def rdn_def rd8_def)

text \<open>The two conditions on the firmware are not checked by the driver.  A text without an end is read
  behind the buffer of the event.\<close>
lemma unterminated_text_read_outside:
  assumes "ev_eventId ev \<in> {8, 9}" "0 \<notin> set (ev_buffer ev)" "ABwifi_hwpriv_to_vifpriv hw (unat (ev_if_id ev)) \<noteq> None"
  shows "handle_event env ev (old, hw) = None"
  using assms by (auto simp: handle_event_def Let_def print_text_def)

text \<open>And a list whose count is above four, and whose four stations are known, is read behind its end.\<close>
lemma long_list_read_outside:
  assumes "\<And>j a. i \<le> j \<Longrightarrow> sta_addr_at l j = Some a \<Longrightarrow> sta_listed a l' (sta_cnt l') 0 = Some True"
    "i \<le> 4" "4 < i + n"
  shows "first_not_listed l l' n i = None"
  using assms
proof (induction n arbitrary: i)
  case (Suc n)
  show ?case
  proof (cases "sta_addr_at l i")
    case (Some a)
    then have i: "i < 4" by (auto simp: sta_addr_at_def split: if_splits)
    have "first_not_listed l l' n (i + 1) = None" by (intro Suc.IH Suc.prems(1)) (use Suc.prems(2,3) i in auto)
    then show ?thesis using Some Suc.prems(1)[of i a] by simp
  qed simp
qed simp

lemma handle_event_inv:
  assumes i: "events_inv hw m" and o: "list_ok old" and e: "env_ok env P l" "P \<notin> ran m" and b: "event_ok ev"
  obtains old' hw' m' where "handle_event env ev (old, hw) = Some (old', hw')" "events_inv hw' m'" "list_ok old'"
    "ran m' \<subseteq> insert P (ran m)"
proof -
  let ?i = "ev_eventId ev" and ?t = "ABwifi_hwpriv_to_vifpriv hw (unat (ev_if_id ev))"
  have p: "ce_mem env = None \<or> ce_mem env = Some P" and L: "list_ok l" using e(1) by (auto simp: env_ok_def)
  obtain fw t2 rs2 where r: "ce_more_rounds env = (t2, bus_exchange (ce_wsm env) fw) # rs2" "answers_list fw l"
    using e(1) by (auto simp: env_ok_def)
  have "length (ev_buffer ev) = 504" using b by (simp add: event_ok_def)
  then obtain a c d x y where rd: "rdn (ev_buffer ev) 0 6 = Some a" "read_connect_event (ev_buffer ev) 0 = Some c"
      "rdn (ev_buffer ev) 0 4 = Some d" "rdn (ev_buffer ev) 44 12 = Some x" "rd8 (ev_buffer ev) 0 = Some y"
    using read_event_ok by metis
  obtain hd md where D: "atbm_sta_disconnect_event a hw = Some hd" "events_inv hd md" "ran md \<subseteq> ran m" by (rule disconnect_inv[OF i])
  obtain hc mc where C: "atbm_sta_connect_event (ce_mem env) c hw = Some hc" "events_inv hc mc" "ran mc \<subseteq> insert P (ran m)"
    by (rule connect_inv[OF i p e(2)])
  obtain hm where M: "atbm_configure_wifi_mode env hw = Some hm" "events_inv hm m" by (rule mode_inv[OF i e(1)])
  obtain ha ma where A: "atbm_sta_add_event (ce_mem env) (ce_wsm env) (ce_more_rounds env) (val32 d) (old, hw) = Some (l, ha)"
    "events_inv ha ma" "ran ma \<subseteq> insert P (ran m)"
    unfolding r(1) by (rule add_event_inv[OF i p e(2) r(2) L o])
  obtain hl ml where S: "atbm_sta_loss_event (ce_wsm env) (ce_more_rounds env) (old, hw) = Some (l, hl)"
    "events_inv hl ml" "ran ml \<subseteq> ran m"
    unfolding r(1) by (rule loss_event_inv[OF i r(2) L o])
  have keep: "ran m \<subseteq> insert P (ran m)" by blast
  have "handle_event env ev (old, hw) = Some (old, hw)"
    if "(?i \<notin> set host_events \<and> ?t = None) \<or> ?i = WSM_EVENT_BSS_LOST \<and> ?t \<noteq> Some NL80211_IFTYPE_STATION \<or>
      \<not> (?i = WSM_EVENT_BSS_LOST \<or> ?i = WSM_EVENT_BSS_CONNECT \<or> ?i = WSM_EVENT_STA_ADD \<or> ?i = WSM_EVENT_STA_LOSS)"
    using that b rd by (auto simp: handle_event_def Let_def print_text_def event_ok_def)
  then consider "\<not> (?i \<notin> set host_events \<and> ?t = None) \<and> ?i = WSM_EVENT_BSS_LOST \<and> ?t = Some NL80211_IFTYPE_STATION"
    | "\<not> (?i \<notin> set host_events \<and> ?t = None) \<and> ?i = WSM_EVENT_BSS_CONNECT \<and> ?t = Some NL80211_IFTYPE_STATION"
    | "\<not> (?i \<notin> set host_events \<and> ?t = None) \<and> ?i = WSM_EVENT_BSS_CONNECT \<and> ?t \<noteq> Some NL80211_IFTYPE_STATION"
    | "\<not> (?i \<notin> set host_events \<and> ?t = None) \<and> ?i = WSM_EVENT_STA_ADD"
    | "\<not> (?i \<notin> set host_events \<and> ?t = None) \<and> ?i = WSM_EVENT_STA_LOSS"
    | "handle_event env ev (old, hw) = Some (old, hw)"
    by blast
  then show ?thesis
  proof cases
    case 1
    then show ?thesis using D rd o by (intro that[of old hd md]) (auto simp: handle_event_def Let_def)
  next
    case 2
    then show ?thesis using C rd o by (intro that[of old hc mc]) (auto simp: handle_event_def Let_def)
  next
    case 3
    then show ?thesis using M rd o keep by (intro that[of old hm m]) (auto simp: handle_event_def Let_def)
  next
    case 4
    then show ?thesis using A rd L by (intro that[of l ha ma]) (auto simp: handle_event_def Let_def)
  next
    case 5
    then show ?thesis using S L by (intro that[of l hl ml]) (auto simp: handle_event_def Let_def)
  next
    case 6
    then show ?thesis using i o keep by (rule that)
  qed
qed

lemma handle_events_inv:
  "events_inv hw m \<Longrightarrow> list_ok old \<Longrightarrow> (\<And>n. n < length evs \<Longrightarrow> env_ok (env n) (P n) (L n) \<and> P n \<notin> ran m) \<Longrightarrow> inj P \<Longrightarrow>
   (\<And>ev. ev \<in> set evs \<Longrightarrow> event_ok ev) \<Longrightarrow>
   \<exists>old' hw' m'. handle_events env evs (old, hw) = Some (old', hw') \<and> events_inv hw' m' \<and> list_ok old'"
proof (induction evs arbitrary: hw m old)
  case (Cons ev evs)
  have e: "env_ok (env (length evs)) (P (length evs)) (L (length evs))" "P (length evs) \<notin> ran m" using Cons.prems(3) by simp_all
  obtain old' hw' m' where h: "handle_event (env (length evs)) ev (old, hw) = Some (old', hw')" "events_inv hw' m'" "list_ok old'"
    "ran m' \<subseteq> insert (P (length evs)) (ran m)"
    by (rule handle_event_inv[OF Cons.prems(1,2) e]) (use Cons.prems(5) in auto)
  have "env_ok (env n) (P n) (L n) \<and> P n \<notin> ran m'" if "n < length evs" for n
    using Cons.prems(3)[of n] Cons.prems(4) that h(4) by (auto dest: injD)
  then show ?case using Cons.IH[OF h(2,3)] Cons.prems(4,5) h(1) by simp
qed auto

text \<open>C6. The events of the firmware keep the stations in order, under two conditions on the firmware that the
  driver does not check: every list of stations it sends counts at most the four stations the list has
  room for (list_ok, in env_ok), and the texts it sends to be printed end in the buffer of the event
  (event_ok).  Without them the handler reads outside (long_list_read_outside,
  unterminated_text_read_outside).  With them, whatever events are queued, in whatever order and with
  whatever other contents, and when the requests of the handler are answered, the handler comes to the
  end of the queue: no read leaves a buffer, no station is used after it is gone, the table is again the
  map the hash and the list agree on, and the command interface is idle.\<close>
theorem event_handler_keeps_stations:
  assumes "mac_ok (rp_mac (mac hw)) m" "hw_idle hw" "list_ok old" "inj P"
    "\<And>n. n < length (event_queue hw) \<Longrightarrow> env_ok (env n) (P n) (L n) \<and> P n \<notin> ran m"
    "\<And>ev. ev \<in> set (event_queue hw) \<Longrightarrow> event_ok ev"
  shows "\<exists>old' hw' m'. atbm_event_handler env (old, hw) = Some (old', hw') \<and> mac_ok (rp_mac (mac hw')) m' \<and>
    hw_idle hw' \<and> list_ok old' \<and> event_queue hw' = []"
proof -
  have "events_inv (hw\<lparr>event_queue := []\<rparr>) m" using assms(1,2) by (simp add: events_inv_def hw_idle_def wsm_idle_def)
  from handle_events_inv[where env = env and evs = "event_queue hw", OF this assms(3,5,4,6)]
  show ?thesis by (auto simp: atbm_event_handler_def events_inv_def)
qed


subsection \<open>Opening\<close>

lemma connectconfig_from_stack:
  assumes "hw_idle hw" "ce_config_rounds env = (t, bus_exchange (ce_wsm env) fw) # rs"
    "answers fw 0x0002 sizeof_getconfig_cnf data" "length data < sizeof_getconfig_cnf"
    "length (ce_config_stack env) = sizeof_getconfig_cnf" "ce_config_stack env ! 10 \<noteq> 0"
    "a = take 6 (drop 65 (ce_config_stack env))" "vif_type hw \<noteq> None" "ce_mem env = Some p"
    "mac_ok (rp_mac (mac hw)) m" "p \<notin> ran m" "m (vif_no (rp_vif (mac hw)), a) = None"
  shows "\<exists>hw'. atbm_get_connectconfig env hw = Some hw' \<and> lwip_enable hw' \<and> vif_connect_success (rp_vif (mac hw')) \<and>
    vif_bssid (rp_vif (mac hw')) = a \<and> sta_info_get (vif_no (rp_vif (mac hw'))) a (rp_mac (mac hw')) = Some (Some p) \<and>
    test_sta_flag p WLAN_STA_AUTHORIZED (rp_mac (mac hw')) = Some True \<and>
    wsm_idle hw' \<and> wb_room (wsm_cmd_buf hw') = wb_room (wsm_cmd_buf hw) \<and> lwip_queue_enable hw'"
proof -
  let ?b = "ce_config_stack env"
  have g: "(wsm_get_config :: rx_path request, 0x0002) \<in> set get_requests" by (simp add: get_requests_def)
  have an: "answers fw 0x0002 (length ?b) data" using assms(3,5) by simp
  obtain hc where c: "wsm_get_config (ce_wsm env) ((t, bus_exchange (ce_wsm env) fw) # rs) ?b hw
      = Some (if length ?b \<le> length data then 0 else - EINVAL, hc)" "hw_idle hc"
    "ret_buf hc = (if length ?b \<le> length data then take (length ?b) data else ?b)" "request_only hw hc"
    "wb_end (wsm_cmd_buf hc) = wb_end (wsm_cmd_buf hw)"
    by (rule get_answered[OF g assms(1) an])
  have k: "mac hc = mac hw" "vif_type hc = vif_type hw" using c(4) by (simp_all add: request_only_def)
  have b: "ret_buf hc = ?b" using c(3) assms(4,5) by simp
  have r10: "rd8 ?b 10 = Some (?b ! 10)" using assms(5) by (simp add: rd8_def)
  obtain ev where ev: "read_connect_event ?b 32 = Some ev" "he_bssid ev = a"
    using assms(5,7) by (simp add: read_connect_event_def rdn_def rd8_def)
  define h1 where "h1 = upd_hw_vif (\<lambda>v. v\<lparr>vif_connect_success := (?b ! 10 \<noteq> 0)\<rparr>) hc"
  have h1: "mac_ok (rp_mac (mac h1)) m" "m (vif_no (rp_vif (mac h1)), he_bssid ev) = None"
    using assms(10,12) by (simp_all add: h1_def k ev(2))
  obtain hw' where h: "atbm_sta_connect_event (Some p) ev h1 = Some hw'"
    "mac_ok (rp_mac (mac hw')) (m((vif_no (rp_vif (mac h1)), he_bssid ev) \<mapsto> p))"
    "test_sta_flag p WLAN_STA_AUTHORIZED (rp_mac (mac hw')) = Some True"
    "rp_vif (mac hw') = reset_pn ((rp_vif (mac h1))\<lparr>vif_enabled := True, vif_connect_success := True, vif_bssid := he_bssid ev,
       vif_ap_enc := he_crypto_pairwise ev \<noteq> 0,
       vif_group_key := if he_crypto_pairwise ev \<noteq> 0 then atbm_sta_key_config (vif_group_key (rp_vif (mac h1))) (he_crypto_group ev)
         else vif_group_key (rp_vif (mac h1))\<rparr>)" "lwip_enable hw'" "lwip_queue_enable hw'"
    "wsm_idle hw' = wsm_idle h1" "wsm_cmd_buf hw' = wsm_cmd_buf h1"
    by (rule connect_new_ok[OF h1(1) assms(11) h1(2)])
  have "atbm_get_connectconfig env hw = Some hw'"
    using c(1) b k(2) r10 ev(1) h(1) assms(2,6,8,9) by (simp add: atbm_get_connectconfig_def Let_def h1_def upd_hw_vif_def)
  moreover have "sta_rep (rp_mac (mac hw')) (m((vif_no (rp_vif (mac h1)), he_bssid ev) \<mapsto> p))" using h(2) by (simp add: mac_ok_def)
  moreover have "wsm_idle hw'" "wb_room (wsm_cmd_buf hw') = wb_room (wsm_cmd_buf hw)"
    using h(7,8) c(2,5) assms(1) by (auto simp: h1_def upd_hw_vif_def hw_idle_def wsm_idle_def wb_room_def)
  ultimately show ?thesis using h(3-6) sta_get_rep ev(2) by (intro exI[of _ hw']) (auto simp: reset_pn_def)
qed

text \<open>C22. Opening the interface connects to whatever the stack holds when the firmware's answer is short.  The
  request for the configuration returns -EINVAL and leaves the local structure alone, the driver does
  not look at the result: when the byte of the structure that says connected (bconnect, byte 10 of
  what the stack held) is not 0, atbm_open adds and authorises the station whose address the stack
  happens to hold, brings the link up and reports success.\<close>
theorem short_config_connects_from_stack:
  assumes "hw_idle hw" "ce_config_rounds env = (t, bus_exchange (ce_wsm env) fw) # rs"
    "answers fw 0x0002 sizeof_getconfig_cnf data" "length data < sizeof_getconfig_cnf"
    "length (ce_config_stack env) = sizeof_getconfig_cnf" "ce_config_stack env ! 10 \<noteq> 0"
    "a = take 6 (drop 65 (ce_config_stack env))" "vif_type hw \<noteq> None" "ce_mem env = Some p"
    "mac_ok (rp_mac (mac hw)) m" "p \<notin> ran m" "m (vif_no (rp_vif (mac hw)), a) = None"
    and filt: "ce_more_rounds env = (t2, bus_exchange (ce_wsm env) fw2) # rs2"
      "fw2 (wsm_message 0x0009 0 req) = (cnf_id 0x0009, wsm_answer cid (bytes32 st @ extra) rest)"
      "int (length req) \<le> wb_room (wsm_cmd_buf hw)" "length req + 8 < 2 ^ 16" "length extra + 8 < 2 ^ 16"
  shows "\<exists>hw'. atbm_open env req hw = Some (0, hw') \<and> lwip_enable hw' \<and> vif_connect_success (rp_vif (mac hw')) \<and>
    vif_bssid (rp_vif (mac hw')) = a \<and> sta_info_get (vif_no (rp_vif (mac hw'))) a (rp_mac (mac hw')) = Some (Some p) \<and>
    test_sta_flag p WLAN_STA_AUTHORIZED (rp_mac (mac hw')) = Some True"
proof -
  define h0 where "h0 = upd_hw_vif (\<lambda>v. v\<lparr>vif_enabled := True\<rparr>) hw"
  have 0: "hw_idle h0" "vif_type h0 \<noteq> None" "mac_ok (rp_mac (mac h0)) m" "m (vif_no (rp_vif (mac h0)), a) = None"
    "wb_room (wsm_cmd_buf h0) = wb_room (wsm_cmd_buf hw)"
    using assms(1,8,10,12) by (auto simp: h0_def upd_hw_vif_def upd_vif_def hw_idle_def wsm_idle_def)
  obtain h1 where h1: "atbm_get_connectconfig env h0 = Some h1" "lwip_enable h1" "vif_connect_success (rp_vif (mac h1))"
    "vif_bssid (rp_vif (mac h1)) = a" "sta_info_get (vif_no (rp_vif (mac h1))) a (rp_mac (mac h1)) = Some (Some p)"
    "test_sta_flag p WLAN_STA_AUTHORIZED (rp_mac (mac h1)) = Some True"
    "wsm_idle h1" "wb_room (wsm_cmd_buf h1) = wb_room (wsm_cmd_buf hw)"
    using connectconfig_from_stack[OF 0(1) assms(2-7) 0(2) assms(9) 0(3) assms(11) 0(4)] 0(5) by auto
  have f: "(wsm_set_tcp_filter :: rx_path request, 0x0009) \<in> set set_requests" by (simp add: set_requests_def)
  obtain h2 where h2: "wsm_set_tcp_filter (ce_wsm env) (ce_more_rounds env) req h1 = Some (if st = 0 then 0 else - EINVAL, h2)"
    "request_only h1 h2"
    unfolding filt(1) using set_request_ok[where f = wsm_set_tcp_filter and cmd = "0x0009" and hw = h1 and buffer = req
        and fw = fw2 and cid = cid and st = st and extra = extra and rest = rest and env = "ce_wsm env" and t = t2 and rs = rs2]
      f h1(7,8) filt(2-5) by auto
  have k: "mac h2 = mac h1" "lwip_enable h2 = lwip_enable h1" using h2(2) by (simp_all add: request_only_def)
  define h3 where "h3 = (netif_tx_start_all_queues (netif_carrier_on h2))\<lparr>tx_queue_overfull := False\<rparr>"
  have "atbm_open env req hw = Some (0, h3)"
    using h1(1,3) h2(1) k by (simp add: atbm_open_def h0_def[symmetric] atbm_set_tcp_port_filter_def h3_def)
  moreover have "lwip_enable h3" "rp_mac (mac h3) = rp_mac (mac h1)" "vif_no (rp_vif (mac h3)) = vif_no (rp_vif (mac h1))"
    "vif_connect_success (rp_vif (mac h3)) = vif_connect_success (rp_vif (mac h1))" "vif_bssid (rp_vif (mac h3)) = vif_bssid (rp_vif (mac h1))"
    using k by (simp_all add: h3_def netif_carrier_on_def netif_tx_start_all_queues_def upd_hw_vif_def upd_vif_def)
  ultimately show ?thesis using h1(3-6) by (intro exI[of _ h3]) simp
qed

subsection \<open>Witnesses\<close>

text \<open>An adapter without station, and one whose access point is station 3.\<close>

definition no_station :: adapter where
  "no_station = set_mac demo_mac (demo_adapter True)"

definition one_station :: "sk_buff list \<Rightarrow> adapter" where
  "one_station q = set_mac ((rp_mac (demo_rx_path True))\<lparr>sta_list := [3], num_sta := 1\<rparr>)
     (upd_hw_vif (\<lambda>v. v\<lparr>vif_skb_queue := q\<rparr>) (demo_adapter True))"

lemma no_station_ok: "mac_ok (rp_mac (mac no_station)) Map.empty" "hw_idle no_station" "event_queue no_station = []"
  "rp_vif (mac no_station) = demo_rx_vif" "vif_type no_station = Some NL80211_IFTYPE_STATION" "rp_delivered (mac no_station) = []"
  using demo_mac_inv demo_idle(1)
  by (simp_all add: no_station_def demo_adapter_def with_mac_def atbm_common.defs hw_idle_def wsm_idle_def demo_rx_path_def demo_hw_def
      set_mac_def upd_mac_def)

lemma one_station_ok: "mac_ok (rp_mac (mac (one_station q))) [(0, [2,0,0,0,0,7]) \<mapsto> 3]"
  "rp_vif (mac (one_station q)) = demo_rx_vif\<lparr>vif_skb_queue := q\<rparr>" "timer_inv (mac_timers (rp_mac (mac (one_station q)))) Map.empty"
  "sta_heap (rp_mac (mac (one_station q))) x = demo_ap True"
proof -
  let ?s = "(rp_mac (demo_rx_path True))\<lparr>sta_list := [3], num_sta := 1\<rparr>"
  have "sta_rep ?s [(0, [2,0,0,0,0,7]) \<mapsto> 3]"
    unfolding sta_rep_def table_rep_def
    by (rule exI[of _ "\<lambda>i. if i = 7 then [3] else []"])
      (auto simp: demo_rx_path_def buckets_def demo_ap_def demo_sta_def STA_HASH_def)
  moreover have "sta_wf (demo_ap True)" by (simp add: demo_ap_def demo_sta_def sta_wf_def)
  moreover have t: "timer_inv (mac_timers ?s) Map.empty" using demo_mac_ok(2) by (simp add: demo_rx_path_def)
  ultimately have "mac_ok ?s [(0, [2,0,0,0,0,7]) \<mapsto> 3]" by (auto simp: mac_ok_def demo_rx_path_def)
  then show "mac_ok (rp_mac (mac (one_station q))) [(0, [2,0,0,0,0,7]) \<mapsto> 3]" by (simp add: one_station_def)
  show "rp_vif (mac (one_station q)) = demo_rx_vif\<lparr>vif_skb_queue := q\<rparr>" "timer_inv (mac_timers (rp_mac (mac (one_station q)))) Map.empty"
    "sta_heap (rp_mac (mac (one_station q))) x = demo_ap True"
    using t by (simp_all add: one_station_def demo_adapter_ok(1)) (simp_all add: demo_rx_path_def)
qed

definition demo_connect :: connect_event where
  "demo_connect = \<lparr>he_bssid = [2,0,0,0,0,7], he_crypto_pairwise = 4, he_crypto_group = 4, he_bgnMode = 0, he_connect_flag = 1\<rparr>"

definition demo_wsm :: "rx_path wsm_env" where
  "demo_wsm = \<lparr>env_alloc = demo_alloc, env_kz = Some 4096, env_rx_cb = (\<lambda>_ skb hw. Some (Some skb, hw))\<rparr>"

theorem connect_opens_path_witness:
  "\<exists>hw' s'. atbm_sta_connect_event (Some 3) demo_connect no_station = Some hw' \<and>
    atbm_rx_cb demo_rx_env (demo_arg 0) (demo_ap_frame (ccmp_body 1 6)) (mac hw') = Some (None, s') \<and>
    rp_delivered s' = [[2,0,0,0,0,9] @ [2,0,0,0,0,8] @ [8, 0] @ [0x45]]"
proof -
  have v: "skb_view (demo_ap_frame (ccmp_body 1 6)) [] (ap_header QOS_FROMDS_PROTECTED [0,0] [2,0,0,0,0,9] (he_bssid demo_connect) [2,0,0,0,0,8] [0x10,0]
      @ [0, 0] @ [6,0,0,0x20,1,0,0,0] @ rfc1042_header @ [8, 0] @ [0x45] @ replicate 8 0) []"
    using demo_ccmp_frame[of 1 6] by (simp add: demo_connect_def)
  have q: "(0 :: u8) AND IEEE80211_QOS_CONTROL_A_MSDU_PRESENT = 0" by simp
  have e: "he_crypto_pairwise demo_connect = ATBM_WLAN_CIPHER_SUITE_CCMP" "length (he_bssid demo_connect) = 6" by (simp_all add: demo_connect_def)
  from connect_opens_path[OF no_station_ok(1) _ _ e(1) v _ _ e(2) _ _ _ _ _ _ demo_ap_frame_ok(2) q demo_snap, of 3 "demo_arg 0" demo_rx_env]
  show ?thesis by (auto simp: no_station_ok demo_rx_vif_def demo_path_ok(3) demo_arg_def rfc1042_header_def)
qed

theorem repeated_connect_changes_nothing_witness:
  "\<exists>hw'. atbm_sta_connect_event (Some 4) demo_connect (one_station []) = Some hw' \<and> sta_freed (rp_mac (mac hw')) = [4] \<and>
    ptk_pn (rp_vif (mac hw')) = [0,0,0,1,0,5]"
proof -
  have k: "[(0, [2,0,0,0,0,7]) \<mapsto> 3] (vif_no (rp_vif (mac (one_station []))), he_bssid demo_connect) = Some 3"
    by (simp add: one_station_ok(2) demo_rx_vif_def demo_connect_def)
  have f: "sta_freed (rp_mac (mac (one_station []))) = []"
    by (simp add: one_station_def demo_rx_path_def demo_mac_def)
  have n: "(4 :: nat) \<notin> ran [(0, [2,0,0,0,0,7 :: u8]) \<mapsto> 3]" by simp
  have pn: "ptk_pn (rp_vif (mac (one_station []))) = [0,0,0,1,0,5]" by (simp add: one_station_ok(2) demo_rx_vif_def)
  show ?thesis using repeated_connect_changes_nothing[OF one_station_ok(1) n k] by (metis f pn append_Nil)
qed

definition two_listed :: bytes where
  "two_listed = [0,0,0,0,2,0,0,0] @ [2,0,0,0,0,1] @ [2,0,0,0,0,2] @ replicate 12 0"

definition demo_fw :: "bytes \<Rightarrow> u16 \<times> bytes" where
  "demo_fw = (\<lambda>_. (cnf_id 0x12, wsm_answer (cnf_id 0x12) two_listed []))"

lemma two_listed_ok: "list_ok two_listed" "list_ok (replicate 32 0)" "answers_list demo_fw two_listed"
  "listed two_listed = [[2,0,0,0,0,1], [2,0,0,0,0,2]]" "listed (replicate 32 0) = []"
proof -
  show l: "list_ok two_listed" "list_ok (replicate 32 0)" by (simp_all add: list_ok_def two_listed_def sta_cnt_def)
  then show "answers_list demo_fw two_listed" by (auto simp: answers_list_def demo_fw_def list_ok_def)
  show "listed two_listed = [[2,0,0,0,0,1], [2,0,0,0,0,2]]" "listed (replicate 32 0) = []"
    by code_simp+
qed

theorem second_join_is_lost_witness:
  "\<exists>hw1 hw2. atbm_sta_add_event (Some 3) demo_wsm [(0, bus_exchange demo_wsm demo_fw)] 1 (replicate 32 0, no_station) = Some (two_listed, hw1) \<and>
    atbm_sta_add_event (Some 4) demo_wsm [(0, bus_exchange demo_wsm demo_fw)] 2 (two_listed, hw1) = Some (two_listed, hw2) \<and>
    sta_info_get 0 [2,0,0,0,0,2] (rp_mac (mac hw2)) = Some None"
proof -
  have l: "length (replicate 32 (0 :: u8)) = 32" "sta_cnt two_listed \<le> 4" "sta_cnt (replicate 32 0) \<le> 4"
    using two_listed_ok(1,2) by (simp_all add: list_ok_def)
  have f: "find (\<lambda>a. a \<notin> set (listed (replicate 32 0))) (listed two_listed) = Some [2,0,0,0,0,1]"
    "[2,0,0,0,0,2] \<in> set (listed two_listed)" "[2,0,0,0,0,2] \<noteq> [2,0,0,0,0,1 :: u8]"
    by (simp_all add: two_listed_ok)
  from second_join_is_lost[OF no_station_ok(2) two_listed_ok(3) l f no_station_ok(1), of 3 demo_wsm 0 "[]" 1 "Some 4" 0 "[]" 2]
  show ?thesis by (auto simp: no_station_ok demo_rx_vif_def)
qed

definition demo_response :: sk_buff where
  "demo_response = mk_skb 5 [] (mgmt_frame 0x10 [0,0] [2,0,0,0,0,9] [2,0,0,0,0,66] [2,0,0,0,0,7] [0,0] @ [0,0] @ [0,0] @ [0,0] @ []) []"

definition demo_work :: work_env where
  "demo_work = \<lparr>we_addba = demo_addba_alloc, we_vstart = (\<lambda>_. (9, [])), we_jiffies = (0, 0, 0), we_kz = None\<rparr>"

lemma one_station_queue: "vif_enabled (rp_vif (mac (one_station [f])))" "vif_skb_queue (rp_vif (mac (one_station [f]))) = [f]"
  "vif_iftype (rp_vif (mac (one_station [f]))) = NL80211_IFTYPE_STATION"
  "[(0, [2,0,0,0,0,7]) \<mapsto> 3] (vif_no (rp_vif (mac (one_station [f]))), [2,0,0,0,0,7]) = Some 3"
  by (simp_all add: one_station_ok(2) demo_rx_vif_def)

theorem forged_response_authorises_witness:
  "\<exists>hw'. ieee80211_iface_work (\<lambda>x. x) (\<lambda>_. demo_work) (one_station [demo_response]) = Some hw' \<and> lwip_enable hw' \<and>
    test_sta_flag 3 WLAN_STA_AUTHORIZED (rp_mac (mac hw')) = Some True"
proof -
  have v: "skb_view demo_response [] (mgmt_frame 0x10 [0,0] [2,0,0,0,0,9] [2,0,0,0,0,66] [2,0,0,0,0,7] [0,0] @ [0,0] @ [0,0] @ [0,0] @ []) []"
    unfolding demo_response_def by (rule mk_skb_ok(1)) (simp add: mgmt_frame_def bytes16_def)
  show ?thesis
    using forged_response_authorises[OF v _ _ _ _ _ one_station_queue(1-3) one_station_ok(1) one_station_queue(4), of "\<lambda>x. x" "\<lambda>_. demo_work"]
    by auto
qed

definition demo_request :: sk_buff where
  "demo_request = mk_skb 5 [] (mgmt_frame 0xd0 [0,0] [2,0,0,0,0,9] [2,0,0,0,0,7] [2,0,0,0,0,7] [0,0] @ [3, 0] @ [9, 0x16, 0x10, 0, 0, 0x20, 1]) []"

theorem queued_addba_opens_session_witness:
  "\<exists>hw' a. ieee80211_iface_work (\<lambda>x. x) (\<lambda>_. demo_work) (one_station [demo_request]) = Some hw' \<and>
    session_of (rp_mac (mac hw')) 3 5 = Some a \<and> buf_size (agg_rx a) = 64 \<and> head_seq_num (agg_rx a) = 18"
proof -
  let ?b = "mgmt_frame 0xd0 [0,0] [2,0,0,0,0,9] [2,0,0,0,0,7] [2,0,0,0,0,7] [0,0] @ [3, 0] @ [9, 0x16, 0x10, 0, 0, 0x20, 1]"
  have v: "skb_view demo_request [] ?b []"
    unfolding demo_request_def by (rule mk_skb_ok(1)) (simp add: mgmt_frame_def bytes16_def)
  have fr: "addba_frame (?b @ []) 9 0x1016 0 0x120"
    by (simp add: addba_frame_def mgmt_frame_def bytes16_def rd8_def rd16_def le16_def)
  have acc: "addba_check (sta_blocked (rp_mac (mac (one_station [demo_request]))) 3) (ht_cap (sta_heap (rp_mac (mac (one_station [demo_request]))) 3)) 0x1016
      = Addba_accept 64"
    using demo_addba_check by (simp add: one_station_ok(4) sta_blocked_def demo_ap_def demo_sta_def bit_of_def bit_word_def)
  have w: "alloc_session (we_addba demo_work) = Some (100, 200)" "alloc_buf (we_addba demo_work)" "alloc_time (we_addba demo_work)"
    "calm (we_vstart demo_work) Map.empty"
    using demo_alloc_ok' demo_calm by (simp_all add: demo_work_def)
  show ?thesis
    using queued_addba_opens_session[OF v _ _ _ _ _ fr one_station_queue(1,2) one_station_ok(1) one_station_queue(4) one_station_ok(3)
        w(1-3) _ _ _ w(4) acc, of "\<lambda>x. x"]
    by (auto simp: demo_tid)
qed

text \<open>A firmware that answers every request with two stations, which is too short for the configuration.\<close>

definition short_fw :: "bytes \<Rightarrow> u16 \<times> bytes" where
  "short_fw bs = (let c = ucast (bs ! 6) in (cnf_id c, wsm_answer (cnf_id c) two_listed []))"

lemma short_fw_ok: "answers_list short_fw two_listed" "answers short_fw 0x0002 164 two_listed" "answers short_fw 0x0021 112 two_listed"
proof -
  have l: "length two_listed = 32" by (simp add: two_listed_def)
  have i: "wsm_message 0x12 0 (bytes16 32) ! 6 = 0x12" "wsm_message 0x0002 0 (bytes16 (of_nat 164)) ! 6 = 2"
    "wsm_message 0x0021 0 (bytes16 (of_nat 112)) ! 6 = 0x21"
    by (simp_all add: wsm_message_def bytes16_def real_if_id_def nth_Cons' lo8_def)
  show "answers_list short_fw two_listed" using l i(1) by (auto simp: answers_list_def short_fw_def)
  show "answers short_fw 0x0002 164 two_listed" "answers short_fw 0x0021 112 two_listed"
    using l i(2,3) by (auto simp: answers_def short_fw_def)
qed

definition demo_event :: "u32 \<Rightarrow> atbm_wsm_event" where
  "demo_event i = \<lparr>ev_eventId = i, ev_buffer = replicate 504 0, ev_if_id = 0\<rparr>"

definition demo_cfg_env :: "nat \<Rightarrow> cfg_env" where
  "demo_cfg_env n = \<lparr>ce_wsm = demo_wsm, ce_config_rounds = [(0, bus_exchange demo_wsm short_fw)], ce_config_stack = replicate 164 1,
     ce_more_rounds = [(0, bus_exchange demo_wsm short_fw)], ce_more_stack = replicate 112 1, ce_mem = Some (n + 4)\<rparr>"

theorem event_handler_keeps_stations_witness:
  "\<exists>old' hw' m'. atbm_event_handler demo_cfg_env (replicate 32 0, no_station\<lparr>event_queue := map demo_event [1, 4, 8, 5, 15, 2]\<rparr>) = Some (old', hw') \<and>
    mac_ok (rp_mac (mac hw')) m' \<and> event_queue hw' = []"
proof -
  let ?hw = "no_station\<lparr>event_queue := map demo_event [1, 4, 8, 5, 15, 2]\<rparr>"
  have h: "mac_ok (rp_mac (mac ?hw)) Map.empty" "hw_idle ?hw" "inj (\<lambda>n. n + 4 :: nat)"
    using no_station_ok(1,2) by (simp_all add: hw_idle_def wsm_idle_def)
  have e: "env_ok (demo_cfg_env n) (n + 4) two_listed" for n
    unfolding env_ok_def using short_fw_ok two_listed_ok(1) by (auto simp: demo_cfg_env_def)
  have b: "event_ok ev" if "ev \<in> set (event_queue ?hw)" for ev
    using that by (auto simp: demo_event_def event_ok_def)
  show ?thesis
    using event_handler_keeps_stations[where hw = ?hw and env = demo_cfg_env and L = "\<lambda>_. two_listed", OF h(1,2) two_listed_ok(2) h(3)] e b by auto
qed

definition demo_open_env :: cfg_env where
  "demo_open_env = (demo_cfg_env 0)\<lparr>ce_more_rounds := [(0, bus_exchange demo_wsm (\<lambda>_. (0x409, wsm_answer 0x409 (bytes32 0) [])))]\<rparr>"

theorem short_config_connects_from_stack_witness:
  "\<exists>hw'. atbm_open demo_open_env [] no_station = Some (0, hw') \<and> lwip_enable hw' \<and> vif_bssid (rp_vif (mac hw')) = replicate 6 1"
proof -
  let ?e = demo_open_env
  have r: "ce_config_rounds ?e = (0, bus_exchange (ce_wsm ?e) short_fw) # []"
    "ce_more_rounds ?e = (0, bus_exchange (ce_wsm ?e) (\<lambda>_. (0x409, wsm_answer 0x409 (bytes32 0) []))) # []"
    by (simp_all add: demo_open_env_def demo_cfg_env_def)
  have "wb_ready (wsm_cmd_buf no_station)" "wb_data (wsm_cmd_buf no_station) = 8" "10 \<le> wb_end (wsm_cmd_buf no_station)"
    using no_station_ok(2) by (simp_all add: hw_idle_def wsm_idle_def)
  then have w: "int (length []) \<le> wb_room (wsm_cmd_buf no_station)" by (simp add: wb_room_def)
  have f: "(\<lambda>_. (0x409, wsm_answer 0x409 (bytes32 0) [])) (wsm_message 0x0009 0 []) = (cnf_id 0x0009, wsm_answer 0x409 (bytes32 0 @ []) [])"
    by (simp add: cnf_id_def)
  show ?thesis
    using short_config_connects_from_stack[OF no_station_ok(2) r(1) short_fw_ok(2) _ _ _ refl _ _ no_station_ok(1) _ _ r(2) f w, where p = 4]
      no_station_ok(5)
    by (auto simp: demo_open_env_def demo_cfg_env_def two_listed_def)
qed

end
