(* ===== verification/Ie_Parse.thy ===== *)
theory Ie_Parse
  imports Skbuf
begin

text \<open>The parser of information elements (hal_apollo/util.c) and the CRC of os/ankai_V330/atbm_os_misc.c.

  b is the memory the elements lie in, a pointer an offset in it.  struct ieee802_atbm_11_elems is a table
  of pointers and lengths: ie_ptr and ie_len give the members of the field, an absent pointer is NULL.  hs20, which
  nothing sets, is left out.  The remaining length is not below 0, the code tests before it
  subtracts.\<close>

subsection \<open>The CRC\<close>

abbreviation (input) CRCPOLY_BE :: u32 where "CRCPOLY_BE \<equiv> 0x04c11db7"

fun crc32_bits :: "nat \<Rightarrow> u32 \<Rightarrow> u32" where
  "crc32_bits 0 crc = crc"
| "crc32_bits (Suc n) crc = crc32_bits n (push_bit 1 crc XOR (if crc AND 0x80000000 \<noteq> 0 then CRCPOLY_BE else 0))"

fun crc32_be :: "u32 \<Rightarrow> bytes \<Rightarrow> u32" where
  "crc32_be crc [] = crc"
| "crc32_be crc (p # ps) = crc32_be (crc32_bits 8 (crc XOR push_bit 24 (ucast p))) ps"

subsection \<open>The table of elements\<close>

datatype ie_field = IE_ssid | IE_supp_rates | IE_fh_params | IE_ds_params | IE_cf_params | IE_tim | IE_ibss_params
  | IE_challenge | IE_wpa | IE_rsn | IE_erp_info | IE_ext_supp_rates | IE_wmm_info | IE_wmm_param | IE_p2p_ie | IE_wfd
  | IE_ht_cap_elem | IE_ht_info_elem | IE_mesh_config | IE_mesh_id | IE_peering | IE_preq | IE_prep | IE_perr | IE_rann
  | IE_ch_switch_elem | IE_country_elem | IE_pwr_constr_elem | IE_quiet_elem | IE_timeout_int | IE_wps_ie
  | IE_extended_ch_switch_elem | IE_secondary_ch_elem | IE_atbm_special

record ieee802_atbm_11_elems =
  ie_start :: int
  ie_total_len :: nat
  ie_ptr :: "ie_field \<Rightarrow> int option"
  ie_len :: "ie_field \<Rightarrow> u8"
  num_of_quiet_elem :: u8

definition no_elems :: "int \<Rightarrow> nat \<Rightarrow> ieee802_atbm_11_elems" where
  "no_elems start len = \<lparr>ie_start = start, ie_total_len = len, ie_ptr = (\<lambda>_. None), ie_len = (\<lambda>_. 0), num_of_quiet_elem = 0\<rparr>"

definition set_ptr :: "ie_field \<Rightarrow> int \<Rightarrow> ieee802_atbm_11_elems \<Rightarrow> ieee802_atbm_11_elems" where
  "set_ptr f pos e = e\<lparr>ie_ptr := (ie_ptr e)(f := Some pos)\<rparr>"

definition set_ie :: "ie_field \<Rightarrow> int \<Rightarrow> u8 \<Rightarrow> ieee802_atbm_11_elems \<Rightarrow> ieee802_atbm_11_elems" where
  "set_ie f pos elen e = (set_ptr f pos e)\<lparr>ie_len := (ie_len e)(f := elen)\<rparr>"

subsection \<open>Vendor specific elements\<close>

abbreviation (input) ATBM_OUI_MICROSOFT :: u32 where "ATBM_OUI_MICROSOFT \<equiv> 0x0050f2"
abbreviation (input) ATBM_OUI_WFA :: u32 where "ATBM_OUI_WFA \<equiv> 0x506f9a"

definition ATBM_WPA_GET_BE24 :: "u8 \<Rightarrow> u8 \<Rightarrow> u8 \<Rightarrow> u32" where
  "ATBM_WPA_GET_BE24 a0 a1 a2 = push_bit 16 (ucast a0) OR push_bit 8 (ucast a1) OR ucast a2"

definition ieee802_11_parse_vendor_specific ::
    "bytes \<Rightarrow> int \<Rightarrow> u8 \<Rightarrow> ieee802_atbm_11_elems \<Rightarrow> (int \<times> ieee802_atbm_11_elems) option" where
  "ieee802_11_parse_vendor_specific b pos elen e =
     (if elen < 4 then Some (-1, e)
      else do {
        a0 \<leftarrow> rd8 b pos;
        a1 \<leftarrow> rd8 b (pos + 1);
        a2 \<leftarrow> rd8 b (pos + 2);
        t \<leftarrow> rd8 b (pos + 3);
        let oui = ATBM_WPA_GET_BE24 a0 a1 a2;
        if oui = ATBM_OUI_MICROSOFT then
          (if t = 1 then Some (0, set_ie IE_wpa pos elen e)
           else if t = 2 then
             (if elen < 5 then Some (-1, e)
              else do {
                st \<leftarrow> rd8 b (pos + 4);
                if st = 0 then Some (0, set_ie IE_wmm_info pos elen e)
                else if st = 1 then Some (0, set_ie IE_wmm_param pos elen e)
                else Some (-1, e) })
           else if t = 4 then Some (0, set_ie IE_wps_ie pos elen e)
           else Some (-1, e))
        else if oui = ATBM_OUI_WFA then
          (if t = 9 then Some (0, set_ie IE_p2p_ie pos elen e)
           else if t = 10 then Some (0, set_ie IE_wfd pos elen e)
           else Some (-1, e))
        else Some (-1, e) })"

subsection \<open>The switch over the identifiers\<close>

text \<open>An element without its own length member is only taken when it is long enough for its structure.  The
  case of the secondary channel runs on into the one of the private element.\<close>

definition parse_element :: "bytes \<Rightarrow> u8 \<Rightarrow> int \<Rightarrow> u8 \<Rightarrow> ieee802_atbm_11_elems \<Rightarrow> ieee802_atbm_11_elems option" where
  "parse_element b eid pos elen e =
     (if eid = 0 then Some (set_ie IE_ssid pos elen e)
      else if eid = 1 then Some (set_ie IE_supp_rates pos elen e)
      else if eid = 2 then Some (set_ie IE_fh_params pos elen e)
      else if eid = 3 then Some (set_ie IE_ds_params pos elen e)
      else if eid = 4 then Some (set_ie IE_cf_params pos elen e)
      else if eid = 5 then Some (if elen \<ge> 4 then set_ie IE_tim pos elen e else e)
      else if eid = 6 then Some (set_ie IE_ibss_params pos elen e)
      else if eid = 16 then Some (set_ie IE_challenge pos elen e)
      else if eid = 221 then map_option snd (ieee802_11_parse_vendor_specific b pos elen e)
      else if eid = 48 then Some (set_ie IE_rsn pos elen e)
      else if eid = 42 then Some (set_ie IE_erp_info pos elen e)
      else if eid = 50 then Some (set_ie IE_ext_supp_rates pos elen e)
      else if eid = 45 then Some (if elen \<ge> 26 then set_ptr IE_ht_cap_elem pos e else e)
      else if eid = 61 then Some (if elen \<ge> 22 then set_ptr IE_ht_info_elem pos e else e)
      else if eid = 114 then Some (set_ie IE_mesh_id pos elen e)
      else if eid = 113 then Some (if elen \<ge> 7 then set_ptr IE_mesh_config pos e else e)
      else if eid = 117 then Some (set_ie IE_peering pos elen e)
      else if eid = 130 then Some (set_ie IE_preq pos elen e)
      else if eid = 131 then Some (set_ie IE_prep pos elen e)
      else if eid = 132 then Some (set_ie IE_perr pos elen e)
      else if eid = 126 then Some (if elen \<ge> 21 then set_ptr IE_rann pos e else e)
      else if eid = 37 then Some (set_ie IE_ch_switch_elem pos elen e)
      else if eid = 40 then
        (let e = (if ie_ptr e IE_quiet_elem = None then set_ie IE_quiet_elem pos elen e else e)
         in Some (e\<lparr>num_of_quiet_elem := num_of_quiet_elem e + 1\<rparr>))
      else if eid = 7 then Some (set_ie IE_country_elem pos elen e)
      else if eid = 32 then Some (set_ie IE_pwr_constr_elem pos elen e)
      else if eid = 56 then Some (set_ie IE_timeout_int pos elen e)
      else if eid = 60 then Some (set_ie IE_extended_ch_switch_elem pos elen e)
      else if eid = 62 then Some (set_ie IE_atbm_special pos elen (set_ie IE_secondary_ch_elem pos elen e))
      else if eid = 233 then Some (set_ie IE_atbm_special pos elen e)
      else Some e)"

subsection \<open>The loop\<close>

definition element_crc :: "64 word \<Rightarrow> bytes \<Rightarrow> u8 \<Rightarrow> int \<Rightarrow> u8 \<Rightarrow> u32 \<Rightarrow> u32 option" where
  "element_crc filt b eid pos elen crc =
     (if filt \<noteq> 0 \<and> eid < 64 \<and> filt AND push_bit (unat eid) 1 \<noteq> 0
      then map_option (crc32_be crc) (rdn b (pos - 2) (unat elen + 2)) else Some crc)"

function parse_loop ::
    "64 word \<Rightarrow> bytes \<Rightarrow> int \<Rightarrow> nat \<Rightarrow> ieee802_atbm_11_elems \<Rightarrow> u32 \<Rightarrow> (ieee802_atbm_11_elems \<times> u32) option" where
  "parse_loop filt b pos left e crc =
     (if left < 2 then Some (e, crc)
      else do {
        eid \<leftarrow> rd8 b pos;
        elen \<leftarrow> rd8 b (pos + 1);
        let pos = pos + 2;
        let left = left - 2;
        if unat elen > left then Some (e, crc)
        else do {
          crc \<leftarrow> element_crc filt b eid pos elen crc;
          e \<leftarrow> parse_element b eid pos elen e;
          parse_loop filt b (pos + int (unat elen)) (left - unat elen) e crc } })"
  by pat_completeness auto
termination by (relation "measure (\<lambda>(filt, b, pos, left, e, crc). left)") auto

declare parse_loop.simps [simp del]

definition atbm_ieee802_11_parse_elems_crc ::
    "bytes \<Rightarrow> int \<Rightarrow> nat \<Rightarrow> 64 word \<Rightarrow> u32 \<Rightarrow> (ieee802_atbm_11_elems \<times> u32) option" where
  "atbm_ieee802_11_parse_elems_crc b start len filt crc = parse_loop filt b start len (no_elems start len) crc"

definition ieee802_11_parse_elems :: "bytes \<Rightarrow> int \<Rightarrow> nat \<Rightarrow> ieee802_atbm_11_elems option" where
  "ieee802_11_parse_elems b start len = map_option fst (atbm_ieee802_11_parse_elems_crc b start len 0 0)"

end
