(* ===== verification/Ie_Props.thy ===== *)
theory Ie_Props
  imports Ie_Parse
begin

text \<open>What the parser of information elements finds: it is compared with the list of elements the bytes
  hold and a table that says which identifier belongs to which member.\<close>

subsection \<open>The elements of a byte string\<close>

fun tlvs :: "int \<Rightarrow> bytes \<Rightarrow> (int \<times> u8 \<times> bytes) list" where
  "tlvs i (x # n # r) = (if unat n \<le> length r
     then (i + 2, x, take (unat n) r) # tlvs (i + 2 + int (unat n)) (drop (unat n) r) else [])"
| "tlvs i _ = []"

text \<open>Identifier, least length, members.\<close>

definition ie_table :: "(u8 \<times> nat \<times> ie_field list) list" where
  "ie_table = [(0, 0, [IE_ssid]), (1, 0, [IE_supp_rates]), (2, 0, [IE_fh_params]), (3, 0, [IE_ds_params]), (4, 0, [IE_cf_params]),
     (5, 4, [IE_tim]), (6, 0, [IE_ibss_params]), (16, 0, [IE_challenge]), (48, 0, [IE_rsn]), (42, 0, [IE_erp_info]),
     (50, 0, [IE_ext_supp_rates]), (45, 26, [IE_ht_cap_elem]), (61, 22, [IE_ht_info_elem]), (114, 0, [IE_mesh_id]),
     (113, 7, [IE_mesh_config]), (117, 0, [IE_peering]), (130, 0, [IE_preq]), (131, 0, [IE_prep]), (132, 0, [IE_perr]),
     (126, 21, [IE_rann]), (37, 0, [IE_ch_switch_elem]), (40, 0, [IE_quiet_elem]), (7, 0, [IE_country_elem]),
     (32, 0, [IE_pwr_constr_elem]), (56, 0, [IE_timeout_int]), (60, 0, [IE_extended_ch_switch_elem]),
     (62, 0, [IE_secondary_ch_elem, IE_atbm_special]), (233, 0, [IE_atbm_special])]"

definition vendor_fields :: "bytes \<Rightarrow> ie_field list" where
  "vendor_fields v =
     (if length v < 4 then []
      else if take 3 v = [0x00, 0x50, 0xf2] then
        (if v ! 3 = 1 then [IE_wpa] else if v ! 3 = 4 then [IE_wps_ie]
         else if v ! 3 = 2 \<and> 5 \<le> length v \<and> v ! 4 = 0 then [IE_wmm_info]
         else if v ! 3 = 2 \<and> 5 \<le> length v \<and> v ! 4 = 1 then [IE_wmm_param] else [])
      else if take 3 v = [0x50, 0x6f, 0x9a] then
        (if v ! 3 = 9 then [IE_p2p_ie] else if v ! 3 = 10 then [IE_wfd] else [])
      else [])"

definition fields_of :: "u8 \<Rightarrow> bytes \<Rightarrow> ie_field list" where
  "fields_of x v = (if x = 221 then vendor_fields v
     else case map_of ie_table x of None \<Rightarrow> [] | Some (n, fs) \<Rightarrow> if n \<le> length v then fs else [])"

definition own_len :: "ie_field \<Rightarrow> bool" where
  "own_len f \<longleftrightarrow> f \<notin> {IE_ht_cap_elem, IE_ht_info_elem, IE_mesh_config, IE_rann}"

definition set_field :: "int \<Rightarrow> u8 \<Rightarrow> ie_field \<Rightarrow> ieee802_atbm_11_elems \<Rightarrow> ieee802_atbm_11_elems" where
  "set_field pos elen f e = (if own_len f then set_ie f pos elen e else set_ptr f pos e)"

definition take_element :: "int \<times> u8 \<times> bytes \<Rightarrow> ieee802_atbm_11_elems \<Rightarrow> ieee802_atbm_11_elems" where
  "take_element el e = (case el of (pos, x, v) \<Rightarrow>
     if x = 40
     then (if ie_ptr e IE_quiet_elem = None then set_ie IE_quiet_elem pos (of_nat (length v)) e else e)
       \<lparr>num_of_quiet_elem := num_of_quiet_elem e + 1\<rparr>
     else fold (set_field pos (of_nat (length v))) (fields_of x v) e)"

lemma num_quiet_set [simp]: "num_of_quiet_elem (set_ie f p n e) = num_of_quiet_elem e" "num_of_quiet_elem (set_ptr f p e) = num_of_quiet_elem e"
  by (simp_all add: set_ie_def set_ptr_def)

lemma be24: "ATBM_WPA_GET_BE24 a b c = ATBM_WPA_GET_BE24 a' b' c' \<longleftrightarrow> a = a' \<and> b = b' \<and> c = c'"
proof -
  have "ucast (ATBM_WPA_GET_BE24 a b c) = c" "ucast (drop_bit 8 (ATBM_WPA_GET_BE24 a b c)) = b"
    "ucast (drop_bit 16 (ATBM_WPA_GET_BE24 a b c)) = a" for a b c
    by (rule bit_word_eqI; auto simp: ATBM_WPA_GET_BE24_def bit_simps dest: bit_imp_le_length)+
  then show ?thesis by metis
qed

lemma be24_vendors:
  "ATBM_WPA_GET_BE24 a b c = ATBM_OUI_MICROSOFT \<longleftrightarrow> a = 0 \<and> b = 0x50 \<and> c = 0xf2"
  "ATBM_WPA_GET_BE24 a b c = ATBM_OUI_WFA \<longleftrightarrow> a = 0x50 \<and> b = 0x6f \<and> c = 0x9a"
proof -
  have "(ATBM_OUI_MICROSOFT :: u32) = ATBM_WPA_GET_BE24 0 0x50 0xf2" "(ATBM_OUI_WFA :: u32) = ATBM_WPA_GET_BE24 0x50 0x6f 0x9a"
    by (simp_all add: ATBM_WPA_GET_BE24_def)
  then show "ATBM_WPA_GET_BE24 a b c = ATBM_OUI_MICROSOFT \<longleftrightarrow> a = 0 \<and> b = 0x50 \<and> c = 0xf2"
    "ATBM_WPA_GET_BE24 a b c = ATBM_OUI_WFA \<longleftrightarrow> a = 0x50 \<and> b = 0x6f \<and> c = 0x9a"
    by (simp_all only: be24)
qed

lemma rdn_rd8: "rdn b p n = Some v \<Longrightarrow> i < n \<Longrightarrow> rd8 b (p + int i) = Some (v ! i)"
  by (auto simp: rdn_def rd8_def nat_add_distrib split: if_splits)

lemma rdn_len: "rdn b p n = Some v \<Longrightarrow> length v = n"
  by (auto simp: rdn_def split: if_splits)

lemma take3: "3 \<le> length v \<Longrightarrow> take 3 v = [v ! 0, v ! 1, v ! 2]"
  by (auto simp: numeral_3_eq_3 numeral_2_eq_2 Suc_le_length_iff)

lemma vendor_ok:
  assumes "rdn b p (unat n) = Some v"
  shows "map_option snd (ieee802_11_parse_vendor_specific b p n e) = Some (fold (set_field p n) (vendor_fields v) e)"
proof (cases "n < 4")
  case True
  then show ?thesis using rdn_len[OF assms]
    by (simp add: ieee802_11_parse_vendor_specific_def vendor_fields_def word_less_nat_alt)
next
  case False
  then have n: "4 \<le> unat n" by (simp add: word_less_nat_alt)
  note r = rdn_rd8[OF assms, of 0, simplified] rdn_rd8[OF assms, of 1, simplified] rdn_rd8[OF assms, of 2, simplified]
    rdn_rd8[OF assms, of 3, simplified] rdn_rd8[OF assms, of 4, simplified]
  have l: "length v = unat n" by (rule rdn_len[OF assms])
  have t: "take 3 v = [v ! 0, v ! 1, v ! 2]" using n l by (intro take3) simp
  show ?thesis
    using r False n l
    by (auto simp: ieee802_11_parse_vendor_specific_def vendor_fields_def Let_def be24_vendors t set_field_def own_len_def
        word_less_nat_alt)
qed

lemma parse_element_ok:
  assumes "rdn b p (unat n) = Some v"
  shows "parse_element b x p n e = Some (take_element (p, x, v) e)"
proof -
  have l: "length v = unat n" by (rule rdn_len[OF assms])
  show ?thesis
  proof (cases "x = 221")
    case True
    then show ?thesis using vendor_ok[OF assms] l by (simp add: parse_element_def take_element_def fields_of_def)
  next
    case False
    show ?thesis
    proof (cases "x \<in> set (map fst ie_table)")
      case True
      then have "x = 0 \<or> x = 1 \<or> x = 2 \<or> x = 3 \<or> x = 4 \<or> x = 5 \<or> x = 6 \<or> x = 16 \<or> x = 48 \<or> x = 42 \<or> x = 50 \<or> x = 45 \<or> x = 61 \<or>
          x = 114 \<or> x = 113 \<or> x = 117 \<or> x = 130 \<or> x = 131 \<or> x = 132 \<or> x = 126 \<or> x = 37 \<or> x = 40 \<or> x = 7 \<or> x = 32 \<or> x = 56 \<or>
          x = 60 \<or> x = 62 \<or> x = 233"
        by (simp add: ie_table_def)
      then show ?thesis using l
        by (elim disjE) (simp_all add: parse_element_def take_element_def fields_of_def ie_table_def set_field_def own_len_def Let_def word_le_nat_alt)
    next
      case out: False
      then have "map_of ie_table x = None" by (simp add: map_of_eq_None_iff)
      moreover have "parse_element b x p n e = Some e" "x \<noteq> 40"
        using out False by (simp_all add: parse_element_def ie_table_def)
      ultimately show ?thesis using False by (simp add: take_element_def fields_of_def)
    qed
  qed
qed

lemma rdn_element:
  assumes "rdn b pos left = Some (x # n # r)" "unat n \<le> length r"
  shows "rdn b (pos + 2) (unat n) = Some (take (unat n) r)"
    "rdn b (pos + 2 + int (unat n)) (left - 2 - unat n) = Some (drop (unat n) r)"
proof -
  have rng: "0 \<le> pos" "pos + int left \<le> int (length b)" "take left (drop (nat pos) b) = x # n # r"
    using assms(1) by (auto simp: rdn_def split: if_splits)
  have l: "left = length r + 2" using rdn_len[OF assms(1)] by simp
  have "drop (nat pos) b = (x # n # r) @ drop left (drop (nat pos) b)"
    using append_take_drop_id[of left "drop (nat pos) b"] rng(3) by simp
  then have "drop 2 (drop (nat pos) b) = r @ drop left (drop (nat pos) b)" by (metis append_Cons drop_0 drop_Suc_Cons numeral_2_eq_2)
  then have d: "drop (nat (pos + 2)) b = r @ drop left (drop (nat pos) b)" using rng(1) by (simp add: nat_add_distrib add.commute)
  have b: "0 \<le> pos + 2" "pos + 2 + int (unat n) \<le> int (length b)" using rng(1,2) l assms(2) by (simp_all del: of_nat_unat)
  show "rdn b (pos + 2) (unat n) = Some (take (unat n) r)"
    unfolding rdn_def d using b assms(2) by (simp del: of_nat_unat)
  have "nat (pos + 2 + int (unat n)) = unat n + nat (pos + 2)" using rng(1) by (simp add: nat_add_distrib del: of_nat_unat)
  then have d2: "drop (nat (pos + 2 + int (unat n))) b = drop (unat n) (r @ drop left (drop (nat pos) b))"
    using d by (simp only: drop_drop[symmetric])
  have "pos + 2 + int (unat n) + int (left - 2 - unat n) \<le> int (length b)" using rng(1,2) l assms(2) by (simp del: of_nat_unat)
  then show "rdn b (pos + 2 + int (unat n)) (left - 2 - unat n) = Some (drop (unat n) r)"
    unfolding rdn_def d2 using b assms(2) l by (simp del: of_nat_unat)
qed

lemma parse_loop_ok:
  "rdn b pos left = Some data \<Longrightarrow>
   \<exists>crc'. parse_loop filt b pos left e crc = Some (fold take_element (tlvs pos data) e, crc')"
proof (induction filt b pos left e crc arbitrary: data rule: parse_loop.induct)
  case (1 filt b pos left e crc)
  have l: "length data = left" by (rule rdn_len[OF 1(2)])
  show ?case
  proof (cases "left < 2")
    case True
    then have "tlvs pos data = []" using l by (cases data; cases "tl data") auto
    then show ?thesis using True by (simp add: parse_loop.simps)
  next
    case False
    then obtain x n r where d: "data = x # n # r" using l by (cases data; cases "tl data") auto
    have r8: "rd8 b pos = Some x" "rd8 b (pos + 1) = Some n"
      using rdn_rd8[OF 1(2), of 0] rdn_rd8[OF 1(2), of 1] False d by simp_all
    show ?thesis
    proof (cases "unat n > left - 2")
      case True
      then show ?thesis using False r8 d l by (simp add: parse_loop.simps[of _ _ _ left])
    next
      case 2: False
      have le: "unat n \<le> length r" using 2 l d by simp
      note v = rdn_element(1)[OF 1(2)[unfolded d] le] and w = rdn_element(2)[OF 1(2)[unfolded d] le]
      have rng: "0 \<le> pos" "pos + int left \<le> int (length b)" using 1(2) by (auto simp: rdn_def split: if_splits)
      have "\<exists>u. rdn b (pos + 2 - 2) (unat n + 2) = Some u"
        using rng(1,2) 2 False by (simp add: rdn_def del: of_nat_unat)
      then have "element_crc filt b x (pos + 2) n crc \<noteq> None" by (auto simp: element_crc_def)
      then obtain c where c: "element_crc filt b x (pos + 2) n crc = Some c" by blast
      have len: "length r = left - 2" using l d by simp
      show ?thesis
        using False 2 r8 c d len 1(1)[OF False r8 refl refl 2 c parse_element_ok[OF v] w]
        by (simp add: parse_loop.simps[of _ _ _ left] parse_element_ok[OF v] Let_def)
    qed
  qed
qed


subsection \<open>What the table holds\<close>

lemma set_field_simps [simp]:
  "ie_ptr (set_field p n f e) g = (if g = f then Some p else ie_ptr e g)"
  "ie_len (set_field p n f e) g = (if g = f \<and> own_len f then n else ie_len e g)"
  "num_of_quiet_elem (set_field p n f e) = num_of_quiet_elem e"
  "ie_start (set_field p n f e) = ie_start e" "ie_total_len (set_field p n f e) = ie_total_len e"
  by (simp_all add: set_field_def set_ie_def set_ptr_def)

lemma fold_fields:
  "ie_ptr (fold (set_field p n) fs e) g = (if g \<in> set fs then Some p else ie_ptr e g)"
  "ie_len (fold (set_field p n) fs e) g = (if g \<in> set fs \<and> own_len g then n else ie_len e g)"
  "num_of_quiet_elem (fold (set_field p n) fs e) = num_of_quiet_elem e"
  "ie_start (fold (set_field p n) fs e) = ie_start e" "ie_total_len (fold (set_field p n) fs e) = ie_total_len e"
  by (induction fs arbitrary: e) auto

lemma fields_of_40: "fields_of 40 v = [IE_quiet_elem]" by (simp add: fields_of_def ie_table_def)

lemma quiet_only_40: "x \<noteq> 40 \<Longrightarrow> IE_quiet_elem \<notin> set (fields_of x v)"
  by (auto simp: fields_of_def vendor_fields_def ie_table_def split: if_splits option.splits)

lemma quiet_iff [simp]: "IE_quiet_elem \<in> set (fields_of x v) \<longleftrightarrow> x = 40"
  using quiet_only_40[of x v] by (auto simp: fields_of_40)

definition holders :: "ie_field \<Rightarrow> (int \<times> u8 \<times> bytes) list \<Rightarrow> (int \<times> u8 \<times> bytes) list" where
  "holders f els = filter (\<lambda>(i, x, v). f \<in> set (fields_of x v)) els"

lemma take_element_other:
  assumes "f \<noteq> IE_quiet_elem"
  shows "ie_ptr (take_element (i, x, v) e) f = (if f \<in> set (fields_of x v) then Some i else ie_ptr e f)"
    "ie_len (take_element (i, x, v) e) f = (if f \<in> set (fields_of x v) \<and> own_len f then of_nat (length v) else ie_len e f)"
  using assms by (auto simp: take_element_def fields_of_40 fold_fields set_ie_def set_ptr_def)

lemma take_element_quiet:
  "ie_ptr (take_element (i, x, v) e) IE_quiet_elem = (if x = 40 \<and> ie_ptr e IE_quiet_elem = None then Some i else ie_ptr e IE_quiet_elem)"
  "ie_len (take_element (i, x, v) e) IE_quiet_elem = (if x = 40 \<and> ie_ptr e IE_quiet_elem = None then of_nat (length v) else ie_len e IE_quiet_elem)"
  using quiet_only_40[of x v] by (auto simp: take_element_def fold_fields set_ie_def set_ptr_def)

lemma take_element_rest:
  "num_of_quiet_elem (take_element (i, x, v) e) = num_of_quiet_elem e + (if x = 40 then 1 else 0)"
  "ie_start (take_element (i, x, v) e) = ie_start e" "ie_total_len (take_element (i, x, v) e) = ie_total_len e"
  by (auto simp: take_element_def fold_fields set_ie_def set_ptr_def)

lemma fold_other:
  assumes "f \<noteq> IE_quiet_elem"
  shows "ie_ptr (fold take_element els e) f = (if holders f els = [] then ie_ptr e f else Some (fst (last (holders f els))))"
    "ie_len (fold take_element els e) f = (if holders f els = [] \<or> \<not> own_len f then ie_len e f
       else of_nat (length (snd (snd (last (holders f els))))))"
  by (induction els arbitrary: e) (auto simp: holders_def take_element_other[OF assms])

lemma fold_quiet_set:
  "ie_ptr e IE_quiet_elem \<noteq> None \<Longrightarrow> ie_ptr (fold take_element els e) IE_quiet_elem = ie_ptr e IE_quiet_elem"
  "ie_ptr e IE_quiet_elem \<noteq> None \<Longrightarrow> ie_len (fold take_element els e) IE_quiet_elem = ie_len e IE_quiet_elem"
  by (induction els arbitrary: e) (auto simp: take_element_quiet)

lemma fold_quiet:
  "ie_ptr e IE_quiet_elem = None \<Longrightarrow> ie_ptr (fold take_element els e) IE_quiet_elem
     = (if holders IE_quiet_elem els = [] then None else Some (fst (hd (holders IE_quiet_elem els))))"
  "ie_ptr e IE_quiet_elem = None \<Longrightarrow> ie_len (fold take_element els e) IE_quiet_elem
     = (if holders IE_quiet_elem els = [] then ie_len e IE_quiet_elem else of_nat (length (snd (snd (hd (holders IE_quiet_elem els))))))"
proof (induction els arbitrary: e)
  case (Cons el els)
  obtain i x v where el: "el = (i, x, v)" by (cases el)
  {
    case 1
    then show ?case using Cons.IH(1)[of "take_element el e"] fold_quiet_set(1)[of "take_element el e" els]
      by (cases "x = 40") (auto simp: el holders_def take_element_quiet)
  next
    case 2
    then show ?case using Cons.IH(2)[of "take_element el e"] fold_quiet_set(2)[of "take_element el e" els]
      by (cases "x = 40") (auto simp: el holders_def take_element_quiet)
  }
qed (simp_all add: holders_def)

lemma fold_count:
  "num_of_quiet_elem (fold take_element els e) = num_of_quiet_elem e + of_nat (length (holders IE_quiet_elem els))"
  "ie_start (fold take_element els e) = ie_start e" "ie_total_len (fold take_element els e) = ie_total_len e"
  by (induction els arbitrary: e) (auto simp: holders_def take_element_rest)

text \<open>The element a member points to: the first one for the quiet elements, the last one otherwise.\<close>

definition holder :: "ie_field \<Rightarrow> (int \<times> u8 \<times> bytes) list \<Rightarrow> (int \<times> u8 \<times> bytes) option" where
  "holder f els = (if holders f els = [] then None
     else Some (if f = IE_quiet_elem then hd (holders f els) else last (holders f els)))"

lemma parse_elems_ok:
  assumes "rdn b start len = Some data"
  shows "\<exists>e crc'. atbm_ieee802_11_parse_elems_crc b start len filt crc = Some (e, crc') \<and>
    (\<forall>f. ie_ptr e f = map_option fst (holder f (tlvs start data))) \<and>
    (\<forall>f. ie_len e f = (case holder f (tlvs start data) of None \<Rightarrow> 0 | Some (i, x, v) \<Rightarrow> if own_len f then of_nat (length v) else 0)) \<and>
    num_of_quiet_elem e = of_nat (length (holders IE_quiet_elem (tlvs start data)))"
proof -
  let ?e = "fold take_element (tlvs start data) (no_elems start len)"
  obtain crc' where "atbm_ieee802_11_parse_elems_crc b start len filt crc = Some (?e, crc')"
    using parse_loop_ok[OF assms] unfolding atbm_ieee802_11_parse_elems_crc_def by blast
  moreover have "ie_ptr ?e f = map_option fst (holder f (tlvs start data))" for f
    using fold_other(1)[of f] fold_quiet(1) by (cases "f = IE_quiet_elem") (simp_all add: holder_def no_elems_def)
  moreover have "ie_len ?e f = (case holder f (tlvs start data) of None \<Rightarrow> 0 | Some (i, x, v) \<Rightarrow> if own_len f then of_nat (length v) else 0)" for f
    using fold_other(2)[of f] fold_quiet(2)
    by (cases "f = IE_quiet_elem") (simp_all add: holder_def no_elems_def own_len_def split: prod.splits)
  moreover have "num_of_quiet_elem ?e = of_nat (length (holders IE_quiet_elem (tlvs start data)))"
    using fold_count(1) by (simp add: no_elems_def)
  ultimately show ?thesis by blast
qed


subsection \<open>Properties\<close>

text \<open>The parser finds exactly the elements the bytes hold.  It never reads outside the bytes it is given and
  always returns; each member of the result points to the last element with an identifier of that member
  that is long enough for it (the first one for the quiet elements, which are counted), and its length is
  the length of that element.\<close>
theorem elements_recorded:
  assumes "rdn b start len = Some data"
  shows "\<exists>e crc'. atbm_ieee802_11_parse_elems_crc b start len filt crc = Some (e, crc') \<and>
    (\<forall>f. ie_ptr e f = map_option fst (holder f (tlvs start data))) \<and>
    (\<forall>f. ie_len e f = (case holder f (tlvs start data) of None \<Rightarrow> 0 | Some (i, x, v) \<Rightarrow> if own_len f then of_nat (length v) else 0)) \<and>
    num_of_quiet_elem e = of_nat (length (holders IE_quiet_elem (tlvs start data)))"
  using parse_elems_ok[OF assms] .

lemma tlvs_inside:
  "rdn b start len = Some data \<Longrightarrow> (i, x, v) \<in> set (tlvs start data) \<Longrightarrow>
   start \<le> i \<and> i + int (length v) \<le> start + int len \<and> rdn b i (length v) = Some v \<and> length v < 256"
proof (induction start data arbitrary: len rule: tlvs.induct)
  case (1 pos y n r)
  have le: "unat n \<le> length r" using 1(3) by (auto split: if_splits)
  have len: "len = length r + 2" using rdn_len[OF 1(2)] by simp
  have len2: "len - 2 - unat n = length r - unat n" using len by simp
  from 1(3) le consider "(i, x, v) = (pos + 2, y, take (unat n) r)" | "(i, x, v) \<in> set (tlvs (pos + 2 + int (unat n)) (drop (unat n) r))"
    by auto
  then show ?case
  proof cases
    case 1
    then have e: "i = pos + 2" "v = take (unat n) r" "length v = unat n" using le by auto
    have "unat n < 256" using unat_lt2p[of n] by simp
    then show ?thesis using rdn_element(1)[OF "1.prems"(1) le] le len unfolding e by (simp add: e(3)[unfolded e(2)] del: of_nat_unat)
  next
    case 2
    then show ?thesis using "1.IH"[OF le rdn_element(2)[OF "1"(2) le]] le len by (auto simp: int_ops simp del: of_nat_unat)
  qed
qed simp_all

lemma holder_mem: "holder f els = Some (i, x, v) \<Longrightarrow> (i, x, v) \<in> set els \<and> f \<in> set (fields_of x v)"
proof -
  assume a: "holder f els = Some (i, x, v)"
  then have "(i, x, v) \<in> set (holders f els)"
    by (auto simp: holder_def split: if_splits) (metis hd_in_set last_in_set)+
  then show ?thesis by (auto simp: holders_def)
qed

definition ie_size :: "ie_field \<Rightarrow> nat" where
  "ie_size f = (case f of IE_tim \<Rightarrow> 4 | IE_ht_cap_elem \<Rightarrow> 26 | IE_ht_info_elem \<Rightarrow> 22 | IE_mesh_config \<Rightarrow> 7 | IE_rann \<Rightarrow> 21
     | IE_wpa \<Rightarrow> 4 | IE_wps_ie \<Rightarrow> 4 | IE_p2p_ie \<Rightarrow> 4 | IE_wfd \<Rightarrow> 4 | IE_wmm_info \<Rightarrow> 5 | IE_wmm_param \<Rightarrow> 5 | _ \<Rightarrow> 0)"

lemma size_of_holder: "f \<in> set (fields_of x v) \<Longrightarrow> ie_size f \<le> length v"
  by (auto simp: fields_of_def vendor_fields_def ie_table_def ie_size_def split: if_splits option.splits)

text \<open>What a member of the result points to lies inside the bytes that were parsed: the length that goes with
  it, and the structure or the vendor's header that is read through it.\<close>
theorem elements_inside:
  assumes "rdn b start len = Some data" "atbm_ieee802_11_parse_elems_crc b start len filt crc = Some (e, crc')" "ie_ptr e f = Some p"
  shows "start \<le> p \<and> p + int (unat (ie_len e f)) \<le> start + int len \<and> p + int (ie_size f) \<le> start + int len"
proof -
  obtain e' c where e: "atbm_ieee802_11_parse_elems_crc b start len filt crc = Some (e', c)"
    "\<And>f. ie_ptr e' f = map_option fst (holder f (tlvs start data))"
    "\<And>f. ie_len e' f = (case holder f (tlvs start data) of None \<Rightarrow> 0 | Some (i, x, v) \<Rightarrow> if own_len f then of_nat (length v) else 0)"
    "num_of_quiet_elem e' = of_nat (length (holders IE_quiet_elem (tlvs start data)))"
    using parse_elems_ok[OF assms(1), of filt crc] by blast
  have E: "e' = e" using e(1) assms(2) by simp
  obtain x v where h: "holder f (tlvs start data) = Some (p, x, v)"
    using e(2)[of f] assms(3) E by (cases "holder f (tlvs start data)") auto
  note m = holder_mem[OF h]
  have i: "start \<le> p" "p + int (length v) \<le> start + int len" "length v < 256" using tlvs_inside[OF assms(1)] m by blast+
  have "unat (ie_len e f) \<le> length v" using e(3)[of f] h i(3) E by (auto simp: unat_of_nat)
  then show ?thesis using i size_of_holder[of f x v] m by (auto simp del: of_nat_unat)
qed

definition ie_bytes :: "u8 \<times> bytes \<Rightarrow> bytes" where
  "ie_bytes el = fst el # of_nat (length (snd el)) # snd el"

lemma tlvs_built:
  "\<forall>el\<in>set els. length (snd el) < 256 \<Longrightarrow> map snd (tlvs i (concat (map ie_bytes els))) = els"
proof (induction els arbitrary: i)
  case (Cons el els)
  obtain x v where el: "el = (x, v)" by (cases el)
  then have "unat (of_nat (length v) :: u8) = length v" using Cons.prems by (simp add: unat_of_nat)
  then show ?case using Cons by (simp add: el ie_bytes_def)
qed simp

definition built_holder :: "ie_field \<Rightarrow> (u8 \<times> bytes) list \<Rightarrow> (u8 \<times> bytes) option" where
  "built_holder f els = (let h = filter (\<lambda>(x, v). f \<in> set (fields_of x v)) els
     in if h = [] then None else Some (if f = IE_quiet_elem then hd h else last h))"

lemma built_holder_ok: "map_option snd (holder f els) = built_holder f (map snd els)"
proof -
  have "map snd (holders f els) = filter (\<lambda>(x, v). f \<in> set (fields_of x v)) (map snd els)"
    by (induction els) (auto simp: holders_def)
  then have m: "filter (\<lambda>(x, v). f \<in> set (fields_of x v)) (map snd els) = map snd (holders f els)" by (rule sym)
  show ?thesis unfolding built_holder_def m holder_def by (simp add: Let_def hd_map last_map)
qed

text \<open>What was built is found.  When the bytes are a sequence of elements, each an identifier, its length and a
  value of at most 255 bytes, each member points to the value of the last element built for it (the
  first quiet element), and a member without element is NULL.\<close>
theorem built_elements_found:
  assumes "rdn b start len = Some (concat (map ie_bytes els))" "\<forall>el\<in>set els. length (snd el) < 256"
  shows "\<exists>e crc'. atbm_ieee802_11_parse_elems_crc b start len filt crc = Some (e, crc') \<and>
    (\<forall>f. case built_holder f els of None \<Rightarrow> ie_ptr e f = None
      | Some (x, v) \<Rightarrow> \<exists>p. ie_ptr e f = Some p \<and> rdn b p (length v) = Some v)"
proof -
  let ?t = "tlvs start (concat (map ie_bytes els))"
  obtain e c where e: "atbm_ieee802_11_parse_elems_crc b start len filt crc = Some (e, c)"
    "\<And>f. ie_ptr e f = map_option fst (holder f ?t)"
    "\<And>f. ie_len e f = (case holder f ?t of None \<Rightarrow> 0 | Some (i, x, v) \<Rightarrow> if own_len f then of_nat (length v) else 0)"
    "num_of_quiet_elem e = of_nat (length (holders IE_quiet_elem ?t))"
    using parse_elems_ok[OF assms(1), of filt crc] by blast
  have "case built_holder f els of None \<Rightarrow> ie_ptr e f = None
      | Some (x, v) \<Rightarrow> \<exists>p. ie_ptr e f = Some p \<and> rdn b p (length v) = Some v" for f
  proof (cases "holder f ?t")
    case None
    then show ?thesis using built_holder_ok[of f ?t] e(2)[of f] by (simp add: tlvs_built[OF assms(2)] split: option.splits)
  next
    case (Some el)
    obtain p x v where el: "el = (p, x, v)" by (cases el)
    have "built_holder f els = Some (x, v)" using built_holder_ok[of f ?t] Some el by (simp add: tlvs_built[OF assms(2)])
    moreover have "rdn b p (length v) = Some v" using holder_mem[of f ?t p x v] tlvs_inside[OF assms(1)] Some el by blast
    ultimately show ?thesis using e(2)[of f] Some el by simp
  qed
  then show ?thesis using e(1) by blast
qed

text \<open>The private element of a beacon whose last element is the one of the secondary channel.\<close>

definition demo_ies :: bytes where
  "demo_ies = [233, 2, 7, 7] @ [0, 3, 97, 98, 99] @ [62, 1, 3] @ [221, 9, 0x00, 0x50]"

theorem elements_recorded_witness:
  "\<exists>e. map_option fst (atbm_ieee802_11_parse_elems_crc demo_ies 0 16 0 0) = Some e \<and> ie_ptr e IE_ssid = Some 6 \<and> ie_len e IE_ssid = 3 \<and>
     ie_ptr e IE_secondary_ch_elem = Some 11 \<and> ie_ptr e IE_atbm_special = Some 11 \<and> ie_ptr e IE_wpa = None"
proof -
  have r: "rdn demo_ies 0 16 = Some demo_ies" by (simp add: rdn_def demo_ies_def)
  have t: "tlvs 0 demo_ies = [(2, 233, [7, 7]), (6, 0, [97, 98, 99]), (11, 62, [3])]" by (simp add: demo_ies_def)
  have f: "fields_of 233 [7, 7] = [IE_atbm_special]" "fields_of 0 [97, 98, 99] = [IE_ssid]" "fields_of 62 [3] = [IE_secondary_ch_elem, IE_atbm_special]"
    by (simp_all add: fields_of_def ie_table_def)
  show ?thesis using elements_recorded[OF r, of 0 0] by (auto simp: t holder_def holders_def f own_len_def)
qed

theorem elements_inside_witness:
  "\<exists>e c p. atbm_ieee802_11_parse_elems_crc demo_ies 0 16 0 0 = Some (e, c) \<and> ie_ptr e IE_ssid = Some p \<and> p + int (unat (ie_len e IE_ssid)) \<le> 16"
proof -
  have r: "rdn demo_ies 0 16 = Some demo_ies" by (simp add: rdn_def demo_ies_def)
  have t: "holder IE_ssid (tlvs 0 demo_ies) = Some (6, 0, [97, 98, 99])" by code_simp
  obtain e c where e: "atbm_ieee802_11_parse_elems_crc demo_ies 0 16 0 0 = Some (e, c)" "ie_ptr e IE_ssid = Some 6"
    using parse_elems_ok[OF r, of 0 0] t by (metis fst_conv option.simps(9))
  then show ?thesis using elements_inside[OF r e] by auto
qed

theorem built_elements_found_witness:
  "\<exists>e. map_option fst (atbm_ieee802_11_parse_elems_crc (concat (map ie_bytes [(0, [97, 98, 99]), (3, [11])])) 0 8 0 0) = Some e \<and>
     (\<exists>p. ie_ptr e IE_ds_params = Some p \<and> rdn (concat (map ie_bytes [(0, [97, 98, 99]), (3, [11])])) p 1 = Some [11])"
proof -
  let ?els = "[(0, [97, 98, 99]), (3, [11])] :: (u8 \<times> bytes) list"
  have r: "rdn (concat (map ie_bytes ?els)) 0 8 = Some (concat (map ie_bytes ?els))" by (simp add: rdn_def ie_bytes_def)
  have h: "built_holder IE_ds_params ?els = Some (3, [11])" by code_simp
  obtain e c where "atbm_ieee802_11_parse_elems_crc (concat (map ie_bytes ?els)) 0 8 0 0 = Some (e, c)"
    "\<forall>f. case built_holder f ?els of None \<Rightarrow> ie_ptr e f = None
      | Some (x, v) \<Rightarrow> \<exists>p. ie_ptr e f = Some p \<and> rdn (concat (map ie_bytes ?els)) p (length v) = Some v"
    using built_elements_found[OF r, of 0 0] by auto
  moreover from this(2) have "case built_holder IE_ds_params ?els of None \<Rightarrow> ie_ptr e IE_ds_params = None
      | Some (x, v) \<Rightarrow> \<exists>p. ie_ptr e IE_ds_params = Some p \<and> rdn (concat (map ie_bytes ?els)) p (length v) = Some v" by blast
  ultimately show ?thesis unfolding h by simp
qed

end
