(* ===== verification/Spec2Isabelle.thy ===== *)
theory Spec2Isabelle
  imports Prelude Ieee80211 Skbuf Skb_Queue Ieee80211_Data Reorder Reorder_Window Reorder_Props
    Wsm_Buf Hw_State Wsm Wsm_Rx Wsm_Api Wsm_Props Wsm_Safety
    Chains Os_Timer Os_Timer_Props Os_Work Sta_State Agg_Rx Agg_Props Sta_Info Sta_Props
    Sdio_Thread Os_Sdio Hwio Hwio_Props Bh_Tx Bh_Tx_Props Bh_Tx_Burst
    Bh_Rx Bh_Rx_Props Rx_Path Rx_Path_Props Tx_Path Tx_Path_Props Iface Sta_Events Sta_Events_Props Ie_Parse Ie_Props
begin

text \<open>The WLAN driver of AltoBeam's ATBM6441 for the AnKai V330 (RTOS, SDIO bus), hal_apollo/ and
  os/ankai_V330/ under src/.

  The program.  The firmware on the chip runs most of the 802.11 stack.  The driver exchanges WSM
  messages with it over SDIO.  Its bus thread (hal_apollo/bh_sdio.c, apollo_sdio.c) reads messages
  and gives them to wsm.c, which handles confirmations of requests and indications; a receive
  indication carries an 802.11 frame, which txrx.c and rx.c check, reorder, convert to 802.3
  and pass to the network stack.  In the other direction frames of the network stack are
  converted (iface.c, atbm_os_proto.c), given a transmit header (txrx.c) and queued for the bus
  thread.  Requests of the control interface are WSM messages that wait for their confirmation.
  sta_info.c keeps the peer stations, agg-rx.c their block-ack sessions.  os/ankai_V330
  replaces the kernel interfaces the driver was written for: socket buffers and their queues,
  timers, work queues, bit operations, locks.

  The configuration is the one of os/ankai_V330/Makefile: 32 bit, little endian, HZ = 1000,
  SDIO_BUS, CONFIG_TX_NO_CONFIRM, OPER_CLOCK_USE_SEM, PROJ_TYPE >= ARES_A; not LINUX_OS, not
  CONFIG_PM.

  Conventions.  None is a run that C does not define or that never returns: an access outside an
  allocation, the endless loop of BUG_ON, a list that was corrupted into a cycle, waiting for ever.
  Error codes are ordinary values.  Machine integers are words of their width.  What is
  not in the sources is an argument: the allocators, the tick counter, the vtimers of the
  system, the bus and the firmware, and the changes other threads make while one waits.

  Theories, and the code they model:

  Prelude            memory blocks, byte access, words
  Ieee80211          os/ankai_V330/atbm_os_proto.c: frame control predicates, header length, channels
  Skbuf              atbm_os_skbuf.c: a socket buffer, its pointers and copies
  Skb_Queue          atbm_os_skbuf.c: queues of buffers as linked rings, with the locale fifo
  Ieee80211_Data     atbm_os_proto.c, hal_apollo/rx.c: 802.11 <-> 802.3 and A-MSDU
  Reorder            hal_apollo/rx.c: the A-MPDU reorder buffer
  Reorder_Window     its abstract sliding window and the simulation
  Reorder_Props      the properties of the reorder buffer
  Wsm_Buf            wsm.c, wsm.h: message buffers, reading and writing fields
  Hw_State           apollo.h: the state of the adapter, struct atbm_common
  Wsm                wsm.c: sending a command, what the bus thread sends next
  Wsm_Rx             wsm.c: confirmations and indications
  Wsm_Api            wsm.c: the request functions
  Wsm_Props, Wsm_Safety  results of requests; safety of the message parser
  Chains             singly linked chains, hash tables over them, the locale keyed_table
  Os_Timer, Os_Timer_Props   atbm_os_timer.c: the timers (an interpretation of keyed_table)
  Os_Work            atbm_os_queue.c, atbm_os_atomic.c: work queues and bit operations
  Sta_State          sta_info.h: stations and their block-ack state
  Agg_Rx, Agg_Props  agg-rx.c: receive block-ack sessions
  Sta_Info, Sta_Props    sta_info.c: the station table (an interpretation of keyed_table)
  Sdio_Thread        apollo_sdio.c: the wake-up protocol of the two bus threads
  Os_Sdio            atbm_os_sdio.c: the SDIO layer of the port, over the SDK's transfers
  Hwio, Hwio_Props   hwio_sdio.c, hwio_sdio.h, sbus.h: registers, message queue and memory of the
                     chip, with the locale unchecked_bus
  Bh_Tx, Bh_Tx_Props, Bh_Tx_Burst   bh_sdio.c: sending, from the queue to the bursts on the bus
  Bh_Rx, Bh_Rx_Props  bh_sdio.c: reading messages, unpacking the buffers of received frames
  Rx_Path, Rx_Path_Props  rx.c, atbm_rx_cb of txrx.c: checks, decryption, reordering, delivery of a frame
  Tx_Path, Tx_Path_Props  txrx.c, iface.c, atbm_os_skbuf.c: from a frame of the network stack to the queue of messages
  Iface              iface.c, atbm_os_skbuf.c: management frames, the work of the interface, the link
  Sta_Events, Sta_Events_Props  iface.c, main.c: stations that come and go, opening and stopping, the
                     handler of the events
  Ie_Parse, Ie_Props  util.c, atbm_os_misc.c: the parser of information elements, which nothing calls, and its CRC

  What the properties show.  The reorder buffer implements an abstract window and, but for EAPOL frames, delivers in
  order, when the size of the window divides 4096 (C1, C10).  The transmit thread puts the queued
  messages on the bus in order, each once (C2), and a buffer of received frames that is not longer than the
  statistics can count is unpacked into exactly its frames (C4); a frame encrypted by the access point reaches the
  network stack as its Ethernet frame (C5), none does from a station that is not authorised (C8); an
  Ethernet frame of the network stack reaches the bus as one message (C3), from which a receiver
  gets the same Ethernet frame back (C23).  The event of a connection opens both directions
  (C7), and no sequence of events breaks the table of stations, when the lists and the texts of the
  firmware keep to the bounds that the driver does not check (C6).  The station table and the
  timer table are maps (C11, C28), queues and work queues keep their order (C27, C29).
  Requests return what the firmware answers and leave the interface idle (C12, C13), after however
  long a wait (C35).  The parser of the messages does not read outside a message whose length field is
  true (C25), the one of aggregates not at all (C26).  A call that nothing interrupts wakes a bus thread
  that sleeps (C24).  Others show where the code does not do what it means to; PROJECT.json
  lists them as findings.

  Loops and bounds.  The loops over the reorder buffer carry the number of its slots as fuel, and
  the properties show that it is enough; release_reorder_frames, the A-MSDU loop and the queues
  terminate by a measure or are partial functions whose results are proved.  The wait for a
  confirmation consumes a list of rounds, one for every time the sender is woken.

  Not modelled.  The set-up functions of iface.c and main.c, which allocate the structures and register
  them with the system, the rest of util.c, the probe and interrupt part of
  apollo_sdio.c and the control interface (atbm_ioctl.c, module_fs.c); tx.c, which is
  compiled out but for a few functions; the SPI variants, pm.c and the Linux ports, which this
  configuration excludes; dcxo_dpll.c (tables of the radio clock), firmware.h (the firmware
  image), the Kconfig program, the command line and tool programs, and the wrappers of
  os/ankai_V330 that only call the system.\<close>

end
